(* ===== verification/Sync_Prelude.thy ===== *)
theory Sync_Prelude
  imports Main "HOL-Library.Word"
begin

text \<open>
  Shared material of the development: the result type that stands for a JavaScript
  computation that may throw, byte strings, the insertion-ordered \<^verbatim>\<open>Map\<close> of JavaScript
  as an association list together with its interface as a locale, and the slicing loop
  (\<^verbatim>\<open>for (start = 0; start < xs.length; start += n) xs.slice(start, start + n)\<close>) that every
  batch sender of the sync peer uses.

  An error is the message of the thrown \<^verbatim>\<open>Error\<close>.  Where the source interpolates values
  into a message, the model keeps the constant text of the message only.
\<close>

section \<open>Results of computations that may throw\<close>

type_synonym error = string
type_synonym 'a res = "error + 'a"

named_theorems res_simps \<open>rewriting of throwing computations\<close>
named_theorems map_simps \<open>rewriting of insertion-ordered maps\<close>

definition bindR :: "'a res \<Rightarrow> ('a \<Rightarrow> 'b res) \<Rightarrow> 'b res" where
  "bindR m f = (case m of Inl e \<Rightarrow> Inl e | Inr x \<Rightarrow> f x)"

definition guardR :: "bool \<Rightarrow> error \<Rightarrow> unit res" where
  "guardR b e = (if b then Inr () else Inl e)"

text \<open>\<^verbatim>\<open>Array.prototype.map\<close> with a callback that may throw: the first error wins.\<close>

fun mapR :: "('a \<Rightarrow> 'b res) \<Rightarrow> 'a list \<Rightarrow> 'b list res" where
  "mapR f [] = Inr []"
| "mapR f (x # xs) = bindR (f x) (\<lambda>y. bindR (mapR f xs) (\<lambda>ys. Inr (y # ys)))"

definition is_ok :: "'a res \<Rightarrow> bool" where
  "is_ok r = (case r of Inl _ \<Rightarrow> False | Inr _ \<Rightarrow> True)"

lemma bindR_Inl [simp, res_simps]: "bindR (Inl e) f = Inl e"
  by (simp add: bindR_def)

lemma bindR_Inr [simp, res_simps]: "bindR (Inr x) f = f x"
  by (simp add: bindR_def)

lemma bindR_eq_Inr [res_simps]: "bindR m f = Inr y \<longleftrightarrow> (\<exists>x. m = Inr x \<and> f x = Inr y)"
  by (cases m) simp_all

lemma bindR_eq_Inl [res_simps]:
  "bindR m f = Inl e \<longleftrightarrow> m = Inl e \<or> (\<exists>x. m = Inr x \<and> f x = Inl e)"
  by (cases m) simp_all

lemma bindR_assoc: "bindR (bindR m f) g = bindR m (\<lambda>x. bindR (f x) g)"
  by (cases m) simp_all

lemma guardR_eq_Inr [simp, res_simps]: "guardR b e = Inr u \<longleftrightarrow> b"
  by (simp add: guardR_def)

lemma guardR_eq_Inl [simp, res_simps]: "guardR b e = Inl e' \<longleftrightarrow> \<not> b \<and> e' = e"
  by (auto simp: guardR_def)

lemma is_ok_simps [simp]: "is_ok (Inr x)" "\<not> is_ok (Inl e)"
  by (simp_all add: is_ok_def)

lemma is_ok_iff: "is_ok r \<longleftrightarrow> (\<exists>x. r = Inr x)"
  by (cases r) simp_all

lemma mapR_Inr_iff: "mapR f xs = Inr ys \<longleftrightarrow> list_all2 (\<lambda>x y. f x = Inr y) xs ys"
  by (induction xs arbitrary: ys) (auto simp: bindR_eq_Inr list_all2_Cons1)

lemma mapR_total: "(\<And>x. x \<in> set xs \<Longrightarrow> f x = Inr (g x)) \<Longrightarrow> mapR f xs = Inr (map g xs)"
  by (induction xs) simp_all

lemma mapR_length: "mapR f xs = Inr ys \<Longrightarrow> length ys = length xs"
  by (auto simp: mapR_Inr_iff dest: list_all2_lengthD)

text \<open>A pointwise round trip lifts to lists.\<close>

lemma mapR_roundtrip:
  assumes "mapR f xs = Inr ys" and "\<And>x y. x \<in> set xs \<Longrightarrow> f x = Inr y \<Longrightarrow> g y = Inr (h x)"
  shows "mapR g ys = Inr (map h xs)"
  using assms
proof (induction xs arbitrary: ys)
  case (Cons x xs)
  then obtain z zs where z: "f x = Inr z" "mapR f xs = Inr zs" "ys = z # zs"
    by (auto simp: bindR_eq_Inr)
  with Cons have "mapR g zs = Inr (map h xs)" by simp
  with z Cons.prems(2) [of x z] show ?case by simp
qed simp

section \<open>Bytes\<close>

type_synonym byte = "8 word"
type_synonym bytes = "byte list"

section \<open>Insertion-ordered maps\<close>

text \<open>
  A JavaScript \<^verbatim>\<open>Map\<close> iterates in insertion order; \<^verbatim>\<open>set\<close> on a present key keeps the
  key's position, on an absent key appends; \<^verbatim>\<open>delete\<close> removes the entry.
\<close>

type_synonym ('k, 'v) jsmap = "('k \<times> 'v) list"

fun js_set :: "'k \<Rightarrow> 'v \<Rightarrow> ('k, 'v) jsmap \<Rightarrow> ('k, 'v) jsmap" where
  "js_set k v [] = [(k, v)]"
| "js_set k v ((k', v') # m) = (if k' = k then (k, v) # m else (k', v') # js_set k v m)"

definition js_delete :: "'k \<Rightarrow> ('k, 'v) jsmap \<Rightarrow> ('k, 'v) jsmap" where
  "js_delete k m = filter (\<lambda>(k', _). k' \<noteq> k) m"

definition js_get :: "('k, 'v) jsmap \<Rightarrow> 'k \<Rightarrow> 'v option" where
  "js_get m k = map_of m k"

definition js_has :: "('k, 'v) jsmap \<Rightarrow> 'k \<Rightarrow> bool" where
  "js_has m k = (js_get m k \<noteq> None)"

definition js_wf :: "('k, 'v) jsmap \<Rightarrow> bool" where
  "js_wf m = distinct (map fst m)"

text \<open>\<^verbatim>\<open>Map\<close> and \<^verbatim>\<open>Set\<close> as an interface: what a lookup returns after an update.\<close>

locale keyed_store =
  fixes get :: "'m \<Rightarrow> 'k \<Rightarrow> 'v option"
    and put :: "'k \<Rightarrow> 'v \<Rightarrow> 'm \<Rightarrow> 'm"
    and del :: "'k \<Rightarrow> 'm \<Rightarrow> 'm"
    and emp :: 'm
    and wf :: "'m \<Rightarrow> bool"
  assumes get_emp: "get emp k = None"
    and get_put: "wf m \<Longrightarrow> get (put k v m) k' = (if k' = k then Some v else get m k')"
    and get_del: "wf m \<Longrightarrow> get (del k m) k' = (if k' = k then None else get m k')"
    and wf_emp: "wf emp"
    and wf_put: "wf m \<Longrightarrow> wf (put k v m)"
    and wf_del: "wf m \<Longrightarrow> wf (del k m)"
begin

definition put_all :: "('k \<times> 'v) list \<Rightarrow> 'm \<Rightarrow> 'm" where
  "put_all kvs m = fold (\<lambda>(k, v). put k v) kvs m"

definition del_all :: "'k list \<Rightarrow> 'm \<Rightarrow> 'm" where
  "del_all ks m = fold del ks m"

lemma wf_put_all: "wf m \<Longrightarrow> wf (put_all kvs m)"
  unfolding put_all_def by (induction kvs arbitrary: m) (auto simp: wf_put)

lemma wf_del_all: "wf m \<Longrightarrow> wf (del_all ks m)"
  unfolding del_all_def by (induction ks arbitrary: m) (auto simp: wf_del)

lemma get_put_all: "wf m \<Longrightarrow> get (put_all kvs m) k =
    (case map_of (rev kvs) k of Some v \<Rightarrow> Some v | None \<Rightarrow> get m k)"
proof (induction kvs arbitrary: m)
  case Nil
  then show ?case by (simp add: put_all_def)
next
  case (Cons kv kvs)
  obtain k0 v0 where kv: "kv = (k0, v0)" by (cases kv)
  have "get (put_all kvs (put k0 v0 m)) k =
      (case map_of (rev kvs) k of Some v \<Rightarrow> Some v | None \<Rightarrow> get (put k0 v0 m) k)"
    using Cons by (simp add: wf_put)
  then show ?case
    using Cons.prems kv by (auto simp: put_all_def get_put map_add_def split: option.splits)
qed

lemma get_del_all: "wf m \<Longrightarrow> get (del_all ks m) k = (if k \<in> set ks then None else get m k)"
  unfolding del_all_def
  by (induction ks arbitrary: m) (auto simp: wf_del get_del)

lemma put_del_absent: "wf m \<Longrightarrow> get m k = None \<Longrightarrow> get (del k (put k v m)) k' = get m k'"
  by (simp add: get_put get_del wf_put)

end

lemma js_get_Nil [simp, map_simps]: "js_get [] k = None"
  by (simp add: js_get_def)

lemma js_get_set [simp, map_simps]:
  "js_get (js_set k v m) k' = (if k' = k then Some v else js_get m k')"
  by (induction k v m rule: js_set.induct) (auto simp: js_get_def)

lemma js_get_delete [simp, map_simps]:
  "js_get (js_delete k m) k' = (if k' = k then None else js_get m k')"
  by (induction m) (auto simp: js_get_def js_delete_def)

lemma set_fst_js_set [simp, map_simps]: "fst ` set (js_set k v m) = insert k (fst ` set m)"
  by (induction k v m rule: js_set.induct) auto

lemma js_wf_Nil [simp]: "js_wf []"
  by (simp add: js_wf_def)

lemma js_wf_set [simp]: "js_wf m \<Longrightarrow> js_wf (js_set k v m)"
  unfolding js_wf_def by (induction k v m rule: js_set.induct) auto

lemma js_wf_delete [simp]: "js_wf m \<Longrightarrow> js_wf (js_delete k m)"
  unfolding js_wf_def js_delete_def by (induction m) auto

interpretation jsm: keyed_store js_get js_set js_delete "[]" js_wf
  by unfold_locales simp_all

lemma js_has_simps [simp, map_simps]:
  "\<not> js_has [] k"
  "js_has (js_set k v m) k' \<longleftrightarrow> k' = k \<or> js_has m k'"
  "js_has (js_delete k m) k' \<longleftrightarrow> k' \<noteq> k \<and> js_has m k'"
  by (auto simp: js_has_def)

lemma js_has_keys: "js_has m k \<longleftrightarrow> k \<in> fst ` set m"
  by (simp add: js_has_def js_get_def map_of_eq_None_iff)

lemma js_set_fresh: "\<not> js_has m k \<Longrightarrow> js_set k v m = m @ [(k, v)]"
  by (induction m) (auto simp: js_has_keys split: if_splits)

lemma js_get_in: "js_get m k = Some v \<Longrightarrow> (k, v) \<in> set m"
  by (simp add: js_get_def map_of_SomeD)

lemma js_delete_absent: "js_get m k = None \<Longrightarrow> js_delete k m = m"
  unfolding js_get_def js_delete_def by (induction m) (auto split: if_splits)

section \<open>Slicing loops\<close>

text \<open>\<^verbatim>\<open>xs.slice(start, start + n)\<close> for \<^verbatim>\<open>start = 0, n, 2 n, \<dots>\<close> below \<^verbatim>\<open>xs.length\<close>.\<close>

function chunks :: "nat \<Rightarrow> 'a list \<Rightarrow> 'a list list" where
  "chunks n xs = (if n = 0 \<or> xs = [] then [] else take n xs # chunks n (drop n xs))"
  by pat_completeness auto
termination
  by (relation "measure (\<lambda>(n, xs). length xs)") auto

declare chunks.simps [simp del]

lemma chunks_Nil [simp]: "chunks n [] = []"
  by (simp add: chunks.simps)

lemma chunks_step: "0 < n \<Longrightarrow> xs \<noteq> [] \<Longrightarrow> chunks n xs = take n xs # chunks n (drop n xs)"
  by (simp add: chunks.simps [of n xs])

lemma chunks_eq_Nil: "0 < n \<Longrightarrow> chunks n xs = [] \<longleftrightarrow> xs = []"
  by (simp add: chunks.simps [of n xs])

lemma concat_chunks: "0 < n \<Longrightarrow> concat (chunks n xs) = xs"
proof (induction n xs rule: chunks.induct)
  case (1 n xs)
  then show ?case by (cases "xs = []") (simp_all add: chunks_step)
qed

lemma chunks_bounds: "c \<in> set (chunks n xs) \<Longrightarrow> c \<noteq> [] \<and> length c \<le> n"
proof (induction n xs rule: chunks.induct)
  case (1 n xs)
  show ?case
  proof (cases "n = 0 \<or> xs = []")
    case False
    with 1 show ?thesis by (auto simp: chunks_step)
  qed (use 1 in \<open>simp add: chunks.simps [of n xs]\<close>)
qed

lemma chunks_single: "0 < n \<Longrightarrow> xs \<noteq> [] \<Longrightarrow> length xs \<le> n \<Longrightarrow> chunks n xs = [xs]"
  by (simp add: chunks_step)

end
