(* ===== verification/Node_Ids.thy ===== *)
theory Node_Ids
  imports Sync_Prelude
begin

text \<open>
  Node and replica identifiers, \<^verbatim>\<open>packages/treecrdt-ts/src/ids.ts\<close>: hexadecimal encoding
  and decoding of byte strings, the canonical 32-digit form of a node id, and the lenient
  decoders for values that come back from a database bridge.

  A string is a list of characters with codes below 256.  \<^verbatim>\<open>hexToBytes\<close> has two code paths
  (Node's \<^verbatim>\<open>Buffer\<close> and a loop); both read the digits pairwise, after the same checks.
\<close>

section \<open>Characters and strings\<close>

definition is_ws :: "char \<Rightarrow> bool" where
  "is_ws c = (of_char c \<in> {9, 10, 11, 12, 13, 32, 160 :: nat})"

definition trim_js :: "string \<Rightarrow> string" where
  "trim_js s = rev (dropWhile is_ws (rev (dropWhile is_ws s)))"

definition is_dec_char :: "char \<Rightarrow> bool" where
  "is_dec_char c = (48 \<le> (of_char c :: nat) \<and> (of_char c :: nat) \<le> 57)"

definition is_hex_char :: "char \<Rightarrow> bool" where
  "is_hex_char c = (is_dec_char c \<or> (65 \<le> (of_char c :: nat) \<and> (of_char c :: nat) \<le> 70)
     \<or> (97 \<le> (of_char c :: nat) \<and> (of_char c :: nat) \<le> 102))"

definition to_lower :: "char \<Rightarrow> char" where
  "to_lower c = (if 65 \<le> (of_char c :: nat) \<and> (of_char c :: nat) \<le> 90
     then char_of (of_char c + 32 :: nat) else c)"

definition toLowerCase :: "string \<Rightarrow> string" where
  "toLowerCase s = map to_lower s"

definition hex_val :: "char \<Rightarrow> nat" where
  "hex_val c = (if is_dec_char c then of_char c - 48
     else if 97 \<le> (of_char c :: nat) then of_char c - 87 else of_char c - 55)"

definition hex_digit :: "nat \<Rightarrow> char" where
  "hex_digit n = (if n < 10 then char_of (48 + n) else char_of (87 + n))"

definition padStart :: "nat \<Rightarrow> char \<Rightarrow> string \<Rightarrow> string" where
  "padStart n c s = replicate (n - length s) c @ s"

text \<open>\<^verbatim>\<open>toString(16)\<close> of a non-negative number, most significant digit first.\<close>

fun toString16 :: "nat \<Rightarrow> string" where
  "toString16 n = (if n < 16 then [hex_digit n] else toString16 (n div 16) @ [hex_digit (n mod 16)])"

declare toString16.simps [simp del]

definition toString16_int :: "int \<Rightarrow> string" where
  "toString16_int v = (if v < 0 then CHR ''-'' # toString16 (nat (- v)) else toString16 (nat v))"

definition parse_dec :: "string \<Rightarrow> nat" where
  "parse_dec s = foldl (\<lambda>a c. 10 * a + hex_val c) 0 s"

section \<open>Hexadecimal\<close>

definition stripHexPrefix :: "string \<Rightarrow> string" where
  "stripHexPrefix hex = (if take 2 hex = ''0x'' \<or> take 2 hex = ''0X'' then drop 2 hex else hex)"

definition bytesToHex :: "bytes \<Rightarrow> string" where
  "bytesToHex bs = concat (map (\<lambda>b. padStart 2 CHR ''0'' (toString16 (unat b))) bs)"

fun hex_pairs :: "string \<Rightarrow> bytes" where
  "hex_pairs (a # b # cs) = of_nat (16 * hex_val a + hex_val b) # hex_pairs cs"
| "hex_pairs _ = []"

definition hexToBytes :: "string \<Rightarrow> bytes res" where
  "hexToBytes hex = (let clean = trim_js (stripHexPrefix hex) in
     if length clean mod 2 \<noteq> 0 then Inl ''hex must have even length''
     else if \<not> list_all is_hex_char clean then Inl ''invalid hex''
     else Inr (hex_pairs clean))"

section \<open>Node ids\<close>

definition ROOT_NODE_ID_HEX :: string where
  "ROOT_NODE_ID_HEX = replicate 32 CHR ''0''"

definition TRASH_NODE_ID_HEX :: string where
  "TRASH_NODE_ID_HEX = replicate 32 CHR ''f''"

definition normalizeNodeId :: "string \<Rightarrow> string res" where
  "normalizeNodeId nodeId =
    (let raw = trim_js nodeId; clean = stripHexPrefix raw in
     if clean = [] then Inl ''NodeId must not be empty''
     else if length clean = 32 \<and> list_all is_hex_char clean then Inr (toLowerCase clean)
     else if list_all is_dec_char clean then
       (let v = parse_dec clean in
        if v > 2 ^ 128 - 1 then Inl ''NodeId (decimal) out of u128 range''
        else Inr (padStart 32 CHR ''0'' (toString16 v)))
     else if \<not> list_all is_hex_char clean then Inl ''NodeId must be hex (or decimal u128)''
     else
       (let hex0 = dropWhile (\<lambda>c. c = CHR ''0'') clean;
            hex1 = (if hex0 = [] then ''0'' else hex0) in
        if length hex1 > 32 then Inl ''NodeId hex too long (expected <= 32 chars)''
        else
          (let hex2 = (if length hex1 mod 2 = 1 then CHR ''0'' # hex1 else hex1) in
           Inr (toLowerCase (padStart 32 CHR ''0'' hex2)))))"

definition nodeIdToBytes16 :: "string \<Rightarrow> bytes res" where
  "nodeIdToBytes16 nodeId =
     bindR (normalizeNodeId nodeId) (\<lambda>hex.
     bindR (hexToBytes hex) (\<lambda>bs.
       if length bs \<noteq> 16 then Inl ''NodeId must be 16 bytes'' else Inr bs))"

definition nodeIdFromBytes16 :: "bytes \<Rightarrow> string res" where
  "nodeIdFromBytes16 bs =
     (if length bs \<noteq> 16 then Inl ''NodeId must be 16 bytes'' else Inr (bytesToHex bs))"

text \<open>A value of unknown shape that a bridge hands back.\<close>

datatype js_val = JNull | JUndefined | JBigInt int | JNumber int | JString string
  | JUint8Array bytes | JArray "int list"

definition uint8array_from :: "int list \<Rightarrow> bytes" where
  "uint8array_from xs = map of_int xs"

fun decodeNodeId :: "js_val \<Rightarrow> string" where
  "decodeNodeId JNull = []"
| "decodeNodeId JUndefined = []"
| "decodeNodeId (JBigInt v) = padStart 32 CHR ''0'' (toString16_int v)"
| "decodeNodeId (JNumber v) = padStart 32 CHR ''0'' (toString16_int v)"
| "decodeNodeId (JString s) = (let clean = trim_js s in
     if length clean = 32 \<and> list_all is_hex_char clean then toLowerCase clean
     else if clean \<noteq> [] \<and> list_all is_dec_char clean
       then padStart 32 CHR ''0'' (toString16 (parse_dec clean))
     else clean)"
| "decodeNodeId (JUint8Array bs) = bytesToHex bs"
| "decodeNodeId (JArray xs) = bytesToHex (uint8array_from xs)"

section \<open>Replica ids\<close>

definition ED25519_PUBLIC_KEY_LEN :: nat where
  "ED25519_PUBLIC_KEY_LEN = 32"

definition assertReplicaIdBytes :: "bytes \<Rightarrow> bytes res" where
  "assertReplicaIdBytes bs =
     (if length bs \<noteq> ED25519_PUBLIC_KEY_LEN then Inl ''ReplicaId must be 32 bytes (ed25519 pubkey)''
      else Inr bs)"

definition replicaIdToBytes :: "bytes \<Rightarrow> bytes res" where
  "replicaIdToBytes replica = assertReplicaIdBytes replica"

definition replicaIdFromBytes :: "bytes \<Rightarrow> bytes res" where
  "replicaIdFromBytes bs = assertReplicaIdBytes bs"

fun decodeReplicaId :: "js_val \<Rightarrow> bytes res" where
  "decodeReplicaId JNull = Inl ''ReplicaId missing''"
| "decodeReplicaId JUndefined = Inl ''ReplicaId missing''"
| "decodeReplicaId (JUint8Array bs) = assertReplicaIdBytes bs"
| "decodeReplicaId (JString s) =
     Inl ''ReplicaId must be bytes (ed25519 pubkey); string form is not supported''"
| "decodeReplicaId (JArray xs) = assertReplicaIdBytes (uint8array_from xs)"
| "decodeReplicaId (JBigInt v) = assertReplicaIdBytes []"
| "decodeReplicaId (JNumber v) = assertReplicaIdBytes []"

section \<open>Hexadecimal round trips\<close>

definition lower_hex :: "string \<Rightarrow> bool" where
  "lower_hex s = list_all (\<lambda>c. is_hex_char c \<and> to_lower c = c) s"

definition hex_codes :: "char list" where
  "hex_codes = ''0123456789abcdef''"

lemma nat16_cases: "n < 16 \<Longrightarrow> n \<in> {0,1,2,3,4,5,6,7,8,9,10,11,12,13,14,15 :: nat}"
  by (simp; arith)

lemma hex_digit_table:
  "\<forall>n \<in> {0,1,2,3,4,5,6,7,8,9,10,11,12,13,14,15}. hex_val (hex_digit n) = n \<and> hex_digit n \<in> set hex_codes"
  by (simp add: hex_val_def hex_digit_def is_dec_char_def hex_codes_def char_of_def of_char_def bit_0)

lemma hex_code_table:
  "\<forall>c \<in> set hex_codes. is_hex_char c \<and> to_lower c = c \<and> \<not> is_ws c \<and> c \<noteq> CHR ''x'' \<and> c \<noteq> CHR ''X''
     \<and> hex_val c < 16 \<and> hex_digit (hex_val c) = c"
  by (simp add: hex_val_def hex_digit_def is_dec_char_def is_hex_char_def is_ws_def to_lower_def
      hex_codes_def char_of_def of_char_def bit_0)

lemma hex_digit_val [simp]: "n < 16 \<Longrightarrow> hex_val (hex_digit n) = n"
  using hex_digit_table nat16_cases by blast

lemma hex_digit_code: "n < 16 \<Longrightarrow> hex_digit n \<in> set hex_codes"
  using hex_digit_table nat16_cases by blast

lemma hex_codeD:
  assumes "c \<in> set hex_codes"
  shows "is_hex_char c" "to_lower c = c" "\<not> is_ws c" "c \<noteq> CHR ''x''" "c \<noteq> CHR ''X''"
    "hex_val c < 16" "hex_digit (hex_val c) = c"
  using assms hex_code_table by blast+

lemma hex_char_cases:
  assumes "is_hex_char c"
  shows "c \<in> set ''0123456789abcdefABCDEF''"
proof -
  define n where "n = (of_char c :: nat)"
  have "n \<in> {48,49,50,51,52,53,54,55,56,57, 65,66,67,68,69,70, 97,98,99,100,101,102}"
    using assms unfolding is_hex_char_def is_dec_char_def n_def [symmetric] by (simp; arith)
  moreover have "c = char_of n" by (simp add: n_def)
  ultimately show ?thesis
    by (elim insertE) (simp_all add: char_of_def bit_0)
qed

lemma to_lower_code: "is_hex_char c \<Longrightarrow> to_lower c \<in> set hex_codes"
  by (drule hex_char_cases, simp only: list.set, elim insertE)
    (simp_all add: to_lower_def hex_codes_def char_of_def of_char_def bit_0)

lemma lower_hex_iff: "lower_hex s \<longleftrightarrow> set s \<subseteq> set hex_codes"
  by (auto simp: lower_hex_def list_all_iff hex_codeD(1,2)) (metis subsetD to_lower_code)

lemma lower_hex_simps [simp]:
  "lower_hex []" "lower_hex (c # s) \<longleftrightarrow> c \<in> set hex_codes \<and> lower_hex s"
  "lower_hex (s @ t) \<longleftrightarrow> lower_hex s \<and> lower_hex t"
  by (auto simp: lower_hex_iff)

lemma toString16_lower_hex: "lower_hex (toString16 n)"
  by (induction n rule: toString16.induct)
    (subst toString16.simps, simp add: hex_digit_code)

lemma dropWhile_noop: "s = [] \<or> \<not> P (hd s) \<Longrightarrow> dropWhile P s = s"
  by (cases s) auto

lemma trim_js_noop: "\<forall>c \<in> set s. \<not> is_ws c \<Longrightarrow> trim_js s = s"
  unfolding trim_js_def by (cases "s = []") (simp_all add: dropWhile_noop hd_rev)

lemma trim_js_lower_hex [simp]: "lower_hex s \<Longrightarrow> trim_js s = s"
  by (rule trim_js_noop) (auto simp: lower_hex_iff dest: hex_codeD(3))

lemma stripHexPrefix_lower_hex [simp]:
  assumes "lower_hex s" shows "stripHexPrefix s = s"
proof (cases s)
  case (Cons a t)
  then show ?thesis
    using assms hex_codeD(4,5) by (cases t) (auto simp: stripHexPrefix_def)
qed (simp add: stripHexPrefix_def)

lemma list_all_hex_lower_hex [simp]: "lower_hex s \<Longrightarrow> list_all is_hex_char s"
  by (auto simp: lower_hex_def list_all_iff)

lemma toLowerCase_lower_hex [simp]: "lower_hex s \<Longrightarrow> toLowerCase s = s"
  by (induction s) (auto simp: toLowerCase_def hex_codeD(2))

lemma length_toLowerCase [simp]: "length (toLowerCase s) = length s"
  by (simp add: toLowerCase_def)

lemma toLowerCase_is_lower_hex: "list_all is_hex_char s \<Longrightarrow> lower_hex (toLowerCase s)"
  by (induction s) (auto simp: toLowerCase_def to_lower_code)

lemma byte_hex:
  "padStart 2 CHR ''0'' (toString16 (unat (b :: byte))) =
     [hex_digit (unat b div 16), hex_digit (unat b mod 16)]"
proof -
  have b: "unat b < 256" using unsigned_less [of b] by simp
  show ?thesis
  proof (cases "unat b < 16")
    case True
    then show ?thesis
      by (simp add: padStart_def toString16.simps hex_digit_def char_of_def bit_0)
  next
    case False
    moreover from b have "unat b div 16 < 16" by simp
    ultimately show ?thesis
      by (simp add: padStart_def toString16.simps [of "unat b"] toString16.simps [of "unat b div 16"])
  qed
qed

lemma bytesToHex_simps [simp]:
  "bytesToHex [] = []"
  "bytesToHex (b # bs) = hex_digit (unat b div 16) # hex_digit (unat b mod 16) # bytesToHex bs"
  by (simp_all add: bytesToHex_def byte_hex)

lemma unat_byte_div16 [simp]: "unat (b :: byte) div 16 < 16"
proof -
  have "unat b < 256" using unsigned_less [of b] by simp
  then show ?thesis by simp
qed

lemma length_bytesToHex [simp]: "length (bytesToHex bs) = 2 * length bs"
  by (induction bs) auto

lemma lower_hex_bytesToHex [simp]: "lower_hex (bytesToHex bs)"
  by (induction bs) (auto simp: hex_digit_code)

lemma hex_pairs_bytesToHex [simp]: "hex_pairs (bytesToHex bs) = bs"
  by (induction bs) auto

lemma bytesToHex_hex_pairs: "lower_hex s \<Longrightarrow> even (length s) \<Longrightarrow> bytesToHex (hex_pairs s) = s"
proof (induction s rule: hex_pairs.induct)
  case (1 a b cs)
  have v: "hex_val a < 16" "hex_val b < 16"
    using 1 by (auto dest: hex_codeD(6))
  then have "unat (of_nat (16 * hex_val a + hex_val b) :: byte) = 16 * hex_val a + hex_val b"
    by (simp add: unat_of_nat del: of_nat_add of_nat_mult)
  with v 1 show ?case by (auto simp: hex_codeD(7))
qed auto

lemma bytesToHex_inj: "bytesToHex a = bytesToHex b \<longleftrightarrow> a = b"
  by (metis hex_pairs_bytesToHex)

lemma length_hex_pairs: "length (hex_pairs s) = length s div 2"
  by (induction s rule: hex_pairs.induct) auto

lemma hexToBytes_lower_hex:
  "lower_hex s \<Longrightarrow> even (length s) \<Longrightarrow> hexToBytes s = Inr (hex_pairs s)"
  by (simp add: hexToBytes_def Let_def even_iff_mod_2_eq_zero)

section \<open>Canonical node ids\<close>

definition canonical_node_id :: "string \<Rightarrow> bool" where
  "canonical_node_id h = (length h = 32 \<and> lower_hex h)"

lemma length_padStart: "length s \<le> n \<Longrightarrow> length (padStart n c s) = n"
  by (simp add: padStart_def)

lemma zero_code: "CHR ''0'' \<in> set hex_codes"
  by (simp add: hex_codes_def)

lemma lower_hex_padStart: "lower_hex s \<Longrightarrow> lower_hex (padStart n CHR ''0'' s)"
  using zero_code by (auto simp: padStart_def lower_hex_iff)

lemma length_toString16: "n < 16 ^ k \<Longrightarrow> 0 < k \<Longrightarrow> length (toString16 n) \<le> k"
proof (induction n arbitrary: k rule: toString16.induct)
  case (1 n)
  show ?case
  proof (cases "n < 16")
    case True
    with 1 show ?thesis by (simp add: toString16.simps)
  next
    case False
    with 1 obtain j where k: "k = Suc j" and "0 < j"
      by (cases k) (auto simp: not_less, metis One_nat_def leD le_less_trans
          neq0_conv power_0 mult.right_neutral less_numeral_extra(3) power_Suc0_right)
    moreover from 1 k have "n div 16 < 16 ^ j" by (simp add: less_mult_imp_div_less mult.commute)
    ultimately have "length (toString16 (n div 16)) \<le> j"
      using 1 False by blast
    with k False show ?thesis by (simp add: toString16.simps [of n])
  qed
qed

lemma hex_char_of_dec: "is_dec_char c \<Longrightarrow> is_hex_char c"
  by (simp add: is_hex_char_def)

lemma list_all_dropWhile: "list_all P s \<Longrightarrow> list_all P (dropWhile Q s)"
  by (auto simp: list_all_iff dest: set_dropWhileD)

lemma is_hex_zero: "is_hex_char CHR ''0''"
  using zero_code hex_codeD(1) by blast

lemma normalizeNodeId_canonical:
  assumes "normalizeNodeId s = Inr h"
  shows "canonical_node_id h"
proof -
  define clean where "clean = stripHexPrefix (trim_js s)"
  define hex1 where "hex1 = (let h0 = dropWhile (\<lambda>c. c = CHR ''0'') clean in if h0 = [] then ''0'' else h0)"
  define hex2 where "hex2 = (if length hex1 mod 2 = 1 then CHR ''0'' # hex1 else hex1)"
  have dec: "canonical_node_id (padStart 32 CHR ''0'' (toString16 (parse_dec clean)))"
    if "\<not> parse_dec clean > 2 ^ 128 - 1"
  proof -
    have "parse_dec clean < 16 ^ 32" using that by simp
    then show ?thesis
      using length_toString16 [of "parse_dec clean" 32]
      by (simp add: canonical_node_id_def length_padStart lower_hex_padStart toString16_lower_hex)
  qed
  have hex: "canonical_node_id (toLowerCase (padStart 32 CHR ''0'' hex2))"
    if "length hex1 \<le> 32" "list_all is_hex_char clean"
  proof -
    have "length hex2 \<le> 32" using that(1) unfolding hex2_def by (auto; presburger)
    moreover have "list_all is_hex_char hex1"
      using that(2) is_hex_zero by (simp add: hex1_def Let_def list_all_dropWhile)
    then have "list_all is_hex_char (padStart 32 CHR ''0'' hex2)"
      using is_hex_zero by (auto simp: hex2_def padStart_def list_all_iff)
    ultimately show ?thesis
      by (simp add: canonical_node_id_def toLowerCase_is_lower_hex length_padStart)
  qed
  have eq: "normalizeNodeId s =
     (if clean = [] then Inl ''NodeId must not be empty''
      else if length clean = 32 \<and> list_all is_hex_char clean then Inr (toLowerCase clean)
      else if list_all is_dec_char clean then
        (if parse_dec clean > 2 ^ 128 - 1 then Inl ''NodeId (decimal) out of u128 range''
         else Inr (padStart 32 CHR ''0'' (toString16 (parse_dec clean))))
      else if \<not> list_all is_hex_char clean then Inl ''NodeId must be hex (or decimal u128)''
      else if length hex1 > 32 then Inl ''NodeId hex too long (expected <= 32 chars)''
      else Inr (toLowerCase (padStart 32 CHR ''0'' hex2)))"
    by (simp only: normalizeNodeId_def Let_def clean_def hex1_def hex2_def)
  consider "h = toLowerCase clean" "length clean = 32" "list_all is_hex_char clean"
    | "h = padStart 32 CHR ''0'' (toString16 (parse_dec clean))" "\<not> parse_dec clean > 2 ^ 128 - 1"
    | "h = toLowerCase (padStart 32 CHR ''0'' hex2)" "length hex1 \<le> 32" "list_all is_hex_char clean"
    using assms unfolding eq by (metis Inl_Inr_False Inr_inject not_le)
  then show ?thesis
    by cases (use dec hex in \<open>simp_all add: canonical_node_id_def toLowerCase_is_lower_hex\<close>)
qed

lemma normalizeNodeId_fixpoint:
  assumes "canonical_node_id h" shows "normalizeNodeId h = Inr h"
proof -
  have "h \<noteq> []" using assms by (auto simp: canonical_node_id_def)
  with assms show ?thesis by (simp add: normalizeNodeId_def canonical_node_id_def Let_def)
qed

lemma nodeIdToBytes16_canonical:
  "canonical_node_id h \<Longrightarrow> nodeIdToBytes16 h = Inr (hex_pairs h)"
  by (simp add: nodeIdToBytes16_def normalizeNodeId_fixpoint hexToBytes_lower_hex
      canonical_node_id_def length_hex_pairs)

lemma nodeIdToBytes16_normalize:
  "nodeIdToBytes16 s = bindR (normalizeNodeId s) (\<lambda>h. Inr (hex_pairs h))"
proof (cases "normalizeNodeId s")
  case (Inr h)
  then have "canonical_node_id h" by (rule normalizeNodeId_canonical)
  with Inr show ?thesis
    by (simp add: nodeIdToBytes16_def hexToBytes_lower_hex canonical_node_id_def length_hex_pairs)
qed (simp add: nodeIdToBytes16_def)

lemma nodeIdToBytes16_length: "nodeIdToBytes16 s = Inr bs \<Longrightarrow> length bs = 16"
  by (auto simp: nodeIdToBytes16_def bindR_eq_Inr split: if_splits)

lemma canonical_bytesToHex: "length bs = 16 \<Longrightarrow> canonical_node_id (bytesToHex bs)"
  by (simp add: canonical_node_id_def)

lemma replicaId_ok_iff [simp]:
  "replicaIdToBytes r = Inr r' \<longleftrightarrow> r' = r \<and> length r = 32"
  "replicaIdFromBytes r = Inr r' \<longleftrightarrow> r' = r \<and> length r = 32"
  by (auto simp: replicaIdToBytes_def replicaIdFromBytes_def assertReplicaIdBytes_def
      ED25519_PUBLIC_KEY_LEN_def)

section \<open>Properties\<close>

text \<open>Hexadecimal encoding round trips: decoding the encoding of any byte string gives it back.\<close>

lemma hexToBytes_bytesToHex: "hexToBytes (bytesToHex bs) = Inr bs"
  by (simp add: hexToBytes_lower_hex)

text \<open>
  The byte form and the text form of node ids are inverse up to normalisation: whenever
  a node id converts to bytes, there are 16 of them and converting back yields exactly the
  canonical form that \<^verbatim>\<open>normalizeNodeId\<close> computes; that form is 32 lower-case hex digits and
  normalising it again changes nothing.
\<close>
theorem nodeId_roundtrip:
  assumes "nodeIdToBytes16 s = Inr bs"
  shows "length bs = 16 \<and> nodeIdFromBytes16 bs = normalizeNodeId s
    \<and> (\<exists>h. normalizeNodeId s = Inr h \<and> canonical_node_id h \<and> normalizeNodeId h = Inr h)"
proof -
  from assms obtain h where h: "normalizeNodeId s = Inr h" "bs = hex_pairs h"
    by (auto simp: nodeIdToBytes16_normalize bindR_eq_Inr)
  then have c: "canonical_node_id h" by (simp add: normalizeNodeId_canonical)
  with h have "nodeIdFromBytes16 bs = Inr h"
    by (simp add: nodeIdFromBytes16_def canonical_node_id_def length_hex_pairs bytesToHex_hex_pairs)
  with h c assms show ?thesis
    by (simp add: nodeIdToBytes16_length normalizeNodeId_fixpoint)
qed

theorem nodeId_roundtrip_witness:
  "nodeIdFromBytes16 (replicate 16 255) = normalizeNodeId TRASH_NODE_ID_HEX"
proof -
  have "canonical_node_id TRASH_NODE_ID_HEX"
    by (simp add: canonical_node_id_def TRASH_NODE_ID_HEX_def lower_hex_iff hex_codes_def)
  then have "nodeIdToBytes16 TRASH_NODE_ID_HEX = Inr (hex_pairs TRASH_NODE_ID_HEX)"
    by (rule nodeIdToBytes16_canonical)
  moreover have "hex_pairs TRASH_NODE_ID_HEX = replicate 16 255"
    by (simp add: TRASH_NODE_ID_HEX_def numeral_eq_Suc hex_val_def is_dec_char_def of_char_def)
  ultimately show ?thesis using nodeId_roundtrip by simp
qed

text \<open>
  A node id of decimal digits only is read as a decimal number even when it carries the
  \<^verbatim>\<open>0x\<close> prefix, unless it has exactly 32 digits: the prefix is stripped before the decimal
  test, so \<^verbatim>\<open>0x10\<close> denotes ten, not sixteen.
\<close>
theorem normalizeNodeId_prefixed_decimal:
  assumes "list_all is_dec_char ds" and "ds \<noteq> []" and "length ds \<noteq> 32" and "parse_dec ds < 2 ^ 128"
  shows "normalizeNodeId (''0x'' @ ds) = Inr (padStart 32 CHR ''0'' (toString16 (parse_dec ds)))"
proof -
  have nws: "\<not> is_ws c" if "is_dec_char c" for c
    using that by (auto simp: is_dec_char_def is_ws_def)
  have "trim_js (''0x'' @ ds) = ''0x'' @ ds"
    using assms(1) nws by (intro trim_js_noop) (auto simp: list_all_iff is_ws_def of_char_def)
  then have "stripHexPrefix (trim_js (''0x'' @ ds)) = ds"
    by (simp add: stripHexPrefix_def)
  with assms show ?thesis by (simp add: normalizeNodeId_def Let_def)
qed

theorem normalizeNodeId_prefixed_decimal_witness:
  "normalizeNodeId ''0x10'' = Inr (padStart 32 CHR ''0'' ''a'')"
proof -
  have d: "list_all is_dec_char ''10''" "parse_dec ''10'' = 10"
    by (simp_all add: is_dec_char_def parse_dec_def hex_val_def of_char_def)
  have "toString16 10 = ''a''"
    by (simp add: toString16.simps hex_digit_def char_of_def bit_0)
  then show ?thesis
    using normalizeNodeId_prefixed_decimal [of "''10''"] d by simp
qed

end
