(* ===== verification/Op_Encoding.thy ===== *)
theory Op_Encoding
  imports Node_Ids
begin

text \<open>
  Operations (\<^verbatim>\<open>packages/treecrdt-ts/src/index.ts\<close>), the canonical op id and op ref of the
  sync protocol (\<^verbatim>\<open>packages/sync/protocol/src/opref.ts\<close>) and the byte string an operation
  signature covers (\<^verbatim>\<open>packages/treecrdt-auth/src/internal/op-sig.ts\<close> with the helpers of
  \<^verbatim>\<open>internal/bytes.ts\<close>).

  JavaScript numbers are modelled by the integers they hold.  \<^verbatim>\<open>blake3\<close> and \<^verbatim>\<open>utf8ToBytes\<close>
  come from a package outside the repository and are arguments.
\<close>

section \<open>Operations\<close>

type_synonym ReplicaId = bytes
type_synonym NodeId = string
type_synonym OpRef = bytes

record OperationId =
  oid_replica :: ReplicaId
  oid_counter :: int

record OperationMetadata =
  om_id :: OperationId
  om_lamport :: int
  om_knownState :: "bytes option"

datatype OperationKind =
    OpInsert NodeId NodeId bytes "bytes option"
  | OpMove NodeId NodeId bytes
  | OpDelete NodeId
  | OpTombstone NodeId
  | OpPayload NodeId "bytes option"

record Operation =
  op_meta :: OperationMetadata
  op_kind :: OperationKind

section \<open>Fixed-width integers\<close>

definition MAX_SAFE_INTEGER :: int where
  "MAX_SAFE_INTEGER = 2 ^ 53 - 1"

definition isSafeInteger :: "int \<Rightarrow> bool" where
  "isSafeInteger n = (\<bar>n\<bar> \<le> MAX_SAFE_INTEGER)"

text \<open>Big-endian representation in \<open>k\<close> bytes.\<close>

fun be_bytes :: "nat \<Rightarrow> nat \<Rightarrow> bytes" where
  "be_bytes 0 n = []"
| "be_bytes (Suc k) n = be_bytes k (n div 256) @ [of_nat n]"

text \<open>An argument of type \<^verbatim>\<open>bigint | number\<close>.\<close>

datatype js_int = JsNumber int | JsBigint int

definition concatBytes :: "bytes list \<Rightarrow> bytes" where
  "concatBytes parts = concat parts"

definition u8 :: "int \<Rightarrow> bytes res" where
  "u8 n = (if n < 0 \<or> n > 0xff then Inl ''u8 out of range'' else Inr [of_int n])"

definition u32be :: "int \<Rightarrow> bytes res" where
  "u32be n = (if n < 0 \<or> n > 0xffffffff then Inl ''u32 out of range'' else Inr (be_bytes 4 (nat n)))"

fun normalizeU64 :: "js_int \<Rightarrow> int res" where
  "normalizeU64 (JsNumber n) = (if \<not> isSafeInteger n \<or> n < 0
     then Inl ''u64 must be a safe non-negative integer'' else Inr n)"
| "normalizeU64 (JsBigint n) = (if n < 0 then Inl ''u64 must be non-negative'' else Inr n)"

definition u64be :: "js_int \<Rightarrow> bytes res" where
  "u64be n = bindR (normalizeU64 n) (\<lambda>v.
     if v > 0xffffffffffffffff then Inl ''u64 out of range'' else Inr (be_bytes 8 (nat v)))"

text \<open>The variant of \<^verbatim>\<open>treecrdt-auth/src/internal/bytes.ts\<close>: any integer in range.\<close>

definition auth_u64be :: "int \<Rightarrow> bytes res" where
  "auth_u64be v = (if v < 0 \<or> v > 0xffffffffffffffff then Inl ''u64 out of range''
     else Inr (be_bytes 8 (nat v)))"

section \<open>Op ids and op refs\<close>

record OperationIdBytes =
  oib_replica :: bytes
  oib_counter :: js_int

definition OPREF_V0_WIDTH_BYTES :: nat where
  "OPREF_V0_WIDTH_BYTES = 16"

definition encodeOperationIdV0 :: "OperationIdBytes \<Rightarrow> bytes res" where
  "encodeOperationIdV0 i =
     bindR (u32be (int (length (oib_replica i)))) (\<lambda>len.
     bindR (u64be (oib_counter i)) (\<lambda>ctr.
       Inr (concatBytes [len, oib_replica i, ctr])))"

definition opref_preimage :: "(string \<Rightarrow> bytes) \<Rightarrow> string \<Rightarrow> OperationIdBytes \<Rightarrow> bytes res" where
  "opref_preimage utf8 docId i = bindR (encodeOperationIdV0 i) (\<lambda>opIdBytes.
     Inr (concatBytes [utf8 ''treecrdt/opref/v0'', utf8 docId, opIdBytes]))"

definition deriveOpRefV0 ::
    "(bytes \<Rightarrow> bytes) \<Rightarrow> (string \<Rightarrow> bytes) \<Rightarrow> string \<Rightarrow> OperationIdBytes \<Rightarrow> OpRef res" where
  "deriveOpRefV0 blake3 utf8 docId i = bindR (opref_preimage utf8 docId i) (\<lambda>bs.
     Inr (take OPREF_V0_WIDTH_BYTES (blake3 bs)))"

section \<open>The bytes an operation signature covers\<close>

definition len_prefixed :: "bytes \<Rightarrow> bytes res" where
  "len_prefixed bs = bindR (u32be (int (length bs))) (\<lambda>l. Inr (l @ bs))"

fun kindTag :: "OperationKind \<Rightarrow> int" where
  "kindTag (OpInsert _ _ _ _) = 1"
| "kindTag (OpMove _ _ _) = 2"
| "kindTag (OpDelete _) = 3"
| "kindTag (OpTombstone _) = 4"
| "kindTag (OpPayload _ _) = 5"

fun kindFields :: "OperationKind \<Rightarrow> bytes res" where
  "kindFields (OpInsert parent node orderKey payload) =
     bindR (nodeIdToBytes16 parent) (\<lambda>p.
     bindR (nodeIdToBytes16 node) (\<lambda>n.
     bindR (len_prefixed orderKey) (\<lambda>ok.
       (case payload of
          Some pl \<Rightarrow> bindR (u8 1) (\<lambda>f. bindR (len_prefixed pl) (\<lambda>pb.
            Inr (concatBytes [p, n, ok, f, pb])))
        | None \<Rightarrow> bindR (u8 0) (\<lambda>f. Inr (concatBytes [p, n, ok, f]))))))"
| "kindFields (OpMove node newParent orderKey) =
     bindR (nodeIdToBytes16 node) (\<lambda>n.
     bindR (nodeIdToBytes16 newParent) (\<lambda>p.
     bindR (len_prefixed orderKey) (\<lambda>ok. Inr (concatBytes [n, p, ok]))))"
| "kindFields (OpDelete node) = nodeIdToBytes16 node"
| "kindFields (OpTombstone node) = nodeIdToBytes16 node"
| "kindFields (OpPayload node payload) =
     bindR (nodeIdToBytes16 node) (\<lambda>n.
       (case payload of
          None \<Rightarrow> bindR (u8 0) (\<lambda>f. Inr (concatBytes [n, f]))
        | Some pl \<Rightarrow> bindR (u8 1) (\<lambda>f. bindR (len_prefixed pl) (\<lambda>pb.
            Inr (concatBytes [n, f, pb])))))"

definition encodeTreecrdtOpSigInputV1 ::
    "(string \<Rightarrow> bytes) \<Rightarrow> string \<Rightarrow> Operation \<Rightarrow> bytes res" where
  "encodeTreecrdtOpSigInputV1 utf8 docId oper =
     bindR (replicaIdToBytes (oid_replica (om_id (op_meta oper)))) (\<lambda>replicaBytes.
     bindR (kindFields (op_kind oper)) (\<lambda>fields.
     bindR (u8 0) (\<lambda>z.
     bindR (len_prefixed (utf8 docId)) (\<lambda>doc.
     bindR (len_prefixed replicaBytes) (\<lambda>rep.
     bindR (auth_u64be (oid_counter (om_id (op_meta oper)))) (\<lambda>ctr.
     bindR (auth_u64be (om_lamport (op_meta oper))) (\<lambda>lam.
     bindR (u8 (kindTag (op_kind oper))) (\<lambda>tag.
       Inr (concatBytes [utf8 ''treecrdt/op-sig/v1'', z, doc, rep, ctr, lam, tag, fields])))))))))"

section \<open>Injectivity of the encodings\<close>

lemma length_be_bytes [simp]: "length (be_bytes k n) = k"
  by (induction k n rule: be_bytes.induct) auto

lemma of_nat_byte_eq: "(of_nat n :: byte) = of_nat m \<longleftrightarrow> n mod 256 = m mod 256"
  by (simp add: word_of_nat_eq_iff take_bit_eq_mod)

lemma be_bytes_inj:
  "n < 256 ^ k \<Longrightarrow> m < 256 ^ k \<Longrightarrow> be_bytes k n = be_bytes k m \<longleftrightarrow> n = m"
proof (induction k arbitrary: n m)
  case (Suc k)
  then have "n div 256 < 256 ^ k" "m div 256 < 256 ^ k"
    by (simp_all add: less_mult_imp_div_less mult.commute)
  with Suc.IH have "be_bytes k (n div 256) = be_bytes k (m div 256) \<longleftrightarrow> n div 256 = m div 256"
    by blast
  moreover have "n = m \<longleftrightarrow> n div 256 = m div 256 \<and> n mod 256 = m mod 256"
    by (metis div_mod_decomp)
  ultimately show ?case by (auto simp: of_nat_byte_eq)
qed simp

lemma u8_eq: "u8 n = Inr b \<longleftrightarrow> 0 \<le> n \<and> n \<le> 255 \<and> b = [of_int n]"
  by (auto simp: u8_def)

lemma u32be_eq: "u32be n = Inr b \<longleftrightarrow> 0 \<le> n \<and> n \<le> 0xffffffff \<and> b = be_bytes 4 (nat n)"
  by (auto simp: u32be_def)

lemma auth_u64be_eq:
  "auth_u64be n = Inr b \<longleftrightarrow> 0 \<le> n \<and> n \<le> 0xffffffffffffffff \<and> b = be_bytes 8 (nat n)"
  by (auto simp: auth_u64be_def)

lemma auth_u64be_inj: "auth_u64be n = Inr b \<Longrightarrow> auth_u64be m = Inr b \<Longrightarrow> n = m"
  by (auto simp: auth_u64be_eq be_bytes_inj)

lemma auth_u64be_length: "auth_u64be n = Inr b \<Longrightarrow> length b = 8"
  by (auto simp: auth_u64be_eq)

fun js_int_val :: "js_int \<Rightarrow> int" where
  "js_int_val (JsNumber n) = n"
| "js_int_val (JsBigint n) = n"

lemma u64be_eq: "u64be n = Inr b \<Longrightarrow>
    0 \<le> js_int_val n \<and> js_int_val n \<le> 0xffffffffffffffff \<and> b = be_bytes 8 (nat (js_int_val n))"
  by (cases n) (auto simp: u64be_def bindR_eq_Inr split: if_splits)

text \<open>A length-prefixed field is self-delimiting.\<close>

lemma len_prefixed_eq:
  "len_prefixed bs = Inr b \<longleftrightarrow> int (length bs) \<le> 0xffffffff \<and> b = be_bytes 4 (length bs) @ bs"
  by (auto simp: len_prefixed_def bindR_eq_Inr u32be_eq)

lemma len_prefixed_split:
  assumes "len_prefixed a = Inr b" "len_prefixed a' = Inr b'" "b @ r = b' @ r'"
  shows "a = a' \<and> b = b' \<and> r = r'"
proof -
  from assms have "be_bytes 4 (length a) @ a @ r = be_bytes 4 (length a') @ a' @ r'"
    by (simp add: len_prefixed_eq)
  then have l: "be_bytes 4 (length a) = be_bytes 4 (length a')" and r: "a @ r = a' @ r'"
    by (simp_all add: append_eq_append_conv)
  from l assms have "length a = length a'"
    by (simp add: len_prefixed_eq be_bytes_inj)
  with r assms show ?thesis by (simp add: len_prefixed_eq)
qed

lemma fixed_split: "length a = length a' \<Longrightarrow> a @ r = a' @ r' \<longleftrightarrow> a = a' \<and> r = r'"
  by (simp add: append_eq_append_conv)

text \<open>The content of an operation kind with every node id in canonical form.\<close>

fun normalizeKind :: "OperationKind \<Rightarrow> OperationKind res" where
  "normalizeKind (OpInsert p n k pl) =
     bindR (normalizeNodeId p) (\<lambda>p'. bindR (normalizeNodeId n) (\<lambda>n'. Inr (OpInsert p' n' k pl)))"
| "normalizeKind (OpMove n p k) =
     bindR (normalizeNodeId n) (\<lambda>n'. bindR (normalizeNodeId p) (\<lambda>p'. Inr (OpMove n' p' k)))"
| "normalizeKind (OpDelete n) = bindR (normalizeNodeId n) (\<lambda>n'. Inr (OpDelete n'))"
| "normalizeKind (OpTombstone n) = bindR (normalizeNodeId n) (\<lambda>n'. Inr (OpTombstone n'))"
| "normalizeKind (OpPayload n pl) = bindR (normalizeNodeId n) (\<lambda>n'. Inr (OpPayload n' pl))"

lemma nodeIdToBytes16_inj:
  assumes "nodeIdToBytes16 s = Inr b" "nodeIdToBytes16 t = Inr b"
  shows "normalizeNodeId s = normalizeNodeId t"
proof -
  have "normalizeNodeId u = Inr (bytesToHex b)" if "nodeIdToBytes16 u = Inr b" for u
  proof -
    from that obtain h where "normalizeNodeId u = Inr h" "b = hex_pairs h"
      by (auto simp: nodeIdToBytes16_normalize bindR_eq_Inr)
    then show ?thesis
      using normalizeNodeId_canonical [of u h]
      by (simp add: canonical_node_id_def bytesToHex_hex_pairs)
  qed
  with assms show ?thesis by simp
qed

lemma nodeIdToBytes16_cong: "normalizeNodeId s = normalizeNodeId t \<Longrightarrow> nodeIdToBytes16 s = nodeIdToBytes16 t"
  by (simp add: nodeIdToBytes16_normalize)

lemma nodeIdToBytes16_via_canonical:
  assumes "nodeIdToBytes16 s = Inr b"
  shows "\<exists>h. normalizeNodeId s = Inr h \<and> nodeIdToBytes16 h = Inr b"
proof -
  from assms obtain h where h: "normalizeNodeId s = Inr h" "b = hex_pairs h"
    by (auto simp: nodeIdToBytes16_normalize bindR_eq_Inr)
  with normalizeNodeId_canonical [of s h] show ?thesis by (simp add: nodeIdToBytes16_canonical)
qed

text \<open>Normalising a kind that can be encoded changes neither its tag nor its encoding.\<close>

lemma kindFields_via_normalizeKind:
  assumes "kindFields k = Inr b"
  shows "\<exists>n. normalizeKind k = Inr n \<and> kindTag n = kindTag k \<and> kindFields n = Inr b"
proof (cases k)
  case (OpInsert p q ok pl)
  with assms obtain x y where xy: "nodeIdToBytes16 p = Inr x" "nodeIdToBytes16 q = Inr y"
    by (auto simp: bindR_eq_Inr)
  from nodeIdToBytes16_via_canonical [OF xy(1)] nodeIdToBytes16_via_canonical [OF xy(2)]
  show ?thesis using assms OpInsert xy by auto
next
  case (OpMove p q ok)
  with assms obtain x y where xy: "nodeIdToBytes16 p = Inr x" "nodeIdToBytes16 q = Inr y"
    by (auto simp: bindR_eq_Inr)
  from nodeIdToBytes16_via_canonical [OF xy(1)] nodeIdToBytes16_via_canonical [OF xy(2)]
  show ?thesis using assms OpMove xy by auto
next
  case (OpPayload q pl)
  with assms obtain x where x: "nodeIdToBytes16 q = Inr x"
    by (auto simp: bindR_eq_Inr)
  from nodeIdToBytes16_via_canonical [OF x] show ?thesis using assms OpPayload x by auto
qed (use assms nodeIdToBytes16_via_canonical in fastforce)+

lemma nodeId_field_split:
  assumes "nodeIdToBytes16 s = Inr x" "nodeIdToBytes16 t = Inr y" "x @ r = y @ r'"
  shows "normalizeNodeId s = normalizeNodeId t \<and> r = r'"
proof -
  from assms have "length x = length y" by (simp add: nodeIdToBytes16_length)
  with assms show ?thesis by (auto simp: fixed_split intro: nodeIdToBytes16_inj)
qed

lemma len_prefixed_inj: "len_prefixed a = Inr b \<Longrightarrow> len_prefixed a' = Inr b \<Longrightarrow> a = a'"
  using len_prefixed_split [of a b a' b "[]" "[]"] by simp

text \<open>An optional payload: a flag byte and, when set, a length-prefixed field.\<close>

definition opt_payload :: "bytes option \<Rightarrow> bytes res" where
  "opt_payload pl = (case pl of None \<Rightarrow> u8 0
     | Some p \<Rightarrow> bindR (u8 1) (\<lambda>f. bindR (len_prefixed p) (\<lambda>pb. Inr (f @ pb))))"

lemma opt_payload_inj: "opt_payload a = Inr b \<Longrightarrow> opt_payload a' = Inr b \<Longrightarrow> a = a'"
  by (auto simp: opt_payload_def u8_eq bindR_eq_Inr dest: len_prefixed_inj split: option.splits)

lemma kindFields_InsertE:
  assumes "kindFields (OpInsert p n ok pl) = Inr b"
  obtains x y k f where "nodeIdToBytes16 p = Inr x" "nodeIdToBytes16 n = Inr y"
    "len_prefixed ok = Inr k" "opt_payload pl = Inr f" "b = x @ y @ k @ f"
  using assms by (cases pl) (auto simp: bindR_eq_Inr concatBytes_def opt_payload_def)

lemma kindFields_MoveE:
  assumes "kindFields (OpMove n p ok) = Inr b"
  obtains x y k where "nodeIdToBytes16 n = Inr x" "nodeIdToBytes16 p = Inr y"
    "len_prefixed ok = Inr k" "b = x @ y @ k"
  using assms by (auto simp: bindR_eq_Inr concatBytes_def)

lemma kindFields_PayloadE:
  assumes "kindFields (OpPayload n pl) = Inr b"
  obtains x f where "nodeIdToBytes16 n = Inr x" "opt_payload pl = Inr f" "b = x @ f"
  using assms by (cases pl) (auto simp: bindR_eq_Inr concatBytes_def opt_payload_def)

lemma kindFields_inj:
  assumes k: "kindFields k = Inr b" and k': "kindFields k' = Inr b" and tag: "kindTag k = kindTag k'"
  shows "normalizeKind k = normalizeKind k'"
proof (cases k)
  case (OpInsert p n ok pl)
  with tag obtain p' n' ok' pl' where s: "k' = OpInsert p' n' ok' pl'" by (cases k') simp_all
  obtain x y c f where e: "nodeIdToBytes16 p = Inr x" "nodeIdToBytes16 n = Inr y"
    "len_prefixed ok = Inr c" "opt_payload pl = Inr f" "b = x @ y @ c @ f"
    using k unfolding OpInsert by (rule kindFields_InsertE)
  obtain x' y' c' f' where e': "nodeIdToBytes16 p' = Inr x'" "nodeIdToBytes16 n' = Inr y'"
    "len_prefixed ok' = Inr c'" "opt_payload pl' = Inr f'" "b = x' @ y' @ c' @ f'"
    using k' unfolding s by (rule kindFields_InsertE)
  have 1: "normalizeNodeId p = normalizeNodeId p'" "y @ c @ f = y' @ c' @ f'"
    using nodeId_field_split [OF e(1) e'(1) trans [OF e(5) [symmetric] e'(5)]] by auto
  have 2: "normalizeNodeId n = normalizeNodeId n'" "c @ f = c' @ f'"
    using nodeId_field_split [OF e(2) e'(2) 1(2)] by auto
  have 3: "ok = ok'" "f = f'" using len_prefixed_split [OF e(3) e'(3) 2(2)] by auto
  then have "pl = pl'" using opt_payload_inj e(4) e'(4) by blast
  with 1 2 3 OpInsert s show ?thesis by simp
next
  case (OpMove n p ok)
  with tag obtain n' p' ok' where s: "k' = OpMove n' p' ok'" by (cases k') simp_all
  obtain x y c where e: "nodeIdToBytes16 n = Inr x" "nodeIdToBytes16 p = Inr y"
    "len_prefixed ok = Inr c" "b = x @ y @ c" using k unfolding OpMove by (rule kindFields_MoveE)
  obtain x' y' c' where e': "nodeIdToBytes16 n' = Inr x'" "nodeIdToBytes16 p' = Inr y'"
    "len_prefixed ok' = Inr c'" "b = x' @ y' @ c'" using k' unfolding s by (rule kindFields_MoveE)
  have 1: "normalizeNodeId n = normalizeNodeId n'" "y @ c = y' @ c'"
    using nodeId_field_split [OF e(1) e'(1) trans [OF e(4) [symmetric] e'(4)]] by auto
  have 2: "normalizeNodeId p = normalizeNodeId p'" "c = c'"
    using nodeId_field_split [OF e(2) e'(2) 1(2)] by auto
  then have "ok = ok'" using len_prefixed_inj e(3) e'(3) by blast
  with 1 2 OpMove s show ?thesis by simp
next
  case (OpPayload n pl)
  with tag obtain n' pl' where s: "k' = OpPayload n' pl'" by (cases k') simp_all
  obtain x f where e: "nodeIdToBytes16 n = Inr x" "opt_payload pl = Inr f" "b = x @ f"
    using k unfolding OpPayload by (rule kindFields_PayloadE)
  obtain x' f' where e': "nodeIdToBytes16 n' = Inr x'" "opt_payload pl' = Inr f'" "b = x' @ f'"
    using k' unfolding s by (rule kindFields_PayloadE)
  have "normalizeNodeId n = normalizeNodeId n'" "f = f'"
    using nodeId_field_split [OF e(1) e'(1) trans [OF e(3) [symmetric] e'(3)]] by auto
  with opt_payload_inj e(2) e'(2) OpPayload s show ?thesis by auto
next
  case (OpDelete n)
  with tag obtain n' where "k' = OpDelete n'" by (cases k') simp_all
  with k k' OpDelete nodeIdToBytes16_inj [of n b n'] show ?thesis by simp
next
  case (OpTombstone n)
  with tag obtain n' where "k' = OpTombstone n'" by (cases k') simp_all
  with k k' OpTombstone nodeIdToBytes16_inj [of n b n'] show ?thesis by simp
qed

lemma u64be_inj: "u64be m = Inr c \<Longrightarrow> u64be n = Inr c \<Longrightarrow> js_int_val m = js_int_val n"
  using u64be_eq [of m c] u64be_eq [of n c]
    be_bytes_inj [of "nat (js_int_val m)" 8 "nat (js_int_val n)"] by (auto simp: eq_nat_nat_iff)

text \<open>The parts of the signing bytes, field by field.\<close>

definition sig_parts :: "(string \<Rightarrow> bytes) \<Rightarrow> string \<Rightarrow> Operation \<Rightarrow> bytes list \<Rightarrow> bool" where
  "sig_parts utf8 d oper ps \<longleftrightarrow> (\<exists>doc rep ctr lam tag fs.
     ps = [doc, rep, ctr, lam, tag, fs] \<and> kindFields (op_kind oper) = Inr fs
     \<and> len_prefixed (utf8 d) = Inr doc \<and> len_prefixed (oid_replica (om_id (op_meta oper))) = Inr rep
     \<and> auth_u64be (oid_counter (om_id (op_meta oper))) = Inr ctr
     \<and> auth_u64be (om_lamport (op_meta oper)) = Inr lam \<and> u8 (kindTag (op_kind oper)) = Inr tag)"

lemma encodeTreecrdtOpSigInputV1_parts:
  "encodeTreecrdtOpSigInputV1 utf8 d oper = Inr b \<Longrightarrow>
     \<exists>ps. sig_parts utf8 d oper ps \<and> b = utf8 ''treecrdt/op-sig/v1'' @ [0] @ concat ps"
  by (auto simp: encodeTreecrdtOpSigInputV1_def bindR_eq_Inr concatBytes_def sig_parts_def u8_eq)

lemma sig_parts_split:
  assumes "sig_parts utf8 d o1 ps" "sig_parts utf8 d' o2 qs" "concat ps = concat qs"
  shows "ps = qs"
proof -
  obtain doc rep ctr lam tag fs where p: "ps = [doc, rep, ctr, lam, tag, fs]"
      "len_prefixed (utf8 d) = Inr doc" "len_prefixed (oid_replica (om_id (op_meta o1))) = Inr rep"
      "length ctr = 8" "length lam = 8" "length tag = 1"
    using assms(1) unfolding sig_parts_def by (force simp: auth_u64be_length u8_eq)
  obtain doc' rep' ctr' lam' tag' fs' where q: "qs = [doc', rep', ctr', lam', tag', fs']"
      "len_prefixed (utf8 d') = Inr doc'" "len_prefixed (oid_replica (om_id (op_meta o2))) = Inr rep'"
      "length ctr' = 8" "length lam' = 8" "length tag' = 1"
    using assms(2) unfolding sig_parts_def by (force simp: auth_u64be_length u8_eq)
  have "doc @ rep @ ctr @ lam @ tag @ fs = doc' @ rep' @ ctr' @ lam' @ tag' @ fs'"
    using p(1) q(1) assms(3) by simp
  then have 1: "doc = doc'" "rep @ ctr @ lam @ tag @ fs = rep' @ ctr' @ lam' @ tag' @ fs'"
    using len_prefixed_split [OF p(2) q(2)] by auto
  have 2: "rep = rep'" "ctr @ lam @ tag @ fs = ctr' @ lam' @ tag' @ fs'"
    using len_prefixed_split [OF p(3) q(3) 1(2)] by auto
  with 1 p q show ?thesis by (simp add: fixed_split)
qed

lemma kindTag_byte_inj: "u8 (kindTag k) = Inr t \<Longrightarrow> u8 (kindTag k') = Inr t \<Longrightarrow> kindTag k = kindTag k'"
  by (cases k; cases k') (auto simp: u8_eq)

lemma sig_parts_inj:
  assumes "sig_parts utf8 d o1 ps" "sig_parts utf8 d' o2 ps"
  shows "utf8 d = utf8 d' \<and> om_id (op_meta o1) = om_id (op_meta o2)
    \<and> om_lamport (op_meta o1) = om_lamport (op_meta o2)
    \<and> normalizeKind (op_kind o1) = normalizeKind (op_kind o2)"
  using assms unfolding sig_parts_def
  by (auto intro!: OperationId.equality
      intro: len_prefixed_inj auth_u64be_inj kindFields_inj kindTag_byte_inj)

lemma sig_parts_cong:
  assumes "sig_parts utf8 d o1 ps" "sig_parts utf8 d' o2 qs"
    and "utf8 d = utf8 d'" "om_id (op_meta o1) = om_id (op_meta o2)"
    "om_lamport (op_meta o1) = om_lamport (op_meta o2)"
    "normalizeKind (op_kind o1) = normalizeKind (op_kind o2)"
  shows "ps = qs"
proof -
  obtain fs fs' where fs: "kindFields (op_kind o1) = Inr fs" "kindFields (op_kind o2) = Inr fs'"
    using assms(1,2) unfolding sig_parts_def by blast
  have k: "fs = fs'" "kindTag (op_kind o1) = kindTag (op_kind o2)"
    using kindFields_via_normalizeKind [OF fs(1)] kindFields_via_normalizeKind [OF fs(2)] assms(6)
    by auto
  have eq: "kindFields (op_kind o1) = kindFields (op_kind o2)" using fs k by simp
  show ?thesis
    using assms(1,2) unfolding sig_parts_def assms(3-5) eq k(2) by auto
qed

section \<open>Properties\<close>

text \<open>
  For replica ids of the protocol's width (32 bytes) the hashed preimage of an op ref
  determines the document and the operation id: no two operations share a preimage, although
  the document id is not length-prefixed.
\<close>
theorem opref_preimage_inj:
  assumes "opref_preimage utf8 d i = Inr p" "opref_preimage utf8 d' i' = Inr p"
    and "length (oib_replica i) = 32" "length (oib_replica i') = 32"
  shows "utf8 d = utf8 d' \<and> oib_replica i = oib_replica i'
    \<and> js_int_val (oib_counter i) = js_int_val (oib_counter i')"
proof -
  obtain l c where e: "u32be 32 = Inr l" "u64be (oib_counter i) = Inr c"
      "p = utf8 ''treecrdt/opref/v0'' @ utf8 d @ l @ oib_replica i @ c"
    using assms(1,3) by (auto simp: opref_preimage_def encodeOperationIdV0_def bindR_eq_Inr concatBytes_def)
  obtain c' where e': "u64be (oib_counter i') = Inr c'"
      "p = utf8 ''treecrdt/opref/v0'' @ utf8 d' @ l @ oib_replica i' @ c'"
    using assms(2,4) e(1)
    by (auto simp: opref_preimage_def encodeOperationIdV0_def bindR_eq_Inr concatBytes_def)
  have len: "length c = 8" "length c' = 8"
    using u64be_eq [OF e(2)] u64be_eq [OF e'(1)] by simp_all
  from e(3) e'(2) have "utf8 d @ (l @ oib_replica i @ c) = utf8 d' @ (l @ oib_replica i' @ c')"
    by simp
  moreover have "length (l @ oib_replica i @ c) = length (l @ oib_replica i' @ c')"
    using len assms(3,4) by simp
  ultimately have "utf8 d = utf8 d'" "oib_replica i @ c = oib_replica i' @ c'"
    by (simp_all add: append_eq_append_conv)
  moreover from this(2) have "oib_replica i = oib_replica i'" "c = c'"
    using assms(3,4) by (simp_all add: append_eq_append_conv)
  moreover from this(2) have "js_int_val (oib_counter i) = js_int_val (oib_counter i')"
    using e(2) e'(1) by (blast intro: u64be_inj)
  ultimately show ?thesis by blast
qed

definition ascii_bytes :: "string \<Rightarrow> bytes" where
  "ascii_bytes s = map of_char s"

theorem opref_preimage_inj_witness:
  "oib_replica \<lparr>oib_replica = replicate 32 7, oib_counter = JsNumber 5\<rparr>
     = oib_replica \<lparr>oib_replica = replicate 32 7, oib_counter = JsBigint 5\<rparr>"
proof -
  define i where "i = \<lparr>oib_replica = replicate 32 (7::byte), oib_counter = JsNumber 5\<rparr>"
  define j where "j = \<lparr>oib_replica = replicate 32 (7::byte), oib_counter = JsBigint 5\<rparr>"
  obtain p where "opref_preimage ascii_bytes ''doc'' i = Inr p" "opref_preimage ascii_bytes ''doc'' j = Inr p"
    by (auto simp: i_def j_def opref_preimage_def encodeOperationIdV0_def u32be_def u64be_def
        isSafeInteger_def MAX_SAFE_INTEGER_def)
  from opref_preimage_inj [OF this] show ?thesis by (simp add: i_def j_def)
qed

text \<open>
  C17: two operations are given the same signing bytes if and only if they agree on the
  document, the operation id, the lamport clock and the kind with its fields (node ids
  compared in canonical form).  The known-state of a delete is the one field outside: it can
  be changed without changing the signed bytes.
\<close>
theorem op_sig_input_inj:
  assumes "encodeTreecrdtOpSigInputV1 utf8 d o1 = Inr b1"
    and "encodeTreecrdtOpSigInputV1 utf8 d' o2 = Inr b2"
  shows "b1 = b2 \<longleftrightarrow> utf8 d = utf8 d' \<and> om_id (op_meta o1) = om_id (op_meta o2)
    \<and> om_lamport (op_meta o1) = om_lamport (op_meta o2)
    \<and> normalizeKind (op_kind o1) = normalizeKind (op_kind o2)"
proof -
  obtain ps qs where "sig_parts utf8 d o1 ps" "sig_parts utf8 d' o2 qs" "b1 = b2 \<longleftrightarrow> concat ps = concat qs"
    using encodeTreecrdtOpSigInputV1_parts [OF assms(1)] encodeTreecrdtOpSigInputV1_parts [OF assms(2)]
    by auto
  then show ?thesis
    using sig_parts_split sig_parts_inj sig_parts_cong by metis
qed

theorem op_sig_input_inj_witness:
  "encodeTreecrdtOpSigInputV1 ascii_bytes ''d''
      \<lparr>op_meta = \<lparr>om_id = \<lparr>oid_replica = replicate 32 7, oid_counter = 1\<rparr>, om_lamport = 9,
        om_knownState = Some [1, 2]\<rparr>, op_kind = OpDelete TRASH_NODE_ID_HEX\<rparr>
   = encodeTreecrdtOpSigInputV1 ascii_bytes ''d''
      \<lparr>op_meta = \<lparr>om_id = \<lparr>oid_replica = replicate 32 7, oid_counter = 1\<rparr>, om_lamport = 9,
        om_knownState = Some [3]\<rparr>, op_kind = OpDelete TRASH_NODE_ID_HEX\<rparr>"
proof -
  define o1 where "o1 = (\<lambda>ks. \<lparr>op_meta = \<lparr>om_id = \<lparr>oid_replica = replicate 32 (7::byte), oid_counter = 1\<rparr>,
    om_lamport = 9, om_knownState = ks\<rparr>, op_kind = OpDelete TRASH_NODE_ID_HEX\<rparr>)"
  have c: "canonical_node_id TRASH_NODE_ID_HEX"
    by (simp add: canonical_node_id_def TRASH_NODE_ID_HEX_def lower_hex_iff hex_codes_def)
  have "\<exists>b. encodeTreecrdtOpSigInputV1 ascii_bytes ''d'' (o1 ks) = Inr b" for ks
    by (simp add: encodeTreecrdtOpSigInputV1_def o1_def replicaIdToBytes_def assertReplicaIdBytes_def
        ED25519_PUBLIC_KEY_LEN_def nodeIdToBytes16_canonical [OF c] u8_def len_prefixed_def u32be_def
        auth_u64be_def ascii_bytes_def)
  then obtain b1 b2 where "encodeTreecrdtOpSigInputV1 ascii_bytes ''d'' (o1 (Some [1, 2])) = Inr b1"
    "encodeTreecrdtOpSigInputV1 ascii_bytes ''d'' (o1 (Some [3])) = Inr b2" by blast
  with op_sig_input_inj [OF this] show ?thesis by (simp add: o1_def)
qed

end
