(* ===== verification/Sync_Types.thy ===== *)
theory Sync_Types
  imports Op_Encoding "HOL-Library.List_Lexorder" "HOL-Library.Char_ord" "HOL-Library.Multiset"
begin

text \<open>
  The data of the sync protocol: messages and their parts
  (\<^verbatim>\<open>packages/sync/protocol/src/types.ts\<close>), the auth vocabulary (\<^verbatim>\<open>auth.ts\<close>,
  \<^verbatim>\<open>auth-capabilities.ts\<close>) and the capability negotiation of \<^verbatim>\<open>capabilities.ts\<close>.
  Operations are abstract (\<open>'op\<close>), as in the source.
\<close>

section \<open>Messages\<close>

datatype ErrorCode = ERROR_CODE_UNSPECIFIED | UNSUPPORTED_VERSION | FILTER_NOT_SUPPORTED
  | TOO_MANY_FILTERS | RECONCILIATION_DECODE_FAILED | RATE_LIMITED | DOC_NOT_FOUND | UNAUTHORIZED

datatype RibltFailureReason = RIBLT_FAILURE_REASON_UNSPECIFIED | MAX_CODEWORDS_EXCEEDED
  | DECODE_FAILED | OUT_OF_ORDER

datatype Filter = FilterAll | FilterChildren bytes

record FilterSpec =
  fs_id :: string
  fs_filter :: Filter

record Capability =
  cap_name :: string
  cap_value :: string

record Hello =
  hello_capabilities :: "Capability list"
  hello_filters :: "FilterSpec list"
  hello_maxLamport :: nat

record RejectedFilter =
  rej_id :: string
  rej_reason :: ErrorCode
  rej_message :: "string option"

record HelloAck =
  ack_capabilities :: "Capability list"
  ack_acceptedFilters :: "string list"
  ack_rejectedFilters :: "RejectedFilter list"
  ack_maxLamport :: nat

record RibltCodeword =
  cw_count :: int
  cw_keySum :: bytes
  cw_valueSum :: bytes

record RibltCodewords =
  rc_filterId :: string
  rc_round :: nat
  rc_startIndex :: nat
  rc_codewords :: "RibltCodeword list"

datatype RibltStatusPayload =
    StatusMore (codewordsReceived: nat) (credits: nat)
  | StatusDecoded (senderMissing: "OpRef list") (receiverMissing: "OpRef list") (decodedReceived: nat)
  | StatusFailed RibltFailureReason "string option"

record RibltStatus =
  st_filterId :: string
  st_round :: nat
  st_payload :: RibltStatusPayload

record OpAuth =
  oa_sig :: bytes
  oa_proofRef :: "bytes option"

record 'op PendingOp =
  po_op :: 'op
  po_auth :: OpAuth
  po_message :: "string option"

record 'op OpsBatch =
  ob_filterId :: string
  ob_ops :: "'op list"
  ob_auth :: "OpAuth list option"
  ob_done :: bool

record Subscribe =
  sub_subscriptionId :: string
  sub_filter :: Filter

record SubscribeAck =
  sack_subscriptionId :: string
  sack_currentLamport :: nat

record SyncError =
  se_code :: ErrorCode
  se_message :: string
  se_filterId :: "string option"
  se_subscriptionId :: "string option"

datatype 'op SyncMessagePayload =
    MHello Hello
  | MHelloAck HelloAck
  | MRibltCodewords RibltCodewords
  | MRibltStatus RibltStatus
  | MOpsBatch "'op OpsBatch"
  | MSubscribe Subscribe
  | MSubscribeAck SubscribeAck
  | MUnsubscribe string
  | MError SyncError

record 'op SyncMessage =
  sm_v :: nat
  sm_docId :: string
  sm_payload :: "'op SyncMessagePayload"

section \<open>Auth vocabulary\<close>

datatype SyncOpPurpose = PReconcile | PSubscribe | PReprocessPending

datatype SyncAuthOpDisposition = DAllow | DPendingContext "string option"

record SyncAuthOpsContext =
  oc_docId :: string
  oc_purpose :: SyncOpPurpose
  oc_filterId :: string

datatype FilterPurpose = FPHello | FPSubscribe | FPReconcile

record SyncAuthAuthorizeFilterContext =
  afc_docId :: string
  afc_purpose :: FilterPurpose
  afc_capabilities :: "Capability list"

record SyncAuthFilterOutgoingOpsContext =
  foc_docId :: string
  foc_purpose :: FilterPurpose
  foc_filter :: Filter
  foc_capabilities :: "Capability list"

definition AUTH_CAPABILITY_NAME :: string where
  "AUTH_CAPABILITY_NAME = ''auth.capability''"

definition AUTH_REPLAY_CAPABILITY_NAME :: string where
  "AUTH_REPLAY_CAPABILITY_NAME = ''auth.capability.replay''"

definition isAuthCapability :: "Capability \<Rightarrow> bool" where
  "isAuthCapability cap = (cap_name cap = AUTH_CAPABILITY_NAME)"

definition isReplayAuthCapability :: "Capability \<Rightarrow> bool" where
  "isReplayAuthCapability cap = (cap_name cap = AUTH_REPLAY_CAPABILITY_NAME)"

definition isAnyAuthCapability :: "Capability \<Rightarrow> bool" where
  "isAnyAuthCapability cap = (isAuthCapability cap \<or> isReplayAuthCapability cap)"

definition peerAdvertisedOpAuth :: "Capability list \<Rightarrow> bool" where
  "peerAdvertisedOpAuth capabilities = list_ex isAnyAuthCapability capabilities"

section \<open>Capability negotiation\<close>

definition DIRECT_SEND_SMALL_SCOPE_SUPPORT_CAPABILITY :: string where
  "DIRECT_SEND_SMALL_SCOPE_SUPPORT_CAPABILITY = ''treecrdt.sync.direct_send_small_scope.v1''"

definition DIRECT_SEND_SMALL_SCOPE_REQUEST_CAPABILITY :: string where
  "DIRECT_SEND_SMALL_SCOPE_REQUEST_CAPABILITY = ''treecrdt.sync.direct_send_small_scope.request.v1''"

definition DIRECT_SEND_SMALL_SCOPE_FILTER_CAPABILITY :: string where
  "DIRECT_SEND_SMALL_SCOPE_FILTER_CAPABILITY = ''treecrdt.sync.direct_send_small_scope.filter.v1''"

definition DIRECT_SEND_EMPTY_RECEIVER_SUPPORT_CAPABILITY :: string where
  "DIRECT_SEND_EMPTY_RECEIVER_SUPPORT_CAPABILITY = ''treecrdt.sync.direct_send_empty_receiver.v1''"

definition DIRECT_SEND_EMPTY_RECEIVER_FILTER_CAPABILITY :: string where
  "DIRECT_SEND_EMPTY_RECEIVER_FILTER_CAPABILITY = ''treecrdt.sync.direct_send_empty_receiver.filter.v1''"

definition DIRECT_SEND_EMPTY_RECEIVER_MAX_OPS_PER_BATCH :: nat where
  "DIRECT_SEND_EMPTY_RECEIVER_MAX_OPS_PER_BATCH = 5000"

lemmas capability_names =
  DIRECT_SEND_SMALL_SCOPE_SUPPORT_CAPABILITY_def DIRECT_SEND_SMALL_SCOPE_REQUEST_CAPABILITY_def
  DIRECT_SEND_SMALL_SCOPE_FILTER_CAPABILITY_def DIRECT_SEND_EMPTY_RECEIVER_SUPPORT_CAPABILITY_def
  DIRECT_SEND_EMPTY_RECEIVER_FILTER_CAPABILITY_def AUTH_CAPABILITY_NAME_def AUTH_REPLAY_CAPABILITY_NAME_def

definition has_capability :: "Capability list \<Rightarrow> string \<Rightarrow> string \<Rightarrow> bool" where
  "has_capability capabilities name v =
     list_ex (\<lambda>c. cap_name c = name \<and> cap_value c = v) capabilities"

definition pushCapabilityIfMissing :: "Capability list \<Rightarrow> string \<Rightarrow> string \<Rightarrow> Capability list" where
  "pushCapabilityIfMissing capabilities name v =
     (if has_capability capabilities name v then capabilities
      else capabilities @ [\<lparr>cap_name = name, cap_value = v\<rparr>])"

definition buildInitiatorHelloCapabilities :: "Capability list \<Rightarrow> string \<Rightarrow> bool \<Rightarrow> Capability list" where
  "buildInitiatorHelloCapabilities baseCapabilities filterId localHasOps =
    (let c1 = pushCapabilityIfMissing baseCapabilities DIRECT_SEND_SMALL_SCOPE_SUPPORT_CAPABILITY ''1'';
         c2 = pushCapabilityIfMissing c1 DIRECT_SEND_EMPTY_RECEIVER_SUPPORT_CAPABILITY ''1''
     in if \<not> localHasOps
        then pushCapabilityIfMissing c2 DIRECT_SEND_SMALL_SCOPE_REQUEST_CAPABILITY filterId
        else c2)"

definition peerSupportsDirectSendSmallScope :: "Capability list \<Rightarrow> bool" where
  "peerSupportsDirectSendSmallScope caps =
     has_capability caps DIRECT_SEND_SMALL_SCOPE_SUPPORT_CAPABILITY ''1''"

definition peerSelectedDirectSendFilter :: "Capability list \<Rightarrow> string \<Rightarrow> bool" where
  "peerSelectedDirectSendFilter caps filterId =
     has_capability caps DIRECT_SEND_SMALL_SCOPE_FILTER_CAPABILITY filterId"

definition peerRequestedDirectSendFilter :: "Capability list \<Rightarrow> string \<Rightarrow> bool" where
  "peerRequestedDirectSendFilter caps filterId =
     has_capability caps DIRECT_SEND_SMALL_SCOPE_REQUEST_CAPABILITY filterId"

definition peerSupportsDirectSendEmptyReceiver :: "Capability list \<Rightarrow> bool" where
  "peerSupportsDirectSendEmptyReceiver caps =
     has_capability caps DIRECT_SEND_EMPTY_RECEIVER_SUPPORT_CAPABILITY ''1''"

definition peerSelectedDirectSendEmptyReceiverFilter :: "Capability list \<Rightarrow> string \<Rightarrow> bool" where
  "peerSelectedDirectSendEmptyReceiverFilter caps filterId =
     has_capability caps DIRECT_SEND_EMPTY_RECEIVER_FILTER_CAPABILITY filterId"

text \<open>\<^verbatim>\<open>join(sep)\<close> of a one-character separator.\<close>

fun join1 :: "char \<Rightarrow> string list \<Rightarrow> string" where
  "join1 sep [] = []"
| "join1 sep [s] = s"
| "join1 sep (s # t # ts) = s @ sep # join1 sep (t # ts)"

definition capability_line :: "Capability \<Rightarrow> string" where
  "capability_line c = cap_name c @ char_of (0 :: nat) # cap_value c"

definition capabilitySetFingerprint :: "Capability list \<Rightarrow> string" where
  "capabilitySetFingerprint capabilities =
     join1 (char_of (1 :: nat)) (sort (map capability_line capabilities))"

section \<open>Facts about the negotiation\<close>

lemma has_capability_iff:
  "has_capability cs n v \<longleftrightarrow> \<lparr>cap_name = n, cap_value = v\<rparr> \<in> set cs"
proof -
  have "c = \<lparr>cap_name = n, cap_value = v\<rparr> \<longleftrightarrow> cap_name c = n \<and> cap_value c = v" for c :: Capability
    by (cases c) auto
  then show ?thesis unfolding has_capability_def list_ex_iff by metis
qed

lemma has_capability_push [simp]:
  "has_capability (pushCapabilityIfMissing cs n v) n' v' \<longleftrightarrow>
     has_capability cs n' v' \<or> (n' = n \<and> v' = v)"
  by (auto simp: pushCapabilityIfMissing_def has_capability_iff)

lemma has_capability_build:
  "has_capability (buildInitiatorHelloCapabilities cs f l) n v \<longleftrightarrow>
     has_capability cs n v
     \<or> (n = DIRECT_SEND_SMALL_SCOPE_SUPPORT_CAPABILITY \<and> v = ''1'')
     \<or> (n = DIRECT_SEND_EMPTY_RECEIVER_SUPPORT_CAPABILITY \<and> v = ''1'')
     \<or> (\<not> l \<and> n = DIRECT_SEND_SMALL_SCOPE_REQUEST_CAPABILITY \<and> v = f)"
  by (auto simp: buildInitiatorHelloCapabilities_def Let_def)

lemma peer_capability_build [simp]:
  "peerSupportsDirectSendSmallScope (buildInitiatorHelloCapabilities cs f l)"
  "peerSupportsDirectSendEmptyReceiver (buildInitiatorHelloCapabilities cs f l)"
  "peerRequestedDirectSendFilter (buildInitiatorHelloCapabilities cs f l) g \<longleftrightarrow>
     peerRequestedDirectSendFilter cs g \<or> (\<not> l \<and> g = f)"
  by (auto simp: peerSupportsDirectSendSmallScope_def peerSupportsDirectSendEmptyReceiver_def
      peerRequestedDirectSendFilter_def has_capability_build capability_names)

lemma join1_Cons: "join1 sep (s # ts) = s @ (if ts = [] then [] else sep # join1 sep ts)"
  by (cases ts) simp_all

lemma sep_split:
  assumes "sep \<notin> set s" "sep \<notin> set t" "s @ r = t @ r'" "r = [] \<or> hd r = sep" "r' = [] \<or> hd r' = sep"
  shows "s = t \<and> r = r'"
proof -
  have "takeWhile (\<lambda>c. c \<noteq> sep) (s @ r) = s" "takeWhile (\<lambda>c. c \<noteq> sep) (t @ r') = t"
    using assms(1,2,4,5) by (cases r; cases r'; auto simp: takeWhile_append)+
  with assms have "s = t" by simp
  with assms show ?thesis by simp
qed

lemma join1_inj:
  assumes "\<forall>s \<in> set xs. sep \<notin> set s" "\<forall>s \<in> set ys. sep \<notin> set s" "xs \<noteq> []" "ys \<noteq> []"
    and "join1 sep xs = join1 sep ys"
  shows "xs = ys"
  using assms
proof (induction xs arbitrary: ys)
  case (Cons s xs)
  then obtain t ys' where ys: "ys = t # ys'" by (cases ys) auto
  have "s = t \<and> (if xs = [] then [] else sep # join1 sep xs) = (if ys' = [] then [] else sep # join1 sep ys')"
    using Cons.prems ys by (intro sep_split [of sep]) (auto simp: join1_Cons)
  then have st: "s = t" "xs = [] \<longleftrightarrow> ys' = []" "xs \<noteq> [] \<Longrightarrow> join1 sep xs = join1 sep ys'"
    by (cases "xs = []"; cases "ys' = []"; simp)+
  show ?case
  proof (cases "xs = []")
    case False
    then have "xs = ys'" using Cons.IH [of ys'] Cons.prems(1,2) ys st by simp
    with st ys show ?thesis by simp
  qed (use st ys in simp)
qed simp

text \<open>Capabilities free of the two control characters the fingerprint uses as separators.\<close>

definition plain_capability :: "Capability \<Rightarrow> bool" where
  "plain_capability c = (char_of (0::nat) \<notin> set (cap_name c) \<and> char_of (1::nat) \<notin> set (cap_name c)
     \<and> char_of (1::nat) \<notin> set (cap_value c))"

lemma capability_line_inj:
  "plain_capability c \<Longrightarrow> plain_capability d \<Longrightarrow> capability_line c = capability_line d \<Longrightarrow> c = d"
  using sep_split [of "char_of (0::nat)" "cap_name c" "cap_name d"
      "char_of (0::nat) # cap_value c" "char_of (0::nat) # cap_value d"]
  by (auto simp: plain_capability_def capability_line_def intro!: Capability.equality)

lemma mset_map_inj:
  assumes "inj_on f (set xs \<union> set ys)" "mset (map f xs) = mset (map f ys)"
  shows "mset xs = mset ys"
proof -
  define A where "A = set xs \<union> set ys"
  have inv: "mset zs = image_mset (inv_into A f) (mset (map f zs))" if "set zs \<subseteq> A" for zs
    using that assms(1) by (induction zs) (auto simp: A_def [symmetric])
  show ?thesis using inv [of xs] inv [of ys] assms(2) by (simp add: A_def)
qed

lemma fingerprint_eq_Nil: "capabilitySetFingerprint cs = [] \<longleftrightarrow> cs = []"
proof (cases "sort (map capability_line cs)")
  case (Cons s ts)
  then have "s \<in> set (map capability_line cs)" by (metis list.set_intros(1) set_sort)
  then have "s \<noteq> []" by (auto simp: capability_line_def)
  with Cons show ?thesis by (auto simp: capabilitySetFingerprint_def join1_Cons)
next
  case Nil
  then have "cs = []" by (metis map_is_Nil_conv set_empty set_sort)
  then show ?thesis by (simp add: capabilitySetFingerprint_def)
qed

section \<open>Properties\<close>

text \<open>
  The fingerprint that decides whether a peer's hello capabilities must be re-sent
  identifies capability sets up to order: for capabilities without the separator characters,
  two lists have the same fingerprint exactly when they are permutations of one another.
\<close>
theorem fingerprint_iff_permutation:
  assumes "\<forall>c \<in> set cs. plain_capability c" and "\<forall>c \<in> set ds. plain_capability c"
  shows "capabilitySetFingerprint cs = capabilitySetFingerprint ds \<longleftrightarrow> mset cs = mset ds"
proof
  assume eq: "capabilitySetFingerprint cs = capabilitySetFingerprint ds"
  show "mset cs = mset ds"
  proof (cases "cs = [] \<or> ds = []")
    case True
    then show ?thesis using eq fingerprint_eq_Nil by metis
  next
    case False
    have sep: "char_of (1::nat) \<notin> set (capability_line c)" if "plain_capability c" for c
      using that by (auto simp: plain_capability_def capability_line_def char_of_def bit_0)
    have "sort (map capability_line cs) \<noteq> []" "sort (map capability_line ds) \<noteq> []"
      using False by (metis length_0_conv length_map length_sort)+
    moreover have "\<forall>s \<in> set (sort (map capability_line es)). char_of (1::nat) \<notin> set s"
      if "\<forall>c \<in> set es. plain_capability c" for es
      using that sep by simp
    ultimately have "sort (map capability_line cs) = sort (map capability_line ds)"
      using eq assms unfolding capabilitySetFingerprint_def by (intro join1_inj [of _ "char_of (1::nat)"]) blast+
    then have "mset (map capability_line cs) = mset (map capability_line ds)"
      by (metis (no_types) mset_sort)
    moreover have "inj_on capability_line (set cs \<union> set ds)"
      using assms capability_line_inj unfolding inj_on_def by blast
    ultimately show ?thesis by (rule mset_map_inj [rotated])
  qed
next
  assume "mset cs = mset ds"
  then have "mset (map capability_line cs) = mset (map capability_line ds)" by simp
  then have "sort (map capability_line cs) = sort (map capability_line ds)"
    by (intro properties_for_sort [symmetric]) simp_all
  then show "capabilitySetFingerprint cs = capabilitySetFingerprint ds"
    by (simp add: capabilitySetFingerprint_def)
qed

theorem fingerprint_iff_permutation_witness:
  "capabilitySetFingerprint [\<lparr>cap_name = ''a'', cap_value = ''1''\<rparr>, \<lparr>cap_name = ''b'', cap_value = ''2''\<rparr>]
   = capabilitySetFingerprint [\<lparr>cap_name = ''b'', cap_value = ''2''\<rparr>, \<lparr>cap_name = ''a'', cap_value = ''1''\<rparr>]"
  by (subst fingerprint_iff_permutation) (auto simp: plain_capability_def char_of_def bit_0)

end
