(* ===== verification/Peer_Monad.thy ===== *)
theory Peer_Monad
  imports Sync_Prelude
begin

text \<open>
  Stateful code that may throw.  An \<^verbatim>\<open>async\<close> method of the source is a function from a state
  to a result and a new state; an exception keeps the state changes made before it, as in
  JavaScript.  A method runs to completion before the next one starts; the awaits where the
  source waits for another message are cut points between such functions.

  The locale \<open>step_closed\<close> collects what every composition of such methods keeps: a reflexive
  and transitive relation between the states before and after.
\<close>

type_synonym ('s, 'a) pm = "'s \<Rightarrow> 'a res \<times> 's"

named_theorems pm_simps \<open>evaluation of stateful computations\<close>

definition ret :: "'a \<Rightarrow> ('s, 'a) pm" where
  "ret x = (\<lambda>s. (Inr x, s))"

definition throw :: "error \<Rightarrow> ('s, 'a) pm" where
  "throw e = (\<lambda>s. (Inl e, s))"

definition bnd :: "('s, 'a) pm \<Rightarrow> ('a \<Rightarrow> ('s, 'b) pm) \<Rightarrow> ('s, 'b) pm" where
  "bnd m f = (\<lambda>s. case m s of (Inl e, s') \<Rightarrow> (Inl e, s') | (Inr x, s') \<Rightarrow> f x s')"

definition sq :: "('s, unit) pm \<Rightarrow> ('s, 'b) pm \<Rightarrow> ('s, 'b) pm" where
  "sq m n = bnd m (\<lambda>_. n)"

definition gets :: "('s \<Rightarrow> 'a) \<Rightarrow> ('s, 'a) pm" where
  "gets f = (\<lambda>s. (Inr (f s), s))"

definition modify :: "('s \<Rightarrow> 's) \<Rightarrow> ('s, unit) pm" where
  "modify f = (\<lambda>s. (Inr (), f s))"

definition catch :: "('s, 'a) pm \<Rightarrow> (error \<Rightarrow> ('s, 'a) pm) \<Rightarrow> ('s, 'a) pm" where
  "catch m h = (\<lambda>s. case m s of (Inl e, s') \<Rightarrow> h e s' | (Inr x, s') \<Rightarrow> (Inr x, s'))"

definition finallyM :: "('s, 'a) pm \<Rightarrow> ('s \<Rightarrow> 's) \<Rightarrow> ('s, 'a) pm" where
  "finallyM m f = (\<lambda>s. case m s of (r, s') \<Rightarrow> (r, f s'))"

definition liftR :: "'a res \<Rightarrow> ('s, 'a) pm" where
  "liftR r = (\<lambda>s. (r, s))"

definition whenM :: "bool \<Rightarrow> ('s, unit) pm \<Rightarrow> ('s, unit) pm" where
  "whenM b m = (if b then m else ret ())"

text \<open>The outcome of \<open>try { m } catch\<close> as a value.\<close>

definition tryM :: "('s, 'a) pm \<Rightarrow> ('s, 'a res) pm" where
  "tryM m = (\<lambda>s. case m s of (r, s') \<Rightarrow> (Inr r, s'))"

fun for_each :: "('a \<Rightarrow> ('s, unit) pm) \<Rightarrow> 'a list \<Rightarrow> ('s, unit) pm" where
  "for_each f [] = ret ()"
| "for_each f (x # xs) = sq (f x) (for_each f xs)"

fun fold_m :: "('a \<Rightarrow> 'b \<Rightarrow> ('s, 'b) pm) \<Rightarrow> 'a list \<Rightarrow> 'b \<Rightarrow> ('s, 'b) pm" where
  "fold_m f [] acc = ret acc"
| "fold_m f (x # xs) acc = bnd (f x acc) (fold_m f xs)"

lemma pm_eval [simp, pm_simps]:
  "ret x s = (Inr x, s)" "throw e s = (Inl e, s)" "gets g s = (Inr (g s), s)"
  "modify h s = (Inr (), h s)" "liftR r s = (r, s)"
  by (simp_all add: ret_def throw_def gets_def modify_def liftR_def)

lemma bnd_eval [pm_simps]:
  "bnd m f s = (case m s of (Inl e, s') \<Rightarrow> (Inl e, s') | (Inr x, s') \<Rightarrow> f x s')"
  by (simp add: bnd_def)

lemma sq_eval [pm_simps]:
  "sq m n s = (case m s of (Inl e, s') \<Rightarrow> (Inl e, s') | (Inr _, s') \<Rightarrow> n s')"
  by (simp add: sq_def bnd_def)

lemma catch_eval [pm_simps]:
  "catch m h s = (case m s of (Inl e, s') \<Rightarrow> h e s' | (Inr x, s') \<Rightarrow> (Inr x, s'))"
  by (simp add: catch_def)

lemma whenM_eval [simp, pm_simps]: "whenM True m = m" "whenM False m = ret ()"
  by (simp_all add: whenM_def)

lemma tryM_eval [pm_simps]: "tryM m s = (case m s of (r, s') \<Rightarrow> (Inr r, s'))"
  by (simp add: tryM_def)

lemma finallyM_eval [pm_simps]: "finallyM m f s = (case m s of (r, s') \<Rightarrow> (r, f s'))"
  by (simp add: finallyM_def)

lemma bnd_okE:
  assumes "bnd m f s = (Inr y, s'')"
  obtains x s' where "m s = (Inr x, s')" "f x s' = (Inr y, s'')"
  using assms by (auto simp: bnd_def split: prod.splits sum.splits)

lemma bnd_E:
  assumes "bnd m f s = (r, s'')"
  obtains (err) e where "m s = (Inl e, s'')" "r = Inl e"
  | (ok) x s' where "m s = (Inr x, s')" "f x s' = (r, s'')"
  using assms by (auto simp: bnd_def split: prod.splits sum.splits)

lemma sq_okE:
  assumes "sq m n s = (Inr y, s'')"
  obtains s' where "m s = (Inr (), s')" "n s' = (Inr y, s'')"
  using assms by (auto simp: sq_def elim!: bnd_okE)

lemma sq_E:
  assumes "sq m n s = (r, s'')"
  obtains (err) e where "m s = (Inl e, s'')" "r = Inl e"
  | (ok) s' where "m s = (Inr (), s')" "n s' = (r, s'')"
  using assms by (auto simp: sq_def elim!: bnd_E)

lemma bnd_ok: "m s = (Inr x, s') \<Longrightarrow> bnd m f s = f x s'"
  by (simp add: bnd_def)

lemma bnd_err: "m s = (Inl e, s') \<Longrightarrow> bnd m f s = (Inl e, s')"
  by (simp add: bnd_def)

lemma sq_ok: "m s = (Inr u, s') \<Longrightarrow> sq m n s = n s'"
  by (simp add: sq_def bnd_def)

lemma sq_err: "m s = (Inl e, s') \<Longrightarrow> sq m n s = (Inl e, s')"
  by (simp add: sq_def bnd_def)

lemma for_each_append: "for_each f (xs @ ys) s =
    (case for_each f xs s of (Inl e, s') \<Rightarrow> (Inl e, s') | (Inr _, s') \<Rightarrow> for_each f ys s')"
  by (induction xs arbitrary: s) (auto simp: pm_simps split: prod.splits sum.splits)

section \<open>Relations between the states before and after\<close>

definition steps :: "('s \<Rightarrow> 's \<Rightarrow> bool) \<Rightarrow> ('s, 'a) pm \<Rightarrow> bool" where
  "steps R m \<longleftrightarrow> (\<forall>s r s'. m s = (r, s') \<longrightarrow> R s s')"

lemma stepsI: "(\<And>s r s'. m s = (r, s') \<Longrightarrow> R s s') \<Longrightarrow> steps R m"
  by (auto simp: steps_def)

lemma stepsD: "steps R m \<Longrightarrow> m s = (r, s') \<Longrightarrow> R s s'"
  by (auto simp: steps_def)

locale step_closed =
  fixes R :: "'s \<Rightarrow> 's \<Rightarrow> bool"
  assumes R_refl: "R s s"
    and R_trans: "R s t \<Longrightarrow> R t u \<Longrightarrow> R s u"
begin

lemma steps_ret: "steps R (ret x)"
  and steps_throw: "steps R (throw e)"
  and steps_gets: "steps R (gets g)"
  and steps_liftR: "steps R (liftR r)"
  and steps_Pair: "steps R (Pair r)"
  by (auto simp: steps_def R_refl)

lemma steps_modify: "(\<And>s. R s (h s)) \<Longrightarrow> steps R (modify h)"
  by (simp add: steps_def)

lemma steps_bnd:
  assumes "steps R m" "\<And>x. steps R (f x)"
  shows "steps R (bnd m f)"
proof (rule stepsI)
  fix s r s'
  assume "bnd m f s = (r, s')"
  then show "R s s'"
    by (cases rule: bnd_E) (use assms in \<open>auto dest: stepsD intro: R_trans\<close>)
qed

text \<open>The continuation may rely on the value having been returned by \<open>m\<close>.\<close>

lemma steps_bnd_value:
  assumes "steps R m" "\<And>x s s'. m s = (Inr x, s') \<Longrightarrow> steps R (f x)"
  shows "steps R (bnd m f)"
proof (rule stepsI)
  fix s r s'
  assume "bnd m f s = (r, s')"
  then show "R s s'"
  proof (cases rule: bnd_E)
    case (err e)
    then show ?thesis using assms(1) by (auto dest: stepsD)
  next
    case (ok x t)
    then have "R s t" "R t s'" using assms(1) assms(2) [OF ok(1)] by (auto dest: stepsD)
    then show ?thesis by (rule R_trans)
  qed
qed

lemma steps_sq: "steps R m \<Longrightarrow> steps R n \<Longrightarrow> steps R (sq m n)"
  unfolding sq_def by (rule steps_bnd)

lemma steps_catch:
  assumes "steps R m" "\<And>e. steps R (h e)"
  shows "steps R (catch m h)"
proof (rule stepsI)
  fix s r s'
  assume c: "catch m h s = (r, s')"
  obtain r1 s1 where m: "m s = (r1, s1)" by fastforce
  with assms(1) have "R s s1" by (rule stepsD)
  moreover have "R s1 s'"
    using c m assms(2) by (cases r1) (auto simp: catch_def R_refl dest: stepsD)
  ultimately show "R s s'" by (rule R_trans)
qed

lemma steps_tryM: "steps R m \<Longrightarrow> steps R (tryM m)"
  by (auto simp: steps_def tryM_def split: prod.splits)

lemma steps_finallyM: "steps R m \<Longrightarrow> (\<And>s. R s (f s)) \<Longrightarrow> steps R (finallyM m f)"
  unfolding steps_def finallyM_def by (simp split: prod.splits) (blast intro: R_trans)

lemma steps_whenM: "steps R m \<Longrightarrow> steps R (whenM b m)"
  by (cases b) (simp_all add: steps_ret)

lemma steps_if: "(b \<Longrightarrow> steps R m) \<Longrightarrow> (\<not> b \<Longrightarrow> steps R n) \<Longrightarrow> steps R (if b then m else n)"
  by simp

lemma steps_case_option:
  "(x = None \<Longrightarrow> steps R m) \<Longrightarrow> (\<And>y. x = Some y \<Longrightarrow> steps R (f y)) \<Longrightarrow> steps R (case x of None \<Rightarrow> m | Some y \<Rightarrow> f y)"
  by (cases x) auto

lemma steps_case_sum:
  "(\<And>e. x = Inl e \<Longrightarrow> steps R (g e)) \<Longrightarrow> (\<And>y. x = Inr y \<Longrightarrow> steps R (f y)) \<Longrightarrow>
    steps R (case x of Inl e \<Rightarrow> g e | Inr y \<Rightarrow> f y)"
  by (cases x) auto

lemma steps_case_prod:
  "(\<And>a b. x = (a, b) \<Longrightarrow> steps R (f a b)) \<Longrightarrow> steps R (case x of (a, b) \<Rightarrow> f a b)"
  by (cases x) auto

lemma steps_for_each: "(\<And>x. x \<in> set xs \<Longrightarrow> steps R (f x)) \<Longrightarrow> steps R (for_each f xs)"
  by (induction xs) (auto intro: steps_ret steps_sq)

lemma steps_fold_m: "(\<And>x a. steps R (f x a)) \<Longrightarrow> steps R (fold_m f xs acc)"
  by (induction xs arbitrary: acc) (auto intro: steps_ret steps_bnd)

lemmas steps_rules = steps_ret steps_throw steps_gets steps_liftR steps_Pair steps_bnd steps_sq steps_catch
  steps_tryM steps_finallyM steps_whenM steps_if steps_case_option steps_case_sum steps_case_prod
  steps_for_each steps_fold_m

end

text \<open>Preservation of a state predicate is such a relation.\<close>

definition preserves :: "('s \<Rightarrow> bool) \<Rightarrow> 's \<Rightarrow> 's \<Rightarrow> bool" where
  "preserves Q s s' \<longleftrightarrow> (Q s \<longrightarrow> Q s')"

interpretation pr: step_closed "preserves Q" for Q
  by unfold_locales (auto simp: preserves_def)

lemma preservesI: "(Q s \<Longrightarrow> Q s') \<Longrightarrow> preserves Q s s'"
  by (simp add: preserves_def)

lemma stepsI_eq: "(\<And>s r s'. m s = (r, s') \<Longrightarrow> Q s' = Q s) \<Longrightarrow> steps (preserves Q) m"
  by (auto simp: steps_def preserves_def)

end
