(* ===== verification/Peer_State.thy ===== *)
theory Peer_State
  imports Sync_Types Peer_Monad
begin

text \<open>
  The state of a \<^verbatim>\<open>SyncPeer\<close> (\<^verbatim>\<open>packages/sync/protocol/src/sync.ts\<close>), what it calls, and its
  constructor.

  The backend (\<^verbatim>\<open>SyncBackend\<close>), the auth hooks (\<^verbatim>\<open>SyncAuth\<close>), the transport, the random ids
  and the RIBLT encoder and decoder are interfaces: records of functions over a state \<open>'w\<close> of
  the outside world (or \<open>'d\<close>, \<open>'e\<close> for a decoder, an encoder).  Every call may throw and may
  change the world.  A transport is a number.  The field \<open>sent\<close> records what was handed to the
  transport successfully, in order.

  A promise with its resolve and reject functions is a \<open>Deferred\<close>: only the first settlement
  counts.  Session objects of an initiator are shared between the session map and the running
  \<^verbatim>\<open>syncOnce\<close>, so the map holds keys into a store of objects.
\<close>

type_synonym transport = nat

section \<open>Interfaces\<close>

record ('op, 'w) SyncBackend =
  sb_docId :: string
  sb_maxLamport :: "('w, nat) pm"
  sb_listOpRefs :: "Filter \<Rightarrow> ('w, OpRef list) pm"
  sb_getOpsByOpRefs :: "OpRef list \<Rightarrow> ('w, 'op list) pm"
  sb_applyOps :: "'op list \<Rightarrow> ('w, unit) pm"
  sb_storePendingOps :: "('op PendingOp list \<Rightarrow> ('w, unit) pm) option"
  sb_listPendingOps :: "('w, 'op PendingOp list) pm option"
  sb_deletePendingOps :: "('op list \<Rightarrow> ('w, unit) pm) option"

record ('op, 'w) SyncAuth =
  sa_helloCapabilities :: "(string \<Rightarrow> ('w, Capability list) pm) option"
  sa_onHello :: "(Hello \<Rightarrow> string \<Rightarrow> ('w, Capability list) pm) option"
  sa_onHelloAck :: "(HelloAck \<Rightarrow> string \<Rightarrow> ('w, unit) pm) option"
  sa_authorizeFilter :: "(Filter \<Rightarrow> SyncAuthAuthorizeFilterContext \<Rightarrow> ('w, unit) pm) option"
  sa_filterOutgoingOps ::
    "('op list \<Rightarrow> SyncAuthFilterOutgoingOpsContext \<Rightarrow> ('w, bool list) pm) option"
  sa_signOps :: "('op list \<Rightarrow> SyncAuthOpsContext \<Rightarrow> ('w, OpAuth list) pm) option"
  sa_verifyOps :: "('op list \<Rightarrow> OpAuth list option \<Rightarrow> SyncAuthOpsContext \<Rightarrow>
    ('w, SyncAuthOpDisposition list option) pm) option"
  sa_onVerifiedOps :: "('op list \<Rightarrow> OpAuth list \<Rightarrow> SyncAuthOpsContext \<Rightarrow> ('w, unit) pm) option"

record 'd RibltDecoder16 =
  rd_new :: 'd
  rd_addLocalSymbol :: "OpRef \<Rightarrow> 'd \<Rightarrow> 'd res"
  rd_addCodeword :: "RibltCodeword \<Rightarrow> 'd \<Rightarrow> 'd res"
  rd_tryDecode :: "'d \<Rightarrow> 'd res"
  rd_decoded :: "'d \<Rightarrow> bool"
  rd_remoteMissing :: "'d \<Rightarrow> OpRef list"
  rd_localMissing :: "'d \<Rightarrow> OpRef list"
  rd_codewordsReceived :: "'d \<Rightarrow> nat"

record 'e RibltEncoder16 =
  re_new :: 'e
  re_addSymbol :: "OpRef \<Rightarrow> 'e \<Rightarrow> 'e res"
  re_nextCodeword :: "'e \<Rightarrow> RibltCodeword \<times> 'e"

section \<open>Options and constructor\<close>

record ('op, 'w) SyncPeerOptions =
  opt_maxCodewords :: "nat option"
  opt_maxOpsPerBatch :: "int option"
  opt_maxHelloFilters :: "nat option"
  opt_directSendThreshold :: "int option"
  opt_requireAuthForFilters :: "bool option"
  opt_auth :: "('op, 'w) SyncAuth option"
  opt_deriveOpRef :: "('op \<Rightarrow> string \<Rightarrow> OpRef res) option"

record ('op, 'w, 'd, 'e) PeerConfig =
  cfg_backend :: "('op, 'w) SyncBackend"
  cfg_send :: "transport \<Rightarrow> 'op SyncMessage \<Rightarrow> ('w, unit) pm"
  cfg_randomId :: "string \<Rightarrow> ('w, string) pm"
  cfg_decoder :: "'d RibltDecoder16"
  cfg_encoder :: "'e RibltEncoder16"
  maxCodewords :: nat
  maxOpsPerBatch :: int
  maxHelloFilters :: nat
  directSendThreshold :: int
  requireAuthForFilters :: bool
  cfg_auth :: "('op, 'w) SyncAuth option"
  deriveOpRef :: "('op \<Rightarrow> string \<Rightarrow> OpRef res) option"

definition or_default :: "'a option \<Rightarrow> 'a \<Rightarrow> 'a" where
  "or_default x d = (case x of None \<Rightarrow> d | Some v \<Rightarrow> v)"

definition newSyncPeer :: "('op, 'w) SyncBackend \<Rightarrow> (transport \<Rightarrow> 'op SyncMessage \<Rightarrow> ('w, unit) pm) \<Rightarrow>
    (string \<Rightarrow> ('w, string) pm) \<Rightarrow> 'd RibltDecoder16 \<Rightarrow> 'e RibltEncoder16 \<Rightarrow>
    ('op, 'w) SyncPeerOptions \<Rightarrow> ('op, 'w, 'd, 'e) PeerConfig res" where
  "newSyncPeer backend snd_fn rnd dec enc opts =
    (let threshold = or_default (opt_directSendThreshold opts) 0 in
     if threshold < 0 then Inl ''invalid directSendThreshold''
     else Inr \<lparr>cfg_backend = backend, cfg_send = snd_fn, cfg_randomId = rnd,
       cfg_decoder = dec, cfg_encoder = enc,
       maxCodewords = or_default (opt_maxCodewords opts) 50000,
       maxOpsPerBatch = or_default (opt_maxOpsPerBatch opts) 500,
       maxHelloFilters = or_default (opt_maxHelloFilters opts) 8,
       directSendThreshold = threshold,
       requireAuthForFilters = or_default (opt_requireAuthForFilters opts) (opt_auth opts \<noteq> None),
       cfg_auth = opt_auth opts,
       deriveOpRef = opt_deriveOpRef opts\<rparr>)"

section \<open>State\<close>

datatype 'a Deferred = Pending | Resolved 'a | Rejected error

fun resolveD :: "'a \<Rightarrow> 'a Deferred \<Rightarrow> 'a Deferred" where
  "resolveD v Pending = Resolved v"
| "resolveD v d = d"

fun rejectD :: "error \<Rightarrow> 'a Deferred \<Rightarrow> 'a Deferred" where
  "rejectD e Pending = Rejected e"
| "rejectD e d = d"

definition settled :: "'a Deferred \<Rightarrow> bool" where
  "settled d = (d \<noteq> Pending)"

record 'd ResponderSession =
  rs_filter :: Filter
  rs_round :: nat
  rs_decoder :: 'd
  rs_expectedIndex :: nat
  rs_awaitingIncomingDone :: bool

record InitiatorSession =
  is_filter :: Filter
  is_filterId :: string
  is_round :: nat
  is_ack :: "HelloAck Deferred"
  is_terminalStatus :: "RibltStatus Deferred"
  is_codewordCredits :: int
  is_codewordCreditSignal :: "unit Deferred"
  is_receivedOps :: "unit Deferred"
  is_awaitingUploadAck :: bool
  is_done :: bool

record ResponderSubscription =
  rsub_id :: string
  rsub_filter :: Filter
  rsub_sentOpRefs :: "string set"
  rsub_transport :: transport

record InitiatorSubscription =
  isub_ack :: "SubscribeAck Deferred"
  isub_failed :: "unit Deferred"

record 'op PendingPushOp =
  pp_opRef :: OpRef
  pp_opRefHex :: string
  pp_op :: 'op

record ('op, 'w, 'd) Peer =
  transportHasAuth :: "transport \<Rightarrow> bool"
  transportPeerCapabilities :: "transport \<Rightarrow> Capability list option"
  transportLastSentHelloCaps :: "transport \<Rightarrow> string option"
  transportHelloAckWaiters :: "transport \<Rightarrow> nat list"
  waiterStates :: "unit Deferred list"
  transportDirectPushStreamIds :: "transport \<Rightarrow> string option"
  responderSessions :: "(string, 'd ResponderSession) jsmap"
  initiatorObjects :: "(string, InitiatorSession) jsmap"
  initiatorSessions :: "string list"
  responderSubscriptions :: "(string, ResponderSubscription) jsmap"
  subscriptionObjects :: "(string, InitiatorSubscription) jsmap"
  initiatorSubscriptions :: "string list"
  responderAwaitingUploadAcks :: "string set"
  pendingPushOpsByRefHex :: "(string, 'op PendingPushOp) jsmap"
  pushNeedsFullScan :: bool
  pushScheduled :: bool
  pushRunning :: bool
  reprocessPendingRunning :: bool
  world :: 'w
  sent :: "(transport \<times> 'op SyncMessage) list"

definition initPeer :: "'w \<Rightarrow> ('op, 'w, 'd) Peer" where
  "initPeer w = \<lparr>transportHasAuth = (\<lambda>_. False), transportPeerCapabilities = (\<lambda>_. None),
     transportLastSentHelloCaps = (\<lambda>_. None), transportHelloAckWaiters = (\<lambda>_. []), waiterStates = [],
     transportDirectPushStreamIds = (\<lambda>_. None), responderSessions = [], initiatorObjects = [],
     initiatorSessions = [], responderSubscriptions = [], subscriptionObjects = [],
     initiatorSubscriptions = [], responderAwaitingUploadAcks = {}, pendingPushOpsByRefHex = [],
     pushNeedsFullScan = False, pushScheduled = False, pushRunning = False,
     reprocessPendingRunning = False, world = w, sent = []\<rparr>"

section \<open>Access to the interfaces\<close>

definition liftW :: "('w, 'a) pm \<Rightarrow> (('op, 'w, 'd) Peer, 'a) pm" where
  "liftW m = (\<lambda>p. case m (world p) of (r, w) \<Rightarrow> (r, p\<lparr>world := w\<rparr>))"

definition docId_of :: "('op, 'w, 'd, 'e) PeerConfig \<Rightarrow> string" where
  "docId_of cfg = sb_docId (cfg_backend cfg)"

definition mk_msg :: "('op, 'w, 'd, 'e) PeerConfig \<Rightarrow> 'op SyncMessagePayload \<Rightarrow> 'op SyncMessage" where
  "mk_msg cfg pl = \<lparr>sm_v = 0, sm_docId = docId_of cfg, sm_payload = pl\<rparr>"

text \<open>\<^verbatim>\<open>await transport.send({ v: 0, docId, payload })\<close>\<close>

definition send :: "('op, 'w, 'd, 'e) PeerConfig \<Rightarrow> transport \<Rightarrow> 'op SyncMessagePayload \<Rightarrow>
    (('op, 'w, 'd) Peer, unit) pm" where
  "send cfg t pl = sq (liftW (cfg_send cfg t (mk_msg cfg pl)))
     (modify (\<lambda>p. p\<lparr>sent := sent p @ [(t, mk_msg cfg pl)]\<rparr>))"

text \<open>\<^verbatim>\<open>this.auth?.hook\<close>\<close>

definition authHook :: "(('op, 'w) SyncAuth \<Rightarrow> 'h option) \<Rightarrow> ('op, 'w, 'd, 'e) PeerConfig \<Rightarrow> 'h option" where
  "authHook hook cfg = Option.bind (cfg_auth cfg) hook"

definition peerCapsOf :: "transport \<Rightarrow> ('op, 'w, 'd) Peer \<Rightarrow> Capability list" where
  "peerCapsOf t p = or_default (transportPeerCapabilities p t) []"

definition getInitiatorSession :: "string \<Rightarrow> ('op, 'w, 'd) Peer \<Rightarrow> InitiatorSession option" where
  "getInitiatorSession fid p =
     (if fid \<in> set (initiatorSessions p) then js_get (initiatorObjects p) fid else None)"

definition updInitiator ::
    "string \<Rightarrow> (InitiatorSession \<Rightarrow> InitiatorSession) \<Rightarrow> ('op, 'w, 'd) Peer \<Rightarrow> ('op, 'w, 'd) Peer" where
  "updInitiator fid f p = (case js_get (initiatorObjects p) fid of
     None \<Rightarrow> p | Some s \<Rightarrow> p\<lparr>initiatorObjects := js_set fid (f s) (initiatorObjects p)\<rparr>)"

definition updSubscription ::
    "string \<Rightarrow> (InitiatorSubscription \<Rightarrow> InitiatorSubscription) \<Rightarrow> ('op, 'w, 'd) Peer \<Rightarrow> ('op, 'w, 'd) Peer" where
  "updSubscription sid f p = (case js_get (subscriptionObjects p) sid of
     None \<Rightarrow> p | Some s \<Rightarrow> p\<lparr>subscriptionObjects := js_set sid (f s) (subscriptionObjects p)\<rparr>)"

text \<open>Optional auth metadata for an outgoing batch, with its length check.\<close>

definition signFor :: "('op, 'w, 'd, 'e) PeerConfig \<Rightarrow> Capability list \<Rightarrow> 'op list \<Rightarrow> SyncOpPurpose \<Rightarrow>
    string \<Rightarrow> (('op, 'w, 'd) Peer, OpAuth list option) pm" where
  "signFor cfg peerCaps ops purpose fid =
    (case (if peerAdvertisedOpAuth peerCaps then authHook sa_signOps cfg else None) of
       None \<Rightarrow> ret None
     | Some signOps \<Rightarrow>
         bnd (liftW (signOps ops \<lparr>oc_docId = docId_of cfg, oc_purpose = purpose, oc_filterId = fid\<rparr>)) (\<lambda>auth.
           if length auth \<noteq> length ops then throw ''signOps returned wrong number of entries''
           else ret (Some auth)))"

text \<open>The allow-list of \<^verbatim>\<open>filterOutgoingOps\<close>, with its length check.\<close>

definition outgoingFlags :: "('op, 'w, 'd, 'e) PeerConfig \<Rightarrow>
    ('op list \<Rightarrow> SyncAuthFilterOutgoingOpsContext \<Rightarrow> ('w, bool list) pm) \<Rightarrow> 'op list \<Rightarrow> FilterPurpose \<Rightarrow>
    Filter \<Rightarrow> Capability list \<Rightarrow> (('op, 'w, 'd) Peer, bool list) pm" where
  "outgoingFlags cfg flt ops purpose fil caps =
     bnd (liftW (flt ops \<lparr>foc_docId = docId_of cfg, foc_purpose = purpose, foc_filter = fil,
         foc_capabilities = caps\<rparr>)) (\<lambda>allowed.
       if length allowed \<noteq> length ops then throw ''filterOutgoingOps returned wrong number of flags''
       else ret allowed)"

text \<open>The entries of a list whose flag is set.\<close>

definition pick :: "bool list \<Rightarrow> 'a list \<Rightarrow> 'a list" where
  "pick flags xs = map snd (filter fst (zip flags xs))"

section \<open>Facts about deferreds and the interfaces\<close>

lemma settled_simps [simp]:
  "\<not> settled Pending" "settled (Resolved v)" "settled (Rejected e)"
  "settled (resolveD v d)" "settled (rejectD e d)"
  by (cases d; simp add: settled_def)+

lemma resolveD_settled: "settled d \<Longrightarrow> resolveD v d = d"
  and rejectD_settled: "settled d \<Longrightarrow> rejectD e d = d"
  by (cases d; simp)+

lemma pick_subset: "set (pick flags xs) \<subseteq> set xs"
  by (auto simp: pick_def dest: set_zip_rightD)

lemma pick_simps [simp]:
  "pick [] xs = []" "pick fl [] = []" "pick (b # fl) (x # xs) = (if b then [x] else []) @ pick fl xs"
  by (simp_all add: pick_def)

lemma pick_all_true: "length flags = length xs \<Longrightarrow> list_all id flags \<Longrightarrow> pick flags xs = xs"
  by (induction flags xs rule: list_induct2) auto

lemma length_pick: "length (pick flags xs) \<le> length xs"
  by (metis length_filter_le length_map length_zip min.cobounded2 order_trans pick_def)

lemma liftW_eval [pm_simps]: "liftW m p = (case m (world p) of (r, w) \<Rightarrow> (r, p\<lparr>world := w\<rparr>))"
  by (simp add: liftW_def)

lemma send_ok:
  "cfg_send cfg t (mk_msg cfg pl) (world p) = (Inr (), w) \<Longrightarrow>
    send cfg t pl p = (Inr (), p\<lparr>world := w, sent := sent p @ [(t, mk_msg cfg pl)]\<rparr>)"
  by (simp add: send_def pm_simps)

lemma updInitiator_other [simp]:
  "sent (updInitiator fid f p) = sent p" "world (updInitiator fid f p) = world p"
  "responderSessions (updInitiator fid f p) = responderSessions p"
  "initiatorSessions (updInitiator fid f p) = initiatorSessions p"
  "responderSubscriptions (updInitiator fid f p) = responderSubscriptions p"
  "initiatorSubscriptions (updInitiator fid f p) = initiatorSubscriptions p"
  "responderAwaitingUploadAcks (updInitiator fid f p) = responderAwaitingUploadAcks p"
  by (simp_all add: updInitiator_def split: option.splits)

lemma js_get_updInitiator [simp]:
  "js_get (initiatorObjects (updInitiator fid f p)) g =
     (if g = fid then map_option f (js_get (initiatorObjects p) fid) else js_get (initiatorObjects p) g)"
  by (auto simp: updInitiator_def split: option.splits)

lemma getInitiatorSession_upd [simp]:
  "getInitiatorSession g (updInitiator fid f p) =
     (if g = fid then map_option f (getInitiatorSession fid p) else getInitiatorSession g p)"
  by (simp add: getInitiatorSession_def)

section \<open>A small concrete environment\<close>

text \<open>
  For evaluating the definitions on concrete inputs: ops are numbers, the ref of op \<open>n\<close> is
  \<open>n\<close> zero bytes, the world is the list of applied ops, the transport accepts everything, and
  the decoder compares the refs it was given with the key sums of the codewords.
\<close>

definition demo_backend :: "(nat, nat list) SyncBackend" where
  "demo_backend = \<lparr>sb_docId = ''doc'', sb_maxLamport = gets length,
     sb_listOpRefs = (\<lambda>_. gets (map (\<lambda>n. replicate n 0))), sb_getOpsByOpRefs = (\<lambda>refs. ret (map length refs)),
     sb_applyOps = (\<lambda>ops. modify (\<lambda>w. w @ ops)), sb_storePendingOps = None, sb_listPendingOps = None,
     sb_deletePendingOps = None\<rparr>"

record demo_decoder_state =
  dd_local :: "OpRef list"
  dd_seen :: "OpRef list"
  dd_done :: bool

definition demo_decoder :: "demo_decoder_state RibltDecoder16" where
  "demo_decoder = \<lparr>rd_new = \<lparr>dd_local = [], dd_seen = [], dd_done = False\<rparr>,
     rd_addLocalSymbol = (\<lambda>r d. Inr (d\<lparr>dd_local := dd_local d @ [r]\<rparr>)),
     rd_addCodeword = (\<lambda>c d. if cw_count c = 0 then Inr (d\<lparr>dd_done := True\<rparr>)
       else Inr (d\<lparr>dd_seen := dd_seen d @ [cw_keySum c]\<rparr>)),
     rd_tryDecode = Inr, rd_decoded = dd_done,
     rd_remoteMissing = (\<lambda>d. filter (\<lambda>r. r \<notin> set (dd_local d)) (dd_seen d)),
     rd_localMissing = (\<lambda>d. filter (\<lambda>r. r \<notin> set (dd_seen d)) (dd_local d)),
     rd_codewordsReceived = (\<lambda>d. length (dd_seen d))\<rparr>"

definition demo_encoder :: "OpRef list RibltEncoder16" where
  "demo_encoder = \<lparr>re_new = [], re_addSymbol = (\<lambda>r e. Inr (e @ [r])),
     re_nextCodeword = (\<lambda>e. case e of [] \<Rightarrow> (\<lparr>cw_count = 0, cw_keySum = [], cw_valueSum = []\<rparr>, [])
       | r # rs \<Rightarrow> (\<lparr>cw_count = 1, cw_keySum = r, cw_valueSum = r\<rparr>, rs))\<rparr>"

definition demo_cfg :: "(nat, nat list) SyncAuth option \<Rightarrow> int \<Rightarrow>
    (nat, nat list, demo_decoder_state, OpRef list) PeerConfig" where
  "demo_cfg auth n = \<lparr>cfg_backend = demo_backend, cfg_send = (\<lambda>_ _. ret ()),
     cfg_randomId = (\<lambda>prefix. ret prefix), cfg_decoder = demo_decoder, cfg_encoder = demo_encoder,
     maxCodewords = 50000, maxOpsPerBatch = n, maxHelloFilters = 8, directSendThreshold = 0,
     requireAuthForFilters = (auth \<noteq> None), cfg_auth = auth, deriveOpRef = None\<rparr>"

end
