(* ===== verification/Peer_Push.thy ===== *)
theory Peer_Push
  imports Peer_State
begin

text \<open>
  The sending side of a \<^verbatim>\<open>SyncPeer\<close>: batches of a reconcile round, direct pushes, hello
  refreshes, and the push loop that feeds live subscriptions
  (\<^verbatim>\<open>sync.ts\<close>: \<^verbatim>\<open>notifyLocalUpdate\<close>, \<^verbatim>\<open>runPushLoop\<close>, \<^verbatim>\<open>refreshHelloCapabilities\<close>,
  \<^verbatim>\<open>resolveDirectPushStreamId\<close>, \<^verbatim>\<open>resolveMaxOpsPerBatch\<close>, \<^verbatim>\<open>sendDoneOpsBatch\<close>,
  \<^verbatim>\<open>pushSubscription\<close>, \<^verbatim>\<open>pushSubscriptionDeltaAll\<close>, \<^verbatim>\<open>pushOps\<close>, \<^verbatim>\<open>sendOpsBatches\<close>).

  A batch size is an integer.  The slicing loops are \<open>chunks\<close>; the flag \<open>done\<close> of a batch is
  set on the last chunk, which is what \<^verbatim>\<open>start + size >= length\<close> tests.
\<close>

section \<open>Batches\<close>

definition sendDoneOpsBatch :: "('op, 'w, 'd, 'e) PeerConfig \<Rightarrow> transport \<Rightarrow> string \<Rightarrow>
    (('op, 'w, 'd) Peer, unit) pm" where
  "sendDoneOpsBatch cfg t fid =
     send cfg t (MOpsBatch \<lparr>ob_filterId = fid, ob_ops = [], ob_auth = None, ob_done = True\<rparr>)"

definition resolveMaxOpsPerBatch :: "('op, 'w, 'd, 'e) PeerConfig \<Rightarrow> int option \<Rightarrow> nat res" where
  "resolveMaxOpsPerBatch cfg requested =
    (let batchSize = or_default requested (maxOpsPerBatch cfg) in
     if batchSize \<le> 0 then Inl ''invalid maxOpsPerBatch'' else Inr (nat batchSize))"

definition sendBatch :: "('op, 'w, 'd, 'e) PeerConfig \<Rightarrow> transport \<Rightarrow> string \<Rightarrow> 'op list \<Rightarrow>
    OpAuth list option \<Rightarrow> bool \<Rightarrow> (('op, 'w, 'd) Peer, unit) pm" where
  "sendBatch cfg t fid ops auth is_last =
     send cfg t (MOpsBatch \<lparr>ob_filterId = fid, ob_ops = ops, ob_auth = auth, ob_done = is_last\<rparr>)"

text \<open>Ops of one chunk that may leave, for the filter of the exchange if there is one.\<close>

definition visibleOps :: "('op, 'w, 'd, 'e) PeerConfig \<Rightarrow> Filter option \<Rightarrow> Capability list \<Rightarrow> 'op list \<Rightarrow>
    (('op, 'w, 'd) Peer, 'op list) pm" where
  "visibleOps cfg fil caps ops =
    (case (fil, authHook sa_filterOutgoingOps cfg) of
       (Some f, Some flt) \<Rightarrow>
         (if ops = [] then ret ops
          else bnd (outgoingFlags cfg flt ops FPReconcile f caps) (\<lambda>allowed. ret (pick allowed ops)))
     | _ \<Rightarrow> ret ops)"

fun sendChunks :: "('op, 'w, 'd, 'e) PeerConfig \<Rightarrow> transport \<Rightarrow> string \<Rightarrow> Filter option \<Rightarrow>
    Capability list \<Rightarrow> OpRef list list \<Rightarrow> (('op, 'w, 'd) Peer, unit) pm" where
  "sendChunks cfg t fid fil caps [] = ret ()"
| "sendChunks cfg t fid fil caps (chunk # rest) =
     bnd (liftW (sb_getOpsByOpRefs (cfg_backend cfg) chunk)) (\<lambda>ops0.
     bnd (visibleOps cfg fil caps ops0) (\<lambda>ops.
       if ops = [] then
         sq (whenM (rest = []) (sendDoneOpsBatch cfg t fid)) (sendChunks cfg t fid fil caps rest)
       else
         bnd (signFor cfg caps ops PReconcile fid) (\<lambda>auth.
         sq (sendBatch cfg t fid ops auth (rest = [])) (sendChunks cfg t fid fil caps rest))))"

definition sessionFilter :: "string \<Rightarrow> Filter option \<Rightarrow> ('op, 'w, 'd) Peer \<Rightarrow> Filter option" where
  "sessionFilter fid optFilter p = (case optFilter of Some f \<Rightarrow> Some f | None \<Rightarrow>
     (case js_get (responderSessions p) fid of Some s \<Rightarrow> Some (rs_filter s) | None \<Rightarrow>
       map_option is_filter (getInitiatorSession fid p)))"

definition sendOpsBatches :: "('op, 'w, 'd, 'e) PeerConfig \<Rightarrow> transport \<Rightarrow> string \<Rightarrow> OpRef list \<Rightarrow>
    int option \<Rightarrow> Filter option \<Rightarrow> (('op, 'w, 'd) Peer, unit) pm" where
  "sendOpsBatches cfg t fid opRefs optMax optFilter =
     bnd (liftR (resolveMaxOpsPerBatch cfg optMax)) (\<lambda>n.
     bnd (gets (sessionFilter fid optFilter)) (\<lambda>fil.
     bnd (gets (peerCapsOf t)) (\<lambda>caps.
       if opRefs = [] then sendDoneOpsBatch cfg t fid
       else sendChunks cfg t fid fil caps (chunks n opRefs))))"

section \<open>Hello refresh and direct push\<close>

text \<open>\<^verbatim>\<open>await Promise.all([m, n])\<close>: both run; the first rejection is reported.\<close>

definition bothM :: "('s, 'a) pm \<Rightarrow> ('s, 'b) pm \<Rightarrow> ('s, 'a \<times> 'b) pm" where
  "bothM m n = bnd (tryM m) (\<lambda>a. bnd (tryM n) (\<lambda>b.
     liftR (bindR a (\<lambda>x. bindR b (\<lambda>y. Inr (x, y))))))"

definition newWaiter :: "transport \<Rightarrow> (('op, 'w, 'd) Peer, nat) pm" where
  "newWaiter t = bnd (gets (\<lambda>p. length (waiterStates p))) (\<lambda>i.
     sq (modify (\<lambda>p. p\<lparr>waiterStates := waiterStates p @ [Pending],
       transportHelloAckWaiters := (transportHelloAckWaiters p)(t := transportHelloAckWaiters p t @ [i])\<rparr>))
     (ret i))"

definition dropWaiter :: "transport \<Rightarrow> error \<Rightarrow> nat \<Rightarrow> ('op, 'w, 'd) Peer \<Rightarrow> ('op, 'w, 'd) Peer" where
  "dropWaiter t e i p = p\<lparr>
     transportHelloAckWaiters := (transportHelloAckWaiters p)(t := filter (\<lambda>j. j \<noteq> i) (transportHelloAckWaiters p t)),
     waiterStates := (waiterStates p)[i := rejectD e (waiterStates p ! i)]\<rparr>"

text \<open>
  Returns the waiter whose promise the caller awaits next, if any: with \<^verbatim>\<open>waitForAck\<close> the
  source awaits it here, and that await ends when \<open>onHelloAck\<close> resolves the waiter.
\<close>

definition refreshHelloCapabilities :: "('op, 'w, 'd, 'e) PeerConfig \<Rightarrow> transport \<Rightarrow> bool \<Rightarrow> bool \<Rightarrow>
    (('op, 'w, 'd) Peer, nat option) pm" where
  "refreshHelloCapabilities cfg t force waitForAck =
    (case authHook sa_helloCapabilities cfg of
       None \<Rightarrow> ret None
     | Some helloCapabilities \<Rightarrow>
         bnd (bothM (liftW (sb_maxLamport (cfg_backend cfg)))
                    (liftW (helloCapabilities (docId_of cfg)))) (\<lambda>(maxLamport, capabilities).
         bnd (gets (\<lambda>p. transportLastSentHelloCaps p t)) (\<lambda>lastSent.
         let fingerprint = capabilitySetFingerprint capabilities in
         if \<not> force \<and> lastSent = Some fingerprint then ret None
         else
           bnd (if waitForAck then bnd (newWaiter t) (\<lambda>i. ret (Some i)) else ret None) (\<lambda>waiter.
           catch
             (sq (send cfg t (MHello \<lparr>hello_capabilities = capabilities, hello_filters = [],
                    hello_maxLamport = maxLamport\<rparr>))
              (sq (modify (\<lambda>p. p\<lparr>transportLastSentHelloCaps :=
                     (transportLastSentHelloCaps p)(t := Some fingerprint)\<rparr>))
              (ret waiter)))
             (\<lambda>e. sq (case waiter of None \<Rightarrow> ret () | Some i \<Rightarrow> modify (dropWaiter t e i)) (throw e))))))"

definition resolveDirectPushStreamId :: "('op, 'w, 'd, 'e) PeerConfig \<Rightarrow> transport \<Rightarrow> string option \<Rightarrow>
    (('op, 'w, 'd) Peer, string) pm" where
  "resolveDirectPushStreamId cfg t requested =
    (if requested \<noteq> None \<and> requested \<noteq> Some [] then ret (the requested)
     else bnd (gets (\<lambda>p. transportDirectPushStreamIds p t)) (\<lambda>cur.
       if cur \<noteq> None \<and> cur \<noteq> Some [] then ret (the cur)
       else bnd (liftW (cfg_randomId cfg ''push'')) (\<lambda>streamId.
         sq (modify (\<lambda>p. p\<lparr>transportDirectPushStreamIds :=
               (transportDirectPushStreamIds p)(t := Some streamId)\<rparr>))
         (ret streamId))))"

fun pushOpsChunks :: "('op, 'w, 'd, 'e) PeerConfig \<Rightarrow> transport \<Rightarrow> string \<Rightarrow> Capability list \<Rightarrow>
    'op list list \<Rightarrow> (('op, 'w, 'd) Peer, unit) pm" where
  "pushOpsChunks cfg t streamId caps [] = ret ()"
| "pushOpsChunks cfg t streamId caps (chunk # rest) =
     bnd (signFor cfg caps chunk PReconcile streamId) (\<lambda>auth.
     sq (sendBatch cfg t streamId chunk auth (rest = []))
     (pushOpsChunks cfg t streamId caps rest))"

text \<open>
  \<^verbatim>\<open>pushOps\<close> up to and after the await of the hello acknowledgement.  The first part returns
  \<open>None\<close> when there is nothing to do, otherwise the waiter (if any) to await.
\<close>

definition pushOps_begin :: "('op, 'w, 'd, 'e) PeerConfig \<Rightarrow> transport \<Rightarrow> 'op list \<Rightarrow>
    (('op, 'w, 'd) Peer, nat option option) pm" where
  "pushOps_begin cfg t ops =
    (if ops = [] then ret None
     else bnd (refreshHelloCapabilities cfg t False True) (\<lambda>w. ret (Some w)))"

definition pushOps_send :: "('op, 'w, 'd, 'e) PeerConfig \<Rightarrow> transport \<Rightarrow> 'op list \<Rightarrow> string option \<Rightarrow>
    int option \<Rightarrow> (('op, 'w, 'd) Peer, unit) pm" where
  "pushOps_send cfg t ops optFilterId optMax =
     bnd (resolveDirectPushStreamId cfg t optFilterId) (\<lambda>streamId.
     bnd (liftR (resolveMaxOpsPerBatch cfg optMax)) (\<lambda>batchSize.
     bnd (gets (peerCapsOf t)) (\<lambda>caps.
       pushOpsChunks cfg t streamId caps (chunks batchSize ops))))"

section \<open>Live subscriptions\<close>

text \<open>
  The slices of a push.  The push paths use the configured batch size without the check of
  \<open>resolveMaxOpsPerBatch\<close>; with a size that is not positive their loop never advances and
  does not return, which the model reports as an error of its own.
\<close>

definition pushSlices :: "('op, 'w, 'd, 'e) PeerConfig \<Rightarrow> 'a list \<Rightarrow> 'a list list res" where
  "pushSlices cfg xs = (if maxOpsPerBatch cfg \<le> 0 then Inl ''push slicing loop does not return''
     else Inr (chunks (nat (maxOpsPerBatch cfg)) xs))"

definition recordPendingPush :: "('op \<Rightarrow> string \<Rightarrow> OpRef res) \<Rightarrow> ('op, 'w, 'd, 'e) PeerConfig \<Rightarrow> 'op \<Rightarrow>
    (('op, 'w, 'd) Peer, unit) pm" where
  "recordPendingPush derive cfg oper =
     bnd (liftR (derive oper (docId_of cfg))) (\<lambda>opRef.
       modify (\<lambda>p. p\<lparr>pendingPushOpsByRefHex := js_set (bytesToHex opRef)
         \<lparr>pp_opRef = opRef, pp_opRefHex = bytesToHex opRef, pp_op = oper\<rparr> (pendingPushOpsByRefHex p)\<rparr>))"

text \<open>Schedules the push loop; the loop itself runs later, as \<open>runPushLoop\<close>.\<close>

definition notifyLocalUpdate :: "('op, 'w, 'd, 'e) PeerConfig \<Rightarrow> 'op list option \<Rightarrow>
    (('op, 'w, 'd) Peer, unit) pm" where
  "notifyLocalUpdate cfg ops =
     bnd (gets responderSubscriptions) (\<lambda>subs.
       if subs = [] then ret ()
       else
         sq (case (ops, deriveOpRef cfg) of
               (Some (x # xs), Some derive) \<Rightarrow> for_each (recordPendingPush derive cfg) (x # xs)
             | _ \<Rightarrow> modify (\<lambda>p. p\<lparr>pushNeedsFullScan := True\<rparr>))
         (modify (\<lambda>p. p\<lparr>pushScheduled := True, pushRunning := True\<rparr>)))"

definition markSent :: "string \<Rightarrow> OpRef list \<Rightarrow> (('op, 'w, 'd) Peer, unit) pm" where
  "markSent sid refs = modify (\<lambda>p. case js_get (responderSubscriptions p) sid of
      None \<Rightarrow> p
    | Some s \<Rightarrow> p\<lparr>responderSubscriptions := js_set sid
        (s\<lparr>rsub_sentOpRefs := rsub_sentOpRefs s \<union> bytesToHex ` set refs\<rparr>) (responderSubscriptions p)\<rparr>)"

definition pushBatch :: "('op, 'w, 'd, 'e) PeerConfig \<Rightarrow> ResponderSubscription \<Rightarrow> Capability list \<Rightarrow>
    OpRef list \<Rightarrow> 'op list \<Rightarrow> bool \<Rightarrow> (('op, 'w, 'd) Peer, unit) pm" where
  "pushBatch cfg sub caps refs ops is_last =
     bnd (signFor cfg caps ops PSubscribe (rsub_id sub)) (\<lambda>auth.
     sq (sendBatch cfg (rsub_transport sub) (rsub_id sub) ops auth is_last)
     (markSent (rsub_id sub) refs))"

text \<open>One chunk: restrict to what the peer may see, remember the whole chunk, send the rest.\<close>

definition pushVisible :: "('op, 'w, 'd, 'e) PeerConfig \<Rightarrow> ResponderSubscription \<Rightarrow> Capability list \<Rightarrow>
    OpRef list \<Rightarrow> 'op list \<Rightarrow> bool \<Rightarrow> (('op, 'w, 'd) Peer, unit) pm" where
  "pushVisible cfg sub caps refs ops is_last =
    (case (if ops = [] then None else authHook sa_filterOutgoingOps cfg) of
       None \<Rightarrow> pushBatch cfg sub caps refs ops is_last
     | Some flt \<Rightarrow>
         bnd (outgoingFlags cfg flt ops FPSubscribe (rsub_filter sub) caps) (\<lambda>allowed.
         sq (markSent (rsub_id sub) refs)
         (if pick allowed ops = [] then ret ()
          else pushBatch cfg sub caps (pick allowed refs) (pick allowed ops) is_last)))"

fun pushChunks :: "('op, 'w, 'd, 'e) PeerConfig \<Rightarrow> ResponderSubscription \<Rightarrow> OpRef list list \<Rightarrow>
    (('op, 'w, 'd) Peer, unit) pm" where
  "pushChunks cfg sub [] = ret ()"
| "pushChunks cfg sub (chunk # rest) =
     bnd (liftW (sb_getOpsByOpRefs (cfg_backend cfg) chunk)) (\<lambda>ops.
     bnd (gets (peerCapsOf (rsub_transport sub))) (\<lambda>caps.
     sq (pushVisible cfg sub caps chunk ops (rest = []))
     (pushChunks cfg sub rest)))"

fun pushDeltaChunks :: "('op, 'w, 'd, 'e) PeerConfig \<Rightarrow> ResponderSubscription \<Rightarrow> Capability list \<Rightarrow>
    'op PendingPushOp list list \<Rightarrow> (('op, 'w, 'd) Peer, unit) pm" where
  "pushDeltaChunks cfg sub caps [] = ret ()"
| "pushDeltaChunks cfg sub caps (chunk # rest) =
     sq (pushVisible cfg sub caps (map pp_opRef chunk) (map pp_op chunk) (rest = []))
     (pushDeltaChunks cfg sub caps rest)"

definition refreshHello :: "('op, 'w, 'd, 'e) PeerConfig \<Rightarrow> transport \<Rightarrow> (('op, 'w, 'd) Peer, unit) pm" where
  "refreshHello cfg t = bnd (refreshHelloCapabilities cfg t False False) (\<lambda>_. ret ())"

definition pushSubscriptionDeltaAll :: "('op, 'w, 'd, 'e) PeerConfig \<Rightarrow> ResponderSubscription \<Rightarrow>
    'op PendingPushOp list \<Rightarrow> (('op, 'w, 'd) Peer, unit) pm" where
  "pushSubscriptionDeltaAll cfg sub deltaOps =
    (let unsent = filter (\<lambda>entry. pp_opRefHex entry \<notin> rsub_sentOpRefs sub) deltaOps in
     if unsent = [] then ret ()
     else sq (refreshHello cfg (rsub_transport sub))
       (bnd (gets (peerCapsOf (rsub_transport sub))) (\<lambda>caps.
         bnd (liftR (pushSlices cfg unsent)) (pushDeltaChunks cfg sub caps))))"

definition pushSubscription :: "('op, 'w, 'd, 'e) PeerConfig \<Rightarrow> ResponderSubscription \<Rightarrow>
    'op PendingPushOp list \<Rightarrow> bool \<Rightarrow> (('op, 'w, 'd) Peer, unit) pm" where
  "pushSubscription cfg sub deltaOps forceFullScan =
    (if \<not> forceFullScan \<and> rsub_filter sub = FilterAll \<and> deltaOps \<noteq> []
     then pushSubscriptionDeltaAll cfg sub deltaOps
     else
       bnd (tryM (liftW (sb_listOpRefs (cfg_backend cfg) (rsub_filter sub)))) (\<lambda>listed.
         case listed of
           Inl e \<Rightarrow> modify (\<lambda>p. p\<lparr>responderSubscriptions := js_delete (rsub_id sub) (responderSubscriptions p)\<rparr>)
         | Inr opRefs \<Rightarrow>
             (let newOpRefs = filter (\<lambda>r. bytesToHex r \<notin> rsub_sentOpRefs sub) opRefs in
              if newOpRefs = [] then ret ()
              else sq (refreshHello cfg (rsub_transport sub))
                (bnd (liftR (pushSlices cfg newOpRefs)) (pushChunks cfg sub)))))"

definition pushOneSubscription :: "('op, 'w, 'd, 'e) PeerConfig \<Rightarrow> 'op PendingPushOp list \<Rightarrow> bool \<Rightarrow>
    ResponderSubscription \<Rightarrow> (('op, 'w, 'd) Peer, unit) pm" where
  "pushOneSubscription cfg deltaOps forceFullScan sub =
     catch (pushSubscription cfg sub deltaOps forceFullScan)
       (\<lambda>_. modify (\<lambda>p. p\<lparr>responderSubscriptions := js_delete (rsub_id sub) (responderSubscriptions p)\<rparr>))"

definition pushRound :: "('op, 'w, 'd, 'e) PeerConfig \<Rightarrow> (('op, 'w, 'd) Peer, unit) pm" where
  "pushRound cfg =
     bnd (gets (\<lambda>p. if pushNeedsFullScan p then [] else map snd (pendingPushOpsByRefHex p))) (\<lambda>deltaOps.
     bnd (gets pushNeedsFullScan) (\<lambda>forceFullScan.
     sq (modify (\<lambda>p. p\<lparr>pushScheduled := False, pushNeedsFullScan := False, pendingPushOpsByRefHex := []\<rparr>))
     (bnd (gets (\<lambda>p. map snd (responderSubscriptions p))) (\<lambda>subs.
       for_each (pushOneSubscription cfg deltaOps forceFullScan) subs))))"

text \<open>
  \<^verbatim>\<open>while (this.pushScheduled)\<close> with a bound on the number of rounds.  The calls of a round
  do not schedule another one, so two rounds always suffice (lemma \<open>runPushLoop_once\<close>).
\<close>

fun pushRounds :: "nat \<Rightarrow> ('op, 'w, 'd, 'e) PeerConfig \<Rightarrow> (('op, 'w, 'd) Peer, unit) pm" where
  "pushRounds 0 cfg = throw ''push rounds exhausted''"
| "pushRounds (Suc n) cfg = bnd (gets pushScheduled) (\<lambda>b.
     if b then sq (pushRound cfg) (pushRounds n cfg) else ret ())"

definition runPushLoop :: "('op, 'w, 'd, 'e) PeerConfig \<Rightarrow> (('op, 'w, 'd) Peer, unit) pm" where
  "runPushLoop cfg = finallyM (pushRounds 2 cfg) (\<lambda>p. p\<lparr>pushRunning := False\<rparr>)"

section \<open>What a sender changes\<close>

lemma bnd_ret: "bnd (ret x) f = f x"
  and sq_ret: "sq (ret ()) n = n"
  by (simp_all add: fun_eq_iff bnd_eval sq_eval)

text \<open>
  \<open>emits P\<close>: the peer's own state is as before, and the messages handed to the transport
  since then satisfy \<open>P\<close>.
\<close>

definition emits :: "(transport \<times> 'op SyncMessage \<Rightarrow> bool) \<Rightarrow> ('op, 'w, 'd) Peer \<Rightarrow> ('op, 'w, 'd) Peer \<Rightarrow> bool" where
  "emits P p p' \<longleftrightarrow> (\<exists>w ms. p' = p\<lparr>world := w, sent := sent p @ ms\<rparr> \<and> list_all P ms)"

interpretation em: step_closed "emits P :: ('op, 'a, 'b) Peer \<Rightarrow> ('op, 'a, 'b) Peer \<Rightarrow> bool" for P
proof
  fix p :: "('op, 'a, 'b) Peer"
  have "p = p\<lparr>world := world p, sent := sent p @ []\<rparr>" by simp
  then show "emits P p p" unfolding emits_def by (metis list.pred_inject(1))
next
  fix p q r :: "('op, 'a, 'b) Peer"
  assume "emits P p q" "emits P q r"
  then obtain w1 ms1 w2 ms2 where "q = p\<lparr>world := w1, sent := sent p @ ms1\<rparr>" "list_all P ms1"
      "r = q\<lparr>world := w2, sent := sent q @ ms2\<rparr>" "list_all P ms2"
    unfolding emits_def by auto
  then have "r = p\<lparr>world := w2, sent := sent p @ (ms1 @ ms2)\<rparr>" "list_all P (ms1 @ ms2)" by simp_all
  then show "emits P p r" unfolding emits_def by blast
qed

lemma emits_world: "emits P p (p\<lparr>world := w\<rparr>)"
  unfolding emits_def by (rule exI [of _ w], rule exI [of _ "[]"]) simp

lemma emits_liftW: "steps (emits P) (liftW m)"
  by (auto simp: steps_def liftW_eval emits_world split: prod.splits)

lemma emits_append: "list_all P ms \<Longrightarrow> emits P p (p\<lparr>sent := sent p @ ms\<rparr>)"
  unfolding emits_def by (rule exI [of _ "world p"]) auto

lemma emits_send: "P (t, mk_msg cfg pl) \<Longrightarrow> steps (emits P) (send cfg t pl)"
  unfolding send_def
  by (intro em.steps_sq emits_liftW em.steps_modify emits_append) simp

lemmas emits_rules = em.steps_rules emits_liftW emits_send

lemma emits_signFor: "steps (emits P) (signFor cfg caps ops pu fid)"
  unfolding signFor_def by (intro emits_rules)

lemma emits_outgoingFlags: "steps (emits P) (outgoingFlags cfg flt ops pu f caps)"
  unfolding outgoingFlags_def by (intro emits_rules)

lemma emits_visibleOps: "steps (emits P) (visibleOps cfg f caps ops)"
  unfolding visibleOps_def
  by (auto split: option.splits intro!: emits_rules emits_outgoingFlags)

text \<open>The messages of an ops stream: batches of one stream id to one transport.\<close>

definition stream_msg :: "('op, 'w, 'd, 'e) PeerConfig \<Rightarrow> transport \<Rightarrow> string \<Rightarrow> (transport \<times> 'op SyncMessage) \<Rightarrow> bool" where
  "stream_msg cfg t fid tm = (\<exists>b. ob_filterId b = fid \<and> tm = (t, mk_msg cfg (MOpsBatch b)))"

lemma emits_sendBatch: "steps (emits (stream_msg cfg t fid)) (sendBatch cfg t fid ops auth l)"
  and emits_sendDone: "steps (emits (stream_msg cfg t fid)) (sendDoneOpsBatch cfg t fid)"
  unfolding sendBatch_def sendDoneOpsBatch_def
  by (intro emits_send; simp add: stream_msg_def; force)+

lemma emits_sendChunks: "steps (emits (stream_msg cfg t fid)) (sendChunks cfg t fid fil caps cs)"
  by (induction cs) (auto intro!: emits_rules emits_visibleOps emits_signFor emits_sendBatch emits_sendDone)

lemma emits_sendOpsBatches:
  "steps (emits (stream_msg cfg t fid)) (sendOpsBatches cfg t fid refs mx f)"
  unfolding sendOpsBatches_def by (auto intro!: emits_rules emits_sendChunks emits_sendDone)

section \<open>Batches in a reliable environment\<close>

text \<open>
  What a batch sender relies on: the transport accepts every message, the backend finds the
  ops of the refs it listed (\<open>lookup\<close>), the visibility hook is a predicate on ops in its
  context (\<open>allow\<close>), and the signer returns one entry per op.
\<close>

definition calm :: "('op, 'w, 'd, 'e) PeerConfig \<Rightarrow> (OpRef \<Rightarrow> 'op) \<Rightarrow>
    (SyncAuthFilterOutgoingOpsContext \<Rightarrow> 'op \<Rightarrow> bool) \<Rightarrow> bool" where
  "calm cfg lookup allow \<longleftrightarrow>
     (\<forall>t m w. fst (cfg_send cfg t m w) = Inr ())
   \<and> (\<forall>refs w. fst (sb_getOpsByOpRefs (cfg_backend cfg) refs w) = Inr (map lookup refs))
   \<and> (case authHook sa_filterOutgoingOps cfg of None \<Rightarrow> \<forall>c x. allow c x
      | Some flt \<Rightarrow> \<forall>ops c w. fst (flt ops c w) = Inr (map (allow c) ops))
   \<and> (case authHook sa_signOps cfg of None \<Rightarrow> True
      | Some sg \<Rightarrow> \<forall>ops c w. \<exists>auth. length auth = length ops \<and> fst (sg ops c w) = Inr auth)"

text \<open>
  \<open>delivers Q m\<close>: \<open>m\<close> returns normally from every state, changes only the world and the
  trace, and its value and the messages it sent satisfy \<open>Q\<close>.
\<close>

definition delivers :: "('a \<Rightarrow> (transport \<times> 'op SyncMessage) list \<Rightarrow> bool) \<Rightarrow> (('op, 'w, 'd) Peer, 'a) pm \<Rightarrow> bool" where
  "delivers Q m \<longleftrightarrow> (\<forall>p. \<exists>x w ms. m p = (Inr x, p\<lparr>world := w, sent := sent p @ ms\<rparr>) \<and> Q x ms)"

lemma deliversD:
  assumes "delivers Q m"
  obtains x w ms where "m p = (Inr x, p\<lparr>world := w, sent := sent p @ ms\<rparr>)" "Q x ms"
  using assms unfolding delivers_def by metis

lemma delivers_pure:
  assumes "\<And>p. \<exists>x w. m p = (Inr x, p\<lparr>world := w\<rparr>) \<and> Q x []"
  shows "delivers Q m"
proof -
  have "\<exists>x w ms. m p = (Inr x, p\<lparr>world := w, sent := sent p @ ms\<rparr>) \<and> Q x ms" for p
  proof -
    obtain x w where "m p = (Inr x, p\<lparr>world := w\<rparr>)" "Q x []" using assms by blast
    then have "m p = (Inr x, p\<lparr>world := w, sent := sent p @ []\<rparr>) \<and> Q x []" by simp
    then show ?thesis by blast
  qed
  then show ?thesis unfolding delivers_def by blast
qed

lemma delivers_ret: "Q x [] \<Longrightarrow> delivers Q (ret x)"
proof (rule delivers_pure)
  fix p assume "Q x []"
  moreover have "p = p\<lparr>world := world p\<rparr>" by simp
  ultimately show "\<exists>y w. ret x p = (Inr y, p\<lparr>world := w\<rparr>) \<and> Q y []" by (metis pm_eval(1))
qed

lemma delivers_liftW:
  assumes "\<And>w. \<exists>x. fst (m w) = Inr x \<and> Q x []"
  shows "delivers Q (liftW m)"
proof -
  have "\<exists>x w. liftW m p = (Inr x, p\<lparr>world := w\<rparr>) \<and> Q x []" for p
  proof -
    obtain x where "fst (m (world p)) = Inr x" "Q x []" using assms by blast
    then show ?thesis by (cases "m (world p)") (auto simp: liftW_eval)
  qed
  then show ?thesis by (rule delivers_pure)
qed

lemma delivers_bnd:
  assumes "delivers Q m" "\<And>x ms. Q x ms \<Longrightarrow> delivers (\<lambda>y ms'. R y (ms @ ms')) (f x)"
  shows "delivers R (bnd m f)"
proof -
  have "\<exists>y w ms. bnd m f p = (Inr y, p\<lparr>world := w, sent := sent p @ ms\<rparr>) \<and> R y ms" for p
  proof -
  obtain x w ms where m: "m p = (Inr x, p\<lparr>world := w, sent := sent p @ ms\<rparr>)" "Q x ms"
    using assms(1) by (rule deliversD)
  obtain y w' ms' where f: "f x (p\<lparr>world := w, sent := sent p @ ms\<rparr>) = (Inr y, p\<lparr>world := w', sent := sent p @ (ms @ ms')\<rparr>)"
      "R y (ms @ ms')"
    using deliversD [OF assms(2) [OF m(2)], of "p\<lparr>world := w, sent := sent p @ ms\<rparr>"] by simp blast
  then show ?thesis using m(1) by (auto simp: bnd_eval)
  qed
  then show ?thesis unfolding delivers_def by blast
qed

lemma delivers_sq:
  assumes "delivers (\<lambda>_. Q) m" "\<And>ms. Q ms \<Longrightarrow> delivers (\<lambda>y ms'. R y (ms @ ms')) n"
  shows "delivers R (sq m n)"
  unfolding sq_def using assms by (rule delivers_bnd)

lemma delivers_mono: "delivers Q m \<Longrightarrow> (\<And>x ms. Q x ms \<Longrightarrow> R x ms) \<Longrightarrow> delivers R m"
  unfolding delivers_def by metis

lemma delivers_getOps:
  assumes "calm cfg lookup allow"
  shows "delivers (\<lambda>ops ms. ops = map lookup refs \<and> ms = []) (liftW (sb_getOpsByOpRefs (cfg_backend cfg) refs))"
  using assms by (intro delivers_liftW) (simp add: calm_def)

lemma delivers_send:
  assumes "calm cfg lookup allow"
  shows "delivers (\<lambda>_ ms. ms = [(t, mk_msg cfg pl)]) (send cfg t pl)"
proof -
  have "\<exists>x w ms. send cfg t pl p = (Inr x, p\<lparr>world := w, sent := sent p @ ms\<rparr>) \<and> ms = [(t, mk_msg cfg pl)]" for p
  proof -
  have "fst (cfg_send cfg t (mk_msg cfg pl) (world p)) = Inr ()" using assms by (simp add: calm_def)
  then obtain w where "cfg_send cfg t (mk_msg cfg pl) (world p) = (Inr (), w)"
    by (cases "cfg_send cfg t (mk_msg cfg pl) (world p)") simp
  then show ?thesis by (auto dest: send_ok)
  qed
  then show ?thesis unfolding delivers_def by blast
qed

lemma delivers_signFor:
  assumes "calm cfg lookup allow"
  shows "delivers (\<lambda>auth ms. ms = [] \<and> (\<forall>a. auth = Some a \<longrightarrow> length a = length ops)) (signFor cfg caps ops pu fid)"
proof (cases "if peerAdvertisedOpAuth caps then authHook sa_signOps cfg else None")
  case None
  then show ?thesis unfolding signFor_def by (auto intro: delivers_ret)
next
  case (Some sg)
  let ?c = "\<lparr>oc_docId = docId_of cfg, oc_purpose = pu, oc_filterId = fid\<rparr>"
  have "authHook sa_signOps cfg = Some sg" using Some by (simp split: if_splits)
  then have "\<And>w. \<exists>auth. fst (sg ops ?c w) = Inr auth \<and> length auth = length ops \<and> [] = []"
    using assms unfolding calm_def by fastforce
  then have "delivers (\<lambda>auth ms. length auth = length ops \<and> ms = []) (liftW (sg ops ?c))"
    by (intro delivers_liftW) auto
  then show ?thesis unfolding signFor_def Some option.case
    by (rule delivers_bnd) (auto intro: delivers_ret)
qed

lemma pick_map: "pick (map f xs) xs = filter f xs"
  by (induction xs) auto

lemma pick_map_zip: "pick (map f xs) (map g xs) = map g (filter f xs)"
  by (induction xs) auto

lemma delivers_outgoingFlags:
  assumes "calm cfg lookup allow" "authHook sa_filterOutgoingOps cfg = Some flt"
  shows "delivers (\<lambda>fl ms. ms = [] \<and> fl = map (allow \<lparr>foc_docId = docId_of cfg, foc_purpose = pu,
      foc_filter = f, foc_capabilities = caps\<rparr>) ops) (outgoingFlags cfg flt ops pu f caps)"
proof -
  let ?c = "\<lparr>foc_docId = docId_of cfg, foc_purpose = pu, foc_filter = f, foc_capabilities = caps\<rparr>"
  have "delivers (\<lambda>fl ms. fl = map (allow ?c) ops \<and> ms = []) (liftW (flt ops ?c))"
    using assms by (intro delivers_liftW) (simp add: calm_def)
  then show ?thesis unfolding outgoingFlags_def
    by (rule delivers_bnd) (auto intro: delivers_ret)
qed

text \<open>The ops the visibility hook lets through; without a filter nothing is held back.\<close>

definition visible :: "('op, 'w, 'd, 'e) PeerConfig \<Rightarrow> (SyncAuthFilterOutgoingOpsContext \<Rightarrow> 'op \<Rightarrow> bool) \<Rightarrow>
    FilterPurpose \<Rightarrow> Filter option \<Rightarrow> Capability list \<Rightarrow> 'op list \<Rightarrow> 'op list" where
  "visible cfg allow pu fil caps ops = (case fil of None \<Rightarrow> ops
   | Some f \<Rightarrow> filter (allow \<lparr>foc_docId = docId_of cfg, foc_purpose = pu, foc_filter = f, foc_capabilities = caps\<rparr>) ops)"

lemma visible_append [simp]:
  "visible cfg allow pu fil caps (xs @ ys) = visible cfg allow pu fil caps xs @ visible cfg allow pu fil caps ys"
  by (simp add: visible_def split: option.splits)

lemma visible_Nil [simp]: "visible cfg allow pu fil caps [] = []"
  by (simp add: visible_def split: option.splits)

lemma length_visible: "length (visible cfg allow pu fil caps ops) \<le> length ops"
  by (simp add: visible_def split: option.splits)

lemma delivers_visibleOps:
  assumes "calm cfg lookup allow"
  shows "delivers (\<lambda>vis ms. vis = visible cfg allow FPReconcile fil caps ops \<and> ms = []) (visibleOps cfg fil caps ops)"
proof -
  have all: "visible cfg allow FPReconcile fil caps ops = ops" if "fil = None \<or> authHook sa_filterOutgoingOps cfg = None"
    using that assms by (auto simp: visible_def calm_def split: option.splits)
  show ?thesis
  proof (cases fil; cases "authHook sa_filterOutgoingOps cfg")
    fix f flt
    assume *: "fil = Some f" "authHook sa_filterOutgoingOps cfg = Some flt"
    show ?thesis unfolding visibleOps_def using *
      by (auto simp: pick_map visible_def
          intro!: delivers_bnd [OF delivers_outgoingFlags [OF assms *(2)]] delivers_ret)
  qed (use all in \<open>auto simp: visibleOps_def intro: delivers_ret\<close>)
qed

text \<open>A stream of batches: one completion marker, on the last one.\<close>

definition stream :: "string \<Rightarrow> 'op OpsBatch list \<Rightarrow> bool" where
  "stream fid bs \<longleftrightarrow> bs \<noteq> [] \<and> (\<forall>b \<in> set bs. ob_filterId b = fid) \<and> ob_done (last bs)
     \<and> (\<forall>b \<in> set (butlast bs). \<not> ob_done b)"

definition batch_msgs :: "('op, 'w, 'd, 'e) PeerConfig \<Rightarrow> transport \<Rightarrow> 'op OpsBatch list \<Rightarrow> (transport \<times> 'op SyncMessage) list" where
  "batch_msgs cfg t bs = map (\<lambda>b. (t, mk_msg cfg (MOpsBatch b))) bs"

lemma batch_msgs_simps [simp]:
  "batch_msgs cfg t [] = []" "batch_msgs cfg t (b # bs) = (t, mk_msg cfg (MOpsBatch b)) # batch_msgs cfg t bs"
  by (simp_all add: batch_msgs_def)

lemma stream_single [simp]: "stream fid [b] \<longleftrightarrow> ob_filterId b = fid \<and> ob_done b"
  by (auto simp: stream_def)

lemma stream_Cons: "stream fid bs \<Longrightarrow> ob_filterId b = fid \<Longrightarrow> \<not> ob_done b \<Longrightarrow> stream fid (b # bs)"
  by (auto simp: stream_def)

definition batch_bound :: "nat \<Rightarrow> 'op OpsBatch \<Rightarrow> bool" where
  "batch_bound n b \<longleftrightarrow> length (ob_ops b) \<le> n \<and> (\<forall>a. ob_auth b = Some a \<longrightarrow> length a = length (ob_ops b))"

lemma sendChunks_calm:
  assumes "calm cfg lookup allow" "cs \<noteq> []" "\<forall>c \<in> set cs. length c \<le> n"
  shows "delivers (\<lambda>_ ms. \<exists>bs. ms = batch_msgs cfg t bs \<and> stream fid bs
      \<and> concat (map ob_ops bs) = visible cfg allow FPReconcile fil caps (map lookup (concat cs))
      \<and> (\<forall>b \<in> set bs. batch_bound n b)) (sendChunks cfg t fid fil caps cs)"
  using assms(2,3)
proof (induction cs)
  case (Cons c cs)
  let ?vis = "visible cfg allow FPReconcile fil caps"
  let ?Q = "\<lambda>cs ms. \<exists>bs. ms = batch_msgs cfg t bs \<and> stream fid bs
      \<and> concat (map ob_ops bs) = ?vis (map lookup (concat cs)) \<and> (\<forall>b \<in> set bs. batch_bound n b)"
  have rest: "delivers (\<lambda>_ ms'. ?Q (c # cs) (batch_msgs cfg t bs @ ms')) (sendChunks cfg t fid fil caps cs)"
    if "\<forall>b \<in> set bs. ob_filterId b = fid \<and> batch_bound n b \<and> ob_done b = (cs = [])" "cs = [] \<longrightarrow> bs \<noteq> []"
      "length bs \<le> 1" "concat (map ob_ops bs) = ?vis (map lookup c)" for bs
  proof (cases cs)
    case Nil
    with that obtain b where "bs = [b]" by (cases bs) auto
    with that Nil show ?thesis by (auto intro!: delivers_ret exI [of _ "[b]"])
  next
    case (Cons c' cs')
    have "delivers (\<lambda>_. ?Q cs) (sendChunks cfg t fid fil caps cs)"
      using Cons.IH Cons Cons.prems by simp
    then show ?thesis
    proof (rule delivers_mono)
      fix x ms'
      assume "?Q cs ms'"
      then obtain bs' where bs': "ms' = batch_msgs cfg t bs'" "stream fid bs'"
        "concat (map ob_ops bs') = ?vis (map lookup (concat cs))" "\<forall>b \<in> set bs'. batch_bound n b" by auto
      have "stream fid (bs @ bs')" using bs'(2) that Cons
        by (cases bs) (auto intro: stream_Cons)
      then show "?Q (c # cs) (batch_msgs cfg t bs @ ms')"
        using bs' that by (intro exI [of _ "bs @ bs'"]) (auto simp: batch_msgs_def)
    qed
  qed
  have len: "length (?vis (map lookup c)) \<le> n"
    using length_visible [of cfg allow FPReconcile fil caps "map lookup c"] Cons.prems by simp
  show ?case unfolding sendChunks.simps
  proof (rule delivers_bnd [OF delivers_getOps [OF assms(1)]], elim conjE, hypsubst,
      rule delivers_bnd [OF delivers_visibleOps [OF assms(1)]], elim conjE, hypsubst, unfold append_Nil)
    show "delivers (\<lambda>_. ?Q (c # cs)) (if ?vis (map lookup c) = []
       then sq (whenM (cs = []) (sendDoneOpsBatch cfg t fid)) (sendChunks cfg t fid fil caps cs)
       else bnd (signFor cfg caps (?vis (map lookup c)) PReconcile fid) (\<lambda>auth.
         sq (sendBatch cfg t fid (?vis (map lookup c)) auth (cs = [])) (sendChunks cfg t fid fil caps cs)))"
    proof (cases "?vis (map lookup c) = []")
      case True
      let ?b = "\<lparr>ob_filterId = fid, ob_ops = [], ob_auth = None, ob_done = True\<rparr>"
      have "delivers (\<lambda>_ ms. ms = batch_msgs cfg t (if cs = [] then [?b] else [])) (whenM (cs = []) (sendDoneOpsBatch cfg t fid))"
        using delivers_send [OF assms(1)] by (auto simp: sendDoneOpsBatch_def intro: delivers_ret)
      then have "delivers (\<lambda>_. ?Q (c # cs)) (sq (whenM (cs = []) (sendDoneOpsBatch cfg t fid)) (sendChunks cfg t fid fil caps cs))"
      proof (rule delivers_sq, hypsubst)
        show "delivers (\<lambda>_ ms'. ?Q (c # cs) (batch_msgs cfg t (if cs = [] then [?b] else []) @ ms')) (sendChunks cfg t fid fil caps cs)"
          using True by (intro rest) (auto simp: batch_bound_def)
      qed
      then show ?thesis using True by simp
    next
      case False
      let ?b = "\<lambda>auth. \<lparr>ob_filterId = fid, ob_ops = ?vis (map lookup c), ob_auth = auth, ob_done = (cs = [])\<rparr>"
      have "delivers (\<lambda>_ ms. ms = batch_msgs cfg t [?b auth]) (sendBatch cfg t fid (?vis (map lookup c)) auth (cs = []))" for auth
        using delivers_send [OF assms(1)] by (simp add: sendBatch_def)
      moreover have "delivers (\<lambda>_ ms'. ?Q (c # cs) (batch_msgs cfg t [?b auth] @ ms')) (sendChunks cfg t fid fil caps cs)"
        if "\<forall>a. auth = Some a \<longrightarrow> length a = length (?vis (map lookup c))" for auth
        using that len by (intro rest) (auto simp: batch_bound_def)
      ultimately have "delivers (\<lambda>_. ?Q (c # cs)) (sq (sendBatch cfg t fid (?vis (map lookup c)) auth (cs = []))
          (sendChunks cfg t fid fil caps cs))"
        if "\<forall>a. auth = Some a \<longrightarrow> length a = length (?vis (map lookup c))" for auth
        using that by (blast intro: delivers_sq)
      then show ?thesis using False
        by (auto intro!: delivers_bnd [OF delivers_signFor [OF assms(1)]])
    qed
  qed
qed simp

text \<open>Batches of a direct push: the ops in the given order, nothing held back.\<close>

lemma pushOpsChunks_calm:
  assumes "calm cfg lookup allow" "cs \<noteq> []" "\<forall>c \<in> set cs. length c \<le> n"
  shows "delivers (\<lambda>_ ms. \<exists>bs. ms = batch_msgs cfg t bs \<and> stream sid bs
      \<and> map ob_ops bs = cs \<and> (\<forall>b \<in> set bs. batch_bound n b)) (pushOpsChunks cfg t sid caps cs)"
  using assms(2,3)
proof (induction cs)
  case (Cons c cs)
  let ?Q = "\<lambda>cs ms. \<exists>bs. ms = batch_msgs cfg t bs \<and> stream sid bs
      \<and> map ob_ops bs = cs \<and> (\<forall>b \<in> set bs. batch_bound n b)"
  let ?b = "\<lambda>auth. \<lparr>ob_filterId = sid, ob_ops = c, ob_auth = auth, ob_done = (cs = [])\<rparr>"
  have rest: "delivers (\<lambda>_ ms'. ?Q (c # cs) (batch_msgs cfg t [?b auth] @ ms')) (pushOpsChunks cfg t sid caps cs)"
    if "\<forall>a. auth = Some a \<longrightarrow> length a = length c" for auth
  proof -
    have bb: "batch_bound n (?b auth)" using that Cons.prems by (auto simp: batch_bound_def)
    show ?thesis
    proof (cases "cs = []")
      case True
      with bb show ?thesis by (auto intro!: delivers_ret exI [of _ "[?b auth]"])
    next
      case False
      then have "delivers (\<lambda>_. ?Q cs) (pushOpsChunks cfg t sid caps cs)" using Cons by simp
      then show ?thesis
      proof (rule delivers_mono)
        fix x ms' assume "?Q cs ms'"
        then obtain bs where "ms' = batch_msgs cfg t bs" "stream sid bs" "map ob_ops bs = cs" "\<forall>b \<in> set bs. batch_bound n b"
          by auto
        with bb False show "?Q (c # cs) (batch_msgs cfg t [?b auth] @ ms')"
          by (intro exI [of _ "?b auth # bs"]) (auto intro: stream_Cons)
      qed
    qed
  qed
  have "delivers (\<lambda>_ ms. ms = batch_msgs cfg t [?b auth]) (sendBatch cfg t sid c auth (cs = []))" for auth
    using delivers_send [OF assms(1)] by (simp add: sendBatch_def)
  with rest have "delivers (\<lambda>_. ?Q (c # cs)) (sq (sendBatch cfg t sid c auth (cs = [])) (pushOpsChunks cfg t sid caps cs))"
    if "\<forall>a. auth = Some a \<longrightarrow> length a = length c" for auth
    using that by (blast intro: delivers_sq)
  then show ?case by (auto intro!: delivers_bnd [OF delivers_signFor [OF assms(1)]])
qed simp

section \<open>Properties of batches\<close>

lemma resolveMaxOpsPerBatch_ok:
  "resolveMaxOpsPerBatch cfg mx = Inr n \<longleftrightarrow> 0 < or_default mx (maxOpsPerBatch cfg) \<and> n = nat (or_default mx (maxOpsPerBatch cfg))"
  by (auto simp: resolveMaxOpsPerBatch_def Let_def)

text \<open>
  C14: in a reliable environment \<^verbatim>\<open>sendOpsBatches\<close> returns, changes nothing of the peer but
  its outgoing messages, and these are one stream of the filter id whose batches, in order,
  carry exactly the ops of the requested refs that the visibility hook allows for the filter
  of the exchange; every batch holds at most the batch size, has one auth entry per op if it
  has any, and exactly the last one is marked done, also when nothing may be sent.
\<close>
theorem sendOpsBatches_stream:
  assumes "calm cfg lookup allow" and "resolveMaxOpsPerBatch cfg mx = Inr n"
  shows "\<exists>w bs. sendOpsBatches cfg t fid refs mx optFilter p =
      (Inr (), p\<lparr>world := w, sent := sent p @ batch_msgs cfg t bs\<rparr>)
    \<and> stream fid bs
    \<and> concat (map ob_ops bs) =
        visible cfg allow FPReconcile (sessionFilter fid optFilter p) (peerCapsOf t p) (map lookup refs)
    \<and> (\<forall>b \<in> set bs. batch_bound n b)"
proof (cases "refs = []")
  case True
  let ?b = "\<lparr>ob_filterId = fid, ob_ops = [], ob_auth = None, ob_done = True\<rparr>"
  obtain x w ms where *: "sendDoneOpsBatch cfg t fid p = (Inr x, p\<lparr>world := w, sent := sent p @ ms\<rparr>)" "ms = batch_msgs cfg t [?b]"
    using deliversD [OF delivers_send [OF assms(1)], of t "MOpsBatch ?b" p] by (simp add: sendDoneOpsBatch_def) blast
  show ?thesis using True assms(2) *
    by (intro exI [of _ w] exI [of _ "[?b]"]) (simp add: sendOpsBatches_def bnd_eval batch_bound_def)
next
  case False
  have n: "0 < n" using assms(2) by (auto simp: resolveMaxOpsPerBatch_ok)
  have "delivers (\<lambda>_ ms. \<exists>bs. ms = batch_msgs cfg t bs \<and> stream fid bs
      \<and> concat (map ob_ops bs) = visible cfg allow FPReconcile (sessionFilter fid optFilter p) (peerCapsOf t p) (map lookup refs)
      \<and> (\<forall>b \<in> set bs. batch_bound n b))
    (sendChunks cfg t fid (sessionFilter fid optFilter p) (peerCapsOf t p) (chunks n refs))"
    using sendChunks_calm [OF assms(1), of "chunks n refs" n] n False
    by (simp add: concat_chunks chunks_eq_Nil chunks_bounds)
  then obtain x w ms bs where
    "sendChunks cfg t fid (sessionFilter fid optFilter p) (peerCapsOf t p) (chunks n refs) p
       = (Inr x, p\<lparr>world := w, sent := sent p @ ms\<rparr>)" "ms = batch_msgs cfg t bs" "stream fid bs"
    "concat (map ob_ops bs) = visible cfg allow FPReconcile (sessionFilter fid optFilter p) (peerCapsOf t p) (map lookup refs)"
    "\<forall>b \<in> set bs. batch_bound n b"
    by (rule deliversD [where p = p]) blast
  then show ?thesis using False assms(2)
    by (intro exI [of _ w] exI [of _ bs]) (simp add: sendOpsBatches_def bnd_eval)
qed

theorem sendOpsBatches_stream_witness:
  "calm (demo_cfg None 2) length (\<lambda>_ _. True) \<and> resolveMaxOpsPerBatch (demo_cfg None 2) None = Inr 2
   \<and> map (\<lambda>(t, m). case sm_payload m of MOpsBatch b \<Rightarrow> (ob_ops b, ob_done b) | _ \<Rightarrow> ([], False))
       (sent (snd (sendOpsBatches (demo_cfg None 2) 0 ''f'' [[0], [0, 0], []] None (Some FilterAll) (initPeer []))))
     = [([1, 2], False), ([0], True)]
   \<and> (\<exists>bs. stream ''f'' bs \<and> concat (map ob_ops bs) = [1, 2 :: nat, 0] \<and> (\<forall>b \<in> set bs. batch_bound 2 b))"
proof -
  have c: "calm (demo_cfg None 2) length (\<lambda>_ _. True)" "resolveMaxOpsPerBatch (demo_cfg None 2) None = Inr 2"
    by (simp_all add: calm_def demo_cfg_def demo_backend_def authHook_def resolveMaxOpsPerBatch_def or_default_def)
  have e: "map (\<lambda>(t, m). case sm_payload m of MOpsBatch b \<Rightarrow> (ob_ops b, ob_done b) | _ \<Rightarrow> ([], False))
       (sent (snd (sendOpsBatches (demo_cfg None 2) 0 ''f'' [[0], [0, 0], []] None (Some FilterAll) (initPeer []))))
     = [([1, 2], False), ([0], True)]"
    by (simp add: sendOpsBatches_def bnd_eval sessionFilter_def chunks.simps visibleOps_def signFor_def
        sq_eval sendBatch_def send_def liftW_def mk_msg_def demo_cfg_def demo_backend_def authHook_def
        resolveMaxOpsPerBatch_def or_default_def initPeer_def ret_def peerCapsOf_def peerAdvertisedOpAuth_def)
  obtain bs where "stream ''f'' bs" "concat (map ob_ops bs) = [1, 2 :: nat, 0]" "\<forall>b \<in> set bs. batch_bound 2 b"
    using sendOpsBatches_stream [OF c, of 0 "''f''" "[[0], [0, 0], []]" "Some FilterAll" "initPeer []"]
    by (auto simp: visible_def sessionFilter_def numeral_2_eq_2)
  with c e show ?thesis by blast
qed

text \<open>
  A direct push slices the given ops into batches of the batch size, in order and without
  loss, all under one stream id, and marks exactly the last batch done.
\<close>
theorem pushOps_stream:
  assumes "calm cfg lookup allow" and "resolveMaxOpsPerBatch cfg mx = Inr n" and "ops \<noteq> []" and "sid \<noteq> []"
  shows "\<exists>w bs. pushOps_send cfg t ops (Some sid) mx p =
      (Inr (), p\<lparr>world := w, sent := sent p @ batch_msgs cfg t bs\<rparr>)
    \<and> stream sid bs \<and> concat (map ob_ops bs) = ops \<and> (\<forall>b \<in> set bs. ob_ops b \<noteq> [] \<and> batch_bound n b)"
proof -
  have n: "0 < n" using assms(2) by (auto simp: resolveMaxOpsPerBatch_ok)
  have "delivers (\<lambda>_ ms. \<exists>bs. ms = batch_msgs cfg t bs \<and> stream sid bs
      \<and> map ob_ops bs = chunks n ops \<and> (\<forall>b \<in> set bs. batch_bound n b))
    (pushOpsChunks cfg t sid (peerCapsOf t p) (chunks n ops))"
    using pushOpsChunks_calm [OF assms(1), of "chunks n ops" n] n assms(3)
    by (simp add: chunks_eq_Nil chunks_bounds)
  then obtain x w ms bs where
    *: "pushOpsChunks cfg t sid (peerCapsOf t p) (chunks n ops) p = (Inr x, p\<lparr>world := w, sent := sent p @ ms\<rparr>)"
    "ms = batch_msgs cfg t bs" "stream sid bs" "map ob_ops bs = chunks n ops" "\<forall>b \<in> set bs. batch_bound n b"
    by (rule deliversD [where p = p]) blast
  have "ob_ops b \<noteq> []" if "b \<in> set bs" for b
  proof -
    have "ob_ops b \<in> set (chunks n ops)" using that *(4) by (metis image_eqI list.set_map)
    then show ?thesis using chunks_bounds by blast
  qed
  then show ?thesis using assms(2,4) * n
    by (intro exI [of _ w] exI [of _ bs])
      (simp add: pushOps_send_def resolveDirectPushStreamId_def bnd_eval concat_chunks)
qed

theorem pushOps_stream_witness:
  "calm (demo_cfg None 2) length (\<lambda>_ _. True)
   \<and> (\<exists>w bs. pushOps_send (demo_cfg None 2) 0 [7, 8, 9] (Some ''s'') None (initPeer []) =
        (Inr (), (initPeer [])\<lparr>world := w, sent := batch_msgs (demo_cfg None 2) 0 bs\<rparr>)
      \<and> stream ''s'' bs \<and> concat (map ob_ops bs) = [7, 8, 9] \<and> (\<forall>b \<in> set bs. ob_ops b \<noteq> [] \<and> batch_bound 2 b))"
proof -
  have c: "calm (demo_cfg None 2) length (\<lambda>_ _. True)" "resolveMaxOpsPerBatch (demo_cfg None 2) None = Inr 2"
    by (simp_all add: calm_def demo_cfg_def demo_backend_def authHook_def resolveMaxOpsPerBatch_def or_default_def)
  show ?thesis using c(1) pushOps_stream [OF c, of "[7, 8, 9]" "''s''" 0 "initPeer []"]
    by (simp add: initPeer_def)
qed

section \<open>Live pushes\<close>

text \<open>
  What a push to the subscription \<open>sid\<close> may change: it sends, it may refresh the hello
  fingerprint, and it may add refs to those recorded as sent to \<open>sid\<close>.
\<close>

definition push_rel :: "string \<Rightarrow> ('op, 'w, 'd) Peer \<Rightarrow> ('op, 'w, 'd) Peer \<Rightarrow> bool" where
  "push_rel sid p p' \<longleftrightarrow> (\<exists>w ms l m. p' = p\<lparr>world := w, sent := sent p @ ms, transportLastSentHelloCaps := l,
        responderSubscriptions := m\<rparr>
     \<and> (\<forall>k. k \<noteq> sid \<longrightarrow> js_get m k = js_get (responderSubscriptions p) k)
     \<and> (case js_get (responderSubscriptions p) sid of None \<Rightarrow> js_get m sid = None
        | Some s \<Rightarrow> \<exists>X. js_get m sid = Some (s\<lparr>rsub_sentOpRefs := rsub_sentOpRefs s \<union> X\<rparr>)))"

lemma push_rel_intro:
  assumes "p' = p\<lparr>world := w, sent := sent p @ ms, transportLastSentHelloCaps := l, responderSubscriptions := m\<rparr>"
    and "\<And>k. k \<noteq> sid \<Longrightarrow> js_get m k = js_get (responderSubscriptions p) k"
    and "js_get (responderSubscriptions p) sid = None \<Longrightarrow> js_get m sid = None"
    and "\<And>s. js_get (responderSubscriptions p) sid = Some s \<Longrightarrow>
      \<exists>X. js_get m sid = Some (s\<lparr>rsub_sentOpRefs := rsub_sentOpRefs s \<union> X\<rparr>)"
  shows "push_rel sid p p'"
  unfolding push_rel_def
  by (rule exI [of _ w], rule exI [of _ ms], rule exI [of _ l], rule exI [of _ m])
    (use assms in \<open>simp split: option.split\<close>)

lemma push_rel_elim:
  assumes "push_rel sid p p'"
  obtains w ms l m where
    "p' = p\<lparr>world := w, sent := sent p @ ms, transportLastSentHelloCaps := l, responderSubscriptions := m\<rparr>"
    "\<And>k. k \<noteq> sid \<Longrightarrow> js_get m k = js_get (responderSubscriptions p) k"
    "js_get (responderSubscriptions p) sid = None \<Longrightarrow> js_get m sid = None"
    "\<And>s. js_get (responderSubscriptions p) sid = Some s \<Longrightarrow>
      \<exists>X. js_get m sid = Some (s\<lparr>rsub_sentOpRefs := rsub_sentOpRefs s \<union> X\<rparr>)"
  using assms unfolding push_rel_def by (elim exE conjE) (rule that, auto)

lemma push_rel_simple:
  assumes "p' = p\<lparr>world := w, sent := sent p @ ms, transportLastSentHelloCaps := l\<rparr>"
  shows "push_rel sid p p'"
proof (rule push_rel_intro)
  show "p' = p\<lparr>world := w, sent := sent p @ ms, transportLastSentHelloCaps := l,
      responderSubscriptions := responderSubscriptions p\<rparr>" using assms by simp
  show "\<exists>X. js_get (responderSubscriptions p) sid = Some (s\<lparr>rsub_sentOpRefs := rsub_sentOpRefs s \<union> X\<rparr>)"
    if "js_get (responderSubscriptions p) sid = Some s" for s
    using that by (intro exI [of _ "{}"]) simp
qed simp_all

lemma emits_push_rel: "emits P p p' \<Longrightarrow> push_rel sid p p'"
proof -
  assume "emits P p p'"
  then obtain w ms where "p' = p\<lparr>world := w, sent := sent p @ ms\<rparr>" unfolding emits_def by blast
  then have "p' = p\<lparr>world := w, sent := sent p @ ms, transportLastSentHelloCaps := transportLastSentHelloCaps p\<rparr>" by simp
  then show "push_rel sid p p'" by (rule push_rel_simple)
qed

interpretation pu: step_closed "push_rel sid :: ('op, 'a, 'b) Peer \<Rightarrow> ('op, 'a, 'b) Peer \<Rightarrow> bool" for sid
proof
  fix p :: "('op, 'a, 'b) Peer"
  show "push_rel sid p p" by (rule emits_push_rel) (rule em.R_refl)
next
  fix p q r :: "('op, 'a, 'b) Peer"
  assume "push_rel sid p q" "push_rel sid q r"
  show "push_rel sid p r"
  proof (rule push_rel_elim [OF \<open>push_rel sid p q\<close>], rule push_rel_elim [OF \<open>push_rel sid q r\<close>])
    fix w1 ms1 l1 m1 w2 ms2 l2 m2
    assume q: "q = p\<lparr>world := w1, sent := sent p @ ms1, transportLastSentHelloCaps := l1, responderSubscriptions := m1\<rparr>"
        "\<And>k. k \<noteq> sid \<Longrightarrow> js_get m1 k = js_get (responderSubscriptions p) k"
        "js_get (responderSubscriptions p) sid = None \<Longrightarrow> js_get m1 sid = None"
        "\<And>s. js_get (responderSubscriptions p) sid = Some s \<Longrightarrow>
          \<exists>X. js_get m1 sid = Some (s\<lparr>rsub_sentOpRefs := rsub_sentOpRefs s \<union> X\<rparr>)"
      and r: "r = q\<lparr>world := w2, sent := sent q @ ms2, transportLastSentHelloCaps := l2, responderSubscriptions := m2\<rparr>"
        "\<And>k. k \<noteq> sid \<Longrightarrow> js_get m2 k = js_get (responderSubscriptions q) k"
        "js_get (responderSubscriptions q) sid = None \<Longrightarrow> js_get m2 sid = None"
        "\<And>s. js_get (responderSubscriptions q) sid = Some s \<Longrightarrow>
          \<exists>X. js_get m2 sid = Some (s\<lparr>rsub_sentOpRefs := rsub_sentOpRefs s \<union> X\<rparr>)"
    show ?thesis
    proof (rule push_rel_intro)
      show "r = p\<lparr>world := w2, sent := sent p @ (ms1 @ ms2), transportLastSentHelloCaps := l2, responderSubscriptions := m2\<rparr>"
        using q(1) r(1) by simp
      show "\<exists>X. js_get m2 sid = Some (s\<lparr>rsub_sentOpRefs := rsub_sentOpRefs s \<union> X\<rparr>)"
        if s: "js_get (responderSubscriptions p) sid = Some s" for s
      proof -
        obtain X where "js_get m1 sid = Some (s\<lparr>rsub_sentOpRefs := rsub_sentOpRefs s \<union> X\<rparr>)" using q(4) s by blast
        then obtain Y where "js_get m2 sid = Some (s\<lparr>rsub_sentOpRefs := rsub_sentOpRefs s \<union> X \<union> Y\<rparr>)"
          using r(4) q(1) by fastforce
        then show ?thesis by (metis Un_assoc)
      qed
    qed (use q r in simp_all)
  qed
qed

lemma push_emits: "steps (emits P) m \<Longrightarrow> steps (push_rel sid) m"
  by (auto simp: steps_def dest: emits_push_rel)

lemma push_markSent: "steps (push_rel sid) (markSent sid refs)"
  unfolding markSent_def
proof (rule pu.steps_modify)
  fix p :: "('a, 'b, 'c) Peer"
  show "push_rel sid p (case js_get (responderSubscriptions p) sid of None \<Rightarrow> p
    | Some s \<Rightarrow> p\<lparr>responderSubscriptions := js_set sid
        (s\<lparr>rsub_sentOpRefs := rsub_sentOpRefs s \<union> bytesToHex ` set refs\<rparr>) (responderSubscriptions p)\<rparr>)"
  proof (cases "js_get (responderSubscriptions p) sid")
    case (Some s)
    then show ?thesis
      by (auto intro!: push_rel_intro [where w = "world p" and ms = "[]" and l = "transportLastSentHelloCaps p"
          and m = "js_set sid (s\<lparr>rsub_sentOpRefs := rsub_sentOpRefs s \<union> bytesToHex ` set refs\<rparr>) (responderSubscriptions p)"])
  qed (simp add: pu.R_refl)
qed

lemma push_lastCaps: "steps (push_rel sid) (modify (\<lambda>p. p\<lparr>transportLastSentHelloCaps := g p\<rparr>))"
proof (rule pu.steps_modify)
  fix p :: "('a, 'b, 'c) Peer"
  show "push_rel sid p (p\<lparr>transportLastSentHelloCaps := g p\<rparr>)"
    by (rule push_rel_simple [where w = "world p" and ms = "[]" and l = "g p"]) simp
qed

lemmas push_rules = pu.steps_rules push_markSent push_lastCaps
  push_emits [OF emits_liftW] push_emits [OF emits_send [where P = "\<lambda>_. True", OF TrueI]]
  push_emits [OF emits_signFor] push_emits [OF emits_outgoingFlags] push_emits [OF emits_sendBatch]

lemma push_bothM: "steps (push_rel sid) m \<Longrightarrow> steps (push_rel sid) n \<Longrightarrow> steps (push_rel sid) (bothM m n)"
  unfolding bothM_def by (intro push_rules)

lemma push_refreshHello: "steps (push_rel sid) (refreshHello cfg t)"
  unfolding refreshHello_def refreshHelloCapabilities_def Let_def if_False bnd_ret option.case sq_ret
  by (intro push_rules push_bothM)

lemma push_pushBatch: "steps (push_rel (rsub_id sub)) (pushBatch cfg sub caps refs ops l)"
  unfolding pushBatch_def by (intro push_rules)

lemma push_pushVisible: "steps (push_rel (rsub_id sub)) (pushVisible cfg sub caps refs ops l)"
  unfolding pushVisible_def by (intro push_rules push_pushBatch)

lemma push_pushChunks: "steps (push_rel (rsub_id sub)) (pushChunks cfg sub cs)"
  by (induction cs) (auto intro!: push_rules push_pushVisible)

lemma push_pushDeltaChunks: "steps (push_rel (rsub_id sub)) (pushDeltaChunks cfg sub caps cs)"
  by (induction cs) (auto intro!: push_rules push_pushVisible)

text \<open>Refs recorded as sent to a subscription; a push never forgets one.\<close>

definition recorded :: "string \<Rightarrow> OpRef set \<Rightarrow> ('op, 'w, 'd) Peer \<Rightarrow> bool" where
  "recorded sid R p \<longleftrightarrow> (\<exists>s. js_get (responderSubscriptions p) sid = Some s \<and> bytesToHex ` R \<subseteq> rsub_sentOpRefs s)"

lemma recorded_push: "recorded sid R p \<Longrightarrow> push_rel sid p p' \<Longrightarrow> recorded sid R p'"
  by (elim push_rel_elim) (fastforce simp: recorded_def)

lemma recorded_Un: "recorded sid (R \<union> S) p \<longleftrightarrow> recorded sid R p \<and> recorded sid S p"
  unfolding recorded_def image_Un Un_subset_iff by (metis option.inject)

lemma recorded_markSent:
  "recorded sid {} p \<Longrightarrow> markSent sid refs p = (Inr (), p') \<Longrightarrow> recorded sid (set refs) p'"
  by (auto simp: recorded_def markSent_def)

lemma pushVisible_records:
  assumes "pushVisible cfg sub caps refs ops l p = (Inr (), p')" "recorded (rsub_id sub) {} p"
  shows "recorded (rsub_id sub) (set refs) p'"
proof (cases "if ops = [] then None else authHook sa_filterOutgoingOps cfg")
  case None
  then obtain a q1 q2 where "signFor cfg caps ops PSubscribe (rsub_id sub) p = (Inr a, q1)"
      "sendBatch cfg (rsub_transport sub) (rsub_id sub) ops a l q1 = (Inr (), q2)"
      and m: "markSent (rsub_id sub) refs q2 = (Inr (), p')"
    using assms(1) by (auto simp: pushVisible_def pushBatch_def elim!: bnd_okE sq_okE)
  then have "push_rel (rsub_id sub) p q2"
    by (blast intro: pu.R_trans stepsD [OF push_emits [OF emits_signFor]] stepsD [OF push_emits [OF emits_sendBatch]])
  then show ?thesis using m recorded_markSent recorded_push assms(2) by blast
next
  case (Some flt)
  then obtain al q1 q2 where q: "outgoingFlags cfg flt ops FPSubscribe (rsub_filter sub) caps p = (Inr al, q1)"
      "markSent (rsub_id sub) refs q1 = (Inr (), q2)"
      "(if pick al ops = [] then ret () else pushBatch cfg sub caps (pick al refs) (pick al ops) l) q2 = (Inr (), p')"
    using assms(1) by (auto simp: pushVisible_def elim!: bnd_okE sq_okE)
  have "recorded (rsub_id sub) {} q1"
    using recorded_push [OF assms(2) stepsD [OF push_emits [OF emits_outgoingFlags] q(1)]] .
  then have "recorded (rsub_id sub) (set refs) q2" using q(2) by (rule recorded_markSent)
  moreover have "push_rel (rsub_id sub) q2 p'"
    using q(3) stepsD [OF push_pushBatch] by (auto split: if_splits simp: pu.R_refl)
  ultimately show ?thesis by (rule recorded_push)
qed

lemma pushChunks_records:
  "pushChunks cfg sub cs p = (Inr (), p') \<Longrightarrow> recorded (rsub_id sub) {} p \<Longrightarrow>
    recorded (rsub_id sub) (set (concat cs)) p'"
proof (induction cs arbitrary: p)
  case (Cons c cs)
  obtain ops q1 q2 where q: "liftW (sb_getOpsByOpRefs (cfg_backend cfg) c) p = (Inr ops, q1)"
      "pushVisible cfg sub (peerCapsOf (rsub_transport sub) q1) c ops (cs = []) q1 = (Inr (), q2)"
      "pushChunks cfg sub cs q2 = (Inr (), p')"
    using Cons.prems(1) by (auto elim!: bnd_okE sq_okE)
  have "recorded (rsub_id sub) {} q1"
    using recorded_push [OF Cons.prems(2) stepsD [OF push_emits [OF emits_liftW] q(1)]] .
  with q(2) have 2: "recorded (rsub_id sub) (set c) q2" by (rule pushVisible_records)
  then have "recorded (rsub_id sub) {} q2" by (auto simp: recorded_def)
  with Cons.IH [OF q(3)] 2 stepsD [OF push_pushChunks q(3)] show ?case
    by (simp add: recorded_Un recorded_push)
qed simp

lemma pushSubscription_records:
  assumes "pushSubscription cfg sub deltaOps True p = (Inr (), p')"
    and "liftW (sb_listOpRefs (cfg_backend cfg) (rsub_filter sub)) p = (Inr opRefs, q)"
    and "js_get (responderSubscriptions p) (rsub_id sub) = Some sub"
  shows "recorded (rsub_id sub) (set opRefs) p'"
proof -
  let ?new = "filter (\<lambda>r. bytesToHex r \<notin> rsub_sentOpRefs sub) opRefs"
  let ?old = "set (filter (\<lambda>r. bytesToHex r \<in> rsub_sentOpRefs sub) opRefs)"
  have "recorded (rsub_id sub) ?old p" using assms(3) by (auto simp: recorded_def)
  then have old: "recorded (rsub_id sub) ?old q"
    using stepsD [OF push_emits [OF emits_liftW] assms(2)] by (rule recorded_push)
  have un: "set opRefs = ?old \<union> set ?new" by auto
  show ?thesis
  proof (cases "?new = []")
    case True
    then have "p' = q" using assms(1,2) by (simp add: pushSubscription_def bnd_eval tryM_eval Let_def)
    with True un old show ?thesis by (metis list.set(1) sup_bot_right)
  next
    case False
    have "sq (refreshHello cfg (rsub_transport sub)) (bnd (liftR (pushSlices cfg ?new)) (pushChunks cfg sub)) q = (Inr (), p')"
      using assms(1,2) False by (simp add: pushSubscription_def bnd_eval tryM_eval Let_def)
    then obtain q1 where q1: "refreshHello cfg (rsub_transport sub) q = (Inr (), q1)"
        "0 < maxOpsPerBatch cfg" "pushChunks cfg sub (chunks (nat (maxOpsPerBatch cfg)) ?new) q1 = (Inr (), p')"
      by (auto simp: pushSlices_def bnd_eval elim!: sq_okE split: if_splits)
    have o1: "recorded (rsub_id sub) ?old q1" using old stepsD [OF push_refreshHello q1(1)] by (rule recorded_push)
    then have "recorded (rsub_id sub) {} q1" by (auto simp: recorded_def)
    with q1(3) have "recorded (rsub_id sub) (set (concat (chunks (nat (maxOpsPerBatch cfg)) ?new))) p'"
      by (rule pushChunks_records)
    then have "recorded (rsub_id sub) (set ?new) p'" using q1(2) by (simp only: concat_chunks zero_less_nat_eq)
    moreover have "recorded (rsub_id sub) ?old p'" using o1 stepsD [OF push_pushChunks q1(3)] by (rule recorded_push)
    ultimately show ?thesis using un by (metis recorded_Un)
  qed
qed

text \<open>
  Whatever the transport, the backend and the auth hooks do, one pass of the push loop over
  a subscription either removes the subscription or records every op ref that the backend lists
  for its filter as sent; the other subscriptions are untouched.  So no listed op is lost
  silently.
\<close>
theorem push_all_or_drop:
  assumes "pushOneSubscription cfg deltaOps True sub p = (r, p')" and "0 < maxOpsPerBatch cfg"
    and "js_get (responderSubscriptions p) (rsub_id sub) = Some sub"
  shows "r = Inr ()
    \<and> (js_get (responderSubscriptions p') (rsub_id sub) = None
       \<or> (\<exists>opRefs s. fst (sb_listOpRefs (cfg_backend cfg) (rsub_filter sub) (world p)) = Inr opRefs
           \<and> js_get (responderSubscriptions p') (rsub_id sub) = Some s
           \<and> rsub_sentOpRefs sub \<subseteq> rsub_sentOpRefs s \<and> bytesToHex ` set opRefs \<subseteq> rsub_sentOpRefs s))
    \<and> (\<forall>k. k \<noteq> rsub_id sub \<longrightarrow> js_get (responderSubscriptions p') k = js_get (responderSubscriptions p) k)"
proof (cases "pushSubscription cfg sub deltaOps True p")
  case (Pair r1 p1)
  obtain listed q where l: "liftW (sb_listOpRefs (cfg_backend cfg) (rsub_filter sub)) p = (listed, q)" by fastforce
  have fl: "fst (sb_listOpRefs (cfg_backend cfg) (rsub_filter sub) (world p)) = listed"
    using l by (auto simp: liftW_eval split: prod.splits)
  have pq: "push_rel (rsub_id sub) p q" using stepsD [OF push_emits [OF emits_liftW] l] .
  show ?thesis
  proof (cases listed)
    case (Inl e)
    with l assms(1) have "r = Inr ()"
      "p' = q\<lparr>responderSubscriptions := js_delete (rsub_id sub) (responderSubscriptions q)\<rparr>"
      by (auto simp: pushOneSubscription_def pushSubscription_def bnd_eval tryM_eval catch_eval)
    with pq show ?thesis by (auto elim!: push_rel_elim)
  next
    case (Inr opRefs)
    have "steps (push_rel (rsub_id sub)) (let newOpRefs = filter (\<lambda>r. bytesToHex r \<notin> rsub_sentOpRefs sub) opRefs in
              if newOpRefs = [] then ret ()
              else sq (refreshHello cfg (rsub_transport sub))
                (bnd (liftR (pushSlices cfg newOpRefs)) (pushChunks cfg sub)))"
      unfolding Let_def by (intro push_rules push_refreshHello push_pushChunks)
    then have "push_rel (rsub_id sub) q p1" using Pair l Inr
      by (auto simp: pushSubscription_def bnd_eval tryM_eval dest: stepsD)
    with pq have rel: "push_rel (rsub_id sub) p p1" by (rule pu.R_trans)
    show ?thesis
    proof (cases r1)
      case (Inl e)
      with Pair assms(1) have "r = Inr ()"
        "p' = p1\<lparr>responderSubscriptions := js_delete (rsub_id sub) (responderSubscriptions p1)\<rparr>"
        by (auto simp: pushOneSubscription_def catch_eval)
      with rel show ?thesis by (auto elim!: push_rel_elim)
    next
      case ok: (Inr u)
      then have "r = Inr ()" "p' = p1" using Pair assms(1) by (auto simp: pushOneSubscription_def catch_eval)
      moreover have "recorded (rsub_id sub) (set opRefs) p1"
        using Pair ok l Inr assms(3) by (intro pushSubscription_records [of cfg sub deltaOps p]) auto
      moreover have "\<exists>s. js_get (responderSubscriptions p1) (rsub_id sub) = Some s \<and> rsub_sentOpRefs sub \<subseteq> rsub_sentOpRefs s"
        using rel assms(3) by (fastforce elim!: push_rel_elim)
      ultimately show ?thesis using rel fl Inr by (auto simp: recorded_def elim!: push_rel_elim)
    qed
  qed
qed

theorem push_all_or_drop_witness:
  "let sub = \<lparr>rsub_id = ''s'', rsub_filter = FilterAll, rsub_sentOpRefs = {}, rsub_transport = 0\<rparr>;
       p = (initPeer [3])\<lparr>responderSubscriptions := [(''s'', sub)]\<rparr>
   in js_get (responderSubscriptions p) ''s'' = Some sub
      \<and> (\<exists>s. js_get (responderSubscriptions (snd (pushOneSubscription (demo_cfg None 2) [] True sub p))) ''s'' = Some s
           \<and> bytesToHex (replicate 3 0) \<in> rsub_sentOpRefs s)"
proof -
  define sub where "sub = \<lparr>rsub_id = ''s'', rsub_filter = FilterAll, rsub_sentOpRefs = {}, rsub_transport = 0 :: nat\<rparr>"
  define p where "p = (initPeer [3] :: (nat, nat list, demo_decoder_state) Peer)\<lparr>responderSubscriptions := [(''s'', sub)]\<rparr>"
  obtain r p' where q: "pushOneSubscription (demo_cfg None 2) [] True sub p = (r, p')" by fastforce
  have g: "js_get (responderSubscriptions p) (rsub_id sub) = Some sub"
    by (simp add: p_def sub_def js_get_def)
  have n: "js_get (responderSubscriptions p') (rsub_id sub) \<noteq> None"
    using q unfolding p_def sub_def
    by (auto simp: pushOneSubscription_def pushSubscription_def catch_eval bnd_eval tryM_eval sq_eval Let_def
        liftW_eval demo_cfg_def demo_backend_def initPeer_def refreshHello_def refreshHelloCapabilities_def
        authHook_def pushSlices_def chunks.simps peerCapsOf_def pushVisible_def pushBatch_def signFor_def
        sendBatch_def send_def markSent_def or_default_def peerAdvertisedOpAuth_def js_get_def)
  show ?thesis
    using push_all_or_drop [OF q _ g] n g q
    by (auto simp: Let_def p_def sub_def demo_cfg_def demo_backend_def initPeer_def)
qed

section \<open>The push loop\<close>

definition keeps_push :: "('op, 'w, 'd) Peer \<Rightarrow> ('op, 'w, 'd) Peer \<Rightarrow> bool" where
  "keeps_push p p' \<longleftrightarrow> pushScheduled p' = pushScheduled p \<and> pushNeedsFullScan p' = pushNeedsFullScan p
     \<and> pendingPushOpsByRefHex p' = pendingPushOpsByRefHex p"

interpretation kp: step_closed "keeps_push :: ('op, 'w, 'd) Peer \<Rightarrow> ('op, 'w, 'd) Peer \<Rightarrow> bool"
  by unfold_locales (simp_all add: keeps_push_def)

lemma push_keeps: "steps (push_rel sid) m \<Longrightarrow> steps keeps_push m"
  unfolding steps_def by (fastforce simp: keeps_push_def elim!: push_rel_elim)

lemma keeps_pushSubscription: "steps keeps_push (pushSubscription cfg sub deltaOps full)"
  unfolding pushSubscription_def pushSubscriptionDeltaAll_def Let_def
  by (intro kp.steps_rules kp.steps_modify push_keeps [OF push_refreshHello] push_keeps [OF push_pushChunks]
      push_keeps [OF push_pushDeltaChunks] push_keeps [OF push_emits [OF emits_liftW]])
    (simp add: keeps_push_def)

lemma pushOneSubscription_ok:
  obtains p' where "pushOneSubscription cfg deltaOps full sub p = (Inr (), p')" "keeps_push p p'"
proof (cases "pushSubscription cfg sub deltaOps full p")
  case (Pair r q)
  then have "keeps_push p q" by (rule stepsD [OF keeps_pushSubscription])
  with Pair that show ?thesis
    by (cases r) (auto simp: pushOneSubscription_def catch_eval keeps_push_def)
qed

lemma pushAll_ok:
  "\<exists>p'. for_each (pushOneSubscription cfg deltaOps full) subs p = (Inr (), p') \<and> keeps_push p p'"
proof (induction subs arbitrary: p)
  case (Cons sub subs)
  obtain q where "pushOneSubscription cfg deltaOps full sub p = (Inr (), q)" "keeps_push p q"
    by (rule pushOneSubscription_ok)
  with Cons [of q] kp.R_trans show ?case by (auto simp: sq_eval)
qed (simp add: kp.R_refl)

lemma pushRound_ok:
  "\<exists>p'. pushRound cfg p = (Inr (), p') \<and> \<not> pushScheduled p' \<and> \<not> pushNeedsFullScan p' \<and> pendingPushOpsByRefHex p' = []"
proof -
  define ds where "ds = (if pushNeedsFullScan p then [] else map snd (pendingPushOpsByRefHex p))"
  define q where "q = p\<lparr>pushScheduled := False, pushNeedsFullScan := False, pendingPushOpsByRefHex := []\<rparr>"
  have r: "pushRound cfg p = for_each (pushOneSubscription cfg ds (pushNeedsFullScan p)) (map snd (responderSubscriptions q)) q"
    unfolding pushRound_def ds_def q_def by (simp only: bnd_eval sq_eval pm_eval prod.case sum.case)
  obtain p' where p': "for_each (pushOneSubscription cfg ds (pushNeedsFullScan p)) (map snd (responderSubscriptions q)) q = (Inr (), p')"
      "keeps_push q p'"
    using pushAll_ok by blast
  have "\<not> pushScheduled q" "\<not> pushNeedsFullScan q" "pendingPushOpsByRefHex q = []" by (simp_all add: q_def)
  with p'(2) have "\<not> pushScheduled p'" "\<not> pushNeedsFullScan p'" "pendingPushOpsByRefHex p' = []"
    unfolding keeps_push_def by simp_all
  moreover have "pushRound cfg p = (Inr (), p')" using r p'(1) by (rule trans)
  ultimately show ?thesis by blast
qed

lemma runPushLoop_once: "2 \<le> n \<Longrightarrow> pushRounds n cfg p = pushRounds 2 cfg p"
proof -
  assume "2 \<le> n"
  then obtain k where "n = 2 + k" using le_Suc_ex by blast
  then have n: "n = Suc (Suc k)" by simp
  obtain q where "pushRound cfg p = (Inr (), q)" "\<not> pushScheduled q" using pushRound_ok by blast
  then show ?thesis by (simp add: n numeral_2_eq_2 bnd_eval sq_eval)
qed



end
