(* ===== verification/Peer_Handlers.thy ===== *)
theory Peer_Handlers
  imports Peer_Push
begin

text \<open>
  The message handlers of a \<^verbatim>\<open>SyncPeer\<close> (\<^verbatim>\<open>sync.ts\<close>): \<^verbatim>\<open>onHello\<close>, \<^verbatim>\<open>onHelloAck\<close>,
  \<^verbatim>\<open>onRibltCodewords\<close>, \<^verbatim>\<open>onSubscribe\<close>, \<^verbatim>\<open>onSubscribeAck\<close>, \<^verbatim>\<open>onUnsubscribe\<close>, \<^verbatim>\<open>onError\<close>,
  \<^verbatim>\<open>failAllPendingSessions\<close>, \<^verbatim>\<open>onRibltStatus\<close>, \<^verbatim>\<open>onOpsBatch\<close>, \<^verbatim>\<open>reprocessPendingOps\<close>, and
  the dispatcher \<^verbatim>\<open>handleMessage\<close> with its error reporting.

  A handler runs to completion.  The calls of \<^verbatim>\<open>traceHello\<close> only log and are left out.  Error
  texts that the source builds from a thrown value are that value's message.
\<close>

fun errorCodeName :: "ErrorCode \<Rightarrow> string" where
  "errorCodeName ERROR_CODE_UNSPECIFIED = ''ERROR_CODE_UNSPECIFIED''"
| "errorCodeName UNSUPPORTED_VERSION = ''UNSUPPORTED_VERSION''"
| "errorCodeName FILTER_NOT_SUPPORTED = ''FILTER_NOT_SUPPORTED''"
| "errorCodeName TOO_MANY_FILTERS = ''TOO_MANY_FILTERS''"
| "errorCodeName RECONCILIATION_DECODE_FAILED = ''RECONCILIATION_DECODE_FAILED''"
| "errorCodeName RATE_LIMITED = ''RATE_LIMITED''"
| "errorCodeName DOC_NOT_FOUND = ''DOC_NOT_FOUND''"
| "errorCodeName UNAUTHORIZED = ''UNAUTHORIZED''"

text \<open>A JavaScript string that is present and not empty.\<close>

definition truthy :: "string option \<Rightarrow> bool" where
  "truthy x = (x \<noteq> None \<and> x \<noteq> Some [])"

section \<open>Hello\<close>

record DirectSendFilter =
  ds_id :: string
  ds_filter :: Filter
  ds_opRefs :: "OpRef list"

record HelloProgress =
  hp_accepted :: "string list"
  hp_rejected :: "RejectedFilter list"
  hp_direct :: "DirectSendFilter list"
  hp_ackCapabilities :: "Capability list"

definition rejectFilter :: "string \<Rightarrow> ErrorCode \<Rightarrow> string \<Rightarrow> HelloProgress \<Rightarrow> HelloProgress" where
  "rejectFilter i reason msg acc =
     acc\<lparr>hp_rejected := hp_rejected acc @ [\<lparr>rej_id = i, rej_reason = reason, rej_message = Some msg\<rparr>]\<rparr>"

definition authorizeHelloFilter :: "('op, 'w, 'd, 'e) PeerConfig \<Rightarrow> Filter \<Rightarrow> FilterPurpose \<Rightarrow> Capability list \<Rightarrow>
    (('op, 'w, 'd) Peer, unit) pm" where
  "authorizeHelloFilter cfg fil purpose caps =
    (case authHook sa_authorizeFilter cfg of
       None \<Rightarrow> ret ()
     | Some authorizeFilter \<Rightarrow> liftW (authorizeFilter fil
         \<lparr>afc_docId = docId_of cfg, afc_purpose = purpose, afc_capabilities = caps\<rparr>))"

text \<open>The local refs the peer may learn about: everything, or the ops the auth layer lets out.\<close>

definition helloVisibleRefs :: "('op, 'w, 'd, 'e) PeerConfig \<Rightarrow> Filter \<Rightarrow> Capability list \<Rightarrow> OpRef list \<Rightarrow>
    (('op, 'w, 'd) Peer, OpRef list) pm" where
  "helloVisibleRefs cfg fil caps localOpRefs =
    (case (if fil = FilterAll \<or> localOpRefs = [] then None else authHook sa_filterOutgoingOps cfg) of
       None \<Rightarrow> ret localOpRefs
     | Some flt \<Rightarrow>
         bnd (liftW (sb_getOpsByOpRefs (cfg_backend cfg) localOpRefs)) (\<lambda>ops.
         bnd (outgoingFlags cfg flt ops FPHello fil caps) (\<lambda>allowed.
           ret (pick allowed localOpRefs))))"

fun addLocalSymbols :: "'d RibltDecoder16 \<Rightarrow> OpRef list \<Rightarrow> 'd \<Rightarrow> 'd res" where
  "addLocalSymbols dec [] d = Inr d"
| "addLocalSymbols dec (r # rs) d = bindR (rd_addLocalSymbol dec r d) (addLocalSymbols dec rs)"

text \<open>How an accepted filter is served: direct send, upload to an empty receiver, or RIBLT.\<close>

definition acceptFilter :: "('op, 'w, 'd, 'e) PeerConfig \<Rightarrow> Hello \<Rightarrow> string \<Rightarrow> Filter \<Rightarrow> OpRef list \<Rightarrow>
    HelloProgress \<Rightarrow> (('op, 'w, 'd) Peer, HelloProgress) pm" where
  "acceptFilter cfg hello i fil refs acc0 =
    (let acc = acc0\<lparr>hp_accepted := hp_accepted acc0 @ [i]\<rparr>; caps = hello_capabilities hello in
     if peerSupportsDirectSendSmallScope caps \<and> directSendThreshold cfg > 0
        \<and> peerRequestedDirectSendFilter caps i \<and> int (length refs) \<le> directSendThreshold cfg then
       ret (acc\<lparr>hp_ackCapabilities := hp_ackCapabilities acc @
              [\<lparr>cap_name = DIRECT_SEND_SMALL_SCOPE_FILTER_CAPABILITY, cap_value = i\<rparr>],
            hp_direct := hp_direct acc @ [\<lparr>ds_id = i, ds_filter = fil, ds_opRefs = refs\<rparr>]\<rparr>)
     else if peerSupportsDirectSendEmptyReceiver caps \<and> refs = [] then
       sq (modify (\<lambda>p. p\<lparr>responderAwaitingUploadAcks := insert i (responderAwaitingUploadAcks p)\<rparr>))
       (ret (acc\<lparr>hp_ackCapabilities := hp_ackCapabilities acc @
              [\<lparr>cap_name = DIRECT_SEND_EMPTY_RECEIVER_FILTER_CAPABILITY, cap_value = i\<rparr>]\<rparr>))
     else
       bnd (liftR (addLocalSymbols (cfg_decoder cfg) refs (rd_new (cfg_decoder cfg)))) (\<lambda>decoder.
       sq (modify (\<lambda>p. p\<lparr>responderSessions := js_set i \<lparr>rs_filter = fil, rs_round = 0, rs_decoder = decoder,
             rs_expectedIndex = 0, rs_awaitingIncomingDone = False\<rparr> (responderSessions p)\<rparr>))
       (ret acc)))"

definition helloFilter :: "('op, 'w, 'd, 'e) PeerConfig \<Rightarrow> Hello \<Rightarrow> nat \<times> FilterSpec \<Rightarrow> HelloProgress \<Rightarrow>
    (('op, 'w, 'd) Peer, HelloProgress) pm" where
  "helloFilter cfg hello ispec acc =
    (case ispec of (idx, spec) \<Rightarrow>
     let i = fs_id spec; fil = fs_filter spec; caps = hello_capabilities hello in
     if i = [] then ret acc
     else if idx \<ge> maxHelloFilters cfg then
       ret (rejectFilter i TOO_MANY_FILTERS ''max filters per Hello exceeded'' acc)
     else if requireAuthForFilters cfg \<and> \<not> list_ex isAuthCapability caps then
       ret (rejectFilter i UNAUTHORIZED ''missing auth.capability token; send a valid capability token in Hello.capabilities'' acc)
     else
       bnd (tryM (authorizeHelloFilter cfg fil FPHello caps)) (\<lambda>a. case a of
         Inl e \<Rightarrow> ret (rejectFilter i UNAUTHORIZED e acc)
       | Inr _ \<Rightarrow>
           bnd (tryM (liftW (sb_listOpRefs (cfg_backend cfg) fil))) (\<lambda>l. case l of
             Inl e \<Rightarrow> ret (rejectFilter i FILTER_NOT_SUPPORTED e acc)
           | Inr localOpRefs \<Rightarrow>
               bnd (tryM (helloVisibleRefs cfg fil caps localOpRefs)) (\<lambda>v. case v of
                 Inl e \<Rightarrow> ret (rejectFilter i UNAUTHORIZED e acc)
               | Inr refs \<Rightarrow> acceptFilter cfg hello i fil refs acc))))"

definition recordHelloCaps :: "transport \<Rightarrow> Capability list \<Rightarrow> (('op, 'w, 'd) Peer, unit) pm" where
  "recordHelloCaps t caps = modify (\<lambda>p. p\<lparr>
     transportHasAuth := (if list_ex isAuthCapability caps then (transportHasAuth p)(t := True) else transportHasAuth p),
     transportPeerCapabilities := (if peerAdvertisedOpAuth caps
       then (transportPeerCapabilities p)(t := Some caps) else transportPeerCapabilities p)\<rparr>)"

definition sendError :: "('op, 'w, 'd, 'e) PeerConfig \<Rightarrow> transport \<Rightarrow> ErrorCode \<Rightarrow> string \<Rightarrow> string option \<Rightarrow>
    string option \<Rightarrow> (('op, 'w, 'd) Peer, unit) pm" where
  "sendError cfg t code msg fid sid =
     send cfg t (MError \<lparr>se_code = code, se_message = msg, se_filterId = fid, se_subscriptionId = sid\<rparr>)"

text \<open>The answer once the auth layer has let the hello through.\<close>

definition answerHello :: "('op, 'w, 'd, 'e) PeerConfig \<Rightarrow> transport \<Rightarrow> Hello \<Rightarrow> Capability list \<Rightarrow>
    (('op, 'w, 'd) Peer, unit) pm" where
  "answerHello cfg t hello ackCapabilities =
     bnd (liftW (sb_maxLamport (cfg_backend cfg))) (\<lambda>maxLamport.
     bnd (fold_m (helloFilter cfg hello) (List.enumerate 0 (hello_filters hello))
           \<lparr>hp_accepted = [], hp_rejected = [], hp_direct = [], hp_ackCapabilities = ackCapabilities\<rparr>) (\<lambda>acc.
     sq (send cfg t (MHelloAck \<lparr>ack_capabilities = hp_ackCapabilities acc,
           ack_acceptedFilters = hp_accepted acc, ack_rejectedFilters = hp_rejected acc,
           ack_maxLamport = maxLamport\<rparr>))
     (for_each (\<lambda>d. sendOpsBatches cfg t (ds_id d) (ds_opRefs d) None (Some (ds_filter d))) (hp_direct acc))))"

definition onHello :: "('op, 'w, 'd, 'e) PeerConfig \<Rightarrow> transport \<Rightarrow> Hello \<Rightarrow> (('op, 'w, 'd) Peer, unit) pm" where
  "onHello cfg t hello =
     sq (recordHelloCaps t (hello_capabilities hello))
     (bnd (tryM (case authHook sa_onHello cfg of None \<Rightarrow> ret []
                 | Some h \<Rightarrow> liftW (h hello (docId_of cfg)))) (\<lambda>a. case a of
       Inl e \<Rightarrow> sendError cfg t ERROR_CODE_UNSPECIFIED e None None
     | Inr ackCapabilities \<Rightarrow> answerHello cfg t hello ackCapabilities))"

definition resolveWaiters :: "transport \<Rightarrow> ('op, 'w, 'd) Peer \<Rightarrow> ('op, 'w, 'd) Peer" where
  "resolveWaiters t p = p\<lparr>transportHelloAckWaiters := (transportHelloAckWaiters p)(t := []),
     waiterStates := fold (\<lambda>i ws. ws[i := resolveD () (ws ! i)]) (transportHelloAckWaiters p t) (waiterStates p)\<rparr>"

definition rejectionText :: "RejectedFilter \<Rightarrow> string" where
  "rejectionText rej = errorCodeName (rej_reason rej) @
     (if truthy (rej_message rej) then '': '' @ the (rej_message rej) else [])"

text \<open>Promises of a session are settled only through the map of live sessions.\<close>

definition withSession :: "string \<Rightarrow> (InitiatorSession \<Rightarrow> InitiatorSession) \<Rightarrow> ('op, 'w, 'd) Peer \<Rightarrow> ('op, 'w, 'd) Peer" where
  "withSession i f p = (case getInitiatorSession i p of None \<Rightarrow> p | Some _ \<Rightarrow> updInitiator i f p)"

definition onHelloAck :: "('op, 'w, 'd, 'e) PeerConfig \<Rightarrow> transport \<Rightarrow> HelloAck \<Rightarrow> (('op, 'w, 'd) Peer, unit) pm" where
  "onHelloAck cfg t ack =
     sq (case authHook sa_onHelloAck cfg of None \<Rightarrow> ret () | Some h \<Rightarrow> liftW (h ack (docId_of cfg)))
     (sq (recordHelloCaps t (ack_capabilities ack))
     (sq (modify (resolveWaiters t))
     (sq (modify (fold (\<lambda>i. withSession i (\<lambda>s. s\<lparr>is_ack := resolveD ack (is_ack s)\<rparr>)) (ack_acceptedFilters ack)))
     (modify (fold (\<lambda>rej. withSession (rej_id rej) (\<lambda>s. s\<lparr>is_ack := rejectD (rejectionText rej) (is_ack s)\<rparr>))
        (ack_rejectedFilters ack))))))"

section \<open>RIBLT\<close>

definition sendStatus :: "('op, 'w, 'd, 'e) PeerConfig \<Rightarrow> transport \<Rightarrow> RibltCodewords \<Rightarrow> RibltStatusPayload \<Rightarrow>
    (('op, 'w, 'd) Peer, unit) pm" where
  "sendStatus cfg t msg pl =
     send cfg t (MRibltStatus \<lparr>st_filterId = rc_filterId msg, st_round = rc_round msg, st_payload = pl\<rparr>)"

definition deleteSession :: "string \<Rightarrow> (('op, 'w, 'd) Peer, unit) pm" where
  "deleteSession fid = modify (\<lambda>p. p\<lparr>responderSessions := js_delete fid (responderSessions p)\<rparr>)"

definition putSession :: "string \<Rightarrow> 'd ResponderSession \<Rightarrow> (('op, 'w, 'd) Peer, unit) pm" where
  "putSession fid s = modify (\<lambda>p. p\<lparr>responderSessions := js_set fid s (responderSessions p)\<rparr>)"

text \<open>The codeword loop: stops at the limit; an exception keeps what was added before it.\<close>

fun addCodewords :: "'d RibltDecoder16 \<Rightarrow> nat \<Rightarrow> RibltCodeword list \<Rightarrow> 'd \<Rightarrow> nat \<Rightarrow> error option \<times> 'd \<times> nat" where
  "addCodewords dec mx [] d idx = (None, d, idx)"
| "addCodewords dec mx (c # cs) d idx =
    (if idx \<ge> mx then (None, d, idx)
     else case rd_addCodeword dec c d of
       Inl e \<Rightarrow> (Some e, d, idx)
     | Inr d' \<Rightarrow> addCodewords dec mx cs d' (Suc idx))"

definition decodeStep :: "'d RibltDecoder16 \<Rightarrow> nat \<Rightarrow> RibltCodeword list \<Rightarrow> 'd \<Rightarrow> nat \<Rightarrow> error option \<times> 'd \<times> nat" where
  "decodeStep dec mx cs d idx =
    (case addCodewords dec mx cs d idx of
       (Some e, d', idx') \<Rightarrow> (Some e, d', idx')
     | (None, d', idx') \<Rightarrow> (case rd_tryDecode dec d' of Inl e \<Rightarrow> (Some e, d', idx') | Inr d'' \<Rightarrow> (None, d'', idx')))"

text \<open>The answer once the decoder has succeeded; \<open>s\<close> is the session with the new decoder state.\<close>

definition answerDecoded :: "('op, 'w, 'd, 'e) PeerConfig \<Rightarrow> transport \<Rightarrow> RibltCodewords \<Rightarrow> 'd ResponderSession \<Rightarrow>
    (('op, 'w, 'd) Peer, unit) pm" where
  "answerDecoded cfg t msg s =
    (let fid = rc_filterId msg; dec = cfg_decoder cfg; d = rs_decoder s;
         receiver_missing = rd_remoteMissing dec d; sender_missing = rd_localMissing dec d;
         awaiting = (receiver_missing \<noteq> [])
     in sq (putSession fid (s\<lparr>rs_awaitingIncomingDone := awaiting\<rparr>))
        (sq (sendStatus cfg t msg (StatusDecoded sender_missing receiver_missing (rd_codewordsReceived dec d)))
        (if sender_missing \<noteq> [] then
           sq (sendOpsBatches cfg t fid sender_missing None None)
           (whenM (\<not> awaiting) (deleteSession fid))
         else whenM (\<not> awaiting) (sq (sendDoneOpsBatch cfg t fid) (deleteSession fid)))))"

text \<open>The answer after the codewords of a message were fed to the decoder.\<close>

definition answerCodewords :: "('op, 'w, 'd, 'e) PeerConfig \<Rightarrow> transport \<Rightarrow> RibltCodewords \<Rightarrow> 'd ResponderSession \<Rightarrow>
    error option \<Rightarrow> (('op, 'w, 'd) Peer, unit) pm" where
  "answerCodewords cfg t msg s err =
    (let fid = rc_filterId msg; dec = cfg_decoder cfg in
     case err of
       Some e \<Rightarrow> sq (sendStatus cfg t msg (StatusFailed DECODE_FAILED (Some e))) (deleteSession fid)
     | None \<Rightarrow>
         if \<not> rd_decoded dec (rs_decoder s) then
           (if rs_expectedIndex s \<ge> maxCodewords cfg
            then sq (sendStatus cfg t msg (StatusFailed MAX_CODEWORDS_EXCEEDED None)) (deleteSession fid)
            else sendStatus cfg t msg (StatusMore (rd_codewordsReceived dec (rs_decoder s)) 1))
         else answerDecoded cfg t msg s)"

definition onRibltCodewords :: "('op, 'w, 'd, 'e) PeerConfig \<Rightarrow> transport \<Rightarrow> RibltCodewords \<Rightarrow>
    (('op, 'w, 'd) Peer, unit) pm" where
  "onRibltCodewords cfg t msg =
     bnd (gets (\<lambda>p. js_get (responderSessions p) (rc_filterId msg))) (\<lambda>so. case so of
       None \<Rightarrow> ret ()
     | Some s \<Rightarrow>
         if rc_round msg \<noteq> rs_round s then ret ()
         else if rc_startIndex msg \<noteq> rs_expectedIndex s then
           sq (sendStatus cfg t msg (StatusFailed OUT_OF_ORDER None)) (deleteSession (rc_filterId msg))
         else
           (case decodeStep (cfg_decoder cfg) (maxCodewords cfg) (rc_codewords msg) (rs_decoder s) (rs_expectedIndex s) of
             (err, d, idx) \<Rightarrow>
               let s' = s\<lparr>rs_decoder := d, rs_expectedIndex := idx\<rparr> in
               sq (putSession (rc_filterId msg) s') (answerCodewords cfg t msg s' err)))"

definition bumpSignal :: "InitiatorSession \<Rightarrow> InitiatorSession" where
  "bumpSignal s = s\<lparr>is_codewordCreditSignal := Pending\<rparr>"

definition onRibltStatus :: "RibltStatus \<Rightarrow> (('op, 'w, 'd) Peer, unit) pm" where
  "onRibltStatus status =
     bnd (gets (getInitiatorSession (st_filterId status))) (\<lambda>so. case so of
       None \<Rightarrow> ret ()
     | Some s \<Rightarrow>
         if st_round status \<noteq> is_round s then ret ()
         else if is_done s then ret ()
         else modify (updInitiator (st_filterId status) (\<lambda>s. bumpSignal (case st_payload status of
           StatusMore _ extra \<Rightarrow> s\<lparr>is_codewordCredits := is_codewordCredits s + int (max 1 extra)\<rparr>
         | StatusDecoded _ receiver_missing _ \<Rightarrow> s\<lparr>is_done := True, is_awaitingUploadAck := (receiver_missing \<noteq> []),
             is_terminalStatus := resolveD status (is_terminalStatus s)\<rparr>
         | StatusFailed _ _ \<Rightarrow> s\<lparr>is_done := True, is_terminalStatus := resolveD status (is_terminalStatus s)\<rparr>))))"

section \<open>Subscriptions\<close>

definition registerSubscription :: "transport \<Rightarrow> Subscribe \<Rightarrow> OpRef list \<Rightarrow> (('op, 'w, 'd) Peer, unit) pm" where
  "registerSubscription t msg opRefs = modify (\<lambda>p. p\<lparr>responderSubscriptions := js_set (sub_subscriptionId msg)
     \<lparr>rsub_id = sub_subscriptionId msg, rsub_filter = sub_filter msg,
      rsub_sentOpRefs = bytesToHex ` set opRefs, rsub_transport = t\<rparr> (responderSubscriptions p)\<rparr>)"

definition onSubscribe :: "('op, 'w, 'd, 'e) PeerConfig \<Rightarrow> transport \<Rightarrow> Subscribe \<Rightarrow> (('op, 'w, 'd) Peer, unit) pm" where
  "onSubscribe cfg t msg =
    (if sub_subscriptionId msg = [] then ret ()
     else bnd (gets (\<lambda>p. transportHasAuth p t)) (\<lambda>hasAuth.
       if requireAuthForFilters cfg \<and> \<not> hasAuth then
         sendError cfg t UNAUTHORIZED ''missing auth.capability token; send Hello before Subscribe'' None (Some (sub_subscriptionId msg))
       else bnd (gets (peerCapsOf t)) (\<lambda>peerCaps.
         bnd (tryM (authorizeHelloFilter cfg (sub_filter msg) FPSubscribe peerCaps)) (\<lambda>a. case a of
           Inl e \<Rightarrow> sendError cfg t UNAUTHORIZED e None (Some (sub_subscriptionId msg))
         | Inr _ \<Rightarrow>
             catch
               (bnd (bothM (liftW (sb_listOpRefs (cfg_backend cfg) (sub_filter msg)))
                           (liftW (sb_maxLamport (cfg_backend cfg)))) (\<lambda>(opRefs, maxLamport).
                sq (registerSubscription t msg opRefs)
                (sq (send cfg t (MSubscribeAck \<lparr>sack_subscriptionId = sub_subscriptionId msg,
                       sack_currentLamport = maxLamport\<rparr>))
                (notifyLocalUpdate cfg None))))
               (\<lambda>e. sendError cfg t FILTER_NOT_SUPPORTED e None (Some (sub_subscriptionId msg)))))))"

definition onSubscribeAck :: "SubscribeAck \<Rightarrow> (('op, 'w, 'd) Peer, unit) pm" where
  "onSubscribeAck ack = modify (\<lambda>p. if sack_subscriptionId ack \<in> set (initiatorSubscriptions p)
     then updSubscription (sack_subscriptionId ack) (\<lambda>s. s\<lparr>isub_ack := resolveD ack (isub_ack s)\<rparr>) p else p)"

definition onUnsubscribe :: "string \<Rightarrow> (('op, 'w, 'd) Peer, unit) pm" where
  "onUnsubscribe sid = modify (\<lambda>p. p\<lparr>responderSubscriptions := js_delete sid (responderSubscriptions p)\<rparr>)"

section \<open>Errors\<close>

definition failSession :: "error \<Rightarrow> InitiatorSession \<Rightarrow> InitiatorSession" where
  "failSession e s = s\<lparr>is_done := True, is_ack := rejectD e (is_ack s),
     is_terminalStatus := rejectD e (is_terminalStatus s),
     is_codewordCreditSignal := rejectD e (is_codewordCreditSignal s),
     is_receivedOps := rejectD e (is_receivedOps s)\<rparr>"

definition failSubscription :: "error \<Rightarrow> InitiatorSubscription \<Rightarrow> InitiatorSubscription" where
  "failSubscription e s = s\<lparr>isub_ack := rejectD e (isub_ack s), isub_failed := rejectD e (isub_failed s)\<rparr>"

definition failAllSessions :: "error \<Rightarrow> ('op, 'w, 'd) Peer \<Rightarrow> ('op, 'w, 'd) Peer" where
  "failAllSessions e p = (fold (\<lambda>i. updInitiator i (failSession e)) (initiatorSessions p) p)\<lparr>initiatorSessions := []\<rparr>"

definition errorText :: "SyncError \<Rightarrow> error" where
  "errorText err = errorCodeName (se_code err) @ '': '' @ se_message err"

definition onError :: "SyncError \<Rightarrow> (('op, 'w, 'd) Peer, unit) pm" where
  "onError err =
     sq (modify (\<lambda>p. if truthy (se_subscriptionId err) \<and> the (se_subscriptionId err) \<in> set (initiatorSubscriptions p)
          then (updSubscription (the (se_subscriptionId err)) (failSubscription (errorText err)) p)
                 \<lparr>initiatorSubscriptions := filter (\<lambda>k. k \<noteq> the (se_subscriptionId err)) (initiatorSubscriptions p)\<rparr>
          else p))
     (modify (\<lambda>p.
       if \<not> truthy (se_filterId err) then (if initiatorSessions p = [] then p else failAllSessions (errorText err) p)
       else (case getInitiatorSession (the (se_filterId err)) p of
           None \<Rightarrow> p
         | Some _ \<Rightarrow> (updInitiator (the (se_filterId err)) (failSession (errorText err)) p)
               \<lparr>initiatorSessions := filter (\<lambda>k. k \<noteq> the (se_filterId err)) (initiatorSessions p)\<rparr>)))"

definition failAllPendingSessions :: "error \<Rightarrow> ('op, 'w, 'd) Peer \<Rightarrow> ('op, 'w, 'd) Peer" where
  "failAllPendingSessions e p =
     failAllSessions e ((fold (\<lambda>k. updSubscription k (failSubscription e)) (initiatorSubscriptions p) p)
       \<lparr>initiatorSubscriptions := []\<rparr>)"

section \<open>Ops batches\<close>

text \<open>Splits a batch by disposition: allowed ops, and ops to hold back with their auth entry.\<close>

fun classifyOps :: "'op list \<Rightarrow> OpAuth list option \<Rightarrow> SyncAuthOpDisposition list \<Rightarrow>
    ('op PendingOp list \<times> 'op list) res" where
  "classifyOps (x # xs) auth (DAllow # ds) =
     bindR (classifyOps xs (map_option tl auth) ds) (\<lambda>(pend, allow). Inr (pend, x # allow))"
| "classifyOps (x # xs) auth (DPendingContext m # ds) =
     (case auth of
        None \<Rightarrow> Inl ''verifyOps returned pending_context but OpsBatch.auth is missing''
      | Some as \<Rightarrow> bindR (classifyOps xs (Some (tl as)) ds) (\<lambda>(pend, allow).
          Inr (\<lparr>po_op = x, po_auth = hd as, po_message = (if truthy m then m else None)\<rparr> # pend, allow)))"
| "classifyOps xs auth ds = Inr ([], xs)"

text \<open>One pending op: drop it if it is now known to be invalid, apply it if it verifies.\<close>

definition reprocessOne :: "('op list \<Rightarrow> OpAuth list option \<Rightarrow> SyncAuthOpsContext \<Rightarrow>
      ('w, SyncAuthOpDisposition list option) pm) \<Rightarrow> ('op list \<Rightarrow> ('w, unit) pm) \<Rightarrow>
    ('op, 'w, 'd, 'e) PeerConfig \<Rightarrow> 'op PendingOp \<Rightarrow> bool \<times> 'op list \<Rightarrow>
    (('op, 'w, 'd) Peer, bool \<times> 'op list) pm" where
  "reprocessOne verifyOps deletePendingOps cfg x acc =
    (case acc of (progress, applied) \<Rightarrow>
     bnd (tryM (liftW (verifyOps [po_op x] (Some [po_auth x])
          \<lparr>oc_docId = docId_of cfg, oc_purpose = PReprocessPending, oc_filterId = ''__pending__''\<rparr>))) (\<lambda>res. case res of
       Inl _ \<Rightarrow> sq (liftW (deletePendingOps [po_op x])) (ret (True, applied))
     | Inr (Some (DPendingContext _ # _)) \<Rightarrow> ret (progress, applied)
     | Inr _ \<Rightarrow>
         sq (liftW (sb_applyOps (cfg_backend cfg) [po_op x]))
         (sq (liftW (deletePendingOps [po_op x]))
         (ret (True, applied @ [po_op x])))))"

fun reprocessRounds :: "nat \<Rightarrow> ('op list \<Rightarrow> OpAuth list option \<Rightarrow> SyncAuthOpsContext \<Rightarrow>
      ('w, SyncAuthOpDisposition list option) pm) \<Rightarrow> ('w, 'op PendingOp list) pm \<Rightarrow> ('op list \<Rightarrow> ('w, unit) pm) \<Rightarrow>
    ('op, 'w, 'd, 'e) PeerConfig \<Rightarrow> (('op, 'w, 'd) Peer, unit) pm" where
  "reprocessRounds 0 verifyOps listPendingOps deletePendingOps cfg =
     throw ''pending-op reprocessing exceeded max rounds''"
| "reprocessRounds (Suc n) verifyOps listPendingOps deletePendingOps cfg =
     bnd (liftW listPendingOps) (\<lambda>pend.
       if pend = [] then ret ()
       else bnd (fold_m (reprocessOne verifyOps deletePendingOps cfg) pend (False, [])) (\<lambda>(progress, applied).
         sq (whenM (applied \<noteq> []) (notifyLocalUpdate cfg (Some applied)))
         (if \<not> progress then ret ()
          else reprocessRounds n verifyOps listPendingOps deletePendingOps cfg)))"

text \<open>
  A call that finds another run in flight awaits that run; with handlers that run to completion
  there is none.
\<close>

definition reprocessPendingOps :: "('op, 'w, 'd, 'e) PeerConfig \<Rightarrow> (('op, 'w, 'd) Peer, unit) pm" where
  "reprocessPendingOps cfg =
     bnd (gets reprocessPendingRunning) (\<lambda>running.
       if running then ret ()
       else (case (sb_listPendingOps (cfg_backend cfg), sb_deletePendingOps (cfg_backend cfg), authHook sa_verifyOps cfg) of
           (Some listPendingOps, Some deletePendingOps, Some verifyOps) \<Rightarrow>
             sq (modify (\<lambda>p. p\<lparr>reprocessPendingRunning := True\<rparr>))
             (finallyM (reprocessRounds 100 verifyOps listPendingOps deletePendingOps cfg)
               (\<lambda>p. p\<lparr>reprocessPendingRunning := False\<rparr>))
         | _ \<Rightarrow> ret ()))"

definition verifyBatch :: "('op, 'w, 'd, 'e) PeerConfig \<Rightarrow> 'op OpsBatch \<Rightarrow> SyncAuthOpsContext \<Rightarrow>
    (('op, 'w, 'd) Peer, SyncAuthOpDisposition list option) pm" where
  "verifyBatch cfg batch ctx =
     bnd (case authHook sa_verifyOps cfg of None \<Rightarrow> ret None
          | Some verifyOps \<Rightarrow> liftW (verifyOps (ob_ops batch) (ob_auth batch) ctx)) (\<lambda>dispositions.
       if (case dispositions of None \<Rightarrow> False | Some ds \<Rightarrow> length ds \<noteq> length (ob_ops batch))
       then throw ''verifyOps returned wrong number of dispositions''
       else ret dispositions)"

definition storePending :: "('op, 'w, 'd, 'e) PeerConfig \<Rightarrow> 'op PendingOp list \<Rightarrow> (('op, 'w, 'd) Peer, unit) pm" where
  "storePending cfg pend =
    (if pend = [] then ret ()
     else (case sb_storePendingOps (cfg_backend cfg) of
        None \<Rightarrow> throw ''received ops requiring pending-context handling, but backend.storePendingOps is not implemented''
      | Some store \<Rightarrow> liftW (store pend)))"

text \<open>The initiator's side of a done marker.\<close>

definition resolveReceived :: "'op OpsBatch \<Rightarrow> (('op, 'w, 'd) Peer, unit) pm" where
  "resolveReceived batch = bnd (gets (getInitiatorSession (ob_filterId batch))) (\<lambda>so. case so of None \<Rightarrow> ret ()
     | Some s \<Rightarrow> whenM (ob_done batch \<and> (\<not> is_awaitingUploadAck s \<or> ob_ops batch = []))
         (modify (updInitiator (ob_filterId batch) (\<lambda>s. s\<lparr>is_receivedOps := resolveD () (is_receivedOps s)\<rparr>))))"

text \<open>Completion signals of a batch, after its ops were handled.\<close>

definition finishBatch :: "('op, 'w, 'd, 'e) PeerConfig \<Rightarrow> transport \<Rightarrow> 'op OpsBatch \<Rightarrow> (('op, 'w, 'd) Peer, unit) pm" where
  "finishBatch cfg t batch =
    (let fid = ob_filterId batch in
     bnd (gets (\<lambda>p. (js_get (responderSessions p) fid, fid \<in> responderAwaitingUploadAcks p))) (\<lambda>(rs, waiting).
     sq (whenM (rs = None \<and> waiting \<and> ob_done batch)
          (sq (modify (\<lambda>p. p\<lparr>responderAwaitingUploadAcks := responderAwaitingUploadAcks p - {fid}\<rparr>))
           (sendDoneOpsBatch cfg t fid)))
     (sq (case rs of None \<Rightarrow> ret ()
          | Some s \<Rightarrow> whenM (ob_done batch)
              (sq (whenM (rs_awaitingIncomingDone s)
                    (sq (putSession fid (s\<lparr>rs_awaitingIncomingDone := False\<rparr>)) (sendDoneOpsBatch cfg t fid)))
               (deleteSession fid)))
     (resolveReceived batch))))"

definition onOpsBatch :: "('op, 'w, 'd, 'e) PeerConfig \<Rightarrow> transport \<Rightarrow> 'op OpsBatch \<Rightarrow> (('op, 'w, 'd) Peer, unit) pm" where
  "onOpsBatch cfg t batch =
     bnd (gets (\<lambda>p. \<lparr>oc_docId = docId_of cfg,
         oc_purpose = (if ob_filterId batch \<in> set (initiatorSubscriptions p) then PSubscribe else PReconcile),
         oc_filterId = ob_filterId batch\<rparr>)) (\<lambda>ctx.
     if (case ob_auth batch of None \<Rightarrow> False | Some auth \<Rightarrow> length auth \<noteq> length (ob_ops batch))
     then throw ''OpsBatch.auth length does not match ops length''
     else
       bnd (verifyBatch cfg batch ctx) (\<lambda>dispositions.
       sq (case (ob_auth batch, authHook sa_onVerifiedOps cfg) of
             (Some (a # as), Some onVerifiedOps) \<Rightarrow> liftW (onVerifiedOps (ob_ops batch) (a # as) ctx)
           | _ \<Rightarrow> ret ())
       (bnd (liftR (classifyOps (ob_ops batch) (ob_auth batch) (or_default dispositions []))) (\<lambda>(pend, allowedOps).
       sq (storePending cfg pend)
       (sq (liftW (sb_applyOps (cfg_backend cfg) allowedOps))
       (sq (whenM (allowedOps \<noteq> []) (notifyLocalUpdate cfg (Some allowedOps)))
       (sq (reprocessPendingOps cfg)
       (finishBatch cfg t batch))))))))"

text \<open>
  Batches of one filter id are chained: a batch starts when the previous one has finished or
  failed.  With handlers that run to completion the queue is empty on entry.
\<close>

definition enqueueOpsBatch :: "('op, 'w, 'd, 'e) PeerConfig \<Rightarrow> transport \<Rightarrow> 'op OpsBatch \<Rightarrow> (('op, 'w, 'd) Peer, unit) pm" where
  "enqueueOpsBatch cfg t batch = onOpsBatch cfg t batch"

section \<open>Dispatch\<close>

fun dispatch :: "('op, 'w, 'd, 'e) PeerConfig \<Rightarrow> transport \<Rightarrow> 'op SyncMessagePayload \<Rightarrow> (('op, 'w, 'd) Peer, unit) pm" where
  "dispatch cfg t (MHello v) = onHello cfg t v"
| "dispatch cfg t (MHelloAck v) = onHelloAck cfg t v"
| "dispatch cfg t (MRibltCodewords v) = onRibltCodewords cfg t v"
| "dispatch cfg t (MRibltStatus v) = onRibltStatus v"
| "dispatch cfg t (MOpsBatch v) = enqueueOpsBatch cfg t v"
| "dispatch cfg t (MSubscribe v) = onSubscribe cfg t v"
| "dispatch cfg t (MSubscribeAck v) = onSubscribeAck v"
| "dispatch cfg t (MUnsubscribe v) = onUnsubscribe v"
| "dispatch cfg t (MError v) = onError v"

definition nonempty :: "string \<Rightarrow> string option" where
  "nonempty s = (if s = [] then None else Some s)"

text \<open>The filter id and subscription id an error about a message is reported under.\<close>

fun errorScope :: "('op, 'w, 'd) Peer \<Rightarrow> 'op SyncMessagePayload \<Rightarrow> string option \<times> string option" where
  "errorScope p (MRibltCodewords v) = (nonempty (rc_filterId v), None)"
| "errorScope p (MRibltStatus v) = (nonempty (st_filterId v), None)"
| "errorScope p (MOpsBatch v) = (nonempty (ob_filterId v),
     if ob_filterId v \<in> set (initiatorSubscriptions p) then nonempty (ob_filterId v) else None)"
| "errorScope p (MSubscribe v) = (None, nonempty (sub_subscriptionId v))"
| "errorScope p (MSubscribeAck v) = (None, nonempty (sack_subscriptionId v))"
| "errorScope p (MUnsubscribe v) = (None, nonempty v)"
| "errorScope p m = (None, None)"

definition reportFailure :: "('op, 'w, 'd, 'e) PeerConfig \<Rightarrow> transport \<Rightarrow> 'op SyncMessagePayload \<Rightarrow> error \<Rightarrow>
    (('op, 'w, 'd) Peer, unit) pm" where
  "reportFailure cfg t pl e = bnd (gets (\<lambda>p. errorScope p pl)) (\<lambda>(fid, sid).
     catch
       (sq (onError \<lparr>se_code = ERROR_CODE_UNSPECIFIED, se_message = e, se_filterId = fid, se_subscriptionId = sid\<rparr>)
        (sendError cfg t ERROR_CODE_UNSPECIFIED e fid sid))
       (\<lambda>_. ret ()))"

definition handleMessage :: "('op, 'w, 'd, 'e) PeerConfig \<Rightarrow> transport \<Rightarrow> 'op SyncMessage \<Rightarrow> (('op, 'w, 'd) Peer, unit) pm" where
  "handleMessage cfg t msg =
    (if sm_docId msg \<noteq> docId_of cfg then ret ()
     else (case sm_payload msg of
         MError err \<Rightarrow> catch (onError err) (\<lambda>_. ret ())
       | pl \<Rightarrow> catch (dispatch cfg t pl) (reportFailure cfg t pl)))"

text \<open>The listener \<^verbatim>\<open>attach\<close> registers: a rejected handler fails every pending session.\<close>

definition attach :: "('op, 'w, 'd, 'e) PeerConfig \<Rightarrow> transport \<Rightarrow> 'op SyncMessage \<Rightarrow> (('op, 'w, 'd) Peer, unit) pm" where
  "attach cfg t msg = catch (handleMessage cfg t msg) (\<lambda>e. modify (failAllPendingSessions e))"

end
