(* ===== verification/Peer_Protocol.thy ===== *)
theory Peer_Protocol
  imports Peer_Handlers
begin

text \<open>
  What single messages do to a peer: a handler failure is contained and settles the sessions it
  concerns, a hello partitions its filters into accepted and rejected ones, a peer without an
  auth capability gets nothing when auth is required, and completion is only signalled after the
  ops of a batch have been applied.
\<close>

section \<open>Containment of failures\<close>

lemma onError_ok: "\<exists>p'. onError err p = (Inr (), p')"
  by (simp add: onError_def sq_eval)

lemma catch_ok: "(\<And>e q. \<exists>p'. h e q = (Inr (), p')) \<Longrightarrow> \<exists>p'. catch m h p = (Inr (), p')"
  by (cases "m p"; cases "fst (m p)") (auto simp: catch_eval)

lemma reportFailure_ok: "\<exists>p'. reportFailure cfg t pl e p = (Inr (), p')"
  unfolding reportFailure_def by (auto simp: bnd_eval split: prod.splits intro!: catch_ok)

lemma handleMessage_ok: "\<exists>p'. handleMessage cfg t msg p = (Inr (), p')"
proof -
  have "\<exists>p'. catch m (\<lambda>_. ret ()) p = (Inr (), p')" for m by (rule catch_ok) simp
  moreover have "\<exists>p'. catch (dispatch cfg t pl) (reportFailure cfg t pl) p = (Inr (), p')" for pl
    by (intro catch_ok reportFailure_ok)
  ultimately show ?thesis unfolding handleMessage_def
    by (cases "sm_payload msg") (simp_all only: SyncMessagePayload.case pm_eval HOL.simp_thms split: if_split, auto)
qed

text \<open>What it means that nothing waits on a session any more.\<close>

definition session_failed :: "string \<Rightarrow> ('op, 'w, 'd) Peer \<Rightarrow> bool" where
  "session_failed i p \<longleftrightarrow> i \<notin> set (initiatorSessions p)
     \<and> (\<forall>s. js_get (initiatorObjects p) i = Some s \<longrightarrow> is_done s \<and> settled (is_ack s)
         \<and> settled (is_terminalStatus s) \<and> settled (is_codewordCreditSignal s) \<and> settled (is_receivedOps s))"

lemma failSession_settles:
  "is_done (failSession e s)" "settled (is_ack (failSession e s))" "settled (is_terminalStatus (failSession e s))"
  "settled (is_codewordCreditSignal (failSession e s))" "settled (is_receivedOps (failSession e s))"
  by (simp_all add: failSession_def)

lemma updInitiator_commute_fields [simp]:
  "initiatorSessions (fold (\<lambda>i. updInitiator i f) ks p) = initiatorSessions p"
  by (induction ks arbitrary: p) simp_all

lemma js_get_fold_fail:
  "js_get (initiatorObjects (fold (\<lambda>i. updInitiator i (failSession e)) ks p)) j =
     (if j \<in> set ks then map_option (\<lambda>s. (failSession e ^^ count_list ks j) s) (js_get (initiatorObjects p) j)
      else js_get (initiatorObjects p) j)"
proof (induction ks arbitrary: p)
  case (Cons k ks)
  then show ?case by (auto simp: option.map_comp comp_def funpow_swap1 count_list_0_iff)
qed simp

lemma failAll_session_failed: "i \<in> set (initiatorSessions p) \<Longrightarrow> session_failed i (failAllSessions e p)"
proof -
  assume i: "i \<in> set (initiatorSessions p)"
  then obtain n where n: "count_list (initiatorSessions p) i = Suc n"
    by (metis count_list_0_iff not0_implies_Suc)
  show ?thesis unfolding session_failed_def failAllSessions_def
    using i n by (auto simp: js_get_fold_fail failSession_settles)
qed

lemma onError_settles_raw:
  assumes "onError err p = (r, p')" and "i \<in> set (initiatorSessions p)"
    and "js_get (initiatorObjects p) i \<noteq> None"
    and "\<not> truthy (se_filterId err) \<or> se_filterId err = Some i"
  shows "session_failed i p'"
proof -
  let ?e = "errorText err"
  define q where "q = (if truthy (se_subscriptionId err) \<and> the (se_subscriptionId err) \<in> set (initiatorSubscriptions p)
          then (updSubscription (the (se_subscriptionId err)) (failSubscription ?e) p)
                 \<lparr>initiatorSubscriptions := filter (\<lambda>k. k \<noteq> the (se_subscriptionId err)) (initiatorSubscriptions p)\<rparr>
          else p)"
  have q: "initiatorSessions q = initiatorSessions p" "initiatorObjects q = initiatorObjects p"
    by (simp_all add: q_def updSubscription_def split: option.splits)
  have p': "p' = (if \<not> truthy (se_filterId err) then (if initiatorSessions q = [] then q else failAllSessions ?e q)
       else (case getInitiatorSession (the (se_filterId err)) q of
           None \<Rightarrow> q
         | Some _ \<Rightarrow> (updInitiator (the (se_filterId err)) (failSession ?e) q)
               \<lparr>initiatorSessions := filter (\<lambda>k. k \<noteq> the (se_filterId err)) (initiatorSessions q)\<rparr>))"
    using assms(1) by (simp only: onError_def sq_eval pm_eval prod.case sum.case q_def prod.inject)
  show ?thesis
  proof (cases "truthy (se_filterId err)")
    case False
    then have "p' = failAllSessions ?e q" using p' assms(2) q by auto
    then show ?thesis using failAll_session_failed assms(2) q by metis
  next
    case True
    then have f: "se_filterId err = Some i" using assms(4) by blast
    obtain s where "getInitiatorSession i q = Some s"
      using assms(2,3) q by (auto simp: getInitiatorSession_def)
    then show ?thesis using p' True f
      by (auto simp: session_failed_def failSession_settles getInitiatorSession_def split: if_splits)
  qed
qed

text \<open>
  An error message from the remote peer ends what it is about: with a filter id, the live
  session of that id; without one, every live session.  A failed session is no longer live and
  every promise a running sync can wait on is settled.
\<close>
theorem onError_settles:
  assumes "onError err p = (r, p')" and "i \<in> set (initiatorSessions p)"
    and "js_get (initiatorObjects p) i \<noteq> None"
    and "\<not> truthy (se_filterId err) \<or> se_filterId err = Some i"
  shows "session_failed i p'"
  using assms by (rule onError_settles_raw)

theorem onError_settles_witness:
  "let s = \<lparr>is_filter = FilterAll, is_filterId = ''f'', is_round = 0, is_ack = Pending, is_terminalStatus = Pending,
         is_codewordCredits = 1, is_codewordCreditSignal = Pending, is_receivedOps = Pending,
         is_awaitingUploadAck = False, is_done = False\<rparr>;
       p = (initPeer [])\<lparr>initiatorObjects := [(''f'', s)], initiatorSessions := [''f'']\<rparr> :: (nat, nat list, unit) Peer
   in session_failed ''f'' (snd (onError \<lparr>se_code = RATE_LIMITED, se_message = ''slow down'',
        se_filterId = None, se_subscriptionId = None\<rparr> p))"
  unfolding Let_def
  by (rule onError_settles [OF prod.collapse [symmetric]]) (simp_all add: js_get_def truthy_def)

section \<open>Hello\<close>

lemma tryM_okE:
  assumes "bnd (tryM m) f p = (Inr y, p')"
  obtains a q where "m p = (a, q)" "f a q = (Inr y, p')"
  using assms by (auto simp: bnd_eval tryM_eval split: prod.splits)

text \<open>What one filter of a hello adds to the answer.\<close>

lemma acceptFilter_acc:
  "acceptFilter cfg hello i fil refs acc p = (Inr acc', p') \<Longrightarrow>
    hp_accepted acc' = hp_accepted acc @ [i] \<and> hp_rejected acc' = hp_rejected acc"
  by (auto simp: acceptFilter_def Let_def bnd_eval sq_eval split: if_splits sum.splits)

lemma helloFilter_acc:
  assumes "helloFilter cfg hello (idx, spec) acc p = (Inr acc', p')"
  obtains (skip) "fs_id spec = []" "acc' = acc"
  | (accept) "fs_id spec \<noteq> []" "hp_accepted acc' = hp_accepted acc @ [fs_id spec]" "hp_rejected acc' = hp_rejected acc"
      "idx < maxHelloFilters cfg" "requireAuthForFilters cfg \<longrightarrow> list_ex isAuthCapability (hello_capabilities hello)"
  | (reject) reason msg where "fs_id spec \<noteq> []" "acc' = rejectFilter (fs_id spec) reason msg acc"
proof -
  note def = assms [unfolded helloFilter_def Let_def prod.case]
  consider "fs_id spec = []" | "fs_id spec \<noteq> []" "idx \<ge> maxHelloFilters cfg"
    | "fs_id spec \<noteq> []" "idx < maxHelloFilters cfg" "requireAuthForFilters cfg \<and> \<not> list_ex isAuthCapability (hello_capabilities hello)"
    | (go) "fs_id spec \<noteq> []" "idx < maxHelloFilters cfg" "\<not> (requireAuthForFilters cfg \<and> \<not> list_ex isAuthCapability (hello_capabilities hello))"
    by linarith
  then show ?thesis
  proof cases
    case go
    then show ?thesis using def that
      by (auto elim!: tryM_okE split: sum.splits dest!: acceptFilter_acc)
  qed (use def that in auto)
qed

text \<open>The answer to the filters of a hello, as a whole.\<close>

lemma helloFilters_acc:
  assumes "fold_m (helloFilter cfg hello) (List.enumerate k specs) acc p = (Inr acc', p')"
  shows "mset (hp_accepted acc') + mset (map rej_id (hp_rejected acc')) =
      mset (hp_accepted acc) + mset (map rej_id (hp_rejected acc)) + mset (filter (\<lambda>i. i \<noteq> []) (map fs_id specs))
    \<and> length (hp_accepted acc') \<le> length (hp_accepted acc) + (maxHelloFilters cfg - k)
    \<and> (requireAuthForFilters cfg \<and> \<not> list_ex isAuthCapability (hello_capabilities hello) \<longrightarrow> hp_accepted acc' = hp_accepted acc)"
  using assms
proof (induction specs arbitrary: k acc p)
  case (Cons spec specs)
  obtain acc1 q where 1: "helloFilter cfg hello (k, spec) acc p = (Inr acc1, q)"
      and 2: "fold_m (helloFilter cfg hello) (List.enumerate (Suc k) specs) acc1 q = (Inr acc', p')"
    using Cons.prems by (auto elim!: bnd_okE)
  show ?case using 1
  proof (cases rule: helloFilter_acc)
    case accept
    then show ?thesis using Cons.IH [OF 2] by auto
  next
    case (reject reason msg)
    then show ?thesis using Cons.IH [OF 2] by (auto simp: rejectFilter_def)
  next
    case skip
    then show ?thesis using Cons.IH [OF 2] by auto
  qed
qed simp

text \<open>Choosing how to serve the filters sends nothing; direct sends are for accepted filters.\<close>

definition quiet :: "('op, 'w, 'd) Peer \<Rightarrow> ('op, 'w, 'd) Peer \<Rightarrow> bool" where
  "quiet p p' \<longleftrightarrow> sent p' = sent p"

interpretation qt: step_closed "quiet :: ('op, 'w, 'd) Peer \<Rightarrow> ('op, 'w, 'd) Peer \<Rightarrow> bool"
  by unfold_locales (simp_all add: quiet_def)

lemma quiet_liftW: "steps quiet (liftW m)"
  by (auto simp: steps_def quiet_def liftW_eval split: prod.splits)

lemma quiet_modify: "(\<And>p. sent (f p) = sent p) \<Longrightarrow> steps quiet (modify f)"
  by (rule qt.steps_modify) (simp add: quiet_def)

lemma quiet_helloFilter: "steps quiet (helloFilter cfg hello ispec acc)"
  unfolding helloFilter_def authorizeHelloFilter_def helloVisibleRefs_def outgoingFlags_def acceptFilter_def Let_def
  by (intro qt.steps_rules quiet_liftW quiet_modify) simp_all

lemma quiet_helloFilters: "steps quiet (fold_m (helloFilter cfg hello) xs acc)"
  by (intro qt.steps_fold_m quiet_helloFilter)

lemma helloFilter_direct:
  assumes "helloFilter cfg hello ispec acc p = (Inr acc', p')" "ds_id ` set (hp_direct acc) \<subseteq> set (hp_accepted acc)"
  shows "ds_id ` set (hp_direct acc') \<subseteq> set (hp_accepted acc')"
proof -
  have acc: "ds_id ` set (hp_direct acc') \<subseteq> set (hp_accepted acc')"
    if "acceptFilter cfg hello i fil refs acc q = (Inr acc', p')" for i fil refs q
    using that assms(2)
    by (auto simp: acceptFilter_def Let_def bnd_eval sq_eval image_subset_iff split: if_splits sum.splits)
  show ?thesis using assms
    by (auto simp: image_subset_iff helloFilter_def Let_def rejectFilter_def elim!: tryM_okE split: prod.splits if_splits sum.splits dest!: acc)
qed

lemma helloFilters_direct:
  "fold_m (helloFilter cfg hello) xs acc p = (Inr acc', p') \<Longrightarrow> ds_id ` set (hp_direct acc) \<subseteq> set (hp_accepted acc) \<Longrightarrow>
    ds_id ` set (hp_direct acc') \<subseteq> set (hp_accepted acc')"
proof (induction xs arbitrary: acc p)
  case (Cons x xs)
  obtain acc1 q where 1: "helloFilter cfg hello x acc p = (Inr acc1, q)"
      and 2: "fold_m (helloFilter cfg hello) xs acc1 q = (Inr acc', p')"
    using Cons.prems(1) by (auto elim!: bnd_okE)
  show ?case by (rule Cons.IH [OF 2 helloFilter_direct [OF 1 Cons.prems(2)]])
qed simp

text \<open>The acknowledgement a hello gets, and the direct sends after it.\<close>

definition hello_answer :: "('op, 'w, 'd, 'e) PeerConfig \<Rightarrow> Hello \<Rightarrow> HelloAck \<Rightarrow> bool" where
  "hello_answer cfg hello ack \<longleftrightarrow>
     mset (ack_acceptedFilters ack) + mset (map rej_id (ack_rejectedFilters ack))
       = mset (filter (\<lambda>i. i \<noteq> []) (map fs_id (hello_filters hello)))
   \<and> length (ack_acceptedFilters ack) \<le> maxHelloFilters cfg"

lemma direct_streams:
  assumes "\<And>d. d \<in> set ds \<Longrightarrow> ds_id d \<in> A"
  shows "steps (emits (\<lambda>tm. \<exists>i \<in> A. stream_msg cfg t i tm))
    (for_each (\<lambda>d. sendOpsBatches cfg t (ds_id d) (ds_opRefs d) None (Some (ds_filter d))) ds)"
proof (rule em.steps_for_each)
  fix d assume "d \<in> set ds"
  then have "list_all (stream_msg cfg t (ds_id d)) ms \<Longrightarrow> list_all (\<lambda>tm. \<exists>i \<in> A. stream_msg cfg t i tm) ms" for ms
    using assms by (auto simp: list_all_iff)
  then show "steps (emits (\<lambda>tm. \<exists>i \<in> A. stream_msg cfg t i tm))
      (sendOpsBatches cfg t (ds_id d) (ds_opRefs d) None (Some (ds_filter d)))"
    using emits_sendOpsBatches [of cfg t "ds_id d" "ds_opRefs d" None "Some (ds_filter d)"]
    unfolding steps_def emits_def by blast
qed

lemma emits_sent: "emits P p p' \<Longrightarrow> \<exists>ms. sent p' = sent p @ ms \<and> list_all P ms"
  by (auto simp: emits_def)

lemma send_okD: "send cfg t pl p = (Inr u, p') \<Longrightarrow> sent p' = sent p @ [(t, mk_msg cfg pl)]"
  by (auto simp: send_def liftW_eval elim!: sq_okE split: prod.splits)

text \<open>
  A hello that is handled without failure is answered by one message: an error if the auth
  layer refused it, otherwise an acknowledgement in which every requested filter with an id
  occurs exactly once, as accepted or as rejected, with at most the configured number of accepted
  ones.  Everything sent after the acknowledgement is an ops batch of an accepted filter.
\<close>
theorem hello_partition:
  assumes "onHello cfg t hello p = (Inr (), p')"
  shows "(\<exists>e. sent p' = sent p @ [(t, mk_msg cfg (MError e))])
    \<or> (\<exists>ack ms. sent p' = sent p @ (t, mk_msg cfg (MHelloAck ack)) # ms \<and> hello_answer cfg hello ack
          \<and> list_all (\<lambda>tm. \<exists>i \<in> set (ack_acceptedFilters ack). stream_msg cfg t i tm) ms)"
proof -
  let ?acc0 = "\<lambda>caps. \<lparr>hp_accepted = [], hp_rejected = [], hp_direct = [], hp_ackCapabilities = caps\<rparr>"
  let ?hook = "case authHook sa_onHello cfg of None \<Rightarrow> ret [] | Some h \<Rightarrow> liftW (h hello (docId_of cfg))"
  obtain p0 where p0: "recordHelloCaps t (hello_capabilities hello) p = (Inr (), p0)" "sent p0 = sent p"
    by (simp add: recordHelloCaps_def)
  have "steps quiet ?hook" by (intro qt.steps_rules quiet_liftW)
  then have hook: "sent q = sent p" if "?hook p0 = (a, q)" for a q
    using that p0(2) by (auto simp: quiet_def dest: stepsD)
  from assms p0(1) obtain a q where a: "?hook p0 = (a, q)"
    and rest: "(case a of Inl e \<Rightarrow> sendError cfg t ERROR_CODE_UNSPECIFIED e None None
     | Inr ackCapabilities \<Rightarrow> answerHello cfg t hello ackCapabilities) q = (Inr (), p')"
    unfolding onHello_def by (auto simp: sq_eval elim!: tryM_okE)
  show ?thesis
  proof (cases a)
    case (Inl e)
    then show ?thesis using rest hook [OF a] by (auto simp: sendError_def dest!: send_okD)
  next
    case (Inr caps)
    obtain ml q1 acc q2 q3 where
      s: "liftW (sb_maxLamport (cfg_backend cfg)) q = (Inr ml, q1)"
        "fold_m (helloFilter cfg hello) (List.enumerate 0 (hello_filters hello)) (?acc0 caps) q1 = (Inr acc, q2)"
        "send cfg t (MHelloAck \<lparr>ack_capabilities = hp_ackCapabilities acc, ack_acceptedFilters = hp_accepted acc,
            ack_rejectedFilters = hp_rejected acc, ack_maxLamport = ml\<rparr>) q2 = (Inr (), q3)"
        "for_each (\<lambda>d. sendOpsBatches cfg t (ds_id d) (ds_opRefs d) None (Some (ds_filter d))) (hp_direct acc) q3 = (Inr (), p')"
      using rest Inr by (auto simp: answerHello_def elim!: bnd_okE sq_okE)
    have "sent q2 = sent p"
      using stepsD [OF quiet_liftW s(1)] stepsD [OF quiet_helloFilters s(2)] hook [OF a] by (simp add: quiet_def)
    have "ds_id ` set (hp_direct acc) \<subseteq> set (hp_accepted acc)" using helloFilters_direct [OF s(2)] by simp
    then have "emits (\<lambda>tm. \<exists>i \<in> set (hp_accepted acc). stream_msg cfg t i tm) q3 p'"
      using s(4) by (intro stepsD [OF direct_streams]) auto
    then obtain ms where ms: "sent p' = sent q3 @ ms"
        "list_all (\<lambda>tm. \<exists>i \<in> set (hp_accepted acc). stream_msg cfg t i tm) ms"
      by (auto dest: emits_sent)
    define ack where "ack = \<lparr>ack_capabilities = hp_ackCapabilities acc, ack_acceptedFilters = hp_accepted acc,
            ack_rejectedFilters = hp_rejected acc, ack_maxLamport = ml\<rparr>"
    have "hello_answer cfg hello ack" using helloFilters_acc [OF s(2)] by (simp add: hello_answer_def ack_def)
    moreover have "sent q3 = sent q2 @ [(t, mk_msg cfg (MHelloAck ack))]" using send_okD [OF s(3)] by (simp add: ack_def)
    moreover have "ack_acceptedFilters ack = hp_accepted acc" by (simp add: ack_def)
    ultimately show ?thesis using ms \<open>sent q2 = sent p\<close>
      by (intro disjI2 exI [of _ ack] exI [of _ ms]) simp
  qed
qed

theorem hello_partition_witness:
  "let hello = \<lparr>hello_capabilities = [], hello_filters = [\<lparr>fs_id = ''f'', fs_filter = FilterAll\<rparr>], hello_maxLamport = 0\<rparr>;
       q = snd (onHello (demo_cfg None 2) 0 hello (initPeer [1]))
   in \<exists>ack ms. sent q = (0, mk_msg (demo_cfg None 2) (MHelloAck ack)) # ms
        \<and> ack_acceptedFilters ack = [''f''] \<and> hello_answer (demo_cfg None 2) hello ack"
proof -
  define hello where "hello = \<lparr>hello_capabilities = [], hello_filters = [\<lparr>fs_id = ''f'', fs_filter = FilterAll\<rparr>], hello_maxLamport = 0\<rparr>"
  define q where "q = snd (onHello (demo_cfg None 2) 0 hello (initPeer [1]))"
  have run: "onHello (demo_cfg None 2) 0 hello (initPeer [1]) = (Inr (), q)
      \<and> (\<exists>ack. sent q = [(0, mk_msg (demo_cfg None 2) (MHelloAck ack))] \<and> ack_acceptedFilters ack = [''f''])"
    unfolding q_def hello_def
    by (simp add: onHello_def answerHello_def recordHelloCaps_def bnd_eval sq_eval tryM_eval demo_cfg_def authHook_def liftW_def
        demo_backend_def helloFilter_def authorizeHelloFilter_def helloVisibleRefs_def acceptFilter_def Let_def
        peerSupportsDirectSendSmallScope_def peerSupportsDirectSendEmptyReceiver_def has_capability_def
        demo_decoder_def send_def mk_msg_def docId_of_def initPeer_def)
  then have r: "onHello (demo_cfg None 2) 0 hello (initPeer [1]) = (Inr (), q)" ..
  obtain ack where ack: "sent q = [(0, mk_msg (demo_cfg None 2) (MHelloAck ack))]" "ack_acceptedFilters ack = [''f'']"
    using run by blast
  moreover have "hello_answer (demo_cfg None 2) hello ack"
    using hello_partition [OF r] ack by (auto simp: mk_msg_def initPeer_def)
  ultimately show ?thesis unfolding Let_def by (fold hello_def, fold q_def) auto
qed

lemma helloFilters_noauth:
  assumes "requireAuthForFilters cfg" "\<not> list_ex isAuthCapability (hello_capabilities hello)"
  shows "\<exists>acc'. fold_m (helloFilter cfg hello) xs acc p = (Inr acc', p)
    \<and> hp_accepted acc' = hp_accepted acc \<and> hp_direct acc' = hp_direct acc"
proof (induction xs arbitrary: acc)
  case (Cons x xs)
  have "\<exists>acc1. helloFilter cfg hello x acc p = (Inr acc1, p) \<and> hp_accepted acc1 = hp_accepted acc \<and> hp_direct acc1 = hp_direct acc"
    using assms by (auto simp: helloFilter_def Let_def rejectFilter_def split: prod.splits)
  then obtain acc1 where "helloFilter cfg hello x acc p = (Inr acc1, p)" "hp_accepted acc1 = hp_accepted acc"
      "hp_direct acc1 = hp_direct acc" by blast
  with Cons.IH [of acc1] show ?case by (auto simp: bnd_eval)
qed simp

text \<open>Nothing a peer could use: no session, no upload slot, no subscription.\<close>

definition no_access :: "('op, 'w, 'd) Peer \<Rightarrow> ('op, 'w, 'd) Peer \<Rightarrow> bool" where
  "no_access p p' \<longleftrightarrow> responderSessions p' = responderSessions p
     \<and> responderAwaitingUploadAcks p' = responderAwaitingUploadAcks p
     \<and> responderSubscriptions p' = responderSubscriptions p \<and> transportHasAuth p' = transportHasAuth p"

interpretation na: step_closed "no_access :: ('op, 'w, 'd) Peer \<Rightarrow> ('op, 'w, 'd) Peer \<Rightarrow> bool"
  by unfold_locales (simp_all add: no_access_def)

lemma emits_facts: "emits P p p' \<Longrightarrow> no_access p p' \<and> (\<exists>ms. sent p' = sent p @ ms \<and> list_all P ms)"
  by (auto simp: emits_def no_access_def)

text \<open>The answers to an unauthenticated peer: an error, or an acknowledgement that accepts nothing.\<close>

fun refusal :: "'op SyncMessagePayload \<Rightarrow> bool" where
  "refusal (MError _) = True"
| "refusal (MHelloAck ack) = (ack_acceptedFilters ack = [])"
| "refusal _ = False"

lemma send_refusal: "refusal pl \<Longrightarrow> steps (emits (\<lambda>(_, m). refusal (sm_payload m))) (send cfg t pl)"
  by (rule emits_send) (simp add: mk_msg_def)

text \<open>
  C12: when auth is required, a hello without an auth capability and a subscribe on a transport
  that never showed one open no session, no upload slot and no subscription, whatever else they
  contain; all the peer gets to see is an error or an acknowledgement that accepts nothing.
\<close>
theorem unauthenticated_peer_gets_nothing:
  assumes "requireAuthForFilters cfg"
    and "\<not> list_ex isAuthCapability (hello_capabilities hello) \<and> onHello cfg t hello p = (r, p')
       \<or> \<not> transportHasAuth p t \<and> onSubscribe cfg t sub p = (r, p')"
  shows "no_access p p' \<and> (\<exists>ms. sent p' = sent p @ ms \<and> list_all (\<lambda>(_, m). refusal (sm_payload m)) ms)"
  using assms(2)
proof
  let ?P = "\<lambda>(_, m). refusal (sm_payload m)"
  have err: "steps (emits ?P) (sendError cfg t c m f s)" for c m f s
    unfolding sendError_def by (rule send_refusal) simp
  {
    assume *: "\<not> list_ex isAuthCapability (hello_capabilities hello) \<and> onHello cfg t hello p = (r, p')"
    then have noauth: "\<not> list_ex isAuthCapability (hello_capabilities hello)" and run: "onHello cfg t hello p = (r, p')"
      by simp_all
    obtain p0 where p0: "recordHelloCaps t (hello_capabilities hello) p = (Inr (), p0)" "no_access p p0" "sent p0 = sent p"
      using noauth by (simp add: recordHelloCaps_def no_access_def)
    have go: "steps (emits ?P) (answerHello cfg t hello caps)" for caps
      unfolding answerHello_def
    proof (intro em.steps_bnd [OF emits_liftW], rule stepsI)
      let ?acc0 = "\<lparr>hp_accepted = [], hp_rejected = [], hp_direct = [], hp_ackCapabilities = caps\<rparr>"
      let ?ack = "\<lambda>acc ml. \<lparr>ack_capabilities = hp_ackCapabilities acc, ack_acceptedFilters = hp_accepted acc,
          ack_rejectedFilters = hp_rejected acc, ack_maxLamport = ml\<rparr>"
      fix ml q r' q'
      assume b: "bnd (fold_m (helloFilter cfg hello) (List.enumerate 0 (hello_filters hello)) ?acc0) (\<lambda>acc.
         sq (send cfg t (MHelloAck (?ack acc ml)))
         (for_each (\<lambda>d. sendOpsBatches cfg t (ds_id d) (ds_opRefs d) None (Some (ds_filter d))) (hp_direct acc))) q = (r', q')"
      obtain acc where acc: "fold_m (helloFilter cfg hello) (List.enumerate 0 (hello_filters hello)) ?acc0 q = (Inr acc, q)"
          "hp_accepted acc = []" "hp_direct acc = []"
        using helloFilters_noauth [OF assms(1) noauth, of "List.enumerate 0 (hello_filters hello)" ?acc0 q]
        by (metis HelloProgress.select_convs(1,3))
      have "steps (emits ?P) (send cfg t (MHelloAck (?ack acc ml)))" using acc(2) by (intro send_refusal) simp
      moreover have "sq (send cfg t (MHelloAck (?ack acc ml))) (ret ()) q = (r', q')"
        using b by (simp only: bnd_eval acc for_each.simps prod.case sum.case)
      ultimately show "emits ?P q q'" by (auto elim!: sq_E dest: stepsD)
    qed
    have "steps (emits ?P) (bnd (tryM (case authHook sa_onHello cfg of None \<Rightarrow> ret []
                 | Some h \<Rightarrow> liftW (h hello (docId_of cfg)))) (\<lambda>a. case a of
       Inl e \<Rightarrow> sendError cfg t ERROR_CODE_UNSPECIFIED e None None
     | Inr ackCapabilities \<Rightarrow> answerHello cfg t hello ackCapabilities))"
      by (intro em.steps_bnd em.steps_case_sum em.steps_tryM em.steps_case_option em.steps_ret emits_liftW err go)
    then have "emits ?P p0 p'" using run p0(1) unfolding onHello_def by (auto simp: sq_eval dest: stepsD)
    then have "no_access p0 p' \<and> (\<exists>ms. sent p' = sent p0 @ ms \<and> list_all ?P ms)" by (rule emits_facts)
    then show "no_access p p' \<and> (\<exists>ms. sent p' = sent p @ ms \<and> list_all ?P ms)"
      using p0(2,3) na.R_trans by metis
  }
  {
    assume "\<not> transportHasAuth p t \<and> onSubscribe cfg t sub p = (r, p')"
    then have "emits ?P p p'" using assms(1) stepsD [OF err]
      by (auto simp: onSubscribe_def bnd_eval em.R_refl split: if_splits)
    then show "no_access p p' \<and> (\<exists>ms. sent p' = sent p @ ms \<and> list_all ?P ms)" by (rule emits_facts)
  }
qed

theorem unauthenticated_peer_gets_nothing_witness:
  "let hello = \<lparr>hello_capabilities = [], hello_filters = [\<lparr>fs_id = ''f'', fs_filter = FilterAll\<rparr>], hello_maxLamport = 0\<rparr>;
       cfg = (demo_cfg None 2)\<lparr>requireAuthForFilters := True\<rparr>;
       q = snd (onHello cfg 0 hello (initPeer [1]))
   in requireAuthForFilters cfg \<and> no_access (initPeer [1]) q \<and> (\<forall>(t, m) \<in> set (sent q). refusal (sm_payload m))"
proof -
  define hello where "hello = \<lparr>hello_capabilities = [], hello_filters = [\<lparr>fs_id = ''f'', fs_filter = FilterAll\<rparr>], hello_maxLamport = 0\<rparr>"
  define cfg where "cfg = (demo_cfg None 2)\<lparr>requireAuthForFilters := True\<rparr>"
  obtain r q where run: "onHello cfg 0 hello (initPeer [1]) = (r, q)" by fastforce
  have "requireAuthForFilters cfg" "\<not> list_ex isAuthCapability (hello_capabilities hello)"
    by (simp_all add: cfg_def hello_def)
  with unauthenticated_peer_gets_nothing [of cfg hello 0 "initPeer [1]" r q] run show ?thesis
    unfolding Let_def by (fold hello_def, fold cfg_def) (auto simp: list_all_iff initPeer_def)
qed

section \<open>Ops batches\<close>

text \<open>What a completion signal touches: the trace, upload slots, sessions, the received-ops promise.\<close>

definition no_signal :: "('op, 'w, 'd) Peer \<Rightarrow> ('op, 'w, 'd) Peer \<Rightarrow> bool" where
  "no_signal p p' \<longleftrightarrow> sent p' = sent p \<and> responderSessions p' = responderSessions p
     \<and> responderAwaitingUploadAcks p' = responderAwaitingUploadAcks p \<and> initiatorObjects p' = initiatorObjects p
     \<and> initiatorSessions p' = initiatorSessions p"

interpretation ns: step_closed "no_signal :: ('op, 'w, 'd) Peer \<Rightarrow> ('op, 'w, 'd) Peer \<Rightarrow> bool"
  by unfold_locales (simp_all add: no_signal_def)

lemma ns_liftW: "steps no_signal (liftW m)"
  by (auto simp: steps_def no_signal_def liftW_eval split: prod.splits)

lemma ns_modify: "(\<And>p. no_signal p (f p)) \<Longrightarrow> steps no_signal (modify f)"
  by (rule ns.steps_modify)

lemma ns_notifyLocalUpdate: "steps no_signal (notifyLocalUpdate cfg ops)"
  unfolding notifyLocalUpdate_def recordPendingPush_def
  by (auto split: option.splits list.splits intro!: ns.steps_rules ns_modify simp: no_signal_def)

lemma ns_verifyBatch: "steps no_signal (verifyBatch cfg batch ctx)"
  and ns_storePending: "steps no_signal (storePending cfg pend)"
  unfolding verifyBatch_def storePending_def by (intro ns.steps_rules ns_liftW)+

lemma ns_reprocess: "steps no_signal (reprocessPendingOps cfg)"
proof -
  have "steps no_signal (reprocessOne verify del cfg x acc)" for verify del x acc
    unfolding reprocessOne_def
    by (auto intro!: ns.steps_rules ns_liftW split: sum.splits option.splits list.splits SyncAuthOpDisposition.splits)
  then have "steps no_signal (reprocessRounds n verify lst del cfg)" for n verify lst del
    by (induction n) (auto intro!: ns.steps_rules ns_liftW ns_notifyLocalUpdate)
  then show ?thesis unfolding reprocessPendingOps_def
    by (intro ns.steps_rules ns_modify) (simp_all add: no_signal_def)
qed

lemma classify_subset: "classifyOps ops auth ds = Inr (pend, allow) \<Longrightarrow> set allow \<subseteq> set ops"
  by (induction ops auth ds arbitrary: pend allow rule: classifyOps.induct)
    (auto simp: bindR_eq_Inr split: option.splits prod.splits)

text \<open>Computations that always fail and signal nothing.\<close>

definition fails_silently :: "(('op, 'w, 'd) Peer, 'a) pm \<Rightarrow> bool" where
  "fails_silently m \<longleftrightarrow> (\<forall>q r q'. m q = (r, q') \<longrightarrow> \<not> is_ok r \<and> no_signal q q')"

lemma fails_bnd:
  assumes "steps no_signal m" "\<And>x q q'. m q = (Inr x, q') \<Longrightarrow> fails_silently (f x)"
  shows "fails_silently (bnd m f)"
  unfolding fails_silently_def
proof (intro allI impI)
  fix q r q' assume "bnd m f q = (r, q')"
  then show "\<not> is_ok r \<and> no_signal q q'"
  proof (cases rule: bnd_E)
    case (ok x s)
    with assms(2) [OF ok(1)] have "\<not> is_ok r" "no_signal s q'" by (auto simp: fails_silently_def)
    with stepsD [OF assms(1) ok(1)] ns.R_trans show ?thesis by blast
  qed (use assms(1) in \<open>auto dest: stepsD\<close>)
qed

lemma fails_sq: "steps no_signal m \<Longrightarrow> fails_silently n \<Longrightarrow> fails_silently (sq m n)"
  unfolding sq_def by (rule fails_bnd)

lemma fails_throw: "fails_silently (throw e)"
  by (simp add: fails_silently_def ns.R_refl)

lemma fails_if: "fails_silently m \<Longrightarrow> fails_silently n \<Longrightarrow> fails_silently (if b then m else n)"
  by simp

lemma fails_case_prod: "(\<And>a b. x = (a, b) \<Longrightarrow> fails_silently (f a b)) \<Longrightarrow> fails_silently (case x of (a, b) \<Rightarrow> f a b)"
  by (cases x) simp

lemma fails_call: "(\<And>w. \<not> is_ok (fst (m w))) \<Longrightarrow> fails_silently (sq (liftW m) n)"
  unfolding fails_silently_def sq_eval liftW_eval
  by (auto split: prod.splits sum.splits simp: no_signal_def) (metis fst_conv is_ok_simps(1))+

text \<open>
  When the backend fails to apply the ops of a batch, handling the batch fails and nothing
  is completed: no done acknowledgement is sent, no upload slot or session is closed and no
  waiting sync is released.
\<close>
theorem no_completion_without_apply:
  assumes "onOpsBatch cfg t batch p = (r, p')"
    and "\<And>ops w. set ops \<subseteq> set (ob_ops batch) \<Longrightarrow> \<not> is_ok (fst (sb_applyOps (cfg_backend cfg) ops w))"
  shows "\<not> is_ok r \<and> no_signal p p'"
proof -
  have hook: "steps no_signal (case (ob_auth batch, authHook sa_onVerifiedOps cfg) of
             (Some (a # as), Some onVerifiedOps) \<Rightarrow> liftW (onVerifiedOps (ob_ops batch) (a # as) ctx)
           | _ \<Rightarrow> ret ())" for ctx
    by (auto split: option.splits list.splits intro: ns.steps_Pair ns.steps_ret ns_liftW)
  have tail: "fails_silently (sq (storePending cfg pend) (sq (liftW (sb_applyOps (cfg_backend cfg) allowed)) k))"
    if "classifyOps (ob_ops batch) (ob_auth batch) ds = Inr (pend, allowed)" for ds pend allowed k
    by (rule fails_sq [OF ns_storePending], rule fails_call, rule assms(2), rule classify_subset [OF that])
  have "fails_silently (onOpsBatch cfg t batch)" unfolding onOpsBatch_def
    by (rule fails_bnd [OF ns.steps_gets], rule fails_if [OF fails_throw], rule fails_bnd [OF ns_verifyBatch],
        rule fails_sq [OF hook], rule fails_bnd [OF ns.steps_liftR], rule fails_case_prod, rule tail) simp
  with assms(1) show ?thesis by (simp add: fails_silently_def)
qed

theorem no_completion_without_apply_witness:
  "let cfg = (demo_cfg None 2)\<lparr>cfg_backend := demo_backend\<lparr>sb_applyOps := (\<lambda>_. throw ''disk full'')\<rparr>\<rparr>;
       batch = \<lparr>ob_filterId = ''f'', ob_ops = [1], ob_auth = None, ob_done = True\<rparr>;
       p = (initPeer [])\<lparr>responderAwaitingUploadAcks := {''f''}\<rparr>
   in no_signal p (snd (onOpsBatch cfg 0 batch p)) \<and> fst (onOpsBatch cfg 0 batch p) = Inl ''disk full''"
proof -
  define cfg where "cfg = (demo_cfg None 2)\<lparr>cfg_backend := demo_backend\<lparr>sb_applyOps := (\<lambda>_. throw ''disk full'')\<rparr>\<rparr>"
  define batch where "batch = \<lparr>ob_filterId = ''f'', ob_ops = [1 :: nat], ob_auth = None, ob_done = True\<rparr>"
  define p where "p = (initPeer [] :: (nat, nat list, demo_decoder_state) Peer)\<lparr>responderAwaitingUploadAcks := {''f''}\<rparr>"
  have "no_signal p (snd (onOpsBatch cfg 0 batch p))"
    using no_completion_without_apply [OF prod.collapse [symmetric], of batch cfg 0 p] by (simp add: cfg_def)
  moreover have "fst (onOpsBatch cfg 0 batch p) = Inl ''disk full''"
    by (simp add: cfg_def batch_def p_def demo_cfg_def onOpsBatch_def bnd_eval sq_eval verifyBatch_def authHook_def
        or_default_def storePending_def liftW_def)
  ultimately show ?thesis unfolding Let_def cfg_def batch_def p_def by simp
qed

text \<open>
  C16: handling a message never throws, so the listener's fallback that fails every pending
  session is not reached; a message for another document changes nothing; and when a handler
  throws, the sessions the message concerns are failed before the error is reported.
\<close>
theorem handleMessage_contained:
  "\<exists>p'. handleMessage cfg t msg p = (Inr (), p') \<and> attach cfg t msg p = (Inr (), p')
     \<and> (sm_docId msg \<noteq> docId_of cfg \<longrightarrow> p' = p)
     \<and> (\<forall>batch e q i. sm_docId msg = docId_of cfg \<longrightarrow> sm_payload msg = MOpsBatch batch \<longrightarrow>
          onOpsBatch cfg t batch p = (Inl e, q) \<longrightarrow> i = ob_filterId batch \<longrightarrow> i \<noteq> [] \<longrightarrow>
          i \<in> set (initiatorSessions q) \<longrightarrow> js_get (initiatorObjects q) i \<noteq> None \<longrightarrow> session_failed i p')"
proof -
  obtain p' where p': "handleMessage cfg t msg p = (Inr (), p')" using handleMessage_ok by blast
  have "session_failed i p'" if A: "sm_docId msg = docId_of cfg" "sm_payload msg = MOpsBatch batch"
      "onOpsBatch cfg t batch p = (Inl e, q)" "i = ob_filterId batch" "i \<noteq> []"
      "i \<in> set (initiatorSessions q)" "js_get (initiatorObjects q) i \<noteq> None" for batch e q i
  proof -
    obtain fid sid where scope: "errorScope q (MOpsBatch batch) = (fid, sid)" "fid = Some i"
      using A by (auto simp: nonempty_def)
    let ?err = "\<lparr>se_code = ERROR_CODE_UNSPECIFIED, se_message = e, se_filterId = fid, se_subscriptionId = sid\<rparr>"
    obtain q1 where q1: "onError ?err q = (Inr (), q1)" using onError_ok by blast
    have "session_failed i q1" using q1 A scope(2) by (intro onError_settles_raw [of ?err q]) auto
    moreover have "emits (\<lambda>_. True) q1 p'"
    proof -
      have "steps (emits (\<lambda>_. True)) (sendError cfg t ERROR_CODE_UNSPECIFIED e fid sid)"
        unfolding sendError_def by (rule emits_send) simp
      moreover have "catch (sq (onError ?err) (sendError cfg t ERROR_CODE_UNSPECIFIED e fid sid)) (\<lambda>_. ret ()) q = (Inr (), p')"
        using p' A scope(1)
        by (simp add: handleMessage_def catch_eval [of "onOpsBatch _ _ _"] enqueueOpsBatch_def reportFailure_def bnd_eval)
      ultimately show ?thesis using q1
        by (auto simp: catch_eval sq_eval split: prod.splits sum.splits dest: stepsD)
    qed
    ultimately show ?thesis by (auto simp: emits_def session_failed_def)
  qed
  then show ?thesis using p' by (auto simp: attach_def catch_eval handleMessage_def)
qed

theorem handleMessage_contained_witness:
  "let cfg = (demo_cfg None 2)\<lparr>cfg_backend := demo_backend\<lparr>sb_applyOps := (\<lambda>_. throw ''disk full'')\<rparr>\<rparr>;
       s = \<lparr>is_filter = FilterAll, is_filterId = ''f'', is_round = 0, is_ack = Pending, is_terminalStatus = Pending,
         is_codewordCredits = 1, is_codewordCreditSignal = Pending, is_receivedOps = Pending,
         is_awaitingUploadAck = False, is_done = False\<rparr>;
       p = (initPeer [])\<lparr>initiatorObjects := [(''f'', s)], initiatorSessions := [''f'']\<rparr>;
       msg = \<lparr>sm_v = 0, sm_docId = ''doc'', sm_payload = MOpsBatch \<lparr>ob_filterId = ''f'', ob_ops = [1], ob_auth = None, ob_done = True\<rparr>\<rparr>
   in session_failed ''f'' (snd (handleMessage cfg 0 msg p))"
proof -
  define cfg where "cfg = (demo_cfg None 2)\<lparr>cfg_backend := demo_backend\<lparr>sb_applyOps := (\<lambda>_. throw ''disk full'')\<rparr>\<rparr>"
  define s where "s = \<lparr>is_filter = FilterAll, is_filterId = ''f'', is_round = 0, is_ack = Pending, is_terminalStatus = Pending,
         is_codewordCredits = 1, is_codewordCreditSignal = Pending, is_receivedOps = Pending,
         is_awaitingUploadAck = False, is_done = False\<rparr>"
  define p where "p = (initPeer [] :: (nat, nat list, demo_decoder_state) Peer)\<lparr>initiatorObjects := [(''f'', s)], initiatorSessions := [''f'']\<rparr>"
  define b where "b = \<lparr>ob_filterId = ''f'', ob_ops = [1 :: nat], ob_auth = None, ob_done = True\<rparr>"
  define msg where "msg = \<lparr>sm_v = 0, sm_docId = ''doc'', sm_payload = MOpsBatch b\<rparr>"
  have r: "onOpsBatch cfg 0 b p = (Inl ''disk full'', p)"
    by (simp add: cfg_def b_def p_def demo_cfg_def onOpsBatch_def bnd_eval sq_eval verifyBatch_def authHook_def
        or_default_def storePending_def liftW_def)
  have "sm_docId msg = docId_of cfg" "sm_payload msg = MOpsBatch b" "ob_filterId b = ''f''"
      "''f'' \<in> set (initiatorSessions p)" "js_get (initiatorObjects p) ''f'' \<noteq> None"
    by (simp_all add: msg_def b_def p_def cfg_def docId_of_def demo_backend_def js_get_def)
  with handleMessage_contained [of cfg 0 msg p] r have "session_failed ''f'' (snd (handleMessage cfg 0 msg p))" by auto
  then show ?thesis unfolding Let_def msg_def b_def p_def s_def cfg_def .
qed

end
