(* ===== verification/Peer_SyncOnce.thy ===== *)
theory Peer_SyncOnce
  imports Peer_Protocol
begin

text \<open>
  The initiator's side: \<^verbatim>\<open>syncOnce\<close> and \<^verbatim>\<open>subscribe\<close> (\<^verbatim>\<open>sync.ts\<close>) as coroutines.  A running
  call is a record with a program counter that says which await it is in; \<open>resume\<close> continues
  it if what it awaits has been settled and otherwise leaves it as it is.  The \<^verbatim>\<open>finally\<close> blocks
  are part of every exit.
\<close>

record SyncOnceOptions =
  so_codewordsPerMessage :: "nat option"
  so_maxCodewords :: "nat option"
  so_maxOpsPerBatch :: "int option"

text \<open>\<open>WaitAck\<close>, the codeword loop, \<open>WaitReceived\<close>, and the two ways to end.\<close>

datatype 'e SyncPc = WaitAck | Streaming 'e nat | WaitReceived | SyncDone | SyncFailed error

record 'e SyncRun =
  sr_transport :: transport
  sr_filter :: Filter
  sr_filterId :: string
  sr_localHadOps :: bool
  sr_opts :: SyncOnceOptions
  sr_pc :: "'e SyncPc"

definition syncEnded :: "'e SyncRun \<Rightarrow> bool" where
  "syncEnded run = (case sr_pc run of SyncDone \<Rightarrow> True | SyncFailed _ \<Rightarrow> True | _ \<Rightarrow> False)"

section \<open>Start\<close>

definition newInitiatorSession :: "Filter \<Rightarrow> string \<Rightarrow> InitiatorSession" where
  "newInitiatorSession fil fid = \<lparr>is_filter = fil, is_filterId = fid, is_round = 0, is_ack = Pending,
     is_terminalStatus = Pending, is_codewordCredits = 1, is_codewordCreditSignal = Pending,
     is_receivedOps = Pending, is_awaitingUploadAck = False, is_done = False\<rparr>"

text \<open>The \<^verbatim>\<open>finally\<close> block.\<close>

definition closeInitiator :: "string \<Rightarrow> ('op, 'w, 'd) Peer \<Rightarrow> ('op, 'w, 'd) Peer" where
  "closeInitiator fid p = p\<lparr>initiatorSessions := filter (\<lambda>k. k \<noteq> fid) (initiatorSessions p)\<rparr>"

text \<open>The outcome of the part of the call inside \<^verbatim>\<open>try\<close>: an end of either kind runs \<^verbatim>\<open>finally\<close>.\<close>

definition settleRun :: "'e SyncRun \<Rightarrow> (('op, 'w, 'd) Peer, 'e SyncPc) pm \<Rightarrow> (('op, 'w, 'd) Peer, 'e SyncRun) pm" where
  "settleRun run m = bnd (tryM m) (\<lambda>r.
     let pc = (case r of Inl e \<Rightarrow> SyncFailed e | Inr pc \<Rightarrow> pc); run' = run\<lparr>sr_pc := pc\<rparr> in
     sq (whenM (syncEnded run') (modify (closeInitiator (sr_filterId run)))) (ret run'))"

definition syncOnce_start :: "('op, 'w, 'd, 'e) PeerConfig \<Rightarrow> transport \<Rightarrow> Filter \<Rightarrow> SyncOnceOptions \<Rightarrow>
    (('op, 'w, 'd) Peer, 'e SyncRun) pm" where
  "syncOnce_start cfg t fil opts =
     bnd (liftW (cfg_randomId cfg ''f'')) (\<lambda>fid.
     bnd (liftW (sb_maxLamport (cfg_backend cfg))) (\<lambda>maxLamport.
     bnd (liftW (sb_listOpRefs (cfg_backend cfg) fil)) (\<lambda>localOpRefs.
     bnd (case authHook sa_helloCapabilities cfg of None \<Rightarrow> ret [] | Some h \<Rightarrow> liftW (h (docId_of cfg))) (\<lambda>baseCaps.
     sq (modify (\<lambda>p. p\<lparr>initiatorObjects := js_set fid (newInitiatorSession fil fid) (initiatorObjects p),
           initiatorSessions := (if fid \<in> set (initiatorSessions p) then initiatorSessions p
             else initiatorSessions p @ [fid])\<rparr>))
     (settleRun \<lparr>sr_transport = t, sr_filter = fil, sr_filterId = fid, sr_localHadOps = (localOpRefs \<noteq> []),
           sr_opts = opts, sr_pc = WaitAck\<rparr>
       (sq (send cfg t (MHello \<lparr>hello_capabilities = buildInitiatorHelloCapabilities baseCaps fid (localOpRefs \<noteq> []),
              hello_filters = [\<lparr>fs_id = fid, fs_filter = fil\<rparr>], hello_maxLamport = maxLamport\<rparr>))
        (ret WaitAck)))))))"

section \<open>After the acknowledgement\<close>

definition reconcileVisibleRefs :: "('op, 'w, 'd, 'e) PeerConfig \<Rightarrow> transport \<Rightarrow> Filter \<Rightarrow> OpRef list \<Rightarrow>
    (('op, 'w, 'd) Peer, OpRef list) pm" where
  "reconcileVisibleRefs cfg t fil opRefs =
    (case (if opRefs = [] then None else authHook sa_filterOutgoingOps cfg) of
       None \<Rightarrow> ret opRefs
     | Some flt \<Rightarrow>
         bnd (gets (peerCapsOf t)) (\<lambda>peerCaps.
         bnd (liftW (sb_getOpsByOpRefs (cfg_backend cfg) opRefs)) (\<lambda>ops.
         bnd (outgoingFlags cfg flt ops FPReconcile fil peerCaps) (\<lambda>allowed.
           ret (pick allowed opRefs)))))"

fun addSymbols :: "'e RibltEncoder16 \<Rightarrow> OpRef list \<Rightarrow> 'e \<Rightarrow> 'e res" where
  "addSymbols enc [] e = Inr e"
| "addSymbols enc (r # rs) e = bindR (re_addSymbol enc r e) (addSymbols enc rs)"

definition afterAck :: "('op, 'w, 'd, 'e) PeerConfig \<Rightarrow> 'e SyncRun \<Rightarrow> HelloAck \<Rightarrow> (('op, 'w, 'd) Peer, 'e SyncPc) pm" where
  "afterAck cfg run ack =
    (let t = sr_transport run; fid = sr_filterId run; fil = sr_filter run in
     if \<not> sr_localHadOps run \<and> peerSelectedDirectSendFilter (ack_capabilities ack) fid then ret WaitReceived
     else
       bnd (liftW (sb_listOpRefs (cfg_backend cfg) fil)) (\<lambda>opRefs0.
       bnd (reconcileVisibleRefs cfg t fil opRefs0) (\<lambda>opRefs.
         if peerSelectedDirectSendEmptyReceiverFilter (ack_capabilities ack) fid then
           sq (modify (updInitiator fid (\<lambda>s. s\<lparr>is_awaitingUploadAck := True\<rparr>)))
           (sq (if opRefs \<noteq> [] then sendOpsBatches cfg t fid opRefs
                  (Some (or_default (so_maxOpsPerBatch (sr_opts run)) (int DIRECT_SEND_EMPTY_RECEIVER_MAX_OPS_PER_BATCH))) (Some fil)
                else sendDoneOpsBatch cfg t fid)
           (ret WaitReceived))
         else bnd (liftR (addSymbols (cfg_encoder cfg) opRefs (re_new (cfg_encoder cfg)))) (\<lambda>enc.
           ret (Streaming enc 0)))))"

section \<open>The codeword loop\<close>

text \<open>\<open>n\<close> codewords of the encoder, and its state after them.\<close>

fun takeCodewords :: "'e RibltEncoder16 \<Rightarrow> nat \<Rightarrow> 'e \<Rightarrow> RibltCodeword list \<times> 'e" where
  "takeCodewords enc 0 e = ([], e)"
| "takeCodewords enc (Suc n) e = (case re_nextCodeword enc e of (c, e') \<Rightarrow>
     case takeCodewords enc n e' of (cs, e'') \<Rightarrow> (c # cs, e''))"

definition ribltMaxCodewords :: "SyncOnceOptions \<Rightarrow> nat" where
  "ribltMaxCodewords opts = or_default (so_maxCodewords opts) 50000"

fun failureName :: "RibltFailureReason \<Rightarrow> string" where
  "failureName RIBLT_FAILURE_REASON_UNSPECIFIED = ''RIBLT_FAILURE_REASON_UNSPECIFIED''"
| "failureName MAX_CODEWORDS_EXCEEDED = ''MAX_CODEWORDS_EXCEEDED''"
| "failureName DECODE_FAILED = ''DECODE_FAILED''"
| "failureName OUT_OF_ORDER = ''OUT_OF_ORDER''"

text \<open>The upload after the loop has ended with a terminal status.\<close>

definition afterStatus :: "('op, 'w, 'd, 'e) PeerConfig \<Rightarrow> 'e SyncRun \<Rightarrow> RibltStatus \<Rightarrow> (('op, 'w, 'd) Peer, 'e SyncPc) pm" where
  "afterStatus cfg run status =
    (let t = sr_transport run; fid = sr_filterId run in
     case st_payload status of
       StatusFailed reason msg \<Rightarrow>
         throw (''riblt: '' @ failureName reason @ (if truthy msg then '': '' @ the msg else []))
     | pl \<Rightarrow>
         let receiver_missing = (case pl of StatusDecoded _ rm _ \<Rightarrow> rm | _ \<Rightarrow> []) in
         sq (if receiver_missing \<noteq> [] then sendOpsBatches cfg t fid receiver_missing (so_maxOpsPerBatch (sr_opts run)) None
             else sendDoneOpsBatch cfg t fid)
         (ret WaitReceived))"

text \<open>One pass through the loop, from the test of its condition; it may find that it has to wait.\<close>

definition streamStep :: "('op, 'w, 'd, 'e) PeerConfig \<Rightarrow> 'e SyncRun \<Rightarrow> InitiatorSession \<Rightarrow> 'e \<Rightarrow> nat \<Rightarrow>
    (('op, 'w, 'd) Peer, 'e SyncPc) pm" where
  "streamStep cfg run s enc nextIndex =
    (let mx = ribltMaxCodewords (sr_opts run); fid = sr_filterId run in
     if \<not> is_done s \<and> nextIndex < mx then
       (if is_codewordCredits s \<le> 0 then ret (Streaming enc nextIndex)
        else
          let n = min (or_default (so_codewordsPerMessage (sr_opts run)) 512) (mx - nextIndex) in
          case takeCodewords (cfg_encoder cfg) n enc of (cs, enc') \<Rightarrow>
          sq (modify (updInitiator fid (\<lambda>s. s\<lparr>is_codewordCredits := is_codewordCredits s - 1\<rparr>)))
          (sq (send cfg (sr_transport run) (MRibltCodewords \<lparr>rc_filterId = fid, rc_round = 0,
                 rc_startIndex = nextIndex, rc_codewords = cs\<rparr>))
          (ret (Streaming enc' (nextIndex + n)))))
     else if \<not> is_done s then throw ''riblt: max codewords exceeded''
     else (case is_terminalStatus s of
         Pending \<Rightarrow> ret (Streaming enc nextIndex)
       | Rejected e \<Rightarrow> throw e
       | Resolved status \<Rightarrow> afterStatus cfg run status))"

definition resumeBody :: "('op, 'w, 'd, 'e) PeerConfig \<Rightarrow> 'e SyncRun \<Rightarrow> InitiatorSession \<Rightarrow> (('op, 'w, 'd) Peer, 'e SyncPc) pm" where
  "resumeBody cfg run s =
    (case sr_pc run of
       WaitAck \<Rightarrow> (case is_ack s of Pending \<Rightarrow> ret WaitAck | Rejected e \<Rightarrow> throw e | Resolved ack \<Rightarrow> afterAck cfg run ack)
     | Streaming enc nextIndex \<Rightarrow> streamStep cfg run s enc nextIndex
     | WaitReceived \<Rightarrow> (case is_receivedOps s of Pending \<Rightarrow> ret WaitReceived | Rejected e \<Rightarrow> throw e | Resolved _ \<Rightarrow> ret SyncDone)
     | pc \<Rightarrow> ret pc)"

definition syncOnce_resume :: "('op, 'w, 'd, 'e) PeerConfig \<Rightarrow> 'e SyncRun \<Rightarrow> (('op, 'w, 'd) Peer, 'e SyncRun) pm" where
  "syncOnce_resume cfg run =
    (if syncEnded run then ret run
     else bnd (gets (\<lambda>p. js_get (initiatorObjects p) (sr_filterId run))) (\<lambda>so. case so of
       None \<Rightarrow> ret run
     | Some s \<Rightarrow> settleRun run (resumeBody cfg run s)))"

section \<open>Subscribe\<close>

record SyncSubscribeOptions =
  ss_sync :: SyncOnceOptions
  ss_immediate :: "bool option"
  ss_intervalMs :: "int option"

text \<open>
  \<open>SubAck\<close>: waiting for the acknowledgement; \<open>SubSync\<close>: a sync is running; \<open>SubLive\<close>: idle until
  stopped or failed; \<open>SubSleep\<close>: waiting for the next interval.
\<close>

datatype 'e SubPc = SubAck | SubSync "'e SyncRun" | SubLive | SubSleep | SubClosed | SubFailed error

record 'e SubRun =
  su_id :: string
  su_transport :: transport
  su_filter :: Filter
  su_opts :: SyncSubscribeOptions
  su_aborted :: bool
  su_sent :: bool
  su_ready :: "unit Deferred"
  su_pc :: "'e SubPc"

definition subEnded :: "'e SubRun \<Rightarrow> bool" where
  "subEnded run = (case su_pc run of SubClosed \<Rightarrow> True | SubFailed _ \<Rightarrow> True | _ \<Rightarrow> False)"

text \<open>The end of the body: \<^verbatim>\<open>catch\<close> for an error, then \<^verbatim>\<open>finally\<close>.\<close>

definition closeSubscription :: "('op, 'w, 'd, 'e) PeerConfig \<Rightarrow> 'e SubRun \<Rightarrow> error option \<Rightarrow>
    (('op, 'w, 'd) Peer, 'e SubRun) pm" where
  "closeSubscription cfg run failure =
    (let ready1 = (case failure of None \<Rightarrow> su_ready run | Some e \<Rightarrow> rejectD e (su_ready run));
         run' = run\<lparr>su_ready := resolveD () ready1, su_pc := (case failure of None \<Rightarrow> SubClosed | Some e \<Rightarrow> SubFailed e)\<rparr>
     in sq (modify (\<lambda>p. p\<lparr>initiatorSubscriptions := filter (\<lambda>k. k \<noteq> su_id run) (initiatorSubscriptions p)\<rparr>))
        (sq (whenM (su_sent run) (catch (send cfg (su_transport run) (MUnsubscribe (su_id run))) (\<lambda>_. ret ())))
        (ret run')))"

text \<open>A step of the body; an exception leaves through \<open>closeSubscription\<close>.\<close>

definition guardSub :: "('op, 'w, 'd, 'e) PeerConfig \<Rightarrow> 'e SubRun \<Rightarrow> (('op, 'w, 'd) Peer, 'e SubRun) pm \<Rightarrow>
    (('op, 'w, 'd) Peer, 'e SubRun) pm" where
  "guardSub cfg run m = catch m (\<lambda>e. closeSubscription cfg run (Some e))"

definition subscribe :: "('op, 'w, 'd, 'e) PeerConfig \<Rightarrow> transport \<Rightarrow> Filter \<Rightarrow> SyncSubscribeOptions \<Rightarrow> bool \<Rightarrow>
    (('op, 'w, 'd) Peer, 'e SubRun) pm" where
  "subscribe cfg t fil opts aborted =
     bnd (liftW (cfg_randomId cfg ''sub'')) (\<lambda>sid.
     sq (modify (\<lambda>p. p\<lparr>subscriptionObjects := js_set sid \<lparr>isub_ack = Pending, isub_failed = Pending\<rparr> (subscriptionObjects p),
           initiatorSubscriptions := (if sid \<in> set (initiatorSubscriptions p) then initiatorSubscriptions p
             else initiatorSubscriptions p @ [sid])\<rparr>))
     (let run = \<lparr>su_id = sid, su_transport = t, su_filter = fil, su_opts = opts, su_aborted = aborted,
           su_sent = False, su_ready = Pending, su_pc = SubAck\<rparr> in
      if aborted then closeSubscription cfg run None
      else guardSub cfg run
        (sq (case authHook sa_helloCapabilities cfg of None \<Rightarrow> ret ()
             | Some _ \<Rightarrow> bnd (refreshHelloCapabilities cfg t True False) (\<lambda>_. ret ()))
        (sq (send cfg t (MSubscribe \<lparr>sub_subscriptionId = sid, sub_filter = fil\<rparr>))
        (ret (run\<lparr>su_sent := True\<rparr>))))))"

text \<open>A sync for the subscription; when it has ended the subscription goes on or fails.\<close>

definition startSubSync :: "('op, 'w, 'd, 'e) PeerConfig \<Rightarrow> 'e SubRun \<Rightarrow> (('op, 'w, 'd) Peer, 'e SubRun) pm" where
  "startSubSync cfg run = bnd (syncOnce_start cfg (su_transport run) (su_filter run) (ss_sync (su_opts run))) (\<lambda>r.
     ret (run\<lparr>su_pc := SubSync r\<rparr>))"

definition enterLoop :: "'e SubRun \<Rightarrow> 'e SubRun" where
  "enterLoop run = run\<lparr>su_ready := resolveD () (su_ready run),
     su_pc := (if or_default (ss_intervalMs (su_opts run)) 0 > 0 then SubSleep else SubLive)\<rparr>"

definition subscribe_resume :: "('op, 'w, 'd, 'e) PeerConfig \<Rightarrow> 'e SubRun \<Rightarrow> bool \<Rightarrow> (('op, 'w, 'd) Peer, 'e SubRun) pm" where
  "subscribe_resume cfg run timerFired =
     bnd (gets (\<lambda>p. js_get (subscriptionObjects p) (su_id run))) (\<lambda>so.
     let failed = (case so of None \<Rightarrow> Pending | Some s \<Rightarrow> isub_failed s);
         acked = (case so of None \<Rightarrow> Pending | Some s \<Rightarrow> isub_ack s)
     in case su_pc run of
       SubAck \<Rightarrow>
         (case (acked, failed) of
            (Rejected e, _) \<Rightarrow> closeSubscription cfg run (Some e)
          | (Resolved _, _) \<Rightarrow>
              if su_aborted run then closeSubscription cfg run None
              else if or_default (ss_immediate (su_opts run)) True then guardSub cfg run (startSubSync cfg run)
              else ret (enterLoop run)
          | (Pending, Rejected e) \<Rightarrow> closeSubscription cfg run (Some e)
          | (Pending, _) \<Rightarrow> if su_aborted run then closeSubscription cfg run None else ret run)
     | SubSync r \<Rightarrow>
         bnd (syncOnce_resume cfg r) (\<lambda>r'. case sr_pc r' of
           SyncDone \<Rightarrow> ret (enterLoop run)
         | SyncFailed e \<Rightarrow> closeSubscription cfg run (Some e)
         | _ \<Rightarrow> ret (run\<lparr>su_pc := SubSync r'\<rparr>))
     | SubLive \<Rightarrow>
         (case failed of Rejected e \<Rightarrow> closeSubscription cfg run (Some e)
          | _ \<Rightarrow> if su_aborted run then closeSubscription cfg run None else ret run)
     | SubSleep \<Rightarrow>
         if su_aborted run then closeSubscription cfg run None
         else if timerFired then guardSub cfg run (startSubSync cfg run)
         else ret run
     | _ \<Rightarrow> ret run)"

definition stopSubscription :: "'e SubRun \<Rightarrow> 'e SubRun" where
  "stopSubscription run = run\<lparr>su_aborted := True\<rparr>"

section \<open>Facts about a running sync\<close>

lemma settleRun_cases:
  obtains run' p' where "settleRun run m p = (Inr run', p')" "sr_filterId run' = sr_filterId run"
    "(\<exists>e q. m p = (Inl e, q) \<and> sr_pc run' = SyncFailed e \<and> p' = closeInitiator (sr_filterId run) q)
     \<or> (\<exists>pc q. m p = (Inr pc, q) \<and> sr_pc run' = pc \<and> p' = (if syncEnded run' then closeInitiator (sr_filterId run) q else q))"
proof (cases "m p")
  case (Pair r q)
  define run' where "run' = run\<lparr>sr_pc := (case r of Inl e \<Rightarrow> SyncFailed e | Inr pc \<Rightarrow> pc)\<rparr>"
  have "settleRun run m p = (Inr run', if syncEnded run' then closeInitiator (sr_filterId run) q else q)"
    using Pair by (simp add: settleRun_def bnd_eval sq_eval tryM_eval run'_def Let_def whenM_def)
  then show ?thesis
  proof (rule that)
    show "sr_filterId run' = sr_filterId run" by (simp add: run'_def)
    show "(\<exists>e q'. m p = (Inl e, q') \<and> sr_pc run' = SyncFailed e
          \<and> (if syncEnded run' then closeInitiator (sr_filterId run) q else q) = closeInitiator (sr_filterId run) q')
     \<or> (\<exists>pc q'. m p = (Inr pc, q') \<and> sr_pc run' = pc \<and> (if syncEnded run' then closeInitiator (sr_filterId run) q else q)
          = (if syncEnded run' then closeInitiator (sr_filterId run) q' else q'))"
      using Pair by (cases r) (simp_all add: run'_def syncEnded_def)
  qed
qed

lemma closeInitiator_gone [simp]: "fid \<notin> set (initiatorSessions (closeInitiator fid p))"
  by (simp add: closeInitiator_def)

text \<open>What a step of a running sync leaves alone: whether its session has failed.\<close>

definition keeps_failure :: "string \<Rightarrow> ('op, 'w, 'd) Peer \<Rightarrow> ('op, 'w, 'd) Peer \<Rightarrow> bool" where
  "keeps_failure fid p p' \<longleftrightarrow> (session_failed fid p \<and> js_get (initiatorObjects p) fid \<noteq> None \<longrightarrow>
     session_failed fid p' \<and> js_get (initiatorObjects p') fid \<noteq> None)"

interpretation kf: step_closed "keeps_failure fid :: ('op, 'w, 'd) Peer \<Rightarrow> ('op, 'w, 'd) Peer \<Rightarrow> bool" for fid
  by unfold_locales (auto simp: keeps_failure_def)

lemma kf_emits: "steps (emits P) m \<Longrightarrow> steps (keeps_failure fid) m"
  unfolding steps_def keeps_failure_def session_failed_def emits_def by fastforce

lemma kf_upd:
  assumes "\<And>s. is_done (f s) = is_done s" "\<And>s. is_ack (f s) = is_ack s" "\<And>s. is_terminalStatus (f s) = is_terminalStatus s"
    "\<And>s. is_codewordCreditSignal (f s) = is_codewordCreditSignal s" "\<And>s. is_receivedOps (f s) = is_receivedOps s"
  shows "steps (keeps_failure fid) (modify (updInitiator fid f))"
  by (rule kf.steps_modify) (auto simp: keeps_failure_def session_failed_def assms)

lemma kf_close: "keeps_failure fid p (closeInitiator fid p)"
  by (simp add: keeps_failure_def session_failed_def closeInitiator_def)

lemmas kf_rules = kf.steps_rules kf_emits [OF emits_liftW] kf_emits [OF emits_sendOpsBatches]
  kf_emits [OF emits_sendDone] kf_emits [OF emits_outgoingFlags]
  kf_emits [OF emits_send [where P = "\<lambda>_. True", OF TrueI]]

lemma kf_afterAck: "steps (keeps_failure (sr_filterId run)) (afterAck cfg run ack)"
  unfolding afterAck_def reconcileVisibleRefs_def Let_def
  by (intro kf_rules kf_upd) simp_all

lemma kf_afterStatus: "steps (keeps_failure (sr_filterId run)) (afterStatus cfg run status)"
  unfolding afterStatus_def Let_def
  by (cases "st_payload status") (auto intro!: kf_rules)

text \<open>Progress of a sync whose session has failed: a step further, or an end.\<close>

fun pc_rank :: "'e SyncPc \<Rightarrow> nat" where
  "pc_rank WaitAck = 3"
| "pc_rank (Streaming _ _) = 2"
| "pc_rank WaitReceived = 1"
| "pc_rank _ = 0"

lemma syncEnded_rank: "syncEnded run \<longleftrightarrow> pc_rank (sr_pc run) = 0"
  by (cases "sr_pc run") (simp_all add: syncEnded_def)

lemma afterAck_rank: "afterAck cfg run ack p = (Inr pc, p') \<Longrightarrow> pc_rank pc < 3"
  by (auto simp: afterAck_def Let_def elim!: bnd_okE sq_okE split: if_splits)

lemma afterStatus_rank: "afterStatus cfg run status p = (Inr pc, p') \<Longrightarrow> pc_rank pc < 2"
  by (auto simp: afterStatus_def Let_def elim!: sq_okE split: RibltStatusPayload.splits)

lemma resumeBody_failed:
  assumes "resumeBody cfg run s p = (Inr pc, p')" "\<not> syncEnded run" "is_done s" "settled (is_ack s)"
    "settled (is_terminalStatus s)" "settled (is_receivedOps s)"
  shows "pc_rank pc < pc_rank (sr_pc run)"
proof (cases "sr_pc run")
  case WaitAck
  with assms show ?thesis
    by (cases "is_ack s") (auto simp: resumeBody_def dest: afterAck_rank)
next
  case (Streaming enc idx)
  with assms show ?thesis
    by (cases "is_terminalStatus s") (auto simp: resumeBody_def streamStep_def Let_def dest: afterStatus_rank)
next
  case WaitReceived
  with assms show ?thesis by (cases "is_receivedOps s") (auto simp: resumeBody_def)
qed (use assms in \<open>simp_all add: syncEnded_def\<close>)

lemma kf_resumeBody: "is_done s \<Longrightarrow> steps (keeps_failure (sr_filterId run)) (resumeBody cfg run s)"
  unfolding resumeBody_def streamStep_def Let_def
  by (auto split: SyncPc.splits Deferred.splits intro!: kf_rules kf_afterAck kf_afterStatus)

lemma resume_failed:
  assumes "session_failed (sr_filterId run) p" "js_get (initiatorObjects p) (sr_filterId run) \<noteq> None" "\<not> syncEnded run"
  obtains run' p' where "syncOnce_resume cfg run p = (Inr run', p')" "pc_rank (sr_pc run') < pc_rank (sr_pc run)"
    "sr_filterId run' = sr_filterId run" "session_failed (sr_filterId run) p'" "js_get (initiatorObjects p') (sr_filterId run) \<noteq> None"
proof -
  obtain s where s: "js_get (initiatorObjects p) (sr_filterId run) = Some s" using assms(2) by blast
  have f: "is_done s" "settled (is_ack s)" "settled (is_terminalStatus s)" "settled (is_receivedOps s)"
    using assms(1) s by (auto simp: session_failed_def)
  obtain run' p' where r: "settleRun run (resumeBody cfg run s) p = (Inr run', p')" "sr_filterId run' = sr_filterId run"
    "(\<exists>e q. resumeBody cfg run s p = (Inl e, q) \<and> sr_pc run' = SyncFailed e \<and> p' = closeInitiator (sr_filterId run) q)
     \<or> (\<exists>pc q. resumeBody cfg run s p = (Inr pc, q) \<and> sr_pc run' = pc \<and> p' = (if syncEnded run' then closeInitiator (sr_filterId run) q else q))"
    by (rule settleRun_cases)
  have run: "syncOnce_resume cfg run p = (Inr run', p')" using r(1) s assms(3) by (simp add: syncOnce_resume_def bnd_eval)
  have rank: "pc_rank (sr_pc run') < pc_rank (sr_pc run)"
    using r(3) resumeBody_failed [OF _ assms(3) f] assms(3) by (auto simp: syncEnded_rank)
  have "keeps_failure (sr_filterId run) p q" if "resumeBody cfg run s p = (x, q)" for x q
    using stepsD [OF kf_resumeBody [OF f(1)] that] .
  then have "keeps_failure (sr_filterId run) p p'"
    using r(3) by (auto split: if_splits intro: kf.R_trans [OF _ kf_close])
  then have "session_failed (sr_filterId run) p'" "js_get (initiatorObjects p') (sr_filterId run) \<noteq> None"
    using assms(1,2) by (auto simp: keeps_failure_def)
  with run rank r(2) show ?thesis by (rule that)
qed

fun resumeN :: "nat \<Rightarrow> ('op, 'w, 'd, 'e) PeerConfig \<Rightarrow> 'e SyncRun \<Rightarrow> (('op, 'w, 'd) Peer, 'e SyncRun) pm" where
  "resumeN 0 cfg run = ret run"
| "resumeN (Suc n) cfg run = bnd (syncOnce_resume cfg run) (resumeN n cfg)"

lemma resumeN_failed:
  assumes "session_failed (sr_filterId run) p" "js_get (initiatorObjects p) (sr_filterId run) \<noteq> None" "pc_rank (sr_pc run) \<le> n"
  shows "\<exists>run' p'. resumeN n cfg run p = (Inr run', p') \<and> syncEnded run'"
  using assms
proof (induction n arbitrary: run p)
  case (Suc n)
  show ?case
  proof (cases "syncEnded run")
    case True
    then have "resumeN (Suc n) cfg run p = resumeN n cfg run p" "pc_rank (sr_pc run) \<le> n"
      by (simp_all add: syncOnce_resume_def bnd_eval syncEnded_rank)
    then show ?thesis using Suc.IH Suc.prems by presburger
  next
    case False
    obtain run' p' where "syncOnce_resume cfg run p = (Inr run', p')" "pc_rank (sr_pc run') < pc_rank (sr_pc run)"
      "sr_filterId run' = sr_filterId run" "session_failed (sr_filterId run) p'" "js_get (initiatorObjects p') (sr_filterId run) \<noteq> None"
      using resume_failed [OF Suc.prems(1,2) False] .
    with Suc.IH [of run' p'] Suc.prems(3) show ?thesis by (simp add: bnd_eval)
  qed
qed (auto simp: syncEnded_rank)

section \<open>Properties\<close>

text \<open>
  C18: a running sync whose session has been failed (by a remote error, or by the listener) ends
  within three continuations, wherever it was waiting; it never hangs.
\<close>
theorem failed_sync_ends:
  assumes "session_failed (sr_filterId run) p" and "js_get (initiatorObjects p) (sr_filterId run) \<noteq> None"
  shows "\<exists>run' p'. resumeN 3 cfg run p = (Inr run', p') \<and> syncEnded run'"
proof -
  have "pc_rank (sr_pc run) \<le> 3" by (cases "sr_pc run") simp_all
  with assms show ?thesis by (rule resumeN_failed)
qed

theorem failed_sync_ends_witness:
  "let s = failSession ''gone'' (newInitiatorSession FilterAll ''f'');
       p = (initPeer [])\<lparr>initiatorObjects := [(''f'', s)]\<rparr>;
       run = \<lparr>sr_transport = 0, sr_filter = FilterAll, sr_filterId = ''f'', sr_localHadOps = True,
         sr_opts = \<lparr>so_codewordsPerMessage = None, so_maxCodewords = None, so_maxOpsPerBatch = None\<rparr>, sr_pc = WaitAck\<rparr>
   in session_failed ''f'' p \<and> (\<exists>run' p'. resumeN 3 (demo_cfg None 2) run p = (Inr run', p') \<and> syncEnded run')"
proof -
  define s where "s = failSession ''gone'' (newInitiatorSession FilterAll ''f'')"
  define p where "p = (initPeer [] :: (nat, nat list, demo_decoder_state) Peer)\<lparr>initiatorObjects := [(''f'', s)]\<rparr>"
  define run where "run = \<lparr>sr_transport = 0, sr_filter = FilterAll, sr_filterId = ''f'', sr_localHadOps = True,
         sr_opts = \<lparr>so_codewordsPerMessage = None, so_maxCodewords = None, so_maxOpsPerBatch = None\<rparr>, sr_pc = WaitAck :: OpRef list SyncPc\<rparr>"
  have f: "session_failed ''f'' p" "js_get (initiatorObjects p) ''f'' \<noteq> None"
    by (simp_all add: p_def s_def session_failed_def initPeer_def js_get_def failSession_settles)
  then show ?thesis using failed_sync_ends [of run p "demo_cfg None 2"] unfolding Let_def p_def s_def run_def by simp
qed

text \<open>
  Continuing a sync never throws, and when it has ended, normally or with an error, its
  session is no longer registered (the \<^verbatim>\<open>finally\<close> block has run), so that later messages for
  it are ignored.
\<close>
theorem ended_sync_is_unregistered:
  assumes "\<not> syncEnded run" and "syncOnce_resume cfg run p = (r, p')"
  shows "\<exists>run'. r = Inr run' \<and> sr_filterId run' = sr_filterId run
    \<and> (syncEnded run' \<longrightarrow> getInitiatorSession (sr_filterId run) p' = None
         \<and> (\<forall>status. st_filterId status = sr_filterId run \<longrightarrow> onRibltStatus status p' = (Inr (), p')))"
proof (cases "js_get (initiatorObjects p) (sr_filterId run)")
  case None
  then have "r = Inr run" using assms by (simp add: syncOnce_resume_def bnd_eval)
  then show ?thesis using assms(1) by simp
next
  case (Some s)
  obtain run' p1 where r: "settleRun run (resumeBody cfg run s) p = (Inr run', p1)" "sr_filterId run' = sr_filterId run"
    "(\<exists>e q. resumeBody cfg run s p = (Inl e, q) \<and> sr_pc run' = SyncFailed e \<and> p1 = closeInitiator (sr_filterId run) q)
     \<or> (\<exists>pc q. resumeBody cfg run s p = (Inr pc, q) \<and> sr_pc run' = pc \<and> p1 = (if syncEnded run' then closeInitiator (sr_filterId run) q else q))"
    by (rule settleRun_cases)
  have "r = Inr run'" "p' = p1" using assms Some r(1) by (simp_all add: syncOnce_resume_def bnd_eval)
  moreover have "sr_filterId run \<notin> set (initiatorSessions p1)" if "syncEnded run'" using r(3) that by auto
  ultimately show ?thesis using r(2)
    by (auto simp: getInitiatorSession_def onRibltStatus_def bnd_eval)
qed

theorem ended_sync_is_unregistered_witness:
  "let s = (newInitiatorSession FilterAll ''f'')\<lparr>is_receivedOps := Resolved ()\<rparr>;
       p = (initPeer [])\<lparr>initiatorObjects := [(''f'', s)], initiatorSessions := [''f'']\<rparr>;
       run = \<lparr>sr_transport = 0, sr_filter = FilterAll, sr_filterId = ''f'', sr_localHadOps = True,
         sr_opts = \<lparr>so_codewordsPerMessage = None, so_maxCodewords = None, so_maxOpsPerBatch = None\<rparr>, sr_pc = WaitReceived\<rparr>
   in getInitiatorSession ''f'' (snd (syncOnce_resume (demo_cfg None 2) run p)) = None"
proof -
  define s where "s = (newInitiatorSession FilterAll ''f'')\<lparr>is_receivedOps := Resolved ()\<rparr>"
  define p where "p = (initPeer [] :: (nat, nat list, demo_decoder_state) Peer)\<lparr>initiatorObjects := [(''f'', s)], initiatorSessions := [''f'']\<rparr>"
  define run where "run = \<lparr>sr_transport = 0, sr_filter = FilterAll, sr_filterId = ''f'', sr_localHadOps = True,
         sr_opts = \<lparr>so_codewordsPerMessage = None, so_maxCodewords = None, so_maxOpsPerBatch = None\<rparr>, sr_pc = WaitReceived :: OpRef list SyncPc\<rparr>"
  obtain r q where rq: "syncOnce_resume (demo_cfg None 2) run p = (r, q)" by fastforce
  have e: "\<not> syncEnded run" "r = Inr (run\<lparr>sr_pc := SyncDone\<rparr>)"
    using rq by (auto simp: syncEnded_def run_def p_def s_def syncOnce_resume_def bnd_eval settleRun_def resumeBody_def
        sq_eval tryM_eval js_get_def)
  then have "getInitiatorSession ''f'' q = None"
    using ended_sync_is_unregistered [OF e(1) rq] by (simp add: syncEnded_def run_def)
  then show ?thesis using rq unfolding Let_def p_def s_def run_def by simp
qed

end
