(* ===== verification/Protobuf.thy ===== *)
theory Protobuf
  imports Sync_Types
begin

text \<open>
  The wire codec, \<^verbatim>\<open>packages/sync/protocol/src/protobuf.ts\<close>: conversion between sync messages
  and the messages of the protobuf schema (\<^verbatim>\<open>docs/sync/v0/*.proto\<close>), with every check of the
  decoder.  A message-typed field of the schema, or a \<^verbatim>\<open>oneof\<close>, may be absent (\<open>None\<close>); a scalar
  field always has a value.  A message whose only field is \<^verbatim>\<open>bytes\<close> is its bytes.  The binary
  format itself (\<^verbatim>\<open>toBinary\<close>, \<^verbatim>\<open>fromBinary\<close> of \<^verbatim>\<open>@bufbuild/protobuf\<close>) is a parameter.
\<close>

section \<open>Schema messages\<close>

datatype ProtoFilter = PFilterAll | PFilterChildren "bytes option"

record ProtoFilterSpec =
  pfs_id :: string
  pfs_filter :: "ProtoFilter option option"

record ProtoHello =
  ph_capabilities :: "Capability list"
  ph_filters :: "ProtoFilterSpec list"
  ph_maxLamport :: nat

record ProtoRejectedFilter =
  prej_id :: string
  prej_reason :: ErrorCode
  prej_message :: string

record ProtoHelloAck =
  pa_capabilities :: "Capability list"
  pa_acceptedFilters :: "string list"
  pa_rejectedFilters :: "ProtoRejectedFilter list"
  pa_maxLamport :: nat

record ProtoOperationId =
  poid_replica :: "bytes option"
  poid_counter :: nat

record ProtoOperationMetadata =
  pom_id :: "ProtoOperationId option"
  pom_lamport :: nat
  pom_knownState :: bytes

datatype ProtoPayloadValue = PClear | PBytes bytes

datatype ProtoOperationKind =
    PInsert "bytes option" "bytes option" bytes "bytes option"
  | PMove "bytes option" "bytes option" bytes
  | PDelete "bytes option"
  | PTombstone "bytes option"
  | PPayload "bytes option" "ProtoPayloadValue option"

record ProtoOperation =
  pop_meta :: "ProtoOperationMetadata option"
  pop_kind :: "ProtoOperationKind option"

record ProtoOpAuth =
  poa_sig :: bytes
  poa_proofRef :: bytes

record ProtoOpsBatch =
  pob_filterId :: string
  pob_ops :: "ProtoOperation list"
  pob_auth :: "ProtoOpAuth list"
  pob_done :: bool

record ProtoSubscribe =
  psub_subscriptionId :: string
  psub_filter :: "ProtoFilter option option"

datatype ProtoStatusPayload =
    PMore nat nat
  | PDecoded "OpRef list" "OpRef list" nat
  | PFailed RibltFailureReason string

record ProtoRibltStatus =
  pst_filterId :: string
  pst_round :: nat
  pst_payload :: "ProtoStatusPayload option"

record ProtoSyncError =
  pse_code :: ErrorCode
  pse_message :: string
  pse_filterId :: string
  pse_subscriptionId :: string

datatype ProtoPayload =
    PHello ProtoHello
  | PHelloAck ProtoHelloAck
  | PRibltCodewords RibltCodewords
  | PRibltStatus ProtoRibltStatus
  | POpsBatch ProtoOpsBatch
  | PSubscribe ProtoSubscribe
  | PSubscribeAck SubscribeAck
  | PUnsubscribe string
  | PError ProtoSyncError

record ProtoSyncMessage =
  psm_v :: nat
  psm_docId :: string
  psm_payload :: "ProtoPayload option"

section \<open>Scalars\<close>

definition u64ToNumber :: "nat \<Rightarrow> int res" where
  "u64ToNumber v = (if int v > MAX_SAFE_INTEGER then Inl ''too large for number'' else Inr (int v))"

definition u64FromNumber :: "int \<Rightarrow> nat res" where
  "u64FromNumber v = (if \<not> isSafeInteger v \<or> v < 0 then Inl ''must be a safe non-negative integer''
     else Inr (nat v))"

text \<open>\<^verbatim>\<open>s.length > 0 ? s : undefined\<close> and \<^verbatim>\<open>s ?? ''\<close>.\<close>

definition someIfNonempty :: "'a list \<Rightarrow> 'a list option" where
  "someIfNonempty s = (if s = [] then None else Some s)"

definition orEmpty :: "'a list option \<Rightarrow> 'a list" where
  "orEmpty x = (case x of None \<Rightarrow> [] | Some s \<Rightarrow> s)"

definition required :: "error \<Rightarrow> 'a option \<Rightarrow> 'a res" where
  "required e x = (case x of None \<Rightarrow> Inl e | Some v \<Rightarrow> Inr v)"

section \<open>Filters and hellos\<close>

fun toProtoFilter :: "Filter \<Rightarrow> ProtoFilter option" where
  "toProtoFilter FilterAll = Some PFilterAll"
| "toProtoFilter (FilterChildren parent) = Some (PFilterChildren (Some parent))"

fun fromProtoFilter :: "ProtoFilter option \<Rightarrow> Filter res" where
  "fromProtoFilter (Some PFilterAll) = Inr FilterAll"
| "fromProtoFilter (Some (PFilterChildren (Some parent))) = Inr (FilterChildren parent)"
| "fromProtoFilter (Some (PFilterChildren None)) = Inl ''Filter.children.parent missing''"
| "fromProtoFilter None = Inl ''Filter: missing kind''"

definition toProtoHello :: "Hello \<Rightarrow> ProtoHello" where
  "toProtoHello hello = \<lparr>ph_capabilities = hello_capabilities hello,
     ph_filters = map (\<lambda>spec. \<lparr>pfs_id = fs_id spec, pfs_filter = Some (toProtoFilter (fs_filter spec))\<rparr>) (hello_filters hello),
     ph_maxLamport = hello_maxLamport hello\<rparr>"

definition fromProtoHello :: "ProtoHello \<Rightarrow> Hello res" where
  "fromProtoHello hello =
     bindR (mapR (\<lambda>spec. bindR (required ''Hello.FilterSpec missing filter'' (pfs_filter spec)) (\<lambda>f.
              bindR (fromProtoFilter f) (\<lambda>fil. Inr \<lparr>fs_id = pfs_id spec, fs_filter = fil\<rparr>)))
            (ph_filters hello)) (\<lambda>filters.
     Inr \<lparr>hello_capabilities = ph_capabilities hello, hello_filters = filters, hello_maxLamport = ph_maxLamport hello\<rparr>)"

definition toProtoHelloAck :: "HelloAck \<Rightarrow> ProtoHelloAck" where
  "toProtoHelloAck ack = \<lparr>pa_capabilities = ack_capabilities ack, pa_acceptedFilters = ack_acceptedFilters ack,
     pa_rejectedFilters = map (\<lambda>rej. \<lparr>prej_id = rej_id rej, prej_reason = rej_reason rej,
       prej_message = orEmpty (rej_message rej)\<rparr>) (ack_rejectedFilters ack),
     pa_maxLamport = ack_maxLamport ack\<rparr>"

definition fromProtoHelloAck :: "ProtoHelloAck \<Rightarrow> HelloAck" where
  "fromProtoHelloAck ack = \<lparr>ack_capabilities = pa_capabilities ack, ack_acceptedFilters = pa_acceptedFilters ack,
     ack_rejectedFilters = map (\<lambda>rej. \<lparr>rej_id = prej_id rej, rej_reason = prej_reason rej,
       rej_message = someIfNonempty (prej_message rej)\<rparr>) (pa_rejectedFilters ack),
     ack_maxLamport = pa_maxLamport ack\<rparr>"

section \<open>Operations\<close>

fun toProtoKind :: "OperationKind \<Rightarrow> ProtoOperationKind res" where
  "toProtoKind (OpInsert parent node orderKey payload) =
     bindR (nodeIdToBytes16 parent) (\<lambda>p. bindR (nodeIdToBytes16 node) (\<lambda>n.
       Inr (PInsert (Some p) (Some n) orderKey payload)))"
| "toProtoKind (OpMove node newParent orderKey) =
     bindR (nodeIdToBytes16 node) (\<lambda>n. bindR (nodeIdToBytes16 newParent) (\<lambda>p.
       Inr (PMove (Some n) (Some p) orderKey)))"
| "toProtoKind (OpDelete node) = bindR (nodeIdToBytes16 node) (\<lambda>n. Inr (PDelete (Some n)))"
| "toProtoKind (OpTombstone node) = bindR (nodeIdToBytes16 node) (\<lambda>n. Inr (PTombstone (Some n)))"
| "toProtoKind (OpPayload node payload) = bindR (nodeIdToBytes16 node) (\<lambda>n.
     Inr (PPayload (Some n) (Some (case payload of None \<Rightarrow> PClear | Some b \<Rightarrow> PBytes b))))"

fun isDelete :: "OperationKind \<Rightarrow> bool" where
  "isDelete (OpDelete _) = True"
| "isDelete _ = False"

definition toProtoOperation :: "Operation \<Rightarrow> ProtoOperation res" where
  "toProtoOperation oper =
    (let meta = op_meta oper in
     bindR (guardR (\<not> (isDelete (op_kind oper) \<and> orEmpty (om_knownState meta) = []))
       ''Delete operations require meta.knownState'') (\<lambda>_.
     bindR (replicaIdToBytes (oid_replica (om_id meta))) (\<lambda>replica.
     bindR (u64FromNumber (oid_counter (om_id meta))) (\<lambda>counter.
     bindR (u64FromNumber (om_lamport meta)) (\<lambda>lamport.
     bindR (toProtoKind (op_kind oper)) (\<lambda>kind.
       Inr \<lparr>pop_meta = Some \<lparr>pom_id = Some \<lparr>poid_replica = Some replica, poid_counter = counter\<rparr>,
              pom_lamport = lamport, pom_knownState = orEmpty (om_knownState meta)\<rparr>,
            pop_kind = Some kind\<rparr>))))))"

fun fromProtoKind :: "bytes \<Rightarrow> ProtoOperationKind option \<Rightarrow> OperationKind res" where
  "fromProtoKind ks (Some (PInsert (Some parent) (Some node) orderKey payload)) =
     bindR (nodeIdFromBytes16 parent) (\<lambda>p. bindR (nodeIdFromBytes16 node) (\<lambda>n. Inr (OpInsert p n orderKey payload)))"
| "fromProtoKind ks (Some (PInsert _ _ _ _)) = Inl ''InsertOp missing node ids''"
| "fromProtoKind ks (Some (PMove (Some node) (Some parent) orderKey)) =
     bindR (nodeIdFromBytes16 node) (\<lambda>n. bindR (nodeIdFromBytes16 parent) (\<lambda>p. Inr (OpMove n p orderKey)))"
| "fromProtoKind ks (Some (PMove _ _ _)) = Inl ''MoveOp missing node ids''"
| "fromProtoKind ks (Some (PDelete None)) = Inl ''DeleteOp missing node id''"
| "fromProtoKind ks (Some (PDelete (Some node))) =
     (if ks = [] then Inl ''DeleteOp missing knownState''
      else bindR (nodeIdFromBytes16 node) (\<lambda>n. Inr (OpDelete n)))"
| "fromProtoKind ks (Some (PTombstone None)) = Inl ''TombstoneOp missing node id''"
| "fromProtoKind ks (Some (PTombstone (Some node))) = bindR (nodeIdFromBytes16 node) (\<lambda>n. Inr (OpTombstone n))"
| "fromProtoKind ks (Some (PPayload None _)) = Inl ''PayloadOp missing node id''"
| "fromProtoKind ks (Some (PPayload (Some node) None)) = Inl ''PayloadOp missing value''"
| "fromProtoKind ks (Some (PPayload (Some node) (Some PClear))) = bindR (nodeIdFromBytes16 node) (\<lambda>n. Inr (OpPayload n None))"
| "fromProtoKind ks (Some (PPayload (Some node) (Some (PBytes b)))) =
     bindR (nodeIdFromBytes16 node) (\<lambda>n. Inr (OpPayload n (Some b)))"
| "fromProtoKind ks None = Inl ''Operation: missing kind''"

definition fromProtoOperation :: "ProtoOperation \<Rightarrow> Operation res" where
  "fromProtoOperation oper =
    (let ido = Option.bind (pop_meta oper) pom_id; ks = (case pop_meta oper of None \<Rightarrow> [] | Some m \<Rightarrow> pom_knownState m) in
     bindR (required ''Operation.meta.id.replica missing'' (Option.bind ido poid_replica)) (\<lambda>replica.
     bindR (required ''Operation.meta.id.counter missing'' (map_option poid_counter ido)) (\<lambda>counter.
     bindR (required ''Operation.meta.lamport missing'' (map_option pom_lamport (pop_meta oper))) (\<lambda>lamport.
     bindR (replicaIdFromBytes replica) (\<lambda>r.
     bindR (u64ToNumber counter) (\<lambda>c.
     bindR (u64ToNumber lamport) (\<lambda>l.
     bindR (fromProtoKind ks (pop_kind oper)) (\<lambda>kind.
       Inr \<lparr>op_meta = \<lparr>om_id = \<lparr>oid_replica = r, oid_counter = c\<rparr>, om_lamport = l, om_knownState = someIfNonempty ks\<rparr>,
            op_kind = kind\<rparr>))))))))"

section \<open>Batches, subscriptions, RIBLT\<close>

definition toProtoOpAuth :: "OpAuth \<Rightarrow> ProtoOpAuth" where
  "toProtoOpAuth auth = \<lparr>poa_sig = oa_sig auth, poa_proofRef = orEmpty (oa_proofRef auth)\<rparr>"

definition fromProtoOpAuth :: "ProtoOpAuth \<Rightarrow> OpAuth" where
  "fromProtoOpAuth auth = \<lparr>oa_sig = poa_sig auth, oa_proofRef = someIfNonempty (poa_proofRef auth)\<rparr>"

definition toProtoOpsBatch :: "Operation OpsBatch \<Rightarrow> ProtoOpsBatch res" where
  "toProtoOpsBatch batch = bindR (mapR toProtoOperation (ob_ops batch)) (\<lambda>ops.
     Inr \<lparr>pob_filterId = ob_filterId batch, pob_ops = ops, pob_auth = map toProtoOpAuth (orEmpty (ob_auth batch)),
       pob_done = ob_done batch\<rparr>)"

definition fromProtoOpsBatch :: "ProtoOpsBatch \<Rightarrow> Operation OpsBatch res" where
  "fromProtoOpsBatch batch = bindR (mapR fromProtoOperation (pob_ops batch)) (\<lambda>ops.
     Inr \<lparr>ob_filterId = pob_filterId batch, ob_ops = ops, ob_auth = someIfNonempty (map fromProtoOpAuth (pob_auth batch)),
       ob_done = pob_done batch\<rparr>)"

definition toProtoSubscribe :: "Subscribe \<Rightarrow> ProtoSubscribe" where
  "toProtoSubscribe sub = \<lparr>psub_subscriptionId = sub_subscriptionId sub, psub_filter = Some (toProtoFilter (sub_filter sub))\<rparr>"

definition fromProtoSubscribe :: "ProtoSubscribe \<Rightarrow> Subscribe res" where
  "fromProtoSubscribe sub = bindR (required ''Subscribe.filter missing'' (psub_filter sub)) (\<lambda>f.
     bindR (fromProtoFilter f) (\<lambda>fil. Inr \<lparr>sub_subscriptionId = psub_subscriptionId sub, sub_filter = fil\<rparr>))"

definition toProtoRibltStatus :: "RibltStatus \<Rightarrow> ProtoRibltStatus" where
  "toProtoRibltStatus status = \<lparr>pst_filterId = st_filterId status, pst_round = st_round status,
     pst_payload = Some (case st_payload status of
         StatusMore n c \<Rightarrow> PMore n c
       | StatusDecoded sm rm n \<Rightarrow> PDecoded sm rm n
       | StatusFailed reason msg \<Rightarrow> PFailed reason (orEmpty msg))\<rparr>"

definition fromProtoRibltStatus :: "ProtoRibltStatus \<Rightarrow> RibltStatus" where
  "fromProtoRibltStatus status = \<lparr>st_filterId = pst_filterId status, st_round = pst_round status,
     st_payload = (case pst_payload status of
         Some (PMore n c) \<Rightarrow> StatusMore n c
       | Some (PDecoded sm rm n) \<Rightarrow> StatusDecoded sm rm n
       | Some (PFailed reason msg) \<Rightarrow> StatusFailed reason (someIfNonempty msg)
       | None \<Rightarrow> StatusFailed DECODE_FAILED None)\<rparr>"

section \<open>Messages\<close>

fun toProtoPayload :: "Operation SyncMessagePayload \<Rightarrow> ProtoPayload res" where
  "toProtoPayload (MHello v) = Inr (PHello (toProtoHello v))"
| "toProtoPayload (MHelloAck v) = Inr (PHelloAck (toProtoHelloAck v))"
| "toProtoPayload (MRibltCodewords v) = Inr (PRibltCodewords v)"
| "toProtoPayload (MRibltStatus v) = Inr (PRibltStatus (toProtoRibltStatus v))"
| "toProtoPayload (MOpsBatch v) = bindR (toProtoOpsBatch v) (\<lambda>b. Inr (POpsBatch b))"
| "toProtoPayload (MSubscribe v) = Inr (PSubscribe (toProtoSubscribe v))"
| "toProtoPayload (MSubscribeAck v) = Inr (PSubscribeAck v)"
| "toProtoPayload (MUnsubscribe v) = Inr (PUnsubscribe v)"
| "toProtoPayload (MError v) = Inr (PError \<lparr>pse_code = se_code v, pse_message = se_message v,
     pse_filterId = orEmpty (se_filterId v), pse_subscriptionId = orEmpty (se_subscriptionId v)\<rparr>)"

fun fromProtoPayload :: "ProtoPayload option \<Rightarrow> Operation SyncMessagePayload res" where
  "fromProtoPayload (Some (PHello v)) = bindR (fromProtoHello v) (\<lambda>h. Inr (MHello h))"
| "fromProtoPayload (Some (PHelloAck v)) = Inr (MHelloAck (fromProtoHelloAck v))"
| "fromProtoPayload (Some (PRibltCodewords v)) = Inr (MRibltCodewords v)"
| "fromProtoPayload (Some (PRibltStatus v)) = Inr (MRibltStatus (fromProtoRibltStatus v))"
| "fromProtoPayload (Some (POpsBatch v)) = bindR (fromProtoOpsBatch v) (\<lambda>b. Inr (MOpsBatch b))"
| "fromProtoPayload (Some (PSubscribe v)) = bindR (fromProtoSubscribe v) (\<lambda>s. Inr (MSubscribe s))"
| "fromProtoPayload (Some (PSubscribeAck v)) = Inr (MSubscribeAck v)"
| "fromProtoPayload (Some (PUnsubscribe v)) = Inr (MUnsubscribe v)"
| "fromProtoPayload (Some (PError v)) = Inr (MError \<lparr>se_code = pse_code v, se_message = pse_message v,
     se_filterId = someIfNonempty (pse_filterId v), se_subscriptionId = someIfNonempty (pse_subscriptionId v)\<rparr>)"
| "fromProtoPayload None = Inl ''decodeTreecrdtSyncV0: unsupported payload''"

definition toProtoSyncMessage :: "Operation SyncMessage \<Rightarrow> ProtoSyncMessage res" where
  "toProtoSyncMessage msg =
     bindR (guardR (sm_v msg = 0) ''encodeTreecrdtSyncV0: unsupported version'') (\<lambda>_.
     bindR (toProtoPayload (sm_payload msg)) (\<lambda>pl.
       Inr \<lparr>psm_v = 0, psm_docId = sm_docId msg, psm_payload = Some pl\<rparr>))"

definition fromProtoSyncMessage :: "ProtoSyncMessage \<Rightarrow> Operation SyncMessage res" where
  "fromProtoSyncMessage msg =
     bindR (guardR (psm_v msg = 0) ''decodeTreecrdtSyncV0: unsupported version'') (\<lambda>_.
     bindR (fromProtoPayload (psm_payload msg)) (\<lambda>pl.
       Inr \<lparr>sm_v = 0, sm_docId = psm_docId msg, sm_payload = pl\<rparr>))"

definition encodeTreecrdtSyncV0 :: "(ProtoSyncMessage \<Rightarrow> 'b) \<Rightarrow> Operation SyncMessage \<Rightarrow> 'b res" where
  "encodeTreecrdtSyncV0 toBinary msg = bindR (toProtoSyncMessage msg) (\<lambda>proto. Inr (toBinary proto))"

definition decodeTreecrdtSyncV0 :: "('b \<Rightarrow> ProtoSyncMessage res) \<Rightarrow> 'b \<Rightarrow> Operation SyncMessage res" where
  "decodeTreecrdtSyncV0 fromBinary bs = bindR (fromBinary bs) fromProtoSyncMessage"

definition encodeTreecrdtSyncV0Operation :: "(ProtoOperation \<Rightarrow> 'b) \<Rightarrow> Operation \<Rightarrow> 'b res" where
  "encodeTreecrdtSyncV0Operation toBinary oper = bindR (toProtoOperation oper) (\<lambda>proto. Inr (toBinary proto))"

definition decodeTreecrdtSyncV0Operation :: "('b \<Rightarrow> ProtoOperation res) \<Rightarrow> 'b \<Rightarrow> Operation res" where
  "decodeTreecrdtSyncV0Operation fromBinary bs = bindR (fromBinary bs) fromProtoOperation"

section \<open>A codec and the normal form it transmits\<close>

text \<open>
  \<^verbatim>\<open>WireCodec\<close> (\<^verbatim>\<open>transport/index.ts\<close>) as an interface: what arrives is the normal form of what
  was sent, and the normal form is sent as the same bytes.
\<close>

locale wire_codec =
  fixes enc :: "'m \<Rightarrow> 'b res" and dec :: "'b \<Rightarrow> 'm res" and norm :: "'m \<Rightarrow> 'm"
  assumes dec_enc: "enc m = Inr b \<Longrightarrow> dec b = Inr (norm m)"
    and enc_norm: "enc m = Inr b \<Longrightarrow> enc (norm m) = Inr b"
begin

lemma relay: "enc m = Inr b \<Longrightarrow> dec b = Inr m' \<Longrightarrow> enc m' = Inr b"
  using dec_enc enc_norm by fastforce

lemma norm_norm: "enc m = Inr b \<Longrightarrow> norm (norm m) = norm m"
  using dec_enc [of m b] dec_enc [of "norm m" b] enc_norm [of m b] by simp

lemma enc_inj_norm: "enc m = Inr b \<Longrightarrow> enc m' = Inr b \<Longrightarrow> norm m = norm m'"
  using dec_enc [of m b] dec_enc [of m' b] by simp

lemma enc_list_relay: "mapR enc ms = Inr bs \<Longrightarrow> mapR dec bs = Inr (map norm ms)"
  by (rule mapR_roundtrip) (auto dest: dec_enc)

lemma enc_list_norm: "mapR enc ms = Inr bs \<Longrightarrow> mapR enc (map norm ms) = Inr bs"
  by (induction ms arbitrary: bs) (auto simp: bindR_eq_Inr dest: enc_norm)

end

definition dropEmpty :: "'a list option \<Rightarrow> 'a list option" where
  "dropEmpty x = someIfNonempty (orEmpty x)"

definition okOr :: "'a res \<Rightarrow> 'a \<Rightarrow> 'a" where
  "okOr r d = (case r of Inl _ \<Rightarrow> d | Inr x \<Rightarrow> x)"

definition wireOperation :: "Operation \<Rightarrow> Operation" where
  "wireOperation oper = \<lparr>op_meta = (op_meta oper)\<lparr>om_knownState := dropEmpty (om_knownState (op_meta oper))\<rparr>,
     op_kind = okOr (normalizeKind (op_kind oper)) (op_kind oper)\<rparr>"

definition wireOpAuth :: "OpAuth \<Rightarrow> OpAuth" where
  "wireOpAuth auth = auth\<lparr>oa_proofRef := dropEmpty (oa_proofRef auth)\<rparr>"

fun wirePayload :: "Operation SyncMessagePayload \<Rightarrow> Operation SyncMessagePayload" where
  "wirePayload (MHelloAck v) = MHelloAck (v\<lparr>ack_rejectedFilters :=
     map (\<lambda>rej. rej\<lparr>rej_message := dropEmpty (rej_message rej)\<rparr>) (ack_rejectedFilters v)\<rparr>)"
| "wirePayload (MRibltStatus v) = MRibltStatus (v\<lparr>st_payload := (case st_payload v of
     StatusFailed reason msg \<Rightarrow> StatusFailed reason (dropEmpty msg) | pl \<Rightarrow> pl)\<rparr>)"
| "wirePayload (MOpsBatch v) = MOpsBatch (v\<lparr>ob_ops := map wireOperation (ob_ops v),
     ob_auth := someIfNonempty (map wireOpAuth (orEmpty (ob_auth v)))\<rparr>)"
| "wirePayload (MError v) = MError (v\<lparr>se_filterId := dropEmpty (se_filterId v), se_subscriptionId := dropEmpty (se_subscriptionId v)\<rparr>)"
| "wirePayload pl = pl"

definition wireMessage :: "Operation SyncMessage \<Rightarrow> Operation SyncMessage" where
  "wireMessage msg = msg\<lparr>sm_payload := wirePayload (sm_payload msg)\<rparr>"

section \<open>Round trips\<close>

lemma nonempty_simps [simp]:
  "orEmpty (someIfNonempty xs) = xs" "orEmpty (dropEmpty x) = orEmpty x" "dropEmpty (dropEmpty x) = dropEmpty x"
  "someIfNonempty (orEmpty x) = dropEmpty x"
  by (simp_all add: orEmpty_def someIfNonempty_def dropEmpty_def split: option.splits)

lemma someIfNonempty_map: "map_option (map f) (someIfNonempty xs) = someIfNonempty (map f xs)"
  by (simp add: someIfNonempty_def)

lemma filter_roundtrip [simp]: "fromProtoFilter (toProtoFilter f) = Inr f"
  by (cases f) simp_all

lemma nodeId_bytes_back:
  "nodeIdToBytes16 s = Inr b \<Longrightarrow> \<exists>h. normalizeNodeId s = Inr h \<and> nodeIdFromBytes16 b = Inr h \<and> nodeIdToBytes16 h = Inr b"
proof -
  assume s: "nodeIdToBytes16 s = Inr b"
  then obtain h where h: "normalizeNodeId s = Inr h" "b = hex_pairs h"
    by (auto simp: nodeIdToBytes16_normalize bindR_eq_Inr)
  then have "canonical_node_id h" by (blast intro: normalizeNodeId_canonical)
  with h nodeIdToBytes16_length [OF s] show ?thesis
    by (simp add: nodeIdFromBytes16_def bytesToHex_hex_pairs canonical_node_id_def nodeIdToBytes16_canonical)
qed

lemma kind_roundtrip:
  assumes "toProtoKind k = Inr pk" "isDelete k \<longrightarrow> ks \<noteq> []"
  shows "\<exists>n. normalizeKind k = Inr n \<and> fromProtoKind ks (Some pk) = Inr n \<and> toProtoKind n = Inr pk \<and> isDelete n = isDelete k"
proof (cases k)
  case (OpInsert p q ok pl)
  with assms obtain x y where xy: "nodeIdToBytes16 p = Inr x" "nodeIdToBytes16 q = Inr y" "pk = PInsert (Some x) (Some y) ok pl"
    by (auto simp: bindR_eq_Inr)
  from nodeId_bytes_back [OF xy(1)] nodeId_bytes_back [OF xy(2)] show ?thesis using OpInsert xy by auto
next
  case (OpMove p q ok)
  with assms obtain x y where xy: "nodeIdToBytes16 p = Inr x" "nodeIdToBytes16 q = Inr y" "pk = PMove (Some x) (Some y) ok"
    by (auto simp: bindR_eq_Inr)
  from nodeId_bytes_back [OF xy(1)] nodeId_bytes_back [OF xy(2)] show ?thesis using OpMove xy by auto
next
  case (OpPayload q pl)
  with assms obtain x where x: "nodeIdToBytes16 q = Inr x" "pk = PPayload (Some x) (Some (case pl of None \<Rightarrow> PClear | Some b \<Rightarrow> PBytes b))"
    by (auto simp: bindR_eq_Inr)
  from nodeId_bytes_back [OF x(1)] show ?thesis using OpPayload x by (auto split: option.splits)
next
  case (OpDelete q)
  with assms obtain x where x: "nodeIdToBytes16 q = Inr x" "pk = PDelete (Some x)" by (auto simp: bindR_eq_Inr)
  from nodeId_bytes_back [OF x(1)] show ?thesis using OpDelete x assms by auto
next
  case (OpTombstone q)
  with assms obtain x where x: "nodeIdToBytes16 q = Inr x" "pk = PTombstone (Some x)" by (auto simp: bindR_eq_Inr)
  from nodeId_bytes_back [OF x(1)] show ?thesis using OpTombstone x by auto
qed

lemma u64_roundtrip: "u64FromNumber v = Inr n \<Longrightarrow> u64ToNumber n = Inr v"
  by (auto simp: u64FromNumber_def u64ToNumber_def isSafeInteger_def split: if_splits)

lemma toProtoOperation_parts:
  assumes "toProtoOperation oper = Inr pr"
  obtains c l pk n where
    "u64FromNumber (oid_counter (om_id (op_meta oper))) = Inr c" "u64FromNumber (om_lamport (op_meta oper)) = Inr l"
    "toProtoKind (op_kind oper) = Inr pk" "length (oid_replica (om_id (op_meta oper))) = 32"
    "normalizeKind (op_kind oper) = Inr n"
    "fromProtoKind (orEmpty (om_knownState (op_meta oper))) (Some pk) = Inr n" "toProtoKind n = Inr pk" "isDelete n = isDelete (op_kind oper)"
    "isDelete (op_kind oper) \<longrightarrow> orEmpty (om_knownState (op_meta oper)) \<noteq> []"
    "pr = \<lparr>pop_meta = Some \<lparr>pom_id = Some \<lparr>poid_replica = Some (oid_replica (om_id (op_meta oper))), poid_counter = c\<rparr>,
              pom_lamport = l, pom_knownState = orEmpty (om_knownState (op_meta oper))\<rparr>, pop_kind = Some pk\<rparr>"
proof -
  obtain c l pk where p: "isDelete (op_kind oper) \<longrightarrow> orEmpty (om_knownState (op_meta oper)) \<noteq> []"
    "u64FromNumber (oid_counter (om_id (op_meta oper))) = Inr c" "u64FromNumber (om_lamport (op_meta oper)) = Inr l"
    "toProtoKind (op_kind oper) = Inr pk" "length (oid_replica (om_id (op_meta oper))) = 32"
    "pr = \<lparr>pop_meta = Some \<lparr>pom_id = Some \<lparr>poid_replica = Some (oid_replica (om_id (op_meta oper))), poid_counter = c\<rparr>,
              pom_lamport = l, pom_knownState = orEmpty (om_knownState (op_meta oper))\<rparr>, pop_kind = Some pk\<rparr>"
    using assms by (auto simp: toProtoOperation_def Let_def bindR_eq_Inr)
  from kind_roundtrip [OF p(4) p(1)] p that show ?thesis by blast
qed

interpretation oc: wire_codec toProtoOperation fromProtoOperation wireOperation
proof
  fix oper pr
  assume "toProtoOperation oper = Inr pr"
  then obtain c l pk n where p:
    "u64FromNumber (oid_counter (om_id (op_meta oper))) = Inr c" "u64FromNumber (om_lamport (op_meta oper)) = Inr l"
    "toProtoKind (op_kind oper) = Inr pk" "length (oid_replica (om_id (op_meta oper))) = 32"
    "normalizeKind (op_kind oper) = Inr n"
    "fromProtoKind (orEmpty (om_knownState (op_meta oper))) (Some pk) = Inr n" "toProtoKind n = Inr pk" "isDelete n = isDelete (op_kind oper)"
    "isDelete (op_kind oper) \<longrightarrow> orEmpty (om_knownState (op_meta oper)) \<noteq> []"
    "pr = \<lparr>pop_meta = Some \<lparr>pom_id = Some \<lparr>poid_replica = Some (oid_replica (om_id (op_meta oper))), poid_counter = c\<rparr>,
              pom_lamport = l, pom_knownState = orEmpty (om_knownState (op_meta oper))\<rparr>, pop_kind = Some pk\<rparr>"
    by (rule toProtoOperation_parts)
  have rep: "replicaIdFromBytes r = Inr r" "replicaIdToBytes r = Inr r" if "length r = 32" for r
    using that by simp_all
  show "fromProtoOperation pr = Inr (wireOperation oper)"
    using p u64_roundtrip [OF p(1)] u64_roundtrip [OF p(2)]
    by (simp add: fromProtoOperation_def required_def rep wireOperation_def okOr_def Let_def)
  show "toProtoOperation (wireOperation oper) = Inr pr"
    using p by (simp add: toProtoOperation_def wireOperation_def okOr_def rep guardR_def)
qed

lemma opAuth_roundtrip: "fromProtoOpAuth (toProtoOpAuth a) = wireOpAuth a" "toProtoOpAuth (wireOpAuth a) = toProtoOpAuth a"
  by (simp_all add: fromProtoOpAuth_def toProtoOpAuth_def wireOpAuth_def)

lemma hello_roundtrip: "fromProtoHello (toProtoHello h) = Inr h"
proof -
  have "mapR (\<lambda>spec. bindR (required e (pfs_filter spec)) (\<lambda>f. bindR (fromProtoFilter f) (\<lambda>fil. Inr \<lparr>fs_id = pfs_id spec, fs_filter = fil\<rparr>)))
      (map (\<lambda>spec. \<lparr>pfs_id = fs_id spec, pfs_filter = Some (toProtoFilter (fs_filter spec))\<rparr>) fs) = Inr fs" for e fs
    by (induction fs) (simp_all add: required_def)
  then show ?thesis by (simp add: fromProtoHello_def toProtoHello_def)
qed

lemma payload_roundtrip:
  assumes "toProtoPayload pl = Inr pr"
  shows "fromProtoPayload (Some pr) = Inr (wirePayload pl) \<and> toProtoPayload (wirePayload pl) = Inr pr"
proof (cases pl)
  case (MHelloAck v)
  then show ?thesis using assms
    by (auto simp: fromProtoHelloAck_def toProtoHelloAck_def comp_def intro!: HelloAck.equality RejectedFilter.equality)
next
  case (MRibltStatus v)
  then show ?thesis using assms
    by (auto simp: fromProtoRibltStatus_def toProtoRibltStatus_def split: RibltStatusPayload.splits)
next
  case (MOpsBatch v)
  then obtain ops where ops: "mapR toProtoOperation (ob_ops v) = Inr ops"
      "pr = POpsBatch \<lparr>pob_filterId = ob_filterId v, pob_ops = ops, pob_auth = map toProtoOpAuth (orEmpty (ob_auth v)), pob_done = ob_done v\<rparr>"
    using assms by (auto simp: toProtoOpsBatch_def bindR_eq_Inr)
  then show ?thesis using MOpsBatch oc.enc_list_relay [OF ops(1)] oc.enc_list_norm [OF ops(1)]
    by (simp add: fromProtoOpsBatch_def toProtoOpsBatch_def comp_def opAuth_roundtrip)
qed (use assms in \<open>auto simp: hello_roundtrip fromProtoSubscribe_def toProtoSubscribe_def required_def\<close>)

interpretation mc: wire_codec toProtoSyncMessage fromProtoSyncMessage wireMessage
proof
  fix msg pr
  assume "toProtoSyncMessage msg = Inr pr"
  then obtain pl where pl: "sm_v msg = 0" "toProtoPayload (sm_payload msg) = Inr pl"
      "pr = \<lparr>psm_v = 0, psm_docId = sm_docId msg, psm_payload = Some pl\<rparr>"
    by (auto simp: toProtoSyncMessage_def bindR_eq_Inr)
  from payload_roundtrip [OF pl(2)] pl(1,3)
  show "fromProtoSyncMessage pr = Inr (wireMessage msg)" "toProtoSyncMessage (wireMessage msg) = Inr pr"
    by (simp_all add: fromProtoSyncMessage_def toProtoSyncMessage_def wireMessage_def guardR_def)
qed

lemma normalizeNodeId_bytes: "normalizeNodeId s = Inr h \<Longrightarrow> nodeIdToBytes16 h = nodeIdToBytes16 s"
  by (simp add: nodeIdToBytes16_normalize normalizeNodeId_fixpoint normalizeNodeId_canonical)

lemma normalizeKind_fields:
  "normalizeKind k = Inr n \<Longrightarrow> kindFields n = kindFields k \<and> kindTag n = kindTag k"
  by (cases k) (auto simp: bindR_eq_Inr normalizeNodeId_bytes)

lemma nodeIdFromBytes16_normal:
  "nodeIdFromBytes16 b = Inr h \<Longrightarrow> normalizeNodeId h = Inr h \<and> (\<exists>c. nodeIdToBytes16 h = Inr c)"
  using canonical_bytesToHex
  by (auto simp: nodeIdFromBytes16_def nodeIdToBytes16_canonical normalizeNodeId_fixpoint split: if_splits)

lemma fromProtoKind_normal:
  "fromProtoKind ks k = Inr kind \<Longrightarrow>
    normalizeKind kind = Inr kind \<and> (\<exists>pk. toProtoKind kind = Inr pk) \<and> (isDelete kind \<longrightarrow> ks \<noteq> [])"
  by (induction ks k rule: fromProtoKind.induct)
    (auto simp: bindR_eq_Inr dest!: nodeIdFromBytes16_normal split: if_splits)

section \<open>Properties\<close>

text \<open>
  C19: over any lossless binary format, decoding an encoded sync message gives the message back
  in its wire normal form: node ids in canonical hexadecimal, and empty optional strings, byte
  strings and auth lists absent.  Encoding what was decoded gives the same bytes again, so a
  message can be relayed any number of times without change.
\<close>
theorem sync_message_roundtrip:
  assumes "\<And>m. fromBinary (toBinary m) = Inr m" and "encodeTreecrdtSyncV0 toBinary msg = Inr bs"
  shows "decodeTreecrdtSyncV0 fromBinary bs = Inr (wireMessage msg)
    \<and> encodeTreecrdtSyncV0 toBinary (wireMessage msg) = Inr bs
    \<and> wireMessage (wireMessage msg) = wireMessage msg"
proof -
  obtain pr where pr: "toProtoSyncMessage msg = Inr pr" "bs = toBinary pr"
    using assms(2) by (auto simp: encodeTreecrdtSyncV0_def bindR_eq_Inr)
  then show ?thesis using mc.dec_enc [OF pr(1)] mc.enc_norm [OF pr(1)] mc.norm_norm [OF pr(1)] assms(1)
    by (simp add: decodeTreecrdtSyncV0_def encodeTreecrdtSyncV0_def)
qed

theorem sync_message_roundtrip_witness:
  "let msg = \<lparr>sm_v = 0, sm_docId = ''doc'', sm_payload = MError \<lparr>se_code = RATE_LIMITED, se_message = ''m'',
         se_filterId = Some [], se_subscriptionId = Some ''s''\<rparr>\<rparr> :: Operation SyncMessage
   in \<exists>bs. encodeTreecrdtSyncV0 (\<lambda>m. m) msg = Inr bs
      \<and> decodeTreecrdtSyncV0 Inr bs = Inr (msg\<lparr>sm_payload := MError \<lparr>se_code = RATE_LIMITED, se_message = ''m'',
         se_filterId = None, se_subscriptionId = Some ''s''\<rparr>\<rparr>)"
proof -
  define msg :: "Operation SyncMessage" where "msg = \<lparr>sm_v = 0, sm_docId = ''doc'',
    sm_payload = MError \<lparr>se_code = RATE_LIMITED, se_message = ''m'', se_filterId = Some [], se_subscriptionId = Some ''s''\<rparr>\<rparr>"
  obtain bs where bs: "encodeTreecrdtSyncV0 (\<lambda>m. m) msg = Inr bs"
    by (auto simp: encodeTreecrdtSyncV0_def toProtoSyncMessage_def msg_def guardR_def)
  have "decodeTreecrdtSyncV0 Inr bs = Inr (wireMessage msg)"
    using sync_message_roundtrip [of Inr "\<lambda>m. m" msg bs] bs by simp
  with bs show ?thesis unfolding Let_def
    by (fold msg_def) (auto simp: wireMessage_def msg_def dropEmpty_def orEmpty_def someIfNonempty_def)
qed

text \<open>
  What a receiver decodes has the same signing bytes, and the same op ref, as what the author
  encoded: the signature made before the wire verifies after it although node ids and absent
  fields are normalised on the way.
\<close>
theorem wire_keeps_signing_bytes:
  assumes "toProtoOperation oper = Inr pr" and "fromProtoOperation pr = Inr oper'"
  shows "encodeTreecrdtOpSigInputV1 utf8 doc oper' = encodeTreecrdtOpSigInputV1 utf8 doc oper
    \<and> om_id (op_meta oper') = om_id (op_meta oper)
    \<and> (isDelete (op_kind oper) \<longrightarrow> om_knownState (op_meta oper') = om_knownState (op_meta oper))"
proof -
  have w: "oper' = wireOperation oper" using oc.dec_enc [OF assms(1)] assms(2) by simp
  obtain n where p: "normalizeKind (op_kind oper) = Inr n"
      "isDelete (op_kind oper) \<longrightarrow> orEmpty (om_knownState (op_meta oper)) \<noteq> []"
    using assms(1) by (rule toProtoOperation_parts) blast
  have k: "op_kind oper' = n" "om_id (op_meta oper') = om_id (op_meta oper)" "om_lamport (op_meta oper') = om_lamport (op_meta oper)"
    using w p(1) by (simp_all add: wireOperation_def okOr_def)
  have "kindFields n = kindFields (op_kind oper) \<and> kindTag n = kindTag (op_kind oper)"
    using p(1) by (rule normalizeKind_fields)
  moreover have "om_knownState (op_meta oper') = om_knownState (op_meta oper)" if "isDelete (op_kind oper)"
    using that p(2) w by (auto simp: wireOperation_def dropEmpty_def someIfNonempty_def orEmpty_def split: option.splits)
  ultimately show ?thesis using k by (simp add: encodeTreecrdtOpSigInputV1_def)
qed

definition demo_move :: Operation where
  "demo_move = \<lparr>op_meta = \<lparr>om_id = \<lparr>oid_replica = replicate 32 7, oid_counter = 4\<rparr>, om_lamport = 9,
     om_knownState = Some []\<rparr>, op_kind = OpMove TRASH_NODE_ID_HEX ROOT_NODE_ID_HEX [1, 2]\<rparr>"

lemma demo_move_encodes: "\<exists>pr. toProtoOperation demo_move = Inr pr"
proof -
  have c: "canonical_node_id TRASH_NODE_ID_HEX" "canonical_node_id ROOT_NODE_ID_HEX"
    by (simp_all add: canonical_node_id_def TRASH_NODE_ID_HEX_def ROOT_NODE_ID_HEX_def lower_hex_iff hex_codes_def)
  show ?thesis
    by (simp add: toProtoOperation_def demo_move_def guardR_def replicaIdToBytes_def assertReplicaIdBytes_def
        ED25519_PUBLIC_KEY_LEN_def u64FromNumber_def isSafeInteger_def MAX_SAFE_INTEGER_def
        nodeIdToBytes16_canonical [OF c(1)] nodeIdToBytes16_canonical [OF c(2)])
qed

theorem wire_keeps_signing_bytes_witness:
  "\<exists>pr oper'. toProtoOperation demo_move = Inr pr \<and> fromProtoOperation pr = Inr oper' \<and> oper' \<noteq> demo_move
     \<and> encodeTreecrdtOpSigInputV1 ascii_bytes ''d'' oper' = encodeTreecrdtOpSigInputV1 ascii_bytes ''d'' demo_move"
proof -
  obtain pr where pr: "toProtoOperation demo_move = Inr pr" using demo_move_encodes by blast
  have "om_knownState (op_meta (wireOperation demo_move)) \<noteq> om_knownState (op_meta demo_move)"
    by (simp add: wireOperation_def demo_move_def dropEmpty_def orEmpty_def someIfNonempty_def)
  then have "wireOperation demo_move \<noteq> demo_move" by force
  then show ?thesis using pr oc.dec_enc [OF pr] wire_keeps_signing_bytes [OF pr oc.dec_enc [OF pr]] by blast
qed

text \<open>
  C20: everything the decoder accepts as an operation is well formed: a 32-byte replica, counter
  and lamport time in the safe integer range, canonical node ids, and a known state for deletes.
  It can be encoded again and then decodes to itself.
\<close>
theorem decoded_operation_wellformed:
  assumes "fromProtoOperation pr = Inr oper"
  shows "length (oid_replica (om_id (op_meta oper))) = 32
    \<and> 0 \<le> oid_counter (om_id (op_meta oper)) \<and> oid_counter (om_id (op_meta oper)) \<le> MAX_SAFE_INTEGER
    \<and> 0 \<le> om_lamport (op_meta oper) \<and> om_lamport (op_meta oper) \<le> MAX_SAFE_INTEGER
    \<and> (isDelete (op_kind oper) \<longrightarrow> orEmpty (om_knownState (op_meta oper)) \<noteq> [])
    \<and> normalizeKind (op_kind oper) = Inr (op_kind oper)
    \<and> (\<exists>pr'. toProtoOperation oper = Inr pr' \<and> fromProtoOperation pr' = Inr oper)"
proof -
  define ks where "ks = (case pop_meta pr of None \<Rightarrow> [] | Some m \<Rightarrow> pom_knownState m)"
  obtain rep c l kind where f: "length rep = 32" "u64ToNumber c = Inr (oid_counter (om_id (op_meta oper)))"
      "u64ToNumber l = Inr (om_lamport (op_meta oper))" "fromProtoKind ks (pop_kind pr) = Inr kind"
      "oid_replica (om_id (op_meta oper)) = rep" "om_knownState (op_meta oper) = someIfNonempty ks" "op_kind oper = kind"
    using assms by (auto simp: fromProtoOperation_def bindR_eq_Inr ks_def Let_def)
  have kind: "normalizeKind kind = Inr kind \<and> (\<exists>pk. toProtoKind kind = Inr pk) \<and> (isDelete kind \<longrightarrow> ks \<noteq> [])"
    using f(4) by (rule fromProtoKind_normal)
  then obtain pk where pk: "toProtoKind kind = Inr pk" by blast
  have safe: "u64FromNumber v = Inr n \<and> 0 \<le> v \<and> v \<le> MAX_SAFE_INTEGER" if "u64ToNumber n = Inr v" for n v
    using that by (auto simp: u64ToNumber_def u64FromNumber_def isSafeInteger_def split: if_splits)
  have "\<exists>pr'. toProtoOperation oper = Inr pr'"
    using f kind pk safe [OF f(2)] safe [OF f(3)]
    by (auto simp: toProtoOperation_def Let_def guardR_def replicaIdToBytes_def assertReplicaIdBytes_def ED25519_PUBLIC_KEY_LEN_def)
  then obtain pr' where pr': "toProtoOperation oper = Inr pr'" by blast
  have "wireOperation oper = oper" using f kind
    by (auto simp: wireOperation_def okOr_def dropEmpty_def someIfNonempty_def orEmpty_def
        intro!: Operation.equality OperationMetadata.equality)
  with oc.dec_enc [OF pr'] have "fromProtoOperation pr' = Inr oper" by simp
  with pr' f kind safe [OF f(2)] safe [OF f(3)] show ?thesis by auto
qed

theorem decoded_operation_wellformed_witness:
  "\<exists>pr oper. fromProtoOperation pr = Inr oper \<and> oid_counter (om_id (op_meta oper)) = 4
     \<and> (\<exists>pr'. toProtoOperation oper = Inr pr' \<and> fromProtoOperation pr' = Inr oper)"
proof -
  obtain pr where pr: "toProtoOperation demo_move = Inr pr" using demo_move_encodes by blast
  have "oid_counter (om_id (op_meta (wireOperation demo_move))) = 4" by (simp add: wireOperation_def demo_move_def)
  then show ?thesis using oc.dec_enc [OF pr] decoded_operation_wellformed [OF oc.dec_enc [OF pr]] by blast
qed

end
