(* ===== verification/Cbor_Cose.thy ===== *)
theory Cbor_Cose
  imports Sync_Types "HOL-Library.Countable"
begin

text \<open>
  The signed-message layer of \<^verbatim>\<open>packages/treecrdt-auth/src\<close>: the JavaScript values that the CBOR
  decoder yields with \<^verbatim>\<open>useMaps\<close>, the accessors of \<^verbatim>\<open>internal/claims.ts\<close>, COSE_Sign1 messages and
  token ids (\<^verbatim>\<open>cose.ts\<close>), key ids (\<^verbatim>\<open>internal/capability.ts\<close>), \<^verbatim>\<open>base64url.ts\<close>, and signing and
  verifying an operation (\<^verbatim>\<open>internal/op-sig.ts\<close>).

  The CBOR codec (\<^verbatim>\<open>cborg\<close>), BLAKE3, Ed25519 and UTF-8 encoding (\<^verbatim>\<open>@noble\<close>) are third-party code:
  the record \<open>Crypto\<close> of functions.  What is relied on is named \<open>lawful_crypto\<close>.  A CBOR number is
  an integer here; fractions do not occur in the claims.
\<close>

section \<open>Decoded CBOR values\<close>

datatype cval = CUndef | CNull | CBool bool | CNum int | CBig int | CStr string | CBytes bytes
  | CArr "cval list" | CMap "(cval \<times> cval) list"

instance cval :: countable
  by countable_datatype

fun nullish :: "cval \<Rightarrow> bool" where
  "nullish CUndef = True"
| "nullish CNull = True"
| "nullish _ = False"

text \<open>\<^verbatim>\<open>v && typeof v === 'object'\<close>\<close>

fun is_object :: "cval \<Rightarrow> bool" where
  "is_object (CBytes _) = True"
| "is_object (CArr _) = True"
| "is_object (CMap _) = True"
| "is_object _ = False"

text \<open>\<^verbatim>\<open>String(v)\<close>; an element of an array that is null or undefined prints as nothing.\<close>

fun dec_string :: "nat \<Rightarrow> string" where
  "dec_string n = (if n < 10 then [char_of (48 + n)] else dec_string (n div 10) @ [char_of (48 + n mod 10)])"

definition int_string :: "int \<Rightarrow> string" where
  "int_string i = (if i < 0 then ''-'' @ dec_string (nat (- i)) else dec_string (nat i))"

fun join_comma :: "string list \<Rightarrow> string" where
  "join_comma [] = []"
| "join_comma [s] = s"
| "join_comma (s # ss) = s @ '','' @ join_comma ss"

fun js_String :: "cval \<Rightarrow> string" where
  "js_String CUndef = ''undefined''"
| "js_String CNull = ''null''"
| "js_String (CBool b) = (if b then ''true'' else ''false'')"
| "js_String (CNum i) = int_string i"
| "js_String (CBig i) = int_string i"
| "js_String (CStr s) = s"
| "js_String (CBytes bs) = join_comma (map (\<lambda>b. int_string (uint b)) bs)"
| "js_String (CArr vs) = join_comma (map (\<lambda>v. if nullish v then [] else js_String v) vs)"
| "js_String (CMap _) = ''[object Map]''"

section \<open>Claims\<close>

definition toNumber :: "cval \<Rightarrow> int option res" where
  "toNumber val = (case val of
       CUndef \<Rightarrow> Inr None
     | CNull \<Rightarrow> Inr None
     | CNum i \<Rightarrow> Inr (Some i)
     | CBig i \<Rightarrow> if i > MAX_SAFE_INTEGER then Inl ''too large'' else Inr (Some i)
     | _ \<Rightarrow> Inl ''must be a number'')"

definition mapGet :: "(cval \<times> cval) list \<Rightarrow> cval \<Rightarrow> cval" where
  "mapGet m k = (case js_get m k of None \<Rightarrow> CUndef | Some v \<Rightarrow> v)"

definition getClaim :: "(cval \<times> cval) list \<Rightarrow> int \<Rightarrow> string \<Rightarrow> cval" where
  "getClaim m numKey strKey =
    (let v = mapGet m (CNum numKey) in if nullish v then mapGet m (CStr strKey) else v)"

fun getField :: "cval \<Rightarrow> string \<Rightarrow> cval" where
  "getField (CMap m) k = mapGet m (CStr k)"
| "getField _ k = CUndef"

section \<open>Cryptographic primitives\<close>

record Crypto =
  cborEncode :: "cval \<Rightarrow> bytes"
  cborDecode :: "bytes \<Rightarrow> cval res"
  blake3 :: "bytes \<Rightarrow> bytes"
  utf8ToBytes :: "string \<Rightarrow> bytes"
  signEd25519 :: "bytes \<Rightarrow> bytes \<Rightarrow> bytes"
  verifyEd25519 :: "bytes \<Rightarrow> bytes \<Rightarrow> bytes \<Rightarrow> bool res"

text \<open>
  What is documented of them: decoding undoes encoding, BLAKE3 digests have 32 bytes, and a
  signature made with a private key verifies under its public key, of 32 bytes.
\<close>

definition lawful_crypto :: "Crypto \<Rightarrow> (bytes \<Rightarrow> bytes) \<Rightarrow> bool" where
  "lawful_crypto cr pk \<longleftrightarrow> (\<forall>v. cborDecode cr (cborEncode cr v) = Inr v)
     \<and> (\<forall>b. length (blake3 cr b) = 32)
     \<and> (\<forall>m sk. verifyEd25519 cr (signEd25519 cr m sk) m (pk sk) = Inr True)
     \<and> (\<forall>sk. length (pk sk) = 32)"

lemma lawful_simps:
  assumes "lawful_crypto cr pk"
  shows "cborDecode cr (cborEncode cr v) = Inr v" "length (blake3 cr b) = 32"
    "verifyEd25519 cr (signEd25519 cr m sk) m (pk sk) = Inr True" "length (pk sk) = 32"
  using assms by (simp_all add: lawful_crypto_def)

section \<open>COSE_Sign1\<close>

record CoseSign1 =
  cs_protected :: bytes
  cs_unprotected :: "(cval \<times> cval) list"
  cs_payload :: bytes
  cs_signature :: bytes

definition sigStructure :: "Crypto \<Rightarrow> bytes \<Rightarrow> bytes \<Rightarrow> bytes" where
  "sigStructure cr protectedHeader payload =
     cborEncode cr (CArr [CStr ''Signature1'', CBytes protectedHeader, CBytes [], CBytes payload])"

definition coseSign1Ed25519 :: "Crypto \<Rightarrow> bytes \<Rightarrow> bytes \<Rightarrow> (cval \<times> cval) list \<Rightarrow> bytes" where
  "coseSign1Ed25519 cr payload privateKey unprotectedHeader =
    (let protectedBytes = cborEncode cr (CMap [(CNum 1, CNum (- 8))]);
         toSign = sigStructure cr protectedBytes payload;
         signature = signEd25519 cr toSign privateKey
     in cborEncode cr (CArr [CBytes protectedBytes, CMap unprotectedHeader, CBytes payload, CBytes signature]))"

fun coseFields :: "cval \<Rightarrow> CoseSign1 res" where
  "coseFields (CArr [p, u, pl, s]) =
    (case p of CBytes pb \<Rightarrow>
      (case u of CMap um \<Rightarrow>
        (case pl of CBytes plb \<Rightarrow>
          (case s of CBytes sb \<Rightarrow> Inr \<lparr>cs_protected = pb, cs_unprotected = um, cs_payload = plb, cs_signature = sb\<rparr>
           | _ \<Rightarrow> Inl ''COSE_Sign1[3] (signature) must be bstr'')
         | _ \<Rightarrow> Inl ''COSE_Sign1[2] (payload) must be bstr'')
       | _ \<Rightarrow> Inl ''COSE_Sign1[1] (unprotected) must be map'')
     | _ \<Rightarrow> Inl ''COSE_Sign1[0] (protected) must be bstr'')"
| "coseFields _ = Inl ''COSE_Sign1 must be a 4-item array''"

definition coseDecodeSign1 :: "Crypto \<Rightarrow> bytes \<Rightarrow> CoseSign1 res" where
  "coseDecodeSign1 cr bs = bindR (cborDecode cr bs) coseFields"

definition coseVerifySign1Ed25519 :: "Crypto \<Rightarrow> bytes \<Rightarrow> bytes \<Rightarrow> bytes res" where
  "coseVerifySign1Ed25519 cr bs publicKey =
     bindR (coseDecodeSign1 cr bs) (\<lambda>decoded.
     bindR (verifyEd25519 cr (cs_signature decoded) (sigStructure cr (cs_protected decoded) (cs_payload decoded)) publicKey) (\<lambda>ok.
       if \<not> ok then Inl ''COSE_Sign1 signature verification failed'' else Inr (cs_payload decoded)))"

definition deriveTokenIdV1 :: "Crypto \<Rightarrow> bytes \<Rightarrow> bytes" where
  "deriveTokenIdV1 cr tokenBytes = take 16 (blake3 cr (utf8ToBytes cr ''treecrdt/tokenid/v1'' @ tokenBytes))"

definition deriveKeyIdV1 :: "Crypto \<Rightarrow> bytes \<Rightarrow> bytes" where
  "deriveKeyIdV1 cr pubkey = take 16 (blake3 cr (concatBytes [utf8ToBytes cr ''treecrdt/keyid/v1'', pubkey]))"

lemma cose_sign_decode:
  assumes "lawful_crypto cr pk"
  shows "\<exists>s. coseDecodeSign1 cr (coseSign1Ed25519 cr payload sk unprot) =
      Inr \<lparr>cs_protected = cborEncode cr (CMap [(CNum 1, CNum (- 8))]), cs_unprotected = unprot, cs_payload = payload, cs_signature = s\<rparr>
    \<and> s = signEd25519 cr (sigStructure cr (cborEncode cr (CMap [(CNum 1, CNum (- 8))])) payload) sk"
  by (simp add: coseDecodeSign1_def coseSign1Ed25519_def Let_def lawful_simps [OF assms])

lemma cose_sign_verify:
  assumes "lawful_crypto cr pk"
  shows "coseVerifySign1Ed25519 cr (coseSign1Ed25519 cr payload sk unprot) (pk sk) = Inr payload"
proof -
  from cose_sign_decode [OF assms] obtain s where s:
    "coseDecodeSign1 cr (coseSign1Ed25519 cr payload sk unprot) =
      Inr \<lparr>cs_protected = cborEncode cr (CMap [(CNum 1, CNum (- 8))]), cs_unprotected = unprot, cs_payload = payload, cs_signature = s\<rparr>"
    "s = signEd25519 cr (sigStructure cr (cborEncode cr (CMap [(CNum 1, CNum (- 8))])) payload) sk" by blast
  then show ?thesis by (simp add: coseVerifySign1Ed25519_def lawful_simps [OF assms])
qed

section \<open>Operation signatures\<close>

definition signTreecrdtOpV1 :: "Crypto \<Rightarrow> string \<Rightarrow> Operation \<Rightarrow> bytes \<Rightarrow> bytes res" where
  "signTreecrdtOpV1 cr docId oper privateKey =
     bindR (encodeTreecrdtOpSigInputV1 (utf8ToBytes cr) docId oper) (\<lambda>msg. Inr (signEd25519 cr msg privateKey))"

definition verifyTreecrdtOpV1 :: "Crypto \<Rightarrow> string \<Rightarrow> Operation \<Rightarrow> bytes \<Rightarrow> bytes \<Rightarrow> bool res" where
  "verifyTreecrdtOpV1 cr docId oper signature publicKey =
     bindR (encodeTreecrdtOpSigInputV1 (utf8ToBytes cr) docId oper) (\<lambda>msg. verifyEd25519 cr signature msg publicKey)"

lemma sign_verify_op:
  assumes "lawful_crypto cr pk" "signTreecrdtOpV1 cr doc oper sk = Inr sig"
  shows "verifyTreecrdtOpV1 cr doc oper sig (pk sk) = Inr True"
  using assms(2) by (auto simp: signTreecrdtOpV1_def verifyTreecrdtOpV1_def bindR_eq_Inr lawful_simps [OF assms(1)])

section \<open>A lawful instance\<close>

text \<open>The laws are consistent: an encoder by an enumeration of the values, signatures that name the key.\<close>

definition demo_pk :: "bytes \<Rightarrow> bytes" where
  "demo_pk sk = take 32 (sk @ replicate 32 0)"

definition demo_crypto :: Crypto where
  "demo_crypto = \<lparr>cborEncode = (\<lambda>v. 0 # replicate (to_nat v) 0), cborDecode = (\<lambda>b. Inr (from_nat (length b - 1))),
     blake3 = (\<lambda>b. take 32 (b @ replicate 32 0)), utf8ToBytes = ascii_bytes,
     signEd25519 = (\<lambda>m sk. demo_pk sk @ m), verifyEd25519 = (\<lambda>sig m pk. Inr (sig = pk @ m))\<rparr>"

lemma demo_crypto_lawful: "lawful_crypto demo_crypto demo_pk"
proof -
  have "min (length b) 32 + (32 - length b) = 32" for b :: bytes by simp
  then show ?thesis by (simp add: lawful_crypto_def demo_crypto_def demo_pk_def)
qed

end
