(* ===== verification/Scope.thy ===== *)
theory Scope
  imports Cbor_Cose
begin

text \<open>
  Authorisation by capability: which actions a capability grants on which nodes
  (\<^verbatim>\<open>packages/treecrdt-auth/src/internal/scope.ts\<close>), decided in three values because the local
  tree may be incomplete, and the evaluator that walks the materialised tree in SQLite
  (\<^verbatim>\<open>packages/treecrdt-auth/src/sqlite.ts\<close>).

  The evaluator of the source is asynchronous and reads a database; here it is a function (for
  the database as it is at the time of the call).
\<close>

section \<open>Three-valued decisions\<close>

datatype ScopeTri = Allow | Deny | Unknown

definition triOr :: "ScopeTri \<Rightarrow> ScopeTri \<Rightarrow> ScopeTri" where
  "triOr a b = (if a = Allow \<or> b = Allow then Allow else if a = Unknown \<or> b = Unknown then Unknown else Deny)"

definition triAnd :: "ScopeTri \<Rightarrow> ScopeTri \<Rightarrow> ScopeTri" where
  "triAnd a b = (if a = Deny \<or> b = Deny then Deny else if a = Unknown \<or> b = Unknown then Unknown else Allow)"

section \<open>Scopes and actions\<close>

record TreecrdtSubtreeScope =
  sc_root :: bytes
  sc_maxDepth :: "int option"
  sc_exclude :: "bytes list option"

type_synonym TreecrdtScopeEvaluator = "string \<Rightarrow> bytes \<Rightarrow> TreecrdtSubtreeScope \<Rightarrow> ScopeTri res"

definition expandCapabilityActions :: "cval list \<Rightarrow> string list" where
  "expandCapabilityActions actions =
    (let actionSet = map js_String actions;
         s1 = (if ''write_structure'' \<in> set actionSet \<or> ''write_payload'' \<in> set actionSet
                 \<or> ''delete'' \<in> set actionSet \<or> ''tombstone'' \<in> set actionSet
               then actionSet @ [''read_structure''] else actionSet)
     in if ''write_payload'' \<in> set s1 then s1 @ [''read_payload''] else s1)"

fun requiredActionsForOp :: "OperationKind \<Rightarrow> string list" where
  "requiredActionsForOp (OpInsert _ _ _ payload) =
     (if payload \<noteq> None then [''write_structure'', ''write_payload''] else [''write_structure''])"
| "requiredActionsForOp (OpMove _ _ _) = [''write_structure'']"
| "requiredActionsForOp (OpDelete _) = [''delete'']"
| "requiredActionsForOp (OpTombstone _) = [''tombstone'']"
| "requiredActionsForOp (OpPayload _ _) = [''write_payload'']"

fun scopeNodes :: "OperationKind \<Rightarrow> NodeId list" where
  "scopeNodes (OpInsert parent _ _ _) = [parent]"
| "scopeNodes (OpMove node newParent _) = [node, newParent]"
| "scopeNodes (OpDelete node) = [node]"
| "scopeNodes (OpTombstone node) = [node]"
| "scopeNodes (OpPayload node _) = [node]"

definition getRequiredScopeChecks :: "Operation \<Rightarrow> (bytes \<times> string list) list res" where
  "getRequiredScopeChecks oper =
    (let actions = requiredActionsForOp (op_kind oper) in
     mapR (\<lambda>n. bindR (nodeIdToBytes16 n) (\<lambda>b. Inr (b, actions))) (scopeNodes (op_kind oper)))"

fun bytesEntry :: "cval \<Rightarrow> bytes res" where
  "bytesEntry (CBytes b) = Inr b"
| "bytesEntry _ = Inl ''capability res.exclude entries must be bytes''"

definition parseScope :: "cval \<Rightarrow> TreecrdtSubtreeScope res" where
  "parseScope res =
    (if \<not> is_object res then Inl ''capability res missing or not an object''
     else case getField res ''root'' of
       CBytes root \<Rightarrow>
         bindR (toNumber (getField res ''max_depth'')) (\<lambda>maxDepth.
         bindR (let excludeRaw = getField res ''exclude'' in
                if nullish excludeRaw then Inr None
                else case excludeRaw of
                  CArr vs \<Rightarrow> bindR (mapR bytesEntry vs) (\<lambda>bs. Inr (Some bs))
                | _ \<Rightarrow> Inl ''capability res.exclude must be an array'') (\<lambda>excl.
           Inr \<lparr>sc_root = root, sc_maxDepth = maxDepth, sc_exclude = excl\<rparr>))
     | _ \<Rightarrow> Inl ''capability res.root missing or not bytes'')"

definition excludes :: "TreecrdtSubtreeScope \<Rightarrow> bytes list" where
  "excludes scope = (case sc_exclude scope of None \<Rightarrow> [] | Some bs \<Rightarrow> bs)"

definition isDocWideScope :: "TreecrdtSubtreeScope \<Rightarrow> bool" where
  "isDocWideScope scope = (bytesToHex (sc_root scope) = ROOT_NODE_ID_HEX \<and> sc_maxDepth scope = None \<and> excludes scope = [])"

section \<open>Decisions\<close>

definition capAllowsNode :: "TreecrdtScopeEvaluator option \<Rightarrow> string \<Rightarrow> bytes \<Rightarrow> string list \<Rightarrow> cval \<Rightarrow> ScopeTri res" where
  "capAllowsNode scopeEvaluator docId node requiredActions cap =
    (let res = getField cap ''res'' in
     if \<not> is_object res then Inr Deny
     else case getField cap ''actions'' of
       CArr actions \<Rightarrow>
         if getField res ''doc_id'' \<noteq> CStr docId then Inr Deny
         else if \<not> list_all (\<lambda>a. a \<in> set (expandCapabilityActions actions)) requiredActions then Inr Deny
         else bindR (parseScope res) (\<lambda>scope.
           if bytesToHex node = bytesToHex (sc_root scope) then Inr Allow
           else if isDocWideScope scope then Inr Allow
           else case scopeEvaluator of
             None \<Rightarrow> Inr Unknown
           | Some e \<Rightarrow> e docId node scope)
     | _ \<Rightarrow> Inr Deny)"

text \<open>The loop over capabilities, left as soon as one allows.\<close>

fun bestOf :: "('c \<Rightarrow> ScopeTri res) \<Rightarrow> 'c list \<Rightarrow> ScopeTri \<Rightarrow> ScopeTri res" where
  "bestOf f [] best = Inr best"
| "bestOf f (c # cs) best = bindR (f c) (\<lambda>t.
     if triOr best t = Allow then Inr Allow else bestOf f cs (triOr best t))"

definition capsAllowsNodeAccess ::
    "TreecrdtScopeEvaluator option \<Rightarrow> string \<Rightarrow> bytes \<Rightarrow> string list \<Rightarrow> cval list \<Rightarrow> ScopeTri res" where
  "capsAllowsNodeAccess scopeEvaluator docId node requiredActions caps =
     bestOf (capAllowsNode scopeEvaluator docId node requiredActions) caps Deny"

fun allChecks :: "('c \<Rightarrow> ScopeTri res) \<Rightarrow> 'c list \<Rightarrow> ScopeTri \<Rightarrow> ScopeTri res" where
  "allChecks f [] overall = Inr overall"
| "allChecks f (c # cs) overall = bindR (f c) (\<lambda>best. allChecks f cs (triAnd overall best))"

definition capsAllowsOp :: "TreecrdtScopeEvaluator option \<Rightarrow> string \<Rightarrow> Operation \<Rightarrow> cval list \<Rightarrow> ScopeTri res" where
  "capsAllowsOp scopeEvaluator docId oper caps =
     bindR (getRequiredScopeChecks oper) (\<lambda>checks.
       allChecks (\<lambda>(node, actions). bestOf (capAllowsNode scopeEvaluator docId node actions) caps Deny) checks Allow)"

section \<open>The SQLite evaluator\<close>

text \<open>\<^verbatim>\<open>tree_nodes\<close>: no row, a row with a null parent, or a row with a parent.\<close>

type_synonym tree_nodes = "bytes \<Rightarrow> bytes option option"

definition parentSql :: "tree_nodes \<Rightarrow> bytes \<Rightarrow> string" where
  "parentSql t node = (case t node of
       None \<Rightarrow> ''missing''
     | Some None \<Rightarrow> ''null''
     | Some (Some parent) \<Rightarrow> bytesToHex parent)"

fun walkUp :: "tree_nodes \<Rightarrow> TreecrdtSubtreeScope \<Rightarrow> nat \<Rightarrow> bytes \<Rightarrow> string \<Rightarrow> int \<Rightarrow> ScopeTri res" where
  "walkUp t scope 0 curBytes curHex distance = Inr Unknown"
| "walkUp t scope (Suc hops) curBytes curHex distance =
    (if curHex \<in> set (map bytesToHex (excludes scope)) then Inr Deny
     else if curHex = bytesToHex (sc_root scope) then
       (case sc_maxDepth scope of
          Some m \<Rightarrow> Inr (if distance > m then Deny else Allow)
        | None \<Rightarrow> Inr Allow)
     else if curHex = ROOT_NODE_ID_HEX \<or> curHex = TRASH_NODE_ID_HEX then Inr Deny
     else if (case sc_maxDepth scope of None \<Rightarrow> False | Some m \<Rightarrow> distance \<ge> m) then Inr Deny
     else
       (let parentHex = parentSql t curBytes in
        if parentHex = [] then Inl ''scope evaluator query returned empty result''
        else if parentHex = ''missing'' then Inr Unknown
        else if parentHex = ''null'' then Inr Deny
        else bindR (nodeIdToBytes16 parentHex) (\<lambda>b. walkUp t scope hops b parentHex (distance + 1))))"

definition maxHops :: nat where
  "maxHops = 100000"

definition sqliteScopeEvaluator :: "tree_nodes \<Rightarrow> TreecrdtScopeEvaluator" where
  "sqliteScopeEvaluator t docId node scope = walkUp t scope maxHops node (bytesToHex node) 0"

section \<open>What a scope contains\<close>

text \<open>
  Declaratively: a node is in a scope if climbing from it reaches the root of the scope within
  the depth, through no excluded node and without leaving a reserved node.
\<close>

definition reserved :: "bytes \<Rightarrow> bool" where
  "reserved b = (bytesToHex b = ROOT_NODE_ID_HEX \<or> bytesToHex b = TRASH_NODE_ID_HEX)"

fun reach :: "tree_nodes \<Rightarrow> bytes list \<Rightarrow> bytes \<Rightarrow> nat \<Rightarrow> bytes \<Rightarrow> bool" where
  "reach t ex root 0 n = (n = root \<and> n \<notin> set ex)"
| "reach t ex root (Suc k) n = (n \<notin> set ex \<and> \<not> reserved n \<and>
     (case t n of Some (Some p) \<Rightarrow> reach t ex root k p | _ \<Rightarrow> False))"

definition depth_ok :: "TreecrdtSubtreeScope \<Rightarrow> int \<Rightarrow> bool" where
  "depth_ok scope d = (case sc_maxDepth scope of None \<Rightarrow> True | Some m \<Rightarrow> d \<le> m)"

definition in_subtree :: "tree_nodes \<Rightarrow> TreecrdtSubtreeScope \<Rightarrow> bytes \<Rightarrow> bool" where
  "in_subtree t scope n \<longleftrightarrow> (\<exists>k. reach t (excludes scope) (sc_root scope) k n \<and> depth_ok scope (int k))"

text \<open>The local tree does not tell: an ancestor has no row, or the chain is as long as the walk.\<close>

fun gap :: "tree_nodes \<Rightarrow> nat \<Rightarrow> bytes \<Rightarrow> bool" where
  "gap t 0 n = True"
| "gap t (Suc k) n = (case t n of None \<Rightarrow> True | Some None \<Rightarrow> False | Some (Some p) \<Rightarrow> gap t k p)"

definition wf_tree :: "tree_nodes \<Rightarrow> bool" where
  "wf_tree t \<longleftrightarrow> (\<forall>n p. t n = Some (Some p) \<longrightarrow> length p = 16)"

declare bytesToHex_inj [simp]

lemma reserved_bytes:
  "ROOT_NODE_ID_HEX = bytesToHex (replicate 16 0)" "TRASH_NODE_ID_HEX = bytesToHex (replicate 16 255)"
proof -
  have "hex_pairs (replicate (2 * n) c) = replicate n (of_nat (17 * hex_val c))" for n c
    by (induction n) simp_all
  from this [of 16] have "hex_pairs ROOT_NODE_ID_HEX = replicate 16 0" "hex_pairs TRASH_NODE_ID_HEX = replicate 16 255"
    by (simp_all add: ROOT_NODE_ID_HEX_def TRASH_NODE_ID_HEX_def hex_val_def is_dec_char_def)
  moreover have "lower_hex ROOT_NODE_ID_HEX" "lower_hex TRASH_NODE_ID_HEX" "even (length ROOT_NODE_ID_HEX)" "even (length TRASH_NODE_ID_HEX)"
    by (simp_all add: TRASH_NODE_ID_HEX_def ROOT_NODE_ID_HEX_def lower_hex_iff hex_codes_def)
  ultimately show "ROOT_NODE_ID_HEX = bytesToHex (replicate 16 0)" "TRASH_NODE_ID_HEX = bytesToHex (replicate 16 255)"
    using bytesToHex_hex_pairs by metis+
qed

lemma reserved_iff: "reserved b \<longleftrightarrow> b = replicate 16 0 \<or> b = replicate 16 255"
  unfolding reserved_def reserved_bytes by simp

lemma parentSql_some:
  assumes "wf_tree t" "t n = Some (Some p)"
  shows "parentSql t n = bytesToHex p" "parentSql t n \<noteq> []" "parentSql t n \<noteq> ''missing''" "parentSql t n \<noteq> ''null''"
    "nodeIdToBytes16 (bytesToHex p) = Inr p"
proof -
  have p: "length p = 16" using assms by (auto simp: wf_tree_def)
  show s: "parentSql t n = bytesToHex p" using assms(2) by (simp add: parentSql_def)
  have "length (bytesToHex p) = 32" using canonical_bytesToHex [OF p] by (simp add: canonical_node_id_def)
  then have "bytesToHex p \<noteq> x" if "length x \<noteq> 32" for x using that by metis
  then show "parentSql t n \<noteq> []" "parentSql t n \<noteq> ''missing''" "parentSql t n \<noteq> ''null''"
    unfolding s by simp_all
  show "nodeIdToBytes16 (bytesToHex p) = Inr p"
    by (simp add: nodeIdToBytes16_canonical [OF canonical_bytesToHex [OF p]] hex_pairs_bytesToHex)
qed

lemma reach_not_excluded: "reach t ex root k n \<Longrightarrow> n \<notin> set ex"
  by (cases k) auto

text \<open>One walk, all four outcomes.\<close>

definition walk_ok :: "tree_nodes \<Rightarrow> TreecrdtSubtreeScope \<Rightarrow> nat \<Rightarrow> bytes \<Rightarrow> int \<Rightarrow> ScopeTri res \<Rightarrow> bool" where
  "walk_ok t scope hops n d r = (case r of
       Inl _ \<Rightarrow> False
     | Inr Allow \<Rightarrow> \<exists>k. reach t (excludes scope) (sc_root scope) k n \<and> depth_ok scope (d + int k)
     | Inr Deny \<Rightarrow> \<forall>k. reach t (excludes scope) (sc_root scope) k n \<longrightarrow> \<not> depth_ok scope (d + int k)
     | Inr Unknown \<Rightarrow> gap t hops n)"

lemma walk_ok_up:
  assumes "walk_ok t scope hops p (d + 1) r" "t n = Some (Some p)" "n \<notin> set (excludes scope)"
    "n \<noteq> sc_root scope" "\<not> reserved n"
  shows "walk_ok t scope (Suc hops) n d r"
proof (cases r)
  case (Inl e)
  with assms show ?thesis by (simp add: walk_ok_def)
next
  case (Inr tri)
  have up: "reach t (excludes scope) (sc_root scope) (Suc k) n = reach t (excludes scope) (sc_root scope) k p" for k
    using assms by simp
  show ?thesis
  proof (cases tri)
    case Allow
    with assms Inr obtain k where "reach t (excludes scope) (sc_root scope) k p" "depth_ok scope (d + 1 + int k)"
      by (auto simp: walk_ok_def)
    with up Allow Inr show ?thesis by (auto simp: walk_ok_def add.assoc intro!: exI [of _ "Suc k"])
  next
    case Deny
    have "\<not> depth_ok scope (d + int k)" if "reach t (excludes scope) (sc_root scope) k n" for k
    proof (cases k)
      case 0
      with that assms show ?thesis by simp
    next
      case (Suc j)
      with that up have "reach t (excludes scope) (sc_root scope) j p" by simp
      with assms(1) Inr Deny have "\<not> depth_ok scope (d + 1 + int j)" by (auto simp: walk_ok_def)
      with Suc show ?thesis by (simp add: add.assoc)
    qed
    with Deny Inr show ?thesis by (simp add: walk_ok_def)
  qed (use assms Inr in \<open>simp add: walk_ok_def\<close>)
qed

lemma walkUp_correct: "wf_tree t \<Longrightarrow> walk_ok t scope hops n d (walkUp t scope hops n (bytesToHex n) d)"
proof (induction hops arbitrary: n d)
  case 0
  show ?case by (simp add: walk_ok_def)
next
  case (Suc hops)
  let ?deep = "case sc_maxDepth scope of None \<Rightarrow> False | Some m \<Rightarrow> d \<ge> m"
  consider (ex) "n \<in> set (excludes scope)" | (root) "n \<notin> set (excludes scope)" "n = sc_root scope"
    | (stop) "n \<notin> set (excludes scope)" "n \<noteq> sc_root scope" "reserved n \<or> ?deep"
    | (up) "n \<notin> set (excludes scope)" "n \<noteq> sc_root scope" "\<not> reserved n" "\<not> ?deep" by blast
  then show ?case
  proof cases
    case ex
    then show ?thesis by (auto simp: walk_ok_def dest: reach_not_excluded)
  next
    case root
    have "reach t (excludes scope) (sc_root scope) 0 n" using root by simp
    moreover have "\<not> depth_ok scope (d + int k)" if "\<not> depth_ok scope d" for k
      using that by (auto simp: depth_ok_def split: option.splits)
    ultimately show ?thesis using root
      by (auto simp: walk_ok_def depth_ok_def split: option.splits intro!: exI [of _ 0])
  next
    case stop
    have "\<not> depth_ok scope (d + int k)" if "reach t (excludes scope) (sc_root scope) k n" for k
      using that stop by (cases k) (auto simp: depth_ok_def split: option.splits)
    moreover have "walkUp t scope (Suc hops) n (bytesToHex n) d = Inr Deny" using stop by (auto simp: reserved_def)
    ultimately show ?thesis by (simp add: walk_ok_def)
  next
    case up
    have w: "walkUp t scope (Suc hops) n (bytesToHex n) d =
       (let parentHex = parentSql t n in
        if parentHex = [] then Inl ''scope evaluator query returned empty result''
        else if parentHex = ''missing'' then Inr Unknown
        else if parentHex = ''null'' then Inr Deny
        else bindR (nodeIdToBytes16 parentHex) (\<lambda>b. walkUp t scope hops b parentHex (d + 1)))"
      using up by (auto simp: reserved_def)
    show ?thesis
    proof (cases "t n")
      case None
      then show ?thesis unfolding w by (simp add: walk_ok_def parentSql_def)
    next
      case (Some po)
      show ?thesis
      proof (cases po)
        case None
        have "\<not> reach t (excludes scope) (sc_root scope) k n" for k
          using up Some None by (cases k) auto
        with Some None show ?thesis unfolding w by (simp add: walk_ok_def parentSql_def)
      next
        case p: (Some p)
        have "walkUp t scope (Suc hops) n (bytesToHex n) d = walkUp t scope hops p (bytesToHex p) (d + 1)"
          unfolding w using parentSql_some [OF Suc.prems] Some p by (simp add: Let_def)
        with walk_ok_up [OF Suc.IH [OF Suc.prems]] Some p up show ?thesis by simp
      qed
    qed
  qed
qed

lemma sqlite_correct: "wf_tree t \<Longrightarrow> walk_ok t scope maxHops n 0 (sqliteScopeEvaluator t doc n scope)"
  unfolding sqliteScopeEvaluator_def by (rule walkUp_correct)

section \<open>What a list of capabilities permits\<close>

text \<open>
  The abstract decision, on a tree that is fully known: some capability for the document has the
  actions and its scope contains the node.
\<close>

definition permits :: "tree_nodes \<Rightarrow> string \<Rightarrow> cval \<Rightarrow> bytes \<Rightarrow> string list \<Rightarrow> bool" where
  "permits t doc cap node acts \<longleftrightarrow> (\<exists>actions scope.
     getField cap ''actions'' = CArr actions \<and> getField (getField cap ''res'') ''doc_id'' = CStr doc
     \<and> set acts \<subseteq> set (expandCapabilityActions actions) \<and> parseScope (getField cap ''res'') = Inr scope
     \<and> (node = sc_root scope \<or> isDocWideScope scope \<or> in_subtree t scope node))"

definition permits_any :: "tree_nodes \<Rightarrow> string \<Rightarrow> cval list \<Rightarrow> bytes \<Rightarrow> string list \<Rightarrow> bool" where
  "permits_any t doc caps node acts \<longleftrightarrow> (\<exists>cap \<in> set caps. permits t doc cap node acts)"

definition permits_op :: "tree_nodes \<Rightarrow> string \<Rightarrow> cval list \<Rightarrow> Operation \<Rightarrow> bool" where
  "permits_op t doc caps oper \<longleftrightarrow> (\<exists>checks. getRequiredScopeChecks oper = Inr checks
     \<and> (\<forall>(node, acts) \<in> set checks. permits_any t doc caps node acts))"

lemma tri_simps [simp]:
  "triOr a b = Allow \<longleftrightarrow> a = Allow \<or> b = Allow" "triOr a b = Deny \<longleftrightarrow> a = Deny \<and> b = Deny"
  "triAnd a b = Allow \<longleftrightarrow> a = Allow \<and> b = Allow" "triAnd a b = Deny \<longleftrightarrow> a = Deny \<or> b = Deny"
  by (cases a; cases b; simp add: triOr_def triAnd_def)+

lemma bestOf_Allow: "bestOf f cs b = Inr Allow \<Longrightarrow> b = Allow \<or> (\<exists>c \<in> set cs. f c = Inr Allow)"
  by (induction cs arbitrary: b) (fastforce simp: bindR_eq_Inr split: if_splits)+

lemma bestOf_Deny: "bestOf f cs b = Inr Deny \<Longrightarrow> b = Deny \<and> (\<forall>c \<in> set cs. f c = Inr Deny)"
proof (induction cs arbitrary: b)
  case (Cons c cs)
  then obtain x where x: "f c = Inr x" "bestOf f cs (triOr b x) = Inr Deny" by (auto simp: bindR_eq_Inr split: if_splits)
  from Cons.IH [OF x(2)] x(1) show ?case by simp
qed simp

lemma bestOf_all_Deny: "(\<forall>c \<in> set cs. f c = Inr Deny) \<Longrightarrow> bestOf f cs Deny = Inr Deny"
  by (induction cs) (auto simp: triOr_def)

lemma allChecks_Allow: "allChecks f cs b = Inr Allow \<longleftrightarrow> b = Allow \<and> (\<forall>c \<in> set cs. f c = Inr Allow)"
  by (induction cs arbitrary: b) (auto simp: bindR_eq_Inr)

lemma allChecks_Deny: "allChecks f cs b = Inr Deny \<Longrightarrow> b = Deny \<or> (\<exists>c \<in> set cs. f c = Inr Deny)"
  by (induction cs arbitrary: b) (fastforce simp: bindR_eq_Inr)+

lemma capAllowsNode_Allow:
  assumes "wf_tree t" "capAllowsNode (Some (sqliteScopeEvaluator t)) doc node acts cap = Inr Allow"
  shows "permits t doc cap node acts"
proof -
  obtain actions scope where s: "getField cap ''actions'' = CArr actions" "getField (getField cap ''res'') ''doc_id'' = CStr doc"
      "set acts \<subseteq> set (expandCapabilityActions actions)" "parseScope (getField cap ''res'') = Inr scope"
      "node = sc_root scope \<or> isDocWideScope scope \<or> sqliteScopeEvaluator t doc node scope = Inr Allow"
    using assms(2) by (auto simp: capAllowsNode_def Let_def bindR_eq_Inr list_all_iff split: if_splits cval.splits)
  moreover have "in_subtree t scope node" if "sqliteScopeEvaluator t doc node scope = Inr Allow"
    using sqlite_correct [OF assms(1), of scope node doc] that by (auto simp: walk_ok_def in_subtree_def)
  ultimately show ?thesis unfolding permits_def by blast
qed

lemma capAllowsNode_Deny:
  assumes "wf_tree t" "capAllowsNode (Some (sqliteScopeEvaluator t)) doc node acts cap = Inr Deny"
  shows "\<not> permits t doc cap node acts"
proof
  assume "permits t doc cap node acts"
  then obtain actions scope where s: "getField cap ''actions'' = CArr actions" "getField (getField cap ''res'') ''doc_id'' = CStr doc"
      "set acts \<subseteq> set (expandCapabilityActions actions)" "parseScope (getField cap ''res'') = Inr scope"
      "node = sc_root scope \<or> isDocWideScope scope \<or> in_subtree t scope node"
    unfolding permits_def by blast
  then have "is_object (getField cap ''res'')" by (auto simp: parseScope_def split: if_splits)
  with s assms(2) have "sqliteScopeEvaluator t doc node scope = Inr Deny" "node \<noteq> sc_root scope" "\<not> isDocWideScope scope"
    by (auto simp: capAllowsNode_def Let_def list_all_iff split: if_splits)
  with s sqlite_correct [OF assms(1), of scope node doc] show False by (auto simp: walk_ok_def in_subtree_def)
qed

section \<open>Stability\<close>

text \<open>The information order: a decided value stays, an unknown one may become anything.\<close>

definition more_known :: "ScopeTri \<Rightarrow> ScopeTri \<Rightarrow> bool" where
  "more_known a b \<longleftrightarrow> (a \<noteq> Unknown \<longrightarrow> b = a)"

definition decides_more :: "('c \<Rightarrow> ScopeTri res) \<Rightarrow> ('c \<Rightarrow> ScopeTri res) \<Rightarrow> 'c set \<Rightarrow> bool" where
  "decides_more f g C \<longleftrightarrow> (\<forall>c \<in> C. \<forall>x. f c = Inr x \<longrightarrow> (\<exists>y. g c = Inr y \<and> more_known x y))"

lemma more_known_tri: "more_known a a' \<Longrightarrow> more_known b b' \<Longrightarrow> more_known (triOr a b) (triOr a' b')"
  "more_known a a' \<Longrightarrow> more_known b b' \<Longrightarrow> more_known (triAnd a b) (triAnd a' b')"
  by (cases a; cases b; cases a'; cases b'; simp add: more_known_def triOr_def triAnd_def)+

lemma bestOf_stable:
  assumes "decides_more f g (set cs)" "bestOf f cs b = Inr r" "more_known b b'"
  shows "\<exists>r'. bestOf g cs b' = Inr r' \<and> more_known r r'"
  using assms
proof (induction cs arbitrary: b b')
  case (Cons c cs)
  obtain x where x: "f c = Inr x" using Cons.prems(2) by (auto simp: bindR_eq_Inr)
  obtain y where y: "g c = Inr y" "more_known x y" using Cons.prems(1) x by (auto simp: decides_more_def)
  have m: "more_known (triOr b x) (triOr b' y)" using Cons.prems(3) y(2) by (rule more_known_tri)
  show ?case
  proof (cases "triOr b x = Allow")
    case True
    then have "triOr b' y = Allow" using m unfolding more_known_def by (simp del: tri_simps)
    moreover have "r = Allow" using True Cons.prems(2) x by simp
    ultimately show ?thesis using y(1) by (simp add: more_known_def)
  next
    case False
    then have rest: "bestOf f cs (triOr b x) = Inr r" using Cons.prems(2) x by simp
    show ?thesis
    proof (cases "triOr b' y = Allow")
      case True
      with False m have "triOr b x = Unknown" by (cases "triOr b x") (simp_all add: more_known_def)
      with rest have "r \<noteq> Deny" using bestOf_Deny by fastforce
      then show ?thesis using y(1) True by (cases r) (simp_all add: more_known_def)
    next
      case go: False
      then show ?thesis using Cons.IH [OF _ rest m] Cons.prems(1) y(1) by (simp add: decides_more_def)
    qed
  qed
qed simp

lemma allChecks_stable:
  assumes "decides_more f g (set cs)" "allChecks f cs b = Inr r" "more_known b b'"
  shows "\<exists>r'. allChecks g cs b' = Inr r' \<and> more_known r r'"
  using assms
proof (induction cs arbitrary: b b')
  case (Cons c cs)
  obtain x where x: "f c = Inr x" "allChecks f cs (triAnd b x) = Inr r" using Cons.prems(2) by (auto simp: bindR_eq_Inr)
  obtain y where y: "g c = Inr y" "more_known x y" using Cons.prems(1) x by (auto simp: decides_more_def)
  have "more_known (triAnd b x) (triAnd b' y)" using Cons.prems(3) y(2) by (rule more_known_tri)
  from Cons.IH [OF _ x(2) this] Cons.prems(1) y(1) show ?case by (simp add: decides_more_def)
qed simp

text \<open>What a step of the walk decides before it looks at the tree, and the step as a whole.\<close>

definition early :: "TreecrdtSubtreeScope \<Rightarrow> bytes \<Rightarrow> int \<Rightarrow> ScopeTri option" where
  "early scope n d =
    (if n \<in> set (excludes scope) then Some Deny
     else if n = sc_root scope then Some (if depth_ok scope d then Allow else Deny)
     else if reserved n \<or> \<not> depth_ok scope (d + 1) then Some Deny else None)"

lemma walkUp_step:
  assumes "wf_tree t"
  shows "walkUp t scope (Suc hops) n (bytesToHex n) d = (case early scope n d of
      Some x \<Rightarrow> Inr x
    | None \<Rightarrow> (case t n of None \<Rightarrow> Inr Unknown | Some None \<Rightarrow> Inr Deny
        | Some (Some p) \<Rightarrow> walkUp t scope hops p (bytesToHex p) (d + 1)))"
proof -
  have up: "(let parentHex = parentSql t n in
        if parentHex = [] then Inl ''scope evaluator query returned empty result''
        else if parentHex = ''missing'' then Inr Unknown
        else if parentHex = ''null'' then Inr Deny
        else bindR (nodeIdToBytes16 parentHex) (\<lambda>b. walkUp t scope hops b parentHex (d + 1)))
     = (case t n of None \<Rightarrow> Inr Unknown | Some None \<Rightarrow> Inr Deny
        | Some (Some p) \<Rightarrow> walkUp t scope hops p (bytesToHex p) (d + 1))"
    using parentSql_some [OF assms] by (auto simp: parentSql_def Let_def split: option.splits)
  have "bytesToHex n \<in> set (map bytesToHex (excludes scope)) \<longleftrightarrow> n \<in> set (excludes scope)" by auto
  then show ?thesis unfolding walkUp.simps up
    by (simp add: early_def reserved_def depth_ok_def split: option.split)
qed

lemma walkUp_more:
  assumes "t \<subseteq>\<^sub>m t'" "wf_tree t'"
  shows "\<exists>x y. walkUp t scope hops n (bytesToHex n) d = Inr x \<and> walkUp t' scope hops n (bytesToHex n) d = Inr y \<and> more_known x y"
proof (induction hops arbitrary: n d)
  case 0
  then show ?case by (simp add: more_known_def)
next
  case (Suc hops)
  have wf: "wf_tree t" using assms by (auto simp: wf_tree_def map_le_def dom_def)
  have total: "\<exists>y. walkUp t' scope (Suc hops) n (bytesToHex n) d = Inr y"
    using walkUp_correct [OF assms(2), of scope "Suc hops" n d]
    by (cases "walkUp t' scope (Suc hops) n (bytesToHex n) d") (auto simp: walk_ok_def)
  show ?case
  proof (cases "early scope n d = None \<and> t n \<noteq> None")
    case True
    then have "t' n = t n" using assms(1) by (auto simp: map_le_def dom_def)
    then show ?thesis using True Suc.IH
      by (auto simp: walkUp_step [OF wf] walkUp_step [OF assms(2)] more_known_def simp del: walkUp.simps split: option.splits)
  next
    case False
    then show ?thesis using total
      by (auto simp: walkUp_step [OF wf] walkUp_step [OF assms(2)] more_known_def simp del: walkUp.simps split: option.splits)
  qed
qed

lemma capAllowsNode_cases:
  "(\<exists>r. \<forall>e. capAllowsNode (Some e) doc node acts cap = r) \<or> (\<exists>scope. \<forall>e. capAllowsNode (Some e) doc node acts cap = e doc node scope)"
proof (cases "getField cap ''actions''")
  case (CArr actions)
  then show ?thesis
    by (cases "parseScope (getField cap ''res'')") (auto simp: capAllowsNode_def Let_def)
qed (auto simp: capAllowsNode_def Let_def)

lemma sqlite_more:
  assumes "t \<subseteq>\<^sub>m t'" "wf_tree t'"
  shows "decides_more (capAllowsNode (Some (sqliteScopeEvaluator t)) doc node acts)
      (capAllowsNode (Some (sqliteScopeEvaluator t')) doc node acts) C"
proof -
  have e: "\<exists>y. sqliteScopeEvaluator t' doc node scope = Inr y \<and> more_known x y"
    if "sqliteScopeEvaluator t doc node scope = Inr x" for scope x
    using walkUp_more [OF assms, of scope maxHops node 0] that by (auto simp: sqliteScopeEvaluator_def)
  have refl: "more_known x x" for x by (simp add: more_known_def)
  show ?thesis unfolding decides_more_def
  proof (intro ballI allI impI)
    fix cap x
    assume x: "capAllowsNode (Some (sqliteScopeEvaluator t)) doc node acts cap = Inr x"
    show "\<exists>y. capAllowsNode (Some (sqliteScopeEvaluator t')) doc node acts cap = Inr y \<and> more_known x y"
      using capAllowsNode_cases [of doc node acts cap] x e refl by metis
  qed
qed

section \<open>Nested scopes\<close>

lemma reach_trans:
  "reach t ex r1 k n \<Longrightarrow> reach t ex' r j r1 \<Longrightarrow> set ex' \<subseteq> set ex \<Longrightarrow> reach t ex' r (k + j) n"
  by (induction k arbitrary: n) (auto split: option.splits)

lemma reach_mono: "reach t ex r k n \<Longrightarrow> set ex' \<subseteq> set ex \<Longrightarrow> reach t ex' r k n"
  by (induction k arbitrary: n) (auto split: option.splits)

lemma in_subtree_trans:
  assumes "in_subtree t inner n" "in_subtree t outer (sc_root inner)" "sc_maxDepth outer = None"
    "set (excludes outer) \<subseteq> set (excludes inner)"
  shows "in_subtree t outer n"
proof -
  obtain k j where "reach t (excludes inner) (sc_root inner) k n" "reach t (excludes outer) (sc_root outer) j (sc_root inner)"
    using assms(1,2) by (auto simp: in_subtree_def)
  then have "reach t (excludes outer) (sc_root outer) (k + j) n" using assms(4) by (rule reach_trans)
  then show ?thesis using assms(3) by (auto simp: in_subtree_def depth_ok_def)
qed

lemma in_subtree_mono:
  assumes "in_subtree t inner n" "sc_root inner = sc_root outer" "set (excludes outer) \<subseteq> set (excludes inner)"
    "\<And>d. depth_ok inner d \<Longrightarrow> depth_ok outer d"
  shows "in_subtree t outer n"
  using assms reach_mono unfolding in_subtree_def by metis

section \<open>Properties\<close>

text \<open>
  The SQLite evaluator decides the declarative notion of scope: it never throws on a tree of
  16-byte ids, allows only nodes inside the subtree, denies only nodes outside it, and answers
  unknown only when an ancestor has no row or the chain has 100000 hops.
\<close>
theorem sqlite_scope_evaluator_correct:
  assumes "wf_tree t"
  shows "case sqliteScopeEvaluator t doc n scope of
      Inl _ \<Rightarrow> False
    | Inr Allow \<Rightarrow> in_subtree t scope n
    | Inr Deny \<Rightarrow> \<not> in_subtree t scope n
    | Inr Unknown \<Rightarrow> gap t maxHops n"
  using sqlite_correct [OF assms, of scope n doc]
  by (auto simp: walk_ok_def in_subtree_def split: sum.splits ScopeTri.splits)

definition demo_tree :: tree_nodes where
  "demo_tree n = (if n = replicate 16 2 then Some (Some (replicate 16 1)) else if n = replicate 16 1 then Some None else None)"

definition demo_scope :: TreecrdtSubtreeScope where
  "demo_scope = \<lparr>sc_root = replicate 16 1, sc_maxDepth = Some 1, sc_exclude = None\<rparr>"

theorem sqlite_scope_evaluator_correct_witness:
  "wf_tree demo_tree \<and> sqliteScopeEvaluator demo_tree ''doc'' (replicate 16 2) demo_scope = Inr Allow
   \<and> in_subtree demo_tree demo_scope (replicate 16 2)"
proof -
  have wf: "wf_tree demo_tree" by (auto simp: wf_tree_def demo_tree_def split: if_splits)
  have ne: "(replicate 16 2 :: bytes) \<noteq> replicate 16 1" by simp
  have "\<not> reserved (replicate 16 2)"
    by (simp add: reserved_iff)
  then have w: "walkUp demo_tree demo_scope (Suc (Suc 99998)) (replicate 16 2) (bytesToHex (replicate 16 2)) 0 = Inr Allow"
    using ne unfolding walkUp_step [OF wf]
    by (simp add: early_def demo_scope_def excludes_def depth_ok_def demo_tree_def)
  have a: "sqliteScopeEvaluator demo_tree ''doc'' (replicate 16 2) demo_scope = Inr Allow"
  proof -
    have "maxHops = Suc (Suc 99998)" by (simp add: maxHops_def)
    with w show ?thesis by (simp only: sqliteScopeEvaluator_def)
  qed
  with sqlite_scope_evaluator_correct [OF wf, where doc = "''doc''" and n = "replicate 16 2" and scope = demo_scope] wf show ?thesis by simp
qed

text \<open>
  C7: the decision for an operation refines the abstract one: what it allows is permitted, what
  it denies is not permitted, on the same tree.
\<close>
theorem capsAllowsOp_refines:
  assumes "wf_tree t"
  shows "(capsAllowsOp (Some (sqliteScopeEvaluator t)) doc oper caps = Inr Allow \<longrightarrow> permits_op t doc caps oper)
       \<and> (capsAllowsOp (Some (sqliteScopeEvaluator t)) doc oper caps = Inr Deny \<longrightarrow> \<not> permits_op t doc caps oper)"
proof (intro conjI impI)
  let ?e = "Some (sqliteScopeEvaluator t)"
  assume "capsAllowsOp ?e doc oper caps = Inr Allow"
  then obtain checks where c: "getRequiredScopeChecks oper = Inr checks"
      "\<forall>c \<in> set checks. (case c of (node, acts) \<Rightarrow> bestOf (capAllowsNode ?e doc node acts) caps Deny) = Inr Allow"
    by (auto simp: capsAllowsOp_def bindR_eq_Inr allChecks_Allow)
  have "permits_any t doc caps node acts" if "(node, acts) \<in> set checks" for node acts
    using c(2) that capAllowsNode_Allow [OF assms] unfolding permits_any_def by (fastforce dest!: bestOf_Allow)
  with c(1) show "permits_op t doc caps oper" by (auto simp: permits_op_def)
next
  let ?e = "Some (sqliteScopeEvaluator t)"
  assume "capsAllowsOp ?e doc oper caps = Inr Deny"
  then obtain checks where "getRequiredScopeChecks oper = Inr checks"
      "allChecks (\<lambda>(node, acts). bestOf (capAllowsNode ?e doc node acts) caps Deny) checks Allow = Inr Deny"
    by (auto simp: capsAllowsOp_def bindR_eq_Inr)
  then obtain node acts where c: "getRequiredScopeChecks oper = Inr checks" "(node, acts) \<in> set checks"
      "bestOf (capAllowsNode ?e doc node acts) caps Deny = Inr Deny"
    by (auto dest!: allChecks_Deny)
  have "\<not> permits_any t doc caps node acts"
    using bestOf_Deny [OF c(3)] capAllowsNode_Deny [OF assms] unfolding permits_any_def by blast
  with c(1,2) show "\<not> permits_op t doc caps oper" by (auto simp: permits_op_def)
qed

definition demo_cap :: "string \<Rightarrow> cval" where
  "demo_cap action = CMap [(CStr ''res'', CMap [(CStr ''doc_id'', CStr ''doc''), (CStr ''root'', CBytes (replicate 16 0))]),
     (CStr ''actions'', CArr [CStr action])]"

definition demo_delete :: Operation where
  "demo_delete = \<lparr>op_meta = \<lparr>om_id = \<lparr>oid_replica = replicate 32 7, oid_counter = 1\<rparr>, om_lamport = 9,
     om_knownState = Some [1]\<rparr>, op_kind = OpDelete ROOT_NODE_ID_HEX\<rparr>"

lemma demo_delete_checks: "getRequiredScopeChecks demo_delete = Inr [(replicate 16 0, [''delete''])]"
proof -
  have "nodeIdToBytes16 (bytesToHex (replicate 16 0)) = Inr (replicate 16 0)"
    by (simp add: nodeIdToBytes16_canonical canonical_bytesToHex)
  then show ?thesis by (simp add: getRequiredScopeChecks_def demo_delete_def reserved_bytes)
qed

lemma demo_delete_decided:
  "capsAllowsOp e ''doc'' demo_delete [demo_cap action] = Inr (if action = ''delete'' then Allow else Deny)"
  unfolding capsAllowsOp_def demo_delete_checks
  by (simp add: capAllowsNode_def demo_cap_def mapGet_def js_get_def parseScope_def toNumber_def expandCapabilityActions_def
      Let_def triOr_def triAnd_def)

theorem capsAllowsOp_refines_witness:
  "permits_op demo_tree ''doc'' [demo_cap ''delete''] demo_delete \<and> \<not> permits_op demo_tree ''doc'' [demo_cap ''tombstone''] demo_delete"
proof -
  have wf: "wf_tree demo_tree" by (auto simp: wf_tree_def demo_tree_def split: if_splits)
  show ?thesis
    using capsAllowsOp_refines [OF wf, of "''doc''" demo_delete "[demo_cap ''delete'']"]
      capsAllowsOp_refines [OF wf, of "''doc''" demo_delete "[demo_cap ''tombstone'']"] by (simp add: demo_delete_decided)
qed

text \<open>
  Decisions are final: when rows that were missing from the local tree arrive, an operation
  that was allowed stays allowed and one that was denied stays denied; only unknown ones change.
\<close>
theorem scope_decision_stable:
  assumes "t \<subseteq>\<^sub>m t'" and "wf_tree t'"
    and "capsAllowsOp (Some (sqliteScopeEvaluator t)) doc oper caps = Inr r" and "r \<noteq> Unknown"
  shows "capsAllowsOp (Some (sqliteScopeEvaluator t')) doc oper caps = Inr r"
proof -
  let ?f = "\<lambda>t (node, acts). bestOf (capAllowsNode (Some (sqliteScopeEvaluator t)) doc node acts) caps Deny"
  obtain checks where c: "getRequiredScopeChecks oper = Inr checks" "allChecks (?f t) checks Allow = Inr r"
    using assms(3) by (auto simp: capsAllowsOp_def bindR_eq_Inr)
  have "decides_more (?f t) (?f t') (set checks)"
    unfolding decides_more_def using bestOf_stable [OF sqlite_more [OF assms(1,2)]]
    by (auto simp: more_known_def split: prod.splits)
  from allChecks_stable [OF this c(2), of Allow] obtain r' where "allChecks (?f t') checks Allow = Inr r'" "more_known r r'"
    by (auto simp: more_known_def)
  with c(1) assms(4) show ?thesis by (simp add: capsAllowsOp_def more_known_def)
qed

theorem scope_decision_stable_witness:
  "Map.empty \<subseteq>\<^sub>m demo_tree
   \<and> capsAllowsOp (Some (sqliteScopeEvaluator Map.empty)) ''doc'' demo_delete [demo_cap ''delete''] = Inr Allow
   \<and> capsAllowsOp (Some (sqliteScopeEvaluator demo_tree)) ''doc'' demo_delete [demo_cap ''delete''] = Inr Allow"
proof -
  have "wf_tree demo_tree" by (auto simp: wf_tree_def demo_tree_def split: if_splits)
  moreover have "capsAllowsOp (Some (sqliteScopeEvaluator Map.empty)) ''doc'' demo_delete [demo_cap ''delete''] = Inr Allow"
    by (simp add: demo_delete_decided)
  ultimately show ?thesis
    using scope_decision_stable [of Map.empty demo_tree "''doc''" demo_delete "[demo_cap ''delete'']" Allow] by simp
qed

end
