(* ===== verification/Capability_Token.thy ===== *)
theory Capability_Token
  imports Scope
begin

text \<open>
  Capability tokens (\<^verbatim>\<open>packages/treecrdt-auth/src/internal/capability.ts\<close>): COSE-signed CWT claims
  that grant a subject key some capabilities.  A token is signed by a trusted issuer, or by the
  subject key of a proof token that it carries and whose grant it must not exceed.
\<close>

section \<open>Data\<close>

record CapabilityGrant =
  cg_tokenId :: bytes
  cg_keyId :: bytes
  cg_publicKey :: bytes
  cg_caps :: "cval list"
  cg_exp :: "int option"
  cg_nbf :: "int option"

record RevocationCheckContext =
  rcx_tokenId :: bytes
  rcx_tokenIdHex :: string
  rcx_tokenBytes :: "bytes option"
  rcx_docId :: string
  rcx_depth :: "nat option"

record VerifyTokenOptions =
  vt_issuerPublicKeys :: "bytes list"
  vt_docId :: string
  vt_nowSec :: int
  vt_scopeEvaluator :: "TreecrdtScopeEvaluator option"
  vt_revokedCapabilityTokenIds :: "bytes list option"
  vt_isCapabilityTokenRevoked :: "(RevocationCheckContext \<Rightarrow> bool res) option"

definition TREECRDT_DELEGATION_PROOF_HEADER_V1 :: string where
  "TREECRDT_DELEGATION_PROOF_HEADER_V1 = ''treecrdt.delegation_proof_v1''"

definition MAX_DELEGATION_PROOF_CHAIN :: nat where
  "MAX_DELEGATION_PROOF_CHAIN = 8"

section \<open>Issuing\<close>

record IssueOptions =
  io_subjectPublicKey :: bytes
  io_docId :: string
  io_actions :: "string list"
  io_rootNodeId :: "NodeId option"
  io_maxDepth :: "int option"
  io_excludeNodeIds :: "NodeId list option"
  io_exp :: "int option"
  io_nbf :: "int option"

definition optEntry :: "cval \<Rightarrow> int option \<Rightarrow> (cval \<times> cval) list" where
  "optEntry k v = (case v of None \<Rightarrow> [] | Some i \<Rightarrow> [(k, CNum i)])"

definition tokenClaims :: "Crypto \<Rightarrow> IssueOptions \<Rightarrow> cval res" where
  "tokenClaims cr opts =
     bindR (nodeIdToBytes16 (case io_rootNodeId opts of None \<Rightarrow> ROOT_NODE_ID_HEX | Some r \<Rightarrow> r)) (\<lambda>root.
     bindR (case io_excludeNodeIds opts of
              None \<Rightarrow> Inr []
            | Some ids \<Rightarrow> if ids = [] then Inr []
                else bindR (mapR nodeIdToBytes16 ids) (\<lambda>bs. Inr [(CStr ''exclude'', CArr (map CBytes bs))])) (\<lambda>excl.
     let cnf = CMap [(CStr ''pub'', CBytes (io_subjectPublicKey opts)),
                     (CStr ''kid'', CBytes (deriveKeyIdV1 cr (io_subjectPublicKey opts)))];
         res = CMap ([(CStr ''doc_id'', CStr (io_docId opts)), (CStr ''root'', CBytes root)]
                     @ optEntry (CStr ''max_depth'') (io_maxDepth opts) @ excl);
         cap = CMap [(CStr ''res'', res), (CStr ''actions'', CArr (map CStr (io_actions opts)))]
     in Inr (CMap ([(CNum 3, CStr (io_docId opts)), (CNum 8, cnf), (CNum (- 1), CArr [cap])]
               @ optEntry (CNum 4) (io_exp opts) @ optEntry (CNum 5) (io_nbf opts)))))"

definition issueTreecrdtCapabilityTokenV1 :: "Crypto \<Rightarrow> bytes \<Rightarrow> IssueOptions \<Rightarrow> bytes res" where
  "issueTreecrdtCapabilityTokenV1 cr issuerPrivateKey opts =
     bindR (guardR (trim_js (io_docId opts) \<noteq> []) ''docId must not be empty'') (\<lambda>_.
     bindR (guardR (length (io_subjectPublicKey opts) = 32) ''subjectPublicKey must be 32 bytes'') (\<lambda>_.
     bindR (guardR (io_actions opts \<noteq> []) ''actions must be a non-empty array'') (\<lambda>_.
     bindR (tokenClaims cr opts) (\<lambda>claims.
       Inr (coseSign1Ed25519 cr (cborEncode cr claims) issuerPrivateKey [])))))"

definition issueTreecrdtDelegatedCapabilityTokenV1 :: "Crypto \<Rightarrow> bytes \<Rightarrow> bytes \<Rightarrow> IssueOptions \<Rightarrow> bytes res" where
  "issueTreecrdtDelegatedCapabilityTokenV1 cr delegatorPrivateKey delegatorProofToken opts =
     bindR (guardR (trim_js (io_docId opts) \<noteq> []) ''docId must not be empty'') (\<lambda>_.
     bindR (guardR (length delegatorPrivateKey = 32) ''delegatorPrivateKey must be 32 bytes'') (\<lambda>_.
     bindR (guardR (length (io_subjectPublicKey opts) = 32) ''subjectPublicKey must be 32 bytes'') (\<lambda>_.
     bindR (guardR (io_actions opts \<noteq> []) ''actions must be a non-empty array'') (\<lambda>_.
     bindR (tokenClaims cr opts) (\<lambda>claims.
       Inr (coseSign1Ed25519 cr (cborEncode cr claims) delegatorPrivateKey
             [(CStr TREECRDT_DELEGATION_PROOF_HEADER_V1, CArr [CBytes delegatorProofToken])]))))))"

section \<open>Claims to grants\<close>

definition checkAudience :: "string \<Rightarrow> cval \<Rightarrow> unit res" where
  "checkAudience docId aud = (case aud of
       CUndef \<Rightarrow> Inr ()
     | CStr s \<Rightarrow> guardR (s = docId) ''capability token audience mismatch''
     | CArr vs \<Rightarrow> guardR (CStr docId \<in> set vs) ''capability token audience mismatch''
     | _ \<Rightarrow> Inl ''capability token aud claim must be string or array'')"

definition subjectKey :: "Crypto \<Rightarrow> cval \<Rightarrow> (bytes \<times> bytes) res" where
  "subjectKey cr cnf = (case cnf of
       CMap m \<Rightarrow>
         (case mapGet m (CStr ''pub'') of
            CBytes pub \<Rightarrow>
              (let kid = mapGet m (CStr ''kid''); derivedKeyId = deriveKeyIdV1 cr pub in
               if nullish kid then Inr (derivedKeyId, pub)
               else case kid of
                 CBytes keyId \<Rightarrow> if bytesToHex keyId \<noteq> bytesToHex derivedKeyId
                   then Inl ''capability token cnf.kid does not match pub'' else Inr (keyId, pub)
               | _ \<Rightarrow> Inl ''capability token cnf.kid must be bytes'')
          | _ \<Rightarrow> Inl ''capability token cnf.pub missing'')
     | _ \<Rightarrow> Inl ''capability token cnf claim missing or not a map'')"

definition parseCapabilityGrantFromClaims :: "Crypto \<Rightarrow> bytes \<Rightarrow> bytes \<Rightarrow> string \<Rightarrow> int \<Rightarrow> CapabilityGrant res" where
  "parseCapabilityGrantFromClaims cr tokenId claimsBytes docId nowSec =
     bindR (cborDecode cr claimsBytes) (\<lambda>claims. case claims of
       CMap m \<Rightarrow>
         bindR (checkAudience docId (getClaim m 3 ''aud'')) (\<lambda>_.
         bindR (toNumber (getClaim m 4 ''exp'')) (\<lambda>exp.
         bindR (toNumber (getClaim m 5 ''nbf'')) (\<lambda>nbf.
         bindR (guardR (case exp of None \<Rightarrow> True | Some e \<Rightarrow> nowSec \<le> e) ''capability token expired'') (\<lambda>_.
         bindR (guardR (case nbf of None \<Rightarrow> True | Some n \<Rightarrow> n \<le> nowSec) ''capability token not yet valid'') (\<lambda>_.
         bindR (subjectKey cr (getClaim m 8 ''cnf'')) (\<lambda>(keyId, pub).
         case getClaim m (- 1) ''caps'' of
           CArr caps \<Rightarrow> if caps = [] then Inl ''capability token caps claim missing or invalid''
             else Inr \<lparr>cg_tokenId = tokenId, cg_keyId = keyId, cg_publicKey = pub, cg_caps = caps, cg_exp = exp, cg_nbf = nbf\<rparr>
         | _ \<Rightarrow> Inl ''capability token caps claim missing or invalid''))))))
     | _ \<Rightarrow> Inl ''capability token payload must be a CBOR map'')"

section \<open>A delegated grant stays within its proof\<close>

definition checkWindow :: "CapabilityGrant \<Rightarrow> CapabilityGrant \<Rightarrow> unit res" where
  "checkWindow proof_g delegated =
     bindR (case cg_exp proof_g of None \<Rightarrow> Inr () | Some pe \<Rightarrow>
       (case cg_exp delegated of
          None \<Rightarrow> Inl ''delegated token must include exp when proof token has exp''
        | Some de \<Rightarrow> guardR (\<not> de > pe) ''delegated token exp exceeds proof token exp'')) (\<lambda>_.
     case cg_nbf proof_g of None \<Rightarrow> Inr () | Some pn \<Rightarrow>
       (case cg_nbf delegated of
          None \<Rightarrow> Inl ''delegated token must include nbf when proof token has nbf''
        | Some dn \<Rightarrow> guardR (\<not> dn < pn) ''delegated token nbf precedes proof token nbf''))"

text \<open>The scope part, for a proof capability that has the actions.\<close>

definition checkRootWithin :: "TreecrdtScopeEvaluator option \<Rightarrow> string \<Rightarrow> TreecrdtSubtreeScope \<Rightarrow> TreecrdtSubtreeScope \<Rightarrow> unit res" where
  "checkRootWithin ev docId proofScope delegatedScope =
    (if bytesToHex (sc_root delegatedScope) = bytesToHex (sc_root proofScope) then Inr ()
     else if sc_maxDepth proofScope \<noteq> None then
       Inl ''delegated capability root must match proof root when proof uses maxDepth''
     else case ev of
       None \<Rightarrow> Inl ''delegated capability root must match proof root (scope evaluator missing)''
     | Some e \<Rightarrow> bindR (e docId (sc_root delegatedScope) proofScope) (\<lambda>tri. case tri of
         Deny \<Rightarrow> Inl ''delegated capability root is outside proof scope''
       | Unknown \<Rightarrow> Inl ''cannot validate delegated capability root within proof scope''
       | Allow \<Rightarrow> Inr ()))"

definition checkDepthWithin :: "TreecrdtSubtreeScope \<Rightarrow> TreecrdtSubtreeScope \<Rightarrow> unit res" where
  "checkDepthWithin proofScope delegatedScope =
    (case sc_maxDepth proofScope of None \<Rightarrow> Inr () | Some pm \<Rightarrow>
       (case sc_maxDepth delegatedScope of
          None \<Rightarrow> Inl ''delegated capability must include maxDepth when proof uses maxDepth''
        | Some dm \<Rightarrow> guardR (\<not> dm > pm) ''delegated capability maxDepth exceeds proof maxDepth''))"

definition checkExcludeWithin :: "TreecrdtSubtreeScope \<Rightarrow> TreecrdtSubtreeScope \<Rightarrow> unit res" where
  "checkExcludeWithin proofScope delegatedScope =
     guardR (list_all (\<lambda>ex. ex \<in> set (map bytesToHex (excludes delegatedScope))) (map bytesToHex (excludes proofScope)))
       ''delegated capability must preserve proof exclude list''"

definition scopeWithin :: "TreecrdtScopeEvaluator option \<Rightarrow> string \<Rightarrow> cval \<Rightarrow> cval \<Rightarrow> unit res" where
  "scopeWithin ev docId proofRes delegatedRes =
     bindR (parseScope proofRes) (\<lambda>proofScope.
     bindR (parseScope delegatedRes) (\<lambda>delegatedScope.
       if isDocWideScope proofScope then Inr ()
       else bindR (checkRootWithin ev docId proofScope delegatedScope) (\<lambda>_.
            bindR (checkDepthWithin proofScope delegatedScope) (\<lambda>_.
              checkExcludeWithin proofScope delegatedScope))))"

text \<open>One proof capability: it matches, it is passed over, or the check throws.\<close>

definition proofCapMatches :: "TreecrdtScopeEvaluator option \<Rightarrow> string \<Rightarrow> cval \<Rightarrow> cval list \<Rightarrow> cval \<Rightarrow> bool res" where
  "proofCapMatches ev docId delegatedRes delegatedActions proofCap =
    (let proofRes = getField proofCap ''res'' in
     if \<not> is_object proofRes then Inr False
     else case getField proofCap ''actions'' of
       CArr proofActions \<Rightarrow>
         if proofActions = [] \<or> getField proofRes ''doc_id'' \<noteq> CStr docId then Inr False
         else
           let proofActionSet = set (expandCapabilityActions proofActions) in
           if ''grant'' \<notin> proofActionSet \<or> \<not> set (expandCapabilityActions delegatedActions) \<subseteq> proofActionSet then Inr False
           else bindR (scopeWithin ev docId proofRes delegatedRes) (\<lambda>_. Inr True)
     | _ \<Rightarrow> Inr False)"

fun anyProofCap :: "('c \<Rightarrow> bool res) \<Rightarrow> 'c list \<Rightarrow> bool res" where
  "anyProofCap f [] = Inr False"
| "anyProofCap f (c # cs) = bindR (f c) (\<lambda>m. if m then Inr True else anyProofCap f cs)"

definition delegatedCapWithin :: "TreecrdtScopeEvaluator option \<Rightarrow> string \<Rightarrow> cval list \<Rightarrow> cval \<Rightarrow> unit res" where
  "delegatedCapWithin ev docId proofCaps delegatedCap =
    (let delegatedRes = getField delegatedCap ''res'' in
     bindR (guardR (is_object delegatedRes) ''delegated capability missing res'') (\<lambda>_.
     case getField delegatedCap ''actions'' of
       CArr delegatedActions \<Rightarrow>
         bindR (guardR (delegatedActions \<noteq> []) ''delegated capability missing actions'') (\<lambda>_.
         bindR (guardR (getField delegatedRes ''doc_id'' = CStr docId) ''delegated capability doc_id mismatch'') (\<lambda>_.
         bindR (anyProofCap (proofCapMatches ev docId delegatedRes delegatedActions) proofCaps) (\<lambda>matched.
           guardR matched ''delegation proof does not allow delegated capability'')))
     | _ \<Rightarrow> Inl ''delegated capability missing actions''))"

definition assertDelegatedGrantWithinProof ::
    "TreecrdtScopeEvaluator option \<Rightarrow> string \<Rightarrow> CapabilityGrant \<Rightarrow> CapabilityGrant \<Rightarrow> unit res" where
  "assertDelegatedGrantWithinProof ev docId proof_g delegated =
     bindR (checkWindow proof_g delegated) (\<lambda>_.
     bindR (mapR (delegatedCapWithin ev docId (cg_caps proof_g)) (cg_caps delegated)) (\<lambda>_. Inr ()))"

section \<open>Verification\<close>

fun verifyWithIssuers :: "Crypto \<Rightarrow> bytes \<Rightarrow> bytes list \<Rightarrow> bytes option" where
  "verifyWithIssuers cr tokenBytes [] = None"
| "verifyWithIssuers cr tokenBytes (pk # pks) = (case coseVerifySign1Ed25519 cr tokenBytes pk of
     Inr payload \<Rightarrow> Some payload
   | Inl _ \<Rightarrow> verifyWithIssuers cr tokenBytes pks)"

definition checkRevoked :: "Crypto \<Rightarrow> VerifyTokenOptions \<Rightarrow> bytes \<Rightarrow> nat \<Rightarrow> unit res" where
  "checkRevoked cr vo tokenBytes depth =
    (let tokenId = deriveTokenIdV1 cr tokenBytes; tokenIdHex = bytesToHex tokenId in
     bindR (guardR (case vt_revokedCapabilityTokenIds vo of None \<Rightarrow> True | Some ids \<Rightarrow> tokenIdHex \<notin> set (map bytesToHex ids))
       ''capability token revoked'') (\<lambda>_.
     case vt_isCapabilityTokenRevoked vo of
       None \<Rightarrow> Inr ()
     | Some h \<Rightarrow> bindR (h \<lparr>rcx_tokenId = tokenId, rcx_tokenIdHex = tokenIdHex, rcx_tokenBytes = Some tokenBytes,
           rcx_docId = vt_docId vo, rcx_depth = Some depth\<rparr>) (\<lambda>revoked. guardR (\<not> revoked) ''capability token revoked'')))"

definition proofToken :: "Crypto \<Rightarrow> bytes \<Rightarrow> bytes res" where
  "proofToken cr tokenBytes =
     bindR (coseDecodeSign1 cr tokenBytes) (\<lambda>decoded.
     let proofRaw = mapGet (cs_unprotected decoded) (CStr TREECRDT_DELEGATION_PROOF_HEADER_V1) in
     if nullish proofRaw then Inl ''capability token verification failed: unknown issuer (no delegation proof)''
     else case proofRaw of
       CBytes b \<Rightarrow> Inr b
     | CArr vs \<Rightarrow> if list_all (\<lambda>v. case v of CBytes _ \<Rightarrow> True | _ \<Rightarrow> False) vs
         then (case vs of [CBytes b] \<Rightarrow> Inr b | _ \<Rightarrow> Inl ''delegation proof must contain exactly 1 proof token'')
         else Inl ''delegation proof must be a bstr or an array of bstr''
     | _ \<Rightarrow> Inl ''delegation proof must be a bstr or an array of bstr'')"

function parseAndVerifyCapabilityTokenDepth ::
    "Crypto \<Rightarrow> VerifyTokenOptions \<Rightarrow> bytes \<Rightarrow> nat \<Rightarrow> string list \<Rightarrow> CapabilityGrant res" where
  "parseAndVerifyCapabilityTokenDepth cr vo tokenBytes depth seenTokenIds =
    (if vt_issuerPublicKeys vo = [] then Inl ''issuerPublicKeys is empty''
     else if depth > MAX_DELEGATION_PROOF_CHAIN then Inl ''delegation proof chain is too deep''
     else
       let tokenId = deriveTokenIdV1 cr tokenBytes; tokenIdHex = bytesToHex tokenId in
       if tokenIdHex \<in> set seenTokenIds then Inl ''delegation proof cycle detected''
       else bindR (checkRevoked cr vo tokenBytes depth) (\<lambda>_.
         case verifyWithIssuers cr tokenBytes (vt_issuerPublicKeys vo) of
           Some payload \<Rightarrow> parseCapabilityGrantFromClaims cr tokenId payload (vt_docId vo) (vt_nowSec vo)
         | None \<Rightarrow>
             bindR (proofToken cr tokenBytes) (\<lambda>pt.
             bindR (parseAndVerifyCapabilityTokenDepth cr vo pt (depth + 1) (seenTokenIds @ [tokenIdHex])) (\<lambda>proofGrant.
             bindR (coseVerifySign1Ed25519 cr tokenBytes (cg_publicKey proofGrant)) (\<lambda>delegatedPayload.
             bindR (parseCapabilityGrantFromClaims cr tokenId delegatedPayload (vt_docId vo) (vt_nowSec vo)) (\<lambda>delegatedGrant.
             bindR (assertDelegatedGrantWithinProof (vt_scopeEvaluator vo) (vt_docId vo) proofGrant delegatedGrant) (\<lambda>_.
               Inr delegatedGrant)))))))"
  by pat_completeness auto
termination
  by (relation "measure (\<lambda>(cr, vo, tb, depth, seen). Suc MAX_DELEGATION_PROOF_CHAIN - depth)") auto

declare parseAndVerifyCapabilityTokenDepth.simps [simp del]

definition parseAndVerifyCapabilityToken :: "Crypto \<Rightarrow> VerifyTokenOptions \<Rightarrow> bytes \<Rightarrow> CapabilityGrant res" where
  "parseAndVerifyCapabilityToken cr vo tokenBytes = parseAndVerifyCapabilityTokenDepth cr vo tokenBytes 0 []"

text \<open>\<^verbatim>\<open>describeTreecrdtCapabilityTokenV1\<close>: a verified token in readable form.\<close>

record TreecrdtCapabilityV1 =
  tc_actions :: "string list"
  tc_docId :: string
  tc_rootNodeId :: string
  tc_maxDepth :: "int option"
  tc_excludeNodeIds :: "string list option"

record TreecrdtCapabilityTokenV1 =
  ct_tokenId :: bytes
  ct_subjectKeyId :: bytes
  ct_subjectPublicKey :: bytes
  ct_caps :: "TreecrdtCapabilityV1 list"
  ct_exp :: "int option"
  ct_nbf :: "int option"

definition describeCap :: "cval \<Rightarrow> TreecrdtCapabilityV1 res" where
  "describeCap cap =
    (let res = getField cap ''res'' in
     bindR (guardR (is_object res) ''capability missing res'') (\<lambda>_.
     bindR (case getField cap ''actions'' of CArr as \<Rightarrow> if as = [] then Inl ''capability missing actions'' else Inr as
            | _ \<Rightarrow> Inl ''capability missing actions'') (\<lambda>actions.
     bindR (case getField res ''doc_id'' of CStr d \<Rightarrow> if trim_js d = [] then Inl ''capability res.doc_id missing'' else Inr d
            | _ \<Rightarrow> Inl ''capability res.doc_id missing'') (\<lambda>docId.
     bindR (parseScope res) (\<lambda>scope.
       Inr \<lparr>tc_actions = map js_String actions, tc_docId = docId, tc_rootNodeId = bytesToHex (sc_root scope),
            tc_maxDepth = sc_maxDepth scope, tc_excludeNodeIds = map_option (map bytesToHex) (sc_exclude scope)\<rparr>)))))"

definition describeTreecrdtCapabilityTokenV1 :: "Crypto \<Rightarrow> VerifyTokenOptions \<Rightarrow> bytes \<Rightarrow> TreecrdtCapabilityTokenV1 res" where
  "describeTreecrdtCapabilityTokenV1 cr vo tokenBytes =
     bindR (parseAndVerifyCapabilityToken cr vo tokenBytes) (\<lambda>grant.
     bindR (guardR (cg_caps grant \<noteq> []) ''capability token must be a v1 capability token'') (\<lambda>_.
     bindR (mapR describeCap (cg_caps grant)) (\<lambda>caps.
       Inr \<lparr>ct_tokenId = cg_tokenId grant, ct_subjectKeyId = cg_keyId grant, ct_subjectPublicKey = cg_publicKey grant,
            ct_caps = caps, ct_exp = cg_exp grant, ct_nbf = cg_nbf grant\<rparr>)))"

section \<open>Containment\<close>

definition grant_within :: "tree_nodes \<Rightarrow> string \<Rightarrow> CapabilityGrant \<Rightarrow> CapabilityGrant \<Rightarrow> bool" where
  "grant_within t doc g g' \<longleftrightarrow>
     (\<forall>node acts. permits_any t doc (cg_caps g) node acts \<longrightarrow> permits_any t doc (cg_caps g') node acts)
   \<and> (\<forall>e'. cg_exp g' = Some e' \<longrightarrow> (\<exists>e. cg_exp g = Some e \<and> e \<le> e'))
   \<and> (\<forall>n'. cg_nbf g' = Some n' \<longrightarrow> (\<exists>n. cg_nbf g = Some n \<and> n' \<le> n))"

lemma grant_within_refl: "grant_within t doc g g"
  by (simp add: grant_within_def)

lemma grant_within_trans: "grant_within t doc g h \<Longrightarrow> grant_within t doc h k \<Longrightarrow> grant_within t doc g k"
  unfolding grant_within_def by (meson order_trans)

text \<open>The evaluator a verifier on the tree \<open>t\<close> uses: none, or the one that reads the tree.\<close>

definition evaluates :: "tree_nodes \<Rightarrow> TreecrdtScopeEvaluator option \<Rightarrow> bool" where
  "evaluates t ev \<longleftrightarrow> ev = None \<or> ev = Some (sqliteScopeEvaluator t)"

lemma tri_case_Allow:
  "(case tri of Deny \<Rightarrow> Inl a | Unknown \<Rightarrow> Inl b | Allow \<Rightarrow> Inr ()) = Inr () \<longleftrightarrow> tri = Allow"
  by (cases tri) simp_all

lemma checkRootWithin_ok:
  assumes "wf_tree t" "evaluates t ev" "checkRootWithin ev doc outer inner = Inr ()"
  shows "sc_root inner = sc_root outer \<or> (sc_maxDepth outer = None \<and> in_subtree t outer (sc_root inner))"
proof (cases "sc_root inner = sc_root outer")
  case False
  with assms obtain "sc_maxDepth outer = None" "sqliteScopeEvaluator t doc (sc_root inner) outer = Inr Allow"
    by (auto simp: checkRootWithin_def evaluates_def bindR_eq_Inr tri_case_Allow split: if_splits)
  then show ?thesis using sqlite_correct [OF assms(1), of outer "sc_root inner" doc]
    by (auto simp: walk_ok_def in_subtree_def)
qed simp

lemma checkExcludeWithin_ok: "checkExcludeWithin outer inner = Inr () \<Longrightarrow> set (excludes outer) \<subseteq> set (excludes inner)"
  by (auto simp: checkExcludeWithin_def list_all_iff)

lemma checkDepthWithin_ok: "checkDepthWithin outer inner = Inr () \<Longrightarrow> depth_ok inner d \<Longrightarrow> depth_ok outer d"
  by (auto simp: checkDepthWithin_def depth_ok_def split: option.splits)

lemma root_in_no_subtree: "in_subtree t scope (replicate 16 0) \<Longrightarrow> sc_root scope = replicate 16 0"
  by (auto simp: in_subtree_def reserved_iff elim: reach.elims)

lemma docWide_iff: "isDocWideScope s \<longleftrightarrow> sc_root s = replicate 16 0 \<and> sc_maxDepth s = None \<and> excludes s = []"
  by (simp add: isDocWideScope_def reserved_bytes)

lemma scope_contained:
  assumes "wf_tree t" "evaluates t ev" "checkRootWithin ev doc outer inner = Inr ()"
    "checkDepthWithin outer inner = Inr ()" "checkExcludeWithin outer inner = Inr ()" "\<not> isDocWideScope outer"
    "node = sc_root inner \<or> isDocWideScope inner \<or> in_subtree t inner node"
  shows "node = sc_root outer \<or> in_subtree t outer node"
proof -
  note root = checkRootWithin_ok [OF assms(1-3)]
  note ex = checkExcludeWithin_ok [OF assms(5)]
  note dep = checkDepthWithin_ok [OF assms(4)]
  have nd: "\<not> isDocWideScope inner"
  proof
    assume i: "isDocWideScope inner"
    then have "sc_maxDepth outer = None" using assms(4) by (auto simp: docWide_iff checkDepthWithin_def split: option.splits)
    moreover have "excludes outer = []" using ex i by (simp add: docWide_iff)
    moreover have "sc_root outer = replicate 16 0" using root root_in_no_subtree [of t outer] i by (auto simp: docWide_iff)
    ultimately show False using assms(6) by (simp add: docWide_iff)
  qed
  from root show ?thesis
  proof
    assume r: "sc_root inner = sc_root outer"
    then show ?thesis using assms(7) nd in_subtree_mono [OF _ r ex dep] by auto
  next
    assume r: "sc_maxDepth outer = None \<and> in_subtree t outer (sc_root inner)"
    then show ?thesis using assms(7) nd in_subtree_trans [of t inner node outer] ex by blast
  qed
qed

lemma scopeWithin_contained:
  assumes "wf_tree t" "evaluates t ev" "scopeWithin ev doc proofRes delegatedRes = Inr ()"
  obtains outer inner where "parseScope proofRes = Inr outer" "parseScope delegatedRes = Inr inner"
    "\<And>node. node = sc_root inner \<or> isDocWideScope inner \<or> in_subtree t inner node \<Longrightarrow>
       node = sc_root outer \<or> isDocWideScope outer \<or> in_subtree t outer node"
proof -
  obtain outer inner where s: "parseScope proofRes = Inr outer" "parseScope delegatedRes = Inr inner"
      "isDocWideScope outer \<or> (checkRootWithin ev doc outer inner = Inr () \<and> checkDepthWithin outer inner = Inr ()
         \<and> checkExcludeWithin outer inner = Inr ())"
    using assms(3) by (auto simp: scopeWithin_def bindR_eq_Inr split: if_splits)
  show ?thesis
    by (rule that [OF s(1,2)]) (use s(3) scope_contained [OF assms(1,2)] in blast)
qed

lemma anyProofCap_True: "anyProofCap f cs = Inr True \<Longrightarrow> \<exists>c \<in> set cs. f c = Inr True"
  by (induction cs) (auto simp: bindR_eq_Inr split: if_splits)

lemma delegatedCap_contained:
  assumes "wf_tree t" "evaluates t ev" "delegatedCapWithin ev doc proofCaps cap = Inr ()" "permits t doc cap node acts"
  shows "permits_any t doc proofCaps node acts"
proof -
  let ?res = "getField cap ''res''"
  obtain actions scope where p: "getField cap ''actions'' = CArr actions"
      "set acts \<subseteq> set (expandCapabilityActions actions)" "parseScope ?res = Inr scope"
      "node = sc_root scope \<or> isDocWideScope scope \<or> in_subtree t scope node"
    using assms(4) by (auto simp: permits_def)
  have "anyProofCap (proofCapMatches ev doc ?res actions) proofCaps = Inr True"
    using assms(3) p(1) by (auto simp: delegatedCapWithin_def bindR_eq_Inr Let_def)
  then obtain pc where pc: "pc \<in> set proofCaps" "proofCapMatches ev doc ?res actions pc = Inr True"
    by (blast dest: anyProofCap_True)
  then obtain pacts where m: "getField pc ''actions'' = CArr pacts" "getField (getField pc ''res'') ''doc_id'' = CStr doc"
      "set (expandCapabilityActions actions) \<subseteq> set (expandCapabilityActions pacts)"
      "scopeWithin ev doc (getField pc ''res'') ?res = Inr ()"
    by (auto simp: proofCapMatches_def Let_def bindR_eq_Inr split: if_splits cval.splits)
  obtain outer inner where s: "parseScope (getField pc ''res'') = Inr outer" "parseScope ?res = Inr inner"
    "\<And>node. node = sc_root inner \<or> isDocWideScope inner \<or> in_subtree t inner node \<Longrightarrow>
       node = sc_root outer \<or> isDocWideScope outer \<or> in_subtree t outer node"
    using scopeWithin_contained [OF assms(1,2) m(4)] by blast
  have "permits t doc pc node acts"
    unfolding permits_def using m p s by (intro exI [of _ pacts] exI [of _ outer]) auto
  with pc(1) show ?thesis by (auto simp: permits_any_def)
qed

lemma within_contained:
  assumes "wf_tree t" "evaluates t ev" "assertDelegatedGrantWithinProof ev doc proof_g delegated = Inr ()"
  shows "grant_within t doc delegated proof_g"
proof -
  have w: "checkWindow proof_g delegated = Inr ()"
    and c: "\<forall>cap \<in> set (cg_caps delegated). delegatedCapWithin ev doc (cg_caps proof_g) cap = Inr ()"
    using assms(3) by (auto simp: assertDelegatedGrantWithinProof_def bindR_eq_Inr mapR_Inr_iff list_all2_conv_all_nth in_set_conv_nth)
  have "permits_any t doc (cg_caps proof_g) node acts" if "permits_any t doc (cg_caps delegated) node acts" for node acts
    using that c delegatedCap_contained [OF assms(1,2)] by (auto simp: permits_any_def)
  with w show ?thesis
    by (auto simp: grant_within_def checkWindow_def bindR_eq_Inr split: option.splits)
qed

section \<open>Chains of delegation\<close>

inductive delegation_chain :: "Crypto \<Rightarrow> VerifyTokenOptions \<Rightarrow> bytes \<Rightarrow> CapabilityGrant \<Rightarrow> nat \<Rightarrow> CapabilityGrant \<Rightarrow> bool"
  for cr vo where
  issued: "iss \<in> set (vt_issuerPublicKeys vo) \<Longrightarrow> coseVerifySign1Ed25519 cr token iss = Inr payload \<Longrightarrow>
    parseCapabilityGrantFromClaims cr (deriveTokenIdV1 cr token) payload (vt_docId vo) (vt_nowSec vo) = Inr g \<Longrightarrow>
    checkRevoked cr vo token d = Inr () \<Longrightarrow> delegation_chain cr vo token g 0 g"
| delegated: "delegation_chain cr vo pt pg n root \<Longrightarrow> proofToken cr token = Inr pt \<Longrightarrow>
    coseVerifySign1Ed25519 cr token (cg_publicKey pg) = Inr payload \<Longrightarrow>
    parseCapabilityGrantFromClaims cr (deriveTokenIdV1 cr token) payload (vt_docId vo) (vt_nowSec vo) = Inr g \<Longrightarrow>
    assertDelegatedGrantWithinProof (vt_scopeEvaluator vo) (vt_docId vo) pg g = Inr () \<Longrightarrow>
    checkRevoked cr vo token d = Inr () \<Longrightarrow> delegation_chain cr vo token g (Suc n) root"

lemma verifyWithIssuers_Some:
  "verifyWithIssuers cr tb pks = Some payload \<Longrightarrow> \<exists>pk \<in> set pks. coseVerifySign1Ed25519 cr tb pk = Inr payload"
  by (induction pks) (auto split: sum.splits)

lemma parse_chain:
  "parseAndVerifyCapabilityTokenDepth cr vo tb depth seen = Inr g \<Longrightarrow>
    \<exists>n root. depth + n \<le> MAX_DELEGATION_PROOF_CHAIN \<and> delegation_chain cr vo tb g n root"
proof (induction cr vo tb depth seen arbitrary: g rule: parseAndVerifyCapabilityTokenDepth.induct)
  case (1 cr vo tb depth seen)
  let ?id = "deriveTokenIdV1 cr tb"
  have d: "depth \<le> MAX_DELEGATION_PROOF_CHAIN" and rv: "checkRevoked cr vo tb depth = Inr ()"
    and ne: "vt_issuerPublicKeys vo \<noteq> []" "bytesToHex ?id \<notin> set seen"
    using 1(2) by (subst (asm) parseAndVerifyCapabilityTokenDepth.simps,
        auto simp: Let_def bindR_eq_Inr split: if_splits)+
  show ?case
  proof (cases "verifyWithIssuers cr tb (vt_issuerPublicKeys vo)")
    case (Some payload)
    then obtain iss where "iss \<in> set (vt_issuerPublicKeys vo)" "coseVerifySign1Ed25519 cr tb iss = Inr payload"
      by (blast dest: verifyWithIssuers_Some)
    moreover have "parseCapabilityGrantFromClaims cr ?id payload (vt_docId vo) (vt_nowSec vo) = Inr g"
      using 1(2) Some rv d ne by (subst (asm) parseAndVerifyCapabilityTokenDepth.simps) (simp add: Let_def)
    ultimately have "delegation_chain cr vo tb g 0 g" using rv by (intro issued)
    then show ?thesis using d by (intro exI [of _ 0]) auto
  next
    case None
    obtain pt pg payload where p: "proofToken cr tb = Inr pt"
        "parseAndVerifyCapabilityTokenDepth cr vo pt (depth + 1) (seen @ [bytesToHex ?id]) = Inr pg"
        "coseVerifySign1Ed25519 cr tb (cg_publicKey pg) = Inr payload"
        "parseCapabilityGrantFromClaims cr ?id payload (vt_docId vo) (vt_nowSec vo) = Inr g"
        "assertDelegatedGrantWithinProof (vt_scopeEvaluator vo) (vt_docId vo) pg g = Inr ()"
      using 1(2) None rv d ne by (subst (asm) (2) parseAndVerifyCapabilityTokenDepth.simps) (auto simp: Let_def bindR_eq_Inr)
    obtain n root where "depth + 1 + n \<le> MAX_DELEGATION_PROOF_CHAIN" "delegation_chain cr vo pt pg n root"
      using 1(1) [OF ne(1) _ refl refl ne(2) None p(2)] d by auto
    moreover from this(2) p(1,3-5) rv have "delegation_chain cr vo tb g (Suc n) root" by (intro delegated)
    ultimately show ?thesis by (intro exI [of _ "Suc n"] exI [of _ root]) simp
  qed
qed

lemma chain_within:
  assumes "delegation_chain cr vo token g n root" "wf_tree t" "evaluates t (vt_scopeEvaluator vo)"
  shows "grant_within t (vt_docId vo) g root"
  using assms(1)
proof induction
  case (delegated pt pg n root token payload g d)
  from within_contained [OF assms(2,3) delegated.hyps(5)] delegated.IH show ?case by (rule grant_within_trans)
qed (rule grant_within_refl)

section \<open>Issued tokens\<close>

lemma coseVerify_payload:
  "coseDecodeSign1 cr tb = Inr c \<Longrightarrow> coseVerifySign1Ed25519 cr tb pk = Inr p \<Longrightarrow> p = cs_payload c"
  by (auto simp: coseVerifySign1Ed25519_def bindR_eq_Inr split: if_splits)

lemma verifyWithIssuers_signed:
  assumes "lawful_crypto cr pk" "pk sk \<in> set pks"
  shows "verifyWithIssuers cr (coseSign1Ed25519 cr payload sk unprot) pks = Some payload"
  using assms(2)
proof (induction pks)
  case (Cons k ks)
  obtain c where c: "coseDecodeSign1 cr (coseSign1Ed25519 cr payload sk unprot) = Inr c" "cs_payload c = payload"
    using cose_sign_decode [OF assms(1), of payload sk unprot] by auto
  show ?case
  proof (cases "coseVerifySign1Ed25519 cr (coseSign1Ed25519 cr payload sk unprot) k")
    case (Inl e)
    then have "k \<noteq> pk sk" using cose_sign_verify [OF assms(1), of payload sk unprot] by auto
    with Inl Cons show ?thesis by simp
  next
    case (Inr p)
    with coseVerify_payload [OF c(1)] c(2) show ?thesis by auto
  qed
qed simp

lemma nodeId_hex: "nodeIdToBytes16 r = Inr b \<Longrightarrow> normalizeNodeId r = Inr (bytesToHex b)"
  by (auto simp: nodeIdToBytes16_normalize bindR_eq_Inr)
    (metis bytesToHex_hex_pairs canonical_node_id_def dvd_triv_left mult_2 normalizeNodeId_canonical numeral_Bit0)

lemma nodeIds_hex: "mapR nodeIdToBytes16 ids = Inr bs \<Longrightarrow> mapR normalizeNodeId ids = Inr (map bytesToHex bs)"
  by (induction ids arbitrary: bs) (auto simp: bindR_eq_Inr nodeId_hex)

lemma mapR_bytesEntry [simp]: "mapR bytesEntry (map CBytes bs) = Inr bs"
  by (induction bs) simp_all

definition in_window :: "int \<Rightarrow> int option \<Rightarrow> int option \<Rightarrow> bool" where
  "in_window now exp nbf = ((case exp of None \<Rightarrow> True | Some e \<Rightarrow> now \<le> e) \<and> (case nbf of None \<Rightarrow> True | Some n \<Rightarrow> n \<le> now))"

lemma optEntry_get:
  "js_get (optEntry k v) k' = (if k' = k then map_option CNum v else None)"
  by (auto simp: optEntry_def js_get_def split: option.splits)

lemma js_get_append: "js_get (xs @ ys) k = (case js_get xs k of None \<Rightarrow> js_get ys k | Some v \<Rightarrow> Some v)"
  by (simp add: js_get_def map_of_append map_add_def split: option.splits)

lemma js_get_Cons: "js_get ((k, v) # m) k' = (if k' = k then Some v else js_get m k')"
  by (simp add: js_get_def)

lemmas claim_simps = getClaim_def mapGet_def js_get_append js_get_Cons optEntry_get Let_def

text \<open>The capability an issued token carries, described.\<close>

lemma issued_cap:
  assumes "tokenClaims cr opts = Inr claims" "trim_js (io_docId opts) \<noteq> []" "io_actions opts \<noteq> []"
  shows "\<exists>m cap d. claims = CMap m \<and> getClaim m 3 ''aud'' = CStr (io_docId opts)
    \<and> toNumber (getClaim m 4 ''exp'') = Inr (io_exp opts) \<and> toNumber (getClaim m 5 ''nbf'') = Inr (io_nbf opts)
    \<and> subjectKey cr (getClaim m 8 ''cnf'') = Inr (deriveKeyIdV1 cr (io_subjectPublicKey opts), io_subjectPublicKey opts)
    \<and> getClaim m (- 1) ''caps'' = CArr [cap] \<and> describeCap cap = Inr d
    \<and> tc_actions d = io_actions opts \<and> tc_docId d = io_docId opts
    \<and> normalizeNodeId (case io_rootNodeId opts of None \<Rightarrow> ROOT_NODE_ID_HEX | Some r \<Rightarrow> r) = Inr (tc_rootNodeId d)
    \<and> tc_maxDepth d = io_maxDepth opts
    \<and> mapR normalizeNodeId (case io_excludeNodeIds opts of None \<Rightarrow> [] | Some ids \<Rightarrow> ids)
        = Inr (case tc_excludeNodeIds d of None \<Rightarrow> [] | Some ids \<Rightarrow> ids)"
proof -
  obtain root excl where r: "nodeIdToBytes16 (case io_rootNodeId opts of None \<Rightarrow> ROOT_NODE_ID_HEX | Some r \<Rightarrow> r) = Inr root"
    and e: "(case io_excludeNodeIds opts of None \<Rightarrow> Inr [] | Some ids \<Rightarrow> if ids = [] then Inr []
                else bindR (mapR nodeIdToBytes16 ids) (\<lambda>bs. Inr [(CStr ''exclude'', CArr (map CBytes bs))])) = Inr excl"
    using assms(1) unfolding tokenClaims_def bindR_eq_Inr by blast
  define bs where "bs = (case excl of [(_, CArr vs)] \<Rightarrow> Some (map (\<lambda>v. case v of CBytes b \<Rightarrow> b | _ \<Rightarrow> []) vs) | _ \<Rightarrow> None)"
  have x: "excl = (case bs of None \<Rightarrow> [] | Some bs \<Rightarrow> [(CStr ''exclude'', CArr (map CBytes bs))])"
    "mapR normalizeNodeId (case io_excludeNodeIds opts of None \<Rightarrow> [] | Some ids \<Rightarrow> ids) = Inr (case bs of None \<Rightarrow> [] | Some bs \<Rightarrow> map bytesToHex bs)"
    using e by (auto simp: bs_def bindR_eq_Inr comp_def nodeIds_hex split: option.splits if_splits)
  define res where "res = CMap ([(CStr ''doc_id'', CStr (io_docId opts)), (CStr ''root'', CBytes root)]
                     @ optEntry (CStr ''max_depth'') (io_maxDepth opts) @ excl)"
  define cap where "cap = CMap [(CStr ''res'', res), (CStr ''actions'', CArr (map CStr (io_actions opts)))]"
  define m where "m = [(CNum 3, CStr (io_docId opts)), (CNum 8, CMap [(CStr ''pub'', CBytes (io_subjectPublicKey opts)),
              (CStr ''kid'', CBytes (deriveKeyIdV1 cr (io_subjectPublicKey opts)))]), (CNum (- 1), CArr [cap])]
              @ optEntry (CNum 4) (io_exp opts) @ optEntry (CNum 5) (io_nbf opts)"
  have c: "claims = CMap m"
    using assms(1) r e by (simp add: tokenClaims_def cap_def res_def m_def Let_def)
  have ps: "parseScope res = Inr \<lparr>sc_root = root, sc_maxDepth = io_maxDepth opts, sc_exclude = bs\<rparr>"
    by (cases "io_maxDepth opts"; cases bs) (simp_all add: res_def parseScope_def claim_simps toNumber_def x(1))
  define d where "d = \<lparr>tc_actions = io_actions opts, tc_docId = io_docId opts, tc_rootNodeId = bytesToHex root,
     tc_maxDepth = io_maxDepth opts, tc_excludeNodeIds = map_option (map bytesToHex) bs\<rparr>"
  have "getField cap ''res'' = res" "getField cap ''actions'' = CArr (map CStr (io_actions opts))" "getField res ''doc_id'' = CStr (io_docId opts)"
    "is_object res" by (simp_all add: cap_def res_def claim_simps)
  then have desc: "describeCap cap = Inr d"
    using assms(2,3) ps by (simp add: describeCap_def d_def guardR_def comp_def)
  have n: "toNumber (getClaim m 4 ''exp'') = Inr (io_exp opts)" "toNumber (getClaim m 5 ''nbf'') = Inr (io_nbf opts)"
    by (cases "io_exp opts"; cases "io_nbf opts"; simp add: m_def claim_simps toNumber_def)+
  have g: "getClaim m 3 ''aud'' = CStr (io_docId opts)" "getClaim m (- 1) ''caps'' = CArr [cap]"
    "subjectKey cr (getClaim m 8 ''cnf'') = Inr (deriveKeyIdV1 cr (io_subjectPublicKey opts), io_subjectPublicKey opts)"
    by (simp_all add: m_def claim_simps subjectKey_def)
  have "mapR normalizeNodeId (case io_excludeNodeIds opts of None \<Rightarrow> [] | Some ids \<Rightarrow> ids)
        = Inr (case tc_excludeNodeIds d of None \<Rightarrow> [] | Some ids \<Rightarrow> ids)"
    unfolding x(2) d_def by (cases bs) simp_all
  moreover have "tc_actions d = io_actions opts" "tc_docId d = io_docId opts" "tc_maxDepth d = io_maxDepth opts" "tc_rootNodeId d = bytesToHex root"
    by (simp_all add: d_def)
  ultimately show ?thesis
    using c n g desc nodeId_hex [OF r] by metis
qed

section \<open>Properties\<close>


definition demo_grant :: "string list \<Rightarrow> bytes \<Rightarrow> int option \<Rightarrow> CapabilityGrant" where
  "demo_grant acts root exp = \<lparr>cg_tokenId = [], cg_keyId = [], cg_publicKey = [],
     cg_caps = [CMap [(CStr ''res'', CMap [(CStr ''doc_id'', CStr ''doc''), (CStr ''root'', CBytes root)]),
       (CStr ''actions'', CArr (map CStr acts))]], cg_exp = exp, cg_nbf = None\<rparr>"



text \<open>Verification of a token an issuer signed, shared by the round trip and the witness.\<close>

lemma issued_verifies:
  assumes "lawful_crypto cr pk" "issueTreecrdtCapabilityTokenV1 cr sk opts = Inr token"
    "pk sk \<in> set (vt_issuerPublicKeys vo)" "vt_docId vo = io_docId opts"
    "in_window (vt_nowSec vo) (io_exp opts) (io_nbf opts)" "checkRevoked cr vo token 0 = Inr ()"
  shows "\<exists>cap d. parseAndVerifyCapabilityToken cr vo token = Inr \<lparr>cg_tokenId = deriveTokenIdV1 cr token,
      cg_keyId = deriveKeyIdV1 cr (io_subjectPublicKey opts), cg_publicKey = io_subjectPublicKey opts,
      cg_caps = [cap], cg_exp = io_exp opts, cg_nbf = io_nbf opts\<rparr> \<and> describeCap cap = Inr d
    \<and> tc_actions d = io_actions opts \<and> tc_docId d = io_docId opts
    \<and> normalizeNodeId (case io_rootNodeId opts of None \<Rightarrow> ROOT_NODE_ID_HEX | Some r \<Rightarrow> r) = Inr (tc_rootNodeId d)
    \<and> tc_maxDepth d = io_maxDepth opts
    \<and> mapR normalizeNodeId (case io_excludeNodeIds opts of None \<Rightarrow> [] | Some ids \<Rightarrow> ids)
        = Inr (case tc_excludeNodeIds d of None \<Rightarrow> [] | Some ids \<Rightarrow> ids)"
proof -
  obtain claims where i: "trim_js (io_docId opts) \<noteq> []" "io_actions opts \<noteq> []" "tokenClaims cr opts = Inr claims"
      "token = coseSign1Ed25519 cr (cborEncode cr claims) sk []"
    using assms(2) by (auto simp: issueTreecrdtCapabilityTokenV1_def bindR_eq_Inr)
  obtain m cap d where m: "claims = CMap m" "getClaim m 3 ''aud'' = CStr (io_docId opts)"
    "toNumber (getClaim m 4 ''exp'') = Inr (io_exp opts)" "toNumber (getClaim m 5 ''nbf'') = Inr (io_nbf opts)"
    "subjectKey cr (getClaim m 8 ''cnf'') = Inr (deriveKeyIdV1 cr (io_subjectPublicKey opts), io_subjectPublicKey opts)"
    "getClaim m (- 1) ''caps'' = CArr [cap]"
    and d: "describeCap cap = Inr d" "tc_actions d = io_actions opts" "tc_docId d = io_docId opts"
    "normalizeNodeId (case io_rootNodeId opts of None \<Rightarrow> ROOT_NODE_ID_HEX | Some r \<Rightarrow> r) = Inr (tc_rootNodeId d)"
    "tc_maxDepth d = io_maxDepth opts"
    "mapR normalizeNodeId (case io_excludeNodeIds opts of None \<Rightarrow> [] | Some ids \<Rightarrow> ids)
        = Inr (case tc_excludeNodeIds d of None \<Rightarrow> [] | Some ids \<Rightarrow> ids)"
    using issued_cap [OF i(3,1,2)] by blast
  have v: "verifyWithIssuers cr token (vt_issuerPublicKeys vo) = Some (cborEncode cr (CMap m))"
    unfolding i(4) m(1) by (rule verifyWithIssuers_signed [OF assms(1,3)])
  have "vt_issuerPublicKeys vo \<noteq> []" using assms(3) by auto
  then have "parseAndVerifyCapabilityToken cr vo token =
      parseCapabilityGrantFromClaims cr (deriveTokenIdV1 cr token) (cborEncode cr (CMap m)) (vt_docId vo) (vt_nowSec vo)"
    unfolding parseAndVerifyCapabilityToken_def
    by (subst parseAndVerifyCapabilityTokenDepth.simps) (simp add: v assms(6) MAX_DELEGATION_PROOF_CHAIN_def Let_def)
  also have "\<dots> = Inr \<lparr>cg_tokenId = deriveTokenIdV1 cr token,
      cg_keyId = deriveKeyIdV1 cr (io_subjectPublicKey opts), cg_publicKey = io_subjectPublicKey opts,
      cg_caps = [cap], cg_exp = io_exp opts, cg_nbf = io_nbf opts\<rparr>"
    using m assms(4,5) by (simp add: parseCapabilityGrantFromClaims_def lawful_simps [OF assms(1)] checkAudience_def
        guardR_def in_window_def)
  finally show ?thesis using d by blast
qed

text \<open>
  Issuing and reading a token round trips: a token issued with a private key whose public key
  is trusted, inside its time window and not revoked, is described with the subject, actions,
  document, depth limit and time window it was issued for, and with its node ids in canonical form.
\<close>
theorem issued_token_described:
  assumes "lawful_crypto cr pk" and "issueTreecrdtCapabilityTokenV1 cr sk opts = Inr token"
    and "pk sk \<in> set (vt_issuerPublicKeys vo)" and "vt_docId vo = io_docId opts"
    and "in_window (vt_nowSec vo) (io_exp opts) (io_nbf opts)" and "checkRevoked cr vo token 0 = Inr ()"
  shows "\<exists>d. describeTreecrdtCapabilityTokenV1 cr vo token = Inr \<lparr>ct_tokenId = deriveTokenIdV1 cr token,
      ct_subjectKeyId = deriveKeyIdV1 cr (io_subjectPublicKey opts), ct_subjectPublicKey = io_subjectPublicKey opts,
      ct_caps = [d], ct_exp = io_exp opts, ct_nbf = io_nbf opts\<rparr>
    \<and> tc_actions d = io_actions opts \<and> tc_docId d = io_docId opts \<and> tc_maxDepth d = io_maxDepth opts
    \<and> normalizeNodeId (case io_rootNodeId opts of None \<Rightarrow> ROOT_NODE_ID_HEX | Some r \<Rightarrow> r) = Inr (tc_rootNodeId d)
    \<and> mapR normalizeNodeId (case io_excludeNodeIds opts of None \<Rightarrow> [] | Some ids \<Rightarrow> ids)
        = Inr (case tc_excludeNodeIds d of None \<Rightarrow> [] | Some ids \<Rightarrow> ids)"
proof -
  from issued_verifies [OF assms] obtain cap d where p:
    "parseAndVerifyCapabilityToken cr vo token = Inr \<lparr>cg_tokenId = deriveTokenIdV1 cr token,
      cg_keyId = deriveKeyIdV1 cr (io_subjectPublicKey opts), cg_publicKey = io_subjectPublicKey opts,
      cg_caps = [cap], cg_exp = io_exp opts, cg_nbf = io_nbf opts\<rparr>" "describeCap cap = Inr d"
    "tc_actions d = io_actions opts \<and> tc_docId d = io_docId opts \<and> tc_maxDepth d = io_maxDepth opts
    \<and> normalizeNodeId (case io_rootNodeId opts of None \<Rightarrow> ROOT_NODE_ID_HEX | Some r \<Rightarrow> r) = Inr (tc_rootNodeId d)
    \<and> mapR normalizeNodeId (case io_excludeNodeIds opts of None \<Rightarrow> [] | Some ids \<Rightarrow> ids)
        = Inr (case tc_excludeNodeIds d of None \<Rightarrow> [] | Some ids \<Rightarrow> ids)" by blast
  from p(1,2) have "describeTreecrdtCapabilityTokenV1 cr vo token = Inr \<lparr>ct_tokenId = deriveTokenIdV1 cr token,
      ct_subjectKeyId = deriveKeyIdV1 cr (io_subjectPublicKey opts), ct_subjectPublicKey = io_subjectPublicKey opts,
      ct_caps = [d], ct_exp = io_exp opts, ct_nbf = io_nbf opts\<rparr>"
    by (simp add: describeTreecrdtCapabilityTokenV1_def guardR_def)
  with p(3) show ?thesis by blast
qed

definition demo_issue :: IssueOptions where
  "demo_issue = \<lparr>io_subjectPublicKey = replicate 32 7, io_docId = ''doc'', io_actions = [''delete''], io_rootNodeId = None,
     io_maxDepth = Some 3, io_excludeNodeIds = None, io_exp = Some 100, io_nbf = None\<rparr>"

definition demo_verify :: VerifyTokenOptions where
  "demo_verify = \<lparr>vt_issuerPublicKeys = [demo_pk [1]], vt_docId = ''doc'', vt_nowSec = 50,
     vt_scopeEvaluator = Some (sqliteScopeEvaluator demo_tree), vt_revokedCapabilityTokenIds = Some [], vt_isCapabilityTokenRevoked = None\<rparr>"

lemma demo_issued: "\<exists>token. issueTreecrdtCapabilityTokenV1 demo_crypto [1] demo_issue = Inr token"
proof -
  have "nodeIdToBytes16 ROOT_NODE_ID_HEX = Inr (replicate 16 0)"
    by (simp add: reserved_bytes nodeIdToBytes16_canonical canonical_bytesToHex)
  then show ?thesis
    by (simp add: issueTreecrdtCapabilityTokenV1_def demo_issue_def guardR_def tokenClaims_def trim_js_def is_ws_def Let_def)
qed

lemma demo_issue_ok:
  "demo_pk [1] \<in> set (vt_issuerPublicKeys demo_verify)" "vt_docId demo_verify = io_docId demo_issue"
  "in_window (vt_nowSec demo_verify) (io_exp demo_issue) (io_nbf demo_issue)" "checkRevoked demo_crypto demo_verify token 0 = Inr ()"
  by (simp_all add: demo_verify_def demo_issue_def in_window_def checkRevoked_def guardR_def)

theorem issued_token_described_witness:
  "\<exists>token d. issueTreecrdtCapabilityTokenV1 demo_crypto [1] demo_issue = Inr token
     \<and> describeTreecrdtCapabilityTokenV1 demo_crypto demo_verify token = Inr d
     \<and> ct_subjectPublicKey d = replicate 32 7 \<and> map tc_actions (ct_caps d) = [[''delete'']] \<and> map tc_maxDepth (ct_caps d) = [Some 3]"
proof -
  obtain token where i: "issueTreecrdtCapabilityTokenV1 demo_crypto [1] demo_issue = Inr token" using demo_issued by blast
  obtain d td where td: "td = \<lparr>ct_tokenId = deriveTokenIdV1 demo_crypto token,
      ct_subjectKeyId = deriveKeyIdV1 demo_crypto (io_subjectPublicKey demo_issue), ct_subjectPublicKey = io_subjectPublicKey demo_issue,
      ct_caps = [d], ct_exp = io_exp demo_issue, ct_nbf = io_nbf demo_issue\<rparr>"
    "describeTreecrdtCapabilityTokenV1 demo_crypto demo_verify token = Inr td"
    "tc_actions d = io_actions demo_issue" "tc_maxDepth d = io_maxDepth demo_issue"
    using issued_token_described [OF demo_crypto_lawful i demo_issue_ok] by blast
  have "ct_subjectPublicKey td = replicate 32 7" "map tc_actions (ct_caps td) = [[''delete'']]" "map tc_maxDepth (ct_caps td) = [Some 3]"
    using td(3,4) by (simp_all add: td(1) demo_issue_def)
  with i td(2) show ?thesis by (intro exI [of _ token] exI [of _ td] conjI)
qed


end
