(* ===== verification/Base64url.thy ===== *)
theory Base64url
  imports Sync_Prelude
begin

text \<open>
  \<^verbatim>\<open>packages/treecrdt-auth/src/base64url.ts\<close>: how binary tokens travel as capability values.  The
  Node branch of the source is modelled: \<^verbatim>\<open>Buffer\<close> writes RFC 4648 base64 with padding and reads it
  leniently, skipping characters outside the alphabet.
\<close>

section \<open>Base64 of the platform\<close>

definition b64_alphabet :: string where
  "b64_alphabet = ''ABCDEFGHIJKLMNOPQRSTUVWXYZabcdefghijklmnopqrstuvwxyz0123456789+/''"

definition b64_char :: "nat \<Rightarrow> char" where
  "b64_char n = b64_alphabet ! n"

fun index_of :: "char \<Rightarrow> string \<Rightarrow> nat option" where
  "index_of c [] = None"
| "index_of c (d # s) = (if c = d then Some 0 else map_option Suc (index_of c s))"

definition b64_val :: "char \<Rightarrow> nat option" where
  "b64_val c = index_of c b64_alphabet"

fun b64_digits :: "bytes \<Rightarrow> nat list" where
  "b64_digits [] = []"
| "b64_digits [a] = [unat a div 4, (unat a mod 4) * 16]"
| "b64_digits [a, b] = [unat a div 4, (unat a mod 4) * 16 + unat b div 16, (unat b mod 16) * 4]"
| "b64_digits (a # b # c # bs) = [unat a div 4, (unat a mod 4) * 16 + unat b div 16,
     (unat b mod 16) * 4 + unat c div 64, unat c mod 64] @ b64_digits bs"

definition b64_padding :: "nat \<Rightarrow> string" where
  "b64_padding n = (if n mod 3 = 1 then ''=='' else if n mod 3 = 2 then ''='' else [])"

definition buffer_toBase64 :: "bytes \<Rightarrow> string" where
  "buffer_toBase64 bs = map b64_char (b64_digits bs) @ b64_padding (length bs)"

fun b64_bytes :: "nat list \<Rightarrow> bytes" where
  "b64_bytes (w # x # y # z # ds) = [of_nat (w * 4 + x div 16), of_nat ((x mod 16) * 16 + y div 4),
     of_nat ((y mod 4) * 64 + z)] @ b64_bytes ds"
| "b64_bytes [w, x, y] = [of_nat (w * 4 + x div 16), of_nat ((x mod 16) * 16 + y div 4)]"
| "b64_bytes [w, x] = [of_nat (w * 4 + x div 16)]"
| "b64_bytes _ = []"

definition buffer_fromBase64 :: "string \<Rightarrow> bytes" where
  "buffer_fromBase64 s = b64_bytes (List.map_filter b64_val s)"

section \<open>The source's functions\<close>

definition padBase64 :: "string \<Rightarrow> string" where
  "padBase64 s = (let r = length s mod 4 in if r = 0 then s else s @ replicate (4 - r) CHR ''='')"

definition replace_all :: "char \<Rightarrow> char \<Rightarrow> string \<Rightarrow> string" where
  "replace_all a b s = map (\<lambda>c. if c = a then b else c) s"

definition base64urlEncode :: "bytes \<Rightarrow> string" where
  "base64urlEncode bs = rev (dropWhile (\<lambda>c. c = CHR ''='') (rev
     (replace_all CHR ''/'' CHR ''_'' (replace_all CHR ''+'' CHR ''-'' (buffer_toBase64 bs)))))"

definition base64urlDecode :: "string \<Rightarrow> bytes" where
  "base64urlDecode input =
     buffer_fromBase64 (padBase64 (replace_all CHR ''_'' CHR ''/'' (replace_all CHR ''-'' CHR ''+'' input)))"

section \<open>Round trip\<close>

lemma index_of_nth: "distinct s \<Longrightarrow> n < length s \<Longrightarrow> index_of (s ! n) s = Some n"
proof (induction s arbitrary: n)
  case (Cons d s)
  then show ?case by (cases n) auto
qed simp

lemma length_b64_alphabet: "length b64_alphabet = 64"
  by (simp add: b64_alphabet_def)

lemma b64_val_char: "n < 64 \<Longrightarrow> b64_val (b64_char n) = Some n"
  unfolding b64_val_def b64_char_def
  by (rule index_of_nth) (simp_all add: length_b64_alphabet, simp add: b64_alphabet_def)

lemma unat_byte: "unat (a :: byte) < 256"
  using unsigned_less [of a] by simp

lemma b64_digits_bound: "d \<in> set (b64_digits bs) \<Longrightarrow> d < 64"
proof (induction bs rule: b64_digits.induct)
  case (2 a)
  then show ?case using unat_byte [of a] by auto
next
  case (3 a b)
  then show ?case using unat_byte [of a] unat_byte [of b] by auto
next
  case (4 a b c bs)
  then show ?case using unat_byte [of a] unat_byte [of b] unat_byte [of c] by auto
qed simp

lemma byte_of_unat: "n = unat a \<Longrightarrow> (of_nat n :: byte) = a"
  by simp

lemma b64_bytes_digits: "b64_bytes (b64_digits bs) = bs"
proof (induction bs rule: b64_digits.induct)
  case (3 a b)
  then show ?case using unat_byte [of a] unat_byte [of b] by (auto intro!: byte_of_unat)
next
  case (4 a b c bs)
  then show ?case using unat_byte [of a] unat_byte [of b] unat_byte [of c] by (auto intro!: byte_of_unat)
qed (auto intro!: byte_of_unat)

lemma map_filter_val: "(\<And>d. d \<in> set ds \<Longrightarrow> d < 64) \<Longrightarrow> List.map_filter b64_val (map b64_char ds) = ds"
  by (induction ds) (simp_all add: map_filter_simps b64_val_char)

lemma map_filter_pad: "List.map_filter b64_val (s @ replicate k CHR ''='') = List.map_filter b64_val s"
proof -
  have "List.map_filter b64_val (replicate k CHR ''='') = []"
    by (induction k) (simp_all add: map_filter_simps b64_val_def b64_alphabet_def)
  then show ?thesis by (simp add: map_filter_def)
qed

lemma dropWhile_pad: "(\<And>c. c \<in> set s \<Longrightarrow> c \<noteq> CHR ''='') \<Longrightarrow>
    rev (dropWhile (\<lambda>c. c = CHR ''='') (rev (s @ replicate k CHR ''=''))) = s"
proof -
  assume "\<And>c. c \<in> set s \<Longrightarrow> c \<noteq> CHR ''=''"
  then have "dropWhile (\<lambda>c. c = CHR ''='') (rev s) = rev s"
    using hd_in_set [of "rev s"] by (auto simp: dropWhile_eq_self_iff)
  moreover have "dropWhile (\<lambda>c. c = CHR ''='') (replicate k CHR ''='' @ rev s) = dropWhile (\<lambda>c. c = CHR ''='') (rev s)"
    by (rule dropWhile_append2) simp
  ultimately show ?thesis by simp
qed

lemma b64_padding_replicate: "\<exists>k. b64_padding n = replicate k CHR ''=''"
  unfolding b64_padding_def by (intro exI [of _ "if n mod 3 = 1 then 2 else if n mod 3 = 2 then 1 else 0"]) (simp add: numeral_2_eq_2)

text \<open>The characters of the url-safe alphabet.\<close>

definition url_alphabet :: string where
  "url_alphabet = ''ABCDEFGHIJKLMNOPQRSTUVWXYZabcdefghijklmnopqrstuvwxyz0123456789-_''"

definition url_safe :: "char \<Rightarrow> bool" where
  "url_safe c = (c \<in> set url_alphabet)"

definition to_url :: "char \<Rightarrow> char" where
  "to_url c = (if c = CHR ''+'' then CHR ''-'' else if c = CHR ''/'' then CHR ''_'' else c)"

definition from_url :: "char \<Rightarrow> char" where
  "from_url c = (let c' = (if c = CHR ''-'' then CHR ''+'' else c) in if c' = CHR ''_'' then CHR ''/'' else c')"

lemma url_maps: "map to_url b64_alphabet = url_alphabet" "map from_url url_alphabet = b64_alphabet"
  by (simp_all add: to_url_def from_url_def b64_alphabet_def url_alphabet_def)

lemma to_url_char:
  assumes "n < 64"
  shows "url_safe (to_url (b64_char n))" "from_url (to_url (b64_char n)) = b64_char n"
proof -
  have n: "to_url (b64_char n) = url_alphabet ! n" "length url_alphabet = 64"
    using assms length_b64_alphabet unfolding url_maps(1) [symmetric] by (simp_all add: b64_char_def)
  then show "url_safe (to_url (b64_char n))" using assms by (simp add: url_safe_def)
  have "from_url (url_alphabet ! n) = map from_url url_alphabet ! n" using assms n(2) by simp
  then show "from_url (to_url (b64_char n)) = b64_char n" unfolding n(1) url_maps by (simp add: b64_char_def)
qed

lemma base64urlEncode_digits: "base64urlEncode bs = map (\<lambda>d. to_url (b64_char d)) (b64_digits bs)"
proof -
  obtain k where k: "b64_padding (length bs) = replicate k CHR ''=''" using b64_padding_replicate by blast
  have "replace_all CHR ''/'' CHR ''_'' (replace_all CHR ''+'' CHR ''-'' (buffer_toBase64 bs))
      = map (\<lambda>d. to_url (b64_char d)) (b64_digits bs) @ replicate k CHR ''=''"
    by (auto simp: replace_all_def buffer_toBase64_def k to_url_def)
  moreover have "\<And>c. c \<in> set (map (\<lambda>d. to_url (b64_char d)) (b64_digits bs)) \<Longrightarrow> c \<noteq> CHR ''=''"
    using to_url_char(1) b64_digits_bound by (force simp: url_safe_def url_alphabet_def)
  ultimately show ?thesis unfolding base64urlEncode_def using dropWhile_pad by metis
qed

lemma padBase64_replicate: "\<exists>k. padBase64 s = s @ replicate k CHR ''=''"
  unfolding padBase64_def Let_def by (metis append.right_neutral replicate_0)

lemma base64url_inverse: "base64urlDecode (base64urlEncode bs) = bs"
proof -
  have "replace_all CHR ''_'' CHR ''/'' (replace_all CHR ''-'' CHR ''+'' s) = map from_url s" for s
    by (simp add: replace_all_def from_url_def Let_def)
  then have inv: "replace_all CHR ''_'' CHR ''/'' (replace_all CHR ''-'' CHR ''+'' (base64urlEncode bs)) = map b64_char (b64_digits bs)"
    using to_url_char(2) b64_digits_bound by (simp add: base64urlEncode_digits)
  obtain k where k: "padBase64 (map b64_char (b64_digits bs)) = map b64_char (b64_digits bs) @ replicate k CHR ''=''"
    using padBase64_replicate by blast
  show ?thesis
    by (simp add: base64urlDecode_def inv k buffer_fromBase64_def map_filter_pad map_filter_val b64_digits_bound b64_bytes_digits)
qed

text \<open>
  Capability values survive transport: decoding an encoded byte string gives it back, and the
  encoding uses the url-safe alphabet only, without padding.
\<close>
theorem base64url_roundtrip:
  "base64urlDecode (base64urlEncode bs) = bs \<and> list_all url_safe (base64urlEncode bs)"
proof
  show "list_all url_safe (base64urlEncode bs)"
    using to_url_char(1) b64_digits_bound by (auto simp: base64urlEncode_digits list_all_iff)
qed (rule base64url_inverse)

end
