(* ===== verification/Revocation.thy ===== *)
theory Revocation
  imports Capability_Token Base64url
begin

text \<open>
  Revocation of capability tokens: signed revocation records
  (\<^verbatim>\<open>packages/treecrdt-auth/src/revocation.ts\<close>), the table of the newest record per token and the
  policy that reads it (\<^verbatim>\<open>applyRevocationRecord\<close>, \<^verbatim>\<open>isRevokedByStandardPolicy\<close> of
  \<^verbatim>\<open>internal/cose-cwt-auth.ts\<close>).
\<close>

section \<open>Records\<close>

datatype RevocationMode = Hard | WriteCutover

record RevocationRecord =
  rr_docId :: string
  rr_tokenId :: bytes
  rr_mode :: RevocationMode
  rr_revSeq :: int
  rr_iat :: "int option"
  rr_effectiveFromCounter :: "int option"
  rr_effectiveFromReplica :: "bytes option"
  rr_issuerPublicKey :: bytes

definition REVOCATION_TAG :: string where
  "REVOCATION_TAG = ''treecrdt/revocation/v1''"

definition REVOCATION_V1_ALLOWED_CLAIMS :: "string list" where
  "REVOCATION_V1_ALLOWED_CLAIMS = [''v'', ''t'', ''doc_id'', ''token_id'', ''mode'', ''rev_seq'', ''iat'',
     ''effective_from_counter'', ''effective_from_replica'']"

definition TREECRDT_REVOCATION_CAPABILITY :: string where
  "TREECRDT_REVOCATION_CAPABILITY = ''auth.revocation''"

definition assertNoUnknownClaims :: "(cval \<times> cval) list \<Rightarrow> unit res" where
  "assertNoUnknownClaims m = bindR (mapR (\<lambda>(k, _). case k of
       CStr s \<Rightarrow> guardR (s \<in> set REVOCATION_V1_ALLOWED_CLAIMS) ''contains unknown claim''
     | _ \<Rightarrow> Inl ''contains non-string claim key'') m) (\<lambda>_. Inr ())"

definition assertString :: "cval \<Rightarrow> string res" where
  "assertString v = (case v of CStr s \<Rightarrow> Inr s | _ \<Rightarrow> Inl ''must be a string'')"

definition assertNonNegative :: "int \<Rightarrow> int res" where
  "assertNonNegative i = (if i < 0 then Inl ''must be a non-negative integer'' else Inr i)"

definition assertInteger :: "cval \<Rightarrow> int res" where
  "assertInteger v = (case v of CNum i \<Rightarrow> assertNonNegative i | _ \<Rightarrow> Inl ''must be a non-negative integer'')"

definition assertLen :: "nat \<Rightarrow> bytes \<Rightarrow> bytes res" where
  "assertLen n b = (if length b \<noteq> n then Inl ''wrong number of bytes'' else Inr b)"

definition assertBytesLen :: "nat \<Rightarrow> cval \<Rightarrow> bytes res" where
  "assertBytesLen n v = (case v of CBytes b \<Rightarrow> assertLen n b | _ \<Rightarrow> Inl ''must be bytes'')"

definition modeString :: "RevocationMode \<Rightarrow> string" where
  "modeString mode = (case mode of Hard \<Rightarrow> ''hard'' | WriteCutover \<Rightarrow> ''write_cutover'')"

definition parseRevocationMode :: "cval \<Rightarrow> RevocationMode res" where
  "parseRevocationMode v = (if v = CStr ''hard'' then Inr Hard else if v = CStr ''write_cutover'' then Inr WriteCutover
     else Inl ''RevocationRecordV1.mode must be hard or write_cutover'')"

definition validateModeFields :: "RevocationMode \<Rightarrow> int option \<Rightarrow> unit res" where
  "validateModeFields mode effectiveFromCounter =
     guardR (mode = Hard \<or> effectiveFromCounter \<noteq> None) ''RevocationRecordV1.write_cutover requires effective_from_counter''"

text \<open>An optional claim: \<^verbatim>\<open>raw === undefined ? undefined : check(raw)\<close>.\<close>

definition optionalClaim :: "(cval \<Rightarrow> 'a res) \<Rightarrow> cval \<Rightarrow> 'a option res" where
  "optionalClaim f v = (if v = CUndef then Inr None else bindR (f v) (\<lambda>x. Inr (Some x)))"

definition optionalArg :: "('a \<Rightarrow> 'b res) \<Rightarrow> 'a option \<Rightarrow> 'b option res" where
  "optionalArg f x = (case x of None \<Rightarrow> Inr None | Some y \<Rightarrow> bindR (f y) (\<lambda>z. Inr (Some z)))"

definition optClaim :: "string \<Rightarrow> ('a \<Rightarrow> cval) \<Rightarrow> 'a option \<Rightarrow> (cval \<times> cval) list" where
  "optClaim k c x = (case x of None \<Rightarrow> [] | Some y \<Rightarrow> [(CStr k, c y)])"

text \<open>Issuing: the record to sign is given without \<^verbatim>\<open>issuerPublicKey\<close>, which is ignored.\<close>

definition issueTreecrdtRevocationRecordV1 :: "Crypto \<Rightarrow> bytes \<Rightarrow> RevocationRecord \<Rightarrow> bytes res" where
  "issueTreecrdtRevocationRecordV1 cr issuerPrivateKey opts =
     bindR (guardR (trim_js (rr_docId opts) \<noteq> []) ''docId must not be empty'') (\<lambda>_.
     bindR (assertLen 16 (rr_tokenId opts)) (\<lambda>tokenId.
     bindR (assertNonNegative (rr_revSeq opts)) (\<lambda>revSeq.
     bindR (optionalArg assertNonNegative (rr_iat opts)) (\<lambda>iat.
     bindR (optionalArg assertNonNegative (rr_effectiveFromCounter opts)) (\<lambda>counter.
     bindR (optionalArg (assertLen 32) (rr_effectiveFromReplica opts)) (\<lambda>replica.
     bindR (validateModeFields (rr_mode opts) counter) (\<lambda>_.
       Inr (coseSign1Ed25519 cr (cborEncode cr (CMap
         ([(CStr ''v'', CNum 1), (CStr ''t'', CStr REVOCATION_TAG), (CStr ''doc_id'', CStr (rr_docId opts)),
           (CStr ''token_id'', CBytes tokenId), (CStr ''mode'', CStr (modeString (rr_mode opts))), (CStr ''rev_seq'', CNum revSeq)]
          @ optClaim ''iat'' CNum iat @ optClaim ''effective_from_counter'' CNum counter
          @ optClaim ''effective_from_replica'' CBytes replica))) issuerPrivateKey []))))))))"

fun firstVerifier :: "Crypto \<Rightarrow> bytes \<Rightarrow> bytes list \<Rightarrow> (bytes \<times> bytes) option" where
  "firstVerifier cr recordBytes [] = None"
| "firstVerifier cr recordBytes (pk # pks) = (case coseVerifySign1Ed25519 cr recordBytes pk of
     Inr payload \<Rightarrow> Some (payload, pk)
   | Inl _ \<Rightarrow> firstVerifier cr recordBytes pks)"

definition verifyTreecrdtRevocationRecordV1 ::
    "Crypto \<Rightarrow> bytes list \<Rightarrow> string option \<Rightarrow> int option \<Rightarrow> bytes \<Rightarrow> RevocationRecord res" where
  "verifyTreecrdtRevocationRecordV1 cr issuerPublicKeys expectedDocId nowSec recordBytes =
    (if issuerPublicKeys = [] then Inl ''issuerPublicKeys is empty''
     else case firstVerifier cr recordBytes issuerPublicKeys of
       None \<Rightarrow> Inl ''revocation record signature verification failed''
     | Some (payload, verifiedBy) \<Rightarrow>
       bindR (cborDecode cr payload) (\<lambda>decoded. case decoded of
         CMap m \<Rightarrow>
           bindR (assertNoUnknownClaims m) (\<lambda>_.
           bindR (guardR (mapGet m (CStr ''v'') = CNum 1) ''RevocationRecordV1.v must be 1'') (\<lambda>_.
           bindR (assertString (mapGet m (CStr ''t''))) (\<lambda>t.
           bindR (guardR (t = REVOCATION_TAG) ''RevocationRecordV1.t mismatch'') (\<lambda>_.
           bindR (assertString (mapGet m (CStr ''doc_id''))) (\<lambda>docId.
           bindR (guardR (expectedDocId = None \<or> expectedDocId = Some docId) ''RevocationRecordV1.doc_id mismatch'') (\<lambda>_.
           bindR (assertBytesLen 16 (mapGet m (CStr ''token_id''))) (\<lambda>tokenId.
           bindR (parseRevocationMode (mapGet m (CStr ''mode''))) (\<lambda>mode.
           bindR (assertInteger (mapGet m (CStr ''rev_seq''))) (\<lambda>revSeq.
           bindR (optionalClaim assertInteger (mapGet m (CStr ''iat''))) (\<lambda>iat.
           bindR (optionalClaim assertInteger (mapGet m (CStr ''effective_from_counter''))) (\<lambda>counter.
           bindR (optionalClaim (assertBytesLen 32) (mapGet m (CStr ''effective_from_replica''))) (\<lambda>replica.
           bindR (validateModeFields mode counter) (\<lambda>_.
           bindR (guardR (case (nowSec, iat) of (Some now, Some i) \<Rightarrow> \<not> i > now | _ \<Rightarrow> True) ''RevocationRecordV1.iat is in the future'') (\<lambda>_.
             Inr \<lparr>rr_docId = docId, rr_tokenId = tokenId, rr_mode = mode, rr_revSeq = revSeq, rr_iat = iat,
               rr_effectiveFromCounter = counter, rr_effectiveFromReplica = replica, rr_issuerPublicKey = verifiedBy\<rparr>))))))))))))))
       | _ \<Rightarrow> Inl ''RevocationRecordV1 payload must be a CBOR map''))"

definition createTreecrdtRevocationCapabilityV1 :: "bytes \<Rightarrow> Capability" where
  "createTreecrdtRevocationCapabilityV1 recordBytes =
     \<lparr>cap_name = TREECRDT_REVOCATION_CAPABILITY, cap_value = base64urlEncode recordBytes\<rparr>"

definition verifyTreecrdtRevocationCapabilityV1 ::
    "Crypto \<Rightarrow> bytes list \<Rightarrow> string \<Rightarrow> int option \<Rightarrow> Capability \<Rightarrow> RevocationRecord res" where
  "verifyTreecrdtRevocationCapabilityV1 cr issuerPublicKeys docId nowSec capability =
    (if cap_name capability \<noteq> TREECRDT_REVOCATION_CAPABILITY then Inl ''unexpected capability''
     else verifyTreecrdtRevocationRecordV1 cr issuerPublicKeys (Some docId) nowSec (base64urlDecode (cap_value capability)))"

section \<open>The newest record per token\<close>

fun compareBytes :: "bytes \<Rightarrow> bytes \<Rightarrow> int" where
  "compareBytes (a # as) (b # bs) = (if a \<noteq> b then uint a - uint b else compareBytes as bs)"
| "compareBytes as bs = int (length as) - int (length bs)"

type_synonym revocations = "(string, RevocationRecord \<times> bytes) jsmap"

definition applyRevocationRecord :: "RevocationRecord \<Rightarrow> bytes \<Rightarrow> revocations \<Rightarrow> revocations" where
  "applyRevocationRecord rec recordBytes m =
    (let tokenIdHex = bytesToHex (rr_tokenId rec) in
     case js_get m tokenIdHex of
       None \<Rightarrow> js_set tokenIdHex (rec, recordBytes) m
     | Some (old, oldBytes) \<Rightarrow>
         if rr_revSeq rec > rr_revSeq old then js_set tokenIdHex (rec, recordBytes) m
         else if rr_revSeq rec < rr_revSeq old then m
         else if compareBytes recordBytes oldBytes > 0 then js_set tokenIdHex (rec, recordBytes) m
         else m)"

definition isRevokedByStandardPolicy :: "string list option \<Rightarrow> revocations \<Rightarrow> string \<Rightarrow> Operation option \<Rightarrow> bool res" where
  "isRevokedByStandardPolicy revokedTokenIdHexes m tokenIdHex oper =
    (if (case revokedTokenIdHexes of None \<Rightarrow> False | Some hs \<Rightarrow> tokenIdHex \<in> set hs) then Inr True
     else case js_get m tokenIdHex of
       None \<Rightarrow> Inr False
     | Some (revocation, _) \<Rightarrow>
         if rr_mode revocation = Hard then Inr True
         else case oper of
           None \<Rightarrow> Inr False
         | Some x \<Rightarrow>
             (case rr_effectiveFromCounter revocation of
                None \<Rightarrow> Inr False
              | Some c \<Rightarrow>
                  bindR (case rr_effectiveFromReplica revocation of
                           None \<Rightarrow> Inr True
                         | Some target \<Rightarrow> bindR (replicaIdToBytes (oid_replica (om_id (op_meta x)))) (\<lambda>r.
                             Inr (bytesToHex r = bytesToHex target))) (\<lambda>same.
                  Inr (same \<and> oid_counter (om_id (op_meta x)) \<ge> c))))"

section \<open>Convergence\<close>

lemma uint_eq: "uint (a :: byte) = uint b \<longleftrightarrow> a = b"
  by (simp add: word_uint_eq_iff)

lemma compareBytes_zero: "compareBytes a b = 0 \<Longrightarrow> a = b"
  by (induction a b rule: compareBytes.induct) (auto simp: uint_eq split: if_splits)

lemma compareBytes_antisym: "compareBytes b a = - compareBytes a b"
  by (induction a b rule: compareBytes.induct) auto

lemma compareBytes_Nil: "compareBytes a [] = int (length a)" "compareBytes [] b = - int (length b)"
  by (cases a; cases b; simp)+

lemma compareBytes_trans: "compareBytes a b > 0 \<Longrightarrow> compareBytes b c \<ge> 0 \<Longrightarrow> compareBytes a c > 0"
proof (induction a b arbitrary: c rule: compareBytes.induct)
  case (1 a as b bs)
  show ?case
  proof (cases c)
    case (Cons d ds)
    have "uint a \<noteq> uint b" if "a \<noteq> b" for a b :: byte using that by (simp add: uint_eq)
    from this [of a b] this [of b d] 1 Cons show ?thesis by (auto split: if_splits)
  qed simp
qed (auto simp: compareBytes_Nil)

definition newer :: "RevocationRecord \<times> bytes \<Rightarrow> RevocationRecord \<times> bytes \<Rightarrow> bool" where
  "newer x y \<longleftrightarrow> rr_revSeq (fst x) > rr_revSeq (fst y) \<or> rr_revSeq (fst x) = rr_revSeq (fst y) \<and> compareBytes (snd x) (snd y) > 0"

lemma newer_keeps_older: "newer x y \<Longrightarrow> \<not> newer z y \<Longrightarrow> \<not> newer z x"
  unfolding newer_def using compareBytes_trans [of "snd z" "snd x" "snd y"] by force

lemma newer_total: "\<not> newer x y \<Longrightarrow> \<not> newer y x \<Longrightarrow> snd x = snd y"
  unfolding newer_def using compareBytes_antisym [of "snd x" "snd y"] compareBytes_zero [of "snd x" "snd y"] by force

lemma newer_irrefl: "\<not> newer x x"
  using compareBytes_antisym [of "snd x" "snd x"] by (simp add: newer_def)

definition tokenHexOf :: "RevocationRecord \<times> bytes \<Rightarrow> string" where
  "tokenHexOf x = bytesToHex (rr_tokenId (fst x))"

lemma apply_get:
  "js_get (applyRevocationRecord r b m) k = (if k = tokenHexOf (r, b) then
     (case js_get m k of None \<Rightarrow> Some (r, b) | Some x \<Rightarrow> Some (if newer (r, b) x then (r, b) else x)) else js_get m k)"
  by (auto simp: applyRevocationRecord_def tokenHexOf_def newer_def Let_def split: option.splits)

definition applyAll :: "(RevocationRecord \<times> bytes) list \<Rightarrow> revocations \<Rightarrow> revocations" where
  "applyAll xs m = fold (\<lambda>(r, b). applyRevocationRecord r b) xs m"

text \<open>The table holds, for each token, a record of the set that no record of the set is newer than.\<close>

definition newest_of :: "(RevocationRecord \<times> bytes) set \<Rightarrow> revocations \<Rightarrow> bool" where
  "newest_of X m \<longleftrightarrow> (\<forall>k. case js_get m k of
       None \<Rightarrow> \<forall>x \<in> X. tokenHexOf x \<noteq> k
     | Some y \<Rightarrow> y \<in> X \<and> tokenHexOf y = k \<and> (\<forall>x \<in> X. tokenHexOf x = k \<longrightarrow> \<not> newer x y))"

lemma newest_step:
  assumes "newest_of X m"
  shows "newest_of (insert (r, b) X) (applyRevocationRecord r b m)"
  unfolding newest_of_def
proof
  fix k
  from assms have m: "case js_get m k of None \<Rightarrow> \<forall>x \<in> X. tokenHexOf x \<noteq> k
     | Some y \<Rightarrow> y \<in> X \<and> tokenHexOf y = k \<and> (\<forall>x \<in> X. tokenHexOf x = k \<longrightarrow> \<not> newer x y)" by (simp add: newest_of_def)
  show "case js_get (applyRevocationRecord r b m) k of None \<Rightarrow> \<forall>x \<in> insert (r, b) X. tokenHexOf x \<noteq> k
     | Some y \<Rightarrow> y \<in> insert (r, b) X \<and> tokenHexOf y = k \<and> (\<forall>x \<in> insert (r, b) X. tokenHexOf x = k \<longrightarrow> \<not> newer x y)"
  proof (cases "k = tokenHexOf (r, b)")
    case False
    then have "js_get (applyRevocationRecord r b m) k = js_get m k" by (simp add: apply_get)
    with m False show ?thesis by (auto split: option.splits)
  next
    case True
    show ?thesis
    proof (cases "js_get m k")
      case None
      then have "js_get (applyRevocationRecord r b m) k = Some (r, b)" using True by (simp add: apply_get)
      with m None True newer_irrefl show ?thesis by simp
    next
      case (Some y)
      then have y: "y \<in> X" "tokenHexOf y = k" "\<forall>x \<in> X. tokenHexOf x = k \<longrightarrow> \<not> newer x y" using m by simp_all
      have g: "js_get (applyRevocationRecord r b m) k = Some (if newer (r, b) y then (r, b) else y)"
        using Some True by (simp add: apply_get)
      show ?thesis
      proof (cases "newer (r, b) y")
        case t: True
        then have "\<forall>x \<in> insert (r, b) X. tokenHexOf x = k \<longrightarrow> \<not> newer x (r, b)"
          using y(3) newer_keeps_older newer_irrefl by blast
        with t True g show ?thesis by simp
      next
        case False
        with y g show ?thesis by simp
      qed
    qed
  qed
qed

lemma newest_applyAll: "newest_of X m \<Longrightarrow> newest_of (set xs \<union> X) (applyAll xs m)"
proof (induction xs arbitrary: X m)
  case (Cons x xs)
  obtain r b where x: "x = (r, b)" by (cases x)
  from Cons.IH [OF newest_step [OF Cons.prems, of r b]] show ?case by (simp add: applyAll_def x)
qed (simp add: applyAll_def)

lemma newest_unique:
  assumes "newest_of X m" "newest_of X m'" "\<And>r r' b. (r, b) \<in> X \<Longrightarrow> (r', b) \<in> X \<Longrightarrow> r = r'"
  shows "js_get m k = js_get m' k"
proof -
  have "y = z" if "y \<in> X" "z \<in> X" "\<not> newer y z" "\<not> newer z y" for y z
    using that newer_total [OF that(3,4)] assms(3) by (cases y; cases z) auto
  moreover have "case js_get m k of None \<Rightarrow> \<forall>x \<in> X. tokenHexOf x \<noteq> k
     | Some y \<Rightarrow> y \<in> X \<and> tokenHexOf y = k \<and> (\<forall>x \<in> X. tokenHexOf x = k \<longrightarrow> \<not> newer x y)"
    "case js_get m' k of None \<Rightarrow> \<forall>x \<in> X. tokenHexOf x \<noteq> k
     | Some y \<Rightarrow> y \<in> X \<and> tokenHexOf y = k \<and> (\<forall>x \<in> X. tokenHexOf x = k \<longrightarrow> \<not> newer x y)"
    using assms(1,2) by (simp_all add: newest_of_def)
  ultimately show ?thesis
    by (cases "js_get m k"; cases "js_get m' k") auto
qed

section \<open>Records that were issued\<close>

lemma bindR_weaken: "bindR m f = Inr y \<Longrightarrow> (\<And>x. f x = Inr y \<Longrightarrow> g x = Inr y) \<Longrightarrow> bindR m g = Inr y"
  by (cases m) simp_all

lemma verify_record_now:
  assumes "verifyTreecrdtRevocationRecordV1 cr issuers doc now b = Inr r"
  shows "verifyTreecrdtRevocationRecordV1 cr issuers doc None b = Inr r"
proof (cases "firstVerifier cr b issuers")
  case (Some pv)
  obtain p v where pv: "pv = (p, v)" by (cases pv)
  show ?thesis
  proof (cases "cborDecode cr p")
    case (Inr d)
    show ?thesis
    proof (cases d)
      case (CMap m)
      have "issuers \<noteq> []" using assms by (auto simp: verifyTreecrdtRevocationRecordV1_def)
      then show ?thesis using assms
        by (simp add: verifyTreecrdtRevocationRecordV1_def Some pv Inr CMap)
          (erule bindR_weaken | simp add: bindR_eq_Inr guardR_def)+
    qed (use assms Some pv Inr in \<open>simp_all add: verifyTreecrdtRevocationRecordV1_def split: if_splits\<close>)
  qed (use assms Some pv in \<open>simp_all add: verifyTreecrdtRevocationRecordV1_def split: if_splits\<close>)
qed (use assms in \<open>simp_all add: verifyTreecrdtRevocationRecordV1_def split: if_splits\<close>)

lemma firstVerifier_signed:
  assumes "lawful_crypto cr pk" "pk sk \<in> set pks"
  shows "\<exists>k \<in> set pks. firstVerifier cr (coseSign1Ed25519 cr payload sk unprot) pks = Some (payload, k)"
  using assms(2)
proof (induction pks)
  case (Cons k ks)
  obtain c where c: "coseDecodeSign1 cr (coseSign1Ed25519 cr payload sk unprot) = Inr c" "cs_payload c = payload"
    using cose_sign_decode [OF assms(1), of payload sk unprot] by auto
  show ?case
  proof (cases "coseVerifySign1Ed25519 cr (coseSign1Ed25519 cr payload sk unprot) k")
    case (Inl e)
    then have "k \<noteq> pk sk" using cose_sign_verify [OF assms(1), of payload sk unprot] by auto
    with Inl Cons show ?thesis by simp
  next
    case (Inr p)
    with coseVerify_payload [OF c(1)] c(2) show ?thesis by auto
  qed
qed simp

lemma optClaim_get: "js_get (optClaim k c x) k' = (if k' = CStr k then map_option c x else None)"
  by (auto simp: optClaim_def js_get_def split: option.splits)

lemma optionalArg_id:
  "optionalArg assertNonNegative x = Inr y \<Longrightarrow> y = x \<and> (\<forall>i. x = Some i \<longrightarrow> 0 \<le> i)"
  "optionalArg (assertLen n) x' = Inr y' \<Longrightarrow> y' = x' \<and> (\<forall>b. x' = Some b \<longrightarrow> length b = n)"
  by (auto simp: optionalArg_def assertNonNegative_def assertLen_def bindR_eq_Inr split: option.splits if_splits)

lemma optionalClaim_back:
  "(\<forall>i. x = Some i \<longrightarrow> 0 \<le> i) \<Longrightarrow> optionalClaim assertInteger (case x of None \<Rightarrow> CUndef | Some i \<Rightarrow> CNum i) = Inr x"
  "(\<forall>b. y = Some b \<longrightarrow> length b = n) \<Longrightarrow> optionalClaim (assertBytesLen n) (case y of None \<Rightarrow> CUndef | Some b \<Rightarrow> CBytes b) = Inr y"
  by (auto simp: optionalClaim_def assertInteger_def assertNonNegative_def assertBytesLen_def assertLen_def split: option.splits)

lemma parse_modeString [simp]: "parseRevocationMode (CStr (modeString md)) = Inr md"
  by (cases md) (simp_all add: parseRevocationMode_def modeString_def)

lemma known_claims:
  "assertNoUnknownClaims ([(CStr ''v'', a), (CStr ''t'', b), (CStr ''doc_id'', c), (CStr ''token_id'', d), (CStr ''mode'', e),
     (CStr ''rev_seq'', f)] @ optClaim ''iat'' CNum x @ optClaim ''effective_from_counter'' CNum y
     @ optClaim ''effective_from_replica'' CBytes z) = Inr ()"
  by (cases x; cases y; cases z)
    (simp_all add: assertNoUnknownClaims_def optClaim_def REVOCATION_V1_ALLOWED_CLAIMS_def guardR_def)

lemma issued_record_verifies:
  assumes "lawful_crypto cr pk" "issueTreecrdtRevocationRecordV1 cr sk opts = Inr bs" "pk sk \<in> set issuers"
    "\<forall>i. rr_iat opts = Some i \<longrightarrow> i \<le> now"
  shows "\<exists>k \<in> set issuers. verifyTreecrdtRevocationRecordV1 cr issuers (Some (rr_docId opts)) (Some now) bs
     = Inr (opts\<lparr>rr_issuerPublicKey := k\<rparr>)"
proof -
  define m where "m = [(CStr ''v'', CNum 1), (CStr ''t'', CStr REVOCATION_TAG), (CStr ''doc_id'', CStr (rr_docId opts)),
           (CStr ''token_id'', CBytes (rr_tokenId opts)), (CStr ''mode'', CStr (modeString (rr_mode opts))), (CStr ''rev_seq'', CNum (rr_revSeq opts))]
          @ optClaim ''iat'' CNum (rr_iat opts) @ optClaim ''effective_from_counter'' CNum (rr_effectiveFromCounter opts)
          @ optClaim ''effective_from_replica'' CBytes (rr_effectiveFromReplica opts)"
  have i: "length (rr_tokenId opts) = 16" "0 \<le> rr_revSeq opts" "\<forall>i. rr_iat opts = Some i \<longrightarrow> 0 \<le> i"
      "\<forall>i. rr_effectiveFromCounter opts = Some i \<longrightarrow> 0 \<le> i" "\<forall>b. rr_effectiveFromReplica opts = Some b \<longrightarrow> length b = 32"
      "validateModeFields (rr_mode opts) (rr_effectiveFromCounter opts) = Inr ()"
      "bs = coseSign1Ed25519 cr (cborEncode cr (CMap m)) sk []"
    using assms(2) by (auto simp: issueTreecrdtRevocationRecordV1_def bindR_eq_Inr assertLen_def assertNonNegative_def m_def
        dest!: optionalArg_id split: if_splits)
  have g: "mapGet m (CStr ''v'') = CNum 1" "mapGet m (CStr ''t'') = CStr REVOCATION_TAG" "mapGet m (CStr ''doc_id'') = CStr (rr_docId opts)"
    "mapGet m (CStr ''token_id'') = CBytes (rr_tokenId opts)" "mapGet m (CStr ''mode'') = CStr (modeString (rr_mode opts))"
    "mapGet m (CStr ''rev_seq'') = CNum (rr_revSeq opts)"
    by (simp_all add: m_def mapGet_def js_get_append js_get_Cons optClaim_get)
  have o: "mapGet m (CStr ''iat'') = (case rr_iat opts of None \<Rightarrow> CUndef | Some i \<Rightarrow> CNum i)"
    "mapGet m (CStr ''effective_from_counter'') = (case rr_effectiveFromCounter opts of None \<Rightarrow> CUndef | Some i \<Rightarrow> CNum i)"
    "mapGet m (CStr ''effective_from_replica'') = (case rr_effectiveFromReplica opts of None \<Rightarrow> CUndef | Some b \<Rightarrow> CBytes b)"
    by (cases "rr_iat opts"; cases "rr_effectiveFromCounter opts"; cases "rr_effectiveFromReplica opts";
        simp add: m_def mapGet_def js_get_append js_get_Cons optClaim_get)+
  note back_simps = optionalClaim_back(1) [OF i(3)] optionalClaim_back(1) [OF i(4)] optionalClaim_back(2) [OF i(5)]
  obtain k where k: "k \<in> set issuers" "firstVerifier cr bs issuers = Some (cborEncode cr (CMap m), k)"
    using firstVerifier_signed [OF assms(1,3)] unfolding i(7) by blast
  have "issuers \<noteq> []" using assms(3) by auto
  moreover have "assertNoUnknownClaims m = Inr ()" unfolding m_def by (rule known_claims)
  ultimately have "verifyTreecrdtRevocationRecordV1 cr issuers (Some (rr_docId opts)) (Some now) bs
     = Inr \<lparr>rr_docId = rr_docId opts, rr_tokenId = rr_tokenId opts, rr_mode = rr_mode opts, rr_revSeq = rr_revSeq opts, rr_iat = rr_iat opts,
               rr_effectiveFromCounter = rr_effectiveFromCounter opts, rr_effectiveFromReplica = rr_effectiveFromReplica opts, rr_issuerPublicKey = k\<rparr>"
    using i(1,2,6) assms(4) unfolding verifyTreecrdtRevocationRecordV1_def
    by (simp add: k(2) lawful_simps [OF assms(1)] g o back_simps guardR_def assertString_def assertBytesLen_def assertLen_def
        assertInteger_def assertNonNegative_def not_less split: option.split)
  with k(1) show ?thesis by (intro bexI [of _ k]) simp_all
qed

section \<open>Properties\<close>


definition demo_revocation :: "int \<Rightarrow> RevocationRecord" where
  "demo_revocation n = \<lparr>rr_docId = ''doc'', rr_tokenId = replicate 16 5, rr_mode = (if n = 2 then Hard else WriteCutover), rr_revSeq = n,
     rr_iat = None, rr_effectiveFromCounter = Some 3, rr_effectiveFromReplica = None, rr_issuerPublicKey = demo_pk [1]\<rparr>"

lemma demo_revocation_verifies:
  assumes "0 \<le> n"
  shows "\<exists>b. verifyTreecrdtRevocationRecordV1 demo_crypto [demo_pk [1]] (Some ''doc'') (Some 0) b = Inr (demo_revocation n)"
proof -
  obtain b where b: "issueTreecrdtRevocationRecordV1 demo_crypto [1] (demo_revocation n) = Inr b"
    using assms by (auto simp: issueTreecrdtRevocationRecordV1_def demo_revocation_def guardR_def trim_js_def is_ws_def assertLen_def
        assertNonNegative_def optionalArg_def validateModeFields_def)
  have r: "\<forall>i. rr_iat (demo_revocation n) = Some i \<longrightarrow> i \<le> 0" "(demo_revocation n)\<lparr>rr_issuerPublicKey := demo_pk [1]\<rparr> = demo_revocation n"
    "rr_docId (demo_revocation n) = ''doc''" by (simp_all add: demo_revocation_def)
  show ?thesis using issued_record_verifies [OF demo_crypto_lawful b _ r(1), of "[demo_pk [1]]"] r(2,3) by auto
qed


text \<open>
  A revocation record that was issued verifies to itself: carried as a capability value, it is
  accepted by every peer that trusts the issuer, with exactly the fields it was issued with.
\<close>
theorem revocation_record_roundtrip:
  assumes "lawful_crypto cr pk" and "issueTreecrdtRevocationRecordV1 cr sk opts = Inr bs" and "pk sk \<in> set issuers"
    and "\<forall>i. rr_iat opts = Some i \<longrightarrow> i \<le> now"
  shows "\<exists>k \<in> set issuers. verifyTreecrdtRevocationCapabilityV1 cr issuers (rr_docId opts) (Some now)
     (createTreecrdtRevocationCapabilityV1 bs) = Inr (opts\<lparr>rr_issuerPublicKey := k\<rparr>)"
  using issued_record_verifies [OF assms]
  by (simp add: verifyTreecrdtRevocationCapabilityV1_def createTreecrdtRevocationCapabilityV1_def base64url_inverse)

theorem revocation_record_roundtrip_witness:
  "\<exists>bs. issueTreecrdtRevocationRecordV1 demo_crypto [1] (demo_revocation 2) = Inr bs
     \<and> verifyTreecrdtRevocationCapabilityV1 demo_crypto [demo_pk [1]] ''doc'' (Some 7) (createTreecrdtRevocationCapabilityV1 bs)
       = Inr (demo_revocation 2)"
proof -
  obtain b where b: "issueTreecrdtRevocationRecordV1 demo_crypto [1] (demo_revocation 2) = Inr b"
    by (auto simp: issueTreecrdtRevocationRecordV1_def demo_revocation_def guardR_def trim_js_def is_ws_def assertLen_def
        assertNonNegative_def optionalArg_def validateModeFields_def)
  have r: "\<forall>i. rr_iat (demo_revocation 2) = Some i \<longrightarrow> i \<le> 7" "(demo_revocation 2)\<lparr>rr_issuerPublicKey := demo_pk [1]\<rparr> = demo_revocation 2"
    "rr_docId (demo_revocation 2) = ''doc''" by (simp_all add: demo_revocation_def)
  from revocation_record_roundtrip [OF demo_crypto_lawful b, of "[demo_pk [1]]" 7] r b show ?thesis by auto
qed

end
