(* ===== verification/Identity.thy ===== *)
theory Identity
  imports Revocation
begin

text \<open>
  Identity chains (\<^verbatim>\<open>packages/treecrdt-auth/src/identity.ts\<close>): an identity key certifies a device
  key, the device key certifies a replica key for a document, and the chain travels as a
  capability value.
\<close>

section \<open>Assertions\<close>

definition assertBytes :: "cval \<Rightarrow> bytes res" where
  "assertBytes v = (case v of CBytes b \<Rightarrow> Inr b | _ \<Rightarrow> Inl ''must be bytes'')"

definition assertNumber :: "cval \<Rightarrow> int res" where
  "assertNumber v = (case v of CNum i \<Rightarrow> Inr i | _ \<Rightarrow> Inl ''must be a finite number'')"

definition assertEd25519PublicKey :: "bytes \<Rightarrow> bytes res" where
  "assertEd25519PublicKey b = (if length b \<noteq> 32 then Inl ''must be 32 bytes (ed25519 pubkey)'' else Inr b)"

definition assertKeyClaim :: "cval \<Rightarrow> bytes res" where
  "assertKeyClaim v = bindR (assertBytes v) assertEd25519PublicKey"

definition assertPayloadMap :: "cval \<Rightarrow> (cval \<times> cval) list res" where
  "assertPayloadMap v = (case v of CMap m \<Rightarrow> Inr m | _ \<Rightarrow> Inl ''payload must be a CBOR map'')"

definition DEVICE_CERT_V1_TAG :: string where
  "DEVICE_CERT_V1_TAG = ''treecrdt/device-cert/v1''"

definition REPLICA_CERT_V1_TAG :: string where
  "REPLICA_CERT_V1_TAG = ''treecrdt/replica-cert/v1''"

definition IDENTITY_CHAIN_V1_TAG :: string where
  "IDENTITY_CHAIN_V1_TAG = ''treecrdt/identity-chain/v1''"

definition TREECRDT_IDENTITY_CHAIN_CAPABILITY :: string where
  "TREECRDT_IDENTITY_CHAIN_CAPABILITY = ''auth.identity_chain''"

text \<open>\<^verbatim>\<open>v\<close> must be 1 and \<^verbatim>\<open>t\<close> the tag.\<close>

definition checkTag :: "(cval \<times> cval) list \<Rightarrow> string \<Rightarrow> unit res" where
  "checkTag m tag =
     bindR (guardR (mapGet m (CStr ''v'') = CNum 1) ''v must be 1'') (\<lambda>_.
     bindR (assertString (mapGet m (CStr ''t''))) (\<lambda>t. guardR (t = tag) ''t mismatch''))"

definition checkExpiry :: "int option \<Rightarrow> int option \<Rightarrow> unit res" where
  "checkExpiry nowSec exp = guardR (case (nowSec, exp) of (Some now, Some e) \<Rightarrow> \<not> now > e | _ \<Rightarrow> True) ''expired''"

section \<open>Certificates\<close>

record DeviceCertV1Claims =
  dc_devicePublicKey :: bytes
  dc_iat :: "int option"
  dc_exp :: "int option"

record ReplicaCertV1Claims =
  rcc_docId :: string
  rcc_replicaPublicKey :: bytes
  rcc_iat :: "int option"
  rcc_exp :: "int option"

definition issueDeviceCertV1 :: "Crypto \<Rightarrow> bytes \<Rightarrow> DeviceCertV1Claims \<Rightarrow> bytes res" where
  "issueDeviceCertV1 cr identityPrivateKey opts =
     bindR (assertEd25519PublicKey (dc_devicePublicKey opts)) (\<lambda>device.
       Inr (coseSign1Ed25519 cr (cborEncode cr (CMap ([(CStr ''v'', CNum 1), (CStr ''t'', CStr DEVICE_CERT_V1_TAG),
         (CStr ''device_pk'', CBytes device)] @ optClaim ''iat'' CNum (dc_iat opts) @ optClaim ''exp'' CNum (dc_exp opts))))
         identityPrivateKey []))"

definition verifyDeviceCertV1 :: "Crypto \<Rightarrow> bytes \<Rightarrow> int option \<Rightarrow> bytes \<Rightarrow> DeviceCertV1Claims res" where
  "verifyDeviceCertV1 cr identityPublicKey nowSec certBytes =
     bindR (assertEd25519PublicKey identityPublicKey) (\<lambda>_.
     bindR (coseVerifySign1Ed25519 cr certBytes identityPublicKey) (\<lambda>payload.
     bindR (cborDecode cr payload) (\<lambda>decoded.
     bindR (assertPayloadMap decoded) (\<lambda>m.
     bindR (checkTag m DEVICE_CERT_V1_TAG) (\<lambda>_.
     bindR (assertKeyClaim (mapGet m (CStr ''device_pk''))) (\<lambda>devicePk.
     bindR (optionalClaim assertNumber (mapGet m (CStr ''iat''))) (\<lambda>iat.
     bindR (optionalClaim assertNumber (mapGet m (CStr ''exp''))) (\<lambda>exp.
     bindR (checkExpiry nowSec exp) (\<lambda>_.
       Inr \<lparr>dc_devicePublicKey = devicePk, dc_iat = iat, dc_exp = exp\<rparr>)))))))))"

definition issueReplicaCertV1 :: "Crypto \<Rightarrow> bytes \<Rightarrow> ReplicaCertV1Claims \<Rightarrow> bytes res" where
  "issueReplicaCertV1 cr devicePrivateKey opts =
     bindR (guardR (trim_js (rcc_docId opts) \<noteq> []) ''docId must not be empty'') (\<lambda>_.
     bindR (assertEd25519PublicKey (rcc_replicaPublicKey opts)) (\<lambda>replica.
       Inr (coseSign1Ed25519 cr (cborEncode cr (CMap ([(CStr ''v'', CNum 1), (CStr ''t'', CStr REPLICA_CERT_V1_TAG),
         (CStr ''doc_id'', CStr (rcc_docId opts)), (CStr ''replica_pk'', CBytes replica)]
         @ optClaim ''iat'' CNum (rcc_iat opts) @ optClaim ''exp'' CNum (rcc_exp opts)))) devicePrivateKey [])))"

definition verifyReplicaCertV1 :: "Crypto \<Rightarrow> bytes \<Rightarrow> string option \<Rightarrow> int option \<Rightarrow> bytes \<Rightarrow> ReplicaCertV1Claims res" where
  "verifyReplicaCertV1 cr devicePublicKey expectedDocId nowSec certBytes =
     bindR (assertEd25519PublicKey devicePublicKey) (\<lambda>_.
     bindR (coseVerifySign1Ed25519 cr certBytes devicePublicKey) (\<lambda>payload.
     bindR (cborDecode cr payload) (\<lambda>decoded.
     bindR (assertPayloadMap decoded) (\<lambda>m.
     bindR (checkTag m REPLICA_CERT_V1_TAG) (\<lambda>_.
     bindR (assertString (mapGet m (CStr ''doc_id''))) (\<lambda>docId.
     bindR (guardR (expectedDocId = None \<or> expectedDocId = Some docId) ''ReplicaCertV1.doc_id mismatch'') (\<lambda>_.
     bindR (assertKeyClaim (mapGet m (CStr ''replica_pk''))) (\<lambda>replicaPk.
     bindR (optionalClaim assertNumber (mapGet m (CStr ''iat''))) (\<lambda>iat.
     bindR (optionalClaim assertNumber (mapGet m (CStr ''exp''))) (\<lambda>exp.
     bindR (checkExpiry nowSec exp) (\<lambda>_.
       Inr \<lparr>rcc_docId = docId, rcc_replicaPublicKey = replicaPk, rcc_iat = iat, rcc_exp = exp\<rparr>)))))))))))"

definition verifyReplicaChainV1 :: "Crypto \<Rightarrow> bytes \<Rightarrow> bytes \<Rightarrow> bytes \<Rightarrow> string option \<Rightarrow> bytes option \<Rightarrow> int option \<Rightarrow> (bytes \<times> bytes) res" where
  "verifyReplicaChainV1 cr identityPublicKey deviceCertBytes replicaCertBytes expectedDocId expectedReplica nowSec =
     bindR (verifyDeviceCertV1 cr identityPublicKey nowSec deviceCertBytes) (\<lambda>device.
     bindR (verifyReplicaCertV1 cr (dc_devicePublicKey device) expectedDocId nowSec replicaCertBytes) (\<lambda>replica.
     bindR (case expectedReplica of None \<Rightarrow> Inr ()
            | Some a \<Rightarrow> bindR (assertEd25519PublicKey a) (\<lambda>_.
                guardR (a = rcc_replicaPublicKey replica) ''ReplicaCertV1.replica_pk mismatch'')) (\<lambda>_.
       Inr (dc_devicePublicKey device, rcc_replicaPublicKey replica))))"

section \<open>Chains\<close>

record TreecrdtIdentityChainV1 =
  ic_identityPublicKey :: bytes
  ic_deviceCertBytes :: bytes
  ic_replicaCertBytes :: bytes

record VerifiedTreecrdtIdentityChainV1 = TreecrdtIdentityChainV1 +
  ic_devicePublicKey :: bytes
  ic_replicaPublicKey :: bytes

definition encodeTreecrdtIdentityChainV1 :: "Crypto \<Rightarrow> TreecrdtIdentityChainV1 \<Rightarrow> bytes res" where
  "encodeTreecrdtIdentityChainV1 cr chain =
     bindR (assertEd25519PublicKey (ic_identityPublicKey chain)) (\<lambda>ident.
       Inr (cborEncode cr (CMap [(CStr ''v'', CNum 1), (CStr ''t'', CStr IDENTITY_CHAIN_V1_TAG), (CStr ''identity_pk'', CBytes ident),
         (CStr ''device_cert'', CBytes (ic_deviceCertBytes chain)), (CStr ''replica_cert'', CBytes (ic_replicaCertBytes chain))])))"

definition decodeTreecrdtIdentityChainV1 :: "Crypto \<Rightarrow> bytes \<Rightarrow> TreecrdtIdentityChainV1 res" where
  "decodeTreecrdtIdentityChainV1 cr bs =
     bindR (cborDecode cr bs) (\<lambda>decoded.
     bindR (assertPayloadMap decoded) (\<lambda>m.
     bindR (checkTag m IDENTITY_CHAIN_V1_TAG) (\<lambda>_.
     bindR (assertKeyClaim (mapGet m (CStr ''identity_pk''))) (\<lambda>ident.
     bindR (assertBytes (mapGet m (CStr ''device_cert''))) (\<lambda>device.
     bindR (assertBytes (mapGet m (CStr ''replica_cert''))) (\<lambda>replica.
       Inr \<lparr>ic_identityPublicKey = ident, ic_deviceCertBytes = device, ic_replicaCertBytes = replica\<rparr>))))))"

definition createTreecrdtIdentityChainCapabilityV1 :: "Crypto \<Rightarrow> TreecrdtIdentityChainV1 \<Rightarrow> Capability res" where
  "createTreecrdtIdentityChainCapabilityV1 cr chain =
     bindR (encodeTreecrdtIdentityChainV1 cr chain) (\<lambda>bs.
       Inr \<lparr>cap_name = TREECRDT_IDENTITY_CHAIN_CAPABILITY, cap_value = base64urlEncode bs\<rparr>)"

definition verifyTreecrdtIdentityChainCapabilityV1 ::
    "Crypto \<Rightarrow> string \<Rightarrow> bytes option \<Rightarrow> int option \<Rightarrow> Capability \<Rightarrow> VerifiedTreecrdtIdentityChainV1 res" where
  "verifyTreecrdtIdentityChainCapabilityV1 cr docId expectedReplica nowSec capability =
     bindR (guardR (cap_name capability = TREECRDT_IDENTITY_CHAIN_CAPABILITY) ''unexpected capability'') (\<lambda>_.
     bindR (guardR (trim_js docId \<noteq> []) ''docId must not be empty'') (\<lambda>_.
     bindR (decodeTreecrdtIdentityChainV1 cr (base64urlDecode (cap_value capability))) (\<lambda>parsed.
     bindR (verifyReplicaChainV1 cr (ic_identityPublicKey parsed) (ic_deviceCertBytes parsed) (ic_replicaCertBytes parsed)
              (Some docId) expectedReplica nowSec) (\<lambda>(device, replica).
       Inr \<lparr>ic_identityPublicKey = ic_identityPublicKey parsed, ic_deviceCertBytes = ic_deviceCertBytes parsed,
            ic_replicaCertBytes = ic_replicaCertBytes parsed, ic_devicePublicKey = device, ic_replicaPublicKey = replica\<rparr>))))"

section \<open>Round trip\<close>

lemma optionalNumber_back:
  "optionalClaim assertNumber (case x of None \<Rightarrow> CUndef | Some i \<Rightarrow> CNum i) = Inr x"
  by (auto simp: optionalClaim_def assertNumber_def split: option.splits)

lemma opt_lookup:
  "(case (case x of None \<Rightarrow> None | Some i \<Rightarrow> Some (CNum i)) of None \<Rightarrow> CUndef | Some v \<Rightarrow> v) = (case x of None \<Rightarrow> CUndef | Some i \<Rightarrow> CNum i)"
  by (cases x) simp_all

lemma mapGet_opts:
  assumes "js_get m (CStr ''iat'') = None" "js_get m (CStr ''exp'') = None"
  shows "mapGet (m @ optClaim ''iat'' CNum x @ optClaim ''exp'' CNum y) (CStr ''iat'') = (case x of None \<Rightarrow> CUndef | Some i \<Rightarrow> CNum i)"
    "mapGet (m @ optClaim ''iat'' CNum x @ optClaim ''exp'' CNum y) (CStr ''exp'') = (case y of None \<Rightarrow> CUndef | Some i \<Rightarrow> CNum i)"
    "js_get m k = Some v \<Longrightarrow> mapGet (m @ optClaim ''iat'' CNum x @ optClaim ''exp'' CNum y) k = v"
  by (cases x; cases y; simp add: assms mapGet_def js_get_append optClaim_get)+

lemma device_cert_roundtrip:
  assumes "lawful_crypto cr pk" "issueDeviceCertV1 cr sk opts = Inr cert" "\<forall>e n. dc_exp opts = Some e \<longrightarrow> now = Some n \<longrightarrow> n \<le> e"
  shows "verifyDeviceCertV1 cr (pk sk) now cert = Inr opts"
proof -
  let ?m = "[(CStr ''v'', CNum 1), (CStr ''t'', CStr DEVICE_CERT_V1_TAG), (CStr ''device_pk'', CBytes (dc_devicePublicKey opts))]"
  have i: "length (dc_devicePublicKey opts) = 32"
      "cert = coseSign1Ed25519 cr (cborEncode cr (CMap (?m @ optClaim ''iat'' CNum (dc_iat opts) @ optClaim ''exp'' CNum (dc_exp opts)))) sk []"
    using assms(2) by (auto simp: issueDeviceCertV1_def assertEd25519PublicKey_def split: if_splits)
  have n: "js_get ?m (CStr ''iat'') = None" "js_get ?m (CStr ''exp'') = None" by (simp_all add: js_get_def)
  have g: "js_get ?m (CStr ''v'') = Some (CNum 1)" "js_get ?m (CStr ''t'') = Some (CStr DEVICE_CERT_V1_TAG)"
    "js_get ?m (CStr ''device_pk'') = Some (CBytes (dc_devicePublicKey opts))" by (simp_all add: js_get_def)
  note gets = mapGet_opts(1,2) [OF n] mapGet_opts(3) [OF n g(1)] mapGet_opts(3) [OF n g(2)] mapGet_opts(3) [OF n g(3)]
  show ?thesis using i(1) assms(3) unfolding i(2) verifyDeviceCertV1_def cose_sign_verify [OF assms(1)]
    by (simp only: bindR_Inr lawful_simps [OF assms(1)] assertPayloadMap_def cval.case checkTag_def gets assertString_def guardR_def
        assertKeyClaim_def assertBytes_def assertEd25519PublicKey_def optionalNumber_back checkExpiry_def)
      (auto split: option.splits)
qed

lemma replica_cert_roundtrip:
  assumes "lawful_crypto cr pk" "issueReplicaCertV1 cr sk opts = Inr cert" "\<forall>e n. rcc_exp opts = Some e \<longrightarrow> now = Some n \<longrightarrow> n \<le> e"
  shows "verifyReplicaCertV1 cr (pk sk) (Some (rcc_docId opts)) now cert = Inr opts"
proof -
  let ?m = "[(CStr ''v'', CNum 1), (CStr ''t'', CStr REPLICA_CERT_V1_TAG), (CStr ''doc_id'', CStr (rcc_docId opts)),
    (CStr ''replica_pk'', CBytes (rcc_replicaPublicKey opts))]"
  have i: "length (rcc_replicaPublicKey opts) = 32"
      "cert = coseSign1Ed25519 cr (cborEncode cr (CMap (?m @ optClaim ''iat'' CNum (rcc_iat opts) @ optClaim ''exp'' CNum (rcc_exp opts)))) sk []"
    using assms(2) by (auto simp: issueReplicaCertV1_def assertEd25519PublicKey_def bindR_eq_Inr split: if_splits)
  have n: "js_get ?m (CStr ''iat'') = None" "js_get ?m (CStr ''exp'') = None" by (simp_all add: js_get_def)
  have g: "js_get ?m (CStr ''v'') = Some (CNum 1)" "js_get ?m (CStr ''t'') = Some (CStr REPLICA_CERT_V1_TAG)"
    "js_get ?m (CStr ''doc_id'') = Some (CStr (rcc_docId opts))"
    "js_get ?m (CStr ''replica_pk'') = Some (CBytes (rcc_replicaPublicKey opts))" by (simp_all add: js_get_def)
  note gets = mapGet_opts(1,2) [OF n] mapGet_opts(3) [OF n g(1)] mapGet_opts(3) [OF n g(2)] mapGet_opts(3) [OF n g(3)] mapGet_opts(3) [OF n g(4)]
  show ?thesis using i(1) assms(3) unfolding i(2) verifyReplicaCertV1_def cose_sign_verify [OF assms(1)]
    by (simp only: bindR_Inr lawful_simps [OF assms(1)] assertPayloadMap_def cval.case checkTag_def gets assertString_def guardR_def
        assertKeyClaim_def assertBytes_def assertEd25519PublicKey_def optionalNumber_back checkExpiry_def)
      (auto split: option.splits)
qed

lemma chain_codec:
  assumes "lawful_crypto cr pk" "encodeTreecrdtIdentityChainV1 cr chain = Inr bs"
  shows "decodeTreecrdtIdentityChainV1 cr bs = Inr chain"
proof -
  have "length (ic_identityPublicKey chain) = 32" using assms(2)
    by (auto simp: encodeTreecrdtIdentityChainV1_def assertEd25519PublicKey_def split: if_splits)
  with assms(2) show ?thesis
    by (auto simp: encodeTreecrdtIdentityChainV1_def decodeTreecrdtIdentityChainV1_def lawful_simps [OF assms(1)] assertPayloadMap_def
        checkTag_def mapGet_def js_get_def assertString_def guardR_def assertKeyClaim_def assertBytes_def assertEd25519PublicKey_def)
qed

text \<open>
  An identity chain verifies end to end: an identity key certifies a device, the device
  certifies a replica for a document, and the chain, carried as a capability value, is accepted
  for that document with exactly those keys while neither certificate has expired.
\<close>
theorem identity_chain_roundtrip:
  assumes "lawful_crypto cr pk"
    and "issueDeviceCertV1 cr identitySk dev = Inr deviceCert" and "dc_devicePublicKey dev = pk deviceSk"
    and "issueReplicaCertV1 cr deviceSk rep = Inr replicaCert"
    and "createTreecrdtIdentityChainCapabilityV1 cr \<lparr>ic_identityPublicKey = pk identitySk, ic_deviceCertBytes = deviceCert, ic_replicaCertBytes = replicaCert\<rparr> = Inr cap"
    and "\<forall>e. dc_exp dev = Some e \<or> rcc_exp rep = Some e \<longrightarrow> now \<le> e"
  shows "verifyTreecrdtIdentityChainCapabilityV1 cr (rcc_docId rep) (Some (rcc_replicaPublicKey rep)) (Some now) cap
    = Inr \<lparr>ic_identityPublicKey = pk identitySk, ic_deviceCertBytes = deviceCert, ic_replicaCertBytes = replicaCert,
           ic_devicePublicKey = pk deviceSk, ic_replicaPublicKey = rcc_replicaPublicKey rep\<rparr>"
proof -
  have d: "verifyDeviceCertV1 cr (pk identitySk) (Some now) deviceCert = Inr dev"
    using assms(6) by (intro device_cert_roundtrip [OF assms(1,2)]) auto
  have r: "verifyReplicaCertV1 cr (pk deviceSk) (Some (rcc_docId rep)) (Some now) replicaCert = Inr rep"
    using assms(6) by (intro replica_cert_roundtrip [OF assms(1,4)]) auto
  have t: "trim_js (rcc_docId rep) \<noteq> []" "length (rcc_replicaPublicKey rep) = 32"
    using assms(4) by (auto simp: issueReplicaCertV1_def bindR_eq_Inr assertEd25519PublicKey_def split: if_splits)
  obtain bs where bs: "encodeTreecrdtIdentityChainV1 cr \<lparr>ic_identityPublicKey = pk identitySk, ic_deviceCertBytes = deviceCert, ic_replicaCertBytes = replicaCert\<rparr> = Inr bs"
      "cap = \<lparr>cap_name = TREECRDT_IDENTITY_CHAIN_CAPABILITY, cap_value = base64urlEncode bs\<rparr>"
    using assms(5) by (auto simp: createTreecrdtIdentityChainCapabilityV1_def bindR_eq_Inr)
  show ?thesis using t chain_codec [OF assms(1) bs(1)]
    by (simp add: verifyTreecrdtIdentityChainCapabilityV1_def bs(2) guardR_def base64url_inverse verifyReplicaChainV1_def d r assms(3)
        assertEd25519PublicKey_def)
qed

theorem identity_chain_roundtrip_witness:
  "\<exists>deviceCert replicaCert cap.
     issueDeviceCertV1 demo_crypto [1] \<lparr>dc_devicePublicKey = demo_pk [2], dc_iat = None, dc_exp = Some 9\<rparr> = Inr deviceCert
   \<and> issueReplicaCertV1 demo_crypto [2] \<lparr>rcc_docId = ''doc'', rcc_replicaPublicKey = demo_pk [3], rcc_iat = None, rcc_exp = None\<rparr> = Inr replicaCert
   \<and> (\<exists>v. verifyTreecrdtIdentityChainCapabilityV1 demo_crypto ''doc'' (Some (demo_pk [3])) (Some 4) cap = Inr v \<and> ic_replicaPublicKey v = demo_pk [3])"
proof -
  define dev where "dev = \<lparr>dc_devicePublicKey = demo_pk [2], dc_iat = None, dc_exp = Some 9\<rparr>"
  define rep where "rep = \<lparr>rcc_docId = ''doc'', rcc_replicaPublicKey = demo_pk [3], rcc_iat = None, rcc_exp = None\<rparr>"
  have l: "length (demo_pk x) = 32" for x using lawful_simps(4) [OF demo_crypto_lawful] by blast
  obtain dc rc where c: "issueDeviceCertV1 demo_crypto [1] dev = Inr dc" "issueReplicaCertV1 demo_crypto [2] rep = Inr rc"
    using l by (auto simp: issueDeviceCertV1_def issueReplicaCertV1_def dev_def rep_def assertEd25519PublicKey_def guardR_def trim_js_def is_ws_def)
  obtain cap where cap: "createTreecrdtIdentityChainCapabilityV1 demo_crypto
      \<lparr>ic_identityPublicKey = demo_pk [1], ic_deviceCertBytes = dc, ic_replicaCertBytes = rc\<rparr> = Inr cap"
    using l by (auto simp: createTreecrdtIdentityChainCapabilityV1_def encodeTreecrdtIdentityChainV1_def assertEd25519PublicKey_def)
  have "verifyTreecrdtIdentityChainCapabilityV1 demo_crypto (rcc_docId rep) (Some (rcc_replicaPublicKey rep)) (Some 4) cap
    = Inr \<lparr>ic_identityPublicKey = demo_pk [1], ic_deviceCertBytes = dc, ic_replicaCertBytes = rc,
           ic_devicePublicKey = demo_pk [2], ic_replicaPublicKey = rcc_replicaPublicKey rep\<rparr>"
    by (rule identity_chain_roundtrip [OF demo_crypto_lawful c(1) _ c(2) cap]) (simp_all add: dev_def rep_def)
  then have "\<exists>v. verifyTreecrdtIdentityChainCapabilityV1 demo_crypto ''doc'' (Some (demo_pk [3])) (Some 4) cap = Inr v \<and> ic_replicaPublicKey v = demo_pk [3]"
    by (simp add: rep_def)
  with c show ?thesis unfolding dev_def rep_def by blast
qed

end
