(* ===== verification/Cose_Auth.thy ===== *)
theory Cose_Auth
  imports Identity Peer_State
begin

text \<open>
  \<^verbatim>\<open>createTreecrdtCoseCwtAuth\<close> (\<^verbatim>\<open>packages/treecrdt-auth/src/internal/cose-cwt-auth.ts\<close>): the auth
  hooks of a sync peer.  The variables its closures share are the record \<open>AuthState\<close>; the field
  \<open>au_world\<close> is what lies outside (the stores, the tree, the clock and the callbacks of the
  options), which the hooks read and call.  A store's \<^verbatim>\<open>init\<close> runs once; its outcome is kept.
\<close>

section \<open>Options and state\<close>

datatype OpPurpose = SignOp | VerifyOp

datatype RevocationStage = StageParse | StageRuntime OpPurpose Operation

record 'w CapabilityStore =
  cst_init :: "('w, unit) pm option"
  cst_storeCapabilities :: "Capability list \<Rightarrow> ('w, unit) pm"
  cst_listCapabilities :: "('w, Capability list) pm"

record 'w OpAuthStore =
  ost_init :: "('w, unit) pm option"
  ost_storeOpAuth :: "(OpRef \<times> OpAuth) list \<Rightarrow> ('w, unit) pm"
  ost_getOpAuthByOpRefs :: "OpRef list \<Rightarrow> ('w, OpAuth option list) pm"

record 'w CoseOptions =
  co_crypto :: Crypto
  co_issuerPublicKeys :: "bytes list"
  co_localPrivateKey :: bytes
  co_localPublicKey :: bytes
  co_localCapabilityTokens :: "bytes list"
  co_capabilityStore :: "'w CapabilityStore option"
  co_localIdentityChain :: "TreecrdtIdentityChainV1 option"
  co_onPeerIdentityChain :: "(VerifiedTreecrdtIdentityChainV1 \<Rightarrow> ('w, unit) pm) option"
  co_scopeEvaluator :: "('w \<Rightarrow> TreecrdtScopeEvaluator) option"
  co_opAuthStore :: "'w OpAuthStore option"
  co_localRevocationRecords :: "bytes list"
  co_onPeerRevocationRecord :: "(RevocationRecord \<Rightarrow> ('w, unit) pm) option"
  co_revokedCapabilityTokenIds :: "bytes list option"
  co_isCapabilityTokenRevoked :: "('w \<Rightarrow> RevocationStage \<Rightarrow> RevocationCheckContext \<Rightarrow> bool res) option"
  co_allowUnsigned :: bool
  co_requireProofRef :: bool
  co_now :: "'w \<Rightarrow> int"

record 'w AuthState =
  au_grants :: "(string, (string, CapabilityGrant) jsmap) jsmap"
  au_replay :: "(string, Capability) jsmap"
  au_opAuth :: "(string, OpAuth) jsmap"
  au_revocations :: revocations
  au_localTokensFor :: "string option"
  au_localRevocationsFor :: "string option"
  au_storeInit :: "unit res option"
  au_storeLoadedFor :: "string option"
  au_opAuthInit :: "unit res option"
  au_world :: 'w

definition initAuth :: "'w \<Rightarrow> 'w AuthState" where
  "initAuth w = \<lparr>au_grants = [], au_replay = [], au_opAuth = [], au_revocations = [], au_localTokensFor = None,
     au_localRevocationsFor = None, au_storeInit = None, au_storeLoadedFor = None, au_opAuthInit = None, au_world = w\<rparr>"

definition liftO :: "('w, 'a) pm \<Rightarrow> ('w AuthState, 'a) pm" where
  "liftO m = (\<lambda>s. case m (au_world s) of (r, w) \<Rightarrow> (r, s\<lparr>au_world := w\<rparr>))"

text \<open>\<^verbatim>\<open>message.includes(part)\<close>\<close>

fun str_includes :: "string \<Rightarrow> string \<Rightarrow> bool" where
  "str_includes part [] = (part = [])"
| "str_includes part (c # cs) = (take (length part) (c # cs) = part \<or> str_includes part cs)"

section \<open>Revocation checks\<close>

definition revokedHexes :: "'w CoseOptions \<Rightarrow> string list option" where
  "revokedHexes opts = map_option (map bytesToHex) (co_revokedCapabilityTokenIds opts)"

definition parseStageRevocationChecker :: "'w CoseOptions \<Rightarrow> 'w AuthState \<Rightarrow> RevocationCheckContext \<Rightarrow> bool res" where
  "parseStageRevocationChecker opts s ctx =
     bindR (isRevokedByStandardPolicy (revokedHexes opts) (au_revocations s) (rcx_tokenIdHex ctx) None) (\<lambda>revoked.
       if revoked then Inr True
       else case co_isCapabilityTokenRevoked opts of
         None \<Rightarrow> Inr False
       | Some h \<Rightarrow> h (au_world s) StageParse ctx)"

definition isGrantRevoked :: "'w CoseOptions \<Rightarrow> string \<Rightarrow> OpPurpose \<Rightarrow> Operation \<Rightarrow> 'w AuthState \<Rightarrow> CapabilityGrant \<Rightarrow> bool res" where
  "isGrantRevoked opts docId purpose oper s grant =
    (let tokenIdHex = bytesToHex (cg_tokenId grant) in
     bindR (isRevokedByStandardPolicy (revokedHexes opts) (au_revocations s) tokenIdHex (Some oper)) (\<lambda>revoked.
       if revoked then Inr True
       else case co_isCapabilityTokenRevoked opts of
         None \<Rightarrow> Inr False
       | Some h \<Rightarrow> h (au_world s) (StageRuntime purpose oper) \<lparr>rcx_tokenId = cg_tokenId grant, rcx_tokenIdHex = tokenIdHex,
           rcx_tokenBytes = None, rcx_docId = docId, rcx_depth = None\<rparr>))"

section \<open>Recording tokens\<close>

definition tokenOptions :: "'w CoseOptions \<Rightarrow> string \<Rightarrow> 'w AuthState \<Rightarrow> VerifyTokenOptions" where
  "tokenOptions opts docId s = \<lparr>vt_issuerPublicKeys = co_issuerPublicKeys opts, vt_docId = docId,
     vt_nowSec = co_now opts (au_world s), vt_scopeEvaluator = map_option (\<lambda>e. e (au_world s)) (co_scopeEvaluator opts),
     vt_revokedCapabilityTokenIds = co_revokedCapabilityTokenIds opts,
     vt_isCapabilityTokenRevoked = Some (parseStageRevocationChecker opts s)\<rparr>"

definition localTokenIdHexes :: "'w CoseOptions \<Rightarrow> string list" where
  "localTokenIdHexes opts = map (\<lambda>t. bytesToHex (deriveTokenIdV1 (co_crypto opts) t)) (co_localCapabilityTokens opts)"

definition makeAuthCapability :: "bytes \<Rightarrow> string \<Rightarrow> Capability" where
  "makeAuthCapability tokenBytes name = \<lparr>cap_name = name, cap_value = base64urlEncode tokenBytes\<rparr>"

definition isLocalToken :: "'w CoseOptions \<Rightarrow> bytes \<Rightarrow> bool" where
  "isLocalToken opts tokenBytes = (bytesToHex (deriveTokenIdV1 (co_crypto opts) tokenBytes) \<in> set (localTokenIdHexes opts))"

definition rememberReplayAuthCapability :: "'w CoseOptions \<Rightarrow> bytes \<Rightarrow> ('w AuthState, unit) pm" where
  "rememberReplayAuthCapability opts tokenBytes =
    (if isLocalToken opts tokenBytes then ret ()
     else let cap = makeAuthCapability tokenBytes AUTH_REPLAY_CAPABILITY_NAME in
       modify (\<lambda>s. s\<lparr>au_replay := js_set (cap_value cap) cap (au_replay s)\<rparr>))"

definition addGrant :: "CapabilityGrant \<Rightarrow> 'w AuthState \<Rightarrow> 'w AuthState" where
  "addGrant grant s =
    (let keyHex = bytesToHex (cg_keyId grant); tokenHex = bytesToHex (cg_tokenId grant);
         byToken = (case js_get (au_grants s) keyHex of None \<Rightarrow> [] | Some m \<Rightarrow> m)
     in s\<lparr>au_grants := js_set keyHex (js_set tokenHex grant byToken) (au_grants s)\<rparr>)"

definition recordToken :: "'w CoseOptions \<Rightarrow> bytes \<Rightarrow> string \<Rightarrow> ('w AuthState, unit) pm" where
  "recordToken opts tokenBytes docId =
     bnd (gets (\<lambda>s. parseAndVerifyCapabilityToken (co_crypto opts) (tokenOptions opts docId s) tokenBytes)) (\<lambda>r.
     bnd (liftR r) (\<lambda>grant. modify (addGrant grant)))"

definition ensureCapabilityStoreReady :: "'w CoseOptions \<Rightarrow> ('w AuthState, unit) pm" where
  "ensureCapabilityStoreReady opts = (case Option.bind (co_capabilityStore opts) cst_init of
       None \<Rightarrow> ret ()
     | Some init \<Rightarrow> bnd (gets au_storeInit) (\<lambda>p. case p of
         Some r \<Rightarrow> liftR r
       | None \<Rightarrow> bnd (tryM (liftO init)) (\<lambda>r. sq (modify (\<lambda>s. s\<lparr>au_storeInit := Some r\<rparr>)) (liftR r))))"

definition persistTrustedCapability :: "'w CoseOptions \<Rightarrow> Capability \<Rightarrow> ('w AuthState, unit) pm" where
  "persistTrustedCapability opts cap = (case co_capabilityStore opts of
       None \<Rightarrow> ret ()
     | Some store \<Rightarrow> if \<not> isAnyAuthCapability cap then ret ()
         else sq (ensureCapabilityStoreReady opts) (liftO (cst_storeCapabilities store [cap])))"

definition recordStored :: "'w CoseOptions \<Rightarrow> string \<Rightarrow> Capability \<Rightarrow> ('w AuthState, unit) pm" where
  "recordStored opts docId cap =
    (if \<not> isAnyAuthCapability cap then ret ()
     else let tokenBytes = base64urlDecode (cap_value cap) in
       catch (sq (recordToken opts tokenBytes docId)
              (whenM (\<not> isLocalToken opts tokenBytes) (rememberReplayAuthCapability opts tokenBytes)))
         (\<lambda>e. if str_includes ''capability token revoked'' e then ret ()
              else if \<not> str_includes ''unknown issuer'' e then throw e else ret ()))"

definition ensureCapabilityStoreRecorded :: "'w CoseOptions \<Rightarrow> string \<Rightarrow> ('w AuthState, unit) pm" where
  "ensureCapabilityStoreRecorded opts docId =
     bnd (gets au_storeLoadedFor) (\<lambda>loaded. case co_capabilityStore opts of
       None \<Rightarrow> ret ()
     | Some store \<Rightarrow>
         if loaded = Some docId then ret ()
         else sq (ensureCapabilityStoreReady opts)
           (bnd (liftO (cst_listCapabilities store)) (\<lambda>stored.
            sq (for_each (recordStored opts docId) stored)
               (modify (\<lambda>s. s\<lparr>au_storeLoadedFor := Some docId\<rparr>)))))"

definition ensureLocalRevocationsRecorded :: "'w CoseOptions \<Rightarrow> string \<Rightarrow> ('w AuthState, unit) pm" where
  "ensureLocalRevocationsRecorded opts docId =
     bnd (gets au_localRevocationsFor) (\<lambda>d.
       if d = Some docId then ret ()
       else sq (for_each (\<lambda>recordBytes.
              bnd (gets (\<lambda>s. verifyTreecrdtRevocationRecordV1 (co_crypto opts) (co_issuerPublicKeys opts) (Some docId)
                    (Some (co_now opts (au_world s))) recordBytes)) (\<lambda>r.
              bnd (liftR r) (\<lambda>rec. modify (\<lambda>s. s\<lparr>au_revocations := applyRevocationRecord rec recordBytes (au_revocations s)\<rparr>))))
              (co_localRevocationRecords opts))
            (modify (\<lambda>s. s\<lparr>au_localRevocationsFor := Some docId\<rparr>)))"

definition ensureLocalTokensRecorded :: "'w CoseOptions \<Rightarrow> string \<Rightarrow> ('w AuthState, unit) pm" where
  "ensureLocalTokensRecorded opts docId =
     bnd (gets au_localTokensFor) (\<lambda>d.
       if d = Some docId then ret ()
       else sq (ensureCapabilityStoreRecorded opts docId)
         (sq (ensureLocalRevocationsRecorded opts docId)
         (sq (for_each (\<lambda>t. sq (recordToken opts t docId)
                (persistTrustedCapability opts (makeAuthCapability t AUTH_CAPABILITY_NAME))) (co_localCapabilityTokens opts))
             (modify (\<lambda>s. s\<lparr>au_localTokensFor := Some docId\<rparr>)))))"

section \<open>Capabilities of a peer\<close>

fun parseGrants :: "'w CoseOptions \<Rightarrow> string \<Rightarrow> 'w AuthState \<Rightarrow> Capability list \<Rightarrow> CapabilityGrant list res" where
  "parseGrants opts docId s [] = Inr []"
| "parseGrants opts docId s (cap # caps) =
    (case parseAndVerifyCapabilityToken (co_crypto opts) (tokenOptions opts docId s) (base64urlDecode (cap_value cap)) of
       Inr g \<Rightarrow> bindR (parseGrants opts docId s caps) (\<lambda>gs. Inr (g # gs))
     | Inl e \<Rightarrow> if \<not> str_includes ''unknown issuer'' e then Inl e else parseGrants opts docId s caps)"

definition parsePeerCapabilityGrants :: "'w CoseOptions \<Rightarrow> Capability list \<Rightarrow> string \<Rightarrow> ('w AuthState, CapabilityGrant list) pm" where
  "parsePeerCapabilityGrants opts tokenCaps docId = bnd (gets (\<lambda>s. parseGrants opts docId s tokenCaps)) liftR"

definition recordRevocationCap :: "'w CoseOptions \<Rightarrow> string \<Rightarrow> Capability \<Rightarrow> ('w AuthState, unit) pm" where
  "recordRevocationCap opts docId cap =
    (if cap_name cap \<noteq> TREECRDT_REVOCATION_CAPABILITY then ret ()
     else bnd (gets (\<lambda>s. verifyTreecrdtRevocationCapabilityV1 (co_crypto opts) (co_issuerPublicKeys opts) docId
            (Some (co_now opts (au_world s))) cap)) (\<lambda>r.
          bnd (liftR r) (\<lambda>rec.
          sq (modify (\<lambda>s. s\<lparr>au_revocations := applyRevocationRecord rec (base64urlDecode (cap_value cap)) (au_revocations s)\<rparr>))
             (case co_onPeerRevocationRecord opts of None \<Rightarrow> ret () | Some h \<Rightarrow> liftO (h rec)))))"

definition recordAuthCap :: "'w CoseOptions \<Rightarrow> string \<Rightarrow> Capability \<Rightarrow> ('w AuthState, unit) pm" where
  "recordAuthCap opts docId cap =
    (let tokenBytes = base64urlDecode (cap_value cap) in
     catch (sq (recordToken opts tokenBytes docId)
            (sq (whenM (\<not> isLocalToken opts tokenBytes) (rememberReplayAuthCapability opts tokenBytes))
             (persistTrustedCapability opts (makeAuthCapability tokenBytes
               (if isLocalToken opts tokenBytes then AUTH_CAPABILITY_NAME else AUTH_REPLAY_CAPABILITY_NAME)))))
       (\<lambda>e. if isReplayAuthCapability cap \<and> str_includes ''capability token revoked'' e then ret ()
            else if \<not> str_includes ''unknown issuer'' e then throw e else ret ()))"

definition recordIdentityCap :: "'w CoseOptions \<Rightarrow> string \<Rightarrow> Capability \<Rightarrow> ('w AuthState, unit) pm" where
  "recordIdentityCap opts docId cap = (case co_onPeerIdentityChain opts of
       None \<Rightarrow> ret ()
     | Some h \<Rightarrow> if cap_name cap \<noteq> TREECRDT_IDENTITY_CHAIN_CAPABILITY then ret ()
         else catch (bnd (gets (\<lambda>s. verifyTreecrdtIdentityChainCapabilityV1 (co_crypto opts) docId None
                  (Some (co_now opts (au_world s))) cap)) (\<lambda>r.
                bnd (liftR r) (\<lambda>chain. liftO (h chain)))) (\<lambda>_. ret ()))"

definition recordCapabilities :: "'w CoseOptions \<Rightarrow> Capability list \<Rightarrow> string \<Rightarrow> ('w AuthState, unit) pm" where
  "recordCapabilities opts caps docId =
     sq (ensureCapabilityStoreRecorded opts docId)
     (sq (ensureLocalRevocationsRecorded opts docId)
     (sq (for_each (recordRevocationCap opts docId) caps)
         (for_each (\<lambda>cap. if isAnyAuthCapability cap then recordAuthCap opts docId cap else recordIdentityCap opts docId cap) caps)))"

definition helloCaps :: "'w CoseOptions \<Rightarrow> string \<Rightarrow> ('w AuthState, Capability list) pm" where
  "helloCaps opts docId =
     sq (ensureCapabilityStoreRecorded opts docId)
     (sq (ensureLocalRevocationsRecorded opts docId)
     (sq (ensureLocalTokensRecorded opts docId)
     (bnd (gets id) (\<lambda>s.
      bnd (case co_localIdentityChain opts of None \<Rightarrow> ret []
           | Some chain \<Rightarrow> bnd (liftR (createTreecrdtIdentityChainCapabilityV1 (co_crypto opts) chain)) (\<lambda>c. ret [c])) (\<lambda>ident.
        ret (map (\<lambda>t. makeAuthCapability t AUTH_CAPABILITY_NAME) (co_localCapabilityTokens opts)
          @ map snd (au_replay s)
          @ map (\<lambda>(_, _, recordBytes). createTreecrdtRevocationCapabilityV1 recordBytes) (au_revocations s)
          @ ident))))))"

section \<open>Choosing a grant\<close>

definition evaluatorOf :: "'w CoseOptions \<Rightarrow> 'w AuthState \<Rightarrow> TreecrdtScopeEvaluator option" where
  "evaluatorOf opts s = map_option (\<lambda>e. e (au_world s)) (co_scopeEvaluator opts)"

fun selectLoop :: "'w CoseOptions \<Rightarrow> string \<Rightarrow> OpPurpose \<Rightarrow> Operation \<Rightarrow> 'w AuthState \<Rightarrow>
    CapabilityGrant list \<Rightarrow> CapabilityGrant option \<Rightarrow> bool \<Rightarrow> CapabilityGrant res" where
  "selectLoop opts docId purpose oper s [] bestUnknown sawRevoked =
    (case bestUnknown of
       Some g \<Rightarrow> Inr g
     | None \<Rightarrow> if sawRevoked then Inl ''capability token revoked'' else Inl ''capability does not allow op'')"
| "selectLoop opts docId purpose oper s (grant # gs) bestUnknown sawRevoked =
     bindR (isGrantRevoked opts docId purpose oper s grant) (\<lambda>revoked.
       if revoked then selectLoop opts docId purpose oper s gs bestUnknown True
       else if \<not> in_window (co_now opts (au_world s)) (cg_exp grant) (cg_nbf grant) then
         selectLoop opts docId purpose oper s gs bestUnknown sawRevoked
       else bindR (capsAllowsOp (evaluatorOf opts s) docId oper (cg_caps grant)) (\<lambda>scopeRes.
         if scopeRes = Allow then Inr grant
         else selectLoop opts docId purpose oper s gs
           (if scopeRes = Unknown \<and> bestUnknown = None then Some grant else bestUnknown) sawRevoked))"

definition selectGrantForOp :: "'w CoseOptions \<Rightarrow> string \<Rightarrow> Operation \<Rightarrow> CapabilityGrant list \<Rightarrow> OpPurpose \<Rightarrow> ('w AuthState, CapabilityGrant) pm" where
  "selectGrantForOp opts docId oper candidates purpose =
     bnd (gets (\<lambda>s. selectLoop opts docId purpose oper s candidates None False)) liftR"

section \<open>What a peer may read\<close>

definition docWideCap :: "TreecrdtScopeEvaluator option \<Rightarrow> string \<Rightarrow> cval \<Rightarrow> bool res" where
  "docWideCap scopeEvaluator docId cap =
    (let res = getField cap ''res'' in
     if \<not> is_object res then Inr False
     else if getField res ''doc_id'' \<noteq> CStr docId then Inr False
     else bindR (parseScope res) (\<lambda>scope.
       if \<not> isDocWideScope scope then Inr False
       else bindR (nodeIdToBytes16 ROOT_NODE_ID_HEX) (\<lambda>node.
            bindR (capAllowsNode scopeEvaluator docId node [''read_structure''] cap) (\<lambda>tri. Inr (tri = Allow)))))"

fun anyDocWide :: "TreecrdtScopeEvaluator option \<Rightarrow> string \<Rightarrow> cval list \<Rightarrow> bool res" where
  "anyDocWide scopeEvaluator docId [] = Inr False"
| "anyDocWide scopeEvaluator docId (cap # caps) =
     bindR (docWideCap scopeEvaluator docId cap) (\<lambda>ok. if ok then Inr True else anyDocWide scopeEvaluator docId caps)"

definition grantsAllowNode :: "TreecrdtScopeEvaluator option \<Rightarrow> string \<Rightarrow> CapabilityGrant list \<Rightarrow> bytes \<Rightarrow> string list \<Rightarrow> ScopeTri res" where
  "grantsAllowNode scopeEvaluator docId grants node requiredActions =
     bestOf (\<lambda>grant. capsAllowsNodeAccess scopeEvaluator docId node requiredActions (cg_caps grant)) grants Deny"

definition filterDecision :: "TreecrdtScopeEvaluator option \<Rightarrow> string \<Rightarrow> Filter \<Rightarrow> CapabilityGrant list \<Rightarrow> unit res" where
  "filterDecision scopeEvaluator docId flt grants = (case flt of
       FilterAll \<Rightarrow> bindR (anyDocWide scopeEvaluator docId (concat (map cg_caps grants))) (\<lambda>ok.
         if ok then Inr () else Inl ''capability does not allow filter'')
     | FilterChildren parent \<Rightarrow> bindR (grantsAllowNode scopeEvaluator docId grants parent [''read_structure'']) (\<lambda>best.
         if best = Allow then Inr ()
         else if best = Unknown then Inl ''missing subtree context to authorize filter''
         else Inl ''capability does not allow filter''))"

definition quoted :: "string \<Rightarrow> string" where
  "quoted t = CHR 0x22 # t @ [CHR 0x22]"

definition authorizeFilter :: "'w CoseOptions \<Rightarrow> Filter \<Rightarrow> SyncAuthAuthorizeFilterContext \<Rightarrow> ('w AuthState, unit) pm" where
  "authorizeFilter opts flt ctx =
    (let tokenCaps = List.filter isAuthCapability (afc_capabilities ctx) in
     if tokenCaps = [] then throw (''missing '' @ quoted AUTH_CAPABILITY_NAME @ '' token'')
     else bnd (parsePeerCapabilityGrants opts tokenCaps (afc_docId ctx)) (\<lambda>grants.
       if grants = [] then throw (''no trusted '' @ quoted AUTH_CAPABILITY_NAME @ '' token'')
       else bnd (gets (\<lambda>s. filterDecision (evaluatorOf opts s) (afc_docId ctx) flt grants)) liftR))"

fun kindNode :: "OperationKind \<Rightarrow> NodeId" where
  "kindNode (OpInsert _ node _ _) = node"
| "kindNode (OpMove node _ _) = node"
| "kindNode (OpDelete node) = node"
| "kindNode (OpTombstone node) = node"
| "kindNode (OpPayload node _) = node"

definition allowOutgoing :: "TreecrdtScopeEvaluator option \<Rightarrow> string \<Rightarrow> CapabilityGrant list \<Rightarrow> Operation \<Rightarrow> bool res" where
  "allowOutgoing scopeEvaluator docId grants oper =
     bindR (nodeIdToBytes16 (kindNode (op_kind oper))) (\<lambda>node.
     bindR (grantsAllowNode scopeEvaluator docId grants node [''read_structure'']) (\<lambda>best. Inr (best = Allow)))"

definition filterOutgoingOps :: "'w CoseOptions \<Rightarrow> Operation list \<Rightarrow> SyncAuthFilterOutgoingOpsContext \<Rightarrow> ('w AuthState, bool list) pm" where
  "filterOutgoingOps opts ops ctx =
    (let tokenCaps = List.filter isAuthCapability (foc_capabilities ctx) in
     if tokenCaps = [] then ret (map (\<lambda>_. True) ops)
     else bnd (parsePeerCapabilityGrants opts tokenCaps (foc_docId ctx)) (\<lambda>grants.
       if grants = [] then ret (map (\<lambda>_. False) ops)
       else bnd (gets (\<lambda>s. anyDocWide (evaluatorOf opts s) (foc_docId ctx) (concat (map cg_caps grants)))) (\<lambda>wide.
            bnd (liftR wide) (\<lambda>ok.
              if ok then ret (map (\<lambda>_. True) ops)
              else bnd (gets (\<lambda>s. mapR (allowOutgoing (evaluatorOf opts s) (foc_docId ctx) grants) ops)) liftR))))"

section \<open>Signing\<close>

definition opReplicaBytes :: "Operation \<Rightarrow> bytes res" where
  "opReplicaBytes oper = replicaIdToBytes (oid_replica (om_id (op_meta oper)))"

definition opRefOf :: "Crypto \<Rightarrow> string \<Rightarrow> bytes \<Rightarrow> Operation \<Rightarrow> OpRef res" where
  "opRefOf cr docId replica oper = deriveOpRefV0 (blake3 cr) (utf8ToBytes cr) docId
     \<lparr>oib_replica = replica, oib_counter = JsNumber (oid_counter (om_id (op_meta oper)))\<rparr>"

definition ensureOpAuthStoreReady :: "'w CoseOptions \<Rightarrow> ('w AuthState, unit) pm" where
  "ensureOpAuthStoreReady opts = (case Option.bind (co_opAuthStore opts) ost_init of
       None \<Rightarrow> ret ()
     | Some init \<Rightarrow> bnd (gets au_opAuthInit) (\<lambda>p. case p of
         Some r \<Rightarrow> liftR r
       | None \<Rightarrow> bnd (tryM (liftO init)) (\<lambda>r. sq (modify (\<lambda>s. s\<lparr>au_opAuthInit := Some r\<rparr>)) (liftR r))))"

definition setOpAuth :: "OpRef \<Rightarrow> OpAuth \<Rightarrow> 'w AuthState \<Rightarrow> 'w AuthState" where
  "setOpAuth opRef a s = s\<lparr>au_opAuth := js_set (bytesToHex opRef) a (au_opAuth s)\<rparr>"

definition currentLocalGrants :: "'w CoseOptions \<Rightarrow> 'w AuthState \<Rightarrow> CapabilityGrant list" where
  "currentLocalGrants opts s =
    (case js_get (au_grants s) (bytesToHex (deriveKeyIdV1 (co_crypto opts) (co_localPublicKey opts))) of
       None \<Rightarrow> []
     | Some byToken \<Rightarrow> map snd (List.filter (\<lambda>(tokenIdHex, _). tokenIdHex \<in> set (localTokenIdHexes opts)) byToken))"

definition selectProofRef :: "'w CoseOptions \<Rightarrow> string \<Rightarrow> Operation \<Rightarrow> ('w AuthState, bytes option) pm" where
  "selectProofRef opts docId oper =
    (if co_localCapabilityTokens opts = [] then ret None
     else bnd (gets (currentLocalGrants opts)) (\<lambda>grants.
       if grants = [] then throw ''auth enabled but no local capability tokens are recorded''
       else bnd (selectGrantForOp opts docId oper grants SignOp) (\<lambda>selected. ret (Some (cg_tokenId selected)))))"

text \<open>One round of the loop: the auth of an op, or the reference to ask the store for.\<close>

definition signOne :: "'w CoseOptions \<Rightarrow> string \<Rightarrow> Operation \<Rightarrow> ('w AuthState, OpRef + OpAuth) pm" where
  "signOne opts docId oper =
     bnd (liftR (opReplicaBytes oper)) (\<lambda>opReplica.
     bnd (liftR (opRefOf (co_crypto opts) docId opReplica oper)) (\<lambda>opRef.
       if bytesToHex opReplica \<noteq> bytesToHex (co_localPublicKey opts) then
         gets (\<lambda>s. case js_get (au_opAuth s) (bytesToHex opRef) of Some existing \<Rightarrow> Inr existing | None \<Rightarrow> Inl opRef)
       else bnd (selectProofRef opts docId oper) (\<lambda>proofRef.
            bnd (liftR (signTreecrdtOpV1 (co_crypto opts) docId oper (co_localPrivateKey opts))) (\<lambda>sig.
              let entry = \<lparr>oa_sig = sig, oa_proofRef = proofRef\<rparr>
              in sq (modify (setOpAuth opRef entry)) (ret (Inr entry))))))"

text \<open>
  Filling the slots left open from the store's answer.  A store that answers with fewer entries
  than it was asked for leaves a hole in the array; the model stops there.
\<close>

fun fillMissing :: "(OpRef + OpAuth) list \<Rightarrow> OpAuth option list \<Rightarrow> ('w AuthState, OpAuth list) pm" where
  "fillMissing [] [] = ret []"
| "fillMissing [] (None # listed) = throw ''missing op auth for non-local replica; cannot forward unsigned op''"
| "fillMissing [] (Some found # listed) = throw ''TypeError''"
| "fillMissing (Inr a # slots) listed = bnd (fillMissing slots listed) (\<lambda>out. ret (a # out))"
| "fillMissing (Inl opRef # slots) [] = throw ''hole in op auth''"
| "fillMissing (Inl opRef # slots) (None # listed) =
     throw ''missing op auth for non-local replica; cannot forward unsigned op''"
| "fillMissing (Inl opRef # slots) (Some found # listed) =
     sq (modify (setOpAuth opRef found)) (bnd (fillMissing slots listed) (\<lambda>out. ret (found # out)))"

definition missingRefs :: "(OpRef + OpAuth) list \<Rightarrow> OpRef list" where
  "missingRefs slots = List.map_filter (\<lambda>x. case x of Inl r \<Rightarrow> Some r | Inr _ \<Rightarrow> None) slots"

definition signOps :: "'w CoseOptions \<Rightarrow> Operation list \<Rightarrow> SyncAuthOpsContext \<Rightarrow> ('w AuthState, OpAuth list) pm" where
  "signOps opts ops ctx =
     sq (ensureLocalTokensRecorded opts (oc_docId ctx))
     (bnd (fold_m (\<lambda>oper acc. bnd (signOne opts (oc_docId ctx) oper) (\<lambda>x. ret (acc @ [x]))) ops []) (\<lambda>slots.
      bnd (if missingRefs slots = [] then ret []
           else case co_opAuthStore opts of
             None \<Rightarrow> throw ''missing op auth for non-local replica; cannot forward unsigned op''
           | Some store \<Rightarrow> sq (ensureOpAuthStoreReady opts) (liftO (ost_getOpAuthByOpRefs store (missingRefs slots))))
        (fillMissing slots)))"

section \<open>Verifying\<close>

definition chooseGrant :: "'w CoseOptions \<Rightarrow> string \<Rightarrow> Operation \<Rightarrow> OpAuth \<Rightarrow> (string, CapabilityGrant) jsmap \<Rightarrow>
    'w AuthState \<Rightarrow> CapabilityGrant res" where
  "chooseGrant opts docId oper a byToken s =
    (if co_requireProofRef opts then
       (case oa_proofRef a of
          None \<Rightarrow> Inl ''missing proof_ref''
        | Some ref \<Rightarrow> (case js_get byToken (bytesToHex ref) of
            None \<Rightarrow> Inl ''proof_ref does not match known token''
          | Some g \<Rightarrow> bindR (isGrantRevoked opts docId VerifyOp oper s g) (\<lambda>revoked.
              if revoked then Inl ''capability token revoked'' else Inr g)))
     else
       let candidates = map snd byToken;
           preferred = Option.bind (oa_proofRef a) (\<lambda>ref. js_get byToken (bytesToHex ref));
           ordered = (case preferred of
               None \<Rightarrow> candidates
             | Some p \<Rightarrow> p # List.filter (\<lambda>c. bytesToHex (cg_tokenId c) \<noteq> bytesToHex (cg_tokenId p)) candidates)
       in selectLoop opts docId VerifyOp oper s ordered None False)"

definition checkGrant :: "'w CoseOptions \<Rightarrow> string \<Rightarrow> Operation \<Rightarrow> OpAuth \<Rightarrow> bytes \<Rightarrow> CapabilityGrant \<Rightarrow> 'w AuthState \<Rightarrow> ScopeTri res" where
  "checkGrant opts docId oper a replica grant s =
     bindR (guardR (bytesToHex (cg_publicKey grant) = bytesToHex replica) ''author public key does not match op replica_id'') (\<lambda>_.
     bindR (guardR (\<not> (case cg_exp grant of None \<Rightarrow> False | Some t \<Rightarrow> co_now opts (au_world s) > t)) ''capability token expired'') (\<lambda>_.
     bindR (guardR (\<not> (case cg_nbf grant of None \<Rightarrow> False | Some t \<Rightarrow> co_now opts (au_world s) < t)) ''capability token not yet valid'') (\<lambda>_.
     bindR (capsAllowsOp (evaluatorOf opts s) docId oper (cg_caps grant)) (\<lambda>scopeRes.
     bindR (guardR (scopeRes \<noteq> Deny) ''capability does not allow op'') (\<lambda>_.
     bindR (verifyTreecrdtOpV1 (co_crypto opts) docId oper (oa_sig a) replica) (\<lambda>ok.
     bindR (guardR ok ''invalid op signature'') (\<lambda>_. Inr scopeRes)))))))"

text \<open>One round of the loop, on the op and the entry of \<^verbatim>\<open>auth\<close> at its index.\<close>

definition verifyOne :: "'w CoseOptions \<Rightarrow> string \<Rightarrow> Operation \<Rightarrow> OpAuth option \<Rightarrow>
    ('w AuthState, SyncAuthOpDisposition \<times> OpRef \<times> OpAuth) pm" where
  "verifyOne opts docId oper entry =
     bnd (liftR (opReplicaBytes oper)) (\<lambda>replica.
     let keyHex = bytesToHex (deriveKeyIdV1 (co_crypto opts) replica) in
     bnd (gets (\<lambda>s. js_get (au_grants s) keyHex)) (\<lambda>known.
     let byToken = (case known of None \<Rightarrow> [] | Some m \<Rightarrow> m) in
     if byToken = [] then throw (''unknown author: '' @ keyHex)
     else case entry of None \<Rightarrow> throw ''TypeError'' | Some a \<Rightarrow>
       bnd (gets (chooseGrant opts docId oper a byToken)) (\<lambda>chosen.
       bnd (liftR chosen) (\<lambda>grant.
       bnd (gets (checkGrant opts docId oper a replica grant)) (\<lambda>checked.
       bnd (liftR checked) (\<lambda>scopeRes.
       bnd (liftR (opRefOf (co_crypto opts) docId replica oper)) (\<lambda>opRef.
       sq (modify (setOpAuth opRef a))
          (ret (if scopeRes = Unknown then DPendingContext (Some ''missing subtree context to authorize op'') else DAllow,
                opRef, a)))))))))"

fun verifyLoop :: "'w CoseOptions \<Rightarrow> string \<Rightarrow> Operation list \<Rightarrow> OpAuth list \<Rightarrow>
    ('w AuthState, (SyncAuthOpDisposition \<times> OpRef \<times> OpAuth) list) pm" where
  "verifyLoop opts docId [] auth = ret []"
| "verifyLoop opts docId (oper # ops) auth =
     bnd (verifyOne opts docId oper (case auth of [] \<Rightarrow> None | a # _ \<Rightarrow> Some a)) (\<lambda>x.
     bnd (verifyLoop opts docId ops (tl auth)) (\<lambda>xs. ret (x # xs)))"

definition persistOpAuth :: "'w CoseOptions \<Rightarrow> (OpRef \<times> OpAuth) list \<Rightarrow> ('w AuthState, unit) pm" where
  "persistOpAuth opts entries = (case co_opAuthStore opts of
       None \<Rightarrow> ret ()
     | Some store \<Rightarrow> whenM (entries \<noteq> []) (sq (ensureOpAuthStoreReady opts) (liftO (ost_storeOpAuth store entries))))"

definition verifyOps :: "'w CoseOptions \<Rightarrow> Operation list \<Rightarrow> OpAuth list option \<Rightarrow> SyncAuthOpsContext \<Rightarrow>
    ('w AuthState, SyncAuthOpDisposition list option) pm" where
  "verifyOps opts ops auth ctx =
    (if ops = [] then ret None
     else sq (ensureCapabilityStoreRecorded opts (oc_docId ctx))
       (case auth of
          None \<Rightarrow> if co_allowUnsigned opts then ret None else throw ''missing op auth''
        | Some as \<Rightarrow>
            bnd (verifyLoop opts (oc_docId ctx) ops as) (\<lambda>results.
            sq (persistOpAuth opts (map snd results))
               (ret (if list_ex (\<lambda>(d, _). d \<noteq> DAllow) results then Some (map fst results) else None)))))"

section \<open>The hooks\<close>

definition createTreecrdtCoseCwtAuth :: "'w CoseOptions \<Rightarrow> (Operation, 'w AuthState) SyncAuth" where
  "createTreecrdtCoseCwtAuth opts = \<lparr>
     sa_helloCapabilities = Some (helloCaps opts),
     sa_onHello = Some (\<lambda>hello docId. sq (recordCapabilities opts (hello_capabilities hello) docId) (helloCaps opts docId)),
     sa_onHelloAck = Some (\<lambda>ack docId. recordCapabilities opts (ack_capabilities ack) docId),
     sa_authorizeFilter = Some (authorizeFilter opts),
     sa_filterOutgoingOps = Some (filterOutgoingOps opts),
     sa_signOps = Some (signOps opts),
     sa_verifyOps = Some (verifyOps opts),
     sa_onVerifiedOps = None\<rparr>"

end
