(* ===== verification/Peer_Safety.thy ===== *)
theory Peer_Safety
  imports Peer_Handlers
begin

text \<open>
  Safety of a peer over every run of its events (messages, local updates, rounds of the push
  loop), whatever the transport, the backend and the auth hooks return or throw: only verified
  ops reach the backend, and the session tables keep their invariant.
\<close>

datatype 'op PeerEvent = EvMessage transport "'op SyncMessage" | EvLocal "'op list option" | EvPush

fun peerEvent :: "('op, 'w, 'd, 'e) PeerConfig \<Rightarrow> 'op PeerEvent \<Rightarrow> (('op, 'w, 'd) Peer, unit) pm" where
  "peerEvent cfg (EvMessage t msg) = attach cfg t msg"
| "peerEvent cfg (EvLocal ops) = notifyLocalUpdate cfg ops"
| "peerEvent cfg EvPush = runPushLoop cfg"

fun runEvents :: "('op, 'w, 'd, 'e) PeerConfig \<Rightarrow> 'op PeerEvent list \<Rightarrow> ('op, 'w, 'd) Peer \<Rightarrow> ('op, 'w, 'd) Peer" where
  "runEvents cfg [] p = p"
| "runEvents cfg (ev # evs) p = runEvents cfg evs (snd (peerEvent cfg ev p))"

text \<open>What an event keeps, every run keeps.\<close>

lemma runEvents_preserves:
  assumes "\<And>ev. steps (preserves Q) (peerEvent cfg ev)" "Q p"
  shows "Q (runEvents cfg evs p)"
  using assms(2)
proof (induction evs arbitrary: p)
  case (Cons ev evs)
  obtain r p' where "peerEvent cfg ev p = (r, p')" by fastforce
  with assms(1) Cons.prems have "Q p'" using stepsD preserves_def by metis
  with Cons.IH \<open>peerEvent cfg ev p = (r, p')\<close> show ?case by simp
qed simp

section \<open>Relations every handler respects\<close>

text \<open>The part of the state the relations below talk about, besides the transport trace.\<close>

definition core :: "('op, 'w, 'd) Peer \<Rightarrow> _" where
  "core p = (responderSessions p, responderSubscriptions p, initiatorObjects p, initiatorSessions p,
     transportHelloAckWaiters p, waiterStates p, world p)"

definition done_settled :: "InitiatorSession \<Rightarrow> bool" where
  "done_settled s \<longleftrightarrow> (is_done s \<longrightarrow> settled (is_terminalStatus s))"

text \<open>
  The verifier is present and, called for the document of the peer in a world that satisfies
  \<open>J\<close>, answers for every op and allows only \<open>good\<close> ones; returning nothing allows them all.
\<close>

definition verifier_sound :: "('w \<Rightarrow> bool) \<Rightarrow> ('op \<Rightarrow> bool) \<Rightarrow> ('op, 'w, 'd, 'e) PeerConfig \<Rightarrow> bool" where
  "verifier_sound J good cfg \<longleftrightarrow> (\<exists>verify. authHook sa_verifyOps cfg = Some verify
     \<and> (\<forall>ops auth ctx w w'. J w \<longrightarrow> oc_docId ctx = docId_of cfg \<longrightarrow>
          verify ops auth ctx w = (Inr None, w') \<longrightarrow> (\<forall>x \<in> set ops. good x))
     \<and> (\<forall>ops auth ctx w ds w'. J w \<longrightarrow> oc_docId ctx = docId_of cfg \<longrightarrow>
          verify ops auth ctx w = (Inr (Some ds), w') \<longrightarrow> list_all2 (\<lambda>x d. d = DAllow \<longrightarrow> good x) ops ds))"

lemma verifier_soundD:
  assumes "verifier_sound J good cfg" "authHook sa_verifyOps cfg = Some verify" "J w" "oc_docId ctx = docId_of cfg"
  shows "verify ops auth ctx w = (Inr None, w') \<Longrightarrow> \<forall>x \<in> set ops. good x"
    and "verify ops auth ctx w = (Inr (Some ds), w') \<Longrightarrow> list_all2 (\<lambda>x d. d = DAllow \<longrightarrow> good x) ops ds"
proof -
  from assms(1,2) have
    "\<forall>ops auth ctx w w'. J w \<longrightarrow> oc_docId ctx = docId_of cfg \<longrightarrow>
        verify ops auth ctx w = (Inr None, w') \<longrightarrow> (\<forall>x \<in> set ops. good x)"
    "\<forall>ops auth ctx w ds w'. J w \<longrightarrow> oc_docId ctx = docId_of cfg \<longrightarrow>
        verify ops auth ctx w = (Inr (Some ds), w') \<longrightarrow> list_all2 (\<lambda>x d. d = DAllow \<longrightarrow> good x) ops ds"
    unfolding verifier_sound_def by simp_all
  note spec = this [rule_format, OF assms(3,4)]
  show "verify ops auth ctx w = (Inr None, w') \<Longrightarrow> \<forall>x \<in> set ops. good x"
    and "verify ops auth ctx w = (Inr (Some ds), w') \<Longrightarrow> list_all2 (\<lambda>x d. d = DAllow \<longrightarrow> good x) ops ds"
    by (blast intro: spec(1), rule spec(2))
qed

text \<open>
  A relation that the collaborators' calls respect (\<^verbatim>\<open>applyOps\<close> at least for \<open>good\<close> ops) and
  that every elementary update of the peer's tables respects.  Then every handler does.
\<close>

locale peer_closed = step_closed R
  for R :: "('op, 'w, 'd) Peer \<Rightarrow> ('op, 'w, 'd) Peer \<Rightarrow> bool" +
  fixes cfg :: "('op, 'w, 'd, 'e) PeerConfig" and J :: "'w \<Rightarrow> bool" and good :: "'op \<Rightarrow> bool"
  assumes call_send: "steps R (send cfg t pl)"
    and call_random: "steps R (liftW (cfg_randomId cfg x))"
    and call_lamport: "steps R (liftW (sb_maxLamport (cfg_backend cfg)))"
    and call_list: "steps R (liftW (sb_listOpRefs (cfg_backend cfg) fil))"
    and call_get: "steps R (liftW (sb_getOpsByOpRefs (cfg_backend cfg) refs))"
    and call_apply: "\<forall>x \<in> set ops. good x \<Longrightarrow> steps R (liftW (sb_applyOps (cfg_backend cfg) ops))"
    and call_store: "sb_storePendingOps (cfg_backend cfg) = Some h1 \<Longrightarrow> steps R (liftW (h1 ps))"
    and call_pending: "sb_listPendingOps (cfg_backend cfg) = Some h2 \<Longrightarrow> steps R (liftW h2)"
    and call_delete: "sb_deletePendingOps (cfg_backend cfg) = Some h3 \<Longrightarrow> steps R (liftW (h3 ops))"
    and call_caps: "authHook sa_helloCapabilities cfg = Some h4 \<Longrightarrow> steps R (liftW (h4 doc))"
    and call_onHello: "authHook sa_onHello cfg = Some h5 \<Longrightarrow> steps R (liftW (h5 hello doc))"
    and call_onHelloAck: "authHook sa_onHelloAck cfg = Some h6 \<Longrightarrow> steps R (liftW (h6 ack doc))"
    and call_authorize: "authHook sa_authorizeFilter cfg = Some h7 \<Longrightarrow> steps R (liftW (h7 fil actx))"
    and call_outgoing: "authHook sa_filterOutgoingOps cfg = Some h8 \<Longrightarrow> steps R (liftW (h8 ops fctx))"
    and call_sign: "authHook sa_signOps cfg = Some h9 \<Longrightarrow> steps R (liftW (h9 ops octx))"
    and call_verify: "authHook sa_verifyOps cfg = Some h10 \<Longrightarrow> steps R (liftW (h10 ops auth octx))"
    and call_verified: "authHook sa_onVerifiedOps cfg = Some h11 \<Longrightarrow> steps R (liftW (h11 ops auths octx))"
    and verified: "(\<forall>x. good x) \<or> verifier_sound J good cfg"
    and R_neutral: "core p' = core p \<Longrightarrow> R p p'"
    and R_subDelete: "R p (p\<lparr>responderSubscriptions := js_delete sid (responderSubscriptions p)\<rparr>)"
    and R_subSet: "rsub_id sub = sid \<Longrightarrow> R p (p\<lparr>responderSubscriptions := js_set sid sub (responderSubscriptions p)\<rparr>)"
    and R_subMark: "js_get (responderSubscriptions p) sid = Some sub \<Longrightarrow>
      R p (p\<lparr>responderSubscriptions := js_set sid (sub\<lparr>rsub_sentOpRefs := X\<rparr>) (responderSubscriptions p)\<rparr>)"
    and R_sesDelete: "R p (p\<lparr>responderSessions := js_delete fid (responderSessions p)\<rparr>)"
    and R_sesNew: "rs_expectedIndex s = 0 \<Longrightarrow> R p (p\<lparr>responderSessions := js_set fid s (responderSessions p)\<rparr>)"
    and R_sesPut: "js_get (responderSessions p) fid = Some s0 \<Longrightarrow>
      rs_expectedIndex s \<le> max (rs_expectedIndex s0) (maxCodewords cfg) \<Longrightarrow>
      R p (p\<lparr>responderSessions := js_set fid s (responderSessions p)\<rparr>)"
    and R_upd: "(\<And>s. done_settled s \<Longrightarrow> done_settled (f s)) \<Longrightarrow> R p (updInitiator i f p)"
    and R_drop: "set ks \<subseteq> set (initiatorSessions p) \<Longrightarrow> R p (p\<lparr>initiatorSessions := ks\<rparr>)"
    and R_newWaiter: "R p (p\<lparr>waiterStates := waiterStates p @ [Pending],
        transportHelloAckWaiters := (transportHelloAckWaiters p)(t := transportHelloAckWaiters p t @ [length (waiterStates p)])\<rparr>)"
    and R_dropWaiter: "R p (dropWaiter t e k p)"
    and R_resolveWaiters: "R p (resolveWaiters t p)"
    and R_outside: "\<not> J (world p) \<Longrightarrow> R p p'"
begin

lemmas calls = call_send call_random call_lamport call_list call_get call_store call_pending call_delete
  call_caps call_onHello call_onHelloAck call_authorize call_outgoing call_sign call_verify call_verified

text \<open>The continuation may rely on a world that satisfies \<open>J\<close>.\<close>

lemma steps_bnd_world:
  assumes "steps R m" "\<And>x p p'. J (world p) \<Longrightarrow> m p = (Inr x, p') \<Longrightarrow> steps R (f x)"
  shows "steps R (bnd m f)"
proof (rule stepsI)
  fix p r p'
  assume run: "bnd m f p = (r, p')"
  show "R p p'"
  proof (cases "J (world p)")
    case True
    from run assms(1) assms(2) [OF True] show ?thesis by (cases rule: bnd_E) (blast dest: stepsD intro: R_trans)+
  qed (rule R_outside)
qed

lemma neutral: "(\<And>p. core (f p) = core p) \<Longrightarrow> steps R (modify f)"
  by (rule steps_modify) (rule R_neutral)

lemma c_signFor: "steps R (signFor cfg caps ops pu fid)"
  unfolding signFor_def by (intro steps_rules calls) (auto split: if_splits)

lemma c_outgoingFlags:
  "authHook sa_filterOutgoingOps cfg = Some flt \<Longrightarrow> steps R (outgoingFlags cfg flt ops pu fil caps)"
  unfolding outgoingFlags_def by (intro steps_rules calls)

lemma c_sendDone: "steps R (sendDoneOpsBatch cfg t fid)"
  and c_sendBatch: "steps R (sendBatch cfg t fid ops auth l)"
  and c_sendError: "steps R (sendError cfg t code msg f s)"
  and c_sendStatus: "steps R (sendStatus cfg t cw pl)"
  unfolding sendDoneOpsBatch_def sendBatch_def sendError_def sendStatus_def by (rule call_send)+

lemma c_visibleOps: "steps R (visibleOps cfg fil caps ops)"
  unfolding visibleOps_def by (intro steps_rules c_outgoingFlags) simp_all

lemma c_sendOpsBatches: "steps R (sendOpsBatches cfg t fid refs mx fil)"
proof -
  have "steps R (sendChunks cfg t fid f caps cs)" for f caps cs
    by (induction cs) (auto intro!: steps_rules calls c_visibleOps c_sendDone c_sendBatch c_signFor)
  then show ?thesis unfolding sendOpsBatches_def by (intro steps_rules c_sendDone)
qed

lemma c_bothM: "steps R m \<Longrightarrow> steps R n \<Longrightarrow> steps R (bothM m n)"
  unfolding bothM_def by (intro steps_rules)

lemma c_newWaiter: "steps R (newWaiter t)"
  using R_newWaiter by (auto simp: steps_def newWaiter_def bnd_eval sq_eval)

lemma c_refreshHelloCapabilities: "steps R (refreshHelloCapabilities cfg t force wait)"
  unfolding refreshHelloCapabilities_def Let_def
  by (intro steps_rules calls c_bothM c_newWaiter neutral steps_modify R_dropWaiter) (simp_all add: core_def)

lemma c_refreshHello: "steps R (refreshHello cfg t)"
  unfolding refreshHello_def by (intro steps_rules c_refreshHelloCapabilities)

lemma c_notifyLocalUpdate: "steps R (notifyLocalUpdate cfg ops)"
  unfolding notifyLocalUpdate_def recordPendingPush_def
  by (auto split: option.splits list.splits intro!: steps_rules neutral simp: core_def)

lemma c_markSent: "steps R (markSent sid refs)"
  unfolding markSent_def
  by (rule steps_modify) (auto split: option.splits intro: R_refl R_subMark)

lemma c_pushVisible: "steps R (pushVisible cfg sub caps refs ops l)"
  unfolding pushVisible_def pushBatch_def
  by (intro steps_rules c_outgoingFlags c_signFor c_sendBatch c_markSent) (auto split: if_splits)

lemma c_pushSubscription: "steps R (pushSubscription cfg sub deltaOps full)"
proof -
  have "steps R (pushChunks cfg sub cs)" for cs
    by (induction cs) (auto intro!: steps_rules calls c_pushVisible)
  moreover have "steps R (pushDeltaChunks cfg sub caps cs)" for caps cs
    by (induction cs) (auto intro!: steps_rules c_pushVisible)
  ultimately show ?thesis unfolding pushSubscription_def pushSubscriptionDeltaAll_def Let_def
    by (intro steps_rules calls c_refreshHello steps_modify R_subDelete)
qed

lemma c_runPushLoop: "steps R (runPushLoop cfg)"
proof -
  have "steps R (pushOneSubscription cfg ds full sub)" for ds full sub
    unfolding pushOneSubscription_def by (intro steps_rules c_pushSubscription steps_modify R_subDelete)
  then have "steps R (pushRound cfg)" unfolding pushRound_def
    by (intro steps_rules neutral) (simp add: core_def)
  then have "steps R (pushRounds n cfg)" for n by (induction n) (auto intro!: steps_rules)
  then show ?thesis unfolding runPushLoop_def by (intro steps_finallyM R_neutral) (simp_all add: core_def)
qed

lemma c_authorize: "steps R (authorizeHelloFilter cfg fil pu caps)"
  unfolding authorizeHelloFilter_def by (intro steps_rules calls)

lemma c_helloVisibleRefs: "steps R (helloVisibleRefs cfg fil caps refs)"
  unfolding helloVisibleRefs_def by (intro steps_rules calls c_outgoingFlags) (auto split: if_splits)

lemma c_acceptFilter: "steps R (acceptFilter cfg hello i fil refs acc)"
  unfolding acceptFilter_def Let_def
  by (intro steps_rules steps_modify R_sesNew R_neutral) (simp_all add: core_def)

lemma c_helloFilter: "steps R (helloFilter cfg hello ispec acc)"
  unfolding helloFilter_def Let_def
  by (intro steps_rules c_authorize calls c_helloVisibleRefs c_acceptFilter)

lemma c_recordHelloCaps: "steps R (recordHelloCaps t caps)"
  unfolding recordHelloCaps_def by (rule neutral) (simp add: core_def)

lemma c_onHello: "steps R (onHello cfg t hello)"
  unfolding onHello_def answerHello_def
  by (intro steps_rules c_recordHelloCaps calls c_sendError c_helloFilter c_sendOpsBatches)

lemma R_withSession: "(\<And>s. done_settled s \<Longrightarrow> done_settled (f s)) \<Longrightarrow> R p (withSession i f p)"
  unfolding withSession_def by (auto split: option.splits intro: R_refl R_upd)

lemma R_fold: "(\<And>x p. R p (g x p)) \<Longrightarrow> R p (fold g xs p)"
  by (induction xs arbitrary: p) (auto intro: R_refl R_trans)

lemma c_onHelloAck: "steps R (onHelloAck cfg t ack)"
  unfolding onHelloAck_def
  by (intro steps_rules c_recordHelloCaps calls steps_modify R_resolveWaiters R_fold R_withSession)
    (simp_all add: done_settled_def)

lemma c_deleteSession: "steps R (deleteSession fid)"
  unfolding deleteSession_def by (rule steps_modify) (rule R_sesDelete)

lemma addCodewords_bound:
  "addCodewords dec mx cs d i = (e, d', i') \<Longrightarrow> i \<le> i' \<and> i' \<le> max i mx"
  by (induction dec mx cs d i rule: addCodewords.induct) (fastforce split: if_splits sum.splits)+

lemma decodeStep_bound: "decodeStep dec mx cs d i = (e, d', i') \<Longrightarrow> i' \<le> max i mx"
  by (auto simp: decodeStep_def split: prod.splits option.splits sum.splits dest: addCodewords_bound)

text \<open>A step that first stores a new version of a session it has just read.\<close>

lemma R_put_then:
  assumes "js_get (responderSessions p) fid = Some s0" "rs_expectedIndex s \<le> max (rs_expectedIndex s0) (maxCodewords cfg)"
    and "sq (putSession fid s) m p = (r, p')"
    and "\<And>q. js_get (responderSessions q) fid = Some s \<Longrightarrow> m q = (r, p') \<Longrightarrow> R q p'"
  shows "R p p'"
proof -
  let ?q = "p\<lparr>responderSessions := js_set fid s (responderSessions p)\<rparr>"
  have "R p ?q" using assms(1,2) by (rule R_sesPut)
  moreover have "R ?q p'" using assms(3,4) by (auto simp: putSession_def sq_eval)
  ultimately show ?thesis by (rule R_trans)
qed

lemma c_answerDecoded:
  assumes "js_get (responderSessions p) (rc_filterId msg) = Some s" "answerDecoded cfg t msg s p = (r, p')"
  shows "R p p'"
proof -
  have rest: "steps R (sq (sendStatus cfg t msg pl)
      (if sm \<noteq> [] then sq (sendOpsBatches cfg t fid sm None None) (whenM (\<not> aw) (deleteSession fid))
       else whenM (\<not> aw) (sq (sendDoneOpsBatch cfg t fid) (deleteSession fid))))" for pl sm aw fid
    by (intro steps_rules c_sendStatus c_deleteSession c_sendOpsBatches c_sendDone)
  show ?thesis using assms(2) unfolding answerDecoded_def Let_def
    by (rule R_put_then [OF assms(1), rotated]) (erule stepsD [OF rest], simp)
qed

lemma c_answerCodewords:
  assumes "js_get (responderSessions p) (rc_filterId msg) = Some s" "answerCodewords cfg t msg s err p = (r, p')"
  shows "R p p'"
proof -
  have sd: "steps R (sq (sendStatus cfg t msg pl) (deleteSession fid))" for pl fid
    by (intro steps_rules c_sendStatus c_deleteSession)
  show ?thesis using assms(2) unfolding answerCodewords_def Let_def
    by (auto split: option.splits if_splits
        dest: stepsD [OF sd] stepsD [OF c_sendStatus] c_answerDecoded [OF assms(1)])
qed

lemma c_onRibltCodewords: "steps R (onRibltCodewords cfg t msg)"
proof (rule stepsI)
  fix p :: "('op, 'w, 'd) Peer" and r p'
  assume run: "onRibltCodewords cfg t msg p = (r, p')"
  show "R p p'"
  proof (cases "js_get (responderSessions p) (rc_filterId msg)")
    case None
    with run show ?thesis by (simp add: onRibltCodewords_def bnd_eval R_refl)
  next
    case (Some s)
    obtain err d idx where dec: "decodeStep (cfg_decoder cfg) (maxCodewords cfg) (rc_codewords msg)
        (rs_decoder s) (rs_expectedIndex s) = (err, d, idx)" by (metis prod_cases3)
    let ?s = "s\<lparr>rs_decoder := d, rs_expectedIndex := idx\<rparr>"
    have "steps R (sq (sendStatus cfg t msg (StatusFailed OUT_OF_ORDER None)) (deleteSession (rc_filterId msg)))"
      by (intro steps_rules c_sendStatus c_deleteSession)
    moreover have "R p p'" if "sq (putSession (rc_filterId msg) ?s) (answerCodewords cfg t msg ?s err) p = (r, p')"
      using Some _ that by (rule R_put_then) (use decodeStep_bound [OF dec] c_answerCodewords in auto)
    ultimately show ?thesis using run Some dec
      by (auto simp: onRibltCodewords_def bnd_eval Let_def R_refl dest: stepsD split: if_splits)
  qed
qed

lemma c_onRibltStatus: "steps R (onRibltStatus status)"
  unfolding onRibltStatus_def bumpSignal_def
  by (intro steps_rules steps_modify R_upd) (auto simp: done_settled_def split: RibltStatusPayload.splits)

lemma c_registerSubscription: "steps R (registerSubscription t msg refs)"
  unfolding registerSubscription_def by (intro steps_modify R_subSet) simp

lemma c_onSubscribe: "steps R (onSubscribe cfg t msg)"
  unfolding onSubscribe_def
  by (intro steps_rules c_sendError c_authorize c_bothM calls c_registerSubscription c_notifyLocalUpdate)

lemma R_updSubscription: "R p (updSubscription k f p)"
  by (rule R_neutral) (simp add: updSubscription_def core_def split: option.splits)

lemma c_onSubscribeAck: "steps R (onSubscribeAck ack)"
  unfolding onSubscribeAck_def by (rule steps_modify) (simp add: R_updSubscription R_refl)

lemma c_onUnsubscribe: "steps R (onUnsubscribe sid)"
  unfolding onUnsubscribe_def by (intro steps_modify R_subDelete)

lemma done_settled_fail: "done_settled (failSession e s)"
  by (simp add: done_settled_def failSession_def)

lemma R_failAllSessions: "R p (failAllSessions e p)"
proof -
  have "R p (fold (\<lambda>i. updInitiator i (failSession e)) (initiatorSessions p) p)"
    by (intro R_fold R_upd) (rule done_settled_fail)
  then show ?thesis unfolding failAllSessions_def by (rule R_trans) (intro R_drop, simp)
qed

lemma R_failAllPendingSessions: "R p (failAllPendingSessions e p)"
proof -
  have "R p (fold (\<lambda>k. updSubscription k (failSubscription e)) (initiatorSubscriptions p) p)"
    by (intro R_fold R_updSubscription)
  moreover have "R q (q\<lparr>initiatorSubscriptions := []\<rparr>)" for q by (rule R_neutral) (simp add: core_def)
  ultimately show ?thesis unfolding failAllPendingSessions_def using R_failAllSessions R_trans by blast
qed

lemma c_onError: "steps R (onError err)"
proof -
  have 1: "R p ((updSubscription k f p)\<lparr>initiatorSubscriptions := ks\<rparr>)" for p k f ks
    by (rule R_trans [OF R_updSubscription]) (rule R_neutral, simp add: core_def)
  have 2: "R p ((updInitiator k (failSession e) p)\<lparr>initiatorSessions := ks\<rparr>)"
    if "set ks \<subseteq> set (initiatorSessions p)" for p k e ks
    using that by (intro R_trans [OF R_upd [OF done_settled_fail] R_drop]) simp
  show ?thesis unfolding onError_def
    by (intro steps_sq steps_modify)
      (auto intro!: R_refl 1 2 R_failAllSessions split: option.splits)
qed

lemma classify_good:
  "classifyOps ops auth ds = Inr (pend, allow) \<Longrightarrow> list_all2 (\<lambda>x d. d = DAllow \<longrightarrow> good x) ops ds \<Longrightarrow>
    \<forall>x \<in> set allow. good x"
  by (induction ops auth ds arbitrary: pend allow rule: classifyOps.induct)
    (auto simp: bindR_eq_Inr split: option.splits prod.splits)

lemma verifyBatch_good:
  assumes "verifyBatch cfg batch ctx p = (Inr ds, p')" "J (world p)" "oc_docId ctx = docId_of cfg"
    and "classifyOps (ob_ops batch) auth (or_default ds []) = Inr (pend, allow)"
  shows "\<forall>x \<in> set allow. good x"
  using verified
proof
  assume "verifier_sound J good cfg"
  note sound = this
  from sound obtain verify where v: "authHook sa_verifyOps cfg = Some verify" unfolding verifier_sound_def by blast
  note vs = verifier_soundD [OF sound v assms(2,3)]
  obtain w where w: "verify (ob_ops batch) (ob_auth batch) ctx (world p) = (Inr ds, w)"
    using assms(1) v
    by (auto simp: verifyBatch_def liftW_eval elim!: bnd_okE split: prod.splits if_splits)
  show ?thesis
  proof (cases ds)
    case None
    then have "allow = ob_ops batch" using assms(4) by (cases "ob_ops batch") (auto simp: or_default_def)
    then show ?thesis using vs(1) w None by auto
  next
    case (Some xs)
    then show ?thesis using classify_good [OF _ vs(2)] assms(4) w by (auto simp: or_default_def)
  qed
qed simp

lemma c_reprocessOne:
  assumes "authHook sa_verifyOps cfg = Some verify" "sb_deletePendingOps (cfg_backend cfg) = Some del"
  shows "steps R (reprocessOne verify del cfg x acc)"
proof (cases acc)
  case (Pair progress applied)
  let ?c = "\<lparr>oc_docId = docId_of cfg, oc_purpose = PReprocessPending, oc_filterId = ''__pending__''\<rparr>"
  show ?thesis unfolding reprocessOne_def Pair prod.case
  proof (rule steps_bnd_world)
    show "steps R (tryM (liftW (verify [po_op x] (Some [po_auth x]) ?c)))"
      using assms by (intro steps_tryM calls)
    fix res and p p' :: "('op, 'w, 'd) Peer"
    assume J: "J (world p)"
    assume "tryM (liftW (verify [po_op x] (Some [po_auth x]) ?c)) p = (Inr res, p')"
    then obtain w where w: "verify [po_op x] (Some [po_auth x]) ?c (world p) = (res, w)"
      by (auto simp: tryM_eval liftW_eval split: prod.splits)
    have apply_ok: "steps R (sq (liftW (sb_applyOps (cfg_backend cfg) [po_op x]))
         (sq (liftW (del [po_op x])) (ret (True, applied @ [po_op x]))))" if "good (po_op x)"
      using that assms by (intro steps_rules call_apply calls) simp_all
    have del_ok: "steps R (sq (liftW (del [po_op x])) (ret (True, applied)))"
      using assms by (intro steps_rules calls)
    have good: "good (po_op x)" if "res = Inr None \<or> res = Inr (Some []) \<or> (\<exists>ds. res = Inr (Some (DAllow # ds)))"
    proof (cases "\<forall>x. good x")
      case False
      then have "verifier_sound J good cfg" using verified by blast
      note vs = verifier_soundD [OF this assms(1) J, of ?c "[po_op x]" "Some [po_auth x]"]
      show ?thesis using that w vs by fastforce
    qed simp
    from apply_ok del_ok good steps_ret show "steps R (case res of
       Inl _ \<Rightarrow> sq (liftW (del [po_op x])) (ret (True, applied))
     | Inr (Some (DPendingContext _ # _)) \<Rightarrow> ret (progress, applied)
     | Inr _ \<Rightarrow> sq (liftW (sb_applyOps (cfg_backend cfg) [po_op x]))
         (sq (liftW (del [po_op x])) (ret (True, applied @ [po_op x]))))"
      by (auto split: sum.splits option.splits list.splits SyncAuthOpDisposition.splits)
  qed
qed

lemma c_reprocessPendingOps: "steps R (reprocessPendingOps cfg)"
proof -
  have "steps R (reprocessRounds n verify lst del cfg)"
    if "authHook sa_verifyOps cfg = Some verify" "sb_deletePendingOps (cfg_backend cfg) = Some del"
      "sb_listPendingOps (cfg_backend cfg) = Some lst" for n verify lst del
    using that by (induction n) (auto intro!: steps_rules calls c_reprocessOne c_notifyLocalUpdate)
  then show ?thesis unfolding reprocessPendingOps_def
    by (intro steps_rules neutral R_neutral) (simp_all add: core_def)
qed

lemma c_storePending: "steps R (storePending cfg pend)"
  unfolding storePending_def by (intro steps_rules calls)

lemma c_verifyBatch: "steps R (verifyBatch cfg batch ctx)"
  unfolding verifyBatch_def by (intro steps_rules calls)

lemma c_closeSession:
  assumes "js_get (responderSessions p) fid = Some s"
    and "whenM d (sq (whenM (rs_awaitingIncomingDone s)
            (sq (putSession fid (s\<lparr>rs_awaitingIncomingDone := False\<rparr>)) (sendDoneOpsBatch cfg t fid)))
          (deleteSession fid)) p = (r, p')"
  shows "R p p'"
proof (cases "d \<and> rs_awaitingIncomingDone s")
  case False
  then show ?thesis using assms(2) stepsD [OF c_deleteSession] by (cases d) (auto simp: sq_eval R_refl)
next
  case True
  have "sq (putSession fid (s\<lparr>rs_awaitingIncomingDone := False\<rparr>))
      (sq (sendDoneOpsBatch cfg t fid) (deleteSession fid)) p = (r, p')"
    using assms(2) True by (auto simp: sq_eval split: prod.splits sum.splits)
  moreover have "steps R (sq (sendDoneOpsBatch cfg t fid) (deleteSession fid))"
    by (intro steps_rules c_sendDone c_deleteSession)
  ultimately show ?thesis using assms(1) by (elim R_put_then [rotated 2]) (auto dest: stepsD)
qed

lemma c_finishBatch: "steps R (finishBatch cfg t batch)"
proof (rule stepsI)
  fix p :: "('op, 'w, 'd) Peer" and r p'
  assume run: "finishBatch cfg t batch p = (r, p')"
  let ?fid = "ob_filterId batch"
  let ?last = "resolveReceived batch :: (('op, 'w, 'd) Peer, unit) pm"
  have last: "steps R ?last" unfolding resolveReceived_def
    by (intro steps_rules steps_modify R_upd) (simp add: done_settled_def)
  show "R p p'"
  proof (cases "js_get (responderSessions p) ?fid")
    case None
    let ?ack = "\<lambda>b. whenM b (sq (modify (\<lambda>p. p\<lparr>responderAwaitingUploadAcks := responderAwaitingUploadAcks p - {?fid}\<rparr>))
           (sendDoneOpsBatch cfg t ?fid))"
    have up: "steps R (sq (?ack b) ?last)" for b
      by (rule steps_sq [OF _ last]) (intro steps_whenM steps_sq neutral c_sendDone, simp add: core_def)
    have "sq (?ack (?fid \<in> responderAwaitingUploadAcks p \<and> ob_done batch)) ?last p = (r, p')"
      using run None by (simp add: finishBatch_def Let_def bnd_eval [of "gets _" _ p] sq_ret)
    then show ?thesis by (rule stepsD [OF up])
  next
    case (Some s)
    let ?close = "whenM (ob_done batch) (sq (whenM (rs_awaitingIncomingDone s)
            (sq (putSession ?fid (s\<lparr>rs_awaitingIncomingDone := False\<rparr>)) (sendDoneOpsBatch cfg t ?fid)))
          (deleteSession ?fid))"
    have "sq ?close ?last p = (r, p')"
      using run Some by (simp add: finishBatch_def Let_def bnd_eval [of "gets _" _ p] sq_ret)
    then show ?thesis
      by (cases rule: sq_E) (auto intro: c_closeSession [OF Some] R_trans stepsD [OF last])
  qed
qed

lemma c_onOpsBatch: "steps R (onOpsBatch cfg t batch)"
  unfolding onOpsBatch_def
proof (rule steps_bnd_value [OF steps_gets], rule steps_if [OF steps_throw])
  fix ctx and q q' :: "('op, 'w, 'd) Peer"
  assume "gets (\<lambda>p. \<lparr>oc_docId = docId_of cfg,
         oc_purpose = (if ob_filterId batch \<in> set (initiatorSubscriptions p) then PSubscribe else PReconcile),
         oc_filterId = ob_filterId batch\<rparr>) q = (Inr ctx, q')"
  then have doc: "oc_docId ctx = docId_of cfg" by auto
  have tail: "steps R (bnd (liftR (classifyOps (ob_ops batch) (ob_auth batch) (or_default ds []))) (\<lambda>(pend, allowedOps).
       sq (storePending cfg pend)
       (sq (liftW (sb_applyOps (cfg_backend cfg) allowedOps))
       (sq (whenM (allowedOps \<noteq> []) (notifyLocalUpdate cfg (Some allowedOps)))
       (sq (reprocessPendingOps cfg)
       (finishBatch cfg t batch))))))"
    if "verifyBatch cfg batch ctx p = (Inr ds, p')" "J (world p)" for ds p p'
    by (rule steps_bnd_value, rule steps_liftR, rule steps_case_prod,
        intro steps_rules c_storePending call_apply c_notifyLocalUpdate c_reprocessPendingOps c_finishBatch)
      (use verifyBatch_good [OF that doc] in auto)
  show "steps R (bnd (verifyBatch cfg batch ctx) (\<lambda>dispositions.
       sq (case (ob_auth batch, authHook sa_onVerifiedOps cfg) of
             (Some (a # as), Some onVerifiedOps) \<Rightarrow> liftW (onVerifiedOps (ob_ops batch) (a # as) ctx)
           | _ \<Rightarrow> ret ())
       (bnd (liftR (classifyOps (ob_ops batch) (ob_auth batch) (or_default dispositions []))) (\<lambda>(pend, allowedOps).
       sq (storePending cfg pend)
       (sq (liftW (sb_applyOps (cfg_backend cfg) allowedOps))
       (sq (whenM (allowedOps \<noteq> []) (notifyLocalUpdate cfg (Some allowedOps)))
       (sq (reprocessPendingOps cfg)
       (finishBatch cfg t batch))))))))"
    by (rule steps_bnd_world, rule c_verifyBatch, rule steps_sq, rule steps_case_prod)
      (auto split: option.splits list.splits intro!: steps_ret calls tail)
qed

lemma c_dispatch: "steps R (dispatch cfg t pl)"
  by (cases pl) (simp_all add: enqueueOpsBatch_def c_onHello c_onHelloAck c_onRibltCodewords c_onRibltStatus
      c_onOpsBatch c_onSubscribe c_onSubscribeAck c_onUnsubscribe c_onError)

lemma c_reportFailure: "steps R (reportFailure cfg t pl e)"
  unfolding reportFailure_def by (intro steps_rules c_onError c_sendError)

lemma c_handleMessage: "steps R (handleMessage cfg t msg)"
proof -
  have "steps R (catch (onError err) (\<lambda>_. ret ()))" for err by (intro steps_rules c_onError)
  moreover have "steps R (catch (dispatch cfg t pl) (reportFailure cfg t pl))" for pl
    by (intro steps_rules c_dispatch c_reportFailure)
  ultimately show ?thesis unfolding handleMessage_def
    by (cases "sm_payload msg") (simp_all only: SyncMessagePayload.case steps_ret HOL.simp_thms split: if_split)
qed

theorem event_respects: "steps R (peerEvent cfg ev)"
proof (cases ev)
  case (EvMessage t msg)
  then show ?thesis unfolding peerEvent.simps attach_def
    by (auto intro!: steps_catch c_handleMessage steps_modify R_failAllPendingSessions simp: attach_def)
qed (simp_all add: c_notifyLocalUpdate c_runPushLoop)

end

section \<open>Only verified ops are applied\<close>

definition keepsW :: "('w \<Rightarrow> bool) \<Rightarrow> ('w, 'a) pm \<Rightarrow> bool" where
  "keepsW I m \<longleftrightarrow> (\<forall>w r w'. I w \<longrightarrow> m w = (r, w') \<longrightarrow> I w')"

definition opt_all :: "('a \<Rightarrow> bool) \<Rightarrow> 'a option \<Rightarrow> bool" where
  "opt_all P x \<longleftrightarrow> (\<forall>y. x = Some y \<longrightarrow> P y)"

text \<open>
  \<open>I\<close> is a property of the outside world that no call breaks but, possibly, \<^verbatim>\<open>applyOps\<close> of an
  op that is not \<open>good\<close>.
\<close>

definition calls_keep :: "('w \<Rightarrow> bool) \<Rightarrow> ('op \<Rightarrow> bool) \<Rightarrow> ('op, 'w, 'd, 'e) PeerConfig \<Rightarrow> bool" where
  "calls_keep I good cfg \<longleftrightarrow>
     (\<forall>t m. keepsW I (cfg_send cfg t m)) \<and> (\<forall>x. keepsW I (cfg_randomId cfg x))
   \<and> keepsW I (sb_maxLamport (cfg_backend cfg)) \<and> (\<forall>f. keepsW I (sb_listOpRefs (cfg_backend cfg) f))
   \<and> (\<forall>rs. keepsW I (sb_getOpsByOpRefs (cfg_backend cfg) rs))
   \<and> (\<forall>ops. (\<forall>x \<in> set ops. good x) \<longrightarrow> keepsW I (sb_applyOps (cfg_backend cfg) ops))
   \<and> opt_all (\<lambda>h. \<forall>ps. keepsW I (h ps)) (sb_storePendingOps (cfg_backend cfg))
   \<and> opt_all (keepsW I) (sb_listPendingOps (cfg_backend cfg))
   \<and> opt_all (\<lambda>h. \<forall>ops. keepsW I (h ops)) (sb_deletePendingOps (cfg_backend cfg))
   \<and> opt_all (\<lambda>h. \<forall>x. keepsW I (h x)) (authHook sa_helloCapabilities cfg)
   \<and> opt_all (\<lambda>h. \<forall>x y. keepsW I (h x y)) (authHook sa_onHello cfg)
   \<and> opt_all (\<lambda>h. \<forall>x y. keepsW I (h x y)) (authHook sa_onHelloAck cfg)
   \<and> opt_all (\<lambda>h. \<forall>x y. keepsW I (h x y)) (authHook sa_authorizeFilter cfg)
   \<and> opt_all (\<lambda>h. \<forall>x y. keepsW I (h x y)) (authHook sa_filterOutgoingOps cfg)
   \<and> opt_all (\<lambda>h. \<forall>x y. keepsW I (h x y)) (authHook sa_signOps cfg)
   \<and> opt_all (\<lambda>h. \<forall>x y z. keepsW I (h x y z)) (authHook sa_verifyOps cfg)
   \<and> opt_all (\<lambda>h. \<forall>x y z. keepsW I (h x y z)) (authHook sa_onVerifiedOps cfg)"

abbreviation worldly :: "('w \<Rightarrow> bool) \<Rightarrow> ('op, 'w, 'd) Peer \<Rightarrow> ('op, 'w, 'd) Peer \<Rightarrow> bool" where
  "worldly I \<equiv> preserves (\<lambda>p. I (world p))"

lemma w_liftW: "keepsW I m \<Longrightarrow> steps (worldly I) (liftW m)"
  by (auto simp: steps_def preserves_def keepsW_def liftW_eval split: prod.splits)

lemma w_send: "calls_keep I good cfg \<Longrightarrow> steps (worldly I) (send cfg t pl)"
  unfolding send_def by (intro pr.steps_sq w_liftW pr.steps_modify) (simp_all add: calls_keep_def preserves_def)

lemma worldly_closed:
  assumes "calls_keep I good cfg" "(\<forall>x. good x) \<or> verifier_sound I good cfg"
  shows "peer_closed (worldly I) cfg I good"
proof (unfold_locales, goal_cases)
  case 1 show ?case using w_send [OF assms(1)] .
next
  case 18 show ?case using assms(2) .
next
  case (19 p' p) then show ?case by (simp add: core_def preserves_def)
next
  case 30 show ?case by (simp add: preserves_def resolveWaiters_def)
qed (use assms in \<open>auto intro!: w_liftW simp: calls_keep_def opt_all_def preserves_def dropWaiter_def\<close>)

section \<open>The invariant of the session tables\<close>

text \<open>
  No responder session has consumed more codewords than the limit; subscriptions are stored
  under their own id; every live initiator session has an object; a session that is marked done
  has a settled terminal status, so that waiting for it ends; every waiter of a hello
  acknowledgement exists.
\<close>

definition peer_ok :: "('op, 'w, 'd, 'e) PeerConfig \<Rightarrow> ('op, 'w, 'd) Peer \<Rightarrow> bool" where
  "peer_ok cfg p \<longleftrightarrow>
     (\<forall>k s. js_get (responderSessions p) k = Some s \<longrightarrow> rs_expectedIndex s \<le> maxCodewords cfg)
   \<and> (\<forall>k s. js_get (responderSubscriptions p) k = Some s \<longrightarrow> rsub_id s = k)
   \<and> (\<forall>k \<in> set (initiatorSessions p). js_get (initiatorObjects p) k \<noteq> None)
   \<and> (\<forall>k s. js_get (initiatorObjects p) k = Some s \<longrightarrow> done_settled s)
   \<and> (\<forall>t. \<forall>i \<in> set (transportHelloAckWaiters p t). i < length (waiterStates p))"

lemma peer_ok_core: "core p' = core p \<Longrightarrow> peer_ok cfg p' = peer_ok cfg p"
  by (simp add: core_def peer_ok_def)

lemma peer_ok_world: "peer_ok cfg (p\<lparr>world := w\<rparr>) = peer_ok cfg p"
  and peer_ok_sent: "peer_ok cfg (p\<lparr>sent := ms\<rparr>) = peer_ok cfg p"
  by (simp_all add: peer_ok_def)

lemma ok_liftW: "steps (preserves (peer_ok cfg)) (liftW m)"
  by (auto simp: steps_def preserves_def liftW_eval peer_ok_world split: prod.splits)

lemma ok_send: "steps (preserves (peer_ok cfg)) (send cfg' t pl)"
  unfolding send_def by (intro pr.steps_sq ok_liftW pr.steps_modify) (simp add: preserves_def peer_ok_sent)

lemma length_resolved: "length (fold (\<lambda>i ws. ws[i := resolveD () (ws ! i)]) is ws) = length ws"
  by (induction "is" arbitrary: ws) simp_all

lemma ok_newWaiter: "peer_ok cfg p \<Longrightarrow> peer_ok cfg (p\<lparr>waiterStates := waiterStates p @ [Pending],
    transportHelloAckWaiters := (transportHelloAckWaiters p)(t := transportHelloAckWaiters p t @ [length (waiterStates p)])\<rparr>)"
  by (simp add: peer_ok_def less_SucI)

lemma ok_dropWaiter: "peer_ok cfg p \<Longrightarrow> peer_ok cfg (dropWaiter t e k p)"
  by (auto simp: peer_ok_def dropWaiter_def)

lemma ok_resolveWaiters: "peer_ok cfg p \<Longrightarrow> peer_ok cfg (resolveWaiters t p)"
  by (simp add: peer_ok_def resolveWaiters_def length_resolved)

lemma ok_updInitiator:
  "peer_ok cfg p \<Longrightarrow> (\<And>s. done_settled s \<Longrightarrow> done_settled (f s)) \<Longrightarrow> peer_ok cfg (updInitiator i f p)"
  by (cases "js_get (initiatorObjects p) i") (simp_all add: peer_ok_def updInitiator_def)

lemma ok_sesPut:
  "peer_ok cfg p \<Longrightarrow> js_get (responderSessions p) fid = Some s0 \<Longrightarrow>
    rs_expectedIndex s \<le> max (rs_expectedIndex s0) (maxCodewords cfg) \<Longrightarrow>
    peer_ok cfg (p\<lparr>responderSessions := js_set fid s (responderSessions p)\<rparr>)"
proof -
  assume ok: "peer_ok cfg p" and s: "js_get (responderSessions p) fid = Some s0"
    "rs_expectedIndex s \<le> max (rs_expectedIndex s0) (maxCodewords cfg)"
  then have "rs_expectedIndex s0 \<le> maxCodewords cfg" unfolding peer_ok_def by blast
  with s(2) have "rs_expectedIndex s \<le> maxCodewords cfg" by simp
  with ok show ?thesis by (simp add: peer_ok_def)
qed

interpretation po: peer_closed "preserves (peer_ok cfg)" cfg "\<lambda>_. True" "\<lambda>_. True" for cfg :: "('op, 'a, 'b, 'c) PeerConfig"
proof (unfold_locales, goal_cases)
  case 1 show ?case by (rule ok_send)
next
  case (19 p' p) then show ?case using peer_ok_core [of p' p cfg] by (auto simp only: preserves_def)
next
  case (22 p sid sub X) then show ?case by (simp add: preserves_def peer_ok_def)
next
  case (25 p fid s0 s) then show ?case by (auto intro: preservesI ok_sesPut)
next
  case (26 f p i) then show ?case by (auto intro: preservesI ok_updInitiator)
next
  case (27 ks p) then show ?case by (auto simp: preserves_def peer_ok_def)
next
  case (28 p t) show ?case by (intro preservesI ok_newWaiter)
next
  case (29 p t e k) show ?case by (intro preservesI ok_dropWaiter)
next
  case (30 p t) show ?case by (intro preservesI ok_resolveWaiters)
qed (simp_all add: ok_liftW preserves_def peer_ok_def)

text \<open>A concrete verifier that allows even op numbers and knows nothing about the others.\<close>

definition even_auth :: "(nat, nat list) SyncAuth" where
  "even_auth = \<lparr>sa_helloCapabilities = None, sa_onHello = None, sa_onHelloAck = None, sa_authorizeFilter = None,
     sa_filterOutgoingOps = None, sa_signOps = None,
     sa_verifyOps = Some (\<lambda>ops _ _. ret (Some (map (\<lambda>n. if even n then DAllow else DPendingContext None) ops))),
     sa_onVerifiedOps = None\<rparr>"

definition demo_batch :: "nat list \<Rightarrow> nat SyncMessage" where
  "demo_batch ops = \<lparr>sm_v = 0, sm_docId = ''doc'', sm_payload = MOpsBatch \<lparr>ob_filterId = ''f'', ob_ops = ops,
     ob_auth = Some (map (\<lambda>_. \<lparr>oa_sig = [], oa_proofRef = None\<rparr>) ops), ob_done = True\<rparr>\<rparr>"

section \<open>Properties\<close>

text \<open>
  C1: ops that the verifier did not allow never reach the backend.  For every property of the
  outside world that only applying a bad op could break, and every verifier that allows only good
  ops, no run of messages (well-formed or hostile), local updates and push rounds breaks it.
\<close>
theorem only_verified_ops_applied:
  assumes "verifier_sound I good cfg" and "calls_keep I good cfg" and "I w"
  shows "I (world (runEvents cfg evs (initPeer w)))"
proof -
  note peer_closed.event_respects [OF worldly_closed [OF assms(2) disjI2 [OF assms(1)]]]
  then show ?thesis by (rule runEvents_preserves [where Q = "\<lambda>p. I (world p)"]) (simp add: initPeer_def assms(3))
qed

theorem only_verified_ops_applied_witness:
  "verifier_sound (list_all even) even (demo_cfg (Some even_auth) 2)
   \<and> calls_keep (list_all even) even (demo_cfg (Some even_auth) 2)
   \<and> list_all even (world (runEvents (demo_cfg (Some even_auth) 2)
        [EvMessage 0 (demo_batch [2, 4]), EvMessage 0 (demo_batch [6, 3])] (initPeer [])))
   \<and> world (runEvents (demo_cfg (Some even_auth) 2) [EvMessage 0 (demo_batch [2, 4])] (initPeer [])) = [2, 4]"
proof -
  have v: "verifier_sound (list_all even) even (demo_cfg (Some even_auth) 2)"
    by (auto simp: verifier_sound_def demo_cfg_def even_auth_def authHook_def list_all2_map2 list.rel_refl)
  have c: "calls_keep (list_all even) even (demo_cfg (Some even_auth) 2)"
    by (auto simp: calls_keep_def demo_cfg_def demo_backend_def even_auth_def authHook_def keepsW_def opt_all_def list_all_iff)
  have e: "world (runEvents (demo_cfg (Some even_auth) 2) [EvMessage 0 (demo_batch [2, 4])] (initPeer [])) = [2, 4]"
    by (simp add: attach_def handleMessage_def demo_batch_def demo_cfg_def docId_of_def demo_backend_def
        enqueueOpsBatch_def onOpsBatch_def bnd_eval sq_eval catch_eval verifyBatch_def authHook_def even_auth_def
        liftW_def or_default_def storePending_def notifyLocalUpdate_def initPeer_def reprocessPendingOps_def
        finishBatch_def resolveReceived_def getInitiatorSession_def Let_def)
  have "list_all even (world (runEvents (demo_cfg (Some even_auth) 2)
        [EvMessage 0 (demo_batch [2, 4]), EvMessage 0 (demo_batch [6, 3])] (initPeer [])))"
    by (rule only_verified_ops_applied [OF v c]) simp
  with v c e show ?thesis by blast
qed


end
