(* ===== verification/Cose_Auth_Safety.thy ===== *)
theory Cose_Auth_Safety
  imports Cose_Auth Peer_Safety
begin

text \<open>
  Safety of the auth hooks: the invariant of their state (only grants of verified tokens, under
  their own ids), what an accepted op implies, what a peer gets to read, and that ops signed by
  one side are accepted by the other.
\<close>

section \<open>The invariant of the auth state\<close>

text \<open>A grant some token gave, signed by a trusted issuer or delegated from one.\<close>

definition trusted_grant :: "'w CoseOptions \<Rightarrow> CapabilityGrant \<Rightarrow> bool" where
  "trusted_grant opts g \<longleftrightarrow> (\<exists>token vo n root. vt_issuerPublicKeys vo = co_issuerPublicKeys opts
     \<and> n \<le> MAX_DELEGATION_PROOF_CHAIN \<and> delegation_chain (co_crypto opts) vo token g n root)"

definition grants_ok :: "'w CoseOptions \<Rightarrow> 'w AuthState \<Rightarrow> bool" where
  "grants_ok opts s \<longleftrightarrow> (\<forall>keyHex byToken tokenHex g.
     js_get (au_grants s) keyHex = Some byToken \<longrightarrow> (tokenHex, g) \<in> set byToken \<longrightarrow>
       keyHex = bytesToHex (cg_keyId g) \<and> tokenHex = bytesToHex (cg_tokenId g) \<and> trusted_grant opts g)"

definition auth_inv :: "'w CoseOptions \<Rightarrow> ('w \<Rightarrow> bool) \<Rightarrow> 'w AuthState \<Rightarrow> bool" where
  "auth_inv opts P s \<longleftrightarrow> grants_ok opts s \<and> P (au_world s)"

text \<open>No call to a store or a callback of the options breaks \<open>P\<close>.\<close>

definition outside_keeps :: "('w \<Rightarrow> bool) \<Rightarrow> 'w CoseOptions \<Rightarrow> bool" where
  "outside_keeps P opts \<longleftrightarrow>
     opt_all (\<lambda>st. opt_all (keepsW P) (cst_init st) \<and> (\<forall>cs. keepsW P (cst_storeCapabilities st cs))
       \<and> keepsW P (cst_listCapabilities st)) (co_capabilityStore opts)
   \<and> opt_all (\<lambda>st. opt_all (keepsW P) (ost_init st) \<and> (\<forall>es. keepsW P (ost_storeOpAuth st es))
       \<and> (\<forall>rs. keepsW P (ost_getOpAuthByOpRefs st rs))) (co_opAuthStore opts)
   \<and> opt_all (\<lambda>h. \<forall>x. keepsW P (h x)) (co_onPeerIdentityChain opts)
   \<and> opt_all (\<lambda>h. \<forall>x. keepsW P (h x)) (co_onPeerRevocationRecord opts)"

lemma parse_trusted:
  assumes "parseAndVerifyCapabilityToken (co_crypto opts) (tokenOptions opts docId s) token = Inr g"
  shows "trusted_grant opts g"
proof -
  obtain n root where "n \<le> MAX_DELEGATION_PROOF_CHAIN"
    "delegation_chain (co_crypto opts) (tokenOptions opts docId s) token g n root"
    using assms parse_chain [of "co_crypto opts" "tokenOptions opts docId s" token 0 "[]" g]
    unfolding parseAndVerifyCapabilityToken_def by auto
  moreover have "vt_issuerPublicKeys (tokenOptions opts docId s) = co_issuerPublicKeys opts" by (simp add: tokenOptions_def)
  ultimately show ?thesis unfolding trusted_grant_def by blast
qed

abbreviation keeps_inv :: "'w CoseOptions \<Rightarrow> ('w \<Rightarrow> bool) \<Rightarrow> ('w AuthState, 'a) pm \<Rightarrow> bool" where
  "keeps_inv opts P m \<equiv> steps (preserves (auth_inv opts P)) m"

lemma inv_liftO: "keepsW P m \<Longrightarrow> keeps_inv opts P (liftO m)"
  by (auto simp: steps_def preserves_def auth_inv_def grants_ok_def liftO_def keepsW_def split: prod.splits)

lemma inv_neutral:
  "(\<And>s. au_grants (f s) = au_grants s \<and> au_world (f s) = au_world s) \<Longrightarrow> keeps_inv opts P (modify f)"
  by (auto simp: steps_def preserves_def auth_inv_def grants_ok_def)

lemma js_set_mem: "(k', v') \<in> set (js_set k v m) \<Longrightarrow> (k', v') = (k, v) \<or> (k', v') \<in> set m"
  by (induction k v m rule: js_set.induct) (auto split: if_splits)

lemma addGrant_ok: "grants_ok opts s \<Longrightarrow> trusted_grant opts g \<Longrightarrow> grants_ok opts (addGrant g s)"
  unfolding grants_ok_def addGrant_def Let_def
  by (auto dest!: js_set_mem split: option.splits if_splits) (metis bytesToHex_inj)

lemma inv_recordToken: "keeps_inv opts P (recordToken opts tb docId)"
proof (rule stepsI, rule preservesI)
  fix s r s'
  assume "recordToken opts tb docId s = (r, s')" "auth_inv opts P s"
  then show "auth_inv opts P s'"
    by (cases "parseAndVerifyCapabilityToken (co_crypto opts) (tokenOptions opts docId s) tb")
      (auto simp: recordToken_def bnd_eval auth_inv_def dest!: parse_trusted intro: addGrant_ok, simp add: addGrant_def Let_def)
qed

lemma inv_rememberReplay: "keeps_inv opts P (rememberReplayAuthCapability opts tb)"
  unfolding rememberReplayAuthCapability_def Let_def by (intro pr.steps_rules inv_neutral) simp

lemma inv_ensureCapabilityStoreReady:
  assumes "outside_keeps P opts"
  shows "keeps_inv opts P (ensureCapabilityStoreReady opts)"
  unfolding ensureCapabilityStoreReady_def using assms
  by (intro pr.steps_rules inv_neutral inv_liftO) (auto simp: outside_keeps_def opt_all_def bind_eq_Some_conv)

lemma inv_ensureOpAuthStoreReady:
  assumes "outside_keeps P opts"
  shows "keeps_inv opts P (ensureOpAuthStoreReady opts)"
  unfolding ensureOpAuthStoreReady_def using assms
  by (intro pr.steps_rules inv_neutral inv_liftO) (auto simp: outside_keeps_def opt_all_def bind_eq_Some_conv)

lemma inv_persistTrusted: "outside_keeps P opts \<Longrightarrow> keeps_inv opts P (persistTrustedCapability opts cap)"
  unfolding persistTrustedCapability_def
  by (intro pr.steps_rules inv_ensureCapabilityStoreReady inv_liftO) (auto simp: outside_keeps_def opt_all_def)

lemma inv_recordStored: "keeps_inv opts P (recordStored opts docId cap)"
  unfolding recordStored_def Let_def by (intro pr.steps_rules inv_recordToken inv_rememberReplay)

lemma inv_storeRecorded: "outside_keeps P opts \<Longrightarrow> keeps_inv opts P (ensureCapabilityStoreRecorded opts docId)"
  unfolding ensureCapabilityStoreRecorded_def
  by (intro pr.steps_rules inv_ensureCapabilityStoreReady inv_liftO inv_recordStored inv_neutral)
    (auto simp: outside_keeps_def opt_all_def)

lemma inv_localRevocations: "keeps_inv opts P (ensureLocalRevocationsRecorded opts docId)"
  unfolding ensureLocalRevocationsRecorded_def by (intro pr.steps_rules inv_neutral) simp_all

lemma inv_localTokens: "outside_keeps P opts \<Longrightarrow> keeps_inv opts P (ensureLocalTokensRecorded opts docId)"
  unfolding ensureLocalTokensRecorded_def
  by (intro pr.steps_rules inv_storeRecorded inv_localRevocations inv_recordToken inv_persistTrusted inv_neutral) simp_all

lemma inv_recordCapabilities: "outside_keeps P opts \<Longrightarrow> keeps_inv opts P (recordCapabilities opts caps docId)"
  unfolding recordCapabilities_def recordRevocationCap_def recordAuthCap_def recordIdentityCap_def Let_def
  by (intro pr.steps_rules inv_storeRecorded inv_localRevocations inv_recordToken inv_rememberReplay
      inv_persistTrusted inv_neutral inv_liftO) (auto simp: outside_keeps_def opt_all_def)

lemma inv_helloCaps: "outside_keeps P opts \<Longrightarrow> keeps_inv opts P (helloCaps opts docId)"
  unfolding helloCaps_def
  by (intro pr.steps_rules inv_storeRecorded inv_localRevocations inv_localTokens)

lemma inv_authorizeFilter: "keeps_inv opts P (authorizeFilter opts flt ctx)"
  unfolding authorizeFilter_def parsePeerCapabilityGrants_def Let_def by (intro pr.steps_rules)

lemma inv_filterOutgoingOps: "keeps_inv opts P (filterOutgoingOps opts ops ctx)"
  unfolding filterOutgoingOps_def parsePeerCapabilityGrants_def Let_def by (intro pr.steps_rules)

lemma inv_setOpAuth: "keeps_inv opts P (modify (setOpAuth opRef a))"
  by (rule inv_neutral) (simp add: setOpAuth_def)

lemma inv_fillMissing: "keeps_inv opts P (fillMissing slots listed)"
  by (induction slots listed rule: fillMissing.induct) (auto intro!: pr.steps_rules inv_setOpAuth)

lemma inv_signOps: "outside_keeps P opts \<Longrightarrow> keeps_inv opts P (signOps opts ops ctx)"
  unfolding signOps_def signOne_def selectProofRef_def selectGrantForOp_def Let_def
  by (intro pr.steps_rules inv_localTokens inv_setOpAuth inv_ensureOpAuthStoreReady inv_liftO inv_fillMissing)
    (auto simp: outside_keeps_def opt_all_def)

lemma inv_verifyLoop: "keeps_inv opts P (verifyLoop opts docId ops auth)"
  by (induction ops arbitrary: auth)
    (auto simp: verifyOne_def Let_def intro!: pr.steps_rules inv_setOpAuth)

lemma inv_verifyOps: "outside_keeps P opts \<Longrightarrow> keeps_inv opts P (verifyOps opts ops auth ctx)"
  unfolding verifyOps_def persistOpAuth_def
  by (intro pr.steps_rules inv_storeRecorded inv_verifyLoop inv_ensureOpAuthStoreReady inv_liftO)
    (auto simp: outside_keeps_def opt_all_def)

lemmas inv_hooks = inv_helloCaps inv_recordCapabilities inv_authorizeFilter inv_filterOutgoingOps inv_signOps inv_verifyOps

section \<open>What an accepted op implies\<close>

text \<open>
  The grant \<open>g\<close> authorises the op in state \<open>s\<close>: it is recorded, its key is the op's replica and
  made the signature, it is neither revoked nor outside its time window, and its capabilities
  give the decision \<open>tri\<close>.
\<close>

definition authorises :: "'w CoseOptions \<Rightarrow> string \<Rightarrow> 'w AuthState \<Rightarrow> Operation \<Rightarrow> bytes \<Rightarrow> CapabilityGrant \<Rightarrow> ScopeTri \<Rightarrow> bool" where
  "authorises opts docId s oper sig g tri \<longleftrightarrow>
     (\<exists>keyHex byToken tokenHex. js_get (au_grants s) keyHex = Some byToken \<and> (tokenHex, g) \<in> set byToken)
   \<and> opReplicaBytes oper = Inr (cg_publicKey g)
   \<and> isGrantRevoked opts docId VerifyOp oper s g = Inr False
   \<and> in_window (co_now opts (au_world s)) (cg_exp g) (cg_nbf g)
   \<and> capsAllowsOp (evaluatorOf opts s) docId oper (cg_caps g) = Inr tri
   \<and> verifyTreecrdtOpV1 (co_crypto opts) docId oper sig (cg_publicKey g) = Inr True"

lemma selectLoop_ok:
  "selectLoop opts docId purpose oper s gs bu rv = Inr g \<Longrightarrow>
    bu = Some g \<or> g \<in> set gs \<and> isGrantRevoked opts docId purpose oper s g = Inr False"
proof (induction gs arbitrary: bu rv)
  case (Cons x gs)
  then show ?case by (fastforce simp: bindR_eq_Inr split: if_splits)
qed (auto split: option.splits if_splits)

lemma chooseGrant_ok:
  assumes "chooseGrant opts docId oper a byToken s = Inr g"
  shows "g \<in> snd ` set byToken \<and> isGrantRevoked opts docId VerifyOp oper s g = Inr False"
proof -
  have mem: "g' \<in> snd ` set byToken" if "js_get byToken k = Some g'" for k g'
    using js_get_in [OF that] by force
  show ?thesis
  proof (cases "co_requireProofRef opts")
    case True
    then show ?thesis using assms mem by (auto simp: chooseGrant_def bindR_eq_Inr split: option.splits if_splits)
  next
    case False
    then show ?thesis using assms mem
      by (auto simp del: selectLoop.simps simp: chooseGrant_def Let_def bind_eq_Some_conv dest!: selectLoop_ok split: option.splits)
  qed
qed

lemma checkGrant_ok:
  "checkGrant opts docId oper a replica g s = Inr tri \<Longrightarrow>
    cg_publicKey g = replica \<and> in_window (co_now opts (au_world s)) (cg_exp g) (cg_nbf g)
    \<and> capsAllowsOp (evaluatorOf opts s) docId oper (cg_caps g) = Inr tri \<and> tri \<noteq> Deny
    \<and> verifyTreecrdtOpV1 (co_crypto opts) docId oper (oa_sig a) replica = Inr True"
  by (auto simp: checkGrant_def bindR_eq_Inr guardR_def in_window_def bytesToHex_inj split: if_splits option.splits)

lemma verifyOne_ok:
  assumes "verifyOne opts docId oper entry s = (Inr (d, opRef, a), s')"
  shows "entry = Some a \<and> (\<exists>opAuth. s' = s\<lparr>au_opAuth := opAuth\<rparr>)
    \<and> (\<exists>g tri. authorises opts docId s oper (oa_sig a) g tri \<and> tri \<noteq> Deny \<and> (d = DAllow \<longleftrightarrow> tri = Allow))"
proof -
  obtain replica byToken g tri where v: "opReplicaBytes oper = Inr replica" "entry = Some a"
      "js_get (au_grants s) (bytesToHex (deriveKeyIdV1 (co_crypto opts) replica)) = Some byToken"
      "chooseGrant opts docId oper a byToken s = Inr g" "checkGrant opts docId oper a replica g s = Inr tri"
      "s' = setOpAuth opRef a s" "d = (if tri = Unknown then DPendingContext (Some ''missing subtree context to authorize op'') else DAllow)"
    using assms by (auto simp: verifyOne_def Let_def pm_simps split: sum.splits option.splits if_splits)
  from v(4) have g: "g \<in> snd ` set byToken" "isGrantRevoked opts docId VerifyOp oper s g = Inr False"
    by (auto dest: chooseGrant_ok)
  note c = checkGrant_ok [OF v(5)]
  have "authorises opts docId s oper (oa_sig a) g tri"
    unfolding authorises_def using v(1,3) g c by fastforce
  moreover have "d = DAllow \<longleftrightarrow> tri = Allow" using v(7) c by (cases tri) auto
  ultimately show ?thesis using v(2,6) c unfolding setOpAuth_def by blast
qed

lemma isGrantRevoked_opAuth:
  "isGrantRevoked opts docId purpose oper (s\<lparr>au_opAuth := m\<rparr>) g = isGrantRevoked opts docId purpose oper s g"
  by (cases "co_isCapabilityTokenRevoked opts") (simp_all add: isGrantRevoked_def Let_def cong: if_cong)

lemma authorises_opAuth: "authorises opts docId (s\<lparr>au_opAuth := m\<rparr>) = authorises opts docId s"
  by (intro ext) (simp add: authorises_def isGrantRevoked_opAuth evaluatorOf_def)

lemma verifyLoop_ok:
  "verifyLoop opts docId ops as s = (Inr results, s') \<Longrightarrow>
    length results = length ops \<and> length ops \<le> length as \<and> (\<exists>opAuth. s' = s\<lparr>au_opAuth := opAuth\<rparr>)
    \<and> (\<forall>i < length ops. \<exists>g tri. authorises opts docId s (ops ! i) (oa_sig (as ! i)) g tri
          \<and> tri \<noteq> Deny \<and> (fst (results ! i) = DAllow \<longleftrightarrow> tri = Allow))"
proof (induction ops arbitrary: as s results)
  case Nil
  then show ?case by (auto intro: exI [of _ "au_opAuth s"])
next
  case (Cons oper ops)
  obtain d opRef a t rest where 1: "verifyOne opts docId oper (case as of [] \<Rightarrow> None | a # _ \<Rightarrow> Some a) s = (Inr (d, opRef, a), t)"
    "verifyLoop opts docId ops (tl as) t = (Inr rest, s')" "results = (d, opRef, a) # rest"
    using Cons.prems by (auto elim!: bnd_okE)
  obtain as' where as: "as = a # as'" using verifyOne_ok [OF 1(1)] by (cases as) auto
  obtain m where t: "t = s\<lparr>au_opAuth := m\<rparr>" using verifyOne_ok [OF 1(1)] by blast
  obtain g tri where g: "authorises opts docId s oper (oa_sig a) g tri" "tri \<noteq> Deny" "d = DAllow \<longleftrightarrow> tri = Allow"
    using verifyOne_ok [OF 1(1)] by blast
  note ih = Cons.IH [OF 1(2), unfolded t authorises_opAuth as list.sel]
  show ?case
  proof (intro conjI allI impI)
    show "\<exists>opAuth. s' = s\<lparr>au_opAuth := opAuth\<rparr>" using ih by auto
    fix i
    assume "i < length (oper # ops)"
    then show "\<exists>g tri. authorises opts docId s ((oper # ops) ! i) (oa_sig (as ! i)) g tri
        \<and> tri \<noteq> Deny \<and> (fst (results ! i) = DAllow \<longleftrightarrow> tri = Allow)"
      using g ih by (cases i) (auto simp: as 1(3))
  qed (use ih in \<open>auto simp: as 1(3)\<close>)
qed

definition allowedAt :: "SyncAuthOpDisposition list option \<Rightarrow> nat \<Rightarrow> bool" where
  "allowedAt res i \<longleftrightarrow> (case res of None \<Rightarrow> True | Some ds \<Rightarrow> ds ! i = DAllow)"

lemma verifyOps_authorised:
  assumes "\<not> co_allowUnsigned opts" "verifyOps opts ops auth ctx s = (Inr res, s')" "ops \<noteq> []"
  shows "\<exists>as t. auth = Some as \<and> ensureCapabilityStoreRecorded opts (oc_docId ctx) s = (Inr (), t)
    \<and> length ops \<le> length as \<and> (\<forall>ds. res = Some ds \<longrightarrow> length ds = length ops)
    \<and> (\<forall>i < length ops. \<exists>g tri. authorises opts (oc_docId ctx) t (ops ! i) (oa_sig (as ! i)) g tri
          \<and> tri \<noteq> Deny \<and> (allowedAt res i \<longleftrightarrow> tri = Allow))"
proof -
  obtain t where t: "ensureCapabilityStoreRecorded opts (oc_docId ctx) s = (Inr (), t)"
    using assms by (auto simp: verifyOps_def elim!: sq_okE)
  obtain as results u where r: "auth = Some as" "verifyLoop opts (oc_docId ctx) ops as t = (Inr results, u)"
      "res = (if list_ex (\<lambda>(d, _). d \<noteq> DAllow) results then Some (map fst results) else None)"
    using assms t by (auto simp: verifyOps_def split: option.splits elim!: sq_okE bnd_okE)
  note v = verifyLoop_ok [OF r(2)]
  have "allowedAt res i \<longleftrightarrow> fst (results ! i) = DAllow" if "i < length ops" for i
  proof -
    obtain d x where "results ! i = (d, x)" by (rule prod.exhaust)
    moreover from this have "(d, x) \<in> set results" using v that by (metis nth_mem)
    ultimately show ?thesis using v that r(3) by (auto simp: allowedAt_def list_ex_iff)
  qed
  with v r t show ?thesis by auto
qed

lemma verifyOps_allowed:
  assumes "\<not> co_allowUnsigned opts" "verifyOps opts ops auth ctx s = (Inr res, s')" "i < length ops" "allowedAt res i"
  shows "\<exists>sig t g. ensureCapabilityStoreRecorded opts (oc_docId ctx) s = (Inr (), t)
    \<and> authorises opts (oc_docId ctx) t (ops ! i) sig g Allow"
proof -
  have "ops \<noteq> []" using assms(3) by auto
  from verifyOps_authorised [OF assms(1,2) this] assms(3,4) show ?thesis by blast
qed

section \<open>What a peer may read\<close>

lemma capAllowsNode_permits:
  assumes "wf_tree t" "evaluates t ev" "capAllowsNode ev doc node acts cap = Inr Allow"
  shows "permits t doc cap node acts"
proof (cases ev)
  case None
  then show ?thesis using assms(3) unfolding permits_def
    by (cases "getField cap ''actions''")
      (auto simp: capAllowsNode_def Let_def bindR_eq_Inr list_all_iff bytesToHex_inj split: if_splits)
next
  case (Some e)
  then show ?thesis using assms capAllowsNode_Allow by (simp add: evaluates_def)
qed

lemma docWideCap_permits:
  assumes "docWideCap ev doc cap = Inr True"
  shows "permits t doc cap node [''read_structure'']"
  using assms unfolding permits_def
  by (cases "getField cap ''actions''")
    (auto simp: docWideCap_def capAllowsNode_def Let_def bindR_eq_Inr list_all_iff split: if_splits)

lemma anyDocWide_permits: "anyDocWide ev doc caps = Inr True \<Longrightarrow> \<exists>cap \<in> set caps. \<forall>t node. permits t doc cap node [''read_structure'']"
  by (induction caps) (auto simp: bindR_eq_Inr split: if_splits intro: docWideCap_permits)

lemma grantsAllowNode_permits:
  assumes "wf_tree t" "evaluates t ev" "grantsAllowNode ev doc grants node acts = Inr Allow"
  shows "\<exists>g \<in> set grants. permits_any t doc (cg_caps g) node acts"
  using assms(3) unfolding grantsAllowNode_def capsAllowsNodeAccess_def permits_any_def
  by (auto dest!: bestOf_Allow intro: capAllowsNode_permits [OF assms(1,2)])

lemma parseGrants_mem:
  "parseGrants opts docId s caps = Inr gs \<Longrightarrow> g \<in> set gs \<Longrightarrow>
    \<exists>cap \<in> set caps. parseAndVerifyCapabilityToken (co_crypto opts) (tokenOptions opts docId s) (base64urlDecode (cap_value cap)) = Inr g"
  by (induction caps arbitrary: gs) (auto simp: bindR_eq_Inr split: sum.splits if_splits)

text \<open>A live token of the peer that verifies here and gives \<open>g\<close>.\<close>

definition presents :: "'w CoseOptions \<Rightarrow> string \<Rightarrow> 'w AuthState \<Rightarrow> Capability list \<Rightarrow> CapabilityGrant \<Rightarrow> bool" where
  "presents opts docId s caps g \<longleftrightarrow> (\<exists>cap \<in> set caps. isAuthCapability cap \<and>
     parseAndVerifyCapabilityToken (co_crypto opts) (tokenOptions opts docId s) (base64urlDecode (cap_value cap)) = Inr g)"

lemma parseGrants_presents:
  "parseGrants opts docId s (filter isAuthCapability caps) = Inr gs \<Longrightarrow> g \<in> set gs \<Longrightarrow> presents opts docId s caps g"
  unfolding presents_def by (drule (1) parseGrants_mem) auto

section \<open>Signing and verifying\<close>

lemma fold_m_collect:
  "fold_m (\<lambda>x acc. bnd (f x) (\<lambda>y. ret (acc @ [y]))) xs acc s = (Inr ys, s') \<Longrightarrow>
    \<exists>zs. ys = acc @ zs \<and> list_all2 (\<lambda>x z. \<exists>t t'. f x t = (Inr z, t')) xs zs"
proof (induction xs arbitrary: acc s)
  case (Cons x xs)
  obtain y t where y: "f x s = (Inr y, t)"
    "fold_m (\<lambda>x acc. bnd (f x) (\<lambda>y. ret (acc @ [y]))) xs (acc @ [y]) t = (Inr ys, s')"
    using Cons.prems unfolding fold_m.simps by (elim bnd_okE) (simp only: pm_eval prod.inject sum.inject)
  from Cons.IH [OF y(2)] y(1) show ?case by fastforce
qed simp

lemma fillMissing_Inr: "fillMissing (map Inr as) [] s = (Inr as, s)"
  by (induction as) (simp_all add: bnd_eval)

lemma signOne_local:
  assumes "signOne opts docId oper s = (Inr slot, s')" "opReplicaBytes oper = Inr (co_localPublicKey opts)"
  shows "\<exists>a opRef. slot = Inr a \<and> opRefOf (co_crypto opts) docId (co_localPublicKey opts) oper = Inr opRef
    \<and> signTreecrdtOpV1 (co_crypto opts) docId oper (co_localPrivateKey opts) = Inr (oa_sig a)"
  using assms by (auto simp: signOne_def Let_def elim!: bnd_okE sq_okE)

lemma signOps_local:
  assumes "signOps opts ops ctx s = (Inr out, s')" "\<forall>oper \<in> set ops. opReplicaBytes oper = Inr (co_localPublicKey opts)"
  shows "list_all2 (\<lambda>oper a. (\<exists>opRef. opRefOf (co_crypto opts) (oc_docId ctx) (co_localPublicKey opts) oper = Inr opRef)
     \<and> signTreecrdtOpV1 (co_crypto opts) (oc_docId ctx) oper (co_localPrivateKey opts) = Inr (oa_sig a)) ops out"
proof -
  let ?collect = "fold_m (\<lambda>oper acc. bnd (signOne opts (oc_docId ctx) oper) (\<lambda>x. ret (acc @ [x]))) ops []"
  obtain t slots u listed v where r: "?collect t = (Inr slots, u)" "fillMissing slots listed v = (Inr out, s')"
      "missingRefs slots = [] \<Longrightarrow> listed = []"
    using assms(1) unfolding signOps_def by (elim sq_okE bnd_okE) (fastforce split: if_splits)
  have sl: "list_all2 (\<lambda>oper slot. \<exists>a opRef. slot = Inr a \<and> opRefOf (co_crypto opts) (oc_docId ctx) (co_localPublicKey opts) oper = Inr opRef
     \<and> signTreecrdtOpV1 (co_crypto opts) (oc_docId ctx) oper (co_localPrivateKey opts) = Inr (oa_sig a)) ops slots"
  proof (rule list.rel_mono_strong)
    show "list_all2 (\<lambda>oper slot. \<exists>t t'. signOne opts (oc_docId ctx) oper t = (Inr slot, t')) ops slots"
      using fold_m_collect [OF r(1)] by simp
  qed (use assms(2) signOne_local in blast)
  then have "\<forall>x \<in> set slots. \<exists>a. x = Inr a" by (fastforce simp: list_all2_conv_all_nth in_set_conv_nth)
  then obtain as where as: "slots = map Inr as" by (metis ex_map_conv)
  then have "missingRefs slots = []" by (simp add: missingRefs_def map_filter_def)
  with r as have "out = as" by (simp add: fillMissing_Inr)
  with sl as show ?thesis by (auto simp: list_all2_map2 elim: list_all2_mono)
qed

text \<open>The verifier of \<open>oper\<close> knows the grant the entry \<open>a\<close> refers to, and the grant covers the op now.\<close>

definition covers :: "'w CoseOptions \<Rightarrow> string \<Rightarrow> 'w AuthState \<Rightarrow> bytes \<Rightarrow> Operation \<Rightarrow> OpAuth \<Rightarrow> bool" where
  "covers opts docId s replica oper a \<longleftrightarrow> (\<exists>byToken ref g.
     js_get (au_grants s) (bytesToHex (deriveKeyIdV1 (co_crypto opts) replica)) = Some byToken
   \<and> oa_proofRef a = Some ref \<and> js_get byToken (bytesToHex ref) = Some g \<and> cg_publicKey g = replica
   \<and> isGrantRevoked opts docId VerifyOp oper s g = Inr False
   \<and> in_window (co_now opts (au_world s)) (cg_exp g) (cg_nbf g)
   \<and> capsAllowsOp (evaluatorOf opts s) docId oper (cg_caps g) = Inr Allow)"

lemma covers_opAuth: "covers opts docId (s\<lparr>au_opAuth := m\<rparr>) = covers opts docId s"
  by (intro ext) (simp add: covers_def isGrantRevoked_opAuth evaluatorOf_def)

lemma verifyOne_accepts:
  assumes "covers opts docId s replica oper a" "opReplicaBytes oper = Inr replica"
    "opRefOf (co_crypto opts) docId replica oper = Inr opRef"
    "verifyTreecrdtOpV1 (co_crypto opts) docId oper (oa_sig a) replica = Inr True"
  shows "verifyOne opts docId oper (Some a) s = (Inr (DAllow, opRef, a), setOpAuth opRef a s)"
proof -
  obtain byToken ref g where c: "js_get (au_grants s) (bytesToHex (deriveKeyIdV1 (co_crypto opts) replica)) = Some byToken"
      "oa_proofRef a = Some ref" "js_get byToken (bytesToHex ref) = Some g" "cg_publicKey g = replica"
      "isGrantRevoked opts docId VerifyOp oper s g = Inr False" "in_window (co_now opts (au_world s)) (cg_exp g) (cg_nbf g)"
      "capsAllowsOp (evaluatorOf opts s) docId oper (cg_caps g) = Inr Allow"
    using assms(1) unfolding covers_def by blast
  have ne: "byToken \<noteq> []" using c(3) by auto
  have "chooseGrant opts docId oper a byToken s = Inr g" using c by (simp add: chooseGrant_def Let_def)
  moreover have "checkGrant opts docId oper a replica g s = Inr Allow"
    using c(4,6,7) assms(4) by (auto simp: checkGrant_def guardR_def in_window_def split: option.splits)
  ultimately show ?thesis using assms(2,3) c(1) ne by (simp add: verifyOne_def Let_def pm_simps)
qed

lemma verifyLoop_accepts:
  assumes "list_all2 (\<lambda>oper a. covers opts docId s replica oper a \<and> opReplicaBytes oper = Inr replica
     \<and> (\<exists>opRef. opRefOf (co_crypto opts) docId replica oper = Inr opRef)
     \<and> verifyTreecrdtOpV1 (co_crypto opts) docId oper (oa_sig a) replica = Inr True) ops as"
  shows "\<exists>results s'. verifyLoop opts docId ops as s = (Inr results, s') \<and> list_all (\<lambda>(d, _). d = DAllow) results"
  using assms
proof (induction ops arbitrary: as s)
  case (Cons oper ops)
  then obtain a as' opRef where as: "as = a # as'"
    and c: "covers opts docId s replica oper a" "opReplicaBytes oper = Inr replica"
      "opRefOf (co_crypto opts) docId replica oper = Inr opRef"
      "verifyTreecrdtOpV1 (co_crypto opts) docId oper (oa_sig a) replica = Inr True"
    by (auto simp: list_all2_Cons1)
  note one = verifyOne_accepts [OF c]
  have "covers opts docId (setOpAuth opRef a s) = covers opts docId s" by (simp add: setOpAuth_def covers_opAuth)
  with Cons.IH [of "setOpAuth opRef a s" as'] Cons.prems as
  obtain results s' where "verifyLoop opts docId ops as' (setOpAuth opRef a s) = (Inr results, s')"
      "list_all (\<lambda>(d, _). d = DAllow) results" by auto
  then show ?case using one by (simp add: as bnd_eval)
qed simp

section \<open>Properties\<close>

text \<open>The states the hooks reach, whatever happens outside between two calls.\<close>

inductive auth_reach :: "'w CoseOptions \<Rightarrow> 'w AuthState \<Rightarrow> bool" for opts where
  start: "auth_reach opts (initAuth w)"
| outside: "auth_reach opts s \<Longrightarrow> auth_reach opts (s\<lparr>au_world := w\<rparr>)"
| hello: "auth_reach opts s \<Longrightarrow> helloCaps opts docId s = (r, s') \<Longrightarrow> auth_reach opts s'"
| remember: "auth_reach opts s \<Longrightarrow> recordCapabilities opts caps docId s = (r', s') \<Longrightarrow> auth_reach opts s'"
| filter: "auth_reach opts s \<Longrightarrow> authorizeFilter opts flt actx s = (r', s') \<Longrightarrow> auth_reach opts s'"
| outgoing: "auth_reach opts s \<Longrightarrow> filterOutgoingOps opts ops fctx s = (r'', s') \<Longrightarrow> auth_reach opts s'"
| sign: "auth_reach opts s \<Longrightarrow> signOps opts ops ctx s = (r3, s') \<Longrightarrow> auth_reach opts s'"
| verify: "auth_reach opts s \<Longrightarrow> verifyOps opts ops auth ctx s = (r4, s') \<Longrightarrow> auth_reach opts s'"

lemma grants_ok_steps: "keeps_inv opts (\<lambda>_. True) m \<Longrightarrow> m s = (r, s') \<Longrightarrow> grants_ok opts s \<Longrightarrow> grants_ok opts s'"
  by (drule (1) stepsD) (simp add: preserves_def auth_inv_def)

lemma nothing_outside: "outside_keeps (\<lambda>_. True) opts"
  by (simp add: outside_keeps_def opt_all_def keepsW_def)

text \<open>
  C6: in every state the hooks reach, whatever peers send, each recorded grant comes from a token
  with a chain of at most eight delegations from a trusted issuer, and is filed under its own key
  id and token id.
\<close>
theorem recorded_grants_trusted:
  assumes "auth_reach opts s" and "js_get (au_grants s) keyHex = Some byToken" and "(tokenHex, g) \<in> set byToken"
  shows "keyHex = bytesToHex (cg_keyId g) \<and> tokenHex = bytesToHex (cg_tokenId g)
    \<and> (\<exists>token vo n root. vt_issuerPublicKeys vo = co_issuerPublicKeys opts \<and> n \<le> 8
         \<and> delegation_chain (co_crypto opts) vo token g n root)"
proof -
  from assms(1) have "grants_ok opts s"
  proof induction
    case (start w)
    then show ?case by (simp add: grants_ok_def initAuth_def)
  next
    case (outside s w)
    then show ?case by (simp add: grants_ok_def)
  qed (blast intro: grants_ok_steps inv_hooks nothing_outside)+
  with assms(2,3) show ?thesis by (fastforce simp: grants_ok_def trusted_grant_def MAX_DELEGATION_PROOF_CHAIN_def)
qed

text \<open>
  C4: when \<^verbatim>\<open>verifyOps\<close> allows an op (and unsigned ops are not allowed), the batch carried auth,
  and there is a recorded grant whose key is the op's replica id, that made the signature, is not
  revoked, is inside its time window and whose capabilities allow the op; an op left pending has
  such a grant with the scope not yet known.
\<close>
theorem verified_ops_authorised:
  assumes "\<not> co_allowUnsigned opts" and "verifyOps opts ops auth ctx s = (Inr res, s')" and "i < length ops"
  shows "\<exists>as t g tri. auth = Some as \<and> i < length as
    \<and> ensureCapabilityStoreRecorded opts (oc_docId ctx) s = (Inr (), t)
    \<and> authorises opts (oc_docId ctx) t (ops ! i) (oa_sig (as ! i)) g tri
    \<and> (if allowedAt res i then tri = Allow else tri = Unknown)"
proof -
  have "ops \<noteq> []" using assms(3) by auto
  from verifyOps_authorised [OF assms(1,2) this] assms(3)
  obtain as t g tri where a: "auth = Some as" "ensureCapabilityStoreRecorded opts (oc_docId ctx) s = (Inr (), t)"
      "length ops \<le> length as" "authorises opts (oc_docId ctx) t (ops ! i) (oa_sig (as ! i)) g tri"
      "tri \<noteq> Deny" "allowedAt res i \<longleftrightarrow> tri = Allow" by blast
  moreover have "if allowedAt res i then tri = Allow else tri = Unknown" using a(5,6) by (cases tri) auto
  ultimately show ?thesis using assms(3) by fastforce
qed


text \<open>
  A filter is authorised only for a peer that presents a live token verified here whose
  capabilities let it read: every node for \<^verbatim>\<open>filter(all)\<close>, the parent for \<^verbatim>\<open>filter(children)\<close>.
\<close>
theorem authorised_filter_permitted:
  assumes "wf_tree t" and "evaluates t (evaluatorOf opts s)" and "authorizeFilter opts flt ctx s = (Inr (), s')"
  shows "\<exists>g. presents opts (afc_docId ctx) s (afc_capabilities ctx) g \<and> (case flt of
      FilterAll \<Rightarrow> \<forall>node. permits_any t (afc_docId ctx) (cg_caps g) node [''read_structure'']
    | FilterChildren parent \<Rightarrow> permits_any t (afc_docId ctx) (cg_caps g) parent [''read_structure''])"
proof -
  obtain grants where g: "parseGrants opts (afc_docId ctx) s (filter isAuthCapability (afc_capabilities ctx)) = Inr grants"
      "filterDecision (evaluatorOf opts s) (afc_docId ctx) flt grants = Inr ()"
    using assms(3) by (auto simp: authorizeFilter_def parsePeerCapabilityGrants_def Let_def split: if_splits elim!: bnd_okE)
  show ?thesis
  proof (cases flt)
    case FilterAll
    then have "anyDocWide (evaluatorOf opts s) (afc_docId ctx) (concat (map cg_caps grants)) = Inr True"
      using g(2) by (auto simp: filterDecision_def bindR_eq_Inr split: if_splits)
    from anyDocWide_permits [OF this] obtain x where "x \<in> set grants"
      "\<forall>node. permits_any t (afc_docId ctx) (cg_caps x) node [''read_structure'']" by (auto simp: permits_any_def)
    with FilterAll parseGrants_presents [OF g(1)] show ?thesis by auto
  next
    case (FilterChildren parent)
    then have "grantsAllowNode (evaluatorOf opts s) (afc_docId ctx) grants parent [''read_structure''] = Inr Allow"
      using g(2) by (auto simp: filterDecision_def bindR_eq_Inr split: if_splits)
    from grantsAllowNode_permits [OF assms(1,2) this] FilterChildren parseGrants_presents [OF g(1)]
    show ?thesis by auto
  qed
qed

text \<open>
  C11: what is sent to a peer that presents live tokens is limited to them: an op passes
  \<^verbatim>\<open>filterOutgoingOps\<close> only if one of the peer's verified tokens lets it read the op's node.  An op
  whose scope is unknown is withheld.
\<close>
theorem outgoing_ops_permitted:
  assumes "wf_tree t" and "evaluates t (evaluatorOf opts s)" and "filterOutgoingOps opts ops ctx s = (Inr flags, s')"
    and "\<exists>cap \<in> set (foc_capabilities ctx). isAuthCapability cap" and "i < length ops" and "flags ! i"
    and "nodeIdToBytes16 (kindNode (op_kind (ops ! i))) = Inr node"
  shows "\<exists>g. presents opts (foc_docId ctx) s (foc_capabilities ctx) g
    \<and> permits_any t (foc_docId ctx) (cg_caps g) node [''read_structure'']"
proof -
  have ne: "filter isAuthCapability (foc_capabilities ctx) \<noteq> []" using assms(4) by (auto simp: filter_empty_conv)
  obtain grants where g: "parseGrants opts (foc_docId ctx) s (filter isAuthCapability (foc_capabilities ctx)) = Inr grants"
      "grants = [] \<and> flags = map (\<lambda>_. False) ops
       \<or> anyDocWide (evaluatorOf opts s) (foc_docId ctx) (concat (map cg_caps grants)) = Inr True
       \<or> mapR (allowOutgoing (evaluatorOf opts s) (foc_docId ctx) grants) ops = Inr flags"
    using assms(3) ne by (auto simp: filterOutgoingOps_def parsePeerCapabilityGrants_def Let_def split: if_splits elim!: bnd_okE)
  from g(2) consider
      "anyDocWide (evaluatorOf opts s) (foc_docId ctx) (concat (map cg_caps grants)) = Inr True"
    | "allowOutgoing (evaluatorOf opts s) (foc_docId ctx) grants (ops ! i) = Inr True"
    using assms(5,6) by (auto simp: mapR_Inr_iff list_all2_conv_all_nth)
  then have "\<exists>x \<in> set grants. permits_any t (foc_docId ctx) (cg_caps x) node [''read_structure'']"
  proof cases
    case 1
    from anyDocWide_permits [OF 1] show ?thesis by (fastforce simp: permits_any_def)
  next
    case 2
    with assms(7) show ?thesis
      by (auto simp: allowOutgoing_def bindR_eq_Inr intro: grantsAllowNode_permits [OF assms(1,2)])
  qed
  with parseGrants_presents [OF g(1)] show ?thesis by blast
qed

lemma isGrantRevoked_other_token:
  assumes "rr_tokenId rec \<noteq> cg_tokenId g"
  shows "isGrantRevoked opts docId purpose oper (s\<lparr>au_revocations := applyRevocationRecord rec recordBytes (au_revocations s)\<rparr>) g
    = isGrantRevoked opts docId purpose oper s g"
proof -
  have "js_get (applyRevocationRecord rec recordBytes (au_revocations s)) (bytesToHex (cg_tokenId g))
      = js_get (au_revocations s) (bytesToHex (cg_tokenId g))"
    using assms by (auto simp: applyRevocationRecord_def Let_def split: option.splits prod.splits)
  then show ?thesis
    by (cases "co_isCapabilityTokenRevoked opts")
      (simp_all add: isGrantRevoked_def isRevokedByStandardPolicy_def Let_def cong: if_cong)
qed

text \<open>
  C13: at run time a grant is checked against the revocation of its own token only.  A record that
  revokes another token, the proof token it was delegated from included, leaves every op it
  authorises authorised, until the delegated token is verified again.
\<close>
theorem delegate_survives_proof_revocation:
  assumes "authorises opts docId s oper sig g tri" and "rr_tokenId rec \<noteq> cg_tokenId g"
  shows "authorises opts docId (s\<lparr>au_revocations := applyRevocationRecord rec recordBytes (au_revocations s)\<rparr>) oper sig g tri"
  using assms(1) unfolding authorises_def isGrantRevoked_other_token [OF assms(2)] by (simp add: evaluatorOf_def)

section \<open>Witnesses\<close>

text \<open>
  One party that is issuer, writer and reader: the writer's key is \<^verbatim>\<open>7, \<dots>, 7\<close>, the issuer's
  private key is \<^verbatim>\<open>1\<close>.  \<open>known_state\<close> has recorded a grant for the writer.
\<close>

definition demo_cose :: "'w CoseOptions" where
  "demo_cose = \<lparr>co_crypto = demo_crypto, co_issuerPublicKeys = [demo_pk [1]], co_localPrivateKey = replicate 32 7,
     co_localPublicKey = replicate 32 7, co_localCapabilityTokens = [[9]], co_capabilityStore = None,
     co_localIdentityChain = None, co_onPeerIdentityChain = None,
     co_scopeEvaluator = Some (\<lambda>_. sqliteScopeEvaluator demo_tree), co_opAuthStore = None, co_localRevocationRecords = [],
     co_onPeerRevocationRecord = None, co_revokedCapabilityTokenIds = None, co_isCapabilityTokenRevoked = None,
     co_allowUnsigned = False, co_requireProofRef = True, co_now = (\<lambda>_. 50)\<rparr>"

definition known_grant :: CapabilityGrant where
  "known_grant = \<lparr>cg_tokenId = deriveTokenIdV1 demo_crypto [9], cg_keyId = deriveKeyIdV1 demo_crypto (replicate 32 7),
     cg_publicKey = replicate 32 7, cg_caps = [demo_cap ''delete''], cg_exp = Some 100, cg_nbf = None\<rparr>"

definition known_state :: "unit AuthState" where
  "known_state = (addGrant known_grant (initAuth ()))\<lparr>au_localTokensFor := Some ''doc''\<rparr>"

definition demo_ctx :: SyncAuthOpsContext where
  "demo_ctx = \<lparr>oc_docId = ''doc'', oc_purpose = PReconcile, oc_filterId = ''f''\<rparr>"

lemma demo_cose_simps:
  "co_crypto demo_cose = demo_crypto" "co_capabilityStore demo_cose = None" "co_opAuthStore demo_cose = None"
  "\<not> co_allowUnsigned demo_cose" "co_localRevocationRecords demo_cose = []"
  "co_localPublicKey demo_cose = replicate 32 7" "co_localPrivateKey demo_cose = replicate 32 7"
  by (simp_all add: demo_cose_def)

lemma demo_pk_7: "demo_pk (replicate 32 7) = replicate 32 7"
  by (simp add: demo_pk_def)

lemma demo_delete_replica: "opReplicaBytes demo_delete = Inr (replicate 32 7)"
  by (simp add: opReplicaBytes_def demo_delete_def replicaIdToBytes_def assertReplicaIdBytes_def ED25519_PUBLIC_KEY_LEN_def)

lemma demo_delete_opRef: "\<exists>opRef. opRefOf demo_crypto ''doc'' (replicate 32 7) demo_delete = Inr opRef"
  by (simp add: opRefOf_def demo_delete_def deriveOpRefV0_def opref_preimage_def encodeOperationIdV0_def
      u32be_def u64be_def isSafeInteger_def MAX_SAFE_INTEGER_def)

lemma demo_delete_signed: "\<exists>sig. signTreecrdtOpV1 demo_crypto ''doc'' demo_delete sk = Inr sig"
proof -
  have "nodeIdToBytes16 ROOT_NODE_ID_HEX = Inr (replicate 16 0)"
    by (simp add: reserved_bytes nodeIdToBytes16_canonical canonical_bytesToHex)
  then show ?thesis
    by (simp add: signTreecrdtOpV1_def encodeTreecrdtOpSigInputV1_def demo_delete_def replicaIdToBytes_def assertReplicaIdBytes_def
        ED25519_PUBLIC_KEY_LEN_def u8_def len_prefixed_def u32be_def auth_u64be_def demo_crypto_def ascii_bytes_def)
qed

lemma known_covers:
  "oa_proofRef a = Some (deriveTokenIdV1 demo_crypto [9]) \<Longrightarrow> covers demo_cose ''doc'' known_state (replicate 32 7) demo_delete a"
  by (simp add: covers_def known_state_def addGrant_def initAuth_def known_grant_def demo_cose_def Let_def isGrantRevoked_def
      isRevokedByStandardPolicy_def revokedHexes_def in_window_def evaluatorOf_def demo_delete_decided js_get_Cons)

lemma known_select:
  "selectProofRef demo_cose ''doc'' demo_delete known_state = (Inr (Some (deriveTokenIdV1 demo_crypto [9])), known_state)"
  by (simp add: selectProofRef_def selectGrantForOp_def currentLocalGrants_def known_state_def addGrant_def initAuth_def
      known_grant_def demo_cose_def Let_def isGrantRevoked_def localTokenIdHexes_def js_get_def
      isRevokedByStandardPolicy_def revokedHexes_def in_window_def evaluatorOf_def demo_delete_decided pm_simps)

lemma known_sign:
  "\<exists>sig s'. signOps demo_cose [demo_delete] demo_ctx known_state
    = (Inr [\<lparr>oa_sig = sig, oa_proofRef = Some (deriveTokenIdV1 demo_crypto [9])\<rparr>], s')"
proof -
  obtain opRef where r: "opRefOf demo_crypto ''doc'' (replicate 32 7) demo_delete = Inr opRef"
    using demo_delete_opRef by blast
  obtain sig where sg: "signTreecrdtOpV1 demo_crypto ''doc'' demo_delete (replicate 32 7) = Inr sig"
    using demo_delete_signed by blast
  define a where "a = \<lparr>oa_sig = sig, oa_proofRef = Some (deriveTokenIdV1 demo_crypto [9])\<rparr>"
  have "signOne demo_cose ''doc'' demo_delete known_state = (Inr (Inr a), setOpAuth opRef a known_state)"
    using demo_delete_replica r sg known_select
    by (simp add: signOne_def bnd_eval sq_eval Let_def a_def demo_cose_simps)
  moreover have "ensureLocalTokensRecorded demo_cose ''doc'' known_state = (Inr (), known_state)"
    by (simp add: ensureLocalTokensRecorded_def bnd_eval known_state_def)
  ultimately have "signOps demo_cose [demo_delete] demo_ctx known_state = (Inr [a], setOpAuth opRef a known_state)"
    by (simp add: signOps_def demo_ctx_def bnd_eval sq_eval missingRefs_def map_filter_simps)
  then show ?thesis unfolding a_def by blast
qed


lemma known_verify:
  "\<exists>sig s'. verifyOps demo_cose [demo_delete] (Some [\<lparr>oa_sig = sig, oa_proofRef = Some (deriveTokenIdV1 demo_crypto [9])\<rparr>])
     demo_ctx known_state = (Inr None, s')"
proof -
  obtain opRef where r: "opRefOf demo_crypto ''doc'' (replicate 32 7) demo_delete = Inr opRef"
    using demo_delete_opRef by blast
  obtain sig where "signTreecrdtOpV1 demo_crypto ''doc'' demo_delete (replicate 32 7) = Inr sig"
    using demo_delete_signed by blast
  from sign_verify_op [OF demo_crypto_lawful this]
  have "verifyTreecrdtOpV1 demo_crypto ''doc'' demo_delete sig (replicate 32 7) = Inr True"
    by (simp add: demo_pk_7)
  then have "verifyOne demo_cose ''doc'' demo_delete (Some \<lparr>oa_sig = sig, oa_proofRef = Some (deriveTokenIdV1 demo_crypto [9])\<rparr>) known_state
      = (Inr (DAllow, opRef, \<lparr>oa_sig = sig, oa_proofRef = Some (deriveTokenIdV1 demo_crypto [9])\<rparr>),
         setOpAuth opRef \<lparr>oa_sig = sig, oa_proofRef = Some (deriveTokenIdV1 demo_crypto [9])\<rparr> known_state)"
    by (intro verifyOne_accepts [OF known_covers demo_delete_replica]) (simp_all add: demo_cose_simps r)
  then show ?thesis
    by (intro exI [of _ sig]) (simp add: verifyOps_def demo_ctx_def ensureCapabilityStoreRecorded_def persistOpAuth_def
      demo_cose_simps bnd_eval sq_eval)
qed

theorem verified_ops_authorised_witness:
  "\<exists>sig (t :: unit AuthState) g. verifyTreecrdtOpV1 demo_crypto ''doc'' demo_delete sig (cg_publicKey g) = Inr True
     \<and> authorises demo_cose ''doc'' t demo_delete sig g Allow"
proof -
  obtain sig s' where v: "verifyOps demo_cose [demo_delete] (Some [\<lparr>oa_sig = sig, oa_proofRef = Some (deriveTokenIdV1 demo_crypto [9])\<rparr>])
     demo_ctx known_state = (Inr None, s')" using known_verify by blast
  from verified_ops_authorised [OF demo_cose_simps(4) v, of 0] obtain t :: "unit AuthState" and g where "authorises demo_cose ''doc'' t demo_delete sig g Allow"
    by (auto simp: allowedAt_def demo_ctx_def)
  moreover from this have "verifyTreecrdtOpV1 demo_crypto ''doc'' demo_delete sig (cg_publicKey g) = Inr True"
    by (simp add: authorises_def demo_cose_def)
  ultimately show ?thesis by blast
qed

section \<open>Witnesses with an issued token\<close>

definition demo_read :: IssueOptions where
  "demo_read = demo_issue\<lparr>io_actions := [''read_structure''], io_maxDepth := None\<rparr>"

lemma described_fields:
  assumes "describeCap cap = Inr d"
  shows "\<exists>actions scope. is_object (getField cap ''res'') \<and> getField cap ''actions'' = CArr actions
    \<and> map js_String actions = tc_actions d \<and> getField (getField cap ''res'') ''doc_id'' = CStr (tc_docId d)
    \<and> parseScope (getField cap ''res'') = Inr scope \<and> bytesToHex (sc_root scope) = tc_rootNodeId d
    \<and> sc_maxDepth scope = tc_maxDepth d \<and> map_option (map bytesToHex) (sc_exclude scope) = tc_excludeNodeIds d"
  using assms by (cases "getField cap ''actions''"; cases "getField (getField cap ''res'') ''doc_id''")
    (auto simp: describeCap_def Let_def bindR_eq_Inr guardR_def split: if_splits)

lemma read_token:
  assumes "au_revocations s = []"
  shows "\<exists>token g. parseAndVerifyCapabilityToken demo_crypto (tokenOptions demo_cose ''doc'' s) token = Inr g
     \<and> cg_keyId g = deriveKeyIdV1 demo_crypto (replicate 32 7)
     \<and> anyDocWide ev ''doc'' (cg_caps g) = Inr True"
proof -
  have root: "nodeIdToBytes16 ROOT_NODE_ID_HEX = Inr (replicate 16 0)"
    by (simp add: reserved_bytes nodeIdToBytes16_canonical canonical_bytesToHex)
  then obtain token where i: "issueTreecrdtCapabilityTokenV1 demo_crypto [1] demo_read = Inr token"
    by (simp add: issueTreecrdtCapabilityTokenV1_def demo_read_def demo_issue_def guardR_def tokenClaims_def trim_js_def is_ws_def Let_def)
  let ?vo = "tokenOptions demo_cose ''doc'' s"
  have vo: "demo_pk [1] \<in> set (vt_issuerPublicKeys ?vo)" "vt_docId ?vo = io_docId demo_read"
    "in_window (vt_nowSec ?vo) (io_exp demo_read) (io_nbf demo_read)" "checkRevoked demo_crypto ?vo token 0 = Inr ()"
    by (simp_all add: tokenOptions_def demo_cose_def demo_read_def demo_issue_def in_window_def checkRevoked_def guardR_def
        parseStageRevocationChecker_def isRevokedByStandardPolicy_def revokedHexes_def assms)
  obtain g cap d where g: "parseAndVerifyCapabilityToken demo_crypto ?vo token = Inr g" "cg_caps g = [cap]"
      "cg_keyId g = deriveKeyIdV1 demo_crypto (replicate 32 7)"
    and d: "describeCap cap = Inr d" "tc_actions d = [''read_structure'']" "tc_docId d = ''doc''"
      "normalizeNodeId ROOT_NODE_ID_HEX = Inr (tc_rootNodeId d)" "tc_maxDepth d = None"
      "mapR normalizeNodeId [] = Inr (case tc_excludeNodeIds d of None \<Rightarrow> [] | Some ids \<Rightarrow> ids)"
    using issued_verifies [OF demo_crypto_lawful i vo] by (auto simp: demo_read_def demo_issue_def)
  have "tc_rootNodeId d = ROOT_NODE_ID_HEX" using d(4) nodeId_hex [OF root] by (simp add: reserved_bytes)
  with described_fields [OF d(1)] d obtain actions scope where c: "is_object (getField cap ''res'')"
      "getField cap ''actions'' = CArr actions" "map js_String actions = [''read_structure'']"
      "getField (getField cap ''res'') ''doc_id'' = CStr ''doc''" "parseScope (getField cap ''res'') = Inr scope"
      "bytesToHex (sc_root scope) = ROOT_NODE_ID_HEX" "sc_maxDepth scope = None" "excludes scope = []"
    by (auto simp: excludes_def split: option.splits)
  then have "isDocWideScope scope" by (simp add: isDocWideScope_def)
  with c root have "docWideCap ev ''doc'' cap = Inr True"
    by (simp add: docWideCap_def capAllowsNode_def expandCapabilityActions_def)
  with g show ?thesis by (intro exI [of _ token] exI [of _ g]) simp
qed

lemma no_revocations:
  "au_revocations (initAuth w) = []" "au_revocations ((initAuth w)\<lparr>au_localRevocationsFor := d\<rparr>) = []"
  by (simp_all add: initAuth_def)

theorem authorised_filter_permitted_witness:
  "\<exists>caps g. authorizeFilter demo_cose FilterAll \<lparr>afc_docId = ''doc'', afc_purpose = FPHello, afc_capabilities = caps\<rparr> (initAuth ())
       = (Inr (), initAuth ())
     \<and> presents demo_cose ''doc'' (initAuth ()) caps g
     \<and> permits_any demo_tree ''doc'' (cg_caps g) (replicate 16 2) [''read_structure'']"
proof -
  obtain token g where t: "parseAndVerifyCapabilityToken demo_crypto (tokenOptions demo_cose ''doc'' (initAuth ())) token = Inr g"
      "anyDocWide (evaluatorOf demo_cose (initAuth ())) ''doc'' (cg_caps g) = Inr True"
    using read_token [OF no_revocations(1) [where w = "()"]] by blast
  define caps where "caps = [makeAuthCapability token AUTH_CAPABILITY_NAME]"
  have a: "authorizeFilter demo_cose FilterAll \<lparr>afc_docId = ''doc'', afc_purpose = FPHello, afc_capabilities = caps\<rparr> (initAuth ())
       = (Inr (), initAuth ())"
    using t by (simp add: authorizeFilter_def caps_def makeAuthCapability_def isAuthCapability_def base64url_inverse
        parsePeerCapabilityGrants_def demo_cose_simps filterDecision_def pm_simps Let_def)
  have wf: "wf_tree demo_tree" by (auto simp: wf_tree_def demo_tree_def split: if_splits)
  have ev: "evaluates demo_tree (evaluatorOf demo_cose (initAuth ()))" by (simp add: evaluates_def evaluatorOf_def demo_cose_def)
  from authorised_filter_permitted [OF wf ev a] a show ?thesis by auto
qed

theorem outgoing_ops_permitted_witness:
  "\<exists>caps g. filterOutgoingOps demo_cose [demo_delete]
        \<lparr>foc_docId = ''doc'', foc_purpose = FPHello, foc_filter = FilterAll, foc_capabilities = caps\<rparr> (initAuth ())
       = (Inr [True], initAuth ())
     \<and> presents demo_cose ''doc'' (initAuth ()) caps g
     \<and> permits_any demo_tree ''doc'' (cg_caps g) (replicate 16 0) [''read_structure'']"
proof -
  obtain token g where t: "parseAndVerifyCapabilityToken demo_crypto (tokenOptions demo_cose ''doc'' (initAuth ())) token = Inr g"
      "anyDocWide (evaluatorOf demo_cose (initAuth ())) ''doc'' (cg_caps g) = Inr True"
    using read_token [OF no_revocations(1) [where w = "()"]] by blast
  define caps where "caps = [makeAuthCapability token AUTH_CAPABILITY_NAME]"
  let ?ctx = "\<lparr>foc_docId = ''doc'', foc_purpose = FPHello, foc_filter = FilterAll, foc_capabilities = caps\<rparr>"
  have a: "filterOutgoingOps demo_cose [demo_delete] ?ctx (initAuth ()) = (Inr [True], initAuth ())"
    using t by (simp add: filterOutgoingOps_def caps_def makeAuthCapability_def isAuthCapability_def base64url_inverse
        parsePeerCapabilityGrants_def demo_cose_simps filterDecision_def pm_simps Let_def)
  have wf: "wf_tree demo_tree" by (auto simp: wf_tree_def demo_tree_def split: if_splits)
  have ev: "evaluates demo_tree (evaluatorOf demo_cose (initAuth ()))" by (simp add: evaluates_def evaluatorOf_def demo_cose_def)
  have n: "nodeIdToBytes16 (kindNode (op_kind demo_delete)) = Inr (replicate 16 0)"
    by (simp add: demo_delete_def reserved_bytes nodeIdToBytes16_canonical canonical_bytesToHex)
  have "\<exists>cap \<in> set caps. isAuthCapability cap" by (simp add: caps_def makeAuthCapability_def isAuthCapability_def)
  with outgoing_ops_permitted [OF wf ev a, of 0 "replicate 16 0"] n a show ?thesis by auto
qed

theorem recorded_grants_trusted_witness:
  "\<exists>caps keyHex byToken tokenHex g. auth_reach demo_cose (snd (recordCapabilities demo_cose caps ''doc'' (initAuth ())))
     \<and> js_get (au_grants (snd (recordCapabilities demo_cose caps ''doc'' (initAuth ())))) keyHex = Some byToken
     \<and> (tokenHex, g) \<in> set byToken \<and> tokenHex = bytesToHex (cg_tokenId g)"
proof -
  obtain token g where t: "parseAndVerifyCapabilityToken demo_crypto
      (tokenOptions demo_cose ''doc'' ((initAuth ())\<lparr>au_localRevocationsFor := Some ''doc''\<rparr>)) token = Inr g"
    using read_token [OF no_revocations(2) [where w = "()"]] by blast
  define caps where "caps = [makeAuthCapability token AUTH_REPLAY_CAPABILITY_NAME]"
  let ?t = "snd (recordCapabilities demo_cose caps ''doc'' (initAuth ()))"
  have "au_grants ?t = [(bytesToHex (cg_keyId g), [(bytesToHex (cg_tokenId g), g)])]"
    using t
    by (simp add: recordCapabilities_def ensureCapabilityStoreRecorded_def ensureLocalRevocationsRecorded_def caps_def
        makeAuthCapability_def recordRevocationCap_def recordAuthCap_def recordToken_def isAnyAuthCapability_def
        isReplayAuthCapability_def isAuthCapability_def AUTH_REPLAY_CAPABILITY_NAME_def AUTH_CAPABILITY_NAME_def
        TREECRDT_REVOCATION_CAPABILITY_def demo_cose_simps base64url_inverse rememberReplayAuthCapability_def
        persistTrustedCapability_def addGrant_def initAuth_def Let_def pm_simps whenM_def)
  then have g: "js_get (au_grants ?t) (bytesToHex (cg_keyId g)) = Some [(bytesToHex (cg_tokenId g), g)]" by (simp add: js_get_Cons)
  have "auth_reach demo_cose ?t"
    by (rule auth_reach.remember [OF auth_reach.start]) (rule prod.collapse [symmetric])
  with recorded_grants_trusted [OF this g, of "bytesToHex (cg_tokenId g)" g] g show ?thesis by fastforce
qed

lemma known_authorises:
  "\<exists>sig. authorises demo_cose ''doc'' known_state demo_delete sig known_grant Allow"
proof -
  obtain sig where "signTreecrdtOpV1 demo_crypto ''doc'' demo_delete (replicate 32 7) = Inr sig"
    using demo_delete_signed by blast
  from sign_verify_op [OF demo_crypto_lawful this]
  have "verifyTreecrdtOpV1 demo_crypto ''doc'' demo_delete sig (replicate 32 7) = Inr True" by (simp add: demo_pk_7)
  then show ?thesis
    by (intro exI [of _ sig]) (simp add: authorises_def known_state_def addGrant_def initAuth_def known_grant_def demo_cose_def Let_def
      isGrantRevoked_def isRevokedByStandardPolicy_def revokedHexes_def in_window_def evaluatorOf_def demo_delete_decided
      demo_delete_replica js_get_def)
qed

theorem delegate_survives_proof_revocation_witness:
  "\<exists>sig. authorises demo_cose ''doc'' known_state demo_delete sig known_grant Allow
     \<and> authorises demo_cose ''doc'' (known_state\<lparr>au_revocations :=
          applyRevocationRecord (demo_revocation 2) [] (au_revocations known_state)\<rparr>) demo_delete sig known_grant Allow"
proof -
  obtain sig where a: "authorises demo_cose ''doc'' known_state demo_delete sig known_grant Allow" using known_authorises by blast
  have "hd (cg_tokenId known_grant) = 116"
    by (simp add: known_grant_def deriveTokenIdV1_def demo_crypto_def ascii_bytes_def)
  moreover have "hd (rr_tokenId (demo_revocation 2)) = 5" by (simp add: demo_revocation_def)
  ultimately have "rr_tokenId (demo_revocation 2) \<noteq> cg_tokenId known_grant" by auto
  from delegate_survives_proof_revocation [OF a this] a show ?thesis by blast
qed

end
