(* ===== verification/Key_Store.thy ===== *)
theory Key_Store
  imports Identity
begin

text \<open>
  End-to-end encryption of payloads (\<^verbatim>\<open>packages/treecrdt-crypto/src/e2ee.ts\<close>) and the sealed key
  material a device keeps (\<^verbatim>\<open>keystore.ts\<close>): document key bundles, payload keys, issuer keys and
  local identities, each a CBOR map inside an AES-GCM envelope bound to its document.

  AES-GCM is the platform's (WebCrypto) and \<^verbatim>\<open>getPublicKey\<close> the Ed25519 library's; they are
  parameters.  Random bytes (nonces, secret keys) are arguments of the functions that draw them.
\<close>

section \<open>The cipher and envelopes\<close>

record Cipher =
  aesGcmEncrypt :: "bytes \<Rightarrow> bytes \<Rightarrow> bytes \<Rightarrow> bytes \<Rightarrow> bytes res"
  aesGcmDecrypt :: "bytes \<Rightarrow> bytes \<Rightarrow> bytes \<Rightarrow> bytes \<Rightarrow> bytes res"

text \<open>
  Arguments: key, nonce, text and additional data.  Documented: with a 256-bit key and a 96-bit
  nonce encryption succeeds, and decryption with the same key, nonce and additional data undoes it.
\<close>

definition lawful_cipher :: "Cipher \<Rightarrow> bool" where
  "lawful_cipher ci \<longleftrightarrow> (\<forall>key nonce text aad. length key = 32 \<longrightarrow> length nonce = 12 \<longrightarrow>
     (\<exists>ct. aesGcmEncrypt ci key nonce text aad = Inr ct \<and> aesGcmDecrypt ci key nonce ct aad = Inr text))"

definition docIdGiven :: "string \<Rightarrow> unit res" where
  "docIdGiven docId = guardR (trim_js docId \<noteq> []) ''docId must not be empty''"

definition labelGiven :: "string \<Rightarrow> unit res" where
  "labelGiven label = guardR (trim_js label \<noteq> []) ''replicaLabel must not be empty''"

text \<open>The envelope every sealing function builds and every opening function takes apart.\<close>

definition sealEnvelope :: "Crypto \<Rightarrow> Cipher \<Rightarrow> string \<Rightarrow> bytes \<Rightarrow> bytes \<Rightarrow> bytes \<Rightarrow> bytes \<Rightarrow> bytes res" where
  "sealEnvelope cr ci tag key nonce plaintext aad =
     bindR (aesGcmEncrypt ci key nonce plaintext aad) (\<lambda>ciphertext.
       Inr (cborEncode cr (CMap [(CStr ''v'', CNum 1), (CStr ''t'', CStr tag), (CStr ''alg'', CStr ''A256GCM''),
         (CStr ''nonce'', CBytes nonce), (CStr ''ct'', CBytes ciphertext)])))"

definition openEnvelope :: "Crypto \<Rightarrow> Cipher \<Rightarrow> string \<Rightarrow> bytes \<Rightarrow> bytes \<Rightarrow> bytes \<Rightarrow> bytes res" where
  "openEnvelope cr ci tag key sealed aad =
     bindR (cborDecode cr sealed) (\<lambda>decoded.
     bindR (assertPayloadMap decoded) (\<lambda>m.
     bindR (checkTag m tag) (\<lambda>_.
     bindR (assertString (mapGet m (CStr ''alg''))) (\<lambda>alg.
     bindR (guardR (alg = ''A256GCM'') ''alg unsupported'') (\<lambda>_.
     bindR (assertBytes (mapGet m (CStr ''nonce''))) (\<lambda>n.
     bindR (assertLen 12 n) (\<lambda>nonce.
     bindR (assertBytes (mapGet m (CStr ''ct''))) (\<lambda>ct.
       aesGcmDecrypt ci key nonce ct aad))))))))"

section \<open>Payload encryption\<close>

definition ENCRYPTED_PAYLOAD_V1_TAG :: string where
  "ENCRYPTED_PAYLOAD_V1_TAG = ''treecrdt/payload-encrypted/v1''"

definition payloadAadV1 :: "Crypto \<Rightarrow> string \<Rightarrow> bytes" where
  "payloadAadV1 cr docId = concatBytes [utf8ToBytes cr ENCRYPTED_PAYLOAD_V1_TAG, utf8ToBytes cr docId]"

definition tryDecodeEncryptedPayloadV1 :: "Crypto \<Rightarrow> bytes \<Rightarrow> (bytes \<times> bytes) option" where
  "tryDecodeEncryptedPayloadV1 cr bs = (case cborDecode cr bs of
       Inl _ \<Rightarrow> None
     | Inr decoded \<Rightarrow> (case decoded of
         CMap m \<Rightarrow>
           if mapGet m (CStr ''v'') \<noteq> CNum 1 then None
           else if mapGet m (CStr ''t'') \<noteq> CStr ENCRYPTED_PAYLOAD_V1_TAG then None
           else if mapGet m (CStr ''alg'') \<noteq> CStr ''A256GCM'' then None
           else (case mapGet m (CStr ''nonce'') of
             CBytes nonce \<Rightarrow> if length nonce \<noteq> 12 then None
               else (case mapGet m (CStr ''ct'') of CBytes ct \<Rightarrow> Some (nonce, ct) | _ \<Rightarrow> None)
           | _ \<Rightarrow> None)
       | _ \<Rightarrow> None))"

definition isTreecrdtEncryptedPayloadV1 :: "Crypto \<Rightarrow> bytes \<Rightarrow> bool" where
  "isTreecrdtEncryptedPayloadV1 cr bs = (tryDecodeEncryptedPayloadV1 cr bs \<noteq> None)"

definition encryptTreecrdtPayloadV1 :: "Crypto \<Rightarrow> Cipher \<Rightarrow> bytes \<Rightarrow> string \<Rightarrow> bytes \<Rightarrow> bytes \<Rightarrow> bytes res" where
  "encryptTreecrdtPayloadV1 cr ci nonce docId payloadKey plaintext =
     bindR (docIdGiven docId) (\<lambda>_.
     bindR (assertLen 32 payloadKey) (\<lambda>_.
       sealEnvelope cr ci ENCRYPTED_PAYLOAD_V1_TAG payloadKey nonce plaintext (payloadAadV1 cr docId)))"

definition decryptTreecrdtPayloadV1 :: "Crypto \<Rightarrow> Cipher \<Rightarrow> string \<Rightarrow> bytes \<Rightarrow> bytes \<Rightarrow> bytes res" where
  "decryptTreecrdtPayloadV1 cr ci docId payloadKey ciphertext =
     bindR (docIdGiven docId) (\<lambda>_.
     bindR (assertLen 32 payloadKey) (\<lambda>_.
       openEnvelope cr ci ENCRYPTED_PAYLOAD_V1_TAG payloadKey ciphertext (payloadAadV1 cr docId)))"

definition maybeDecryptTreecrdtPayloadV1 :: "Crypto \<Rightarrow> Cipher \<Rightarrow> string \<Rightarrow> bytes \<Rightarrow> bytes \<Rightarrow> (bytes \<times> bool) res" where
  "maybeDecryptTreecrdtPayloadV1 cr ci docId payloadKey bs = (case tryDecodeEncryptedPayloadV1 cr bs of
       None \<Rightarrow> Inr (bs, False)
     | Some (nonce, ct) \<Rightarrow> bindR (aesGcmDecrypt ci payloadKey nonce ct (payloadAadV1 cr docId)) (\<lambda>plaintext. Inr (plaintext, True)))"

section \<open>Document key bundles\<close>

record TreecrdtDocKeyBundleV1 =
  kb_docId :: string
  kb_issuerSk :: bytes
  kb_issuerPk :: bytes
  kb_replicaSk :: bytes
  kb_replicaPk :: bytes

definition DOC_KEY_BUNDLE_V1_TAG :: string where
  "DOC_KEY_BUNDLE_V1_TAG = ''treecrdt/doc-key-bundle/v1''"

definition SEALED_DOC_KEY_BUNDLE_V1_TAG :: string where
  "SEALED_DOC_KEY_BUNDLE_V1_TAG = ''treecrdt/doc-key-bundle-sealed/v1''"

definition generateTreecrdtDocKeyBundleV1 :: "(bytes \<Rightarrow> bytes) \<Rightarrow> bytes \<Rightarrow> bytes \<Rightarrow> string \<Rightarrow> TreecrdtDocKeyBundleV1 res" where
  "generateTreecrdtDocKeyBundleV1 getPublicKey issuerSk replicaSk docId =
     bindR (docIdGiven docId) (\<lambda>_. Inr \<lparr>kb_docId = docId, kb_issuerSk = issuerSk, kb_issuerPk = getPublicKey issuerSk,
       kb_replicaSk = replicaSk, kb_replicaPk = getPublicKey replicaSk\<rparr>)"

definition encodeDocKeyBundleV1 :: "Crypto \<Rightarrow> TreecrdtDocKeyBundleV1 \<Rightarrow> bytes res" where
  "encodeDocKeyBundleV1 cr bundle =
     bindR (assertLen 32 (kb_issuerSk bundle)) (\<lambda>issuerSk.
     bindR (assertLen 32 (kb_replicaSk bundle)) (\<lambda>replicaSk.
       Inr (cborEncode cr (CMap [(CStr ''v'', CNum 1), (CStr ''t'', CStr DOC_KEY_BUNDLE_V1_TAG), (CStr ''doc_id'', CStr (kb_docId bundle)),
         (CStr ''issuer_sk'', CBytes issuerSk), (CStr ''replica_sk'', CBytes replicaSk)]))))"

definition secretClaim :: "(cval \<times> cval) list \<Rightarrow> string \<Rightarrow> bytes res" where
  "secretClaim m field = bindR (assertBytes (mapGet m (CStr field))) (assertLen 32)"

definition decodeDocKeyBundleV1 :: "Crypto \<Rightarrow> (bytes \<Rightarrow> bytes) \<Rightarrow> bytes \<Rightarrow> TreecrdtDocKeyBundleV1 res" where
  "decodeDocKeyBundleV1 cr getPublicKey bs =
     bindR (cborDecode cr bs) (\<lambda>decoded.
     bindR (assertPayloadMap decoded) (\<lambda>m.
     bindR (checkTag m DOC_KEY_BUNDLE_V1_TAG) (\<lambda>_.
     bindR (assertString (mapGet m (CStr ''doc_id''))) (\<lambda>docId.
     bindR (secretClaim m ''issuer_sk'') (\<lambda>issuerSk.
     bindR (secretClaim m ''replica_sk'') (\<lambda>replicaSk.
       Inr \<lparr>kb_docId = docId, kb_issuerSk = issuerSk, kb_issuerPk = getPublicKey issuerSk,
            kb_replicaSk = replicaSk, kb_replicaPk = getPublicKey replicaSk\<rparr>))))))"

definition sealedAadV1 :: "Crypto \<Rightarrow> string \<Rightarrow> bytes" where
  "sealedAadV1 cr docId = concatBytes [utf8ToBytes cr SEALED_DOC_KEY_BUNDLE_V1_TAG, utf8ToBytes cr docId]"

definition sealTreecrdtDocKeyBundleV1 :: "Crypto \<Rightarrow> Cipher \<Rightarrow> bytes \<Rightarrow> bytes \<Rightarrow> TreecrdtDocKeyBundleV1 \<Rightarrow> bytes res" where
  "sealTreecrdtDocKeyBundleV1 cr ci nonce wrapKey bundle =
     bindR (assertLen 32 wrapKey) (\<lambda>_.
     bindR (guardR (trim_js (kb_docId bundle) \<noteq> []) ''bundle.docId must not be empty'') (\<lambda>_.
     bindR (encodeDocKeyBundleV1 cr bundle) (\<lambda>plaintext.
       sealEnvelope cr ci SEALED_DOC_KEY_BUNDLE_V1_TAG wrapKey nonce plaintext (sealedAadV1 cr (kb_docId bundle)))))"

definition openTreecrdtDocKeyBundleV1 :: "Crypto \<Rightarrow> Cipher \<Rightarrow> (bytes \<Rightarrow> bytes) \<Rightarrow> bytes \<Rightarrow> string \<Rightarrow> bytes \<Rightarrow> TreecrdtDocKeyBundleV1 res" where
  "openTreecrdtDocKeyBundleV1 cr ci getPublicKey wrapKey docId sealed =
     bindR (assertLen 32 wrapKey) (\<lambda>_.
     bindR (docIdGiven docId) (\<lambda>_.
     bindR (openEnvelope cr ci SEALED_DOC_KEY_BUNDLE_V1_TAG wrapKey sealed (sealedAadV1 cr docId)) (\<lambda>plaintext.
     bindR (decodeDocKeyBundleV1 cr getPublicKey plaintext) (\<lambda>bundle.
     bindR (guardR (kb_docId bundle = docId) ''DocKeyBundleV1.doc_id mismatch'') (\<lambda>_. Inr bundle)))))"

section \<open>Payload keys\<close>

record TreecrdtDocPayloadKeyV1 =
  dpk_docId :: string
  dpk_payloadKey :: bytes

definition DOC_PAYLOAD_KEY_V1_TAG :: string where
  "DOC_PAYLOAD_KEY_V1_TAG = ''treecrdt/doc-payload-key/v1''"

definition SEALED_DOC_PAYLOAD_KEY_V1_TAG :: string where
  "SEALED_DOC_PAYLOAD_KEY_V1_TAG = ''treecrdt/doc-payload-key-sealed/v1''"

definition generateTreecrdtDocPayloadKeyV1 :: "bytes \<Rightarrow> string \<Rightarrow> TreecrdtDocPayloadKeyV1 res" where
  "generateTreecrdtDocPayloadKeyV1 random docId =
     bindR (docIdGiven docId) (\<lambda>_. Inr \<lparr>dpk_docId = docId, dpk_payloadKey = random\<rparr>)"

definition sealedDocPayloadAadV1 :: "Crypto \<Rightarrow> string \<Rightarrow> bytes" where
  "sealedDocPayloadAadV1 cr docId = concatBytes [utf8ToBytes cr SEALED_DOC_PAYLOAD_KEY_V1_TAG, utf8ToBytes cr docId]"

definition sealTreecrdtDocPayloadKeyV1 :: "Crypto \<Rightarrow> Cipher \<Rightarrow> bytes \<Rightarrow> bytes \<Rightarrow> string \<Rightarrow> bytes \<Rightarrow> bytes res" where
  "sealTreecrdtDocPayloadKeyV1 cr ci nonce wrapKey docId payloadKey =
     bindR (assertLen 32 wrapKey) (\<lambda>_.
     bindR (docIdGiven docId) (\<lambda>_.
     bindR (assertLen 32 payloadKey) (\<lambda>_.
       sealEnvelope cr ci SEALED_DOC_PAYLOAD_KEY_V1_TAG wrapKey nonce
         (cborEncode cr (CMap [(CStr ''v'', CNum 1), (CStr ''t'', CStr DOC_PAYLOAD_KEY_V1_TAG), (CStr ''doc_id'', CStr docId),
           (CStr ''payload_key'', CBytes payloadKey)])) (sealedDocPayloadAadV1 cr docId))))"

definition openTreecrdtDocPayloadKeyV1 :: "Crypto \<Rightarrow> Cipher \<Rightarrow> bytes \<Rightarrow> string \<Rightarrow> bytes \<Rightarrow> TreecrdtDocPayloadKeyV1 res" where
  "openTreecrdtDocPayloadKeyV1 cr ci wrapKey docId sealed =
     bindR (assertLen 32 wrapKey) (\<lambda>_.
     bindR (docIdGiven docId) (\<lambda>_.
     bindR (openEnvelope cr ci SEALED_DOC_PAYLOAD_KEY_V1_TAG wrapKey sealed (sealedDocPayloadAadV1 cr docId)) (\<lambda>plaintext.
     bindR (cborDecode cr plaintext) (\<lambda>opened.
     bindR (assertPayloadMap opened) (\<lambda>claims.
     bindR (checkTag claims DOC_PAYLOAD_KEY_V1_TAG) (\<lambda>_.
     bindR (assertString (mapGet claims (CStr ''doc_id''))) (\<lambda>doc.
     bindR (secretClaim claims ''payload_key'') (\<lambda>payloadKey.
     bindR (guardR (doc = docId) ''DocPayloadKeyV1.doc_id mismatch'') (\<lambda>_.
       Inr \<lparr>dpk_docId = doc, dpk_payloadKey = payloadKey\<rparr>)))))))))"

section \<open>Issuer keys\<close>

record TreecrdtIssuerKeyV1 =
  ik_docId :: string
  ik_issuerSk :: bytes
  ik_issuerPk :: bytes

definition ISSUER_KEY_V1_TAG :: string where
  "ISSUER_KEY_V1_TAG = ''treecrdt/issuer-key/v1''"

definition SEALED_ISSUER_KEY_V1_TAG :: string where
  "SEALED_ISSUER_KEY_V1_TAG = ''treecrdt/issuer-key-sealed/v1''"

definition generateTreecrdtIssuerKeyV1 :: "(bytes \<Rightarrow> bytes) \<Rightarrow> bytes \<Rightarrow> string \<Rightarrow> TreecrdtIssuerKeyV1 res" where
  "generateTreecrdtIssuerKeyV1 getPublicKey issuerSk docId =
     bindR (docIdGiven docId) (\<lambda>_. Inr \<lparr>ik_docId = docId, ik_issuerSk = issuerSk, ik_issuerPk = getPublicKey issuerSk\<rparr>)"

definition encodeIssuerKeyV1 :: "Crypto \<Rightarrow> string \<Rightarrow> bytes \<Rightarrow> bytes res" where
  "encodeIssuerKeyV1 cr docId issuerSk =
     bindR (assertLen 32 issuerSk) (\<lambda>_.
     bindR (docIdGiven docId) (\<lambda>_.
       Inr (cborEncode cr (CMap [(CStr ''v'', CNum 1), (CStr ''t'', CStr ISSUER_KEY_V1_TAG), (CStr ''doc_id'', CStr docId),
         (CStr ''issuer_sk'', CBytes issuerSk)]))))"

definition decodeIssuerKeyV1 :: "Crypto \<Rightarrow> (bytes \<Rightarrow> bytes) \<Rightarrow> bytes \<Rightarrow> TreecrdtIssuerKeyV1 res" where
  "decodeIssuerKeyV1 cr getPublicKey bs =
     bindR (cborDecode cr bs) (\<lambda>decoded.
     bindR (assertPayloadMap decoded) (\<lambda>m.
     bindR (checkTag m ISSUER_KEY_V1_TAG) (\<lambda>_.
     bindR (assertString (mapGet m (CStr ''doc_id''))) (\<lambda>docId.
     bindR (secretClaim m ''issuer_sk'') (\<lambda>issuerSk.
       Inr \<lparr>ik_docId = docId, ik_issuerSk = issuerSk, ik_issuerPk = getPublicKey issuerSk\<rparr>)))))"

definition sealedIssuerAadV1 :: "Crypto \<Rightarrow> string \<Rightarrow> bytes" where
  "sealedIssuerAadV1 cr docId = concatBytes [utf8ToBytes cr SEALED_ISSUER_KEY_V1_TAG, utf8ToBytes cr docId]"

definition sealTreecrdtIssuerKeyV1 :: "Crypto \<Rightarrow> Cipher \<Rightarrow> bytes \<Rightarrow> bytes \<Rightarrow> string \<Rightarrow> bytes \<Rightarrow> bytes res" where
  "sealTreecrdtIssuerKeyV1 cr ci nonce wrapKey docId issuerSk =
     bindR (assertLen 32 wrapKey) (\<lambda>_.
     bindR (docIdGiven docId) (\<lambda>_.
     bindR (encodeIssuerKeyV1 cr docId issuerSk) (\<lambda>plaintext.
       sealEnvelope cr ci SEALED_ISSUER_KEY_V1_TAG wrapKey nonce plaintext (sealedIssuerAadV1 cr docId))))"

definition openTreecrdtIssuerKeyV1 :: "Crypto \<Rightarrow> Cipher \<Rightarrow> (bytes \<Rightarrow> bytes) \<Rightarrow> bytes \<Rightarrow> string \<Rightarrow> bytes \<Rightarrow> TreecrdtIssuerKeyV1 res" where
  "openTreecrdtIssuerKeyV1 cr ci getPublicKey wrapKey docId sealed =
     bindR (assertLen 32 wrapKey) (\<lambda>_.
     bindR (docIdGiven docId) (\<lambda>_.
     bindR (openEnvelope cr ci SEALED_ISSUER_KEY_V1_TAG wrapKey sealed (sealedIssuerAadV1 cr docId)) (\<lambda>plaintext.
     bindR (decodeIssuerKeyV1 cr getPublicKey plaintext) (\<lambda>key.
     bindR (guardR (ik_docId key = docId) ''IssuerKeyV1.doc_id mismatch'') (\<lambda>_. Inr key)))))"

section \<open>Local identities\<close>

record TreecrdtLocalIdentityV1 =
  li_docId :: string
  li_replicaLabel :: string
  li_localSk :: bytes
  li_localPk :: bytes
  li_localTokens :: "bytes list"

definition LOCAL_IDENTITY_V1_TAG :: string where
  "LOCAL_IDENTITY_V1_TAG = ''treecrdt/local-identity/v1''"

definition SEALED_LOCAL_IDENTITY_V1_TAG :: string where
  "SEALED_LOCAL_IDENTITY_V1_TAG = ''treecrdt/local-identity-sealed/v1''"

definition generateTreecrdtLocalIdentityV1 :: "(bytes \<Rightarrow> bytes) \<Rightarrow> bytes \<Rightarrow> string \<Rightarrow> string \<Rightarrow> bytes list option \<Rightarrow> TreecrdtLocalIdentityV1 res" where
  "generateTreecrdtLocalIdentityV1 getPublicKey localSk docId replicaLabel localTokens =
     bindR (docIdGiven docId) (\<lambda>_.
     bindR (labelGiven replicaLabel) (\<lambda>_.
       Inr \<lparr>li_docId = docId, li_replicaLabel = replicaLabel, li_localSk = localSk, li_localPk = getPublicKey localSk,
            li_localTokens = (case localTokens of None \<Rightarrow> [] | Some ts \<Rightarrow> ts)\<rparr>))"

definition encodeLocalIdentityV1 :: "Crypto \<Rightarrow> string \<Rightarrow> string \<Rightarrow> bytes \<Rightarrow> bytes list \<Rightarrow> bytes res" where
  "encodeLocalIdentityV1 cr docId replicaLabel localSk localTokens =
     bindR (assertLen 32 localSk) (\<lambda>_.
     bindR (labelGiven replicaLabel) (\<lambda>_.
       Inr (cborEncode cr (CMap [(CStr ''v'', CNum 1), (CStr ''t'', CStr LOCAL_IDENTITY_V1_TAG), (CStr ''doc_id'', CStr docId),
         (CStr ''replica_label'', CStr replicaLabel), (CStr ''local_sk'', CBytes localSk),
         (CStr ''local_tokens'', CArr (map CBytes localTokens))]))))"

definition decodeLocalIdentityV1 :: "Crypto \<Rightarrow> (bytes \<Rightarrow> bytes) \<Rightarrow> bytes \<Rightarrow> TreecrdtLocalIdentityV1 res" where
  "decodeLocalIdentityV1 cr getPublicKey bs =
     bindR (cborDecode cr bs) (\<lambda>decoded.
     bindR (assertPayloadMap decoded) (\<lambda>m.
     bindR (checkTag m LOCAL_IDENTITY_V1_TAG) (\<lambda>_.
     bindR (assertString (mapGet m (CStr ''doc_id''))) (\<lambda>docId.
     bindR (assertString (mapGet m (CStr ''replica_label''))) (\<lambda>replicaLabel.
     bindR (secretClaim m ''local_sk'') (\<lambda>localSk.
     let localTokensRaw = mapGet m (CStr ''local_tokens'') in
     bindR (if nullish localTokensRaw then Inr []
            else case localTokensRaw of CArr vs \<Rightarrow> mapR assertBytes vs
              | _ \<Rightarrow> Inl ''LocalIdentityV1.local_tokens must be an array'') (\<lambda>localTokens.
       Inr \<lparr>li_docId = docId, li_replicaLabel = replicaLabel, li_localSk = localSk, li_localPk = getPublicKey localSk,
            li_localTokens = localTokens\<rparr>)))))))"

definition sealedLocalIdentityAadV1 :: "Crypto \<Rightarrow> string \<Rightarrow> string \<Rightarrow> bytes" where
  "sealedLocalIdentityAadV1 cr docId replicaLabel =
     concatBytes [concatBytes [concatBytes [utf8ToBytes cr SEALED_LOCAL_IDENTITY_V1_TAG, utf8ToBytes cr docId], [0]],
       utf8ToBytes cr replicaLabel]"

definition sealTreecrdtLocalIdentityV1 ::
    "Crypto \<Rightarrow> Cipher \<Rightarrow> bytes \<Rightarrow> bytes \<Rightarrow> string \<Rightarrow> string \<Rightarrow> bytes \<Rightarrow> bytes list \<Rightarrow> bytes res" where
  "sealTreecrdtLocalIdentityV1 cr ci nonce wrapKey docId replicaLabel localSk localTokens =
     bindR (assertLen 32 wrapKey) (\<lambda>_.
     bindR (docIdGiven docId) (\<lambda>_.
     bindR (labelGiven replicaLabel) (\<lambda>_.
     bindR (encodeLocalIdentityV1 cr docId replicaLabel localSk localTokens) (\<lambda>plaintext.
       sealEnvelope cr ci SEALED_LOCAL_IDENTITY_V1_TAG wrapKey nonce plaintext (sealedLocalIdentityAadV1 cr docId replicaLabel)))))"

definition openTreecrdtLocalIdentityV1 ::
    "Crypto \<Rightarrow> Cipher \<Rightarrow> (bytes \<Rightarrow> bytes) \<Rightarrow> bytes \<Rightarrow> string \<Rightarrow> string \<Rightarrow> bytes \<Rightarrow> TreecrdtLocalIdentityV1 res" where
  "openTreecrdtLocalIdentityV1 cr ci getPublicKey wrapKey docId replicaLabel sealed =
     bindR (assertLen 32 wrapKey) (\<lambda>_.
     bindR (docIdGiven docId) (\<lambda>_.
     bindR (labelGiven replicaLabel) (\<lambda>_.
     bindR (openEnvelope cr ci SEALED_LOCAL_IDENTITY_V1_TAG wrapKey sealed (sealedLocalIdentityAadV1 cr docId replicaLabel)) (\<lambda>plaintext.
     bindR (decodeLocalIdentityV1 cr getPublicKey plaintext) (\<lambda>ident.
     bindR (guardR (li_docId ident = docId) ''LocalIdentityV1.doc_id mismatch'') (\<lambda>_.
     bindR (guardR (li_replicaLabel ident = replicaLabel) ''LocalIdentityV1.replica_label mismatch'') (\<lambda>_. Inr ident)))))))"

section \<open>Round trips\<close>

lemmas key_claims = checkTag_def assertString_def assertBytes_def assertPayloadMap_def assertLen_def secretClaim_def
  mapGet_def js_get_Cons guardR_def

lemma envelope_sealed:
  assumes "lawful_crypto cr pk" "lawful_cipher ci" "length key = 32" "length nonce = 12"
    "sealEnvelope cr ci tag key nonce plaintext aad = Inr sealed"
  shows "openEnvelope cr ci tag key sealed aad = Inr plaintext"
proof -
  obtain ct where ct: "aesGcmEncrypt ci key nonce plaintext aad = Inr ct" "aesGcmDecrypt ci key nonce ct aad = Inr plaintext"
    using assms(2-4) unfolding lawful_cipher_def by blast
  with assms(5) have "sealed = cborEncode cr (CMap [(CStr ''v'', CNum 1), (CStr ''t'', CStr tag), (CStr ''alg'', CStr ''A256GCM''),
         (CStr ''nonce'', CBytes nonce), (CStr ''ct'', CBytes ct)])" by (simp add: sealEnvelope_def)
  then show ?thesis using ct(2) assms(4) by (simp add: openEnvelope_def lawful_simps [OF assms(1)] key_claims)
qed

lemma envelope_seals:
  assumes "lawful_cipher ci" "length key = 32" "length nonce = 12"
  shows "\<exists>sealed. sealEnvelope cr ci tag key nonce plaintext aad = Inr sealed"
proof -
  obtain ct where "aesGcmEncrypt ci key nonce plaintext aad = Inr ct" using assms unfolding lawful_cipher_def by blast
  then show ?thesis by (simp add: sealEnvelope_def)
qed

lemma assertLen_Inr: "assertLen n b = Inr c \<longleftrightarrow> c = b \<and> length b = n"
  by (auto simp: assertLen_def)

lemma bundle_roundtrip:
  assumes "lawful_crypto cr pk" "lawful_cipher ci" "length nonce = 12" "sealTreecrdtDocKeyBundleV1 cr ci nonce wrapKey bundle = Inr sealed"
    "kb_issuerPk bundle = getPk (kb_issuerSk bundle)" "kb_replicaPk bundle = getPk (kb_replicaSk bundle)"
  shows "openTreecrdtDocKeyBundleV1 cr ci getPk wrapKey (kb_docId bundle) sealed = Inr bundle"
proof -
  obtain pt where p: "length wrapKey = 32" "trim_js (kb_docId bundle) \<noteq> []" "encodeDocKeyBundleV1 cr bundle = Inr pt"
      "sealEnvelope cr ci SEALED_DOC_KEY_BUNDLE_V1_TAG wrapKey nonce pt (sealedAadV1 cr (kb_docId bundle)) = Inr sealed"
    using assms(4) by (auto simp: sealTreecrdtDocKeyBundleV1_def bindR_eq_Inr assertLen_Inr)
  then have pt: "length (kb_issuerSk bundle) = 32" "length (kb_replicaSk bundle) = 32"
      "pt = cborEncode cr (CMap [(CStr ''v'', CNum 1), (CStr ''t'', CStr DOC_KEY_BUNDLE_V1_TAG), (CStr ''doc_id'', CStr (kb_docId bundle)),
         (CStr ''issuer_sk'', CBytes (kb_issuerSk bundle)), (CStr ''replica_sk'', CBytes (kb_replicaSk bundle))])"
    by (auto simp: encodeDocKeyBundleV1_def bindR_eq_Inr assertLen_Inr)
  then have "decodeDocKeyBundleV1 cr getPk pt = Inr bundle"
    using assms(5,6) by (simp add: decodeDocKeyBundleV1_def lawful_simps [OF assms(1)] key_claims)
  with envelope_sealed [OF assms(1,2) p(1) assms(3) p(4)] p(1,2) show ?thesis
    by (simp add: openTreecrdtDocKeyBundleV1_def docIdGiven_def guardR_def assertLen_def)
qed

lemma payloadKey_roundtrip:
  assumes "lawful_crypto cr pk" "lawful_cipher ci" "length nonce = 12"
    "sealTreecrdtDocPayloadKeyV1 cr ci nonce wrapKey docId payloadKey = Inr sealed"
  shows "openTreecrdtDocPayloadKeyV1 cr ci wrapKey docId sealed = Inr \<lparr>dpk_docId = docId, dpk_payloadKey = payloadKey\<rparr>"
proof -
  obtain pt where p: "length wrapKey = 32" "docIdGiven docId = Inr ()" "length payloadKey = 32"
      "pt = cborEncode cr (CMap [(CStr ''v'', CNum 1), (CStr ''t'', CStr DOC_PAYLOAD_KEY_V1_TAG), (CStr ''doc_id'', CStr docId),
           (CStr ''payload_key'', CBytes payloadKey)])"
      "sealEnvelope cr ci SEALED_DOC_PAYLOAD_KEY_V1_TAG wrapKey nonce pt (sealedDocPayloadAadV1 cr docId) = Inr sealed"
    using assms(4) by (auto simp: sealTreecrdtDocPayloadKeyV1_def bindR_eq_Inr assertLen_Inr)
  from envelope_sealed [OF assms(1,2) p(1) assms(3) p(5)] p(1-4) show ?thesis
    by (simp add: openTreecrdtDocPayloadKeyV1_def lawful_simps [OF assms(1)] key_claims)
qed

lemma issuerKey_roundtrip:
  assumes "lawful_crypto cr pk" "lawful_cipher ci" "length nonce = 12" "sealTreecrdtIssuerKeyV1 cr ci nonce wrapKey docId sk = Inr sealed"
  shows "openTreecrdtIssuerKeyV1 cr ci getPk wrapKey docId sealed = Inr \<lparr>ik_docId = docId, ik_issuerSk = sk, ik_issuerPk = getPk sk\<rparr>"
proof -
  obtain pt where p: "length wrapKey = 32" "docIdGiven docId = Inr ()" "encodeIssuerKeyV1 cr docId sk = Inr pt"
      "sealEnvelope cr ci SEALED_ISSUER_KEY_V1_TAG wrapKey nonce pt (sealedIssuerAadV1 cr docId) = Inr sealed"
    using assms(4) by (auto simp: sealTreecrdtIssuerKeyV1_def bindR_eq_Inr assertLen_Inr)
  then have pt: "length sk = 32"
      "pt = cborEncode cr (CMap [(CStr ''v'', CNum 1), (CStr ''t'', CStr ISSUER_KEY_V1_TAG), (CStr ''doc_id'', CStr docId),
         (CStr ''issuer_sk'', CBytes sk)])"
    by (auto simp: encodeIssuerKeyV1_def bindR_eq_Inr assertLen_Inr)
  then have "decodeIssuerKeyV1 cr getPk pt = Inr \<lparr>ik_docId = docId, ik_issuerSk = sk, ik_issuerPk = getPk sk\<rparr>"
    by (simp add: decodeIssuerKeyV1_def lawful_simps [OF assms(1)] key_claims)
  with envelope_sealed [OF assms(1,2) p(1) assms(3) p(4)] p(1,2) show ?thesis
    by (simp add: openTreecrdtIssuerKeyV1_def guardR_def assertLen_def)
qed

lemma localIdentity_roundtrip:
  assumes "lawful_crypto cr pk" "lawful_cipher ci" "length nonce = 12"
    "sealTreecrdtLocalIdentityV1 cr ci nonce wrapKey docId label sk tokens = Inr sealed"
  shows "openTreecrdtLocalIdentityV1 cr ci getPk wrapKey docId label sealed
    = Inr \<lparr>li_docId = docId, li_replicaLabel = label, li_localSk = sk, li_localPk = getPk sk, li_localTokens = tokens\<rparr>"
proof -
  obtain pt where p: "length wrapKey = 32" "docIdGiven docId = Inr ()" "labelGiven label = Inr ()"
      "encodeLocalIdentityV1 cr docId label sk tokens = Inr pt"
      "sealEnvelope cr ci SEALED_LOCAL_IDENTITY_V1_TAG wrapKey nonce pt (sealedLocalIdentityAadV1 cr docId label) = Inr sealed"
    using assms(4) by (auto simp: sealTreecrdtLocalIdentityV1_def bindR_eq_Inr assertLen_Inr)
  have t: "mapR assertBytes (map CBytes tokens) = Inr tokens" by (induction tokens) (simp_all add: assertBytes_def)
  from p(4) have pt: "length sk = 32"
      "pt = cborEncode cr (CMap [(CStr ''v'', CNum 1), (CStr ''t'', CStr LOCAL_IDENTITY_V1_TAG), (CStr ''doc_id'', CStr docId),
         (CStr ''replica_label'', CStr label), (CStr ''local_sk'', CBytes sk), (CStr ''local_tokens'', CArr (map CBytes tokens))])"
    by (auto simp: encodeLocalIdentityV1_def bindR_eq_Inr assertLen_Inr)
  then have "decodeLocalIdentityV1 cr getPk pt
      = Inr \<lparr>li_docId = docId, li_replicaLabel = label, li_localSk = sk, li_localPk = getPk sk, li_localTokens = tokens\<rparr>"
    using t by (simp add: decodeLocalIdentityV1_def lawful_simps [OF assms(1)] key_claims Let_def)
  with envelope_sealed [OF assms(1,2) p(1) assms(3) p(5)] p(1-3) show ?thesis
    by (simp add: openTreecrdtLocalIdentityV1_def guardR_def assertLen_def)
qed

text \<open>A cipher that satisfies the laws: the ciphertext is the text.\<close>

definition demo_cipher :: Cipher where
  "demo_cipher = \<lparr>aesGcmEncrypt = (\<lambda>key nonce text aad. Inr (key @ nonce @ aad @ text)),
     aesGcmDecrypt = (\<lambda>key nonce ct aad. if take (length (key @ nonce @ aad)) ct = key @ nonce @ aad
       then Inr (drop (length (key @ nonce @ aad)) ct) else Inl ''OperationError'')\<rparr>"

lemma demo_cipher_lawful: "lawful_cipher demo_cipher"
  by (simp add: lawful_cipher_def demo_cipher_def)

section \<open>Properties\<close>

text \<open>
  An encrypted payload is recognised as one and decrypts to the plaintext under the same
  document id and key; bytes that are no envelope pass through as plaintext.
\<close>
theorem encrypted_payload_roundtrip:
  assumes "lawful_crypto cr pk" and "lawful_cipher ci" and "length nonce = 12"
    and "encryptTreecrdtPayloadV1 cr ci nonce docId payloadKey plaintext = Inr ct"
  shows "decryptTreecrdtPayloadV1 cr ci docId payloadKey ct = Inr plaintext
    \<and> maybeDecryptTreecrdtPayloadV1 cr ci docId payloadKey ct = Inr (plaintext, True)
    \<and> isTreecrdtEncryptedPayloadV1 cr ct
    \<and> (\<forall>bs. \<not> isTreecrdtEncryptedPayloadV1 cr bs \<longrightarrow> maybeDecryptTreecrdtPayloadV1 cr ci docId payloadKey bs = Inr (bs, False))"
proof -
  have c: "docIdGiven docId = Inr ()" "length payloadKey = 32"
      "sealEnvelope cr ci ENCRYPTED_PAYLOAD_V1_TAG payloadKey nonce plaintext (payloadAadV1 cr docId) = Inr ct"
    using assms(4) by (auto simp: encryptTreecrdtPayloadV1_def bindR_eq_Inr assertLen_Inr)
  from envelope_sealed [OF assms(1,2) c(2) assms(3) c(3)] c(1,2)
  have 1: "decryptTreecrdtPayloadV1 cr ci docId payloadKey ct = Inr plaintext" by (simp add: decryptTreecrdtPayloadV1_def assertLen_def)
  obtain x where x: "aesGcmEncrypt ci payloadKey nonce plaintext (payloadAadV1 cr docId) = Inr x"
      "aesGcmDecrypt ci payloadKey nonce x (payloadAadV1 cr docId) = Inr plaintext"
    using assms(2,3) c(2) unfolding lawful_cipher_def by blast
  with c(3) have "tryDecodeEncryptedPayloadV1 cr ct = Some (nonce, x)"
    using assms(3) by (auto simp: sealEnvelope_def tryDecodeEncryptedPayloadV1_def lawful_simps [OF assms(1)] mapGet_def js_get_Cons)
  with 1 x show ?thesis
    by (auto simp: maybeDecryptTreecrdtPayloadV1_def isTreecrdtEncryptedPayloadV1_def split: option.splits)
qed


lemma docIdGiven_doc: "docIdGiven ''doc'' = Inr ()" "labelGiven ''doc'' = Inr ()"
  by (simp_all add: docIdGiven_def labelGiven_def guardR_def trim_js_def is_ws_def)

theorem encrypted_payload_roundtrip_witness:
  "\<exists>ct. encryptTreecrdtPayloadV1 demo_crypto demo_cipher (replicate 12 3) ''doc'' (replicate 32 4) [1, 2] = Inr ct
     \<and> decryptTreecrdtPayloadV1 demo_crypto demo_cipher ''doc'' (replicate 32 4) ct = Inr [1, 2]"
proof -
  obtain ct where "encryptTreecrdtPayloadV1 demo_crypto demo_cipher (replicate 12 3) ''doc'' (replicate 32 4) [1, 2] = Inr ct"
    using envelope_seals [OF demo_cipher_lawful, of "replicate 32 4" "replicate 12 3" demo_crypto ENCRYPTED_PAYLOAD_V1_TAG "[1, 2]"
      "payloadAadV1 demo_crypto ''doc''"]
    by (auto simp: encryptTreecrdtPayloadV1_def docIdGiven_doc assertLen_def)
  with encrypted_payload_roundtrip [OF demo_crypto_lawful demo_cipher_lawful _ this] show ?thesis by simp
qed


end
