(* ===== verification/Material_Store.thy ===== *)
theory Material_Store
  imports Cose_Auth Protobuf "HOL-Library.Multiset"
begin

text \<open>
  The stores for ops that wait for context, for the auth of ops and for capabilities:
  \<^verbatim>\<open>packages/sync/material/sqlite/src/proof-material/sqlite.ts\<close> over the interfaces of
  \<^verbatim>\<open>packages/sync/protocol/src/proof-material/types.ts\<close>.

  SQLite is a parameter, \<open>SqliteRunner\<close>.  The statements the source sends are data, and
  \<open>queryMeans\<close> gives their meaning on the three tables of the schema; \<open>lawful_sqlite\<close> says that
  the engine runs statements by that meaning, that any statement may fail, and that a failure
  leaves the tables as they were or rolls the open transaction back.  Of the order in which rows
  come only \<^verbatim>\<open>created_at_ms\<close> is used.
\<close>

section \<open>Tables and statements\<close>

record PendingRow =
  pr_docId :: string
  pr_opRef :: bytes
  pr_op :: bytes
  pr_sig :: bytes
  pr_proofRef :: "bytes option"
  pr_reason :: string
  pr_message :: "string option"
  pr_createdAtMs :: int

record OpAuthRow =
  ar_docId :: string
  ar_opRef :: bytes
  ar_sig :: bytes
  ar_proofRef :: "bytes option"
  ar_createdAtMs :: int

record CapabilityRow =
  cr_docId :: string
  cr_name :: string
  cr_value :: string
  cr_createdAtMs :: int

text \<open>A table is \<open>None\<close> until \<^verbatim>\<open>CREATE TABLE IF NOT EXISTS\<close> has run.\<close>

record Tables =
  t_pending :: "PendingRow list option"
  t_opAuth :: "OpAuthRow list option"
  t_capability :: "CapabilityRow list option"

datatype SqlExec = BEGIN_TX | COMMIT_TX | ROLLBACK_TX | PENDING_SCHEMA_SQL | OP_AUTH_SCHEMA_SQL
  | CAPABILITY_MATERIAL_SCHEMA_SQL

datatype SqlQuery =
    InsertPending PendingRow
  | ListPending string
  | ListPendingRefs string
  | DeletePending string bytes
  | InsertOpAuth OpAuthRow
  | SelectOpAuth string "bytes list"
  | InsertCapability CapabilityRow
  | ListCapabilities string

text \<open>The parsed JSON texts the queries return; SQL \<^verbatim>\<open>hex\<close> writes upper-case digits.\<close>

record PendingJson =
  pj_op_hex :: string
  pj_sig_hex :: string
  pj_proof_ref_hex :: "string option"
  pj_reason :: string
  pj_message :: "string option"

record OpAuthJson =
  aj_op_ref_hex :: string
  aj_sig_hex :: string
  aj_proof_ref_hex :: "string option"

datatype SqlText = TextOne | TextPending "PendingJson list" | TextRefs "string list" | TextOpAuth "OpAuthJson list"
  | TextCapabilities "Capability list"

definition to_upper :: "char \<Rightarrow> char" where
  "to_upper c = (if 97 \<le> (of_char c :: nat) \<and> (of_char c :: nat) \<le> 122 then char_of (of_char c - 32 :: nat) else c)"

definition sqlHex :: "bytes \<Rightarrow> string" where
  "sqlHex bs = map to_upper (bytesToHex bs)"

definition pendingJson :: "PendingRow \<Rightarrow> PendingJson" where
  "pendingJson r = \<lparr>pj_op_hex = sqlHex (pr_op r), pj_sig_hex = sqlHex (pr_sig r), pj_proof_ref_hex = map_option sqlHex (pr_proofRef r),
     pj_reason = pr_reason r, pj_message = pr_message r\<rparr>"

definition opAuthJson :: "OpAuthRow \<Rightarrow> OpAuthJson" where
  "opAuthJson r = \<lparr>aj_op_ref_hex = sqlHex (ar_opRef r), aj_sig_hex = sqlHex (ar_sig r), aj_proof_ref_hex = map_option sqlHex (ar_proofRef r)\<rparr>"

text \<open>\<^verbatim>\<open>INSERT OR REPLACE\<close>: a row with the same primary key goes.\<close>

definition replaceRow :: "('r \<Rightarrow> 'k) \<Rightarrow> 'r \<Rightarrow> 'r list \<Rightarrow> 'r list" where
  "replaceRow key r rows = filter (\<lambda>x. key x \<noteq> key r) rows @ [r]"

definition pendingKey :: "PendingRow \<Rightarrow> string \<times> bytes" where
  "pendingKey r = (pr_docId r, pr_opRef r)"

definition opAuthKey :: "OpAuthRow \<Rightarrow> string \<times> bytes" where
  "opAuthKey r = (ar_docId r, ar_opRef r)"

definition capabilityKey :: "CapabilityRow \<Rightarrow> string \<times> string \<times> string" where
  "capabilityKey r = (cr_docId r, cr_name r, cr_value r)"

text \<open>
  The rows a \<^verbatim>\<open>SELECT\<close> may return for a condition: the matching rows in some order, sorted when
  there is an \<^verbatim>\<open>ORDER BY\<close>.
\<close>

definition selects :: "('r \<Rightarrow> bool) \<Rightarrow> 'r list \<Rightarrow> 'r list \<Rightarrow> bool" where
  "selects P rows out \<longleftrightarrow> mset out = mset (filter P rows)"

fun execMeans :: "SqlExec \<Rightarrow> Tables \<Rightarrow> Tables" where
  "execMeans PENDING_SCHEMA_SQL t = t\<lparr>t_pending := Some (case t_pending t of None \<Rightarrow> [] | Some rows \<Rightarrow> rows)\<rparr>"
| "execMeans OP_AUTH_SCHEMA_SQL t = t\<lparr>t_opAuth := Some (case t_opAuth t of None \<Rightarrow> [] | Some rows \<Rightarrow> rows)\<rparr>"
| "execMeans CAPABILITY_MATERIAL_SCHEMA_SQL t = t\<lparr>t_capability := Some (case t_capability t of None \<Rightarrow> [] | Some rows \<Rightarrow> rows)\<rparr>"
| "execMeans _ t = t"

fun queryMeans :: "SqlQuery \<Rightarrow> Tables \<Rightarrow> SqlText option \<Rightarrow> Tables \<Rightarrow> bool" where
  "queryMeans (InsertPending r) t res t' \<longleftrightarrow>
     (\<exists>rows. t_pending t = Some rows \<and> t' = t\<lparr>t_pending := Some (replaceRow pendingKey r rows)\<rparr>)"
| "queryMeans (ListPending docId) t res t' \<longleftrightarrow> t' = t \<and> (\<exists>rows out. t_pending t = Some rows
     \<and> selects (\<lambda>r. pr_docId r = docId) rows out \<and> sorted (map pr_createdAtMs out) \<and> res = Some (TextPending (map pendingJson out)))"
| "queryMeans (ListPendingRefs docId) t res t' \<longleftrightarrow> t' = t \<and> (\<exists>rows out. t_pending t = Some rows
     \<and> selects (\<lambda>r. pr_docId r = docId) rows out \<and> res = Some (TextRefs (map (\<lambda>r. sqlHex (pr_opRef r)) out)))"
| "queryMeans (DeletePending docId opRef) t res t' \<longleftrightarrow>
     (\<exists>rows. t_pending t = Some rows \<and> t' = t\<lparr>t_pending := Some (filter (\<lambda>r. pendingKey r \<noteq> (docId, opRef)) rows)\<rparr>)"
| "queryMeans (InsertOpAuth r) t res t' \<longleftrightarrow>
     (\<exists>rows. t_opAuth t = Some rows \<and> t' = t\<lparr>t_opAuth := Some (replaceRow opAuthKey r rows)\<rparr>)"
| "queryMeans (SelectOpAuth docId refs) t res t' \<longleftrightarrow> t' = t \<and> (\<exists>rows out. t_opAuth t = Some rows
     \<and> selects (\<lambda>r. ar_docId r = docId \<and> ar_opRef r \<in> set refs) rows out \<and> res = Some (TextOpAuth (map opAuthJson out)))"
| "queryMeans (InsertCapability r) t res t' \<longleftrightarrow>
     (\<exists>rows. t_capability t = Some rows \<and> t' = t\<lparr>t_capability := Some (replaceRow capabilityKey r rows)\<rparr>)"
| "queryMeans (ListCapabilities docId) t res t' \<longleftrightarrow> t' = t \<and> (\<exists>rows out. t_capability t = Some rows
     \<and> selects (\<lambda>r. cr_docId r = docId) rows out \<and> sorted (map cr_createdAtMs out)
     \<and> res = Some (TextCapabilities (map (\<lambda>r. \<lparr>cap_name = cr_name r, cap_value = cr_value r\<rparr>) out)))"

section \<open>The engine\<close>

text \<open>
  \<open>rn_tables\<close> and \<open>rn_saved\<close> observe the engine for the proofs: what the connection sees and, in
  a transaction, what it saw when the transaction began.
\<close>

record 'w SqliteRunner =
  rn_exec :: "SqlExec \<Rightarrow> ('w, unit) pm"
  rn_getText :: "SqlQuery \<Rightarrow> ('w, SqlText option) pm"
  rn_tables :: "'w \<Rightarrow> Tables"
  rn_saved :: "'w \<Rightarrow> Tables option"

definition failedStmt :: "'w SqliteRunner \<Rightarrow> 'w \<Rightarrow> 'w \<Rightarrow> bool" where
  "failedStmt rn w w' \<longleftrightarrow> (rn_tables rn w' = rn_tables rn w \<and> rn_saved rn w' = rn_saved rn w)
     \<or> (rn_saved rn w = Some (rn_tables rn w') \<and> rn_saved rn w' = None)"

fun execRuns :: "'w SqliteRunner \<Rightarrow> SqlExec \<Rightarrow> 'w \<Rightarrow> 'w \<Rightarrow> bool" where
  "execRuns rn BEGIN_TX w w' \<longleftrightarrow> rn_saved rn w = None \<and> rn_saved rn w' = Some (rn_tables rn w) \<and> rn_tables rn w' = rn_tables rn w"
| "execRuns rn COMMIT_TX w w' \<longleftrightarrow> rn_saved rn w \<noteq> None \<and> rn_saved rn w' = None \<and> rn_tables rn w' = rn_tables rn w"
| "execRuns rn ROLLBACK_TX w w' \<longleftrightarrow> rn_saved rn w = Some (rn_tables rn w') \<and> rn_saved rn w' = None"
| "execRuns rn stmt w w' \<longleftrightarrow> rn_saved rn w' = rn_saved rn w \<and> rn_tables rn w' = execMeans stmt (rn_tables rn w)"

definition lawful_sqlite :: "'w SqliteRunner \<Rightarrow> bool" where
  "lawful_sqlite rn \<longleftrightarrow>
     (\<forall>stmt w r w'. rn_exec rn stmt w = (r, w') \<longrightarrow> (case r of Inl _ \<Rightarrow> failedStmt rn w w' | Inr _ \<Rightarrow> execRuns rn stmt w w'))
   \<and> (\<forall>q w r w'. rn_getText rn q w = (r, w') \<longrightarrow> (case r of Inl _ \<Rightarrow> failedStmt rn w w'
        | Inr res \<Rightarrow> rn_saved rn w' = rn_saved rn w \<and> queryMeans q (rn_tables rn w) res (rn_tables rn w')))"

section \<open>Shared steps of the stores\<close>

record 'w MaterialOptions =
  mo_runner :: "'w SqliteRunner"
  mo_docId :: string
  mo_nowMs :: "'w \<Rightarrow> int"
  mo_crypto :: Crypto
  mo_toBinary :: "ProtoOperation \<Rightarrow> bytes"
  mo_fromBinary :: "bytes \<Rightarrow> ProtoOperation res"

definition hexToBytesStrict :: "string \<Rightarrow> nat \<Rightarrow> bytes res" where
  "hexToBytesStrict hex expectedLen = (let clean = trim_js hex in
     bindR (guardR (length clean = expectedLen * 2) ''unexpected length'') (\<lambda>_.
     bindR (hexToBytes clean) (\<lambda>bs.
     bindR (guardR (length bs = expectedLen) ''unexpected length'') (\<lambda>_. Inr bs))))"

definition optHex :: "string option \<Rightarrow> bytes option res" where
  "optHex h = (case h of None \<Rightarrow> Inr None
     | Some s \<Rightarrow> if s = [] then Inr None else bindR (hexToBytesStrict s 16) (\<lambda>bs. Inr (Some bs)))"

definition inTransaction :: "'w SqliteRunner \<Rightarrow> ('w, unit) pm \<Rightarrow> ('w, unit) pm" where
  "inTransaction rn body = sq (rn_exec rn BEGIN_TX)
     (catch (sq body (rn_exec rn COMMIT_TX)) (\<lambda>err. sq (rn_exec rn ROLLBACK_TX) (throw err)))"

section \<open>Pending ops\<close>

definition pendingOpRef :: "'w MaterialOptions \<Rightarrow> Operation \<Rightarrow> OpRef res" where
  "pendingOpRef opts oper = bindR (opReplicaBytes oper) (\<lambda>replica.
     deriveOpRefV0 (blake3 (mo_crypto opts)) (utf8ToBytes (mo_crypto opts)) (mo_docId opts)
       \<lparr>oib_replica = replica, oib_counter = JsBigint (oid_counter (om_id (op_meta oper)))\<rparr>)"

definition pendingInit :: "'w MaterialOptions \<Rightarrow> ('w, unit) pm" where
  "pendingInit opts = rn_exec (mo_runner opts) PENDING_SCHEMA_SQL"

definition insertPending :: "'w MaterialOptions \<Rightarrow> Operation PendingOp \<Rightarrow> ('w, unit) pm" where
  "insertPending opts p =
     bnd (liftR (pendingOpRef opts (po_op p))) (\<lambda>opRef.
     bnd (liftR (encodeTreecrdtSyncV0Operation (mo_toBinary opts) (po_op p))) (\<lambda>opBytes.
     bnd (gets (mo_nowMs opts)) (\<lambda>now.
     bnd (rn_getText (mo_runner opts) (InsertPending \<lparr>pr_docId = mo_docId opts, pr_opRef = opRef, pr_op = opBytes,
         pr_sig = oa_sig (po_auth p), pr_proofRef = oa_proofRef (po_auth p), pr_reason = ''missing_context'',
         pr_message = po_message p, pr_createdAtMs = now\<rparr>)) (\<lambda>_. ret ()))))"

definition storePendingOps :: "'w MaterialOptions \<Rightarrow> Operation PendingOp list \<Rightarrow> ('w, unit) pm" where
  "storePendingOps opts pending = (if pending = [] then ret ()
     else inTransaction (mo_runner opts) (for_each (insertPending opts) pending))"

definition pendingOfJson :: "'w MaterialOptions \<Rightarrow> PendingJson \<Rightarrow> Operation PendingOp res" where
  "pendingOfJson opts r =
     bindR (hexToBytes (pj_op_hex r)) (\<lambda>opBytes.
     bindR (decodeTreecrdtSyncV0Operation (mo_fromBinary opts) opBytes) (\<lambda>oper.
     bindR (hexToBytesStrict (pj_sig_hex r) 64) (\<lambda>sig.
     bindR (optHex (pj_proof_ref_hex r)) (\<lambda>proofRef.
     bindR (guardR (pj_reason r = ''missing_context'') ''unexpected pending reason'') (\<lambda>_.
       Inr \<lparr>po_op = oper, po_auth = \<lparr>oa_sig = sig, oa_proofRef = proofRef\<rparr>, po_message = dropEmpty (pj_message r)\<rparr>)))))"

definition listPendingOps :: "'w MaterialOptions \<Rightarrow> ('w, Operation PendingOp list) pm" where
  "listPendingOps opts = bnd (rn_getText (mo_runner opts) (ListPending (mo_docId opts))) (\<lambda>text. case text of
       Some (TextPending rows) \<Rightarrow> liftR (mapR (pendingOfJson opts) rows)
     | _ \<Rightarrow> ret [])"

definition listPendingOpRefs :: "'w MaterialOptions \<Rightarrow> ('w, OpRef list) pm" where
  "listPendingOpRefs opts = bnd (rn_getText (mo_runner opts) (ListPendingRefs (mo_docId opts))) (\<lambda>text. case text of
       Some (TextRefs hexes) \<Rightarrow> liftR (mapR (\<lambda>h. hexToBytesStrict h 16) hexes)
     | _ \<Rightarrow> ret [])"

definition deletePending :: "'w MaterialOptions \<Rightarrow> Operation \<Rightarrow> ('w, unit) pm" where
  "deletePending opts oper = bnd (liftR (pendingOpRef opts oper)) (\<lambda>opRef.
     bnd (rn_getText (mo_runner opts) (DeletePending (mo_docId opts) opRef)) (\<lambda>_. ret ()))"

definition deletePendingOps :: "'w MaterialOptions \<Rightarrow> Operation list \<Rightarrow> ('w, unit) pm" where
  "deletePendingOps opts ops = (if ops = [] then ret ()
     else inTransaction (mo_runner opts) (for_each (deletePending opts) ops))"

section \<open>Auth of ops\<close>

definition insertOpAuth :: "'w MaterialOptions \<Rightarrow> OpRef \<times> OpAuth \<Rightarrow> ('w, unit) pm" where
  "insertOpAuth opts e = bnd (gets (mo_nowMs opts)) (\<lambda>now.
     bnd (rn_getText (mo_runner opts) (InsertOpAuth \<lparr>ar_docId = mo_docId opts, ar_opRef = fst e, ar_sig = oa_sig (snd e),
       ar_proofRef = oa_proofRef (snd e), ar_createdAtMs = now\<rparr>)) (\<lambda>_. ret ()))"

definition storeOpAuth :: "'w MaterialOptions \<Rightarrow> (OpRef \<times> OpAuth) list \<Rightarrow> ('w, unit) pm" where
  "storeOpAuth opts es = (if es = [] then ret () else inTransaction (mo_runner opts) (for_each (insertOpAuth opts) es))"

definition opAuthOfJson :: "OpAuthJson \<Rightarrow> (string \<times> OpAuth) res" where
  "opAuthOfJson r =
     bindR (hexToBytesStrict (aj_sig_hex r) 64) (\<lambda>sig.
     bindR (optHex (aj_proof_ref_hex r)) (\<lambda>proofRef.
       Inr (toLowerCase (aj_op_ref_hex r), \<lparr>oa_sig = sig, oa_proofRef = proofRef\<rparr>)))"

definition pickAuths :: "OpAuthJson list \<Rightarrow> OpRef list \<Rightarrow> OpAuth option list res" where
  "pickAuths rows opRefs = bindR (mapR opAuthOfJson rows) (\<lambda>entries.
     let byHex = fold (\<lambda>(h, a). js_set h a) entries [] in Inr (map (\<lambda>r. js_get byHex (bytesToHex r)) opRefs))"

definition getOpAuthByOpRefs :: "'w MaterialOptions \<Rightarrow> OpRef list \<Rightarrow> ('w, OpAuth option list) pm" where
  "getOpAuthByOpRefs opts opRefs = (if opRefs = [] then ret []
     else bnd (rn_getText (mo_runner opts) (SelectOpAuth (mo_docId opts) opRefs)) (\<lambda>text. case text of
       Some (TextOpAuth rows) \<Rightarrow> liftR (pickAuths rows opRefs)
     | _ \<Rightarrow> ret (map (\<lambda>_. None) opRefs)))"

definition createOpAuthStore :: "'w MaterialOptions \<Rightarrow> 'w OpAuthStore" where
  "createOpAuthStore opts = \<lparr>ost_init = Some (rn_exec (mo_runner opts) OP_AUTH_SCHEMA_SQL), ost_storeOpAuth = storeOpAuth opts,
     ost_getOpAuthByOpRefs = getOpAuthByOpRefs opts\<rparr>"

section \<open>Capabilities\<close>

definition insertCapability :: "'w MaterialOptions \<Rightarrow> Capability \<Rightarrow> ('w, unit) pm" where
  "insertCapability opts cap = bnd (gets (mo_nowMs opts)) (\<lambda>now.
     bnd (rn_getText (mo_runner opts) (InsertCapability \<lparr>cr_docId = mo_docId opts, cr_name = cap_name cap, cr_value = cap_value cap,
       cr_createdAtMs = now\<rparr>)) (\<lambda>_. ret ()))"

definition storeCapabilities :: "'w MaterialOptions \<Rightarrow> Capability list \<Rightarrow> ('w, unit) pm" where
  "storeCapabilities opts caps = (if caps = [] then ret ()
     else inTransaction (mo_runner opts) (for_each (insertCapability opts) caps))"

definition listCapabilities :: "'w MaterialOptions \<Rightarrow> ('w, Capability list) pm" where
  "listCapabilities opts = bnd (rn_getText (mo_runner opts) (ListCapabilities (mo_docId opts))) (\<lambda>text. case text of
       Some (TextCapabilities rows) \<Rightarrow> ret rows
     | _ \<Rightarrow> ret [])"

definition createCapabilityMaterialStore :: "'w MaterialOptions \<Rightarrow> 'w CapabilityStore" where
  "createCapabilityMaterialStore opts = \<lparr>cst_init = Some (rn_exec (mo_runner opts) CAPABILITY_MATERIAL_SCHEMA_SQL),
     cst_storeCapabilities = storeCapabilities opts, cst_listCapabilities = listCapabilities opts\<rparr>"

section \<open>Hexadecimal digits of SQL\<close>

lemma upper_code_table:
  "\<forall>c \<in> set hex_codes. is_hex_char (to_upper c) \<and> hex_val (to_upper c) = hex_val c \<and> \<not> is_ws (to_upper c)
    \<and> to_lower (to_upper c) = c \<and> to_upper c \<noteq> CHR ''x'' \<and> to_upper c \<noteq> CHR ''X''"
  by (simp add: hex_val_def is_dec_char_def is_hex_char_def is_ws_def to_lower_def to_upper_def
      hex_codes_def char_of_def of_char_def bit_0)

lemma to_upper_hex_code:
  assumes "c \<in> set hex_codes"
  shows "is_hex_char (to_upper c) \<and> hex_val (to_upper c) = hex_val c \<and> \<not> is_ws (to_upper c) \<and> to_lower (to_upper c) = c
    \<and> to_upper c \<noteq> CHR ''x'' \<and> to_upper c \<noteq> CHR ''X''"
  using assms upper_code_table by blast

lemma set_bytesToHex: "c \<in> set (bytesToHex bs) \<Longrightarrow> c \<in> set hex_codes"
  using lower_hex_bytesToHex [of bs] by (auto simp: lower_hex_iff)

lemma hex_pairs_upper: "set s \<subseteq> set hex_codes \<Longrightarrow> hex_pairs (map to_upper s) = hex_pairs s"
  by (induction s rule: hex_pairs.induct) (auto simp: to_upper_hex_code)

lemma length_sqlHex [simp]: "length (sqlHex bs) = 2 * length bs"
  by (simp add: sqlHex_def)

lemma sqlHex_eq_Nil [simp]: "sqlHex bs = [] \<longleftrightarrow> bs = []"
  using length_sqlHex [of bs] by (metis length_0_conv mult_eq_0_iff zero_neq_numeral)

lemma sqlHex_chars: "c \<in> set (sqlHex bs) \<Longrightarrow> is_hex_char c \<and> \<not> is_ws c \<and> c \<noteq> CHR ''x'' \<and> c \<noteq> CHR ''X''"
  by (auto simp: sqlHex_def dest!: set_bytesToHex to_upper_hex_code)

lemma trim_sqlHex [simp]: "trim_js (sqlHex bs) = sqlHex bs"
  by (rule trim_js_noop) (simp add: sqlHex_chars)

lemma strip_sqlHex [simp]: "stripHexPrefix (sqlHex bs) = sqlHex bs"
proof -
  have "take 2 (sqlHex bs) \<noteq> [a, b]" if "b = CHR ''x'' \<or> b = CHR ''X''" for a b
  proof
    assume "take 2 (sqlHex bs) = [a, b]"
    then have "b \<in> set (sqlHex bs)" by (metis in_set_takeD list.set_intros)
    with that show False by (auto dest: sqlHex_chars)
  qed
  then show ?thesis by (simp add: stripHexPrefix_def)
qed

lemma hexToBytes_sqlHex [simp]: "hexToBytes (sqlHex bs) = Inr bs"
proof -
  have "hex_pairs (sqlHex bs) = bs"
    unfolding sqlHex_def by (subst hex_pairs_upper) (auto dest: set_bytesToHex)
  then show ?thesis by (auto simp: hexToBytes_def Let_def list_all_iff dest: sqlHex_chars)
qed

lemma lower_sqlHex [simp]: "toLowerCase (sqlHex bs) = bytesToHex bs"
  unfolding toLowerCase_def sqlHex_def by (simp add: map_idI set_bytesToHex to_upper_hex_code)

lemma strict_sqlHex [simp]: "hexToBytesStrict (sqlHex bs) n = (if length bs = n then Inr bs else Inl ''unexpected length'')"
  by (simp add: hexToBytesStrict_def guardR_def)

lemma optHex_sqlHex [simp]: "optHex (map_option sqlHex p) =
    (case dropEmpty p of None \<Rightarrow> Inr None | Some bs \<Rightarrow> if length bs = 16 then Inr (Some bs) else Inl ''unexpected length'')"
  by (cases p) (simp_all add: optHex_def dropEmpty_def orEmpty_def someIfNonempty_def)

section \<open>Transactions\<close>

definition committed :: "'w SqliteRunner \<Rightarrow> 'w \<Rightarrow> Tables" where
  "committed rn w = (case rn_saved rn w of None \<Rightarrow> rn_tables rn w | Some t \<Rightarrow> t)"

text \<open>What a step of a transaction may do: take the tables along \<open>E\<close>, or fail and keep what is committed.\<close>

definition tx_step :: "'w SqliteRunner \<Rightarrow> (Tables \<Rightarrow> Tables \<Rightarrow> bool) \<Rightarrow> ('w, 'a) pm \<Rightarrow> bool" where
  "tx_step rn E m \<longleftrightarrow> (\<forall>w s r w'. rn_saved rn w = Some s \<longrightarrow> m w = (r, w') \<longrightarrow> (case r of
     Inl _ \<Rightarrow> committed rn w' = s | Inr _ \<Rightarrow> rn_saved rn w' = Some s \<and> E (rn_tables rn w) (rn_tables rn w')))"

fun chainE :: "('x \<Rightarrow> Tables \<Rightarrow> Tables \<Rightarrow> bool) \<Rightarrow> 'x list \<Rightarrow> Tables \<Rightarrow> Tables \<Rightarrow> bool" where
  "chainE E [] t t' \<longleftrightarrow> t' = t"
| "chainE E (x # xs) t t' \<longleftrightarrow> (\<exists>u. E x t u \<and> chainE E xs u t')"

lemma tx_stepD: "tx_step rn E m \<Longrightarrow> rn_saved rn w = Some s \<Longrightarrow> m w = (Inr x, w') \<Longrightarrow>
      rn_saved rn w' = Some s \<and> E (rn_tables rn w) (rn_tables rn w')"
    and tx_stepE: "tx_step rn E m \<Longrightarrow> rn_saved rn w = Some s \<Longrightarrow> m w = (Inl e, w') \<Longrightarrow> committed rn w' = s"
  unfolding tx_step_def by (force split: sum.splits)+

lemma tx_step_for_each: "(\<And>x. x \<in> set xs \<Longrightarrow> tx_step rn (E x) (f x)) \<Longrightarrow> tx_step rn (chainE E xs) (for_each f xs)"
proof (induction xs)
  case Nil
  then show ?case by (simp add: tx_step_def)
next
  case (Cons x xs)
  have 1: "tx_step rn (E x) (f x)" and 2: "tx_step rn (chainE E xs) (for_each f xs)" using Cons by auto
  show ?case unfolding tx_step_def for_each.simps
  proof (intro allI impI)
    fix w s r w' assume w: "rn_saved rn w = Some s" and run: "sq (f x) (for_each f xs) w = (r, w')"
    show "case r of Inl _ \<Rightarrow> committed rn w' = s
        | Inr _ \<Rightarrow> rn_saved rn w' = Some s \<and> chainE E (x # xs) (rn_tables rn w) (rn_tables rn w')"
      using run
    proof (cases rule: sq_E)
      case (err e)
      with tx_stepE [OF 1 w] show ?thesis by simp
    next
      case (ok v)
      from tx_stepD [OF 1 w ok(1)] have v: "rn_saved rn v = Some s" "E x (rn_tables rn w) (rn_tables rn v)" by simp_all
      show ?thesis
      proof (cases r)
        case (Inl e)
        with tx_stepE [OF 2 v(1)] ok(2) show ?thesis by simp
      next
        case (Inr u)
        with tx_stepD [OF 2 v(1)] ok(2) v(2) show ?thesis by fastforce
      qed
    qed
  qed
qed

lemma failedStmt_committed: "failedStmt rn w w' \<Longrightarrow> committed rn w' = committed rn w"
  by (auto simp: failedStmt_def committed_def split: option.splits)

lemma lawful_execD: "lawful_sqlite rn \<Longrightarrow> rn_exec rn stmt w = (Inr u, w') \<Longrightarrow> execRuns rn stmt w w'"
    and lawful_execE: "lawful_sqlite rn \<Longrightarrow> rn_exec rn stmt w = (Inl e, w') \<Longrightarrow> failedStmt rn w w'"
    and lawful_queryD: "lawful_sqlite rn \<Longrightarrow> rn_getText rn q w = (Inr res, w') \<Longrightarrow>
      rn_saved rn w' = rn_saved rn w \<and> queryMeans q (rn_tables rn w) res (rn_tables rn w')"
    and lawful_queryE: "lawful_sqlite rn \<Longrightarrow> rn_getText rn q w = (Inl e, w') \<Longrightarrow> failedStmt rn w w'"
  unfolding lawful_sqlite_def by fastforce+

lemma inTransaction_sound:
  assumes "lawful_sqlite rn" "tx_step rn E body" "rn_saved rn w = None" "inTransaction rn body w = (r, w')"
  shows "case r of Inl _ \<Rightarrow> committed rn w' = rn_tables rn w | Inr _ \<Rightarrow> rn_saved rn w' = None \<and> E (rn_tables rn w) (rn_tables rn w')"
  using assms(4) unfolding inTransaction_def
proof (cases rule: sq_E)
  case (err e)
  with failedStmt_committed [OF lawful_execE [OF assms(1) err(1)]] assms(3) show ?thesis by (simp add: committed_def)
next
  case (ok v)
  from lawful_execD [OF assms(1) ok(1)] have v: "rn_saved rn v = Some (rn_tables rn w)" "rn_tables rn v = rn_tables rn w" by simp_all
  let ?s = "rn_tables rn w"
  obtain q x where q: "sq body (rn_exec rn COMMIT_TX) v = (q, x)" by fastforce
  have qx: "case q of Inl _ \<Rightarrow> committed rn x = ?s | Inr _ \<Rightarrow> rn_saved rn x = None \<and> E ?s (rn_tables rn x)"
    using q
  proof (cases rule: sq_E)
    case (err e)
    with tx_stepE [OF assms(2) v(1)] show ?thesis by simp
  next
    case (ok y)
    from tx_stepD [OF assms(2) v(1) ok(1)] v(2) have y: "rn_saved rn y = Some ?s" "E ?s (rn_tables rn y)" by simp_all
    show ?thesis
    proof (cases q)
      case (Inl e)
      with failedStmt_committed [OF lawful_execE [OF assms(1)]] ok(2) y(1) show ?thesis by (simp add: committed_def)
    next
      case (Inr u)
      with lawful_execD [OF assms(1)] ok(2) y show ?thesis by fastforce
    qed
  qed
  show ?thesis
  proof (cases q)
    case (Inr u)
    with ok(2) q qx show ?thesis by (auto simp: catch_eval)
  next
    case (Inl e)
    with ok(2) q have run: "sq (rn_exec rn ROLLBACK_TX) (throw e) x = (r, w')" by (simp add: catch_eval)
    then have r: "\<exists>e'. r = Inl e'" by (auto elim!: sq_E)
    from run have "committed rn w' = committed rn x"
    proof (cases rule: sq_E)
      case (err e')
      then show ?thesis by (simp add: failedStmt_committed [OF lawful_execE [OF assms(1)]])
    next
      case (ok y)
      with lawful_execD [OF assms(1) ok(1)] show ?thesis by (auto simp: committed_def)
    qed
    with r qx Inl show ?thesis by auto
  qed
qed

end
