(* ===== verification/Replay_Auth.thy ===== *)
theory Replay_Auth
  imports Cose_Auth
begin

text \<open>
  The interface of stores for auth material (\<^verbatim>\<open>packages/sync/protocol/src/proof-material/types.ts\<close>)
  as a locale, and the adapter that only stores and replays auth
  (\<^verbatim>\<open>packages/sync/protocol/src/proof-material/replay-only.ts\<close>): a relay forwards ops with the
  signatures they came with, without verifying or signing any.
\<close>

section \<open>The adapter\<close>

record 'w SyncAuthMaterialStore =
  am_opAuth :: "'w OpAuthStore"
  am_capabilities :: "'w CapabilityStore option"

definition replayOpRef :: "Crypto \<Rightarrow> string \<Rightarrow> Operation \<Rightarrow> OpRef res" where
  "replayOpRef cr docId oper = bindR (opReplicaBytes oper) (\<lambda>replica. opRefOf cr docId replica oper)"

definition listAuthCapabilities :: "'w SyncAuthMaterialStore \<Rightarrow> ('w, Capability list) pm" where
  "listAuthCapabilities store = (case am_capabilities store of
       None \<Rightarrow> ret []
     | Some cs \<Rightarrow> bnd (cst_listCapabilities cs) (\<lambda>caps. ret (filter isAnyAuthCapability caps)))"

definition storeAuthCapabilities :: "'w SyncAuthMaterialStore \<Rightarrow> Capability list \<Rightarrow> ('w, unit) pm" where
  "storeAuthCapabilities store caps = (case am_capabilities store of
       None \<Rightarrow> ret ()
     | Some cs \<Rightarrow> let filtered = filter isAnyAuthCapability caps in
         if filtered = [] then ret () else cst_storeCapabilities cs filtered)"

text \<open>
  A missing \<^verbatim>\<open>auth[index]\<close> makes the stores throw when they read its fields; the sync peer passes
  lists of equal length.
\<close>

definition replayOnVerifiedOps :: "Crypto \<Rightarrow> string \<Rightarrow> 'w SyncAuthMaterialStore \<Rightarrow> Operation list \<Rightarrow> OpAuth list \<Rightarrow> ('w, unit) pm" where
  "replayOnVerifiedOps cr docId store ops auth =
    (if ops = [] \<or> auth = [] then ret ()
     else bnd (liftR (mapR (replayOpRef cr docId) ops)) (\<lambda>refs.
       if length auth < length ops then throw ''TypeError''
       else ost_storeOpAuth (am_opAuth store) (zip refs auth)))"

definition replaySignOps :: "Crypto \<Rightarrow> string \<Rightarrow> 'w SyncAuthMaterialStore \<Rightarrow> Operation list \<Rightarrow> ('w, OpAuth list) pm" where
  "replaySignOps cr docId store ops =
    (if ops = [] then ret []
     else bnd (liftR (mapR (replayOpRef cr docId) ops)) (\<lambda>opRefs.
       bnd (ost_getOpAuthByOpRefs (am_opAuth store) opRefs) (\<lambda>found.
         if list_ex (\<lambda>a. a = None) found then throw ''missing op auth for non-local replica; cannot forward unsigned op''
         else ret (map the found))))"

definition createReplayOnlySyncAuth :: "Crypto \<Rightarrow> string \<Rightarrow> 'w SyncAuthMaterialStore \<Rightarrow> (Operation, 'w) SyncAuth" where
  "createReplayOnlySyncAuth cr docId store = \<lparr>
     sa_helloCapabilities = Some (\<lambda>_. listAuthCapabilities store),
     sa_onHello = Some (\<lambda>hello _. sq (storeAuthCapabilities store (hello_capabilities hello)) (listAuthCapabilities store)),
     sa_onHelloAck = Some (\<lambda>ack _. storeAuthCapabilities store (ack_capabilities ack)),
     sa_authorizeFilter = None, sa_filterOutgoingOps = None,
     sa_signOps = Some (\<lambda>ops _. replaySignOps cr docId store ops),
     sa_verifyOps = Some (\<lambda>_ _ _. ret None),
     sa_onVerifiedOps = Some (\<lambda>ops auth _. replayOnVerifiedOps cr docId store ops auth)\<rparr>"

section \<open>The interface of a store\<close>

definition putAuths :: "(OpAuth \<Rightarrow> OpAuth res) \<Rightarrow> (OpRef \<times> OpAuth) list \<Rightarrow> (OpRef \<Rightarrow> OpAuth res option) \<Rightarrow> OpRef \<Rightarrow> OpAuth res option" where
  "putAuths keep es m = fold (\<lambda>(ref, a) m. m(ref \<mapsto> keep a)) es m"

lemma putAuths_simps [simp]: "putAuths keep [] m = m"
    "putAuths keep (e # es) m = putAuths keep es (m(fst e \<mapsto> keep (snd e)))"
  by (simp_all add: putAuths_def split: prod.splits)

lemma putAuths_get: "putAuths keep es m ref = (case map_of (rev es) ref of Some a \<Rightarrow> Some (keep a) | None \<Rightarrow> m ref)"
  by (induction es arbitrary: m) (auto simp: map_add_def split: option.splits)

text \<open>
  \<^verbatim>\<open>SyncOpAuthStore\<close>: what is kept is a map from op refs, whose entries may turn out unreadable;
  \<open>keep\<close> is what reading gives for a stored auth, \<open>ready\<close> a connection with no transaction open.
\<close>

locale op_auth_store =
  fixes store :: "(OpRef \<times> OpAuth) list \<Rightarrow> ('w, unit) pm"
    and fetch :: "OpRef list \<Rightarrow> ('w, OpAuth option list) pm"
    and view :: "'w \<Rightarrow> OpRef \<Rightarrow> OpAuth res option"
    and ready :: "'w \<Rightarrow> bool"
    and keep :: "OpAuth \<Rightarrow> OpAuth res"
  assumes store_puts: "ready w \<Longrightarrow> store es w = (Inr (), w') \<Longrightarrow> ready w' \<and> view w' = putAuths keep es (view w)"
    and fetch_reads: "ready w \<Longrightarrow> fetch refs w = (Inr found, w') \<Longrightarrow>
      ready w' \<and> view w' = view w \<and> list_all2 (\<lambda>ref a. view w ref = map_option Inr a) refs found"
begin

lemma fetch_stored:
  assumes "ready w" "store es w = (Inr (), v)" "fetch refs v = (Inr found, w')" "set refs \<subseteq> fst ` set es"
  shows "list_all2 (\<lambda>ref a. \<exists>b c. map_of (rev es) ref = Some b \<and> keep b = Inr c \<and> a = Some c) refs found"
proof -
  from store_puts [OF assms(1,2)] have v: "ready v" "view v = putAuths keep es (view w)" by simp_all
  from fetch_reads [OF v(1) assms(3)] have "list_all2 (\<lambda>ref a. view v ref = map_option Inr a) refs found" by simp
  then show ?thesis
  proof (rule list.rel_mono_strong)
    fix ref a assume ref: "ref \<in> set refs" and "view v ref = map_option Inr a"
    moreover obtain b where "map_of (rev es) ref = Some b"
      using ref assms(4) weak_map_of_SomeI [of ref _ "rev es"] by fastforce
    ultimately show "\<exists>b c. map_of (rev es) ref = Some b \<and> keep b = Inr c \<and> a = Some c"
      by (cases a) (auto simp: v(2) putAuths_get)
  qed
qed

text \<open>An adapter over such a store signs with the auth it last saw for each op.\<close>

lemma replay_signs:
  assumes "am_opAuth st = \<lparr>ost_init = i, ost_storeOpAuth = store, ost_getOpAuthByOpRefs = fetch\<rparr>"
    and "ready w" "replayOnVerifiedOps cr docId st ops auth w = (Inr (), v)" "length auth = length ops"
    and "replaySignOps cr docId st ops' v = (Inr sigs, w')" "set ops' \<subseteq> set ops"
    and "mapR (replayOpRef cr docId) ops = Inr refs" "distinct refs"
  shows "list_all2 (\<lambda>oper a. \<exists>i < length ops. oper = ops ! i \<and> keep (auth ! i) = Inr a) ops' sigs"
proof (cases "ops' = []")
  case True
  with assms(5) show ?thesis by (simp add: replaySignOps_def)
next
  case False
  with assms(6) have ne: "ops \<noteq> []" by auto
  with assms(4) have "auth \<noteq> []" by auto
  then have st: "store (zip refs auth) w = (Inr (), v)" using assms(1,3,4,7) ne by (simp add: replayOnVerifiedOps_def bnd_eval)
  obtain refs' found where f: "mapR (replayOpRef cr docId) ops' = Inr refs'" "fetch refs' v = (Inr found, w')"
      "\<not> list_ex (\<lambda>a. a = None) found" "sigs = map the found"
    using assms(1,5) False by (auto simp: replaySignOps_def elim!: bnd_okE split: if_splits)
  have len: "length refs = length ops" "length refs' = length ops'" using assms(7) f(1) by (auto dest: mapR_length)
  have at: "replayOpRef cr docId (ops ! i) = Inr (refs ! i)" if "i < length ops" for i
    using assms(7) that by (auto simp: mapR_Inr_iff list_all2_conv_all_nth)
  have at': "replayOpRef cr docId (ops' ! i) = Inr (refs' ! i)" if "i < length ops'" for i
    using f(1) that by (auto simp: mapR_Inr_iff list_all2_conv_all_nth)
  have from_ops: "\<exists>k < length ops. ops' ! j = ops ! k \<and> refs' ! j = refs ! k" if j: "j < length ops'" for j
  proof -
    obtain k where k: "k < length ops" "ops' ! j = ops ! k" using assms(6) j by (metis in_set_conv_nth nth_mem subsetD)
    with at [OF k(1)] at' [OF j] show ?thesis by auto
  qed
  have "set refs' \<subseteq> fst ` set (zip refs auth)"
  proof
    fix ref assume "ref \<in> set refs'"
    then obtain j where "j < length ops'" "ref = refs' ! j" using len by (auto simp: in_set_conv_nth)
    with from_ops [of j] obtain k where "k < length ops" "ref = refs ! k" by auto
    then have "(ref, auth ! k) \<in> set (zip refs auth)" using len assms(4) by (auto simp: in_set_zip)
    then show "ref \<in> fst ` set (zip refs auth)" by force
  qed
  note got = fetch_stored [OF assms(2) st f(2) this]
  have dist: "distinct (map fst (zip refs auth))" using assms(4,8) len by simp
  show ?thesis
  proof (rule list_all2_all_nthI)
    show "length ops' = length sigs" using got len f(4) by (auto dest: list_all2_lengthD)
    fix j assume j: "j < length ops'"
    from from_ops [OF j] obtain k where k: "k < length ops" "ops' ! j = ops ! k" "refs' ! j = refs ! k" by auto
    from got j len obtain b c where bc: "map_of (rev (zip refs auth)) (refs' ! j) = Some b" "keep b = Inr c" "found ! j = Some c"
      by (auto simp: list_all2_conv_all_nth)
    have "(refs ! k, auth ! k) \<in> set (zip refs auth)" using k len assms(4) by (auto simp: in_set_zip)
    with bc(1) k(3) dist have "b = auth ! k" by (metis map_of_is_SomeI map_of_SomeD option.inject set_rev)
    moreover have "sigs ! j = c" using bc(3) f(4) j len got by (auto dest: list_all2_lengthD)
    ultimately show "\<exists>i<length ops. ops' ! j = ops ! i \<and> keep (auth ! i) = Inr (sigs ! j)" using k bc(2) by blast
  qed
qed

end

end
