(* ===== verification/Material_Refinement.thy ===== *)
theory Material_Refinement
  imports Material_Store Replay_Auth
begin

text \<open>
  What the stores of \<open>Material_Store\<close> promise: they are maps.  Pending ops and op auth are looked up
  by op ref, an insertion updates the map in list order, a deletion restricts it, listings are its
  graph, and a store or delete that throws leaves what is committed as it was.
\<close>

lemma opAuth_eta [simp]: "\<lparr>oa_sig = oa_sig a, oa_proofRef = oa_proofRef a\<rparr> = (a :: OpAuth)"
  and pendingOp_eta [simp]: "\<lparr>po_op = po_op p, po_auth = po_auth p, po_message = po_message p\<rparr> = (p :: Operation PendingOp)"
  by (cases a, simp) (cases p, simp)

section \<open>Rows by key\<close>

definition lookupRow :: "('r \<Rightarrow> 'k) \<Rightarrow> 'r list \<Rightarrow> 'k \<Rightarrow> 'r option" where
  "lookupRow key rows k = List.find (\<lambda>r. key r = k) rows"

lemma lookupRow_Nil [simp]: "lookupRow key [] k = None"
  and lookupRow_Cons: "lookupRow key (r # rows) k = (if key r = k then Some r else lookupRow key rows k)"
  by (simp_all add: lookupRow_def)

lemma lookupRow_filter [simp]: "lookupRow key (filter (\<lambda>x. key x \<noteq> k0) rows) k = (if k = k0 then None else lookupRow key rows k)"
  by (induction rows) (auto simp: lookupRow_Cons)

lemma lookupRow_append: "lookupRow key (xs @ ys) k = (case lookupRow key xs k of Some r \<Rightarrow> Some r | None \<Rightarrow> lookupRow key ys k)"
  by (induction xs) (auto simp: lookupRow_Cons)

lemma lookupRow_replace [simp]: "lookupRow key (replaceRow key r rows) k = (if k = key r then Some r else lookupRow key rows k)"
  by (auto simp: replaceRow_def lookupRow_append lookupRow_Cons split: option.splits)

lemma distinct_filter_keys [simp]: "distinct (map key rows) \<Longrightarrow> distinct (map key (filter P rows))"
  by (rule distinct_map_filter)

lemma distinct_replace [simp]: "distinct (map key rows) \<Longrightarrow> distinct (map key (replaceRow key r rows))"
  by (auto simp: replaceRow_def)

lemma lookupRow_iff: "distinct (map key rows) \<Longrightarrow> lookupRow key rows k = Some r \<longleftrightarrow> r \<in> set rows \<and> key r = k"
  by (induction rows) (auto simp: lookupRow_Cons)

lemma selects_keys:
  assumes "selects P rows out" "distinct (map key rows)"
  shows "distinct (map key out)" "r \<in> set out \<longleftrightarrow> r \<in> set rows \<and> P r"
proof -
  have "mset out = mset (filter P rows)" using assms(1) by (simp add: selects_def)
  then have "mset (map key out) = mset (map key (filter P rows))" by simp
  moreover have "distinct (map key (filter P rows))" using assms(2) by simp
  ultimately show "distinct (map key out)" by (metis mset_eq_imp_distinct_iff)
  from \<open>mset out = _\<close> have "set out = set (filter P rows)" by (metis set_mset_mset)
  then show "r \<in> set out \<longleftrightarrow> r \<in> set rows \<and> P r" by auto
qed

section \<open>The maps\<close>

definition rowsOf :: "'r list option \<Rightarrow> 'r list" where
  "rowsOf t = (case t of None \<Rightarrow> [] | Some rows \<Rightarrow> rows)"

lemma rowsOf_simps [simp]: "rowsOf None = []" "rowsOf (Some rows) = rows"
  by (simp_all add: rowsOf_def)

text \<open>The primary keys of the schema.\<close>

definition tables_ok :: "Tables \<Rightarrow> bool" where
  "tables_ok t \<longleftrightarrow> distinct (map pendingKey (rowsOf (t_pending t))) \<and> distinct (map opAuthKey (rowsOf (t_opAuth t)))
     \<and> distinct (map capabilityKey (rowsOf (t_capability t)))"

definition pendingMap :: "'w MaterialOptions \<Rightarrow> Tables \<Rightarrow> OpRef \<Rightarrow> Operation PendingOp res option" where
  "pendingMap opts t ref = map_option (\<lambda>r. pendingOfJson opts (pendingJson r))
     (lookupRow pendingKey (rowsOf (t_pending t)) (mo_docId opts, ref))"

definition opAuthMap :: "'w MaterialOptions \<Rightarrow> Tables \<Rightarrow> OpRef \<Rightarrow> OpAuth res option" where
  "opAuthMap opts t ref = map_option (\<lambda>r. map_sum id snd (opAuthOfJson (opAuthJson r)))
     (lookupRow opAuthKey (rowsOf (t_opAuth t)) (mo_docId opts, ref))"

definition capabilitySet :: "'w MaterialOptions \<Rightarrow> Tables \<Rightarrow> Capability set" where
  "capabilitySet opts t = {c. \<exists>r \<in> set (rowsOf (t_capability t)). cr_docId r = mo_docId opts \<and> c = \<lparr>cap_name = cr_name r, cap_value = cr_value r\<rparr>}"

lemma map_of_rev: "distinct (map fst es) \<Longrightarrow> map_of (rev es) k = map_of es k"
  by (induction es) (auto simp: map_add_def map_of_eq_None_iff [symmetric] split: option.splits)

text \<open>What reading a stored op or auth yields.\<close>

definition readableAuth :: "OpAuth \<Rightarrow> bool" where
  "readableAuth a \<longleftrightarrow> length (oa_sig a) = 64 \<and> (case dropEmpty (oa_proofRef a) of None \<Rightarrow> True | Some b \<Rightarrow> length b = 16)"

definition wirePending :: "Operation PendingOp \<Rightarrow> Operation PendingOp" where
  "wirePending p = \<lparr>po_op = wireOperation (po_op p), po_auth = wireOpAuth (po_auth p), po_message = dropEmpty (po_message p)\<rparr>"

definition readPending :: "Operation PendingOp \<Rightarrow> Operation PendingOp res" where
  "readPending p = (if readableAuth (po_auth p) then Inr (wirePending p) else Inl ''unexpected length'')"

definition readAuth :: "OpAuth \<Rightarrow> OpAuth res" where
  "readAuth a = (if readableAuth a then Inr (wireOpAuth a) else Inl ''unexpected length'')"

definition pendingPut :: "'w MaterialOptions \<Rightarrow> Operation PendingOp list \<Rightarrow>
    (OpRef \<Rightarrow> Operation PendingOp res option) \<Rightarrow> OpRef \<Rightarrow> Operation PendingOp res option" where
  "pendingPut opts ps m = fold (\<lambda>p m. case pendingOpRef opts (po_op p) of Inr ref \<Rightarrow> m(ref \<mapsto> readPending p) | Inl _ \<Rightarrow> m) ps m"

definition binary_ok :: "'w MaterialOptions \<Rightarrow> bool" where
  "binary_ok opts \<longleftrightarrow> (\<forall>pr. mo_fromBinary opts (mo_toBinary opts pr) = Inr pr)"

lemma opAuth_of_json: "map_sum id snd (opAuthOfJson (opAuthJson r)) = readAuth \<lparr>oa_sig = ar_sig r, oa_proofRef = ar_proofRef r\<rparr>"
  by (auto simp: opAuthOfJson_def opAuthJson_def readAuth_def readableAuth_def wireOpAuth_def split: option.splits)

lemma opAuth_of_json_fst: "opAuthOfJson (opAuthJson r) = Inr e \<Longrightarrow> fst e = bytesToHex (ar_opRef r)"
  by (auto simp: opAuthOfJson_def opAuthJson_def bindR_eq_Inr)

lemma pending_of_json:
  assumes "binary_ok opts" "encodeTreecrdtSyncV0Operation (mo_toBinary opts) oper = Inr bs" "pr_op r = bs" "pr_reason r = ''missing_context''"
  shows "pendingOfJson opts (pendingJson r)
    = readPending \<lparr>po_op = oper, po_auth = \<lparr>oa_sig = pr_sig r, oa_proofRef = pr_proofRef r\<rparr>, po_message = pr_message r\<rparr>"
proof -
  from assms(2) obtain pr where pr: "toProtoOperation oper = Inr pr" "bs = mo_toBinary opts pr"
    by (auto simp: encodeTreecrdtSyncV0Operation_def bindR_eq_Inr)
  then have "decodeTreecrdtSyncV0Operation (mo_fromBinary opts) bs = Inr (wireOperation oper)"
    using assms(1) oc.dec_enc [OF pr(1)] by (simp add: decodeTreecrdtSyncV0Operation_def binary_ok_def)
  then show ?thesis using assms(3,4)
    by (auto simp: pendingOfJson_def pendingJson_def readPending_def readableAuth_def wirePending_def wireOpAuth_def guardR_def split: option.splits)
qed

section \<open>Steps of the transactions\<close>

lemma tx_step_liftR: "(\<And>x. c = Inr x \<Longrightarrow> tx_step rn E (f x)) \<Longrightarrow> tx_step rn E (bnd (liftR c) f)"
  by (cases c) (auto simp: tx_step_def bnd_eval committed_def)

lemma tx_step_gets: "(\<And>x. tx_step rn E (f x)) \<Longrightarrow> tx_step rn E (bnd (gets g) f)"
  by (simp add: tx_step_def bnd_eval)

lemma tx_step_query:
  assumes "lawful_sqlite rn" "\<And>t res t'. queryMeans q t res t' \<Longrightarrow> E t t'"
  shows "tx_step rn E (bnd (rn_getText rn q) (\<lambda>_. ret ()))"
  unfolding tx_step_def
proof (intro allI impI)
  fix w s r w' assume w: "rn_saved rn w = Some s" and run: "bnd (rn_getText rn q) (\<lambda>_. ret ()) w = (r, w')"
  from run show "case r of Inl _ \<Rightarrow> committed rn w' = s | Inr _ \<Rightarrow> rn_saved rn w' = Some s \<and> E (rn_tables rn w) (rn_tables rn w')"
  proof (cases rule: bnd_E)
    case (err e)
    with failedStmt_committed [OF lawful_queryE [OF assms(1) err(1)]] w show ?thesis by (simp add: committed_def)
  next
    case (ok x y)
    with lawful_queryD [OF assms(1) ok(1)] w assms(2) show ?thesis by auto
  qed
qed

definition insE :: "'w MaterialOptions \<Rightarrow> Operation PendingOp \<Rightarrow> Tables \<Rightarrow> Tables \<Rightarrow> bool" where
  "insE opts p t t' \<longleftrightarrow> (tables_ok t \<longrightarrow> tables_ok t')
     \<and> (\<exists>ref. pendingOpRef opts (po_op p) = Inr ref \<and> pendingMap opts t' = (pendingMap opts t)(ref \<mapsto> readPending p))"

definition delE :: "'w MaterialOptions \<Rightarrow> Operation \<Rightarrow> Tables \<Rightarrow> Tables \<Rightarrow> bool" where
  "delE opts oper t t' \<longleftrightarrow> (tables_ok t \<longrightarrow> tables_ok t')
     \<and> (\<exists>ref. pendingOpRef opts oper = Inr ref \<and> pendingMap opts t' = (pendingMap opts t)(ref := None))"

definition authE :: "'w MaterialOptions \<Rightarrow> OpRef \<times> OpAuth \<Rightarrow> Tables \<Rightarrow> Tables \<Rightarrow> bool" where
  "authE opts e t t' \<longleftrightarrow> (tables_ok t \<longrightarrow> tables_ok t') \<and> opAuthMap opts t' = (opAuthMap opts t)(fst e \<mapsto> readAuth (snd e))"

definition capE :: "'w MaterialOptions \<Rightarrow> Capability \<Rightarrow> Tables \<Rightarrow> Tables \<Rightarrow> bool" where
  "capE opts c t t' \<longleftrightarrow> (tables_ok t \<longrightarrow> tables_ok t') \<and> capabilitySet opts t' = insert c (capabilitySet opts t)"

lemma insertPending_step:
  assumes "lawful_sqlite (mo_runner opts)" "binary_ok opts"
  shows "tx_step (mo_runner opts) (insE opts p) (insertPending opts p)"
  unfolding insertPending_def
proof (intro tx_step_liftR tx_step_gets tx_step_query assms(1))
  fix ref bs now t res t'
  assume ref: "pendingOpRef opts (po_op p) = Inr ref"
    and bs: "encodeTreecrdtSyncV0Operation (mo_toBinary opts) (po_op p) = Inr bs"
    and q: "queryMeans (InsertPending \<lparr>pr_docId = mo_docId opts, pr_opRef = ref, pr_op = bs, pr_sig = oa_sig (po_auth p),
       pr_proofRef = oa_proofRef (po_auth p), pr_reason = ''missing_context'', pr_message = po_message p, pr_createdAtMs = now\<rparr>) t res t'"
  let ?r = "\<lparr>pr_docId = mo_docId opts, pr_opRef = ref, pr_op = bs, pr_sig = oa_sig (po_auth p),
       pr_proofRef = oa_proofRef (po_auth p), pr_reason = ''missing_context'', pr_message = po_message p, pr_createdAtMs = now\<rparr>"
  have "pendingOfJson opts (pendingJson ?r) = readPending p"
    using pending_of_json [OF assms(2) bs, of ?r] by simp
  with ref q show "insE opts p t t'"
    by (auto simp: insE_def tables_ok_def pendingMap_def pendingKey_def fun_eq_iff)
qed

lemma deletePending_step:
  assumes "lawful_sqlite (mo_runner opts)"
  shows "tx_step (mo_runner opts) (delE opts oper) (deletePending opts oper)"
  unfolding deletePending_def
  by (intro tx_step_liftR tx_step_query assms) (auto simp: delE_def tables_ok_def pendingMap_def fun_eq_iff)

lemma insertOpAuth_step:
  assumes "lawful_sqlite (mo_runner opts)"
  shows "tx_step (mo_runner opts) (authE opts e) (insertOpAuth opts e)"
  unfolding insertOpAuth_def
  by (intro tx_step_gets tx_step_query assms)
    (auto simp: authE_def tables_ok_def opAuthMap_def opAuth_of_json opAuthKey_def fun_eq_iff)

lemma insertCapability_step:
  assumes "lawful_sqlite (mo_runner opts)"
  shows "tx_step (mo_runner opts) (capE opts c) (insertCapability opts c)"
  unfolding insertCapability_def
  by (intro tx_step_gets tx_step_query assms)
    (auto simp: capE_def tables_ok_def capabilitySet_def capabilityKey_def replaceRow_def)

section \<open>The stores\<close>

lemma chain_ins:
  assumes "chainE (insE opts) ps t t'"
  shows "(tables_ok t \<longrightarrow> tables_ok t') \<and> pendingMap opts t' = pendingPut opts ps (pendingMap opts t)
    \<and> (\<forall>p \<in> set ps. \<exists>ref. pendingOpRef opts (po_op p) = Inr ref)"
  using assms by (induction ps arbitrary: t) (auto simp: insE_def pendingPut_def)

lemma chain_del:
  assumes "chainE (delE opts) ops t t'"
  shows "(tables_ok t \<longrightarrow> tables_ok t') \<and> (\<forall>oper \<in> set ops. \<exists>ref. pendingOpRef opts oper = Inr ref)
    \<and> pendingMap opts t' = pendingMap opts t |` (- {ref. Inr ref \<in> pendingOpRef opts ` set ops})"
  using assms
proof (induction ops arbitrary: t)
  case (Cons oper ops)
  then obtain u where u: "delE opts oper t u" "chainE (delE opts) ops u t'" by auto
  from Cons.IH [OF u(2)] u(1) show ?case
    by (auto simp: delE_def restrict_map_def fun_eq_iff)
qed (auto simp: restrict_map_def)

lemma chain_auth:
  assumes "chainE (authE opts) es t t'"
  shows "(tables_ok t \<longrightarrow> tables_ok t') \<and> opAuthMap opts t' = putAuths readAuth es (opAuthMap opts t)"
  using assms by (induction es arbitrary: t) (auto simp: authE_def)

lemma chain_caps:
  assumes "chainE (capE opts) cs t t'"
  shows "(tables_ok t \<longrightarrow> tables_ok t') \<and> capabilitySet opts t' = set cs \<union> capabilitySet opts t"
  using assms by (induction cs arbitrary: t) (auto simp: capE_def)

text \<open>Every store loops over its entries inside a transaction, unless there are none.\<close>

lemma stored:
  assumes "lawful_sqlite rn" "\<And>x. tx_step rn (E x) (f x)" "rn_saved rn w = None"
    and "(if xs = [] then ret () else inTransaction rn (for_each f xs)) w = (r, w')"
  shows "case r of Inl _ \<Rightarrow> committed rn w' = rn_tables rn w | Inr _ \<Rightarrow> rn_saved rn w' = None \<and> chainE E xs (rn_tables rn w) (rn_tables rn w')"
proof (cases "xs = []")
  case True
  with assms(3,4) show ?thesis by auto
next
  case False
  with assms(4) have "inTransaction rn (for_each f xs) w = (r, w')" by simp
  from inTransaction_sound [OF assms(1) tx_step_for_each assms(3) this] assms(2) show ?thesis by blast
qed

lemmas store_outcome =
  stored [OF _ insertPending_step] stored [OF _ deletePending_step] stored [OF _ insertOpAuth_step] stored [OF _ insertCapability_step]

section \<open>The listings\<close>

lemma list_pending:
  assumes "lawful_sqlite (mo_runner opts)" "tables_ok (rn_tables (mo_runner opts) w)" "listPendingOps opts w = (Inr ps, w')"
  shows "rn_tables (mo_runner opts) w' = rn_tables (mo_runner opts) w \<and> rn_saved (mo_runner opts) w' = rn_saved (mo_runner opts) w
    \<and> (\<exists>refs. distinct refs \<and> set refs = dom (pendingMap opts (rn_tables (mo_runner opts) w))
        \<and> list_all2 (\<lambda>ref p. pendingMap opts (rn_tables (mo_runner opts) w) ref = Some (Inr p)) refs ps)"
proof -
  let ?t = "rn_tables (mo_runner opts) w"
  from assms(3) obtain res u where q: "rn_getText (mo_runner opts) (ListPending (mo_docId opts)) w = (Inr res, u)"
      and k: "(case res of Some (TextPending rows) \<Rightarrow> liftR (mapR (pendingOfJson opts) rows) | _ \<Rightarrow> ret []) u = (Inr ps, w')"
    unfolding listPendingOps_def by (rule bnd_okE)
  from lawful_queryD [OF assms(1) q] obtain rows out where o: "rn_saved (mo_runner opts) u = rn_saved (mo_runner opts) w"
      "rn_tables (mo_runner opts) u = ?t" "t_pending ?t = Some rows" "selects (\<lambda>r. pr_docId r = mo_docId opts) rows out"
      "res = Some (TextPending (map pendingJson out))" by auto
  from k o(5) have ps: "mapR (pendingOfJson opts) (map pendingJson out) = Inr ps" "w' = u" by auto
  have d: "distinct (map pendingKey rows)" using assms(2) o(3) by (simp add: tables_ok_def)
  note sel = selects_keys [OF o(4) d]
  have look: "pendingMap opts ?t ref = Some v \<longleftrightarrow> (\<exists>r \<in> set out. pr_opRef r = ref \<and> v = pendingOfJson opts (pendingJson r))" for ref v
    using sel(2) by (auto simp: pendingMap_def o(3) lookupRow_iff [OF d] pendingKey_def)
  have "inj_on pendingKey (set out)" "distinct out" using sel(1) by (auto simp: distinct_map)
  then have "distinct (map pr_opRef out)"
    using sel(2) by (auto simp: distinct_map inj_on_def pendingKey_def)
  moreover have "set (map pr_opRef out) = dom (pendingMap opts ?t)" using look by (auto simp: dom_def image_iff)
  moreover have "list_all2 (\<lambda>ref p. pendingMap opts ?t ref = Some (Inr p)) (map pr_opRef out) ps"
    using ps(1) look by (fastforce simp: mapR_Inr_iff list_all2_conv_all_nth)
  ultimately show ?thesis using o(1,2) ps(2) by blast
qed

lemma list_pending_refs:
  assumes "lawful_sqlite (mo_runner opts)" "tables_ok (rn_tables (mo_runner opts) w)" "listPendingOpRefs opts w = (Inr refs, w')"
  shows "rn_tables (mo_runner opts) w' = rn_tables (mo_runner opts) w \<and> rn_saved (mo_runner opts) w' = rn_saved (mo_runner opts) w
    \<and> distinct refs \<and> set refs = dom (pendingMap opts (rn_tables (mo_runner opts) w))"
proof -
  let ?t = "rn_tables (mo_runner opts) w"
  from assms(3) obtain res u where q: "rn_getText (mo_runner opts) (ListPendingRefs (mo_docId opts)) w = (Inr res, u)"
      and k: "(case res of Some (TextRefs hexes) \<Rightarrow> liftR (mapR (\<lambda>h. hexToBytesStrict h 16) hexes) | _ \<Rightarrow> ret []) u = (Inr refs, w')"
    unfolding listPendingOpRefs_def by (rule bnd_okE)
  from lawful_queryD [OF assms(1) q] obtain rows out where o: "rn_saved (mo_runner opts) u = rn_saved (mo_runner opts) w"
      "rn_tables (mo_runner opts) u = ?t" "t_pending ?t = Some rows" "selects (\<lambda>r. pr_docId r = mo_docId opts) rows out"
      "res = Some (TextRefs (map (\<lambda>r. sqlHex (pr_opRef r)) out))" by auto
  from k o(5) have m: "mapR (\<lambda>h. hexToBytesStrict h 16) (map (\<lambda>r. sqlHex (pr_opRef r)) out) = Inr refs" "w' = u" by auto
  from m(1) have refs: "refs = map pr_opRef out"
    by (auto simp: mapR_Inr_iff list_all2_map1 list_all2_conv_all_nth split: if_splits intro!: nth_equalityI)
  have d: "distinct (map pendingKey rows)" using assms(2) o(3) by (simp add: tables_ok_def)
  note sel = selects_keys [OF o(4) d]
  have "inj_on pendingKey (set out)" "distinct out" using sel(1) by (auto simp: distinct_map)
  then have "distinct refs" using sel(2) by (auto simp: refs distinct_map inj_on_def pendingKey_def)
  moreover have "set refs = dom (pendingMap opts ?t)"
    using sel(2) by (auto simp: refs dom_def image_iff pendingMap_def o(3) lookupRow_iff [OF d] pendingKey_def)
  ultimately show ?thesis using o(1,2) m(2) by simp
qed

lemma fetch_auth:
  assumes "lawful_sqlite (mo_runner opts)" "tables_ok (rn_tables (mo_runner opts) w)" "getOpAuthByOpRefs opts refs w = (Inr found, w')"
  shows "rn_tables (mo_runner opts) w' = rn_tables (mo_runner opts) w \<and> rn_saved (mo_runner opts) w' = rn_saved (mo_runner opts) w
    \<and> list_all2 (\<lambda>ref a. opAuthMap opts (rn_tables (mo_runner opts) w) ref = map_option Inr a) refs found"
proof (cases "refs = []")
  case True
  with assms(3) show ?thesis by (simp add: getOpAuthByOpRefs_def)
next
  case False
  let ?t = "rn_tables (mo_runner opts) w"
  from assms(3) False obtain res u where q: "rn_getText (mo_runner opts) (SelectOpAuth (mo_docId opts) refs) w = (Inr res, u)"
      and k: "(case res of Some (TextOpAuth rows) \<Rightarrow> liftR (pickAuths rows refs) | _ \<Rightarrow> ret (map (\<lambda>_. None) refs)) u = (Inr found, w')"
    unfolding getOpAuthByOpRefs_def by (auto elim!: bnd_okE)
  from lawful_queryD [OF assms(1) q] obtain rows out where o: "rn_saved (mo_runner opts) u = rn_saved (mo_runner opts) w"
      "rn_tables (mo_runner opts) u = ?t" "t_opAuth ?t = Some rows"
      "selects (\<lambda>r. ar_docId r = mo_docId opts \<and> ar_opRef r \<in> set refs) rows out"
      "res = Some (TextOpAuth (map opAuthJson out))" by auto
  from k o(5) obtain es where es: "mapR opAuthOfJson (map opAuthJson out) = Inr es" "w' = u"
      "found = map (\<lambda>r. js_get (fold (\<lambda>(h, a). js_set h a) es []) (bytesToHex r)) refs"
    by (auto simp: pickAuths_def Let_def bindR_eq_Inr)
  have d: "distinct (map opAuthKey rows)" using assms(2) o(3) by (simp add: tables_ok_def)
  note sel = selects_keys [OF o(4) d]
  have len: "length es = length out" using es(1) by (auto dest: mapR_length)
  have at: "fst (es ! i) = bytesToHex (ar_opRef (out ! i))"
      "readAuth \<lparr>oa_sig = ar_sig (out ! i), oa_proofRef = ar_proofRef (out ! i)\<rparr> = Inr (snd (es ! i))" if "i < length out" for i
  proof -
    have e: "opAuthOfJson (opAuthJson (out ! i)) = Inr (es ! i)"
      using es(1) that by (auto simp: mapR_Inr_iff list_all2_conv_all_nth)
    then show "fst (es ! i) = bytesToHex (ar_opRef (out ! i))" by (rule opAuth_of_json_fst)
    from e opAuth_of_json [of "out ! i"]
    show "readAuth \<lparr>oa_sig = ar_sig (out ! i), oa_proofRef = ar_proofRef (out ! i)\<rparr> = Inr (snd (es ! i))" by simp
  qed
  have hex: "map fst es = map (\<lambda>r. bytesToHex (ar_opRef r)) out"
    using at(1) len by (simp add: list_eq_iff_nth_eq)
  have "inj_on opAuthKey (set out)" "distinct out" using sel(1) by (auto simp: distinct_map)
  then have dist: "distinct (map fst es)"
    using sel(2) by (auto simp: hex distinct_map inj_on_def opAuthKey_def bytesToHex_inj)
  have one: "opAuthMap opts ?t ref = map_option Inr (js_get (fold (\<lambda>(h, a). js_set h a) es []) (bytesToHex ref))"
    if ref: "ref \<in> set refs" for ref
  proof -
    have "js_get (fold (\<lambda>(h, a). js_set h a) es []) (bytesToHex ref) = map_of (rev es) (bytesToHex ref)"
      using jsm.get_put_all [of "[]" es "bytesToHex ref"] by (simp add: jsm.put_all_def split: option.splits)
    also have "\<dots> = map_of es (bytesToHex ref)" by (rule map_of_rev [OF dist])
    finally have g: "js_get (fold (\<lambda>(h, a). js_set h a) es []) (bytesToHex ref) = map_of es (bytesToHex ref)" .
    show ?thesis
    proof (cases "lookupRow opAuthKey rows (mo_docId opts, ref)")
      case None
      have "ar_opRef r \<noteq> ref" if "r \<in> set out" for r
        using None that sel(2) [of r] lookupRow_iff [OF d, of "(mo_docId opts, ref)" r] by (auto simp: opAuthKey_def)
      then have "bytesToHex ref \<notin> set (map fst es)" unfolding hex by (metis (no_types, lifting) bytesToHex_inj imageE list.set_map)
      then have "map_of es (bytesToHex ref) = None" by (simp add: map_of_eq_None_iff)
      with None g show ?thesis by (simp add: opAuthMap_def o(3))
    next
      case (Some r)
      then have "r \<in> set out" "ar_opRef r = ref" using sel(2) lookupRow_iff [OF d] ref by (auto simp: opAuthKey_def)
      then obtain i where i: "i < length out" "r = out ! i" by (auto simp: in_set_conv_nth)
      then have "es ! i = (bytesToHex ref, snd (es ! i))" using at(1) [OF i(1)] \<open>ar_opRef r = ref\<close> by (simp add: prod_eq_iff)
      with i(1) len have "(bytesToHex ref, snd (es ! i)) \<in> set es" by (metis nth_mem)
      with dist have "map_of es (bytesToHex ref) = Some (snd (es ! i))" by simp
      with Some g at(2) [OF i(1)] show ?thesis by (simp add: opAuthMap_def o(3) opAuth_of_json i(2))
    qed
  qed
  have "list_all2 (\<lambda>ref a. opAuthMap opts ?t ref = map_option Inr a) refs found"
    unfolding es(3) list_all2_conv_all_nth using one by simp
  then show ?thesis using o(1,2) es(2) by simp
qed

definition sqlite_ready :: "'w MaterialOptions \<Rightarrow> 'w \<Rightarrow> bool" where
  "sqlite_ready opts w \<longleftrightarrow> lawful_sqlite (mo_runner opts) \<and> rn_saved (mo_runner opts) w = None
     \<and> tables_ok (rn_tables (mo_runner opts) w)"

text \<open>The SQLite store keeps the contract of \<open>SyncOpAuthStore\<close>.\<close>

interpretation sqlite_auth: op_auth_store "storeOpAuth opts" "getOpAuthByOpRefs opts"
    "\<lambda>w. opAuthMap opts (rn_tables (mo_runner opts) w)" "sqlite_ready opts" readAuth
  for opts :: "'w MaterialOptions"
proof
  fix w w' and es
  assume r: "sqlite_ready opts w" and run: "storeOpAuth opts es w = (Inr (), w')"
  have l: "lawful_sqlite (mo_runner opts)" and none: "rn_saved (mo_runner opts) w = None" using r by (simp_all add: sqlite_ready_def)
  from stored [OF l insertOpAuth_step [OF l] none run [unfolded storeOpAuth_def]]
  have "rn_saved (mo_runner opts) w' = None \<and> chainE (authE opts) es (rn_tables (mo_runner opts) w) (rn_tables (mo_runner opts) w')"
    by simp
  with chain_auth [of opts es] r show "sqlite_ready opts w' \<and>
      opAuthMap opts (rn_tables (mo_runner opts) w') = putAuths readAuth es (opAuthMap opts (rn_tables (mo_runner opts) w))"
    by (auto simp: sqlite_ready_def)
next
  fix w w' and refs found
  assume "sqlite_ready opts w" "getOpAuthByOpRefs opts refs w = (Inr found, w')"
  then show "sqlite_ready opts w' \<and> opAuthMap opts (rn_tables (mo_runner opts) w') = opAuthMap opts (rn_tables (mo_runner opts) w)
      \<and> list_all2 (\<lambda>ref a. opAuthMap opts (rn_tables (mo_runner opts) w) ref = map_option Inr a) refs found"
    using fetch_auth [of opts w refs found w'] by (simp add: sqlite_ready_def)
qed

section \<open>An engine\<close>

text \<open>A lawful engine in memory: the tables and, in a transaction, those it began with.\<close>

definition no_table :: error where
  "no_table = ''no such table''"

fun demo_exec :: "SqlExec \<Rightarrow> (Tables \<times> Tables option, unit) pm" where
  "demo_exec BEGIN_TX (t, s) = (case s of None \<Rightarrow> (Inr (), (t, Some t)) | Some _ \<Rightarrow> (Inl ''cannot start a transaction'', (t, s)))"
| "demo_exec COMMIT_TX (t, s) = (case s of None \<Rightarrow> (Inl ''no transaction'', (t, s)) | Some _ \<Rightarrow> (Inr (), (t, None)))"
| "demo_exec ROLLBACK_TX (t, s) = (case s of None \<Rightarrow> (Inl ''no transaction'', (t, s)) | Some u \<Rightarrow> (Inr (), (u, None)))"
| "demo_exec stmt (t, s) = (Inr (), (execMeans stmt t, s))"

fun demo_query :: "SqlQuery \<Rightarrow> Tables \<Rightarrow> (SqlText option \<times> Tables) option" where
  "demo_query (InsertPending r) t = map_option (\<lambda>rows. (Some TextOne, t\<lparr>t_pending := Some (replaceRow pendingKey r rows)\<rparr>)) (t_pending t)"
| "demo_query (ListPending d) t = map_option (\<lambda>rows. (Some (TextPending (map pendingJson
     (sort_key pr_createdAtMs (filter (\<lambda>r. pr_docId r = d) rows)))), t)) (t_pending t)"
| "demo_query (ListPendingRefs d) t = map_option (\<lambda>rows. (Some (TextRefs (map (\<lambda>r. sqlHex (pr_opRef r))
     (filter (\<lambda>r. pr_docId r = d) rows))), t)) (t_pending t)"
| "demo_query (DeletePending d ref) t = map_option (\<lambda>rows. (None, t\<lparr>t_pending := Some (filter (\<lambda>r. pendingKey r \<noteq> (d, ref)) rows)\<rparr>)) (t_pending t)"
| "demo_query (InsertOpAuth r) t = map_option (\<lambda>rows. (Some TextOne, t\<lparr>t_opAuth := Some (replaceRow opAuthKey r rows)\<rparr>)) (t_opAuth t)"
| "demo_query (SelectOpAuth d refs) t = map_option (\<lambda>rows. (Some (TextOpAuth (map opAuthJson
     (filter (\<lambda>r. ar_docId r = d \<and> ar_opRef r \<in> set refs) rows))), t)) (t_opAuth t)"
| "demo_query (InsertCapability r) t = map_option (\<lambda>rows. (Some TextOne, t\<lparr>t_capability := Some (replaceRow capabilityKey r rows)\<rparr>)) (t_capability t)"
| "demo_query (ListCapabilities d) t = map_option (\<lambda>rows. (Some (TextCapabilities (map (\<lambda>r. \<lparr>cap_name = cr_name r, cap_value = cr_value r\<rparr>)
     (sort_key cr_createdAtMs (filter (\<lambda>r. cr_docId r = d) rows)))), t)) (t_capability t)"

definition demo_sqlite :: "(Tables \<times> Tables option) SqliteRunner" where
  "demo_sqlite = \<lparr>rn_exec = demo_exec,
     rn_getText = (\<lambda>q (t, s). case demo_query q t of None \<Rightarrow> (Inl no_table, (t, s)) | Some (res, u) \<Rightarrow> (Inr res, (u, s))),
     rn_tables = fst, rn_saved = snd\<rparr>"

lemma selects_refl: "selects P xs (filter P xs)" "selects P xs (sort_key key (filter P xs))"
  by (simp_all add: selects_def)

lemma demo_query_means:
  assumes "demo_query q t = Some (res, u)"
  shows "queryMeans q t res u"
proof (cases q)
  case (ListPending d)
  with assms selects_refl(2) [of "\<lambda>r. pr_docId r = d" _ pr_createdAtMs] show ?thesis
    by (auto simp del: sorted_sort_key intro: sorted_sort_key)
next
  case (ListPendingRefs d)
  with assms selects_refl(1) [of "\<lambda>r. pr_docId r = d"] show ?thesis by auto
next
  case (SelectOpAuth d refs)
  with assms selects_refl(1) [of "\<lambda>r. ar_docId r = d \<and> ar_opRef r \<in> set refs"] show ?thesis by auto
next
  case (ListCapabilities d)
  with assms selects_refl(2) [of "\<lambda>r. cr_docId r = d" _ cr_createdAtMs] show ?thesis
    by (auto simp del: sorted_sort_key intro: sorted_sort_key)
qed (use assms in auto)

lemma demo_sqlite_lawful: "lawful_sqlite demo_sqlite"
proof -
  have "case r of Inl _ \<Rightarrow> failedStmt demo_sqlite w w' | Inr _ \<Rightarrow> execRuns demo_sqlite stmt w w'"
    if "rn_exec demo_sqlite stmt w = (r, w')" for stmt w r w'
    using that by (cases stmt; cases w) (auto simp: failedStmt_def demo_sqlite_def split: option.splits)
  moreover have "case r of Inl _ \<Rightarrow> failedStmt demo_sqlite w w'
      | Inr res \<Rightarrow> rn_saved demo_sqlite w' = rn_saved demo_sqlite w \<and> queryMeans q (rn_tables demo_sqlite w) res (rn_tables demo_sqlite w')"
    if "rn_getText demo_sqlite q w = (r, w')" for q w r w'
    using that by (cases w) (auto simp: failedStmt_def demo_sqlite_def demo_query_means split: option.splits prod.splits)
  ultimately show ?thesis unfolding lawful_sqlite_def by blast
qed

text \<open>A binary form of operations: the number of the message, in unary.\<close>

instance ProtoPayloadValue :: countable by countable_datatype
instance ProtoOperationKind :: countable by countable_datatype

definition protoTuple :: "ProtoOperation \<Rightarrow> ((bytes option \<times> nat) option \<times> nat \<times> bytes) option \<times> ProtoOperationKind option" where
  "protoTuple pr = (map_option (\<lambda>m. (map_option (\<lambda>i. (poid_replica i, poid_counter i)) (pom_id m), pom_lamport m, pom_knownState m))
     (pop_meta pr), pop_kind pr)"

definition tupleProto :: "((bytes option \<times> nat) option \<times> nat \<times> bytes) option \<times> ProtoOperationKind option \<Rightarrow> ProtoOperation" where
  "tupleProto t = \<lparr>pop_meta = map_option (\<lambda>(i, l, k). \<lparr>pom_id = map_option (\<lambda>(r, c). \<lparr>poid_replica = r, poid_counter = c\<rparr>) i,
     pom_lamport = l, pom_knownState = k\<rparr>) (fst t), pop_kind = snd t\<rparr>"

lemma protoId_eta [simp]: "\<lparr>poid_replica = poid_replica i, poid_counter = poid_counter i\<rparr> = (i :: ProtoOperationId)"
  and protoMeta_eta [simp]: "\<lparr>pom_id = pom_id m, pom_lamport = pom_lamport m, pom_knownState = pom_knownState m\<rparr> = (m :: ProtoOperationMetadata)"
  by (cases i, simp) (cases m, simp)

lemma tupleProto_protoTuple [simp]: "tupleProto (protoTuple pr) = pr"
  by (cases pr) (auto simp: tupleProto_def protoTuple_def option.map_comp o_def option.map_ident intro!: option.map_ident_strong)

definition demo_material :: "(Tables \<times> Tables option) MaterialOptions" where
  "demo_material = \<lparr>mo_runner = demo_sqlite, mo_docId = ''doc'', mo_nowMs = (\<lambda>_. 0), mo_crypto = demo_crypto,
     mo_toBinary = (\<lambda>pr. replicate (to_nat (protoTuple pr)) 0),
     mo_fromBinary = (\<lambda>bs. Inr (tupleProto (from_nat (length bs))))\<rparr>"

definition demo_tables :: "Tables \<times> Tables option" where
  "demo_tables = (\<lparr>t_pending = Some [], t_opAuth = Some [], t_capability = Some []\<rparr>, None)"

lemma demo_material_simps [simp]:
  "mo_runner demo_material = demo_sqlite" "mo_docId demo_material = ''doc''" "mo_crypto demo_material = demo_crypto"
  "rn_tables demo_sqlite = fst" "rn_saved demo_sqlite = snd" "snd demo_tables = None" "tables_ok (fst demo_tables)"
  by (simp_all add: demo_material_def demo_sqlite_def demo_tables_def tables_ok_def)

lemma demo_binary_ok: "binary_ok demo_material"
  by (simp add: binary_ok_def demo_material_def)

section \<open>Properties\<close>

lemma any_step:
  assumes "lawful_sqlite (mo_runner opts)"
  shows "tx_step (mo_runner opts) (\<lambda>_ _. True) (insertPending opts p)" "tx_step (mo_runner opts) (\<lambda>_ _. True) (deletePending opts oper)"
    "tx_step (mo_runner opts) (\<lambda>_ _. True) (insertOpAuth opts e)" "tx_step (mo_runner opts) (\<lambda>_ _. True) (insertCapability opts c)"
  unfolding insertPending_def deletePending_def insertOpAuth_def insertCapability_def
  by (intro tx_step_liftR tx_step_gets tx_step_query assms TrueI)+

text \<open>
  C22: the stores are atomic: when storing or deleting throws, whichever statement failed and
  whether or not the rollback succeeded, what is committed is what was there before; when it
  returns, no transaction is left open.
\<close>
theorem material_store_atomic:
  assumes "lawful_sqlite (mo_runner opts)" and "rn_saved (mo_runner opts) w = None"
    and "m = storePendingOps opts ps \<or> m = deletePendingOps opts ops \<or> m = storeOpAuth opts es \<or> m = storeCapabilities opts caps"
    and "m w = (r, w')"
  shows "case r of Inl _ \<Rightarrow> committed (mo_runner opts) w' = rn_tables (mo_runner opts) w | Inr _ \<Rightarrow> rn_saved (mo_runner opts) w' = None"
proof -
  note atomic = stored [where E = "\<lambda>_ _ _. True", OF assms(1) _ assms(2)]
  show ?thesis using assms(3,4) any_step [OF assms(1)]
    by (auto simp: storePendingOps_def deletePendingOps_def storeOpAuth_def storeCapabilities_def dest!: atomic [rotated] split: sum.splits)
qed

text \<open>
  The store of pending ops is a map from op refs: storing updates it in list order with what
  the wire keeps of each op, deleting removes exactly the refs of the ops, listing returns each
  entry once, and the listed refs are its domain.
\<close>
theorem pending_store_refines:
  assumes "lawful_sqlite (mo_runner opts)" and "binary_ok opts"
    and "rn_saved (mo_runner opts) w = None" and "tables_ok (rn_tables (mo_runner opts) w)"
  shows "(storePendingOps opts ps w = (Inr (), w') \<longrightarrow> tables_ok (rn_tables (mo_runner opts) w')
      \<and> pendingMap opts (rn_tables (mo_runner opts) w') = pendingPut opts ps (pendingMap opts (rn_tables (mo_runner opts) w)))
    \<and> (deletePendingOps opts ops w = (Inr (), w') \<longrightarrow> tables_ok (rn_tables (mo_runner opts) w')
      \<and> pendingMap opts (rn_tables (mo_runner opts) w')
        = pendingMap opts (rn_tables (mo_runner opts) w) |` (- {ref. Inr ref \<in> pendingOpRef opts ` set ops}))
    \<and> (listPendingOps opts w = (Inr listed, w') \<longrightarrow> rn_tables (mo_runner opts) w' = rn_tables (mo_runner opts) w
      \<and> (\<exists>refs. distinct refs \<and> set refs = dom (pendingMap opts (rn_tables (mo_runner opts) w))
          \<and> list_all2 (\<lambda>ref p. pendingMap opts (rn_tables (mo_runner opts) w) ref = Some (Inr p)) refs listed))
    \<and> (listPendingOpRefs opts w = (Inr listedRefs, w') \<longrightarrow>
      distinct listedRefs \<and> set listedRefs = dom (pendingMap opts (rn_tables (mo_runner opts) w)))"
proof (intro conjI impI)
  assume "storePendingOps opts ps w = (Inr (), w')"
  with stored [where E = "insE opts", OF assms(1) insertPending_step [OF assms(1,2)] assms(3), of ps "Inr ()" w']
    chain_ins [of opts ps] assms(4)
  show "tables_ok (rn_tables (mo_runner opts) w')"
    "pendingMap opts (rn_tables (mo_runner opts) w') = pendingPut opts ps (pendingMap opts (rn_tables (mo_runner opts) w))"
    by (auto simp: storePendingOps_def)
next
  assume "deletePendingOps opts ops w = (Inr (), w')"
  with stored [where E = "delE opts", OF assms(1) deletePending_step [OF assms(1)] assms(3), of ops "Inr ()" w']
    chain_del [of opts ops] assms(4)
  show "tables_ok (rn_tables (mo_runner opts) w')" "pendingMap opts (rn_tables (mo_runner opts) w')
      = pendingMap opts (rn_tables (mo_runner opts) w) |` (- {ref. Inr ref \<in> pendingOpRef opts ` set ops})"
    by (auto simp: deletePendingOps_def)
qed (use list_pending [OF assms(1,4)] list_pending_refs [OF assms(1,4)] in blast)+

definition demo_pending :: "Operation PendingOp" where
  "demo_pending = \<lparr>po_op = demo_move, po_auth = \<lparr>oa_sig = replicate 64 1, oa_proofRef = None\<rparr>, po_message = Some []\<rparr>"

lemma demo_refs:
  shows "\<exists>ref. pendingOpRef demo_material demo_move = Inr ref" "\<exists>ref. replayOpRef demo_crypto ''doc'' demo_move = Inr ref"
proof -
  have r: "replicaIdToBytes (replicate 32 7) = Inr (replicate 32 7)" by simp
  show "\<exists>ref. pendingOpRef demo_material demo_move = Inr ref" "\<exists>ref. replayOpRef demo_crypto ''doc'' demo_move = Inr ref"
    by (simp_all add: pendingOpRef_def replayOpRef_def opRefOf_def opReplicaBytes_def demo_move_def r deriveOpRefV0_def opref_preimage_def
        encodeOperationIdV0_def u32be_def u64be_def isSafeInteger_def MAX_SAFE_INTEGER_def)
qed

lemma demo_pending_stored:
  "\<exists>ref w1. storePendingOps demo_material [demo_pending] demo_tables = (Inr (), w1) \<and> pendingOpRef demo_material demo_move = Inr ref"
proof -
  obtain ref where ref: "pendingOpRef demo_material demo_move = Inr ref" using demo_refs by blast
  obtain pr where pr: "toProtoOperation demo_move = Inr pr" using demo_move_encodes by blast
  show ?thesis
    by (simp add: storePendingOps_def inTransaction_def insertPending_def ref demo_pending_def encodeTreecrdtSyncV0Operation_def pr
        pm_simps demo_sqlite_def demo_tables_def)
qed

theorem pending_store_refines_witness:
  "\<exists>ref w1. storePendingOps demo_material [demo_pending] demo_tables = (Inr (), w1)
     \<and> pendingMap demo_material (fst w1) = [ref \<mapsto> Inr (wirePending demo_pending)] \<and> po_message (wirePending demo_pending) = None"
proof -
  obtain ref w1 where r: "storePendingOps demo_material [demo_pending] demo_tables = (Inr (), w1)"
      "pendingOpRef demo_material demo_move = Inr ref" using demo_pending_stored by blast
  have "pendingMap demo_material (fst w1) = pendingPut demo_material [demo_pending] (pendingMap demo_material (fst demo_tables))"
    using pending_store_refines [of demo_material demo_tables "[demo_pending]" w1 "[]" "[]" "[]"] r(1) demo_sqlite_lawful demo_binary_ok
    by simp
  moreover have "readPending demo_pending = Inr (wirePending demo_pending)" "po_op demo_pending = demo_move"
    by (simp_all add: readPending_def readableAuth_def demo_pending_def dropEmpty_def orEmpty_def someIfNonempty_def)
  moreover have "pendingMap demo_material (fst demo_tables) = Map.empty" by (simp add: pendingMap_def demo_tables_def fun_eq_iff)
  moreover have "po_message (wirePending demo_pending) = None"
    by (simp add: wirePending_def demo_pending_def dropEmpty_def orEmpty_def someIfNonempty_def)
  ultimately show ?thesis using r by (auto simp: pendingPut_def)
qed

definition demo_unnumbered :: Operation where
  "demo_unnumbered = demo_move\<lparr>op_meta := (op_meta demo_move)\<lparr>om_id := \<lparr>oid_replica = [], oid_counter = 4\<rparr>\<rparr>\<rparr>"

theorem material_store_atomic_witness:
  "\<exists>e w'. storePendingOps demo_material [demo_pending, demo_pending\<lparr>po_op := demo_unnumbered\<rparr>] demo_tables = (Inl e, w')
     \<and> committed demo_sqlite w' = fst demo_tables"
proof -
  obtain r w' where run: "storePendingOps demo_material [demo_pending, demo_pending\<lparr>po_op := demo_unnumbered\<rparr>] demo_tables = (r, w')"
    by (metis surj_pair)
  have bad: "pendingOpRef demo_material demo_unnumbered \<noteq> Inr ref" for ref
    by (simp add: pendingOpRef_def opReplicaBytes_def demo_unnumbered_def bindR_eq_Inr)
  have "\<exists>e. r = Inl e"
  proof (cases r)
    case (Inr u)
    with run have run': "(if [demo_pending, demo_pending\<lparr>po_op := demo_unnumbered\<rparr>] = [] then ret ()
        else inTransaction (mo_runner demo_material) (for_each (insertPending demo_material) [demo_pending, demo_pending\<lparr>po_op := demo_unnumbered\<rparr>]))
        demo_tables = (Inr (), w')" by (simp add: storePendingOps_def)
    from stored [where E = "insE demo_material", OF _ insertPending_step _ run'] demo_sqlite_lawful demo_binary_ok
    have "chainE (insE demo_material) [demo_pending, demo_pending\<lparr>po_op := demo_unnumbered\<rparr>] (fst demo_tables) (fst w')" by simp
    with chain_ins bad show ?thesis by fastforce
  qed simp
  with material_store_atomic [OF _ _ disjI1 [OF refl] run] run demo_sqlite_lawful show ?thesis by auto
qed

text \<open>
  A relay with the SQLite store forwards what it received: after the auth of a batch was
  recorded, signing any of its ops returns for each the auth it came with, up to an empty proof
  reference, and nothing else.
\<close>
theorem replayed_auth_is_recorded:
  assumes "sqlite_ready opts w" and "am_opAuth store = createOpAuthStore opts"
    and "mapR (replayOpRef cr docId) ops = Inr refs" and "distinct refs" and "length auth = length ops"
    and "replayOnVerifiedOps cr docId store ops auth w = (Inr (), v)"
    and "replaySignOps cr docId store ops' v = (Inr sigs, w')" and "set ops' \<subseteq> set ops"
  shows "list_all2 (\<lambda>oper a. \<exists>i < length ops. oper = ops ! i \<and> a = wireOpAuth (auth ! i)) ops' sigs"
proof -
  have "list_all2 (\<lambda>oper a. \<exists>i < length ops. oper = ops ! i \<and> readAuth (auth ! i) = Inr a) ops' sigs"
    by (rule sqlite_auth.replay_signs [OF assms(2) [unfolded createOpAuthStore_def] assms(1,6,5,7,8,3,4)])
  then show ?thesis by (rule list_all2_mono) (auto simp: readAuth_def split: if_splits)
qed

definition demo_relay :: "(Tables \<times> Tables option) SyncAuthMaterialStore" where
  "demo_relay = \<lparr>am_opAuth = createOpAuthStore demo_material, am_capabilities = None\<rparr>"

theorem replayed_auth_is_recorded_witness:
  "\<exists>v w' a. replayOnVerifiedOps demo_crypto ''doc'' demo_relay [demo_move] [po_auth demo_pending] demo_tables = (Inr (), v)
     \<and> replaySignOps demo_crypto ''doc'' demo_relay [demo_move, demo_move] v = (Inr [a, a], w') \<and> a = wireOpAuth (po_auth demo_pending)"
proof -
  obtain ref where ref: "replayOpRef demo_crypto ''doc'' demo_move = Inr ref" using demo_refs by blast
  let ?r = "\<lparr>ar_docId = ''doc'', ar_opRef = ref, ar_sig = replicate 64 1, ar_proofRef = None, ar_createdAtMs = 0\<rparr>"
  let ?v = "(\<lparr>t_pending = Some [], t_opAuth = Some [?r], t_capability = Some []\<rparr>, None) :: Tables \<times> Tables option"
  have 1: "replayOnVerifiedOps demo_crypto ''doc'' demo_relay [demo_move] [po_auth demo_pending] demo_tables = (Inr (), ?v)"
    by (simp add: replayOnVerifiedOps_def ref demo_relay_def createOpAuthStore_def storeOpAuth_def insertOpAuth_def inTransaction_def
        pm_simps demo_sqlite_def demo_tables_def demo_pending_def demo_material_def replaceRow_def)
  have 2: "\<exists>a. replaySignOps demo_crypto ''doc'' demo_relay [demo_move, demo_move] ?v = (Inr [a, a], ?v)"
    by (simp add: replaySignOps_def ref demo_relay_def createOpAuthStore_def getOpAuthByOpRefs_def pickAuths_def opAuthOfJson_def opAuthJson_def
        pm_simps demo_sqlite_def demo_material_def optHex_def js_get_def)
  then obtain a where a: "replaySignOps demo_crypto ''doc'' demo_relay [demo_move, demo_move] ?v = (Inr [a, a], ?v)" by blast
  have "sqlite_ready demo_material demo_tables" by (simp add: sqlite_ready_def demo_sqlite_lawful)
  from replayed_auth_is_recorded [OF this _ _ _ _ 1 a, of "[ref]"] have "a = wireOpAuth (po_auth demo_pending)"
    by (simp add: demo_relay_def ref)
  with 1 a show ?thesis by blast
qed

end
