(* ===== verification/Keyed_Maps.thy ===== *)
theory Keyed_Maps
  imports Sync_Prelude
begin

text \<open>
  JavaScript maps built by a loop \<^verbatim>\<open>for (v of values) map.set(keyOf(v), v)\<close>, as the stores use them to
  drop repeated keys: the helper \<^verbatim>\<open>dedupeLatestByKey\<close> of
  \<^verbatim>\<open>packages/sync/material/postgres/src/proof-material/postgres.ts\<close> and what it keeps.
\<close>

definition dedupeLatestByKey :: "('v \<Rightarrow> 'k) \<Rightarrow> 'v list \<Rightarrow> 'v list" where
  "dedupeLatestByKey keyOf values = map snd (fold (\<lambda>v. js_set (keyOf v) v) values [])"

lemma js_set_keyed: "\<forall>(h, v) \<in> set m. h = f v \<Longrightarrow> \<forall>(h, v) \<in> set (js_set (f x) x m). h = f v"
  by (induction "f x" x m rule: js_set.induct) (auto split: if_splits)

lemma dedupe_state:
  assumes "js_wf m" "\<forall>(h, v) \<in> set m. h = keyOf v"
  shows "js_wf (fold (\<lambda>v. js_set (keyOf v) v) vs m) \<and> (\<forall>(h, v) \<in> set (fold (\<lambda>v. js_set (keyOf v) v) vs m). h = keyOf v)"
  using assms
proof (induction vs arbitrary: m)
  case (Cons x vs)
  have "js_wf (js_set (keyOf x) x m)" using Cons.prems(1) by simp
  from Cons.IH [OF this js_set_keyed [OF Cons.prems(2)]] show ?case by simp
qed simp

definition keyed :: "('v \<Rightarrow> 'k) \<Rightarrow> 'v list \<Rightarrow> ('k \<times> 'v) list" where
  "keyed key vs = map (\<lambda>v. (key v, v)) vs"

lemma dedupe_keyed: "keyed keyOf (dedupeLatestByKey keyOf vs) = fold (\<lambda>v. js_set (keyOf v) v) vs []"
  using dedupe_state [of "[]" keyOf vs]
  by (auto simp: keyed_def dedupeLatestByKey_def intro!: map_idI split: prod.splits)

lemma dedupe_distinct: "distinct (map keyOf (dedupeLatestByKey keyOf vs))"
proof -
  have "map keyOf (dedupeLatestByKey keyOf vs) = map fst (keyed keyOf (dedupeLatestByKey keyOf vs))" by (simp add: keyed_def)
  with dedupe_state [of "[]" keyOf vs] show ?thesis by (simp add: dedupe_keyed js_wf_def)
qed

text \<open>Of the values with a key the last one stays.\<close>

lemma dedupe_latest: "map_of (keyed keyOf (dedupeLatestByKey keyOf vs)) h = map_of (rev (keyed keyOf vs)) h"
proof -
  have "fold (\<lambda>v. js_set (keyOf v) v) vs [] = jsm.put_all (keyed keyOf vs) []"
    by (simp add: jsm.put_all_def keyed_def fold_map o_def)
  then show ?thesis
    using jsm.get_put_all [of "[]" "keyed keyOf vs" h] by (simp add: dedupe_keyed js_get_def split: option.splits)
qed

lemma rev_keyed: "rev (keyed key vs) = keyed key (rev vs)"
  by (simp add: keyed_def rev_map)

lemma dedupe_set:
  assumes "inj keyOf"
  shows "set (dedupeLatestByKey keyOf vs) = set vs" "distinct (dedupeLatestByKey keyOf vs)"
proof -
  have key: "(keyOf v, v) \<in> set (keyed keyOf xs) \<longleftrightarrow> v \<in> set xs" for v xs by (auto simp: keyed_def)
  have one: "map_of (keyed keyOf xs) (keyOf v) = (if v \<in> set xs then Some v else None)" for v xs
    using assms by (induction xs) (auto simp: keyed_def inj_eq)
  have "v \<in> set (dedupeLatestByKey keyOf vs) \<longleftrightarrow> v \<in> set vs" for v
    using dedupe_latest [of keyOf vs "keyOf v"] by (simp add: rev_keyed one split: if_splits)
  then show "set (dedupeLatestByKey keyOf vs) = set vs" by blast
  show "distinct (dedupeLatestByKey keyOf vs)" using dedupe_distinct [of keyOf vs] by (simp add: distinct_map)
qed

end
