(* ===== verification/Material_Postgres.thy ===== *)
theory Material_Postgres
  imports Material_Refinement Keyed_Maps
begin

text \<open>
  The Postgres stores, \<^verbatim>\<open>packages/sync/material/postgres/src/proof-material/postgres.ts\<close>: one upsert
  with all rows instead of a loop in a transaction, after the entries of a batch with the same key
  have been reduced to the last.  The server and its driver (\<^verbatim>\<open>pg\<close>) are the parameter \<open>PgPool\<close>;
  \<open>lawful_pool\<close> says that a statement of the pool takes effect as a whole or not at all, that an upsert
  with two rows of the same key is refused, and that a client sees its own changes until it commits.
\<close>

section \<open>The server\<close>

datatype PgQuery = PgPendingSchema | PgOpAuthSchema | PgCapabilitySchema
  | UpsertOpAuth "OpAuthRow list" | SelectAuthRows string "bytes list"
  | UpsertCapabilities "CapabilityRow list" | SelectCapabilities string
  | UpsertPending "PendingRow list" | SelectPending string

datatype PgClientQuery = PG_BEGIN | PG_COMMIT | PG_ROLLBACK | PgDelete string bytes

datatype PgRows = NoRows | AuthRows "OpAuthRow list" | CapabilityRows "CapabilityRow list" | PendingRows "PendingRow list"

record 'w PgPool =
  pg_query :: "PgQuery \<Rightarrow> ('w, PgRows) pm"
  pg_connect :: "('w, unit) pm"
  pg_client :: "PgClientQuery \<Rightarrow> ('w, unit) pm"
  pg_release :: "'w \<Rightarrow> 'w"
  pg_tables :: "'w \<Rightarrow> Tables"
  pg_session :: "'w \<Rightarrow> Tables option"

text \<open>\<^verbatim>\<open>INSERT \<dots> ON CONFLICT DO UPDATE\<close> with several rows.\<close>

definition upserted :: "('r \<Rightarrow> 'k) \<Rightarrow> 'r list \<Rightarrow> 'r list \<Rightarrow> 'r list" where
  "upserted key new rows = fold (replaceRow key) new rows"

fun pgMeans :: "PgQuery \<Rightarrow> Tables \<Rightarrow> PgRows \<Rightarrow> Tables \<Rightarrow> bool" where
  "pgMeans PgPendingSchema t res t' \<longleftrightarrow> t' = execMeans PENDING_SCHEMA_SQL t"
| "pgMeans PgOpAuthSchema t res t' \<longleftrightarrow> t' = execMeans OP_AUTH_SCHEMA_SQL t"
| "pgMeans PgCapabilitySchema t res t' \<longleftrightarrow> t' = execMeans CAPABILITY_MATERIAL_SCHEMA_SQL t"
| "pgMeans (UpsertOpAuth new) t res t' \<longleftrightarrow> distinct (map opAuthKey new)
     \<and> (\<exists>rows. t_opAuth t = Some rows \<and> t' = t\<lparr>t_opAuth := Some (upserted opAuthKey new rows)\<rparr>)"
| "pgMeans (SelectAuthRows docId refs) t res t' \<longleftrightarrow> t' = t \<and> (\<exists>rows out. t_opAuth t = Some rows
     \<and> selects (\<lambda>r. ar_docId r = docId \<and> ar_opRef r \<in> set refs) rows out \<and> res = AuthRows out)"
| "pgMeans (UpsertCapabilities new) t res t' \<longleftrightarrow> distinct (map capabilityKey new)
     \<and> (\<exists>rows. t_capability t = Some rows \<and> t' = t\<lparr>t_capability := Some (upserted capabilityKey new rows)\<rparr>)"
| "pgMeans (SelectCapabilities docId) t res t' \<longleftrightarrow> t' = t \<and> (\<exists>rows out. t_capability t = Some rows
     \<and> selects (\<lambda>r. cr_docId r = docId) rows out \<and> sorted (map cr_createdAtMs out) \<and> res = CapabilityRows out)"
| "pgMeans (UpsertPending new) t res t' \<longleftrightarrow> distinct (map pendingKey new)
     \<and> (\<exists>rows. t_pending t = Some rows \<and> t' = t\<lparr>t_pending := Some (upserted pendingKey new rows)\<rparr>)"
| "pgMeans (SelectPending docId) t res t' \<longleftrightarrow> t' = t \<and> (\<exists>rows out. t_pending t = Some rows
     \<and> selects (\<lambda>r. pr_docId r = docId) rows out \<and> sorted (map pr_createdAtMs out) \<and> res = PendingRows out)"

fun clientRuns :: "PgClientQuery \<Rightarrow> Tables \<times> Tables option \<Rightarrow> Tables \<times> Tables option \<Rightarrow> bool" where
  "clientRuns PG_BEGIN (t, s) (t', s') \<longleftrightarrow> t' = t \<and> s' = Some t"
| "clientRuns PG_COMMIT (t, s) (t', s') \<longleftrightarrow> s = Some t' \<and> s' = None"
| "clientRuns PG_ROLLBACK (t, s) (t', s') \<longleftrightarrow> t' = t \<and> s' = None"
| "clientRuns (PgDelete docId ref) (t, s) (t', s') \<longleftrightarrow> t' = t \<and> (\<exists>u rows. s = Some u \<and> t_pending u = Some rows
     \<and> s' = Some (u\<lparr>t_pending := Some (filter (\<lambda>r. pendingKey r \<noteq> (docId, ref)) rows)\<rparr>))"

definition lawful_pool :: "'w PgPool \<Rightarrow> bool" where
  "lawful_pool pool \<longleftrightarrow>
     (\<forall>q w r w'. pg_query pool q w = (r, w') \<longrightarrow> pg_session pool w' = pg_session pool w
        \<and> (case r of Inl _ \<Rightarrow> pg_tables pool w' = pg_tables pool w | Inr res \<Rightarrow> pgMeans q (pg_tables pool w) res (pg_tables pool w')))
   \<and> (\<forall>w r w'. pg_connect pool w = (r, w') \<longrightarrow> pg_tables pool w' = pg_tables pool w \<and> pg_session pool w' = None)
   \<and> (\<forall>q w r w'. pg_client pool q w = (r, w') \<longrightarrow> (case r of Inl _ \<Rightarrow> pg_tables pool w' = pg_tables pool w
        | Inr _ \<Rightarrow> clientRuns q (pg_tables pool w, pg_session pool w) (pg_tables pool w', pg_session pool w')))
   \<and> (\<forall>w. pg_tables pool (pg_release pool w) = pg_tables pool w)"

section \<open>The stores\<close>

record 'w PgOptions =
  po_pool :: "'w PgPool"
  po_docId :: string
  po_nowMs :: "'w \<Rightarrow> int"
  po_crypto :: Crypto
  po_toBinary :: "ProtoOperation \<Rightarrow> bytes"
  po_fromBinary :: "bytes \<Rightarrow> ProtoOperation res"

definition pgStoreOpAuth :: "'w PgOptions \<Rightarrow> (OpRef \<times> OpAuth) list \<Rightarrow> ('w, unit) pm" where
  "pgStoreOpAuth opts entries = (if entries = [] then ret () else
     (let deduped = dedupeLatestByKey (\<lambda>e. bytesToHex (fst e)) entries in
      bnd (gets (po_nowMs opts)) (\<lambda>now.
      bnd (pg_query (po_pool opts) (UpsertOpAuth (map (\<lambda>(ref, a). \<lparr>ar_docId = po_docId opts, ar_opRef = ref, ar_sig = oa_sig a,
        ar_proofRef = oa_proofRef a, ar_createdAtMs = now\<rparr>) deduped))) (\<lambda>_. ret ()))))"

definition pgGetOpAuthByOpRefs :: "'w PgOptions \<Rightarrow> OpRef list \<Rightarrow> ('w, OpAuth option list) pm" where
  "pgGetOpAuthByOpRefs opts opRefs = (if opRefs = [] then ret []
     else bnd (pg_query (po_pool opts) (SelectAuthRows (po_docId opts) opRefs)) (\<lambda>res. case res of
       AuthRows rows \<Rightarrow> let byOpRefHex = fold (\<lambda>r. js_set (bytesToHex (ar_opRef r)) \<lparr>oa_sig = ar_sig r, oa_proofRef = ar_proofRef r\<rparr>) rows []
         in ret (map (\<lambda>ref. js_get byOpRefHex (bytesToHex ref)) opRefs)
     | _ \<Rightarrow> ret (map (\<lambda>_. None) opRefs)))"

definition pgStoreCapabilities :: "'w PgOptions \<Rightarrow> Capability list \<Rightarrow> ('w, unit) pm" where
  "pgStoreCapabilities opts caps = (if caps = [] then ret () else
     (let deduped = dedupeLatestByKey (\<lambda>c. cap_name c @ CHR 0x00 # cap_value c) caps in
      bnd (gets (po_nowMs opts)) (\<lambda>now.
      bnd (pg_query (po_pool opts) (UpsertCapabilities (map (\<lambda>c. \<lparr>cr_docId = po_docId opts, cr_name = cap_name c, cr_value = cap_value c,
        cr_createdAtMs = now\<rparr>) deduped))) (\<lambda>_. ret ()))))"

definition pgListCapabilities :: "'w PgOptions \<Rightarrow> ('w, Capability list) pm" where
  "pgListCapabilities opts = bnd (pg_query (po_pool opts) (SelectCapabilities (po_docId opts))) (\<lambda>res. case res of
       CapabilityRows rows \<Rightarrow> ret (map (\<lambda>r. \<lparr>cap_name = cr_name r, cap_value = cr_value r\<rparr>) rows)
     | _ \<Rightarrow> ret [])"

text \<open>Unlike the SQLite store this one does not check the length of the replica id here.\<close>

definition pgOpRef :: "'w PgOptions \<Rightarrow> Operation \<Rightarrow> OpRef res" where
  "pgOpRef opts oper = deriveOpRefV0 (blake3 (po_crypto opts)) (utf8ToBytes (po_crypto opts)) (po_docId opts)
     \<lparr>oib_replica = oid_replica (om_id (op_meta oper)), oib_counter = JsBigint (oid_counter (om_id (op_meta oper)))\<rparr>"

definition pgPendingRow :: "'w PgOptions \<Rightarrow> int \<Rightarrow> OpRef \<times> Operation PendingOp \<Rightarrow> PendingRow res" where
  "pgPendingRow opts now = (\<lambda>(ref, p). bindR (encodeTreecrdtSyncV0Operation (po_toBinary opts) (po_op p)) (\<lambda>bs.
     Inr \<lparr>pr_docId = po_docId opts, pr_opRef = ref, pr_op = bs, pr_sig = oa_sig (po_auth p), pr_proofRef = oa_proofRef (po_auth p),
       pr_reason = ''missing_context'', pr_message = po_message p, pr_createdAtMs = now\<rparr>))"

definition pgStorePendingOps :: "'w PgOptions \<Rightarrow> Operation PendingOp list \<Rightarrow> ('w, unit) pm" where
  "pgStorePendingOps opts entries = (if entries = [] then ret () else
     bnd (liftR (mapR (\<lambda>p. bindR (pgOpRef opts (po_op p)) (\<lambda>ref. Inr (ref, p))) entries)) (\<lambda>keyed.
     bnd (gets (po_nowMs opts)) (\<lambda>now.
     bnd (liftR (mapR (pgPendingRow opts now) (dedupeLatestByKey (\<lambda>e. bytesToHex (fst e)) keyed))) (\<lambda>rows.
     bnd (pg_query (po_pool opts) (UpsertPending rows)) (\<lambda>_. ret ())))))"

definition pgPendingOfRow :: "'w PgOptions \<Rightarrow> PendingRow \<Rightarrow> Operation PendingOp res" where
  "pgPendingOfRow opts r =
     bindR (decodeTreecrdtSyncV0Operation (po_fromBinary opts) (pr_op r)) (\<lambda>oper.
     bindR (guardR (pr_reason r = ''missing_context'') ''unexpected pending reason'') (\<lambda>_.
       Inr \<lparr>po_op = oper, po_auth = \<lparr>oa_sig = pr_sig r, oa_proofRef = pr_proofRef r\<rparr>, po_message = dropEmpty (pr_message r)\<rparr>))"

definition pgListPendingOps :: "'w PgOptions \<Rightarrow> ('w, Operation PendingOp list) pm" where
  "pgListPendingOps opts = bnd (pg_query (po_pool opts) (SelectPending (po_docId opts))) (\<lambda>res. case res of
       PendingRows rows \<Rightarrow> liftR (mapR (pgPendingOfRow opts) rows)
     | _ \<Rightarrow> ret [])"

definition pgListPendingOpRefs :: "'w PgOptions \<Rightarrow> ('w, OpRef list) pm" where
  "pgListPendingOpRefs opts = bnd (pg_query (po_pool opts) (SelectPending (po_docId opts))) (\<lambda>res. case res of
       PendingRows rows \<Rightarrow> ret (map pr_opRef rows)
     | _ \<Rightarrow> ret [])"

definition pgDeleteOne :: "'w PgOptions \<Rightarrow> Operation \<Rightarrow> ('w, unit) pm" where
  "pgDeleteOne opts oper = bnd (liftR (pgOpRef opts oper)) (\<lambda>ref. pg_client (po_pool opts) (PgDelete (po_docId opts) ref))"

definition pgDeletePendingOps :: "'w PgOptions \<Rightarrow> Operation list \<Rightarrow> ('w, unit) pm" where
  "pgDeletePendingOps opts ops = (if ops = [] then ret () else
     sq (pg_connect (po_pool opts))
       (finallyM (catch (sq (pg_client (po_pool opts) PG_BEGIN) (sq (for_each (pgDeleteOne opts) ops) (pg_client (po_pool opts) PG_COMMIT)))
           (\<lambda>err. sq (pg_client (po_pool opts) PG_ROLLBACK) (throw err)))
         (pg_release (po_pool opts))))"

section \<open>Upserts\<close>

lemma lookupRow_upserted: "lookupRow key (upserted key new rows) k
    = (case map_of (rev (keyed key new)) k of Some r \<Rightarrow> Some r | None \<Rightarrow> lookupRow key rows k)"
  unfolding upserted_def keyed_def by (induction new arbitrary: rows) (auto simp: map_add_def split: option.splits)

lemma distinct_upserted: "distinct (map key rows) \<Longrightarrow> distinct (map key (upserted key new rows))"
  unfolding upserted_def by (induction new arbitrary: rows) simp_all

lemma map_of_selects:
  assumes "selects P rows out" "distinct (map key rows)"
  shows "map_of (keyed key out) k = (case lookupRow key rows k of Some r \<Rightarrow> if P r then Some r else None | None \<Rightarrow> None)"
proof -
  note sel = selects_keys [OF assms]
  have "distinct (map fst (keyed key out))" using sel(1) by (simp add: keyed_def o_def)
  then have out: "map_of (keyed key out) k = Some r \<longleftrightarrow> r \<in> set rows \<and> P r \<and> key r = k" for r
    using sel(2) [of r] by (auto simp: keyed_def)
  show ?thesis
  proof (cases "lookupRow key rows k")
    case None
    then have "map_of (keyed key out) k \<noteq> Some r" for r using out lookupRow_iff [OF assms(2)] by (metis option.distinct(1))
    with None show ?thesis by (cases "map_of (keyed key out) k") auto
  next
    case (Some r)
    then have r: "r \<in> set rows" "key r = k" using lookupRow_iff [OF assms(2)] by auto
    show ?thesis
    proof (cases "P r")
      case True
      with r out Some show ?thesis by simp
    next
      case False
      have "map_of (keyed key out) k \<noteq> Some q" for q using out [of q] lookupRow_iff [OF assms(2), of k q] Some False by auto
      with Some False show ?thesis by (cases "map_of (keyed key out) k") auto
    qed
  qed
qed

section \<open>Auth of ops\<close>

definition pgAuthMap :: "'w PgOptions \<Rightarrow> Tables \<Rightarrow> OpRef \<Rightarrow> OpAuth res option" where
  "pgAuthMap opts t ref = map_option (\<lambda>r. Inr \<lparr>oa_sig = ar_sig r, oa_proofRef = ar_proofRef r\<rparr>)
     (lookupRow opAuthKey (rowsOf (t_opAuth t)) (po_docId opts, ref))"

definition pg_ready :: "'w PgOptions \<Rightarrow> 'w \<Rightarrow> bool" where
  "pg_ready opts w \<longleftrightarrow> lawful_pool (po_pool opts) \<and> tables_ok (pg_tables (po_pool opts) w)"

lemma pool_queryD: "lawful_pool pool \<Longrightarrow> pg_query pool q w = (Inr res, w') \<Longrightarrow> pgMeans q (pg_tables pool w) res (pg_tables pool w')"
    and pool_queryE: "lawful_pool pool \<Longrightarrow> pg_query pool q w = (Inl e, w') \<Longrightarrow> pg_tables pool w' = pg_tables pool w"
  unfolding lawful_pool_def by fastforce+

lemma map_of_hex: "map_of (keyed (\<lambda>e. bytesToHex (fst e)) es) (bytesToHex ref) = map_option (Pair ref) (map_of es ref)"
  by (induction es) (auto simp: keyed_def bytesToHex_inj)

lemma map_of_auth_rows:
  "map_of (keyed opAuthKey (map (\<lambda>(ref, a). \<lparr>ar_docId = d, ar_opRef = ref, ar_sig = oa_sig a, ar_proofRef = oa_proofRef a,
      ar_createdAtMs = now\<rparr>) es)) (d, ref)
    = map_option (\<lambda>a. \<lparr>ar_docId = d, ar_opRef = ref, ar_sig = oa_sig a, ar_proofRef = oa_proofRef a, ar_createdAtMs = now\<rparr>) (map_of es ref)"
  by (induction es) (auto simp: keyed_def opAuthKey_def split: prod.splits)

lemma dedupe_auths: "map_of (dedupeLatestByKey (\<lambda>e. bytesToHex (fst e)) es) ref = map_of (rev es) ref"
  using dedupe_latest [of "\<lambda>e. bytesToHex (fst e)" es "bytesToHex ref"]
  by (cases "map_of (dedupeLatestByKey (\<lambda>e. bytesToHex (fst e)) es) ref"; cases "map_of (rev es) ref")
    (simp_all add: rev_keyed map_of_hex)

lemma pg_store_auth:
  assumes "pg_ready opts w" "pgStoreOpAuth opts es w = (Inr (), w')"
  shows "pg_ready opts w' \<and> pgAuthMap opts (pg_tables (po_pool opts) w') = putAuths Inr es (pgAuthMap opts (pg_tables (po_pool opts) w))"
proof (cases "es = []")
  case True
  with assms show ?thesis by (simp add: pgStoreOpAuth_def)
next
  case False
  let ?d = "dedupeLatestByKey (\<lambda>e. bytesToHex (fst e)) es" and ?t = "pg_tables (po_pool opts) w"
  let ?rows = "\<lambda>now. map (\<lambda>(ref, a). \<lparr>ar_docId = po_docId opts, ar_opRef = ref, ar_sig = oa_sig a, ar_proofRef = oa_proofRef a,
      ar_createdAtMs = now\<rparr>) ?d"
  from assms(2) False obtain now res where q: "pg_query (po_pool opts) (UpsertOpAuth (?rows now)) w = (Inr res, w')"
    unfolding pgStoreOpAuth_def by (auto simp: Let_def elim!: bnd_okE)
  from assms(1) have law: "lawful_pool (po_pool opts)" "tables_ok ?t" by (simp_all add: pg_ready_def)
  from pool_queryD [OF law(1) q] obtain rows where t: "distinct (map opAuthKey (?rows now))" "t_opAuth ?t = Some rows"
      "pg_tables (po_pool opts) w' = ?t\<lparr>t_opAuth := Some (upserted opAuthKey (?rows now) rows)\<rparr>" by auto
  have ok: "tables_ok (pg_tables (po_pool opts) w')" using law(2) t(2,3) by (simp add: tables_ok_def distinct_upserted)
  have "pgAuthMap opts (pg_tables (po_pool opts) w') ref = putAuths Inr es (pgAuthMap opts ?t) ref" for ref
  proof -
    have "distinct (map fst (keyed opAuthKey (?rows now)))" using t(1) by (simp add: keyed_def o_def)
    from map_of_rev [OF this] have "map_of (rev (keyed opAuthKey (?rows now))) (po_docId opts, ref)
        = map_of (keyed opAuthKey (?rows now)) (po_docId opts, ref)" .
    then show ?thesis
      by (auto simp: pgAuthMap_def t(2,3) lookupRow_upserted map_of_auth_rows dedupe_auths putAuths_get split: option.splits)
  qed
  with ok law(1) show ?thesis by (auto simp: pg_ready_def)
qed

lemma pg_fetch_auth:
  assumes "pg_ready opts w" "pgGetOpAuthByOpRefs opts refs w = (Inr found, w')"
  shows "pg_ready opts w' \<and> pgAuthMap opts (pg_tables (po_pool opts) w') = pgAuthMap opts (pg_tables (po_pool opts) w)
    \<and> list_all2 (\<lambda>ref a. pgAuthMap opts (pg_tables (po_pool opts) w) ref = map_option Inr a) refs found"
proof (cases "refs = []")
  case True
  with assms show ?thesis by (simp add: pgGetOpAuthByOpRefs_def)
next
  case False
  let ?t = "pg_tables (po_pool opts) w" and ?auth = "\<lambda>r. \<lparr>oa_sig = ar_sig r, oa_proofRef = ar_proofRef r\<rparr>"
  from assms(1) have law: "lawful_pool (po_pool opts)" "tables_ok ?t" by (simp_all add: pg_ready_def)
  from assms(2) False obtain res where q: "pg_query (po_pool opts) (SelectAuthRows (po_docId opts) refs) w = (Inr res, w')"
      and k: "\<And>rows. res = AuthRows rows \<Longrightarrow> found = map (\<lambda>ref. js_get (fold (\<lambda>r. js_set (bytesToHex (ar_opRef r)) (?auth r)) rows []) (bytesToHex ref)) refs"
    unfolding pgGetOpAuthByOpRefs_def by (auto simp: Let_def elim!: bnd_okE split: PgRows.splits)
  from pool_queryD [OF law(1) q] obtain rows out where t: "pg_tables (po_pool opts) w' = ?t" "t_opAuth ?t = Some rows"
      "selects (\<lambda>r. ar_docId r = po_docId opts \<and> ar_opRef r \<in> set refs) rows out" "res = AuthRows out" by auto
  have d: "distinct (map opAuthKey rows)" using law(2) t(2) by (simp add: tables_ok_def)
  note sel = selects_keys [OF t(3) d]
  have found_row: "ar_docId r = po_docId opts \<and> ar_opRef r = ref" if "lookupRow opAuthKey rows (po_docId opts, ref) = Some r" for ref r
    using that lookupRow_iff [OF d] by (simp add: opAuthKey_def)
  have pairs: "map_of (map (\<lambda>r. (bytesToHex (ar_opRef r), ?auth r)) rs) (bytesToHex ref)
      = map_option ?auth (map_of (keyed opAuthKey rs) (po_docId opts, ref))" if "\<forall>r \<in> set rs. ar_docId r = po_docId opts" for rs ref
    using that by (induction rs) (auto simp: keyed_def opAuthKey_def bytesToHex_inj)
  have "js_get (fold (\<lambda>r. js_set (bytesToHex (ar_opRef r)) (?auth r)) out []) (bytesToHex ref) = map_option ?auth (lookupRow opAuthKey rows (po_docId opts, ref))"
    if ref: "ref \<in> set refs" for ref
  proof -
    have "fold (\<lambda>r. js_set (bytesToHex (ar_opRef r)) (?auth r)) out [] = jsm.put_all (map (\<lambda>r. (bytesToHex (ar_opRef r), ?auth r)) out) []"
      by (simp add: jsm.put_all_def fold_map o_def)
    then have "js_get (fold (\<lambda>r. js_set (bytesToHex (ar_opRef r)) (?auth r)) out []) (bytesToHex ref)
        = map_of (rev (map (\<lambda>r. (bytesToHex (ar_opRef r), ?auth r)) out)) (bytesToHex ref)"
      using jsm.get_put_all [of "[]" "map (\<lambda>r. (bytesToHex (ar_opRef r), ?auth r)) out" "bytesToHex ref"] by (simp split: option.splits)
    also have "\<dots> = map_option ?auth (map_of (keyed opAuthKey (rev out)) (po_docId opts, ref))"
      using pairs [of "rev out" ref] sel(2) by (simp add: rev_map)
    also have "\<dots> = map_option ?auth (map_of (keyed opAuthKey out) (po_docId opts, ref))"
      using sel(1) map_of_rev [of "keyed opAuthKey out" "(po_docId opts, ref)"] by (simp add: rev_keyed [symmetric]) (simp add: keyed_def o_def)
    also have "\<dots> = map_option ?auth (lookupRow opAuthKey rows (po_docId opts, ref))"
      using ref found_row [of ref] by (cases "lookupRow opAuthKey rows (po_docId opts, ref)") (simp_all add: map_of_selects [OF t(3) d])
    finally show ?thesis .
  qed
  then have "list_all2 (\<lambda>ref a. pgAuthMap opts ?t ref = map_option Inr a) refs found"
    by (simp add: k [OF t(4)] list_all2_conv_all_nth pgAuthMap_def t(2) option.map_comp o_def)
  with t(1) law show ?thesis by (simp add: pg_ready_def)
qed

text \<open>The Postgres store keeps the same contract as the SQLite one, with every auth readable.\<close>

interpretation postgres_auth: op_auth_store "pgStoreOpAuth opts" "pgGetOpAuthByOpRefs opts"
    "\<lambda>w. pgAuthMap opts (pg_tables (po_pool opts) w)" "pg_ready opts" Inr
  for opts :: "'w PgOptions"
proof (unfold_locales, goal_cases)
  case (1 w es w')
  then show ?case by (rule pg_store_auth)
next
  case (2 w refs found w')
  then show ?case by (rule pg_fetch_auth)
qed

section \<open>Pending ops\<close>

definition pgPendingMap :: "'w PgOptions \<Rightarrow> Tables \<Rightarrow> OpRef \<Rightarrow> Operation PendingOp res option" where
  "pgPendingMap opts t ref = map_option (pgPendingOfRow opts) (lookupRow pendingKey (rowsOf (t_pending t)) (po_docId opts, ref))"

definition pg_binary_ok :: "'w PgOptions \<Rightarrow> bool" where
  "pg_binary_ok opts \<longleftrightarrow> (\<forall>pr. po_fromBinary opts (po_toBinary opts pr) = Inr pr)"

definition pgReadPending :: "Operation PendingOp \<Rightarrow> Operation PendingOp res" where
  "pgReadPending p = Inr \<lparr>po_op = wireOperation (po_op p), po_auth = po_auth p, po_message = dropEmpty (po_message p)\<rparr>"

definition pgPut :: "'w PgOptions \<Rightarrow> Operation PendingOp list \<Rightarrow>
    (OpRef \<Rightarrow> Operation PendingOp res option) \<Rightarrow> OpRef \<Rightarrow> Operation PendingOp res option" where
  "pgPut opts ps m = fold (\<lambda>p m. case pgOpRef opts (po_op p) of Inr ref \<Rightarrow> m(ref \<mapsto> pgReadPending p) | Inl _ \<Rightarrow> m) ps m"

lemma pgPut_get:
  assumes "mapR (\<lambda>p. bindR (pgOpRef opts (po_op p)) (\<lambda>ref. Inr (ref, p))) ps = Inr refd"
  shows "pgPut opts ps m ref = (case map_of (rev refd) ref of Some p \<Rightarrow> Some (pgReadPending p) | None \<Rightarrow> m ref)"
  using assms unfolding pgPut_def
  by (induction ps arbitrary: m refd) (auto simp: bindR_eq_Inr map_add_def split: option.splits)

lemma pgPendingRow_spec:
  assumes "pgPendingRow opts now (ref, p) = Inr r"
  shows "pendingKey r = (po_docId opts, ref)" "pg_binary_ok opts \<Longrightarrow> pgPendingOfRow opts r = pgReadPending p"
proof -
  from assms obtain pr where pr: "toProtoOperation (po_op p) = Inr pr" "pr_op r = po_toBinary opts pr" "pr_reason r = ''missing_context''"
      "pr_docId r = po_docId opts" "pr_opRef r = ref" "pr_sig r = oa_sig (po_auth p)" "pr_proofRef r = oa_proofRef (po_auth p)"
      "pr_message r = po_message p"
    by (auto simp: pgPendingRow_def encodeTreecrdtSyncV0Operation_def bindR_eq_Inr)
  show "pendingKey r = (po_docId opts, ref)" by (simp add: pendingKey_def pr)
  assume "pg_binary_ok opts"
  then show "pgPendingOfRow opts r = pgReadPending p"
    using oc.dec_enc [OF pr(1)] by (simp add: pgPendingOfRow_def decodeTreecrdtSyncV0Operation_def pg_binary_ok_def pr pgReadPending_def guardR_def)
qed

lemma map_of_pending_rows:
  assumes "mapR (pgPendingRow opts now) es = Inr rows" "pg_binary_ok opts"
  shows "map_option (pgPendingOfRow opts) (map_of (keyed pendingKey rows) (po_docId opts, ref)) = map_option pgReadPending (map_of es ref)"
  using assms(1)
proof (induction es arbitrary: rows)
  case (Cons e es)
  obtain ref0 p where e: "e = (ref0, p)" by (cases e)
  with Cons.prems obtain r rs where r: "pgPendingRow opts now (ref0, p) = Inr r" "mapR (pgPendingRow opts now) es = Inr rs" "rows = r # rs"
    by (auto simp: bindR_eq_Inr)
  from Cons.IH [OF r(2)] pgPendingRow_spec [OF r(1)] assms(2) show ?case by (auto simp: r(3) e keyed_def)
qed (simp add: keyed_def)

lemma pg_store_pending:
  assumes "pg_ready opts w" "pg_binary_ok opts" "pgStorePendingOps opts ps w = (Inr (), w')"
  shows "pg_ready opts w' \<and> pgPendingMap opts (pg_tables (po_pool opts) w') = pgPut opts ps (pgPendingMap opts (pg_tables (po_pool opts) w))"
proof (cases "ps = []")
  case True
  with assms show ?thesis by (simp add: pgStorePendingOps_def pgPut_def)
next
  case False
  let ?t = "pg_tables (po_pool opts) w"
  from assms(3) False obtain refd now rows res where k: "mapR (\<lambda>p. bindR (pgOpRef opts (po_op p)) (\<lambda>ref. Inr (ref, p))) ps = Inr refd"
      "mapR (pgPendingRow opts now) (dedupeLatestByKey (\<lambda>e. bytesToHex (fst e)) refd) = Inr rows"
      "pg_query (po_pool opts) (UpsertPending rows) w = (Inr res, w')"
    unfolding pgStorePendingOps_def by (auto elim!: bnd_okE)
  from assms(1) have law: "lawful_pool (po_pool opts)" "tables_ok ?t" by (simp_all add: pg_ready_def)
  from pool_queryD [OF law(1) k(3)] obtain old where t: "distinct (map pendingKey rows)" "t_pending ?t = Some old"
      "pg_tables (po_pool opts) w' = ?t\<lparr>t_pending := Some (upserted pendingKey rows old)\<rparr>" by auto
  have ok: "tables_ok (pg_tables (po_pool opts) w')" using law(2) t(2,3) by (simp add: tables_ok_def distinct_upserted)
  have "pgPendingMap opts (pg_tables (po_pool opts) w') ref = pgPut opts ps (pgPendingMap opts ?t) ref" for ref
  proof -
    have "distinct (map fst (keyed pendingKey rows))" using t(1) by (simp add: keyed_def o_def)
    from map_of_rev [OF this] map_of_pending_rows [OF k(2) assms(2), of ref]
    have "map_option (pgPendingOfRow opts) (map_of (rev (keyed pendingKey rows)) (po_docId opts, ref)) = map_option pgReadPending (map_of (rev refd) ref)"
      by (simp add: dedupe_auths)
    then show ?thesis
      by (auto simp: pgPendingMap_def t(2,3) lookupRow_upserted pgPut_get [OF k(1)] split: option.splits)
  qed
  with ok law(1) show ?thesis by (auto simp: pg_ready_def)
qed

section \<open>Both stores\<close>

definition plainAuth :: "OpAuth \<Rightarrow> bool" where
  "plainAuth a \<longleftrightarrow> length (oa_sig a) = 64 \<and> (case oa_proofRef a of None \<Rightarrow> True | Some b \<Rightarrow> length b = 16)"

lemma plainAuth_read: "plainAuth a \<Longrightarrow> readAuth a = Inr a"
  by (cases a) (auto simp: plainAuth_def readAuth_def readableAuth_def wireOpAuth_def dropEmpty_def orEmpty_def someIfNonempty_def
      split: option.splits)

lemma plainAuth_pending: "plainAuth (po_auth p) \<Longrightarrow> readPending p = pgReadPending p"
  using plainAuth_read [of "po_auth p"] by (auto simp: readPending_def pgReadPending_def wirePending_def readAuth_def split: if_splits)

lemma putAuths_plain: "\<forall>(ref, a) \<in> set es. plainAuth a \<Longrightarrow> putAuths readAuth es m = putAuths Inr es m"
  by (induction es arbitrary: m) (auto simp: plainAuth_read)

lemma pendingPut_pgPut:
  assumes "mo_docId so = po_docId po" "mo_crypto so = po_crypto po"
    and "\<forall>p \<in> set ps. plainAuth (po_auth p) \<and> (\<exists>ref. pendingOpRef so (po_op p) = Inr ref)"
  shows "pendingPut so ps m = pgPut po ps m"
  using assms(3)
proof (induction ps arbitrary: m)
  case (Cons p ps)
  then obtain ref where ref: "pendingOpRef so (po_op p) = Inr ref" by auto
  then have "pgOpRef po (po_op p) = Inr ref"
    using assms(1,2) by (auto simp: pendingOpRef_def pgOpRef_def opReplicaBytes_def bindR_eq_Inr)
  with ref Cons show ?case by (simp add: pendingPut_def pgPut_def plainAuth_pending)
qed (simp add: pendingPut_def pgPut_def)

lemma map_option_Inr_eq: "map_option Inr x = map_option Inr y \<longleftrightarrow> x = y"
  by (cases x; cases y) simp_all

lemma same_readings:
  "list_all2 (\<lambda>ref a. m ref = map_option Inr a) refs xs \<Longrightarrow> list_all2 (\<lambda>ref a. m ref = map_option Inr a) refs ys \<Longrightarrow> xs = ys"
  by (induction refs arbitrary: xs ys) (auto simp: list_all2_Cons1 map_option_Inr_eq)

section \<open>A server\<close>

fun demo_pg :: "PgQuery \<Rightarrow> Tables \<Rightarrow> (PgRows \<times> Tables) option" where
  "demo_pg PgPendingSchema t = Some (NoRows, execMeans PENDING_SCHEMA_SQL t)"
| "demo_pg PgOpAuthSchema t = Some (NoRows, execMeans OP_AUTH_SCHEMA_SQL t)"
| "demo_pg PgCapabilitySchema t = Some (NoRows, execMeans CAPABILITY_MATERIAL_SCHEMA_SQL t)"
| "demo_pg (UpsertOpAuth new) t = (case t_opAuth t of None \<Rightarrow> None | Some rows \<Rightarrow>
     if distinct (map opAuthKey new) then Some (NoRows, t\<lparr>t_opAuth := Some (upserted opAuthKey new rows)\<rparr>) else None)"
| "demo_pg (SelectAuthRows d refs) t = map_option (\<lambda>rows. (AuthRows (filter (\<lambda>r. ar_docId r = d \<and> ar_opRef r \<in> set refs) rows), t)) (t_opAuth t)"
| "demo_pg (UpsertCapabilities new) t = (case t_capability t of None \<Rightarrow> None | Some rows \<Rightarrow>
     if distinct (map capabilityKey new) then Some (NoRows, t\<lparr>t_capability := Some (upserted capabilityKey new rows)\<rparr>) else None)"
| "demo_pg (SelectCapabilities d) t = map_option (\<lambda>rows. (CapabilityRows (sort_key cr_createdAtMs (filter (\<lambda>r. cr_docId r = d) rows)), t)) (t_capability t)"
| "demo_pg (UpsertPending new) t = (case t_pending t of None \<Rightarrow> None | Some rows \<Rightarrow>
     if distinct (map pendingKey new) then Some (NoRows, t\<lparr>t_pending := Some (upserted pendingKey new rows)\<rparr>) else None)"
| "demo_pg (SelectPending d) t = map_option (\<lambda>rows. (PendingRows (sort_key pr_createdAtMs (filter (\<lambda>r. pr_docId r = d) rows)), t)) (t_pending t)"

fun demo_client :: "PgClientQuery \<Rightarrow> Tables \<times> Tables option \<Rightarrow> unit res \<times> Tables \<times> Tables option" where
  "demo_client PG_BEGIN (t, s) = (Inr (), (t, Some t))"
| "demo_client PG_COMMIT (t, s) = (case s of None \<Rightarrow> (Inl ''no transaction'', (t, s)) | Some u \<Rightarrow> (Inr (), (u, None)))"
| "demo_client PG_ROLLBACK (t, s) = (Inr (), (t, None))"
| "demo_client (PgDelete d ref) (t, s) = (case Option.bind s t_pending of None \<Rightarrow> (Inl no_table, (t, s))
     | Some rows \<Rightarrow> (Inr (), (t, map_option (\<lambda>u. u\<lparr>t_pending := Some (filter (\<lambda>r. pendingKey r \<noteq> (d, ref)) rows)\<rparr>) s)))"

definition demo_pool :: "(Tables \<times> Tables option) PgPool" where
  "demo_pool = \<lparr>pg_query = (\<lambda>q (t, s). case demo_pg q t of None \<Rightarrow> (Inl no_table, (t, s)) | Some (res, u) \<Rightarrow> (Inr res, (u, s))),
     pg_connect = (\<lambda>(t, s). (Inr (), (t, None))), pg_client = demo_client, pg_release = (\<lambda>(t, s). (t, None)), pg_tables = fst, pg_session = snd\<rparr>"

lemma demo_pg_means:
  assumes "demo_pg q t = Some (res, u)"
  shows "pgMeans q t res u"
proof (cases q)
  case (SelectAuthRows d refs)
  with assms selects_refl(1) [of "\<lambda>r. ar_docId r = d \<and> ar_opRef r \<in> set refs"] show ?thesis by auto
next
  case (SelectCapabilities d)
  with assms selects_refl(2) [of "\<lambda>r. cr_docId r = d" _ cr_createdAtMs] show ?thesis
    by (auto simp del: sorted_sort_key intro: sorted_sort_key)
next
  case (SelectPending d)
  with assms selects_refl(2) [of "\<lambda>r. pr_docId r = d" _ pr_createdAtMs] show ?thesis
    by (auto simp del: sorted_sort_key intro: sorted_sort_key)
qed (use assms in \<open>auto split: option.splits if_splits\<close>)

lemma demo_client_means:
  assumes "demo_client q (t, s) = (r, (t', s'))"
  shows "case r of Inl _ \<Rightarrow> t' = t | Inr _ \<Rightarrow> clientRuns q (t, s) (t', s')"
  using assms by (cases q; cases s) (auto split: option.splits)

lemma demo_pool_lawful: "lawful_pool demo_pool"
proof -
  have "pg_session demo_pool w' = pg_session demo_pool w \<and> (case r of Inl _ \<Rightarrow> pg_tables demo_pool w' = pg_tables demo_pool w
      | Inr res \<Rightarrow> pgMeans q (pg_tables demo_pool w) res (pg_tables demo_pool w'))" if "pg_query demo_pool q w = (r, w')" for q w r w'
    using that by (cases w) (auto simp: demo_pool_def demo_pg_means split: option.splits prod.splits)
  moreover have "pg_tables demo_pool w' = pg_tables demo_pool w \<and> pg_session demo_pool w' = None" if "pg_connect demo_pool w = (r, w')" for w r w'
    using that by (cases w) (auto simp: demo_pool_def)
  moreover have "case r of Inl _ \<Rightarrow> pg_tables demo_pool w' = pg_tables demo_pool w
      | Inr _ \<Rightarrow> clientRuns q (pg_tables demo_pool w, pg_session demo_pool w) (pg_tables demo_pool w', pg_session demo_pool w')"
    if "pg_client demo_pool q w = (r, w')" for q w r w'
    using that demo_client_means by (cases w; cases w') (auto simp: demo_pool_def)
  moreover have "pg_tables demo_pool (pg_release demo_pool w) = pg_tables demo_pool w" for w by (cases w) (simp add: demo_pool_def)
  ultimately show ?thesis unfolding lawful_pool_def by blast
qed

definition demo_pg_options :: "(Tables \<times> Tables option) PgOptions" where
  "demo_pg_options = \<lparr>po_pool = demo_pool, po_docId = ''doc'', po_nowMs = (\<lambda>_. 0), po_crypto = demo_crypto,
     po_toBinary = mo_toBinary demo_material, po_fromBinary = mo_fromBinary demo_material\<rparr>"

section \<open>Properties\<close>



end
