(* ===== verification/Sync_Backend.thy ===== *)
theory Sync_Backend
  imports Material_Refinement Keyed_Maps
begin

text \<open>
  \<^verbatim>\<open>packages/sync/material/sqlite/src/backend.ts\<close>: the backend of a sync peer over a SQLite client.
  The client (its op tables, its SQL functions) is the parameter \<open>BackendClient\<close>; the pending ops
  are those of \<open>Material_Store\<close>.  The closure's \<^verbatim>\<open>pendingReady\<close> is a field around the outside world.
\<close>

section \<open>Client and options\<close>

text \<open>
  \<open>cl_treePayload\<close> and \<open>cl_latestPayload\<close> stand for the two queries of
  \<^verbatim>\<open>maybeLoadNodePayloadWriterOpRef\<close>: the parsed row \<^verbatim>\<open>{ replica, counter }\<close> and the hex op ref.
\<close>

record 'w BackendClient =
  cl_hasRunner :: bool
  cl_headLamport :: "('w, nat) pm option"
  cl_allRefs :: "('w, OpRef list) pm"
  cl_childRefs :: "string \<Rightarrow> ('w, OpRef list) pm"
  cl_opsAll :: "('w, Operation list) pm option"
  cl_opsGet :: "OpRef list \<Rightarrow> ('w, Operation list) pm"
  cl_appendMany :: "Operation list \<Rightarrow> ('w, unit) pm"
  cl_ensureMaterialized :: "('w, unit) pm"
  cl_treePayload :: "bytes \<Rightarrow> ('w, (string \<times> string option) option) pm"
  cl_latestPayload :: "bytes \<Rightarrow> ('w, string option) pm"

record 'w BackendState =
  bk_world :: 'w
  bk_pendingReady :: bool

record 'w BackendOptions =
  be_client :: "'w BackendClient"
  be_docId :: string
  be_crypto :: Crypto
  be_pending :: "'w MaterialOptions option"
  be_maxLamport :: "('w, nat) pm option"

definition liftB :: "('w, 'a) pm \<Rightarrow> ('w BackendState, 'a) pm" where
  "liftB m = (\<lambda>s. case m (bk_world s) of (r, w') \<Rightarrow> (r, s\<lparr>bk_world := w'\<rparr>))"

section \<open>The payload writer of a node\<close>

text \<open>\<^verbatim>\<open>BigInt\<close> of what \<^verbatim>\<open>CAST(\<dots> AS TEXT)\<close> writes for an integer; other texts make it throw.\<close>

definition bigIntOfText :: "string \<Rightarrow> int option" where
  "bigIntOfText s = (if s \<noteq> [] \<and> list_all is_dec_char s then Some (int (parse_dec s))
     else if s \<noteq> [] \<and> hd s = CHR ''-'' \<and> tl s \<noteq> [] \<and> list_all is_dec_char (tl s) then Some (- int (parse_dec (tl s)))
     else None)"

definition writerOfRow :: "Crypto \<Rightarrow> string \<Rightarrow> (string \<times> string option) option \<Rightarrow> OpRef option" where
  "writerOfRow cr docId row = (case row of
       Some (replicaHex, Some counterText) \<Rightarrow>
         if replicaHex = [] then None
         else let counter = (case bigIntOfText counterText of None \<Rightarrow> 0 | Some n \<Rightarrow> n) in
           if 0 < counter then (case bindR (hexToBytes replicaHex) (\<lambda>replica.
               deriveOpRefV0 (blake3 cr) (utf8ToBytes cr) docId \<lparr>oib_replica = replica, oib_counter = JsBigint counter\<rparr>) of
             Inl _ \<Rightarrow> None | Inr ref \<Rightarrow> Some ref)
           else None
     | _ \<Rightarrow> None)"

definition writerOfHex :: "string option \<Rightarrow> OpRef option" where
  "writerOfHex opRefHex = (case opRefHex of
       None \<Rightarrow> None
     | Some h \<Rightarrow> if h = [] then None else (case hexToBytes h of
         Inl _ \<Rightarrow> None
       | Inr opRef \<Rightarrow> if length opRef = 16 then Some opRef else None))"

definition maybeLoadNodePayloadWriterOpRef :: "'w BackendOptions \<Rightarrow> bytes \<Rightarrow> ('w, OpRef option) pm" where
  "maybeLoadNodePayloadWriterOpRef opts nodeBytes =
     sq (catch (cl_ensureMaterialized (be_client opts)) (\<lambda>_. ret ()))
     (bnd (cl_treePayload (be_client opts) nodeBytes) (\<lambda>row. case writerOfRow (be_crypto opts) (be_docId opts) row of
        Some ref \<Rightarrow> ret (Some ref)
      | None \<Rightarrow> bnd (cl_latestPayload (be_client opts) nodeBytes) (\<lambda>h. ret (writerOfHex h))))"

section \<open>The backend\<close>

definition ensurePendingReady :: "'w BackendOptions \<Rightarrow> ('w BackendState, unit) pm" where
  "ensurePendingReady opts = (case be_pending opts of
       None \<Rightarrow> ret ()
     | Some pending \<Rightarrow> bnd (gets bk_pendingReady) (\<lambda>ready. if ready then ret ()
         else sq (liftB (pendingInit pending)) (modify (\<lambda>s. s\<lparr>bk_pendingReady := True\<rparr>))))"

definition defaultMaxLamport :: "'w BackendOptions \<Rightarrow> ('w, nat) pm" where
  "defaultMaxLamport opts = (case cl_headLamport (be_client opts) of
       Some head \<Rightarrow> head
     | None \<Rightarrow> (case cl_opsAll (be_client opts) of
         Some all \<Rightarrow> bnd all (\<lambda>ops. ret (nat (fold (\<lambda>oper acc. max acc (om_lamport (op_meta oper))) ops 0)))
       | None \<Rightarrow> throw ''maxLamport: missing client.meta.headLamport and client.ops.all''))"

definition mergeRefs :: "OpRef list \<Rightarrow> OpRef list \<Rightarrow> OpRef list" where
  "mergeRefs refs pendingRefs = map snd (fold (\<lambda>r. js_set (bytesToHex r) r) pendingRefs
     (fold (\<lambda>r. js_set (bytesToHex r) r) refs []))"

definition listAllRefs :: "'w BackendOptions \<Rightarrow> ('w BackendState, OpRef list) pm" where
  "listAllRefs opts = bnd (liftB (cl_allRefs (be_client opts))) (\<lambda>refs. case be_pending opts of
       None \<Rightarrow> ret refs
     | Some pending \<Rightarrow> sq (ensurePendingReady opts)
         (bnd (liftB (listPendingOpRefs pending)) (\<lambda>pendingRefs.
           ret (if pendingRefs = [] then refs else mergeRefs refs pendingRefs))))"

definition listChildRefs :: "'w BackendOptions \<Rightarrow> bytes \<Rightarrow> ('w BackendState, OpRef list) pm" where
  "listChildRefs opts parent = bnd (liftB (cl_childRefs (be_client opts) (bytesToHex parent))) (\<lambda>refs.
     if \<not> cl_hasRunner (be_client opts) then ret refs
     else bnd (liftB (maybeLoadNodePayloadWriterOpRef opts parent)) (\<lambda>writer. ret (case writer of
         None \<Rightarrow> refs
       | Some ref \<Rightarrow> if bytesToHex ref \<in> set (map bytesToHex refs) then refs else refs @ [ref])))"

fun listOpRefs :: "'w BackendOptions \<Rightarrow> Filter \<Rightarrow> ('w BackendState, OpRef list) pm" where
  "listOpRefs opts FilterAll = listAllRefs opts"
| "listOpRefs opts (FilterChildren parent) = listChildRefs opts parent"

definition whenPending :: "'w BackendOptions \<Rightarrow> ('w MaterialOptions \<Rightarrow> ('w, 'a) pm) \<Rightarrow> ('w BackendState, 'a) pm option" where
  "whenPending opts f = map_option (\<lambda>pending. sq (ensurePendingReady opts) (liftB (f pending))) (be_pending opts)"

definition createTreecrdtSyncBackendFromClient :: "'w BackendOptions \<Rightarrow> (Operation, 'w BackendState) SyncBackend res" where
  "createTreecrdtSyncBackendFromClient opts =
     bindR (guardR (be_pending opts = None \<or> cl_hasRunner (be_client opts)) ''enablePendingSidecar requires client.runner'') (\<lambda>_.
     Inr \<lparr>sb_docId = be_docId opts,
       sb_maxLamport = liftB (case be_maxLamport opts of Some m \<Rightarrow> m | None \<Rightarrow> defaultMaxLamport opts),
       sb_listOpRefs = listOpRefs opts,
       sb_getOpsByOpRefs = (\<lambda>refs. liftB (cl_opsGet (be_client opts) refs)),
       sb_applyOps = (\<lambda>ops. if ops = [] then ret () else liftB (cl_appendMany (be_client opts) ops)),
       sb_storePendingOps = (if be_pending opts = None then None else
         Some (\<lambda>ps. case whenPending opts (\<lambda>p. storePendingOps p ps) of Some m \<Rightarrow> m | None \<Rightarrow> ret ())),
       sb_listPendingOps = whenPending opts listPendingOps,
       sb_deletePendingOps = (if be_pending opts = None then None else
         Some (\<lambda>ops. case whenPending opts (\<lambda>p. deletePendingOps p ops) of Some m \<Rightarrow> m | None \<Rightarrow> ret ()))\<rparr>)"

section \<open>What the backend lists\<close>

lemma mergeRefs_dedupe: "mergeRefs refs ps = dedupeLatestByKey bytesToHex (refs @ ps)"
  by (simp add: mergeRefs_def dedupeLatestByKey_def)

lemma mergeRefs_set: "set (mergeRefs refs ps) = set refs \<union> set ps" "distinct (mergeRefs refs ps)"
proof -
  have "inj bytesToHex" by (simp add: inj_def bytesToHex_inj)
  then show "set (mergeRefs refs ps) = set refs \<union> set ps" "distinct (mergeRefs refs ps)"
    by (simp_all add: mergeRefs_dedupe dedupe_set)
qed

lemma liftB_okE:
  assumes "liftB m s = (Inr x, s')"
  obtains w' where "m (bk_world s) = (Inr x, w')" "s' = s\<lparr>bk_world := w'\<rparr>"
  using assms by (auto simp: liftB_def split: prod.splits)

text \<open>Creating the table keeps what is pending.\<close>

lemma pendingInit_keeps:
  assumes "sqlite_ready po w" "pendingInit po w = (Inr (), w')"
  shows "sqlite_ready po w' \<and> pendingMap po (rn_tables (mo_runner po) w') = pendingMap po (rn_tables (mo_runner po) w)"
proof -
  have "lawful_sqlite (mo_runner po)" using assms(1) by (simp add: sqlite_ready_def)
  from lawful_execD [OF this] assms(2) have t: "rn_saved (mo_runner po) w' = rn_saved (mo_runner po) w"
      "rn_tables (mo_runner po) w' = execMeans PENDING_SCHEMA_SQL (rn_tables (mo_runner po) w)"
    by (fastforce simp: pendingInit_def)+
  have "rowsOf (t_pending (execMeans PENDING_SCHEMA_SQL t)) = rowsOf (t_pending t)" for t by (cases "t_pending t") simp_all
  then have "tables_ok (execMeans PENDING_SCHEMA_SQL t) = tables_ok t" "pendingMap po (execMeans PENDING_SCHEMA_SQL t) = pendingMap po t" for t
    by (auto simp: tables_ok_def pendingMap_def)
  with assms(1) t show ?thesis by (simp add: sqlite_ready_def)
qed

lemma ensurePendingReady_keeps:
  assumes "be_pending opts = Some po" "sqlite_ready po (bk_world s)" "ensurePendingReady opts s = (Inr (), s')"
  shows "sqlite_ready po (bk_world s')
    \<and> pendingMap po (rn_tables (mo_runner po) (bk_world s')) = pendingMap po (rn_tables (mo_runner po) (bk_world s))"
proof (cases "bk_pendingReady s")
  case True
  with assms show ?thesis by (simp add: ensurePendingReady_def bnd_eval)
next
  case False
  with assms(1,3) obtain w' where "pendingInit po (bk_world s) = (Inr (), w')" "bk_world s' = w'"
    by (auto simp: ensurePendingReady_def bnd_eval elim!: sq_okE liftB_okE)
  with pendingInit_keeps [OF assms(2)] show ?thesis by simp
qed

text \<open>Reading the client's op refs leaves the tables of the stores alone.\<close>

definition client_apart :: "'w BackendOptions \<Rightarrow> 'w MaterialOptions \<Rightarrow> bool" where
  "client_apart opts po \<longleftrightarrow> (\<forall>w r w'. cl_allRefs (be_client opts) w = (r, w') \<longrightarrow>
     rn_tables (mo_runner po) w' = rn_tables (mo_runner po) w \<and> rn_saved (mo_runner po) w' = rn_saved (mo_runner po) w)"

lemma listAllRefs_set:
  assumes "be_pending opts = Some po" "sqlite_ready po (bk_world s)"
    and apart: "client_apart opts po"
    and "listAllRefs opts s = (Inr out, s')"
  shows "\<exists>refs v. cl_allRefs (be_client opts) (bk_world s) = (Inr refs, v)
    \<and> set out = set refs \<union> dom (pendingMap po (rn_tables (mo_runner po) (bk_world s)))
    \<and> (dom (pendingMap po (rn_tables (mo_runner po) (bk_world s))) \<noteq> {} \<longrightarrow> distinct out)"
proof -
  from assms(1,4) obtain refs v s1 where r: "cl_allRefs (be_client opts) (bk_world s) = (Inr refs, v)" "s1 = s\<lparr>bk_world := v\<rparr>"
      "sq (ensurePendingReady opts) (bnd (liftB (listPendingOpRefs po)) (\<lambda>pendingRefs.
         ret (if pendingRefs = [] then refs else mergeRefs refs pendingRefs))) s1 = (Inr out, s')"
    unfolding listAllRefs_def by (auto elim!: bnd_okE liftB_okE)
  from apart r(1) have "rn_tables (mo_runner po) v = rn_tables (mo_runner po) (bk_world s)"
      "rn_saved (mo_runner po) v = rn_saved (mo_runner po) (bk_world s)" unfolding client_apart_def by blast+
  with assms(2) r(2) have s1: "sqlite_ready po (bk_world s1)"
      "rn_tables (mo_runner po) (bk_world s1) = rn_tables (mo_runner po) (bk_world s)" by (simp_all add: sqlite_ready_def)
  from r(3) obtain s2 where e: "ensurePendingReady opts s1 = (Inr (), s2)"
      "bnd (liftB (listPendingOpRefs po)) (\<lambda>pendingRefs. ret (if pendingRefs = [] then refs else mergeRefs refs pendingRefs)) s2 = (Inr out, s')"
    by (auto elim!: sq_okE)
  from ensurePendingReady_keeps [OF assms(1) s1(1) e(1)] s1(2) have s2: "sqlite_ready po (bk_world s2)"
      "pendingMap po (rn_tables (mo_runner po) (bk_world s2)) = pendingMap po (rn_tables (mo_runner po) (bk_world s))" by simp_all
  from e(2) obtain ps u where l: "listPendingOpRefs po (bk_world s2) = (Inr ps, u)" "out = (if ps = [] then refs else mergeRefs refs ps)"
    by (auto elim!: bnd_okE liftB_okE)
  from list_pending_refs [OF _ _ l(1)] s2 have "distinct ps" "set ps = dom (pendingMap po (rn_tables (mo_runner po) (bk_world s)))"
    by (simp_all add: sqlite_ready_def)
  with r(1) l(2) mergeRefs_set [of refs ps] show ?thesis by (cases "ps = []") auto
qed

lemma pendingPut_dom:
  assumes "\<forall>p \<in> set ps. \<exists>ref. pendingOpRef po (po_op p) = Inr ref"
  shows "dom (pendingPut po ps m) = dom m \<union> {ref. \<exists>p \<in> set ps. pendingOpRef po (po_op p) = Inr ref}"
  using assms
proof (induction ps arbitrary: m)
  case (Cons p ps)
  then obtain ref where ref: "pendingOpRef po (po_op p) = Inr ref" by auto
  then have "pendingPut po (p # ps) m = pendingPut po ps (m(ref \<mapsto> readPending p))" by (simp add: pendingPut_def)
  moreover have "dom (pendingPut po ps (m(ref \<mapsto> readPending p))) = dom (m(ref \<mapsto> readPending p)) \<union> {ref. \<exists>p \<in> set ps. pendingOpRef po (po_op p) = Inr ref}"
    using Cons by simp
  ultimately show ?case using ref by auto
qed (simp add: pendingPut_def)

section \<open>Properties\<close>

text \<open>
  An op stored as pending is advertised: after the backend has stored ops that wait for
  context, its list of all refs is what the client holds together with every pending ref, those of
  the ops just stored included, and without repetition, so that a reconciliation does not ask for
  them again.
\<close>
theorem backend_advertises_pending:
  assumes "createTreecrdtSyncBackendFromClient opts = Inr b" and "be_pending opts = Some po"
    and "sqlite_ready po (bk_world s)" and "binary_ok po"
    and apart: "client_apart opts po"
    and "sb_storePendingOps b = Some store" and "store ps s = (Inr (), s')" and "sb_listOpRefs b FilterAll s' = (Inr out, s'')"
  shows "\<exists>refs v. cl_allRefs (be_client opts) (bk_world s') = (Inr refs, v)
    \<and> set out = set refs \<union> dom (pendingMap po (rn_tables (mo_runner po) (bk_world s)))
        \<union> {ref. \<exists>p \<in> set ps. pendingOpRef po (po_op p) = Inr ref}
    \<and> (ps \<noteq> [] \<longrightarrow> distinct out)"
proof -
  let ?map = "\<lambda>s. pendingMap po (rn_tables (mo_runner po) (bk_world s))"
  from assms(1) have b: "sb_listOpRefs b FilterAll = listAllRefs opts"
      "sb_storePendingOps b = Some (\<lambda>ps. sq (ensurePendingReady opts) (liftB (storePendingOps po ps)))"
    using assms(2) by (auto simp: createTreecrdtSyncBackendFromClient_def bindR_eq_Inr whenPending_def)
  from assms(6,7) b(2) obtain s1 w1 where e: "ensurePendingReady opts s = (Inr (), s1)"
      "storePendingOps po ps (bk_world s1) = (Inr (), w1)" "s' = s1\<lparr>bk_world := w1\<rparr>"
    by (auto elim!: sq_okE liftB_okE)
  from ensurePendingReady_keeps [OF assms(2,3) e(1)] have s1: "sqlite_ready po (bk_world s1)" "?map s1 = ?map s" by simp_all
  have law: "lawful_sqlite (mo_runner po)" "rn_saved (mo_runner po) (bk_world s1) = None" "tables_ok (rn_tables (mo_runner po) (bk_world s1))"
    using s1(1) by (simp_all add: sqlite_ready_def)
  from stored [where E = "insE po", OF law(1) insertPending_step [OF law(1) assms(4)] law(2), of ps "Inr ()" w1] e(2)
  have c: "rn_saved (mo_runner po) w1 = None" "chainE (insE po) ps (rn_tables (mo_runner po) (bk_world s1)) (rn_tables (mo_runner po) w1)"
    by (simp_all add: storePendingOps_def)
  from chain_ins [OF c(2)] law(3) have p: "tables_ok (rn_tables (mo_runner po) w1)"
      "pendingMap po (rn_tables (mo_runner po) w1) = pendingPut po ps (?map s1)" "\<forall>p \<in> set ps. \<exists>ref. pendingOpRef po (po_op p) = Inr ref" by auto
  have ready: "sqlite_ready po (bk_world s')" using c(1) p(1) law(1) e(3) by (simp add: sqlite_ready_def)
  have dom: "dom (?map s') = dom (?map s) \<union> {ref. \<exists>p \<in> set ps. pendingOpRef po (po_op p) = Inr ref}"
    using pendingPut_dom [OF p(3)] p(2) e(3) s1(2) by simp
  have "ps \<noteq> [] \<longrightarrow> dom (?map s') \<noteq> {}" using p(3) unfolding dom by (cases ps) auto
  with listAllRefs_set [OF assms(2) ready apart assms(8) [unfolded b(1)]] dom show ?thesis by auto
qed

definition demo_backend :: "(Tables \<times> Tables option) BackendOptions" where
  "demo_backend = \<lparr>be_client = \<lparr>cl_hasRunner = True, cl_headLamport = None, cl_allRefs = ret [[1], [1]], cl_childRefs = (\<lambda>_. ret []),
     cl_opsAll = None, cl_opsGet = (\<lambda>_. ret []), cl_appendMany = (\<lambda>_. ret ()), cl_ensureMaterialized = ret (),
     cl_treePayload = (\<lambda>_. ret None), cl_latestPayload = (\<lambda>_. ret None)\<rparr>,
     be_docId = ''doc'', be_crypto = demo_crypto, be_pending = Some demo_material, be_maxLamport = None\<rparr>"

theorem backend_advertises_pending_witness:
  "\<exists>b store s' out s'' ref. createTreecrdtSyncBackendFromClient demo_backend = Inr b \<and> sb_storePendingOps b = Some store
     \<and> store [demo_pending] \<lparr>bk_world = demo_tables, bk_pendingReady = True\<rparr> = (Inr (), s')
     \<and> sb_listOpRefs b FilterAll s' = (Inr out, s'') \<and> pendingOpRef demo_material demo_move = Inr ref \<and> set out = {[1], ref} \<and> distinct out"
proof -
  obtain b where b: "createTreecrdtSyncBackendFromClient demo_backend = Inr b"
      "sb_listOpRefs b FilterAll = listAllRefs demo_backend"
      "sb_storePendingOps b = Some (\<lambda>ps. sq (ensurePendingReady demo_backend) (liftB (storePendingOps demo_material ps)))"
    by (auto simp: createTreecrdtSyncBackendFromClient_def demo_backend_def whenPending_def guardR_def)
  let ?s = "\<lparr>bk_world = demo_tables, bk_pendingReady = True\<rparr>"
  obtain ref where ref: "pendingOpRef demo_material demo_move = Inr ref" using demo_refs by blast
  obtain pr where pr: "toProtoOperation demo_move = Inr pr" using demo_move_encodes by blast
  have op: "po_op demo_pending = demo_move" by (simp add: demo_pending_def)
  let ?r = "\<lparr>pr_docId = ''doc'', pr_opRef = ref, pr_op = mo_toBinary demo_material pr, pr_sig = replicate 64 1, pr_proofRef = None,
      pr_reason = ''missing_context'', pr_message = Some [], pr_createdAtMs = 0\<rparr>"
  let ?v = "(\<lparr>t_pending = Some [?r], t_opAuth = Some [], t_capability = Some []\<rparr>, None) :: Tables \<times> Tables option"
  have 1: "storePendingOps demo_material [demo_pending] demo_tables = (Inr (), ?v)"
    by (simp add: storePendingOps_def inTransaction_def insertPending_def ref op encodeTreecrdtSyncV0Operation_def pr pm_simps
        demo_sqlite_def demo_tables_def replaceRow_def) (simp add: demo_pending_def demo_material_def)
  have "length ref = 16" 
    using ref by (auto simp: pendingOpRef_def deriveOpRefV0_def bindR_eq_Inr OPREF_V0_WIDTH_BYTES_def demo_crypto_def)
  then have "\<exists>out. listAllRefs demo_backend \<lparr>bk_world = ?v, bk_pendingReady = True\<rparr> = (Inr out, \<lparr>bk_world = ?v, bk_pendingReady = True\<rparr>)"
    by (simp add: listAllRefs_def liftB_def pm_simps ensurePendingReady_def listPendingOpRefs_def demo_backend_def demo_sqlite_def)
  then obtain out where 2: "sb_listOpRefs b FilterAll \<lparr>bk_world = ?v, bk_pendingReady = True\<rparr> = (Inr out, \<lparr>bk_world = ?v, bk_pendingReady = True\<rparr>)"
    unfolding b(2) by blast
  have 3: "(\<lambda>ps. sq (ensurePendingReady demo_backend) (liftB (storePendingOps demo_material ps))) [demo_pending] ?s
      = (Inr (), \<lparr>bk_world = ?v, bk_pendingReady = True\<rparr>)"
    by (simp add: 1 ensurePendingReady_def liftB_def pm_simps demo_backend_def)
  have ready: "sqlite_ready demo_material (bk_world ?s)" by (simp add: sqlite_ready_def demo_sqlite_lawful)
  have empty: "dom (pendingMap demo_material (rn_tables demo_sqlite demo_tables)) = {}" by (auto simp: pendingMap_def demo_tables_def)
  have pend: "be_pending demo_backend = Some demo_material" and refs: "cl_allRefs (be_client demo_backend) = ret [[1], [1]]"
    by (simp_all add: demo_backend_def)
  have "client_apart demo_backend demo_material" by (simp add: client_apart_def refs)
  note adv = backend_advertises_pending [OF b(1) pend ready demo_binary_ok this b(3) 3 2]
  have w: "bk_world ?s = demo_tables" and w': "bk_world \<lparr>bk_world = ?v, bk_pendingReady = True\<rparr> = ?v"
    and runner: "mo_runner demo_material = demo_sqlite" by (simp_all add: demo_material_def)
  from adv [unfolded w w' runner] obtain rs v where o: "cl_allRefs (be_client demo_backend) ?v = (Inr rs, v)"
      "set out = set rs \<union> dom (pendingMap demo_material (rn_tables demo_sqlite demo_tables))
        \<union> {r. \<exists>p \<in> set [demo_pending]. pendingOpRef demo_material (po_op p) = Inr r}"
      "[demo_pending] \<noteq> [] \<longrightarrow> distinct out" by (elim exE conjE)
  from o(1) have "rs = [[1], [1]]" unfolding refs by (simp add: pm_simps)
  then have "set rs = {[1]}" by simp
  moreover have "{r. \<exists>p \<in> set [demo_pending]. pendingOpRef demo_material (po_op p) = Inr r} = {ref}" by (simp add: op ref)
  ultimately have "set out = {[1], ref} \<and> distinct out" using o(3) unfolding o(2) empty by auto
  note out = this
  show ?thesis by (rule exI, rule exI, rule exI, rule exI, rule exI, rule exI [of _ ref], intro conjI)
      (rule b(1) b(3) 3 2 ref out [THEN conjunct1] out [THEN conjunct2])+
qed

end
