(* ===== verification/Upgrade_Gate.thy ===== *)
theory Upgrade_Gate
  imports Node_Ids Peer_Monad
begin

text \<open>
  The gate of the WebSocket server, \<^verbatim>\<open>packages/sync/server/core/src/server.ts\<close>: its options, the
  HTTP answers on the health and status paths, and what happens to an upgrade request before a
  connection exists.  A request is the record of what the handler reads of it (the parts of its
  URL, its headers, the remote address); hooks are computations over the outside world that may
  throw.  The socket is what the handler does with it last.
\<close>

section \<open>Requests, hooks and decisions\<close>

record UpgradeRequest =
  ur_pathname :: string
  ur_docId :: "string option"
  ur_token :: "string option"
  ur_authorization :: "string option"
  ur_remoteAddress :: "string option"

record UpgradeContext =
  uc_req :: UpgradeRequest
  uc_docId :: string
  uc_remoteAddress :: "string option"

datatype HookDecision = HookVoid | HookBool bool | HookAllow | HookDeny "int option" "string option"

datatype UpgradeDecision = Admit | Refuse int string

datatype UpgradeStage = RateLimitStage | AuthenticateStage | AuthorizeStage

type_synonym 'w UpgradeHook = "UpgradeContext \<Rightarrow> ('w, HookDecision) pm"

record 'w ServerHooks =
  hk_onRateLimit :: "'w UpgradeHook option"
  hk_onAuthenticate :: "'w UpgradeHook option"
  hk_onAuthorize :: "'w UpgradeHook option"
  hk_onError :: "(error \<Rightarrow> UpgradeContext \<Rightarrow> UpgradeStage \<Rightarrow> ('w, unit) pm) option"

datatype SocketFate = SocketDestroyed | SocketUntouched | SocketRefused int string | SocketUpgraded string

fun defaultDenyForStage :: "UpgradeStage \<Rightarrow> int \<times> string" where
  "defaultDenyForStage RateLimitStage = (429, ''rate limited'')"
| "defaultDenyForStage AuthenticateStage = (401, ''unauthorized'')"
| "defaultDenyForStage AuthorizeStage = (403, ''forbidden'')"

fun normalizeHookDecision :: "UpgradeStage \<Rightarrow> HookDecision \<Rightarrow> UpgradeDecision" where
  "normalizeHookDecision stage HookVoid = Admit"
| "normalizeHookDecision stage (HookBool b) = (if b then Admit
     else Refuse (fst (defaultDenyForStage stage)) (snd (defaultDenyForStage stage)))"
| "normalizeHookDecision stage HookAllow = Admit"
| "normalizeHookDecision stage (HookDeny status body) =
     Refuse (case status of Some s \<Rightarrow> s | None \<Rightarrow> fst (defaultDenyForStage stage))
       (case body of Some b \<Rightarrow> b | None \<Rightarrow> snd (defaultDenyForStage stage))"

definition runUpgradeHook :: "UpgradeStage \<Rightarrow> 'w UpgradeHook option
    \<Rightarrow> (error \<Rightarrow> UpgradeContext \<Rightarrow> UpgradeStage \<Rightarrow> ('w, unit) pm) option \<Rightarrow> UpgradeContext \<Rightarrow> ('w, UpgradeDecision) pm" where
  "runUpgradeHook stage hook onError ctx = (case hook of
       None \<Rightarrow> ret Admit
     | Some h \<Rightarrow> bnd (tryM (h ctx)) (\<lambda>r. case r of
         Inr decision \<Rightarrow> ret (normalizeHookDecision stage decision)
       | Inl e \<Rightarrow> sq (case onError of None \<Rightarrow> ret () | Some report \<Rightarrow> catch (report e ctx stage) (\<lambda>_. ret ()))
           (ret (Refuse (fst (defaultDenyForStage stage)) (snd (defaultDenyForStage stage))))))"

text \<open>\<^verbatim>\<open>denyUpgrade\<close>: nothing on a socket that is gone, otherwise an answer with an error status.\<close>

definition safeStatusCode :: "int \<Rightarrow> int" where
  "safeStatusCode statusCode = (if 400 \<le> statusCode \<and> statusCode \<le> 599 then statusCode else 403)"

definition denyUpgrade :: "bool \<Rightarrow> int \<Rightarrow> string \<Rightarrow> SocketFate" where
  "denyUpgrade destroyed statusCode body = (if destroyed then SocketUntouched else SocketRefused (safeStatusCode statusCode) body)"

text \<open>
  The \<^verbatim>\<open>upgrade\<close> handler; \<open>gone\<close> reads whether the socket has been destroyed meanwhile.
\<close>

definition upgradeStep :: "('w \<Rightarrow> bool) \<Rightarrow> ('w, UpgradeDecision) pm \<Rightarrow> ('w, SocketFate) pm \<Rightarrow> ('w, SocketFate) pm" where
  "upgradeStep gone decide continue = bnd decide (\<lambda>decision. case decision of
       Admit \<Rightarrow> continue
     | Refuse status body \<Rightarrow> bnd (gets gone) (\<lambda>destroyed. ret (denyUpgrade destroyed status body)))"

definition onUpgrade :: "'w ServerHooks \<Rightarrow> ('w \<Rightarrow> bool) \<Rightarrow> string \<Rightarrow> UpgradeRequest \<Rightarrow> ('w, SocketFate) pm" where
  "onUpgrade hooks gone syncPath req =
     (if ur_pathname req \<noteq> syncPath then ret SocketDestroyed
      else case ur_docId req of
        None \<Rightarrow> ret SocketDestroyed
      | Some docId \<Rightarrow> if docId = [] then ret SocketDestroyed
          else let ctx = \<lparr>uc_req = req, uc_docId = docId, uc_remoteAddress = ur_remoteAddress req\<rparr> in
            upgradeStep gone (runUpgradeHook RateLimitStage (hk_onRateLimit hooks) (hk_onError hooks) ctx)
           (upgradeStep gone (runUpgradeHook AuthenticateStage (hk_onAuthenticate hooks) (hk_onError hooks) ctx)
           (upgradeStep gone (runUpgradeHook AuthorizeStage (hk_onAuthorize hooks) (hk_onError hooks) ctx)
             (ret (SocketUpgraded docId)))))"

section \<open>Options\<close>

record WebSocketSyncServerOptions =
  wo_host :: "string option"
  wo_port :: "int option"
  wo_syncPath :: "string option"
  wo_healthPath :: "string option"
  wo_statusPath :: "string option"
  wo_maxPayloadBytes :: "int option"

record ServerSettings =
  ss_host :: string
  ss_port :: int
  ss_syncPath :: string
  ss_healthPath :: string
  ss_statusPath :: string
  ss_maxPayloadBytes :: int

definition orElse :: "'a option \<Rightarrow> 'a \<Rightarrow> 'a" where
  "orElse x d = (case x of None \<Rightarrow> d | Some y \<Rightarrow> y)"

definition startsWithSlash :: "string \<Rightarrow> bool" where
  "startsWithSlash s = (take 1 s = ''/'')"

definition serverSettings :: "WebSocketSyncServerOptions \<Rightarrow> ServerSettings res" where
  "serverSettings opts = (let s = \<lparr>ss_host = orElse (wo_host opts) ''0.0.0.0'', ss_port = orElse (wo_port opts) 8787,
       ss_syncPath = orElse (wo_syncPath opts) ''/sync'', ss_healthPath = orElse (wo_healthPath opts) ''/health'',
       ss_statusPath = orElse (wo_statusPath opts) ''/status'', ss_maxPayloadBytes = orElse (wo_maxPayloadBytes opts) (10 * 1024 * 1024)\<rparr> in
     bindR (guardR (0 \<le> ss_port s) ''invalid port'') (\<lambda>_.
     bindR (guardR (startsWithSlash (ss_syncPath s)) ''syncPath must start with slash'') (\<lambda>_.
     bindR (guardR (startsWithSlash (ss_healthPath s)) ''healthPath must start with slash'') (\<lambda>_.
     bindR (guardR (startsWithSlash (ss_statusPath s)) ''statusPath must start with slash'') (\<lambda>_.
     bindR (guardR (0 < ss_maxPayloadBytes s) ''invalid maxPayloadBytes'') (\<lambda>_. Inr s))))))"

section \<open>Health and status\<close>

datatype HealthResult = Healthy "string option" "string option" | Unhealthy "int option" "string option" "string option"

record HttpResponse =
  hr_status :: int
  hr_contentType :: string
  hr_body :: string

definition healthResponse :: "HealthResult res \<Rightarrow> HttpResponse" where
  "healthResponse r = (case r of
       Inr (Healthy body contentType) \<Rightarrow> \<lparr>hr_status = 200, hr_contentType = orElse contentType ''text/plain'', hr_body = orElse body ''ok''\<rparr>
     | Inr (Unhealthy statusCode body contentType) \<Rightarrow>
         \<lparr>hr_status = (case statusCode of Some c \<Rightarrow> if 400 \<le> c \<and> c \<le> 599 then c else 503 | None \<Rightarrow> 503),
           hr_contentType = orElse contentType ''text/plain'', hr_body = orElse body ''not ready''\<rparr>
     | Inl _ \<Rightarrow> \<lparr>hr_status = 503, hr_contentType = ''text/plain'', hr_body = ''not ready''\<rparr>)"

text \<open>What \<^verbatim>\<open>statusInfo\<close> returns is the text its answer is serialised to.\<close>

definition statusResponse :: "string res \<Rightarrow> HttpResponse" where
  "statusResponse r = (case r of
       Inr json \<Rightarrow> \<lparr>hr_status = 200, hr_contentType = ''application/json; charset=utf-8'', hr_body = json\<rparr>
     | Inl _ \<Rightarrow> \<lparr>hr_status = 500, hr_contentType = ''application/json; charset=utf-8'',
         hr_body = ''{\"ok\":false,\"error\":\"status unavailable\"}''\<rparr>)"

definition onRequest :: "ServerSettings \<Rightarrow> ('w, HealthResult) pm option \<Rightarrow> ('w, string) pm option \<Rightarrow> string \<Rightarrow> ('w, HttpResponse) pm" where
  "onRequest s healthCheck statusInfo pathname =
     (if pathname = ss_healthPath s
      then bnd (tryM (case healthCheck of None \<Rightarrow> ret (Healthy None None) | Some check \<Rightarrow> check)) (\<lambda>r. ret (healthResponse r))
      else if pathname = ss_statusPath s
      then bnd (tryM (case statusInfo of None \<Rightarrow> ret ''{\"ok\":true}'' | Some info \<Rightarrow> info)) (\<lambda>r. ret (statusResponse r))
      else ret \<lparr>hr_status = 404, hr_contentType = ''text/plain'', hr_body = ''not found''\<rparr>)"

section \<open>What the gate lets through\<close>

text \<open>A hook admits when it is absent, or returns without throwing a decision that is no refusal.\<close>

definition hook_admits :: "'w UpgradeHook option \<Rightarrow> UpgradeContext \<Rightarrow> 'w \<Rightarrow> 'w \<Rightarrow> bool" where
  "hook_admits hook ctx w w' \<longleftrightarrow> (case hook of None \<Rightarrow> w' = w
     | Some h \<Rightarrow> \<exists>d. h ctx w = (Inr d, w') \<and> d \<in> {HookVoid, HookBool True, HookAllow})"

lemma normalize_Admit: "normalizeHookDecision stage d = Admit \<longleftrightarrow> d \<in> {HookVoid, HookBool True, HookAllow}"
  by (cases "(stage, d)" rule: normalizeHookDecision.cases) auto

lemma runUpgradeHook_total: "\<exists>d w'. runUpgradeHook stage hook onError ctx w = (Inr d, w')"
proof -
  have "\<exists>w'. (case onError of None \<Rightarrow> ret () | Some report \<Rightarrow> catch (report e ctx stage) (\<lambda>_. ret ())) v = (Inr (), w')" for e v
    by (cases onError) (auto simp: catch_eval split: prod.splits sum.splits)
  then show ?thesis unfolding runUpgradeHook_def
    by (cases hook) (auto simp: pm_simps split: prod.splits sum.splits, metis sum.distinct(1) prod.inject)
qed

lemma runUpgradeHook_Admit: "runUpgradeHook stage hook onError ctx w = (Inr Admit, w') \<longleftrightarrow> hook_admits hook ctx w w'"
  unfolding runUpgradeHook_def hook_admits_def
  by (cases hook) (auto simp: pm_simps normalize_Admit split: prod.splits sum.splits)

lemma upgradeStep_upgraded:
  "upgradeStep gone decide continue w = (Inr (SocketUpgraded d), w')
    \<longleftrightarrow> (\<exists>v. decide w = (Inr Admit, v) \<and> continue v = (Inr (SocketUpgraded d), w'))"
  unfolding upgradeStep_def
  by (auto simp: pm_simps denyUpgrade_def split: prod.splits sum.splits UpgradeDecision.splits if_splits)

lemma upgradeStep_total:
  assumes "\<And>w. \<exists>d w'. decide w = (Inr d, w')" "\<And>w. \<exists>f w'. continue w = (Inr f, w')"
  shows "\<exists>f w'. upgradeStep gone decide continue w = (Inr f, w')"
proof -
  obtain d v where d: "decide w = (Inr d, v)" using assms(1) by blast
  show ?thesis using assms(2) [of v] by (cases d) (auto simp: upgradeStep_def pm_simps d)
qed

lemma onUpgrade_total: "\<exists>f w'. onUpgrade hooks gone syncPath req w = (Inr f, w')"
  unfolding onUpgrade_def Let_def
  by (auto simp: runUpgradeHook_total intro!: upgradeStep_total split: option.splits)

lemma onUpgrade_upgraded:
  "onUpgrade hooks gone syncPath req w = (Inr (SocketUpgraded d), w') \<longleftrightarrow>
     ur_pathname req = syncPath \<and> ur_docId req = Some d \<and> d \<noteq> []
     \<and> (let ctx = \<lparr>uc_req = req, uc_docId = d, uc_remoteAddress = ur_remoteAddress req\<rparr> in
       \<exists>w1 w2. hook_admits (hk_onRateLimit hooks) ctx w w1 \<and> hook_admits (hk_onAuthenticate hooks) ctx w1 w2
         \<and> hook_admits (hk_onAuthorize hooks) ctx w2 w')"
  unfolding onUpgrade_def Let_def
  by (auto simp: upgradeStep_upgraded runUpgradeHook_Admit split: option.splits if_splits)

end
