(* ===== verification/Rate_Limit.thy ===== *)
theory Rate_Limit
  imports Upgrade_Gate
begin

text \<open>
  \<^verbatim>\<open>createIpRateLimitHook\<close> of \<^verbatim>\<open>packages/sync/server/postgres-node/src/server.ts\<close>: upgrades per remote
  address in fixed windows, with a table of buckets that is pruned once per window.  Times are
  what \<^verbatim>\<open>Date.now()\<close> returned.  The abstract limiter \<open>bucketStep\<close> keeps one bucket for one address and
  prunes nothing; the table refines it for every address.
\<close>

section \<open>The limiter\<close>

record Bucket =
  rb_startedAt :: int
  rb_count :: nat

record RateState =
  rs_buckets :: "(string, Bucket) jsmap"
  rs_lastPrunedAt :: int

definition initRate :: RateState where
  "initRate = \<lparr>rs_buckets = [], rs_lastPrunedAt = 0\<rparr>"

definition pruneBuckets :: "int \<Rightarrow> int \<Rightarrow> RateState \<Rightarrow> RateState" where
  "pruneBuckets windowMs now rs =
     (if rs_buckets rs \<noteq> [] \<and> windowMs \<le> now - rs_lastPrunedAt rs
      then \<lparr>rs_buckets = filter (\<lambda>(_, b). \<not> rb_startedAt b \<le> now - windowMs) (rs_buckets rs), rs_lastPrunedAt = now\<rparr>
      else rs)"

definition addrKey :: "string option \<Rightarrow> string" where
  "addrKey addr = orElse addr ''unknown''"

definition ipRateLimit :: "nat \<Rightarrow> int \<Rightarrow> int \<Rightarrow> string option \<Rightarrow> RateState \<Rightarrow> HookDecision \<times> RateState" where
  "ipRateLimit maxUpgrades windowMs now addr rs =
     (let rs' = pruneBuckets windowMs now rs; key = addrKey addr;
          put = (\<lambda>b. rs'\<lparr>rs_buckets := js_set key b (rs_buckets rs')\<rparr>);
          fresh = (HookAllow, put \<lparr>rb_startedAt = now, rb_count = 1\<rparr>) in
      case js_get (rs_buckets rs') key of
        None \<Rightarrow> fresh
      | Some b \<Rightarrow> if windowMs \<le> now - rb_startedAt b then fresh
          else (if rb_count b + 1 \<le> maxUpgrades then HookAllow else HookDeny (Some 429) (Some ''too many upgrade requests''),
            put (b\<lparr>rb_count := rb_count b + 1\<rparr>)))"

text \<open>The answers to a sequence of requests.\<close>

fun limiterRun :: "nat \<Rightarrow> int \<Rightarrow> (int \<times> string option) list \<Rightarrow> RateState \<Rightarrow> bool list" where
  "limiterRun maxUpgrades windowMs [] rs = []"
| "limiterRun maxUpgrades windowMs ((now, addr) # reqs) rs = (case ipRateLimit maxUpgrades windowMs now addr rs of
     (d, rs') \<Rightarrow> (d = HookAllow) # limiterRun maxUpgrades windowMs reqs rs')"

section \<open>One address on its own\<close>

fun bucketStep :: "nat \<Rightarrow> int \<Rightarrow> int \<Rightarrow> (int \<times> nat) option \<Rightarrow> bool \<times> (int \<times> nat) option" where
  "bucketStep m win now None = (True, Some (now, 1))"
| "bucketStep m win now (Some (s, c)) = (if win \<le> now - s then (True, Some (now, 1)) else (c + 1 \<le> m, Some (s, c + 1)))"

fun bucketRun :: "nat \<Rightarrow> int \<Rightarrow> int list \<Rightarrow> (int \<times> nat) option \<Rightarrow> bool list" where
  "bucketRun m win [] b = []"
| "bucketRun m win (now # ts) b = (case bucketStep m win now b of (ok, b') \<Rightarrow> ok # bucketRun m win ts b')"

lemma length_bucketRun [simp]: "length (bucketRun m win ts b) = length ts"
  by (induction ts arbitrary: b) (auto split: prod.splits)

lemma length_limiterRun [simp]: "length (limiterRun m win reqs rs) = length reqs"
  by (induction m win reqs rs rule: limiterRun.induct) (auto split: prod.splits)

section \<open>The table keeps one bucket per address\<close>

text \<open>A bucket the table has dropped had expired.\<close>

definition tracks :: "int \<Rightarrow> int \<Rightarrow> (int \<times> nat) option \<Rightarrow> Bucket option \<Rightarrow> bool" where
  "tracks win now b e \<longleftrightarrow> map_option (\<lambda>e. (rb_startedAt e, rb_count e)) e = b
     \<or> (e = None \<and> (\<exists>s c. b = Some (s, c) \<and> s \<le> now - win))"

lemma js_get_filter:
  assumes "js_wf m"
  shows "js_get (filter (\<lambda>(_, v). P v) m) k = (case js_get m k of None \<Rightarrow> None | Some v \<Rightarrow> if P v then Some v else None)"
  using assms unfolding js_get_def js_wf_def
proof (induction m)
  case (Cons e m)
  have "map_of (filter (\<lambda>(_, v). P v) m) (fst e) = None" if "fst e \<notin> fst ` set m"
    using that by (auto simp: map_of_eq_None_iff)
  with Cons show ?case by (cases e) (auto split: option.splits)
qed simp

lemma tracks_later: "tracks win now b e \<Longrightarrow> now \<le> now' \<Longrightarrow> tracks win now' b e"
  unfolding tracks_def by force

lemma prune_tracks:
  assumes "tracks win now b (js_get (rs_buckets rs) k)" "js_wf (rs_buckets rs)"
  shows "tracks win now b (js_get (rs_buckets (pruneBuckets win now rs)) k) \<and> js_wf (rs_buckets (pruneBuckets win now rs))"
proof (cases "rs_buckets rs \<noteq> [] \<and> win \<le> now - rs_lastPrunedAt rs")
  case True
  have get: "js_get (filter (\<lambda>(_, b). \<not> rb_startedAt b \<le> now - win) m) k
      = (case js_get m k of None \<Rightarrow> None | Some b \<Rightarrow> if rb_startedAt b \<le> now - win then None else Some b)" if "js_wf m" for m
    using js_get_filter [OF that, of "\<lambda>b. \<not> rb_startedAt b \<le> now - win"] by (auto split: option.splits)
  have "js_wf (filter P m)" if "js_wf m" for P and m :: "(string, Bucket) jsmap"
    using that unfolding js_wf_def by (induction m) auto
  with True assms show ?thesis
    by (auto simp: pruneBuckets_def get tracks_def split: option.splits)
qed (use assms in \<open>auto simp: pruneBuckets_def\<close>)

lemma ipRateLimit_other:
  assumes "tracks win now b (js_get (rs_buckets rs) k)" "js_wf (rs_buckets rs)" "ipRateLimit m win now addr rs = (d, rs')" "addrKey addr \<noteq> k"
  shows "tracks win now b (js_get (rs_buckets rs') k) \<and> js_wf (rs_buckets rs')"
  using prune_tracks [OF assms(1,2)] assms(3,4)
  by (auto simp: ipRateLimit_def Let_def split: option.splits if_splits)

lemma ipRateLimit_own:
  assumes "tracks win now b (js_get (rs_buckets rs) (addrKey addr))" "js_wf (rs_buckets rs)" "ipRateLimit m win now addr rs = (d, rs')"
  shows "\<exists>b'. bucketStep m win now b = (d = HookAllow, b') \<and> tracks win now b' (js_get (rs_buckets rs') (addrKey addr)) \<and> js_wf (rs_buckets rs')"
proof -
  note p = prune_tracks [OF assms(1,2)]
  show ?thesis
  proof (cases "js_get (rs_buckets (pruneBuckets win now rs)) (addrKey addr)")
    case None
    with p have "b = None \<or> (\<exists>s c. b = Some (s, c) \<and> s \<le> now - win)" by (auto simp: tracks_def)
    with None p assms(3) show ?thesis by (auto simp: ipRateLimit_def Let_def tracks_def)
  next
    case (Some e)
    with p have "b = Some (rb_startedAt e, rb_count e)" by (auto simp: tracks_def)
    with Some p assms(3) show ?thesis by (auto simp: ipRateLimit_def Let_def tracks_def split: if_splits)
  qed
qed

definition ownTimes :: "string \<Rightarrow> (int \<times> string option) list \<Rightarrow> int list" where
  "ownTimes key reqs = map fst (filter (\<lambda>(_, a). addrKey a = key) reqs)"

text \<open>The answers an address gets do not depend on the other addresses, nor on the pruning.\<close>

lemma limiter_refines:
  assumes "sorted (map fst reqs)" "\<forall>(x, _) \<in> set reqs. now \<le> x"
    and "tracks win now b (js_get (rs_buckets rs) key)" "js_wf (rs_buckets rs)"
  shows "map snd (filter (\<lambda>((_, a), _). addrKey a = key) (zip reqs (limiterRun m win reqs rs))) = bucketRun m win (ownTimes key reqs) b"
  using assms
proof (induction reqs arbitrary: now b rs)
  case (Cons r reqs)
  obtain x a where r: "r = (x, a)" by fastforce
  obtain d rs' where s: "ipRateLimit m win x a rs = (d, rs')" by fastforce
  from Cons.prems r have tr: "tracks win x b (js_get (rs_buckets rs) key)" and le: "\<forall>(y, _) \<in> set reqs. x \<le> y"
    and srt: "sorted (map fst reqs)" by (auto elim: tracks_later)
  show ?case
  proof (cases "addrKey a = key")
    case True
    from ipRateLimit_own [of win x b rs a m d rs'] tr Cons.prems(4) s True
    obtain b' where "bucketStep m win x b = (d = HookAllow, b')" "tracks win x b' (js_get (rs_buckets rs') key)" "js_wf (rs_buckets rs')" by auto
    with Cons.IH [OF srt le] True show ?thesis by (simp add: r s ownTimes_def)
  next
    case False
    from ipRateLimit_other [OF tr Cons.prems(4) s False] Cons.IH [OF srt le] False show ?thesis
      by (simp add: r s ownTimes_def)
  qed
qed (simp add: ownTimes_def)

section \<open>Bounds for one address\<close>

text \<open>How many more requests a bucket can let through in the window that starts at \<open>t\<close>.\<close>

fun room :: "nat \<Rightarrow> int \<Rightarrow> int \<Rightarrow> (int \<times> nat) option \<Rightarrow> nat" where
  "room m win t None = 2 * m"
| "room m win t (Some (s, c)) =
     (if s + win \<le> t then 2 * m else if s < t then (m - c) + m else if s < t + win then m - c else 0)"

definition allowedIn :: "int \<Rightarrow> int \<Rightarrow> int list \<Rightarrow> bool list \<Rightarrow> nat" where
  "allowedIn t win ts oks = length (filter (\<lambda>(x, ok). ok \<and> t \<le> x \<and> x < t + win) (zip ts oks))"

lemma room_step:
  assumes "bucketStep m win x b = (ok, b')" "0 < win" "1 \<le> m" "\<forall>s c. b = Some (s, c) \<longrightarrow> s \<le> x"
  shows "(if ok \<and> t \<le> x \<and> x < t + win then 1 else 0) + room m win t b' \<le> room m win t b" "\<exists>s c. b' = Some (s, c) \<and> s \<le> x"
  using assms by (cases "(m, win, x, b)" rule: bucketStep.cases; auto split: if_splits)+

lemma bucket_allows_at_most:
  assumes "0 < win" "1 \<le> m" "sorted ts" "\<forall>s c. b = Some (s, c) \<longrightarrow> (\<forall>x \<in> set ts. s \<le> x)"
  shows "allowedIn t win ts (bucketRun m win ts b) \<le> room m win t b"
  using assms(3,4)
proof (induction ts arbitrary: b)
  case (Cons x ts)
  obtain ok b' where s: "bucketStep m win x b = (ok, b')" by fastforce
  from Cons.prems have "\<forall>s c. b = Some (s, c) \<longrightarrow> s \<le> x" by auto
  note st = room_step [OF s assms(1,2) this]
  from st(2) Cons.prems have "\<forall>s c. b' = Some (s, c) \<longrightarrow> (\<forall>x \<in> set ts. s \<le> x)" by auto
  from Cons.IH [OF _ this] Cons.prems st(1) [of t] show ?case by (auto simp: s allowedIn_def split: if_splits)
qed (simp add: allowedIn_def)

text \<open>A refusal has a reason: that many earlier requests within one window.\<close>

lemma bucket_refuses_busy:
  assumes "sorted (hist @ ts)" "\<forall>s c. b = Some (s, c) \<longrightarrow> c \<le> length (filter (\<lambda>x. s \<le> x) hist) \<and> (\<forall>x \<in> set ts. s \<le> x)"
    and "i < length ts" "\<not> bucketRun m win ts b ! i"
  shows "m \<le> length (filter (\<lambda>x. ts ! i - win < x) (hist @ take i ts))"
  using assms
proof (induction ts arbitrary: hist b i)
  case (Cons x ts)
  obtain ok b' where s: "bucketStep m win x b = (ok, b')" by fastforce
  have b': "\<forall>s c. b' = Some (s, c) \<longrightarrow> c \<le> length (filter (\<lambda>x. s \<le> x) (hist @ [x])) \<and> (\<forall>y \<in> set ts. s \<le> y)"
    using Cons.prems(1,2) s by (cases "(m, win, x, b)" rule: bucketStep.cases) (auto simp: sorted_append split: if_splits)
  show ?case
  proof (cases i)
    case 0
    with Cons.prems(4) s obtain st c where b: "b = Some (st, c)" "x - win < st" "m \<le> c"
      by (cases "(m, win, x, b)" rule: bucketStep.cases) (auto split: if_splits)
    have "length (filter (\<lambda>y. st \<le> y) hist) \<le> length (filter (\<lambda>y. x - win < y) hist)"
      using b(2) by (induction hist) auto
    with Cons.prems(2) b have "m \<le> length (filter (\<lambda>y. x - win < y) hist)" by force
    then show ?thesis by (simp add: 0)
  next
    case (Suc j)
    from Cons.IH [of "hist @ [x]" b' j] Cons.prems Suc s b' show ?thesis by simp
  qed
qed simp

section \<open>Bounds for the table\<close>

lemma filter_at:
  assumes "i < length xs" "P (xs ! i)"
  shows "filter P xs ! length (filter P (take i xs)) = xs ! i" "length (filter P (take i xs)) < length (filter P xs)"
    "take (length (filter P (take i xs))) (filter P xs) = filter P (take i xs)"
proof -
  have "filter P xs = filter P (take i xs) @ xs ! i # filter P (drop (Suc i) xs)"
    by (subst (1) id_take_nth_drop [OF assms(1)]) (simp add: assms(2))
  then show "filter P xs ! length (filter P (take i xs)) = xs ! i" "length (filter P (take i xs)) < length (filter P xs)"
    "take (length (filter P (take i xs))) (filter P xs) = filter P (take i xs)" by simp_all
qed

lemma length_filter_zip:
  "length ys = length xs \<Longrightarrow> length (filter (\<lambda>(x, _). P x) (zip xs ys)) = length (filter P xs)"
  by (induction ys xs rule: list_induct2) auto

definition allowedFor :: "string \<Rightarrow> int \<Rightarrow> int \<Rightarrow> (int \<times> string option) list \<Rightarrow> bool list \<Rightarrow> nat" where
  "allowedFor key t win reqs oks = length (filter (\<lambda>((x, a), ok). ok \<and> addrKey a = key \<and> t \<le> x \<and> x < t + win) (zip reqs oks))"

lemma allowedFor_own:
  assumes "length oks = length reqs"
  shows "allowedFor key t win reqs oks = allowedIn t win (ownTimes key reqs) (map snd (filter (\<lambda>((_, a), _). addrKey a = key) (zip reqs oks)))"
  using assms unfolding allowedFor_def allowedIn_def ownTimes_def
  by (induction oks reqs rule: list_induct2) (auto split: prod.splits)

lemma sorted_ownTimes: "sorted (map fst reqs) \<Longrightarrow> sorted (ownTimes key reqs)"
  unfolding ownTimes_def by (induction reqs) auto

lemma limiter_alone:
  assumes "sorted (map fst reqs)"
  shows "map snd (filter (\<lambda>((_, a), _). addrKey a = key) (zip reqs (limiterRun m win reqs initRate))) = bucketRun m win (ownTimes key reqs) None"
proof (cases reqs)
  case (Cons r rs)
  show ?thesis by (rule limiter_refines [OF assms, where now = "fst r"])
      (use assms Cons in \<open>auto simp: tracks_def initRate_def js_wf_def js_get_def\<close>)
qed (simp add: ownTimes_def)

lemma refused_busy:
  assumes "sorted (map fst reqs)" "i < length reqs" "\<not> limiterRun m win reqs initRate ! i"
  shows "m \<le> length (filter (\<lambda>(x, a). addrKey a = addrKey (snd (reqs ! i)) \<and> fst (reqs ! i) - win < x) (take i reqs))"
proof -
  let ?key = "addrKey (snd (reqs ! i))" and ?oks = "limiterRun m win reqs initRate"
  let ?P = "\<lambda>(_, a). addrKey a = ?key" and ?Q = "\<lambda>((_, a), _). addrKey a = ?key"
  let ?j = "length (filter ?P (take i reqs))"
  have P: "?P (reqs ! i)" by (simp add: case_prod_unfold)
  have Q: "i < length (zip reqs ?oks)" "?Q (zip reqs ?oks ! i)" using assms(2) by (simp_all add: case_prod_unfold)
  have j: "length (filter ?Q (take i (zip reqs ?oks))) = ?j"
    using length_filter_zip [of "take i ?oks" "take i reqs" ?P] assms(2) by (simp add: take_zip case_prod_unfold)
  note at = filter_at [where P = ?P, OF assms(2) P]
  have own: "ownTimes ?key reqs ! ?j = fst (reqs ! i)" "?j < length (ownTimes ?key reqs)"
      "take ?j (ownTimes ?key reqs) = map fst (filter ?P (take i reqs))"
    using at by (simp_all add: ownTimes_def nth_map take_map)
  have "map snd (filter ?Q (zip reqs ?oks)) ! ?j = ?oks ! i"
    using filter_at(1,2) [where P = ?Q, OF Q] assms(2) unfolding j by simp
  then have "\<not> bucketRun m win (ownTimes ?key reqs) None ! ?j" using assms(3) by (simp add: limiter_alone [OF assms(1)])
  from bucket_refuses_busy [where b = None, of "[]", simplified, OF sorted_ownTimes [OF assms(1)] own(2) this]
  have "m \<le> length (filter ((<) (fst (reqs ! i) - win)) (map fst (filter ?P (take i reqs))))" unfolding own .
  moreover have "filter ((<) y) (map fst (filter (\<lambda>(_, a). addrKey a = key) rs))
      = map fst (filter (\<lambda>(x, a). addrKey a = key \<and> y < x) rs)" for y key and rs :: "(int \<times> string option) list"
    by (induction rs) auto
  ultimately show ?thesis by simp
qed

section \<open>Properties\<close>

text \<open>
  C25: the rate limiter, over any sequence of requests whose times do not decrease: an address is
  let through at most twice the maximum within any window, and an address that is refused has made
  at least the maximum of requests within the window before, whatever other addresses do.
\<close>
theorem rate_limit_bounds:
  assumes "0 < windowMs" and "1 \<le> maxUpgrades" and "sorted (map fst reqs)"
  shows "allowedFor key t windowMs reqs (limiterRun maxUpgrades windowMs reqs initRate) \<le> 2 * maxUpgrades
    \<and> (\<forall>i < length reqs. \<not> limiterRun maxUpgrades windowMs reqs initRate ! i \<longrightarrow>
      maxUpgrades \<le> length (filter (\<lambda>(x, a). addrKey a = addrKey (snd (reqs ! i)) \<and> fst (reqs ! i) - windowMs < x) (take i reqs)))"
proof (intro conjI allI impI)
  have "allowedFor key t windowMs reqs (limiterRun maxUpgrades windowMs reqs initRate)
      = allowedIn t windowMs (ownTimes key reqs) (bucketRun maxUpgrades windowMs (ownTimes key reqs) None)"
    by (simp add: allowedFor_own limiter_alone [OF assms(3)])
  also have "\<dots> \<le> room maxUpgrades windowMs t None"
    by (rule bucket_allows_at_most [OF assms(1,2) sorted_ownTimes [OF assms(3)]]) simp
  finally show "allowedFor key t windowMs reqs (limiterRun maxUpgrades windowMs reqs initRate) \<le> 2 * maxUpgrades" by simp
qed (rule refused_busy [OF assms(3)])

text \<open>The bound is met: two requests at the end of one window and two at the start of the next.\<close>

definition demo_requests :: "(int \<times> string option) list" where
  "demo_requests = [(1, Some ''a''), (9, Some ''a''), (10, Some ''a''), (10, None), (11, Some ''a''), (12, Some ''a''), (13, Some ''a'')]"

theorem rate_limit_bounds_witness:
  "limiterRun 2 10 demo_requests initRate = [True, True, False, True, True, True, False]
   \<and> allowedFor ''a'' 9 10 demo_requests (limiterRun 2 10 demo_requests initRate) \<le> 4
   \<and> 2 \<le> length (filter (\<lambda>(x, a). addrKey a = ''a'' \<and> 3 < x) (take 6 demo_requests))"
proof -
  have 1: "limiterRun 2 10 demo_requests initRate = [True, True, False, True, True, True, False]" by code_simp
  have "sorted (map fst demo_requests)" by (simp add: demo_requests_def)
  from rate_limit_bounds [OF _ _ this, of 10 2 "''a''" 9] 1
  have 2: "allowedFor ''a'' 9 10 demo_requests (limiterRun 2 10 demo_requests initRate) \<le> 4"
    "\<forall>i < length demo_requests. \<not> limiterRun 2 10 demo_requests initRate ! i \<longrightarrow>
      2 \<le> length (filter (\<lambda>(x, a). addrKey a = addrKey (snd (demo_requests ! i)) \<and> fst (demo_requests ! i) - 10 < x) (take i demo_requests))" by simp_all
  from 2(2) [rule_format, of 6] 1 have "2 \<le> length (filter (\<lambda>(x, a). addrKey a = ''a'' \<and> 3 < x) (take 6 demo_requests))"
    by (simp add: demo_requests_def addrKey_def orElse_def)
  with 1 2(1) show ?thesis by blast
qed

end
