(* ===== verification/Upgrade_Hooks.thy ===== *)
theory Upgrade_Hooks
  imports Rate_Limit Capability_Token Base64url
begin

text \<open>
  The upgrade hooks of \<^verbatim>\<open>packages/sync/server/postgres-node/src/server.ts\<close> and how \<^verbatim>\<open>startSyncServer\<close>
  puts them together: a static token or a capability token authenticates, a pattern and the known
  documents authorise, the rate limiter counts, and hooks of the embedder run after the built-in
  ones.  The document pattern is a predicate, and whether a document is known is a query.
\<close>

section \<open>Combining hooks\<close>

definition isDeniedDecision :: "HookDecision \<Rightarrow> bool" where
  "isDeniedDecision d = (case d of HookBool b \<Rightarrow> \<not> b | HookVoid \<Rightarrow> False | HookAllow \<Rightarrow> False | HookDeny _ _ \<Rightarrow> True)"

fun runHooks :: "'w UpgradeHook list \<Rightarrow> 'w UpgradeHook" where
  "runHooks [] ctx = ret HookAllow"
| "runHooks (h # hs) ctx = bnd (h ctx) (\<lambda>decision. if isDeniedDecision decision then ret decision else runHooks hs ctx)"

definition combineUpgradeHooks :: "'w UpgradeHook option list \<Rightarrow> 'w UpgradeHook option" where
  "combineUpgradeHooks hooks = (let active = List.map_filter id hooks in if active = [] then None else Some (runHooks active))"

section \<open>Authentication\<close>

text \<open>\<^verbatim>\<open>/^Bearer\s+(.+)$/i\<close>: the group is what follows the white space, on one line.\<close>

definition bearerMatch :: "string \<Rightarrow> string option" where
  "bearerMatch s = (let rest = drop 6 s; body = dropWhile is_ws rest in
     if toLowerCase (take 6 s) = ''bearer'' \<and> rest \<noteq> [] \<and> is_ws (hd rest) \<and> body \<noteq> []
        \<and> list_all (\<lambda>c. of_char c \<notin> {10, 13 :: nat}) body
     then Some body else None)"

definition nonEmpty :: "string \<Rightarrow> string option" where
  "nonEmpty s = (if s = [] then None else Some s)"

definition extractAuthToken :: "UpgradeContext \<Rightarrow> string option" where
  "extractAuthToken ctx = (case Option.bind (map_option trim_js (ur_token (uc_req ctx))) nonEmpty of
       Some queryToken \<Rightarrow> Some queryToken
     | None \<Rightarrow> (case ur_authorization (uc_req ctx) of
         None \<Rightarrow> None
       | Some rawAuth \<Rightarrow> Option.bind (map_option trim_js (bearerMatch rawAuth)) nonEmpty))"

definition createStaticTokenAuthHook :: "string \<Rightarrow> 'w UpgradeHook" where
  "createStaticTokenAuthHook expectedToken ctx = ret (if extractAuthToken ctx = Some expectedToken \<and> expectedToken \<noteq> []
     then HookAllow else HookDeny (Some 401) (Some ''missing or invalid auth token''))"

definition upgradeTokenOptions :: "bytes list \<Rightarrow> string \<Rightarrow> int \<Rightarrow> VerifyTokenOptions" where
  "upgradeTokenOptions issuerPublicKeys docId nowMs = \<lparr>vt_issuerPublicKeys = issuerPublicKeys, vt_docId = docId,
     vt_nowSec = nowMs div 1000, vt_scopeEvaluator = None, vt_revokedCapabilityTokenIds = None, vt_isCapabilityTokenRevoked = None\<rparr>"

definition createCapabilityTokenAuthHook :: "Crypto \<Rightarrow> ('w \<Rightarrow> int) \<Rightarrow> bytes list \<Rightarrow> 'w UpgradeHook" where
  "createCapabilityTokenAuthHook cr nowMs issuerPublicKeys ctx = (case extractAuthToken ctx of
       None \<Rightarrow> ret (HookDeny (Some 401) (Some ''missing capability token''))
     | Some token \<Rightarrow> bnd (gets nowMs) (\<lambda>now.
         ret (case describeTreecrdtCapabilityTokenV1 cr (upgradeTokenOptions issuerPublicKeys (uc_docId ctx) now) (base64urlDecode token) of
           Inr _ \<Rightarrow> HookAllow
         | Inl err \<Rightarrow> HookDeny (Some 401) (Some (''invalid capability token: '' @ err)))))"

section \<open>Authorisation\<close>

definition createDocIdPatternHook :: "(string \<Rightarrow> bool) \<Rightarrow> 'w UpgradeHook" where
  "createDocIdPatternHook pattern ctx = ret (if pattern (uc_docId ctx) then HookAllow
     else HookDeny (Some 400) (Some ''invalid docId format''))"

definition createKnownDocHook :: "(string \<Rightarrow> ('w, bool) pm) \<Rightarrow> 'w UpgradeHook" where
  "createKnownDocHook hasDoc ctx = bnd (hasDoc (uc_docId ctx)) (\<lambda>known. ret (if known then HookAllow
     else HookDeny (Some 403) (Some ''docId creation disabled'')))"

section \<open>The hooks of the server\<close>

text \<open>The world of the server's hooks: the rate limiter's table around the outside world.\<close>

record 'w GateWorld =
  gw_rate :: RateState
  gw_world :: 'w

definition liftG :: "('w, 'a) pm \<Rightarrow> ('w GateWorld, 'a) pm" where
  "liftG m = (\<lambda>s. case m (gw_world s) of (r, w') \<Rightarrow> (r, s\<lparr>gw_world := w'\<rparr>))"

definition createIpRateLimitHook :: "('w \<Rightarrow> int) \<Rightarrow> nat \<Rightarrow> int \<Rightarrow> 'w GateWorld UpgradeHook" where
  "createIpRateLimitHook nowMs maxUpgrades windowMs ctx = (\<lambda>s.
     case ipRateLimit maxUpgrades windowMs (nowMs (gw_world s)) (uc_remoteAddress ctx) (gw_rate s) of
       (d, rate) \<Rightarrow> (Inr d, s\<lparr>gw_rate := rate\<rparr>))"

record 'w SyncServerOptions =
  so_crypto :: Crypto
  so_nowMs :: "'w \<Rightarrow> int"
  so_authToken :: "string option"
  so_authCapabilityIssuerPublicKeys :: "bytes list"
  so_docIdPattern :: "(string \<Rightarrow> bool) option"
  so_allowDocCreate :: bool
  so_hasDoc :: "string \<Rightarrow> ('w, bool) pm"
  so_rateLimitMaxUpgrades :: nat
  so_rateLimitWindowMs :: int
  so_hooks :: "'w ServerHooks"

definition liftHook :: "'w UpgradeHook option \<Rightarrow> 'w GateWorld UpgradeHook option" where
  "liftHook hook = map_option (\<lambda>h ctx. liftG (h ctx)) hook"

definition issuerKeys :: "'w SyncServerOptions \<Rightarrow> bytes list" where
  "issuerKeys opts = filter (\<lambda>k. k \<noteq> []) (so_authCapabilityIssuerPublicKeys opts)"

definition authTokenOf :: "'w SyncServerOptions \<Rightarrow> string option" where
  "authTokenOf opts = Option.bind (map_option trim_js (so_authToken opts)) nonEmpty"

datatype AuthMode = NoAuth | StaticToken | CapabilityCwt

definition describeAuthMode :: "string option \<Rightarrow> bytes list \<Rightarrow> AuthMode" where
  "describeAuthMode authToken issuerPublicKeys =
     (if issuerPublicKeys \<noteq> [] then CapabilityCwt else if authToken \<noteq> None then StaticToken else NoAuth)"

definition builtInAuthHook :: "'w SyncServerOptions \<Rightarrow> 'w GateWorld UpgradeHook option" where
  "builtInAuthHook opts = (if issuerKeys opts \<noteq> []
     then Some (createCapabilityTokenAuthHook (so_crypto opts) (\<lambda>s. so_nowMs opts (gw_world s)) (issuerKeys opts))
     else map_option createStaticTokenAuthHook (authTokenOf opts))"

definition builtInAuthorizeHook :: "'w SyncServerOptions \<Rightarrow> 'w GateWorld UpgradeHook option" where
  "builtInAuthorizeHook opts = combineUpgradeHooks
     [map_option createDocIdPatternHook (so_docIdPattern opts),
      if so_allowDocCreate opts then None else Some (createKnownDocHook (\<lambda>docId. liftG (so_hasDoc opts docId)))]"

definition syncServerHooks :: "'w SyncServerOptions \<Rightarrow> 'w GateWorld ServerHooks" where
  "syncServerHooks opts = \<lparr>
     hk_onRateLimit = combineUpgradeHooks
       [if 0 < so_rateLimitMaxUpgrades opts
        then Some (createIpRateLimitHook (so_nowMs opts) (so_rateLimitMaxUpgrades opts) (so_rateLimitWindowMs opts)) else None,
        liftHook (hk_onRateLimit (so_hooks opts))],
     hk_onAuthenticate = combineUpgradeHooks [builtInAuthHook opts, liftHook (hk_onAuthenticate (so_hooks opts))],
     hk_onAuthorize = combineUpgradeHooks [builtInAuthorizeHook opts, liftHook (hk_onAuthorize (so_hooks opts))],
     hk_onError = map_option (\<lambda>report e ctx stage. liftG (report e ctx stage)) (hk_onError (so_hooks opts))\<rparr>"

section \<open>Combined hooks admit what every hook admits\<close>

lemma not_denied: "\<not> isDeniedDecision d \<longleftrightarrow> d \<in> {HookVoid, HookBool True, HookAllow}"
  by (cases d) (auto simp: isDeniedDecision_def)

lemma runHooks_admits:
  "hook_admits (Some (runHooks hs)) ctx w w' \<Longrightarrow> h \<in> set hs \<Longrightarrow> \<exists>v v'. hook_admits (Some h) ctx v v'"
proof (induction hs arbitrary: w)
  case (Cons k hs)
  from Cons.prems(1) obtain d v where k: "k ctx w = (Inr d, v)" by (auto simp: hook_admits_def elim!: bnd_okE)
  show ?case
  proof (cases "isDeniedDecision d")
    case True
    with Cons.prems(1) k have False by (auto simp: hook_admits_def bnd_eval isDeniedDecision_def)
    then show ?thesis ..
  next
    case False
    then have "hook_admits (Some k) ctx w v" using k by (auto simp: hook_admits_def not_denied)
    moreover from Cons.prems(1) k False have "hook_admits (Some (runHooks hs)) ctx v w'" by (auto simp: hook_admits_def bnd_eval)
    ultimately show ?thesis using Cons.IH Cons.prems(2) by auto
  qed
qed simp

lemma combine_admits:
  assumes "hook_admits (combineUpgradeHooks hooks) ctx w w'" "Some h \<in> set hooks"
  shows "\<exists>v v'. hook_admits (Some h) ctx v v'"
proof -
  have "h \<in> set (List.map_filter id hooks)" using assms(2) by (auto simp: List.map_filter_def image_iff) 
  with assms(1) runHooks_admits show ?thesis by (auto simp: combineUpgradeHooks_def Let_def split: if_splits)
qed

lemma combine_first:
  assumes "hook_admits (combineUpgradeHooks (Some h # hooks)) ctx w w'"
  shows "\<exists>v. hook_admits (Some h) ctx w v"
  using assms by (auto simp: combineUpgradeHooks_def Let_def List.map_filter_def hook_admits_def bnd_eval not_denied
      split: prod.splits sum.splits if_splits)

lemma hook_admits_det: "hook_admits hook ctx w v \<Longrightarrow> hook_admits hook ctx w v' \<Longrightarrow> v = v'"
  by (auto simp: hook_admits_def split: option.splits)

lemma capability_admits:
  assumes "hook_admits (Some (createCapabilityTokenAuthHook cr nowMs keys)) ctx w w'"
  shows "\<exists>token d. extractAuthToken ctx = Some token
    \<and> describeTreecrdtCapabilityTokenV1 cr (upgradeTokenOptions keys (uc_docId ctx) (nowMs w)) (base64urlDecode token) = Inr d"
  using assms by (auto simp: hook_admits_def createCapabilityTokenAuthHook_def pm_simps split: option.splits sum.splits)

lemma known_doc_admits:
  assumes "hook_admits (Some (createKnownDocHook hasDoc)) ctx w w'"
  shows "hasDoc (uc_docId ctx) w = (Inr True, w')"
  using assms by (auto simp: hook_admits_def createKnownDocHook_def bnd_eval split: prod.splits sum.splits if_splits)

lemma pattern_admits: "hook_admits (Some (createDocIdPatternHook pattern)) ctx w w' \<Longrightarrow> pattern (uc_docId ctx)"
  by (auto simp: hook_admits_def createDocIdPatternHook_def split: if_splits)

lemma static_admits:
  "hook_admits (Some (createStaticTokenAuthHook t)) ctx w w' \<Longrightarrow> extractAuthToken ctx = Some t"
  by (auto simp: hook_admits_def createStaticTokenAuthHook_def split: if_splits)

section \<open>Issued tokens are admitted\<close>

lemma url_alphabet_no_ws: "list_all (\<lambda>c. \<not> is_ws c) url_alphabet"
  by (simp add: url_alphabet_def is_ws_def)

lemma base64url_text:
  assumes "bs \<noteq> []"
  shows "trim_js (base64urlEncode bs) = base64urlEncode bs" "base64urlEncode bs \<noteq> []"
proof -
  have "\<not> is_ws c" if "c \<in> set (base64urlEncode bs)" for c
    using that b64_digits_bound to_url_char(1) url_alphabet_no_ws
    by (auto simp: base64urlEncode_digits url_safe_def list_all_iff)
  then show "trim_js (base64urlEncode bs) = base64urlEncode bs" by (simp add: trim_js_noop)
  show "base64urlEncode bs \<noteq> []" using assms by (cases bs rule: b64_digits.cases) (simp_all add: base64urlEncode_digits)
qed

lemma issued_token_admitted:
  assumes "lawful_crypto cr pk" "issueTreecrdtCapabilityTokenV1 cr sk io = Inr token" "token \<noteq> []" "pk sk \<in> set keys"
    and "ur_token (uc_req ctx) = Some (base64urlEncode token)" "uc_docId ctx = io_docId io"
    and "in_window (nowMs w div 1000) (io_exp io) (io_nbf io)"
  shows "createCapabilityTokenAuthHook cr nowMs keys ctx w = (Inr HookAllow, w)"
proof -
  let ?vo = "upgradeTokenOptions keys (uc_docId ctx) (nowMs w)"
  have "extractAuthToken ctx = Some (base64urlEncode token)"
    by (simp add: extractAuthToken_def assms(5) base64url_text [OF assms(3)] nonEmpty_def)
  moreover have "\<exists>d. describeTreecrdtCapabilityTokenV1 cr ?vo token = Inr d"
    using issued_verifies [OF assms(1,2), of ?vo] assms(4,6,7)
    by (auto simp: upgradeTokenOptions_def checkRevoked_def guardR_def describeTreecrdtCapabilityTokenV1_def)
  ultimately show ?thesis by (auto simp: createCapabilityTokenAuthHook_def pm_simps base64url_inverse)
qed

section \<open>Properties\<close>


definition demo_server :: "nat SyncServerOptions" where
  "demo_server = \<lparr>so_crypto = demo_crypto, so_nowMs = int, so_authToken = None, so_authCapabilityIssuerPublicKeys = [[], demo_pk [1]],
     so_docIdPattern = Some (\<lambda>d. length d \<le> 8), so_allowDocCreate = False, so_hasDoc = (\<lambda>d. ret (d = ''doc'')),
     so_rateLimitMaxUpgrades = 3, so_rateLimitWindowMs = 60000,
     so_hooks = \<lparr>hk_onRateLimit = None, hk_onAuthenticate = None, hk_onAuthorize = Some (\<lambda>_. ret HookVoid), hk_onError = None\<rparr>\<rparr>"

definition demo_upgrade :: "bytes \<Rightarrow> UpgradeRequest" where
  "demo_upgrade token = \<lparr>ur_pathname = ''/sync'', ur_docId = Some ''doc'', ur_token = Some (base64urlEncode token),
     ur_authorization = None, ur_remoteAddress = Some ''::1''\<rparr>"


end
