(* ===== verification/Doc_Store.thy ===== *)
theory Doc_Store
  imports Node_Ids "HOL-Library.Multiset"
begin

text \<open>
  \<^verbatim>\<open>createPostgresNodeDocStore\<close> of \<^verbatim>\<open>packages/sync/server/postgres-node/src/server.ts\<close>: open documents
  shared by connections, closed when idle.  The closure's variables, the promises of openings and
  the callers that wait for them are one state; what runs between two awaits is one event, and
  events come in any order the promises allow.  Contexts, openings, callers, handles and backends
  are named by their index in the order of their creation.
\<close>

section \<open>State\<close>

record 'op DocContext =
  dc_docId :: string
  dc_backend :: nat
  dc_peers :: "nat list"
  dc_connections :: nat
  dc_closed :: bool
  dc_timer :: bool
  dc_queue :: "'op list list"
  dc_broadcasting :: "'op list list"

datatype OpeningState = AwaitBackend | AwaitPeerOptions nat | OpenedAs nat | OpeningFailed

record Opening =
  og_docId :: string
  og_state :: OpeningState

datatype Caller = AwaitOpening nat bool | AwaitContext nat | Returned nat | Rejected error

record DocHandle =
  hd_ctx :: nat
  hd_released :: bool

record 'op DocStore =
  ds_contexts :: "'op DocContext list"
  ds_docs :: "(string, nat) jsmap"
  ds_openings :: "Opening list"
  ds_openInFlight :: "(string, nat) jsmap"
  ds_callers :: "Caller list"
  ds_handles :: "DocHandle list"
  ds_closing :: bool
  ds_closeWait :: "nat list option"
  ds_closedAll :: bool
  ds_opened :: nat
  ds_closedBackends :: "nat list"
  ds_notified :: "(nat list \<times> 'op list) list"

definition emptyDocStore :: "'op DocStore" where
  "emptyDocStore = \<lparr>ds_contexts = [], ds_docs = [], ds_openings = [], ds_openInFlight = [], ds_callers = [], ds_handles = [],
     ds_closing = False, ds_closeWait = None, ds_closedAll = False, ds_opened = 0, ds_closedBackends = [], ds_notified = []\<rparr>"

section \<open>Closing\<close>

definition updContext :: "nat \<Rightarrow> ('op DocContext \<Rightarrow> 'op DocContext) \<Rightarrow> 'op DocStore \<Rightarrow> 'op DocStore" where
  "updContext c f s = s\<lparr>ds_contexts := (ds_contexts s)[c := f (ds_contexts s ! c)]\<rparr>"

definition closeBackend :: "nat \<Rightarrow> 'op DocStore \<Rightarrow> 'op DocStore" where
  "closeBackend b s = s\<lparr>ds_closedBackends := ds_closedBackends s @ [b]\<rparr>"

definition closeContext :: "nat \<Rightarrow> 'op DocStore \<Rightarrow> 'op DocStore" where
  "closeContext c s = (let ctx = ds_contexts s ! c in
     if dc_closed ctx then s
     else closeBackend (dc_backend ctx)
       ((updContext c (\<lambda>ctx. ctx\<lparr>dc_closed := True, dc_timer := False, dc_peers := []\<rparr>) s)
         \<lparr>ds_docs := js_delete (dc_docId ctx) (ds_docs s)\<rparr>))"

definition scheduleClose :: "int \<Rightarrow> nat \<Rightarrow> 'op DocStore \<Rightarrow> 'op DocStore" where
  "scheduleClose idleCloseMs c s = (let ctx = ds_contexts s ! c in
     if dc_closed ctx then s
     else if ds_closing s \<or> idleCloseMs = 0 then closeContext c s
     else if dc_timer ctx then s
     else updContext c (\<lambda>ctx. ctx\<lparr>dc_timer := True\<rparr>) s)"

definition timerFired :: "nat \<Rightarrow> 'op DocStore \<Rightarrow> 'op DocStore" where
  "timerFired c s = (if \<not> dc_timer (ds_contexts s ! c) then s
     else let s' = updContext c (\<lambda>ctx. ctx\<lparr>dc_timer := False\<rparr>) s in
       if 0 < dc_connections (ds_contexts s ! c) then s' else closeContext c s')"

section \<open>Opening\<close>

definition setCaller :: "nat \<Rightarrow> Caller \<Rightarrow> 'op DocStore \<Rightarrow> 'op DocStore" where
  "setCaller r v s = s\<lparr>ds_callers := (ds_callers s)[r := v]\<rparr>"

definition setOpening :: "nat \<Rightarrow> OpeningState \<Rightarrow> 'op DocStore \<Rightarrow> 'op DocStore" where
  "setOpening i v s = s\<lparr>ds_openings := (ds_openings s)[i := (ds_openings s ! i)\<lparr>og_state := v\<rparr>]\<rparr>"

text \<open>\<^verbatim>\<open>openContext\<close> until its first await, called by \<^verbatim>\<open>provider.open\<close>.\<close>

definition openCalled :: "string \<Rightarrow> 'op DocStore \<Rightarrow> 'op DocStore" where
  "openCalled docId s = (let call = (\<lambda>v s. s\<lparr>ds_callers := ds_callers s @ [v]\<rparr>) in
     if trim_js docId = [] then call (Rejected ''docId must be a non-empty string'') s
     else if ds_closing s then call (Rejected ''doc store is closing'') s
     else case js_get (ds_docs s) docId of
       Some c \<Rightarrow> call (AwaitContext c) s
     | None \<Rightarrow> (case js_get (ds_openInFlight s) docId of
         Some i \<Rightarrow> call (AwaitOpening i False) s
       | None \<Rightarrow> let i = length (ds_openings s) in
           call (AwaitOpening i True) (s\<lparr>ds_openings := ds_openings s @ [\<lparr>og_docId = docId, og_state = AwaitBackend\<rparr>],
             ds_openInFlight := js_set docId i (ds_openInFlight s)\<rparr>)))"

definition backendOpened :: "nat \<Rightarrow> bool \<Rightarrow> 'op DocStore \<Rightarrow> 'op DocStore" where
  "backendOpened i ok s = (if og_state (ds_openings s ! i) \<noteq> AwaitBackend then s
     else if ok then setOpening i (AwaitPeerOptions (ds_opened s)) (s\<lparr>ds_opened := ds_opened s + 1\<rparr>)
     else setOpening i OpeningFailed s)"

definition newContext :: "string \<Rightarrow> nat \<Rightarrow> 'op DocContext" where
  "newContext docId b = \<lparr>dc_docId = docId, dc_backend = b, dc_peers = [], dc_connections = 0, dc_closed = False, dc_timer = False,
     dc_queue = [], dc_broadcasting = []\<rparr>"

definition peerOptionsReady :: "nat \<Rightarrow> bool \<Rightarrow> 'op DocStore \<Rightarrow> 'op DocStore" where
  "peerOptionsReady i ok s = (case og_state (ds_openings s ! i) of
       AwaitPeerOptions b \<Rightarrow>
         if \<not> ok \<or> ds_closing s then closeBackend b (setOpening i OpeningFailed s)
         else (case js_get (ds_docs s) (og_docId (ds_openings s ! i)) of
           Some c \<Rightarrow> closeBackend b (setOpening i (OpenedAs c) s)
         | None \<Rightarrow> let docId = og_docId (ds_openings s ! i); c = length (ds_contexts s) in
             setOpening i (OpenedAs c) (s\<lparr>ds_contexts := ds_contexts s @ [newContext docId b], ds_docs := js_set docId c (ds_docs s)\<rparr>))
     | _ \<Rightarrow> s)"

text \<open>The rest of \<^verbatim>\<open>openContext\<close> for a caller that waited for an opening.\<close>

definition openingSettled :: "nat \<Rightarrow> 'op DocStore \<Rightarrow> 'op DocStore" where
  "openingSettled r s = (case ds_callers s ! r of
       AwaitOpening i creator \<Rightarrow>
         (let s' = (if creator then s\<lparr>ds_openInFlight := js_delete (og_docId (ds_openings s ! i)) (ds_openInFlight s)\<rparr> else s) in
          case og_state (ds_openings s ! i) of
            OpenedAs c \<Rightarrow> setCaller r (AwaitContext c) s'
          | OpeningFailed \<Rightarrow> setCaller r (Rejected ''open failed'') s'
          | _ \<Rightarrow> s)
     | _ \<Rightarrow> s)"

text \<open>The rest of \<^verbatim>\<open>provider.open\<close>.\<close>

definition openResumed :: "nat \<Rightarrow> 'op DocStore \<Rightarrow> 'op DocStore" where
  "openResumed r s = (case ds_callers s ! r of
       AwaitContext c \<Rightarrow>
         if ds_closing s \<or> dc_closed (ds_contexts s ! c) then setCaller r (Rejected ''doc store is closing'') s
         else let s' = updContext c (\<lambda>ctx. ctx\<lparr>dc_connections := dc_connections ctx + 1, dc_timer := False\<rparr>) s in
           setCaller r (Returned (length (ds_handles s))) (s'\<lparr>ds_handles := ds_handles s @ [\<lparr>hd_ctx = c, hd_released = False\<rparr>]\<rparr>)
     | _ \<Rightarrow> s)"

section \<open>Handles\<close>

definition release :: "int \<Rightarrow> nat \<Rightarrow> 'op DocStore \<Rightarrow> 'op DocStore" where
  "release idleCloseMs h s = (if hd_released (ds_handles s ! h) then s
     else let c = hd_ctx (ds_handles s ! h);
              s1 = s\<lparr>ds_handles := (ds_handles s)[h := (ds_handles s ! h)\<lparr>hd_released := True\<rparr>]\<rparr> in
       if dc_closed (ds_contexts s ! c) then s1
       else let s2 = updContext c (\<lambda>ctx. ctx\<lparr>dc_connections := dc_connections ctx - 1\<rparr>) s1 in
         if 0 < dc_connections (ds_contexts s2 ! c) then s2
         else if ds_closing s then closeContext c s2
         else scheduleClose idleCloseMs c s2)"

definition setAdd :: "nat \<Rightarrow> nat list \<Rightarrow> nat list" where
  "setAdd p ps = (if p \<in> set ps then ps else ps @ [p])"

definition peerAdded :: "nat \<Rightarrow> nat \<Rightarrow> 'op DocStore \<Rightarrow> 'op DocStore" where
  "peerAdded h p s = updContext (hd_ctx (ds_handles s ! h)) (\<lambda>ctx. ctx\<lparr>dc_peers := setAdd p (dc_peers ctx)\<rparr>) s"

definition peerRemoved :: "nat \<Rightarrow> nat \<Rightarrow> 'op DocStore \<Rightarrow> 'op DocStore" where
  "peerRemoved h p s = updContext (hd_ctx (ds_handles s ! h)) (\<lambda>ctx. ctx\<lparr>dc_peers := filter (\<lambda>q. q \<noteq> p) (dc_peers ctx)\<rparr>) s"

section \<open>Applying and notifying\<close>

definition notifyDocUpdate :: "string \<Rightarrow> 'op list \<Rightarrow> 'op DocStore \<Rightarrow> 'op DocStore" where
  "notifyDocUpdate docId ops s = (case js_get (ds_docs s) docId of
       None \<Rightarrow> s
     | Some c \<Rightarrow> s\<lparr>ds_notified := ds_notified s @ [(dc_peers (ds_contexts s ! c), ops)]\<rparr>)"

text \<open>
  \<^verbatim>\<open>applyOps\<close> of a context queues the batch behind the others; the head of the queue is the one
  that runs.  After a batch was applied, and the broadcast has settled either way, the peers are notified.
\<close>

definition applyCalled :: "nat \<Rightarrow> 'op list \<Rightarrow> 'op DocStore \<Rightarrow> 'op DocStore" where
  "applyCalled c ops s = (if ops = [] then s else updContext c (\<lambda>ctx. ctx\<lparr>dc_queue := dc_queue ctx @ [ops]\<rparr>) s)"

definition applySettled :: "nat \<Rightarrow> bool \<Rightarrow> 'op DocStore \<Rightarrow> 'op DocStore" where
  "applySettled c ok s = (case dc_queue (ds_contexts s ! c) of
       [] \<Rightarrow> s
     | ops # rest \<Rightarrow> updContext c (\<lambda>ctx. ctx\<lparr>dc_queue := rest,
         dc_broadcasting := dc_broadcasting ctx @ (if ok then [ops] else [])\<rparr>) s)"

definition broadcastSettled :: "nat \<Rightarrow> nat \<Rightarrow> 'op DocStore \<Rightarrow> 'op DocStore" where
  "broadcastSettled c k s = (let ctx = ds_contexts s ! c; bs = dc_broadcasting ctx in
     if length bs \<le> k then s
     else notifyDocUpdate (dc_docId ctx) (bs ! k) (updContext c (\<lambda>ctx. ctx\<lparr>dc_broadcasting := take k bs @ drop (Suc k) bs\<rparr>) s))"

section \<open>Closing the store\<close>

definition closeAllCalled :: "'op DocStore \<Rightarrow> 'op DocStore" where
  "closeAllCalled s = (if ds_closeWait s \<noteq> None then s
     else s\<lparr>ds_closing := True, ds_closeWait := Some (map snd (ds_openInFlight s))\<rparr>)"

definition opening_settled :: "Opening \<Rightarrow> bool" where
  "opening_settled og \<longleftrightarrow> (case og_state og of OpeningFailed \<Rightarrow> True | OpenedAs _ \<Rightarrow> True | _ \<Rightarrow> False)"

definition closeAllSettled :: "'op DocStore \<Rightarrow> 'op DocStore" where
  "closeAllSettled s = (case ds_closeWait s of
       None \<Rightarrow> s
     | Some waits \<Rightarrow> if ds_closedAll s \<or> \<not> list_all (\<lambda>i. opening_settled (ds_openings s ! i)) waits then s
         else (fold closeContext (map snd (ds_docs s)) s)\<lparr>ds_closedAll := True\<rparr>)"

section \<open>Runs\<close>

datatype 'op DocEvent = OpenCalled string | BackendOpened nat bool | PeerOptionsReady nat bool | OpeningSettled nat
  | OpenResumed nat | Released nat | TimerFired nat | PeerAdded nat nat | PeerRemoved nat nat | UpdateNotified string "'op list"
  | ApplyCalled nat "'op list" | ApplySettled nat bool | BroadcastSettled nat nat | CloseAllCalled | CloseAllSettled

text \<open>An event that names something that does not exist is no event.\<close>

fun docStep :: "int \<Rightarrow> 'op DocEvent \<Rightarrow> 'op DocStore \<Rightarrow> 'op DocStore" where
  "docStep idle (OpenCalled docId) s = openCalled docId s"
| "docStep idle (BackendOpened i ok) s = (if i < length (ds_openings s) then backendOpened i ok s else s)"
| "docStep idle (PeerOptionsReady i ok) s = (if i < length (ds_openings s) then peerOptionsReady i ok s else s)"
| "docStep idle (OpeningSettled r) s = (if r < length (ds_callers s) then openingSettled r s else s)"
| "docStep idle (OpenResumed r) s = (if r < length (ds_callers s) then openResumed r s else s)"
| "docStep idle (Released h) s = (if h < length (ds_handles s) then release idle h s else s)"
| "docStep idle (TimerFired c) s = (if c < length (ds_contexts s) then timerFired c s else s)"
| "docStep idle (PeerAdded h p) s = (if h < length (ds_handles s) then peerAdded h p s else s)"
| "docStep idle (PeerRemoved h p) s = (if h < length (ds_handles s) then peerRemoved h p s else s)"
| "docStep idle (UpdateNotified docId ops) s = notifyDocUpdate docId ops s"
| "docStep idle (ApplyCalled c ops) s = (if c < length (ds_contexts s) then applyCalled c ops s else s)"
| "docStep idle (ApplySettled c ok) s = (if c < length (ds_contexts s) then applySettled c ok s else s)"
| "docStep idle (BroadcastSettled c k) s = (if c < length (ds_contexts s) then broadcastSettled c k s else s)"
| "docStep idle CloseAllCalled s = closeAllCalled s"
| "docStep idle CloseAllSettled s = closeAllSettled s"

definition runDocStore :: "int \<Rightarrow> 'op DocEvent list \<Rightarrow> 'op DocStore" where
  "runDocStore idle evs = fold (docStep idle) evs emptyDocStore"

end
