(* ===== verification/Doc_Store_Safety.thy ===== *)
theory Doc_Store_Safety
  imports Doc_Store
begin

text \<open>
  What every run of the document store keeps: at most one open context per document, none closed
  under a connection, none forgotten, and every backend that was opened closed at most once.
\<close>

section \<open>Lists that change at one place\<close>

lemma length_filter_update:
  assumes "i < length xs"
  shows "length (filter P (xs[i := y])) + (if P (xs ! i) then 1 else 0) = length (filter P xs) + (if P y then 1 else 0)"
proof -
  have "filter P xs = filter P (take i xs) @ (if P (xs ! i) then [xs ! i] else []) @ filter P (drop (Suc i) xs)"
    by (subst (1) id_take_nth_drop [OF assms]) simp
  moreover have "filter P (xs[i := y]) = filter P (take i xs) @ (if P y then [y] else []) @ filter P (drop (Suc i) xs)"
    using assms by (simp add: upd_conv_take_nth_drop)
  ultimately show ?thesis by simp
qed

lemma mset_concat_update:
  assumes "i < length xs"
  shows "mset (concat (map f (xs[i := y]))) + mset (f (xs ! i)) = mset (concat (map f xs)) + mset (f y)"
proof -
  have "mset (concat (map f xs)) = mset (concat (map f (take i xs))) + mset (f (xs ! i)) + mset (concat (map f (drop (Suc i) xs)))"
    by (subst (1) id_take_nth_drop [OF assms]) simp
  moreover have "mset (concat (map f (xs[i := y]))) = mset (concat (map f (take i xs))) + mset (f y) + mset (concat (map f (drop (Suc i) xs)))"
    using assms by (simp add: upd_conv_take_nth_drop)
  ultimately show ?thesis by simp
qed

lemma nth_update: "(xs[i := y]) ! k = (if k = i \<and> i < length xs then y else xs ! k)"
  by (cases "i < length xs") (auto simp: nth_list_update list_update_beyond)

section \<open>Documents, connections and timers\<close>

abbreviation ctxs :: "'op DocStore \<Rightarrow> nat \<Rightarrow> 'op DocContext" where
  "ctxs s c \<equiv> ds_contexts s ! c"

abbreviation is_ctx :: "'op DocStore \<Rightarrow> nat \<Rightarrow> bool" where
  "is_ctx s c \<equiv> c < length (ds_contexts s)"

definition live :: "DocHandle list \<Rightarrow> nat \<Rightarrow> nat" where
  "live hs c = length (filter (\<lambda>h. hd_ctx h = c \<and> \<not> hd_released h) hs)"

abbreviation liveHandles :: "'op DocStore \<Rightarrow> nat \<Rightarrow> nat" where
  "liveHandles s \<equiv> live (ds_handles s)"

definition docs_ok :: "'op DocStore \<Rightarrow> bool" where
  "docs_ok s \<longleftrightarrow> js_wf (ds_docs s) \<and> (\<forall>d c. js_get (ds_docs s) d = Some c \<longleftrightarrow> is_ctx s c \<and> \<not> dc_closed (ctxs s c) \<and> dc_docId (ctxs s c) = d)"

definition counts_ok :: "'op DocStore \<Rightarrow> bool" where
  "counts_ok s \<longleftrightarrow> (\<forall>c. is_ctx s c \<longrightarrow> \<not> dc_closed (ctxs s c) \<longrightarrow> dc_connections (ctxs s c) = liveHandles s c)"

definition handles_ok :: "'op DocStore \<Rightarrow> bool" where
  "handles_ok s \<longleftrightarrow> (\<forall>h < length (ds_handles s). is_ctx s (hd_ctx (ds_handles s ! h))
     \<and> (\<not> hd_released (ds_handles s ! h) \<and> dc_closed (ctxs s (hd_ctx (ds_handles s ! h))) \<longrightarrow> ds_closing s))"

definition timers_ok :: "'op DocStore \<Rightarrow> bool" where
  "timers_ok s \<longleftrightarrow> (\<forall>c. is_ctx s c \<longrightarrow> dc_timer (ctxs s c) \<longrightarrow> \<not> dc_closed (ctxs s c) \<and> dc_connections (ctxs s c) = 0)"

definition caller_refers :: "nat \<Rightarrow> nat \<Rightarrow> Caller \<Rightarrow> bool" where
  "caller_refers openings contexts v = (case v of AwaitOpening i _ \<Rightarrow> i < openings | AwaitContext c \<Rightarrow> c < contexts | _ \<Rightarrow> True)"

definition refs_ok :: "'op DocStore \<Rightarrow> bool" where
  "refs_ok s \<longleftrightarrow> (\<forall>v \<in> set (ds_callers s). caller_refers (length (ds_openings s)) (length (ds_contexts s)) v)
     \<and> (\<forall>i < length (ds_openings s). \<forall>c. og_state (ds_openings s ! i) = OpenedAs c \<longrightarrow> is_ctx s c)
     \<and> (\<forall>d i. js_get (ds_openInFlight s) d = Some i \<longrightarrow> i < length (ds_openings s)) \<and> (ds_closeWait s \<noteq> None \<longrightarrow> ds_closing s)"

definition store_ok :: "'op DocStore \<Rightarrow> bool" where
  "store_ok s \<longleftrightarrow> docs_ok s \<and> counts_ok s \<and> handles_ok s \<and> timers_ok s \<and> refs_ok s"

lemma store_okI: "docs_ok s \<Longrightarrow> counts_ok s \<Longrightarrow> handles_ok s \<Longrightarrow> timers_ok s \<Longrightarrow> refs_ok s \<Longrightarrow> store_ok s"
  by (simp add: store_ok_def)

lemma store_okD: "store_ok s \<Longrightarrow> docs_ok s" "store_ok s \<Longrightarrow> counts_ok s" "store_ok s \<Longrightarrow> handles_ok s" "store_ok s \<Longrightarrow> timers_ok s" "store_ok s \<Longrightarrow> refs_ok s"
  by (simp_all add: store_ok_def)

lemmas ok_defs = docs_ok_def counts_ok_def handles_ok_def timers_ok_def refs_ok_def

lemma closeContext_eq:
  "closeContext c s = (if dc_closed (ctxs s c) then s
     else s\<lparr>ds_contexts := (ds_contexts s)[c := (ctxs s c)\<lparr>dc_closed := True, dc_timer := False, dc_peers := []\<rparr>],
       ds_docs := js_delete (dc_docId (ctxs s c)) (ds_docs s), ds_closedBackends := ds_closedBackends s @ [dc_backend (ctxs s c)]\<rparr>)"
  by (simp add: closeContext_def closeBackend_def updContext_def Let_def)

text \<open>An update of a context that keeps its document and whether it is closed, with the handles then.\<close>

lemma context_update_ok:
  assumes "store_ok s" "is_ctx s c"
    and keep: "dc_docId (f (ctxs s c)) = dc_docId (ctxs s c)" "dc_closed (f (ctxs s c)) = dc_closed (ctxs s c)"
    and count: "\<not> dc_closed (ctxs s c) \<longrightarrow> dc_connections (f (ctxs s c)) = live hs c"
    and others: "\<And>k. k \<noteq> c \<Longrightarrow> live hs k = liveHandles s k"
    and timer: "dc_timer (f (ctxs s c)) \<longrightarrow> \<not> dc_closed (ctxs s c) \<and> dc_connections (f (ctxs s c)) = 0"
    and handles: "\<forall>h < length hs. is_ctx s (hd_ctx (hs ! h)) \<and> (\<not> hd_released (hs ! h) \<and> dc_closed (ctxs s (hd_ctx (hs ! h))) \<longrightarrow> ds_closing s)"
  shows "store_ok ((updContext c f s)\<lparr>ds_handles := hs\<rparr>)"
proof -
  define s' where "s' = (updContext c f s)\<lparr>ds_handles := hs\<rparr>"
  have g: "ctxs s' k = (if k = c then f (ctxs s c) else ctxs s k)" for k
    using assms(2) by (simp add: s'_def updContext_def nth_list_update)
  have l: "length (ds_contexts s') = length (ds_contexts s)" "ds_docs s' = ds_docs s" "ds_handles s' = hs" "ds_callers s' = ds_callers s"
    "ds_openings s' = ds_openings s" "ds_closing s' = ds_closing s" "ds_openInFlight s' = ds_openInFlight s" "ds_closeWait s' = ds_closeWait s"
    by (simp_all add: s'_def updContext_def)
  note ok = store_okD [OF assms(1)]
  have "docs_ok s'" using ok(1) keep by (simp add: docs_ok_def g l)
  moreover have "counts_ok s'" using ok(2) keep count others by (simp add: counts_ok_def g l)
  moreover have "handles_ok s'" using handles keep by (simp add: handles_ok_def g l)
  moreover have "timers_ok s'" using ok(4) timer keep by (simp add: timers_ok_def g l)
  moreover have "refs_ok s'" using ok(5) by (simp add: refs_ok_def l)
  ultimately show ?thesis unfolding s'_def [symmetric] by (simp add: store_ok_def)
qed

lemma own_update_ok:
  assumes "store_ok s" "is_ctx s c"
    and "dc_docId (f (ctxs s c)) = dc_docId (ctxs s c)" "dc_closed (f (ctxs s c)) = dc_closed (ctxs s c)"
      "dc_connections (f (ctxs s c)) = dc_connections (ctxs s c)"
    and "dc_timer (f (ctxs s c)) \<longrightarrow> \<not> dc_closed (ctxs s c) \<and> dc_connections (ctxs s c) = 0"
  shows "store_ok (updContext c f s)"
proof -
  have "store_ok ((updContext c f s)\<lparr>ds_handles := ds_handles s\<rparr>)"
  proof (rule context_update_ok [where f = f, OF assms(1-4)])
    show "\<not> dc_closed (ctxs s c) \<longrightarrow> dc_connections (f (ctxs s c)) = liveHandles s c"
      using store_okD(2) [OF assms(1)] assms(2,5) by (simp add: counts_ok_def)
    show "dc_timer (f (ctxs s c)) \<longrightarrow> \<not> dc_closed (ctxs s c) \<and> dc_connections (f (ctxs s c)) = 0" using assms(5,6) by simp
    show "\<forall>h < length (ds_handles s). is_ctx s (hd_ctx (ds_handles s ! h))
        \<and> (\<not> hd_released (ds_handles s ! h) \<and> dc_closed (ctxs s (hd_ctx (ds_handles s ! h))) \<longrightarrow> ds_closing s)"
      using store_okD(3) [OF assms(1)] by (simp add: handles_ok_def)
  qed simp
  moreover have "(updContext c f s)\<lparr>ds_handles := ds_handles s\<rparr> = updContext c f s" by (simp add: updContext_def)
  ultimately show ?thesis by simp
qed

lemma quiet_ok:
  assumes "store_ok s" "is_ctx s c"
    and "\<And>x. dc_docId (f x) = dc_docId x" "\<And>x. dc_closed (f x) = dc_closed x" "\<And>x. dc_connections (f x) = dc_connections x" "\<And>x. dc_timer (f x) = dc_timer x"
  shows "store_ok (updContext c f s)"
  using store_okD(4) [OF assms(1)] assms(2) by (intro own_update_ok [OF assms(1,2)]) (simp_all add: assms(3-6) timers_ok_def)

text \<open>Closing a context no connection uses, or any context of a store that closes.\<close>

lemma same_core:
  assumes "store_ok s" "ds_contexts s' = ds_contexts s" "ds_docs s' = ds_docs s" "ds_handles s' = ds_handles s"
    "ds_closing s \<longrightarrow> ds_closing s'" "refs_ok s'"
  shows "store_ok s'"
proof -
  note ok = store_okD [OF assms(1)]
  have "docs_ok s'" using ok(1) by (simp add: docs_ok_def assms(2,3))
  moreover have "counts_ok s'" using ok(2) by (simp add: counts_ok_def assms(2,4))
  moreover have "handles_ok s'" using ok(3) assms(5) by (auto simp: handles_ok_def assms(2,4))
  moreover have "timers_ok s'" using ok(4) by (simp add: timers_ok_def assms(2))
  ultimately show ?thesis using assms(6) by (simp add: store_ok_def)
qed

lemma close_ok:
  assumes "store_ok s" "is_ctx s c" "dc_connections (ctxs s c) = 0 \<or> ds_closing s"
  shows "store_ok (closeContext c s)"
proof (cases "dc_closed (ctxs s c)")
  case False
  define s' where "s' = closeContext c s"
  from assms(1) have ok: "docs_ok s" "counts_ok s" "handles_ok s" "timers_ok s" "refs_ok s" by (simp_all add: store_ok_def)
  have g: "ctxs s' k = (if k = c then (ctxs s c)\<lparr>dc_closed := True, dc_timer := False, dc_peers := []\<rparr> else ctxs s k)" for k
    using assms(2) False by (simp add: s'_def closeContext_eq nth_list_update)
  have l: "length (ds_contexts s') = length (ds_contexts s)" "ds_docs s' = js_delete (dc_docId (ctxs s c)) (ds_docs s)" "ds_handles s' = ds_handles s" "ds_callers s' = ds_callers s"
    "ds_openings s' = ds_openings s" "ds_closing s' = ds_closing s" "ds_openInFlight s' = ds_openInFlight s" "ds_closeWait s' = ds_closeWait s"
    using False by (simp_all add: s'_def closeContext_eq)
  have same: "k = c" if "is_ctx s k" "\<not> dc_closed (ctxs s k)" "dc_docId (ctxs s k) = dc_docId (ctxs s c)" for k
  proof -
    from ok(1) have iff: "js_get (ds_docs s) d = Some j \<longleftrightarrow> is_ctx s j \<and> \<not> dc_closed (ctxs s j) \<and> dc_docId (ctxs s j) = d" for d j
      by (simp add: docs_ok_def)
    from iff [of "dc_docId (ctxs s c)" k] iff [of "dc_docId (ctxs s c)" c] that assms(2) False show ?thesis by simp
  qed
  have "docs_ok s'" using ok(1) same assms(2) by (auto simp: docs_ok_def g l)
  moreover have "counts_ok s'" using ok(2) by (simp add: counts_ok_def g l)
  moreover have "handles_ok s'"
  proof -
    have "ds_closing s" if "h < length (ds_handles s)" "\<not> hd_released (ds_handles s ! h)" "hd_ctx (ds_handles s ! h) = c" for h
    proof -
      from that have "liveHandles s c \<noteq> 0" by (auto simp: live_def filter_empty_conv)
      with ok(2) assms(2,3) False show ?thesis by (auto simp: counts_ok_def)
    qed
    with ok(3) assms(2) show ?thesis by (auto simp: handles_ok_def g l)
  qed
  moreover have "timers_ok s'" using ok(4) by (simp add: timers_ok_def g l)
  moreover have "refs_ok s'" using ok(5) by (simp add: refs_ok_def l)
  ultimately show ?thesis unfolding s'_def [symmetric] by (simp add: store_ok_def)
qed (use assms in \<open>simp add: closeContext_eq\<close>)

lemma schedule_ok:
  assumes "store_ok s" "is_ctx s c" "dc_connections (ctxs s c) = 0"
  shows "store_ok (scheduleClose idle c s)"
  using own_update_ok [OF assms(1,2), of "\<lambda>ctx. ctx\<lparr>dc_timer := True\<rparr>"] close_ok [OF assms(1,2)] assms
  by (simp add: scheduleClose_def Let_def)

lemma timer_ok:
  assumes "store_ok s" "is_ctx s c"
  shows "store_ok (timerFired c s)"
proof (cases "dc_timer (ctxs s c)")
  case True
  let ?s = "updContext c (\<lambda>ctx. ctx\<lparr>dc_timer := False\<rparr>) s"
  have ok: "store_ok ?s" using assms by (intro own_update_ok) simp_all
  have "dc_connections (ctxs ?s c) = dc_connections (ctxs s c)" "is_ctx ?s c" using assms(2) by (simp_all add: updContext_def)
  with close_ok [OF ok, of c] ok True show ?thesis by (simp add: timerFired_def Let_def)
qed (use assms in \<open>simp add: timerFired_def\<close>)

text \<open>A caller that moves on, and an opening that does.\<close>

lemma caller_ok:
  assumes "store_ok s" "caller_refers (length (ds_openings s)) (length (ds_contexts s)) v"
  shows "store_ok (setCaller r v s)" "store_ok (s\<lparr>ds_callers := ds_callers s @ [v]\<rparr>)"
proof -
  have "\<forall>x \<in> set ((ds_callers s)[r := v]). caller_refers (length (ds_openings s)) (length (ds_contexts s)) x"
    using store_okD(5) [OF assms(1)] assms(2) set_update_subset_insert [of "ds_callers s" r v] by (auto simp: refs_ok_def)
  with store_okD(5) [OF assms(1)] assms(2) show "store_ok (setCaller r v s)" "store_ok (s\<lparr>ds_callers := ds_callers s @ [v]\<rparr>)"
    by (auto intro!: same_core [OF assms(1)] simp: setCaller_def refs_ok_def)
qed

lemma opening_ok:
  assumes "store_ok s" "i < length (ds_openings s)" "\<forall>c. v = OpenedAs c \<longrightarrow> is_ctx s c"
  shows "store_ok (setOpening i v s)"
proof -
  have "\<forall>k < length (ds_openings s). \<forall>c. og_state ((ds_openings s)[i := (ds_openings s ! i)\<lparr>og_state := v\<rparr>] ! k) = OpenedAs c \<longrightarrow> is_ctx s c"
    using store_okD(5) [OF assms(1)] assms(2,3) by (auto simp: refs_ok_def nth_list_update)
  with store_okD(5) [OF assms(1)] show ?thesis by (intro same_core [OF assms(1)]) (simp_all add: setOpening_def refs_ok_def)
qed

text \<open>Fields the invariant does not read.\<close>

lemma other_fields_ok [simp]:
  "store_ok (s\<lparr>ds_closedBackends := x\<rparr>) = store_ok s" "store_ok (s\<lparr>ds_opened := n\<rparr>) = store_ok s"
  "store_ok (s\<lparr>ds_notified := y\<rparr>) = store_ok s" "store_ok (s\<lparr>ds_closedAll := b\<rparr>) = store_ok s"
  by (simp_all add: store_ok_def ok_defs)

lemma closing_ok: "store_ok s \<Longrightarrow> store_ok (s\<lparr>ds_closing := True, ds_closeWait := z\<rparr>)"
  by (rule same_core) (auto dest: store_okD(5) simp: refs_ok_def)

lemma inFlight_ok:
  assumes "store_ok s"
  shows "store_ok (s\<lparr>ds_openInFlight := js_delete d (ds_openInFlight s)\<rparr>)"
    "store_ok (s\<lparr>ds_openings := ds_openings s @ [\<lparr>og_docId = d, og_state = AwaitBackend\<rparr>],
       ds_openInFlight := js_set d (length (ds_openings s)) (ds_openInFlight s)\<rparr>)"
proof -
  note ok = store_okD(5) [OF assms]
  show "store_ok (s\<lparr>ds_openInFlight := js_delete d (ds_openInFlight s)\<rparr>)"
    using ok by (intro same_core [OF assms]) (simp_all add: refs_ok_def)
  have "caller_refers (Suc n) m v" if "caller_refers n m v" for n m v using that by (simp add: caller_refers_def split: Caller.splits)
  with ok show "store_ok (s\<lparr>ds_openings := ds_openings s @ [\<lparr>og_docId = d, og_state = AwaitBackend\<rparr>],
       ds_openInFlight := js_set d (length (ds_openings s)) (ds_openInFlight s)\<rparr>)"
    by (intro same_core [OF assms]) (auto simp: refs_ok_def nth_append less_Suc_eq)
qed

lemma new_context_ok:
  assumes "store_ok s" "js_get (ds_docs s) d = None"
  shows "store_ok (s\<lparr>ds_contexts := ds_contexts s @ [newContext d b], ds_docs := js_set d (length (ds_contexts s)) (ds_docs s)\<rparr>)" (is "store_ok ?s")
proof -
  note ok = store_okD [OF assms(1)]
  have g: "ctxs ?s k = (if k = length (ds_contexts s) then newContext d b else ctxs s k)" if "is_ctx ?s k" for k
    using that by (simp add: nth_append)
  have none: "\<not> (is_ctx s c \<and> \<not> dc_closed (ctxs s c) \<and> dc_docId (ctxs s c) = d)" for c
    using ok(1) assms(2) by (simp add: docs_ok_def) (metis option.distinct(1))
  have "docs_ok ?s" using ok(1) none by (auto simp: docs_ok_def nth_append less_Suc_eq newContext_def)
  moreover have "liveHandles ?s (length (ds_contexts s)) = 0"
    using ok(3) by (auto simp: live_def handles_ok_def filter_empty_conv in_set_conv_nth) (metis less_irrefl)
  then have "counts_ok ?s" using ok(2) by (auto simp: counts_ok_def nth_append less_Suc_eq newContext_def live_def)
  moreover have "handles_ok ?s" using ok(3) by (auto simp: handles_ok_def nth_append less_Suc_eq)
  moreover have "timers_ok ?s" using ok(4) by (auto simp: timers_ok_def nth_append less_Suc_eq newContext_def)
  moreover have "caller_refers n (Suc m) v" if "caller_refers n m v" for n m v using that by (simp add: caller_refers_def split: Caller.splits)
  then have "refs_ok ?s" using ok(5) by (auto simp: refs_ok_def less_Suc_eq)
  ultimately show ?thesis by (simp add: store_ok_def)
qed

lemma live_append [simp]: "live (hs @ [\<lparr>hd_ctx = c, hd_released = False\<rparr>]) k = live hs k + (if k = c then 1 else 0)"
  by (simp add: live_def)

section \<open>Every event keeps them\<close>

lemma opened_called_ok: "store_ok s \<Longrightarrow> store_ok (openCalled docId s)"
proof -
  assume ok: "store_ok s"
  let ?s = "s\<lparr>ds_openings := ds_openings s @ [\<lparr>og_docId = docId, og_state = AwaitBackend\<rparr>],
       ds_openInFlight := js_set docId (length (ds_openings s)) (ds_openInFlight s)\<rparr>"
  have "is_ctx s c" if "js_get (ds_docs s) docId = Some c" for c using store_okD(1) [OF ok] that by (simp add: docs_ok_def)
  moreover have "i < length (ds_openings s)" if "js_get (ds_openInFlight s) docId = Some i" for i
    using store_okD(5) [OF ok] that by (auto simp: refs_ok_def)
  moreover have "store_ok (?s\<lparr>ds_callers := ds_callers s @ [AwaitOpening (length (ds_openings s)) True]\<rparr>)"
    using caller_ok(2) [OF inFlight_ok(2) [OF ok, of docId], of "AwaitOpening (length (ds_openings s)) True"] by (simp add: caller_refers_def)
  ultimately show ?thesis using ok
    by (auto simp: openCalled_def Let_def caller_refers_def intro!: caller_ok(2) split: option.splits)
qed

lemma backend_opened_ok: "store_ok s \<Longrightarrow> i < length (ds_openings s) \<Longrightarrow> store_ok (backendOpened i ok s)"
  by (simp add: backendOpened_def opening_ok)

lemma peer_options_ok:
  assumes "store_ok s" "i < length (ds_openings s)"
  shows "store_ok (peerOptionsReady i ok s)"
proof -
  have "is_ctx s c" if "js_get (ds_docs s) d = Some c" for c d using store_okD(1) [OF assms(1)] that by (simp add: docs_ok_def)
  then show ?thesis using assms
    by (auto simp: peerOptionsReady_def closeBackend_def Let_def intro!: opening_ok new_context_ok split: OpeningState.splits option.splits)
qed

lemma opening_settled_ok:
  assumes "store_ok s" "r < length (ds_callers s)"
  shows "store_ok (openingSettled r s)"
proof -
  have "is_ctx s c" if "ds_callers s ! r = AwaitOpening i cr" "og_state (ds_openings s ! i) = OpenedAs c" for i cr c
    using store_okD(5) [OF assms(1)] assms(2) that nth_mem [OF assms(2)] by (fastforce simp: refs_ok_def caller_refers_def)
  then show ?thesis using assms
    by (auto simp: openingSettled_def Let_def caller_refers_def intro!: caller_ok(1) inFlight_ok(1) split: Caller.splits OpeningState.splits)
qed

lemma open_resumed_ok:
  assumes "store_ok s" "r < length (ds_callers s)"
  shows "store_ok (openResumed r s)"
proof -
  have "store_ok ((updContext c (\<lambda>ctx. ctx\<lparr>dc_connections := dc_connections ctx + 1, dc_timer := False\<rparr>) s)
      \<lparr>ds_handles := ds_handles s @ [\<lparr>hd_ctx = c, hd_released = False\<rparr>]\<rparr>)"
    if "ds_callers s ! r = AwaitContext c" "\<not> dc_closed (ctxs s c)" for c
  proof -
    have c: "is_ctx s c" using store_okD(5) [OF assms(1)] that(1) nth_mem [OF assms(2)] by (fastforce simp: refs_ok_def caller_refers_def)
    show ?thesis using store_okD(2,3) [OF assms(1)] that(2) c
      by (intro context_update_ok [OF assms(1) c]) (auto simp: counts_ok_def handles_ok_def live_append nth_append less_Suc_eq)
  qed
  then show ?thesis using assms
    by (auto simp: openResumed_def Let_def caller_refers_def intro!: caller_ok(1) split: Caller.splits)
qed

lemma release_ok:
  assumes "store_ok s" "h < length (ds_handles s)"
  shows "store_ok (release idle h s)"
proof (cases "hd_released (ds_handles s ! h)")
  case False
  let ?c = "hd_ctx (ds_handles s ! h)" and ?hs = "(ds_handles s)[h := (ds_handles s ! h)\<lparr>hd_released := True\<rparr>]"
  let ?f = "\<lambda>ctx. if dc_closed ctx then ctx else ctx\<lparr>dc_connections := dc_connections ctx - 1\<rparr>"
  note ok = store_okD [OF assms(1)]
  have c: "is_ctx s ?c" using ok(3) assms(2) by (simp add: handles_ok_def)
  have live: "live ?hs k + (if k = ?c then 1 else 0) = liveHandles s k" for k
    using length_filter_update [OF assms(2), of "\<lambda>x. hd_ctx x = k \<and> \<not> hd_released x" "(ds_handles s ! h)\<lparr>hd_released := True\<rparr>"] False
    by (auto simp: live_def)
  have upd: "store_ok ((updContext ?c ?f s)\<lparr>ds_handles := ?hs\<rparr>)"
  proof (rule context_update_ok [OF assms(1) c])
    show "\<not> dc_closed (ctxs s ?c) \<longrightarrow> dc_connections (?f (ctxs s ?c)) = live ?hs ?c"
      using ok(2) c live [of ?c] by (auto simp: counts_ok_def)
    show "live ?hs k = liveHandles s k" if "k \<noteq> ?c" for k
      using live [of k] that by simp
    show "dc_timer (?f (ctxs s ?c)) \<longrightarrow> \<not> dc_closed (ctxs s ?c) \<and> dc_connections (?f (ctxs s ?c)) = 0"
      using ok(4) c by (auto simp: timers_ok_def)
    show "\<forall>k < length ?hs. is_ctx s (hd_ctx (?hs ! k)) \<and> (\<not> hd_released (?hs ! k) \<and> dc_closed (ctxs s (hd_ctx (?hs ! k))) \<longrightarrow> ds_closing s)"
      using ok(3) assms(2) by (auto simp: handles_ok_def nth_list_update)
  qed simp_all
  let ?s1 = "s\<lparr>ds_handles := ?hs\<rparr>"
  let ?s2 = "updContext ?c (\<lambda>ctx. ctx\<lparr>dc_connections := dc_connections ctx - 1\<rparr>) ?s1"
  have "store_ok ?s1" if "dc_closed (ctxs s ?c)" using upd that c by (simp add: updContext_def)
  moreover have "store_ok ?s2" if "\<not> dc_closed (ctxs s ?c)"
  proof -
    have "(updContext ?c ?f s)\<lparr>ds_handles := ?hs\<rparr> = ?s2" using that by (cases s) (simp add: updContext_def)
    from this upd show ?thesis by (rule subst [where P = store_ok])
  qed
  moreover have "is_ctx ?s2 ?c" using c by (simp add: updContext_def)
  ultimately show ?thesis using False close_ok [of ?s2 ?c] schedule_ok [of ?s2 ?c idle]
    by (auto simp: release_def Let_def)
qed (use assms in \<open>simp add: release_def\<close>)

lemma closeAll_ok:
  assumes "store_ok s" "ds_closing s" "\<forall>c \<in> set cs. is_ctx s c"
  shows "store_ok (fold closeContext cs s)"
  using assms
proof (induction cs arbitrary: s)
  case (Cons c cs)
  have "ds_closing (closeContext c s) = ds_closing s" "length (ds_contexts (closeContext c s)) = length (ds_contexts s)"
    by (simp_all add: closeContext_eq)
  with Cons.IH [of "closeContext c s"] Cons.prems close_ok [of s c] show ?case by simp
qed simp


lemma notify_ok: "store_ok s \<Longrightarrow> store_ok (notifyDocUpdate d ops s)"
  by (simp add: notifyDocUpdate_def split: option.splits)

lemma docStep_ok:
  assumes "store_ok s"
  shows "store_ok (docStep idle e s)"
proof (cases e)
  case CloseAllSettled
  have "ds_closing s" if "ds_closeWait s \<noteq> None" using that store_okD(5) [OF assms] by (simp add: refs_ok_def)
  moreover have "is_ctx s c" if "c \<in> set (map snd (ds_docs s))" for c
  proof -
    from that obtain d where "(d, c) \<in> set (ds_docs s)" by auto
    with store_okD(1) [OF assms] have "js_get (ds_docs s) d = Some c" by (simp add: docs_ok_def js_get_def js_wf_def)
    with store_okD(1) [OF assms] show ?thesis by (simp add: docs_ok_def)
  qed
  ultimately show ?thesis using assms CloseAllSettled
    by (auto simp: closeAllSettled_def intro!: closeAll_ok split: option.splits)
next
  case CloseAllCalled
  then show ?thesis using assms closing_ok [OF assms] by (simp add: closeAllCalled_def)
next
  case (PeerAdded h p)
  then show ?thesis using assms store_okD(3) [OF assms] by (auto simp: peerAdded_def handles_ok_def intro!: quiet_ok)
next
  case (PeerRemoved h p)
  then show ?thesis using assms store_okD(3) [OF assms] by (auto simp: peerRemoved_def handles_ok_def intro!: quiet_ok)
next
  case (ApplySettled c ok)
  then show ?thesis using assms by (auto simp: applySettled_def intro!: quiet_ok split: list.splits)
next
  case (BroadcastSettled c k)
  then show ?thesis using assms by (auto simp: broadcastSettled_def Let_def intro!: quiet_ok notify_ok)
next
  case (ApplyCalled c ops)
  then show ?thesis using assms by (auto simp: applyCalled_def intro!: quiet_ok)
qed (use assms in \<open>simp_all add: opened_called_ok backend_opened_ok peer_options_ok opening_settled_ok open_resumed_ok release_ok timer_ok notify_ok\<close>)

lemma emptyDocStore_ok: "store_ok emptyDocStore"
  by (simp add: store_ok_def ok_defs emptyDocStore_def js_wf_def js_get_def)

lemma runDocStore_induct:
  assumes "P emptyDocStore" "\<And>s e. P s \<Longrightarrow> P (docStep idle e s)"
  shows "P (runDocStore idle evs)"
proof -
  have "P s \<Longrightarrow> P (fold (docStep idle) evs s)" for s
    by (induction evs arbitrary: s) (simp_all add: assms(2))
  then show ?thesis unfolding runDocStore_def using assms(1) .
qed

lemma runs_ok: "store_ok (runDocStore idle evs)"
  by (rule runDocStore_induct [where P = store_ok, OF emptyDocStore_ok docStep_ok])

section \<open>No context is forgotten\<close>

lemma opening_settled_iff: "opening_settled og \<longleftrightarrow> og_state og = OpeningFailed \<or> (\<exists>c. og_state og = OpenedAs c)"
  by (simp add: opening_settled_def split: OpeningState.splits)

definition awaited :: "'op DocStore \<Rightarrow> nat \<Rightarrow> bool" where
  "awaited s c \<longleftrightarrow> (\<exists>v \<in> set (ds_callers s). v = AwaitContext c
     \<or> (\<exists>i creator. v = AwaitOpening i creator \<and> og_state (ds_openings s ! i) = OpenedAs c))"

definition idle_ok :: "'op DocStore \<Rightarrow> bool" where
  "idle_ok s \<longleftrightarrow> (\<forall>c. is_ctx s c \<longrightarrow> \<not> dc_closed (ctxs s c) \<longrightarrow> dc_connections (ctxs s c) = 0 \<longrightarrow> \<not> dc_timer (ctxs s c) \<longrightarrow>
     \<not> ds_closing s \<longrightarrow> awaited s c)"

definition creators_ok :: "'op DocStore \<Rightarrow> bool" where
  "creators_ok s \<longleftrightarrow> (\<forall>i < length (ds_openings s). \<not> opening_settled (ds_openings s ! i) \<longrightarrow> (\<exists>creator. AwaitOpening i creator \<in> set (ds_callers s)))"

definition waits_ok :: "'op DocStore \<Rightarrow> bool" where
  "waits_ok s \<longleftrightarrow> idle_ok s \<and> creators_ok s"

lemma set_update_other: "v \<in> set xs \<Longrightarrow> v \<noteq> xs ! r \<Longrightarrow> v \<in> set (xs[r := w])"
  by (metis in_set_conv_nth length_list_update nth_list_update_neq)

lemma same_waits:
  assumes "waits_ok s" "ds_openings s' = ds_openings s" "set (ds_callers s) \<subseteq> set (ds_callers s')" "ds_closing s \<longrightarrow> ds_closing s'"
    and "\<And>c. is_ctx s' c \<Longrightarrow> \<not> dc_closed (ctxs s' c) \<Longrightarrow> dc_connections (ctxs s' c) = 0 \<Longrightarrow> \<not> dc_timer (ctxs s' c) \<Longrightarrow>
      is_ctx s c \<and> \<not> dc_closed (ctxs s c) \<and> dc_connections (ctxs s c) = 0 \<and> \<not> dc_timer (ctxs s c)"
  shows "waits_ok s'"
proof -
  have "awaited s' c" if "awaited s c" for c using that assms(2,3) unfolding awaited_def by auto
  then have "idle_ok s'" using assms(1,4,5) unfolding waits_ok_def idle_ok_def by blast
  moreover have "creators_ok s'" using assms(1-3) unfolding waits_ok_def creators_ok_def by (metis subsetD)
  ultimately show ?thesis by (simp add: waits_ok_def)
qed

lemma close_waits:
  assumes "waits_ok s"
  shows "waits_ok (closeContext c s)"
  by (rule same_waits [OF assms]) (auto simp: closeContext_eq nth_update split: if_splits)

lemma quiet_waits:
  assumes "waits_ok s" "\<And>x. dc_closed (f x) = dc_closed x" "\<And>x. dc_connections (f x) = dc_connections x" "\<And>x. dc_timer (f x) = dc_timer x"
  shows "waits_ok (updContext c f s)"
  by (rule same_waits [OF assms(1)]) (auto simp: updContext_def nth_update assms(2-4) split: if_splits)

lemma notify_waits:
  assumes "waits_ok s"
  shows "waits_ok (notifyDocUpdate d ops s)"
  by (rule same_waits [OF assms]) (auto simp: notifyDocUpdate_def split: option.splits if_splits)

lemma timer_waits:
  assumes "waits_ok s" "is_ctx s c" "timers_ok s"
  shows "waits_ok (timerFired c s)"
  by (rule same_waits [OF assms(1)])
    (use assms(2,3) in \<open>auto simp: timerFired_def Let_def updContext_def closeContext_eq timers_ok_def nth_update split: if_splits\<close>)

lemma release_waits:
  assumes "waits_ok s"
  shows "waits_ok (release idle h s)"
  by (rule same_waits [OF assms])
    (auto simp: release_def Let_def updContext_def closeContext_eq scheduleClose_def nth_update split: if_splits)

lemma open_called_waits:
  assumes "waits_ok s" "refs_ok s"
  shows "waits_ok (openCalled docId s)"
proof -
  have call: "waits_ok (s\<lparr>ds_callers := ds_callers s @ [v]\<rparr>)" for v by (rule same_waits [OF assms(1)]) auto
  let ?s = "s\<lparr>ds_openings := ds_openings s @ [\<lparr>og_docId = docId, og_state = AwaitBackend\<rparr>],
     ds_openInFlight := js_set docId (length (ds_openings s)) (ds_openInFlight s),
     ds_callers := ds_callers s @ [AwaitOpening (length (ds_openings s)) True]\<rparr>"
  have i: "i < length (ds_openings s)" if "AwaitOpening i creator \<in> set (ds_callers s)" for i creator
    using assms(2) that by (fastforce simp: refs_ok_def caller_refers_def)
  have "awaited ?s c" if "awaited s c" for c
  proof -
    from that obtain v where v: "v \<in> set (ds_callers s)"
      "v = AwaitContext c \<or> (\<exists>i cr. v = AwaitOpening i cr \<and> og_state (ds_openings s ! i) = OpenedAs c)" unfolding awaited_def by blast
    from v(2) have "v = AwaitContext c \<or> (\<exists>i cr. v = AwaitOpening i cr \<and> og_state (ds_openings ?s ! i) = OpenedAs c)"
      using v(1) i by (auto simp: nth_append)
    with v(1) show ?thesis unfolding awaited_def by auto
  qed
  then have "idle_ok ?s" using assms(1) by (simp add: waits_ok_def idle_ok_def)
  moreover have "creators_ok ?s"
    unfolding creators_ok_def
  proof (intro allI impI)
    fix k assume k: "k < length (ds_openings ?s)" "\<not> opening_settled (ds_openings ?s ! k)"
    show "\<exists>creator. AwaitOpening k creator \<in> set (ds_callers ?s)"
    proof (cases "k = length (ds_openings s)")
      case False
      with k have "k < length (ds_openings s)" "\<not> opening_settled (ds_openings s ! k)" by (simp_all add: nth_append)
      with assms(1) have "\<exists>creator. AwaitOpening k creator \<in> set (ds_callers s)" by (simp add: waits_ok_def creators_ok_def)
      then show ?thesis by auto
    qed auto
  qed
  ultimately have "waits_ok ?s" by (simp add: waits_ok_def)
  then show ?thesis using call by (simp add: openCalled_def Let_def split: option.splits)
qed

text \<open>An opening that moves on keeps those who wait for it.\<close>

lemma opening_waits:
  assumes "waits_ok s" "i < length (ds_openings s)" "\<not> opening_settled (ds_openings s ! i)"
  shows "waits_ok (setOpening i v s)"
proof -
  have "awaited (setOpening i v s) c" if "awaited s c" for c
  proof -
    from that obtain w where w: "w \<in> set (ds_callers s)"
      "w = AwaitContext c \<or> (\<exists>j cr. w = AwaitOpening j cr \<and> og_state (ds_openings s ! j) = OpenedAs c)" unfolding awaited_def by blast
    then have "w = AwaitContext c \<or> (\<exists>j cr. w = AwaitOpening j cr \<and> og_state (ds_openings (setOpening i v s) ! j) = OpenedAs c)"
      using assms(3) by (auto simp: setOpening_def nth_update opening_settled_iff)
    with w(1) show ?thesis unfolding awaited_def by (auto simp: setOpening_def)
  qed
  then have "idle_ok (setOpening i v s)" using assms(1) by (simp add: waits_ok_def idle_ok_def setOpening_def)
  moreover have "creators_ok (setOpening i v s)" using assms
    by (auto simp: waits_ok_def creators_ok_def setOpening_def nth_update split: if_splits)
  ultimately show ?thesis by (simp add: waits_ok_def)
qed

lemma opened_context_waits:
  assumes "waits_ok s" "i < length (ds_openings s)" "\<not> opening_settled (ds_openings s ! i)"
  shows "waits_ok (setOpening i (OpenedAs (length (ds_contexts s)))
    (s\<lparr>ds_contexts := ds_contexts s @ [newContext d b], ds_docs := x\<rparr>))" (is "waits_ok ?s")
proof -
  let ?t = "setOpening i (OpenedAs (length (ds_contexts s))) s"
  note t = opening_waits [OF assms]
  from assms obtain cr where "AwaitOpening i cr \<in> set (ds_callers s)" by (auto simp: waits_ok_def creators_ok_def)
  then have "awaited ?s (length (ds_contexts s))"
    using assms(2) by (auto simp: awaited_def setOpening_def intro!: bexI [of _ "AwaitOpening i cr"])
  moreover have "awaited ?s c" if "awaited ?t c" for c using that by (simp add: awaited_def setOpening_def)
  ultimately have "idle_ok ?s" using t unfolding waits_ok_def
    by (auto simp: idle_ok_def setOpening_def nth_append less_Suc_eq)
  moreover have "creators_ok ?s" using t by (simp add: waits_ok_def creators_ok_def setOpening_def)
  ultimately show ?thesis by (simp add: waits_ok_def)
qed

lemma closed_backends_waits [simp]: "waits_ok (s\<lparr>ds_closedBackends := x\<rparr>) = waits_ok s" "waits_ok (s\<lparr>ds_opened := n\<rparr>) = waits_ok s"
  "waits_ok (s\<lparr>ds_openInFlight := y\<rparr>) = waits_ok s" "waits_ok (s\<lparr>ds_closedAll := z\<rparr>) = waits_ok s"
  by (simp_all add: waits_ok_def idle_ok_def creators_ok_def awaited_def)

lemma backend_opened_waits: "waits_ok s \<Longrightarrow> i < length (ds_openings s) \<Longrightarrow> waits_ok (backendOpened i ok s)"
  using opening_waits [of "s\<lparr>ds_opened := ds_opened s + 1\<rparr>" i]
  by (auto simp: backendOpened_def opening_settled_iff intro!: opening_waits)

lemma peer_options_waits: "waits_ok s \<Longrightarrow> i < length (ds_openings s) \<Longrightarrow> waits_ok (peerOptionsReady i ok s)"
  by (auto simp: peerOptionsReady_def closeBackend_def Let_def opening_settled_iff intro!: opening_waits opened_context_waits
      split: OpeningState.splits option.splits)

lemma caller_waits:
  assumes "waits_ok s" "r < length (ds_callers s)"
    and "\<And>i cr. ds_callers s ! r = AwaitOpening i cr \<Longrightarrow> opening_settled (ds_openings s ! i)"
    and "\<And>c. ds_callers s ! r = AwaitContext c \<or> (\<exists>i cr. ds_callers s ! r = AwaitOpening i cr \<and> og_state (ds_openings s ! i) = OpenedAs c)
      \<Longrightarrow> v = AwaitContext c \<or> ds_closing s \<or> dc_closed (ctxs s c) \<or> dc_connections (ctxs s c) \<noteq> 0"
  shows "waits_ok (setCaller r v s)"
proof -
  have v: "v \<in> set ((ds_callers s)[r := v])" using assms(2) by (rule set_update_memI)
  have "awaited (setCaller r v s) c"
    if "awaited s c" "\<not> ds_closing s" "\<not> dc_closed (ctxs s c)" "dc_connections (ctxs s c) = 0" for c
  proof -
    let ?P = "\<lambda>w. w = AwaitContext c \<or> (\<exists>i cr. w = AwaitOpening i cr \<and> og_state (ds_openings s ! i) = OpenedAs c)"
    from that(1) obtain w where w: "w \<in> set (ds_callers s)" "?P w" unfolding awaited_def by blast
    show ?thesis
    proof (cases "w = ds_callers s ! r")
      case True
      with w(2) assms(4) [of c] that have "v = AwaitContext c" by auto
      with v show ?thesis by (auto simp: awaited_def setCaller_def)
    next
      case False
      from set_update_other [OF w(1) this] w(2) show ?thesis by (auto simp: awaited_def setCaller_def)
    qed
  qed
  then have "idle_ok (setCaller r v s)" using assms(1) by (auto simp: waits_ok_def idle_ok_def setCaller_def)
  moreover have "creators_ok (setCaller r v s)"
    unfolding creators_ok_def
  proof (intro allI impI)
    fix i assume i: "i < length (ds_openings (setCaller r v s))" "\<not> opening_settled (ds_openings (setCaller r v s) ! i)"
    with assms(1) obtain cr where cr: "AwaitOpening i cr \<in> set (ds_callers s)" by (auto simp: waits_ok_def creators_ok_def setCaller_def)
    moreover have "AwaitOpening i cr \<noteq> ds_callers s ! r" using assms(3) [of i cr] i(2) by (auto simp: setCaller_def dest: sym)
    ultimately show "\<exists>cr. AwaitOpening i cr \<in> set (ds_callers (setCaller r v s))"
      using set_update_other by (fastforce simp: setCaller_def)
  qed
  ultimately show ?thesis by (simp add: waits_ok_def)
qed

lemma opening_settled_waits:
  assumes "waits_ok s" "r < length (ds_callers s)"
  shows "waits_ok (openingSettled r s)"
proof -
  have "waits_ok (setCaller r v s)" if "ds_callers s ! r = AwaitOpening i cr"
      "og_state (ds_openings s ! i) = OpenedAs c \<and> v = AwaitContext c \<or> og_state (ds_openings s ! i) = OpeningFailed" for i cr c v
    using that by (intro caller_waits [OF assms]) (auto simp: opening_settled_iff)
  moreover have "setCaller r v (s\<lparr>ds_openInFlight := x\<rparr>) = (setCaller r v s)\<lparr>ds_openInFlight := x\<rparr>" for v x
    by (cases s) (simp add: setCaller_def)
  ultimately show ?thesis using assms(1)
    by (auto simp: openingSettled_def Let_def split: Caller.splits OpeningState.splits)
qed

lemma open_resumed_waits:
  assumes "waits_ok s" "store_ok s" "r < length (ds_callers s)"
  shows "waits_ok (openResumed r s)"
proof (cases "ds_callers s ! r")
  case (AwaitContext c)
  have c: "is_ctx s c" using store_okD(5) [OF assms(2)] AwaitContext nth_mem [OF assms(3)] by (fastforce simp: refs_ok_def caller_refers_def)
  let ?t = "(updContext c (\<lambda>ctx. ctx\<lparr>dc_connections := dc_connections ctx + 1, dc_timer := False\<rparr>) s)
      \<lparr>ds_handles := ds_handles s @ [\<lparr>hd_ctx = c, hd_released = False\<rparr>]\<rparr>"
  have "waits_ok ?t" by (rule same_waits [OF assms(1)]) (auto simp: updContext_def nth_update split: if_splits)
  then have "waits_ok (setCaller r v ?t)" for v
    using AwaitContext assms(3) c by (intro caller_waits) (auto simp: updContext_def)
  moreover have "waits_ok (setCaller r v s)" if "ds_closing s \<or> dc_closed (ctxs s c)" for v
    using AwaitContext that by (intro caller_waits [OF assms(1,3)]) auto
  ultimately show ?thesis using AwaitContext by (simp add: openResumed_def Let_def)
qed (use assms(1) in \<open>simp_all add: openResumed_def\<close>)

lemma fold_close_waits: "waits_ok s \<Longrightarrow> waits_ok (fold closeContext cs s)"
  by (induction cs arbitrary: s) (simp_all add: close_waits)

lemma docStep_waits:
  assumes "store_ok s" "waits_ok s"
  shows "waits_ok (docStep idle e s)"
proof (cases e)
  case CloseAllCalled
  have "waits_ok (s\<lparr>ds_closing := True, ds_closeWait := x\<rparr>)" for x by (rule same_waits [OF assms(2)]) auto
  with CloseAllCalled assms(2) show ?thesis by (simp add: closeAllCalled_def)
next
  case CloseAllSettled
  with assms(2) fold_close_waits show ?thesis by (auto simp: closeAllSettled_def split: option.splits)
next
  case (ApplySettled c ok)
  then show ?thesis using assms by (auto simp: applySettled_def intro!: quiet_waits split: list.splits)
next
  case (BroadcastSettled c k)
  then show ?thesis using assms by (auto simp: broadcastSettled_def Let_def intro!: quiet_waits notify_waits)
next
  case (ApplyCalled c ops)
  then show ?thesis using assms by (auto simp: applyCalled_def intro!: quiet_waits)
qed (use assms store_okD [OF assms(1)] in \<open>simp_all add: open_called_waits backend_opened_waits peer_options_waits opening_settled_waits
    open_resumed_waits release_waits timer_waits notify_waits peerAdded_def peerRemoved_def quiet_waits\<close>)

lemma emptyDocStore_waits: "waits_ok emptyDocStore"
  by (simp add: waits_ok_def idle_ok_def creators_ok_def emptyDocStore_def)

lemma runs_wait: "waits_ok (runDocStore idle evs)"
proof -
  have "store_ok (runDocStore idle evs) \<and> waits_ok (runDocStore idle evs)"
    by (rule runDocStore_induct [where P = "\<lambda>s. store_ok s \<and> waits_ok s"])
      (simp_all add: emptyDocStore_ok docStep_ok docStep_waits emptyDocStore_waits)
  then show ?thesis ..
qed

section \<open>Every opened backend is in one place\<close>

definition openBackend :: "'op DocContext \<Rightarrow> nat list" where
  "openBackend ctx = (if dc_closed ctx then [] else [dc_backend ctx])"

definition heldBackend :: "Opening \<Rightarrow> nat list" where
  "heldBackend og = (case og_state og of AwaitPeerOptions b \<Rightarrow> [b] | _ \<Rightarrow> [])"

definition backends :: "'op DocStore \<Rightarrow> nat multiset" where
  "backends s = mset (ds_closedBackends s) + mset (concat (map openBackend (ds_contexts s))) + mset (concat (map heldBackend (ds_openings s)))"

text \<open>An event moves backends or opens the next one.\<close>

definition accounts :: "'op DocStore \<Rightarrow> 'op DocStore \<Rightarrow> bool" where
  "accounts s s' \<longleftrightarrow> (ds_opened s' = ds_opened s \<and> backends s' = backends s)
     \<or> (ds_opened s' = ds_opened s + 1 \<and> backends s' = add_mset (ds_opened s) (backends s))"

lemma close_backends:
  assumes "is_ctx s c"
  shows "backends (closeContext c s) = backends s" "ds_opened (closeContext c s) = ds_opened s"
proof -
  show "ds_opened (closeContext c s) = ds_opened s" by (simp add: closeContext_eq)
  show "backends (closeContext c s) = backends s"
  proof (cases "dc_closed (ctxs s c)")
    case False
    with mset_concat_update [OF assms, of openBackend "(ctxs s c)\<lparr>dc_closed := True, dc_timer := False, dc_peers := []\<rparr>"]
    show ?thesis by (simp add: closeContext_eq backends_def openBackend_def)
  qed (simp add: closeContext_eq)
qed

lemma update_backends:
  assumes "is_ctx s c" "\<And>x. dc_closed (f x) = dc_closed x" "\<And>x. dc_backend (f x) = dc_backend x"
  shows "backends (updContext c f s) = backends s" "ds_opened (updContext c f s) = ds_opened s"
proof -
  have "openBackend (f x) = openBackend x" for x by (simp add: openBackend_def assms(2,3))
  with mset_concat_update [OF assms(1), of openBackend "f (ctxs s c)"]
  show "backends (updContext c f s) = backends s" "ds_opened (updContext c f s) = ds_opened s"
    by (simp_all add: updContext_def backends_def)
qed

lemma update_length [simp]: "length (ds_contexts (updContext c f s)) = length (ds_contexts s)"
  by (simp add: updContext_def)

lemma opening_backends:
  assumes "i < length (ds_openings s)"
  shows "backends (setOpening i v s) + mset (heldBackend (ds_openings s ! i)) = backends s + mset (heldBackend ((ds_openings s ! i)\<lparr>og_state := v\<rparr>))"
  using mset_concat_update [OF assms, of heldBackend "(ds_openings s ! i)\<lparr>og_state := v\<rparr>"]
  by (simp add: backends_def setOpening_def algebra_simps)

lemma schedule_backends:
  assumes "is_ctx s c"
  shows "backends (scheduleClose idle c s) = backends s" "ds_opened (scheduleClose idle c s) = ds_opened s"
  using assms by (simp_all add: scheduleClose_def Let_def close_backends update_backends)

lemma release_backends:
  assumes "handles_ok s" "h < length (ds_handles s)"
  shows "backends (release idle h s) = backends s" "ds_opened (release idle h s) = ds_opened s"
proof -
  have c: "is_ctx s (hd_ctx (ds_handles s ! h))" using assms by (simp add: handles_ok_def)
  have "backends (s\<lparr>ds_handles := x\<rparr>) = backends s" for x by (simp add: backends_def)
  with c show "backends (release idle h s) = backends s" "ds_opened (release idle h s) = ds_opened s"
    by (simp_all add: release_def Let_def close_backends schedule_backends update_backends)
qed

lemma timer_backends:
  assumes "is_ctx s c"
  shows "backends (timerFired c s) = backends s" "ds_opened (timerFired c s) = ds_opened s"
  using assms by (simp_all add: timerFired_def Let_def close_backends update_backends)

lemma fold_close_backends:
  "\<forall>c \<in> set cs. is_ctx s c \<Longrightarrow> backends (fold closeContext cs s) = backends s \<and> ds_opened (fold closeContext cs s) = ds_opened s"
proof (induction cs arbitrary: s)
  case (Cons c cs)
  have "length (ds_contexts (closeContext c s)) = length (ds_contexts s)" by (simp add: closeContext_eq)
  with Cons close_backends [where s = s and c = c] show ?case by simp
qed simp

lemma backend_opened_accounts: "i < length (ds_openings s) \<Longrightarrow> accounts s (backendOpened i ok s)"
  using opening_backends [of i "s\<lparr>ds_opened := ds_opened s + 1\<rparr>" "AwaitPeerOptions (ds_opened s)"] opening_backends [of i s OpeningFailed]
  by (auto simp: accounts_def backendOpened_def heldBackend_def setOpening_def backends_def)

lemma peer_options_accounts:
  assumes "i < length (ds_openings s)"
  shows "accounts s (peerOptionsReady i ok s)"
proof (cases "og_state (ds_openings s ! i)")
  case (AwaitPeerOptions b)
  have "backends (closeBackend b (setOpening i v s)) = backends s" if "v = OpeningFailed \<or> v = OpenedAs c" for v c
    using opening_backends [OF assms, of v] AwaitPeerOptions that by (auto simp: closeBackend_def heldBackend_def backends_def)
  moreover have "backends (setOpening i (OpenedAs c) (s\<lparr>ds_contexts := ds_contexts s @ [newContext d b], ds_docs := x\<rparr>)) = backends s" for c d x
    using opening_backends [OF assms, of "OpenedAs c"] AwaitPeerOptions
    by (simp add: heldBackend_def backends_def setOpening_def openBackend_def newContext_def)
  ultimately show ?thesis using AwaitPeerOptions
    by (auto simp: accounts_def peerOptionsReady_def Let_def closeBackend_def setOpening_def split: option.splits)
qed (simp_all add: accounts_def peerOptionsReady_def)

lemma docs_contexts:
  assumes "store_ok s" "c \<in> set (map snd (ds_docs s))"
  shows "is_ctx s c"
proof -
  from assms(2) obtain d where "(d, c) \<in> set (ds_docs s)" by auto
  with store_okD(1) [OF assms(1)] have "js_get (ds_docs s) d = Some c" by (simp add: docs_ok_def js_get_def js_wf_def)
  with store_okD(1) [OF assms(1)] show ?thesis by (simp add: docs_ok_def)
qed

lemma quiet_backends [simp]:
  "backends (s\<lparr>ds_callers := a\<rparr>) = backends s" "backends (s\<lparr>ds_openInFlight := b\<rparr>) = backends s" "backends (s\<lparr>ds_handles := d\<rparr>) = backends s"
  "backends (s\<lparr>ds_notified := e\<rparr>) = backends s" "backends (s\<lparr>ds_closing := f\<rparr>) = backends s" "backends (s\<lparr>ds_closeWait := g\<rparr>) = backends s"
  "backends (s\<lparr>ds_closedAll := h\<rparr>) = backends s"
  by (simp_all add: backends_def)

lemma docStep_accounts:
  assumes "store_ok s"
  shows "accounts s (docStep idle e s)"
proof -
  note ok = store_okD [OF assms]
  have refs: "is_ctx s c" if "r < length (ds_callers s)" "ds_callers s ! r = AwaitContext c" for r c
    using ok(5) that nth_mem [OF that(1)] by (fastforce simp: refs_ok_def caller_refers_def)
  have hs: "is_ctx s (hd_ctx (ds_handles s ! h))" if "h < length (ds_handles s)" for h using ok(3) that by (simp add: handles_ok_def)
  show ?thesis
  proof (cases e)
    case (OpenCalled d)
    show ?thesis by (simp add: OpenCalled openCalled_def Let_def accounts_def backends_def heldBackend_def split: option.splits)
  next
    case (OpeningSettled r)
    show ?thesis by (simp add: OpeningSettled openingSettled_def Let_def accounts_def setCaller_def split: Caller.splits OpeningState.splits)
  next
    case (OpenResumed r)
    then show ?thesis using refs
      by (simp add: openResumed_def Let_def accounts_def setCaller_def update_backends split: Caller.splits)
  next
    case CloseAllSettled
    then show ?thesis using fold_close_backends [of "map snd (ds_docs s)" s] docs_contexts [OF assms]
      by (simp add: closeAllSettled_def accounts_def split: option.splits)
  next
    case (ApplySettled c ok)
    then show ?thesis by (simp add: applySettled_def accounts_def update_backends split: list.splits)
  next
    case (BroadcastSettled c k)
    then show ?thesis by (simp add: broadcastSettled_def Let_def accounts_def notifyDocUpdate_def update_backends split: option.splits)
  qed (simp_all add: backend_opened_accounts peer_options_accounts, simp_all add: accounts_def release_backends ok(3) timer_backends
      peerAdded_def peerRemoved_def applyCalled_def notifyDocUpdate_def closeAllCalled_def update_backends hs split: option.splits)
qed

definition backends_ok :: "'op DocStore \<Rightarrow> bool" where
  "backends_ok s \<longleftrightarrow> backends s = mset [0..<ds_opened s]"

lemma runs_account: "store_ok (runDocStore idle evs) \<and> backends_ok (runDocStore idle evs)"
proof (rule runDocStore_induct [where P = "\<lambda>s. store_ok s \<and> backends_ok s"])
  show "store_ok emptyDocStore \<and> backends_ok emptyDocStore"
    by (simp add: emptyDocStore_ok) (simp add: emptyDocStore_def backends_ok_def backends_def)
  show "store_ok (docStep idle e s) \<and> backends_ok (docStep idle e s)" if "store_ok s \<and> backends_ok s" for s :: "'a DocStore" and e
  proof -
    have "mset [0..<Suc n] = add_mset n (mset [0..<n])" for n by simp
    with that docStep_ok docStep_accounts [of s idle e] show ?thesis
      by (auto simp: backends_ok_def accounts_def simp del: mset_upt)
  qed
qed

section \<open>A closed store stays closed\<close>

definition ended_ok :: "'op DocStore \<Rightarrow> bool" where
  "ended_ok s \<longleftrightarrow> (ds_closedAll s \<longrightarrow> ds_closing s \<and> (\<forall>c. is_ctx s c \<longrightarrow> dc_closed (ctxs s c)))"

lemma fold_close_closes:
  "\<forall>c \<in> set cs. is_ctx s c \<Longrightarrow> is_ctx s c \<Longrightarrow> dc_closed (ctxs s c) \<or> c \<in> set cs \<Longrightarrow> dc_closed (ctxs (fold closeContext cs s) c)"
proof (induction cs arbitrary: s)
  case (Cons k cs)
  have "length (ds_contexts (closeContext k s)) = length (ds_contexts s)"
    "dc_closed (ctxs (closeContext k s) c) \<longleftrightarrow> dc_closed (ctxs s c) \<or> c = k"
    using Cons.prems by (auto simp: closeContext_eq nth_update)
  with Cons show ?case by auto
qed simp

lemma fold_close_fields:
  "ds_closing (fold closeContext cs s) = ds_closing s" "length (ds_contexts (fold closeContext cs s)) = length (ds_contexts s)"
  by (induction cs arbitrary: s) (simp_all add: closeContext_eq)

text \<open>Once the store closes, no context appears and none reopens.\<close>

definition shuts :: "'op DocStore \<Rightarrow> 'op DocStore \<Rightarrow> bool" where
  "shuts s s' \<longleftrightarrow> ds_closedAll s' = ds_closedAll s \<and> (ds_closing s \<longrightarrow> ds_closing s' \<and> length (ds_contexts s') = length (ds_contexts s)
     \<and> (\<forall>c. is_ctx s c \<longrightarrow> dc_closed (ctxs s c) \<longrightarrow> dc_closed (ctxs s' c)))"

lemma shuts_trans: "shuts s t \<Longrightarrow> shuts t u \<Longrightarrow> shuts s u"
  unfolding shuts_def by auto

lemma shuts_refl [simp]: "shuts s s"
  by (simp add: shuts_def)

lemma shuts_close: "shuts s (closeContext c s)"
  by (auto simp: shuts_def closeContext_eq nth_update)

lemma shuts_update: "(\<And>x. dc_closed (f x) = dc_closed x) \<Longrightarrow> shuts s (updContext c f s)"
  by (auto simp: shuts_def updContext_def nth_update)

lemma shuts_quiet [simp]:
  "shuts s (t\<lparr>ds_callers := a\<rparr>) = shuts s t" "shuts s (t\<lparr>ds_openInFlight := b\<rparr>) = shuts s t" "shuts s (t\<lparr>ds_handles := d\<rparr>) = shuts s t"
  "shuts s (t\<lparr>ds_notified := e\<rparr>) = shuts s t" "shuts s (t\<lparr>ds_openings := g\<rparr>) = shuts s t" "shuts s (t\<lparr>ds_opened := n\<rparr>) = shuts s t"
  "shuts s (t\<lparr>ds_closedBackends := h\<rparr>) = shuts s t"
  by (simp_all add: shuts_def)

lemma shuts_schedule: "shuts s (scheduleClose idle c s)"
  by (simp add: scheduleClose_def Let_def shuts_close shuts_update)

lemma shuts_release: "shuts s (release idle h s)"
proof -
  let ?s = "updContext (hd_ctx (ds_handles s ! h)) (\<lambda>ctx. ctx\<lparr>dc_connections := dc_connections ctx - 1\<rparr>)
    (s\<lparr>ds_handles := (ds_handles s)[h := (ds_handles s ! h)\<lparr>hd_released := True\<rparr>]\<rparr>)"
  have "shuts s (s\<lparr>ds_handles := (ds_handles s)[h := (ds_handles s ! h)\<lparr>hd_released := True\<rparr>]\<rparr>)" by simp
  then have "shuts s ?s" by (rule shuts_trans) (simp add: shuts_update)
  with shuts_trans [OF this shuts_close] shuts_trans [OF this shuts_schedule] show ?thesis by (simp add: release_def Let_def)
qed

lemma shuts_timer: "shuts s (timerFired c s)"
proof -
  have "shuts s (closeContext c (updContext c (\<lambda>ctx. ctx\<lparr>dc_timer := False\<rparr>) s))"
    by (rule shuts_trans [OF shuts_update shuts_close]) simp
  then show ?thesis by (simp add: timerFired_def Let_def shuts_update)
qed

lemma shuts_peer_options: "shuts s (peerOptionsReady i ok s)"
  by (simp add: peerOptionsReady_def closeBackend_def setOpening_def Let_def split: OpeningState.splits option.splits) (simp add: shuts_def)

lemma shuts_step: "e \<noteq> CloseAllSettled \<Longrightarrow> shuts s (docStep idle e s)"
proof (cases e)
  case CloseAllCalled
  then show ?thesis by (simp add: closeAllCalled_def shuts_def)
qed (simp_all add: shuts_release shuts_timer shuts_peer_options openCalled_def backendOpened_def setOpening_def openingSettled_def
    openResumed_def peerAdded_def peerRemoved_def notifyDocUpdate_def applyCalled_def applySettled_def broadcastSettled_def
    setCaller_def Let_def shuts_update split: option.splits Caller.splits OpeningState.splits list.splits)

lemma docStep_ended:
  assumes "store_ok s" "ended_ok s"
  shows "ended_ok (docStep idle e s)"
proof (cases "e = CloseAllSettled")
  case True
  have "dc_closed (ctxs (fold closeContext (map snd (ds_docs s)) s) c)" if "is_ctx s c" for c
  proof (rule fold_close_closes [OF _ that])
    show "dc_closed (ctxs s c) \<or> c \<in> set (map snd (ds_docs s))"
      using store_okD(1) [OF assms(1)] that js_get_in [of "ds_docs s" "dc_docId (ctxs s c)" c] by (force simp: docs_ok_def)
  qed (use docs_contexts [OF assms(1)] in blast)
  with True assms(2) store_okD(5) [OF assms(1)] show ?thesis
    by (auto simp: closeAllSettled_def ended_ok_def refs_ok_def fold_close_fields split: option.splits)
next
  case False
  from shuts_step [OF this, of s idle] assms(2) show ?thesis by (auto simp: shuts_def ended_ok_def)
qed

lemma runs_end: "store_ok (runDocStore idle evs) \<and> ended_ok (runDocStore idle evs)"
  by (rule runDocStore_induct [where P = "\<lambda>s. store_ok s \<and> ended_ok s"])
    (simp_all add: emptyDocStore_ok docStep_ok docStep_ended, simp add: emptyDocStore_def ended_ok_def)

section \<open>Properties\<close>

text \<open>
  The document store over every sequence of events: an open document has one open context; a
  connection that has not been released has its context open and registered, unless the store is
  closing; a context's count is the number of its connections; and an open context without
  connections has its timer running or a caller about to use it, so that it is not kept forever.
\<close>
theorem doc_store_invariant:
  assumes "s = runDocStore idle evs"
  shows "(\<forall>c c'. c < length (ds_contexts s) \<and> c' < length (ds_contexts s) \<and> \<not> dc_closed (ds_contexts s ! c) \<and> \<not> dc_closed (ds_contexts s ! c')
      \<and> dc_docId (ds_contexts s ! c) = dc_docId (ds_contexts s ! c') \<longrightarrow> c = c')
    \<and> (\<forall>h < length (ds_handles s). \<not> hd_released (ds_handles s ! h) \<and> \<not> ds_closing s \<longrightarrow>
      (let c = hd_ctx (ds_handles s ! h) in \<not> dc_closed (ds_contexts s ! c) \<and> js_get (ds_docs s) (dc_docId (ds_contexts s ! c)) = Some c))
    \<and> (\<forall>c < length (ds_contexts s). \<not> dc_closed (ds_contexts s ! c) \<longrightarrow>
      dc_connections (ds_contexts s ! c) = length (filter (\<lambda>h. hd_ctx h = c \<and> \<not> hd_released h) (ds_handles s))
      \<and> (dc_connections (ds_contexts s ! c) = 0 \<and> \<not> ds_closing s \<longrightarrow> dc_timer (ds_contexts s ! c) \<or> awaited s c))"
proof -
  have ok: "store_ok s" "waits_ok s" by (simp_all add: assms runs_ok runs_wait)
  have reg: "js_get (ds_docs s) d = Some c \<longleftrightarrow> is_ctx s c \<and> \<not> dc_closed (ctxs s c) \<and> dc_docId (ctxs s c) = d" for d c
    using store_okD(1) [OF ok(1)] by (simp add: docs_ok_def)
  have "c = c'" if "is_ctx s c \<and> is_ctx s c' \<and> \<not> dc_closed (ctxs s c) \<and> \<not> dc_closed (ctxs s c') \<and> dc_docId (ctxs s c) = dc_docId (ctxs s c')" for c c'
    using that reg [of "dc_docId (ctxs s c)" c] reg [of "dc_docId (ctxs s c)" c'] by simp
  moreover have "let c = hd_ctx (ds_handles s ! h) in \<not> dc_closed (ctxs s c) \<and> js_get (ds_docs s) (dc_docId (ctxs s c)) = Some c"
    if "h < length (ds_handles s)" "\<not> hd_released (ds_handles s ! h) \<and> \<not> ds_closing s" for h
    using store_okD(3) [OF ok(1)] that by (auto simp: handles_ok_def reg Let_def)
  moreover have "dc_connections (ctxs s c) = length (filter (\<lambda>h. hd_ctx h = c \<and> \<not> hd_released h) (ds_handles s))
      \<and> (dc_connections (ctxs s c) = 0 \<and> \<not> ds_closing s \<longrightarrow> dc_timer (ctxs s c) \<or> awaited s c)"
    if "is_ctx s c" "\<not> dc_closed (ctxs s c)" for c
    using store_okD(2) [OF ok(1)] ok(2) that by (simp add: counts_ok_def live_def waits_ok_def idle_ok_def) blast
  ultimately show ?thesis by blast
qed

text \<open>
  C26: the document store closes every backend it opened: over every sequence of events no backend
  is closed twice or closed without having been opened, and once closing the store has finished
  and no opening is under way, every opened backend has been closed and no context is open.
\<close>
theorem doc_store_closes_backends:
  assumes "s = runDocStore idle evs"
  shows "distinct (ds_closedBackends s) \<and> set (ds_closedBackends s) \<subseteq> {..<ds_opened s}
    \<and> (ds_closedAll s \<and> list_all opening_settled (ds_openings s) \<longrightarrow>
      set (ds_closedBackends s) = {..<ds_opened s} \<and> list_all dc_closed (ds_contexts s))"
proof -
  have b: "backends s = mset [0..<ds_opened s]" and e: "ended_ok s"
    using runs_account [of idle evs] runs_end [of idle evs] unfolding backends_ok_def assms by blast+
  have sub: "mset (ds_closedBackends s) \<subseteq># mset [0..<ds_opened s]" unfolding b [symmetric] backends_def by (simp add: add.assoc)
  have "distinct (ds_closedBackends s)"
    using sub distinct_upt [of 0 "ds_opened s"] by (metis mset_subset_eq_exists_conv distinct_append mset_append ex_mset mset_eq_imp_distinct_iff)
  moreover from set_mset_mono [OF sub] have "set (ds_closedBackends s) \<subseteq> {..<ds_opened s}" by auto
  moreover have "set (ds_closedBackends s) = {..<ds_opened s} \<and> list_all dc_closed (ds_contexts s)"
    if "ds_closedAll s" "list_all opening_settled (ds_openings s)"
  proof -
    have c: "list_all dc_closed (ds_contexts s)" using e that(1) by (simp add: ended_ok_def list_all_length)
    have nil: "concat (map openBackend (ds_contexts s)) = []" using c by (auto simp: openBackend_def list_all_iff)
    have nil': "concat (map heldBackend (ds_openings s)) = []" using that(2)
      by (auto simp: heldBackend_def opening_settled_iff list_all_iff split: OpeningState.splits)
    have "mset (ds_closedBackends s) = mset [0..<ds_opened s]" using b unfolding backends_def nil nil' by simp
    then have "set (ds_closedBackends s) = set [0..<ds_opened s]" by (rule mset_eq_setD)
    with c show ?thesis by auto
  qed
  ultimately show ?thesis by blast
qed

text \<open>Two connections share a document while a third opening races with the closing of the store.\<close>

definition demo_events :: "nat DocEvent list" where
  "demo_events = [OpenCalled ''a'', OpenCalled ''a'', BackendOpened 0 True, PeerOptionsReady 0 True, OpeningSettled 0, OpeningSettled 1,
     OpenResumed 1, OpenResumed 0, PeerAdded 0 7, PeerAdded 1 8, ApplyCalled 0 [1, 2], ApplySettled 0 True, BroadcastSettled 0 0, Released 0,
     Released 1, TimerFired 0, OpenCalled ''b'', BackendOpened 1 True]"

theorem doc_store_invariant_witness:
  "dc_connections (ds_contexts (runDocStore 30000 (take 13 demo_events)) ! 0) = 2
   \<and> ds_notified (runDocStore 30000 (take 13 demo_events)) = [([7, 8], [1, 2])]
   \<and> js_get (ds_docs (runDocStore 30000 (take 13 demo_events))) ''a'' = Some 0
   \<and> (dc_timer (ds_contexts (runDocStore 30000 (take 15 demo_events)) ! 0) \<or> awaited (runDocStore 30000 (take 15 demo_events)) 0)"
proof -
  let ?s = "runDocStore 30000 (take 13 demo_events)" and ?t = "runDocStore 30000 (take 15 demo_events)"
  have s: "length (ds_contexts ?s) = 1" "\<not> dc_closed (ds_contexts ?s ! 0)" "dc_docId (ds_contexts ?s ! 0) = ''a''" "\<not> ds_closing ?s"
    "dc_connections (ds_contexts ?s ! 0) = 2" "ds_notified ?s = [([7, 8], [1, 2])]"
    "length (ds_handles ?s) = 2" "hd_ctx (ds_handles ?s ! 0) = 0" "\<not> hd_released (ds_handles ?s ! 0)" by code_simp+
  have t: "length (ds_contexts ?t) = 1" "\<not> dc_closed (ds_contexts ?t ! 0)" "\<not> ds_closing ?t" "dc_connections (ds_contexts ?t ! 0) = 0" by code_simp+
  from doc_store_invariant [of ?s, OF refl, THEN conjunct2, THEN conjunct1, rule_format, of 0] s
  have "js_get (ds_docs ?s) ''a'' = Some 0" by (simp add: Let_def)
  moreover from doc_store_invariant [of ?t, OF refl] t have "dc_timer (ds_contexts ?t ! 0) \<or> awaited ?t 0" by simp
  ultimately show ?thesis using s(5,6) by blast
qed

theorem doc_store_closes_backends_witness:
  "set (ds_closedBackends (runDocStore 30000 (demo_events @ [CloseAllCalled, PeerOptionsReady 1 True, CloseAllSettled]))) = {..<2}
   \<and> distinct (ds_closedBackends (runDocStore 30000 (demo_events @ [CloseAllCalled, PeerOptionsReady 1 True, CloseAllSettled])))"
proof -
  let ?s = "runDocStore 30000 (demo_events @ [CloseAllCalled, PeerOptionsReady 1 True, CloseAllSettled])"
  have "ds_closedAll ?s" "ds_opened ?s = 2" by code_simp+
  moreover have "map og_state (ds_openings ?s) = [OpenedAs 0, OpeningFailed]" by code_simp
  then have "list_all opening_settled (ds_openings ?s)" by (auto simp: opening_settled_iff list_all_iff map_eq_Cons_conv)
  ultimately show ?thesis using doc_store_closes_backends [of ?s, OF refl] by simp
qed

end
