(* ===== verification/Sync_Server.thy ===== *)
theory Sync_Server
  imports Sync_Types Peer_State "HOL-Library.Multiset"
begin

text \<open>
  The connections of the WebSocket server, \<^verbatim>\<open>packages/sync/server/core/src/server.ts\<close>: the peers
  registered per document, what happens when a connection's document opens, and its cleanup, in
  any order of opening, closing and failing.  A connection and its peer share an index.  What the
  server calls on the document's handle, the transport and the socket is a log of effects.
\<close>

section \<open>State\<close>

datatype ConnPhase = ConnOpening | ConnFailed | ConnDropped | ConnNoPeer | ConnServing bool

record Conn =
  cn_docId :: string
  cn_phase :: ConnPhase
  cn_cleaned :: bool

datatype 'op ServerEffect = DocReleased nat | Detached nat | PeerAnnounced nat | PeerWithdrawn nat | SocketClosed nat
  | PeersNotified nat "nat list" "'op list"

record 'op ServerState =
  sv_conns :: "Conn list"
  sv_peersByDocId :: "(string, nat list) jsmap"
  sv_log :: "'op ServerEffect list"

definition initServer :: "'op ServerState" where
  "initServer = \<lparr>sv_conns = [], sv_peersByDocId = [], sv_log = []\<rparr>"

definition effect :: "'op ServerEffect \<Rightarrow> 'op ServerState \<Rightarrow> 'op ServerState" where
  "effect e s = s\<lparr>sv_log := sv_log s @ [e]\<rparr>"

definition updConn :: "nat \<Rightarrow> (Conn \<Rightarrow> Conn) \<Rightarrow> 'op ServerState \<Rightarrow> 'op ServerState" where
  "updConn k f s = s\<lparr>sv_conns := (sv_conns s)[k := f (sv_conns s ! k)]\<rparr>"

section \<open>The registry\<close>

definition addDocPeer :: "string \<Rightarrow> nat \<Rightarrow> (string, nat list) jsmap \<Rightarrow> (string, nat list) jsmap" where
  "addDocPeer docId peer m = (case js_get m docId of
       Some existing \<Rightarrow> js_set docId (if peer \<in> set existing then existing else existing @ [peer]) m
     | None \<Rightarrow> js_set docId [peer] m)"

definition removeDocPeer :: "string \<Rightarrow> nat \<Rightarrow> (string, nat list) jsmap \<Rightarrow> (string, nat list) jsmap" where
  "removeDocPeer docId peer m = (case js_get m docId of
       None \<Rightarrow> m
     | Some existing \<Rightarrow> let rest = filter (\<lambda>p. p \<noteq> peer) existing in
         if rest = [] then js_delete docId m else js_set docId rest m)"

definition otherDocPeers :: "string \<Rightarrow> nat \<Rightarrow> (string, nat list) jsmap \<Rightarrow> nat list" where
  "otherDocPeers docId source m = (case js_get m docId of None \<Rightarrow> [] | Some peers \<Rightarrow> filter (\<lambda>p. p \<noteq> source) peers)"

definition notifyOtherDocPeers :: "nat \<Rightarrow> 'op list \<Rightarrow> 'op ServerState \<Rightarrow> 'op ServerState" where
  "notifyOtherDocPeers k ops s = (let targets = otherDocPeers (cn_docId (sv_conns s ! k)) k (sv_peersByDocId s) in
     if targets = [] then s else effect (PeersNotified k targets ops) s)"

section \<open>A connection\<close>

text \<open>Whether the variables \<^verbatim>\<open>doc\<close>, \<^verbatim>\<open>peer\<close> and \<^verbatim>\<open>detach\<close> of the connection are set.\<close>

fun has_doc :: "ConnPhase \<Rightarrow> bool" where
  "has_doc ConnNoPeer = True" | "has_doc (ConnServing _) = True" | "has_doc _ = False"

fun has_peer :: "ConnPhase \<Rightarrow> bool" where
  "has_peer (ConnServing _) = True" | "has_peer _ = False"

definition cleanup :: "nat \<Rightarrow> 'op ServerState \<Rightarrow> 'op ServerState" where
  "cleanup k s = (let c = sv_conns s ! k in
     if cn_cleaned c then s
     else let s1 = updConn k (\<lambda>c. c\<lparr>cn_cleaned := True\<rparr>) s;
              s2 = (if cn_phase c = ConnServing True then effect (Detached k) s1 else s1);
              s3 = (if has_peer (cn_phase c) then effect (PeerWithdrawn k)
                 (s2\<lparr>sv_peersByDocId := removeDocPeer (cn_docId c) k (sv_peersByDocId s2)\<rparr>) else s2) in
       if has_doc (cn_phase c) then effect (DocReleased k) s3 else s3)"

text \<open>
  How \<^verbatim>\<open>docs.open\<close> settles and how far the code after it comes: the document fails to open, the
  peer's constructor throws, attaching it throws, or all of it runs.
\<close>

datatype OpenOutcome = OpenFails | PeerFails | AttachFails | PeerServes

definition docOpened :: "nat \<Rightarrow> OpenOutcome \<Rightarrow> bool \<Rightarrow> 'op ServerState \<Rightarrow> 'op ServerState" where
  "docOpened k outcome socketOpen s = (let c = sv_conns s ! k; phase = (\<lambda>p. updConn k (\<lambda>c. c\<lparr>cn_phase := p\<rparr>)) in
     if cn_phase c \<noteq> ConnOpening then s
     else if outcome = OpenFails
     then (if \<not> cn_cleaned c \<and> socketOpen then effect (SocketClosed k) (phase ConnFailed s) else phase ConnFailed s)
     else if cn_cleaned c then effect (DocReleased k) (phase ConnDropped s)
     else if outcome = PeerFails then phase ConnNoPeer s
     else let s1 = (phase (ConnServing (outcome = PeerServes)) s)\<lparr>sv_peersByDocId := addDocPeer (cn_docId c) k (sv_peersByDocId s)\<rparr> in
       if outcome = PeerServes then effect (PeerAnnounced k) s1 else s1)"

definition connected :: "string \<Rightarrow> 'op ServerState \<Rightarrow> 'op ServerState" where
  "connected docId s = (let s1 = s\<lparr>sv_conns := sv_conns s @ [\<lparr>cn_docId = docId,
       cn_phase = (if docId = [] then ConnFailed else ConnOpening), cn_cleaned = (docId = [])\<rparr>]\<rparr> in
     if docId = [] then effect (SocketClosed (length (sv_conns s))) s1 else s1)"

definition handlerFailed :: "nat \<Rightarrow> bool \<Rightarrow> 'op ServerState \<Rightarrow> 'op ServerState" where
  "handlerFailed k socketOpen s = (if cn_phase (sv_conns s ! k) = ConnServing True \<and> socketOpen then effect (SocketClosed k) s else s)"

text \<open>After the document's backend has applied what a peer received.\<close>

definition peerApplied :: "nat \<Rightarrow> 'op list \<Rightarrow> 'op ServerState \<Rightarrow> 'op ServerState" where
  "peerApplied k ops s = (if \<not> has_peer (cn_phase (sv_conns s ! k)) \<or> ops = [] then s else notifyOtherDocPeers k ops s)"

text \<open>The backend a peer of the server gets: the document's, with the others notified after an apply.\<close>

definition serverBackend :: "(('op list) \<Rightarrow> ('w, unit) pm) \<Rightarrow> ('op, 'w) SyncBackend \<Rightarrow> ('op, 'w) SyncBackend" where
  "serverBackend notify docBackend = \<lparr>sb_docId = sb_docId docBackend, sb_maxLamport = sb_maxLamport docBackend,
     sb_listOpRefs = sb_listOpRefs docBackend, sb_getOpsByOpRefs = sb_getOpsByOpRefs docBackend,
     sb_applyOps = (\<lambda>ops. sq (sb_applyOps docBackend ops) (if ops = [] then ret () else notify ops)),
     sb_storePendingOps = sb_storePendingOps docBackend, sb_listPendingOps = sb_listPendingOps docBackend,
     sb_deletePendingOps = sb_deletePendingOps docBackend\<rparr>"

section \<open>Runs\<close>

datatype 'op ServerEvent = Connected string | DocOpenSettled nat OpenOutcome bool | SocketGone nat | HandlerFailed nat bool
  | PeerApplied nat "'op list"

fun serverStep :: "'op ServerEvent \<Rightarrow> 'op ServerState \<Rightarrow> 'op ServerState" where
  "serverStep (Connected docId) s = connected docId s"
| "serverStep (DocOpenSettled k outcome socketOpen) s = (if k < length (sv_conns s) then docOpened k outcome socketOpen s else s)"
| "serverStep (SocketGone k) s = (if k < length (sv_conns s) then cleanup k s else s)"
| "serverStep (HandlerFailed k socketOpen) s = (if k < length (sv_conns s) then handlerFailed k socketOpen s else s)"
| "serverStep (PeerApplied k ops) s = (if k < length (sv_conns s) then peerApplied k ops s else s)"

definition runServer :: "'op ServerEvent list \<Rightarrow> 'op ServerState" where
  "runServer evs = fold serverStep evs initServer"

section \<open>What every run keeps\<close>

definition serving :: "'op ServerState \<Rightarrow> string \<Rightarrow> nat \<Rightarrow> bool" where
  "serving s d k \<longleftrightarrow> k < length (sv_conns s) \<and> has_peer (cn_phase (sv_conns s ! k)) \<and> \<not> cn_cleaned (sv_conns s ! k) \<and> cn_docId (sv_conns s ! k) = d"

definition peersOf :: "(string, nat list) jsmap \<Rightarrow> string \<Rightarrow> nat list" where
  "peersOf m d = (case js_get m d of None \<Rightarrow> [] | Some ps \<Rightarrow> ps)"

definition registry_ok :: "'op ServerState \<Rightarrow> bool" where
  "registry_ok s \<longleftrightarrow> (\<forall>d. js_get (sv_peersByDocId s) d \<noteq> Some [] \<and> distinct (peersOf (sv_peersByDocId s) d)
     \<and> (\<forall>k. k \<in> set (peersOf (sv_peersByDocId s) d) \<longleftrightarrow> serving s d k))"

text \<open>What a connection owes the handle of its document: one release once it is over.\<close>

definition owed :: "Conn \<Rightarrow> nat" where
  "owed c = (if cn_cleaned c \<and> (has_doc (cn_phase c) \<or> cn_phase c = ConnDropped) then 1 else 0)"

definition releases_ok :: "'op ServerState \<Rightarrow> bool" where
  "releases_ok s \<longleftrightarrow> (\<forall>k. count (mset (sv_log s)) (DocReleased k) = (if k < length (sv_conns s) then owed (sv_conns s ! k) else 0))
     \<and> (\<forall>k < length (sv_conns s). cn_phase (sv_conns s ! k) = ConnDropped \<longrightarrow> cn_cleaned (sv_conns s ! k))"

lemma peersOf_add: "peersOf (addDocPeer d k m) e = (if e = d \<and> k \<notin> set (peersOf m d) then peersOf m d @ [k] else peersOf m e)"
  by (auto simp: peersOf_def addDocPeer_def split: option.splits)

lemma peersOf_remove: "peersOf (removeDocPeer d k m) e = (if e = d then filter (\<lambda>p. p \<noteq> k) (peersOf m d) else peersOf m e)"
  by (auto simp: peersOf_def removeDocPeer_def Let_def split: option.splits)

lemma registry_no_empty:
  assumes "\<And>e. js_get m e \<noteq> Some []"
  shows "js_get (addDocPeer d k m) e \<noteq> Some []" "js_get (removeDocPeer d k m) e \<noteq> Some []"
  using assms by (auto simp: addDocPeer_def removeDocPeer_def Let_def split: option.splits)

lemma effect_simps [simp]:
  "sv_conns (effect e s) = sv_conns s" "sv_peersByDocId (effect e s) = sv_peersByDocId s" "sv_log (effect e s) = sv_log s @ [e]"
  "registry_ok (effect e s) = registry_ok s"
  by (simp_all add: effect_def registry_ok_def serving_def)

lemma updConn_simps [simp]:
  "sv_peersByDocId (updConn k f s) = sv_peersByDocId s" "sv_log (updConn k f s) = sv_log s"
  "length (sv_conns (updConn k f s)) = length (sv_conns s)"
  "k < length (sv_conns s) \<Longrightarrow> sv_conns (updConn k f s) ! j = (if j = k then f (sv_conns s ! k) else sv_conns s ! j)"
  by (simp_all add: updConn_def nth_list_update)

lemma registry_cong:
  "sv_conns s = sv_conns t \<Longrightarrow> sv_peersByDocId s = sv_peersByDocId t \<Longrightarrow> registry_ok s \<longleftrightarrow> registry_ok t"
  by (simp add: registry_ok_def serving_def)

lemma registry_upd:
  assumes "registry_ok s" "k < length (sv_conns s)" "cn_docId (f (sv_conns s ! k)) = cn_docId (sv_conns s ! k)"
    and "\<And>d. peersOf m d = (if d = cn_docId (sv_conns s ! k) then
      (if has_peer (cn_phase (f (sv_conns s ! k))) \<and> \<not> cn_cleaned (f (sv_conns s ! k))
       then if k \<in> set (peersOf (sv_peersByDocId s) d) then peersOf (sv_peersByDocId s) d else peersOf (sv_peersByDocId s) d @ [k]
       else filter (\<lambda>p. p \<noteq> k) (peersOf (sv_peersByDocId s) d)) else peersOf (sv_peersByDocId s) d)"
    and "\<And>d. js_get m d \<noteq> Some []"
  shows "registry_ok ((updConn k f s)\<lparr>sv_peersByDocId := m\<rparr>)"
proof -
  let ?s = "(updConn k f s)\<lparr>sv_peersByDocId := m\<rparr>"
  have old: "distinct (peersOf (sv_peersByDocId s) d)" "j \<in> set (peersOf (sv_peersByDocId s) d) \<longleftrightarrow> serving s d j" for d j
    using assms(1) by (simp_all add: registry_ok_def)
  have g: "sv_conns ?s ! j = (if j = k then f (sv_conns s ! k) else sv_conns s ! j)" "length (sv_conns ?s) = length (sv_conns s)" for j
    using assms(2) by (simp_all add: updConn_def nth_list_update)
  have new: "serving ?s d j \<longleftrightarrow> (if j = k then d = cn_docId (sv_conns s ! k) \<and> has_peer (cn_phase (f (sv_conns s ! k))) \<and> \<not> cn_cleaned (f (sv_conns s ! k))
      else serving s d j)" for d j
    using assms(2,3) unfolding serving_def g by auto
  have "distinct (peersOf m d)" for d using old(1) [of d] by (auto simp: assms(4))
  moreover have "j \<in> set (peersOf m d) \<longleftrightarrow> serving ?s d j" for d j
    unfolding new assms(4) using old(2) [of _ d] by (auto simp: serving_def)
  ultimately show ?thesis using assms(5) by (simp add: registry_ok_def)
qed

lemma cleanup_ok:
  assumes "registry_ok s" "releases_ok s" "k < length (sv_conns s)" "\<not> cn_cleaned (sv_conns s ! k)"
  shows "registry_ok (cleanup k s)" "releases_ok (cleanup k s)"
proof -
  let ?c = "sv_conns s ! k"
  let ?m = "if has_peer (cn_phase ?c) then removeDocPeer (cn_docId ?c) k (sv_peersByDocId s) else sv_peersByDocId s"
  let ?s = "(updConn k (\<lambda>c. c\<lparr>cn_cleaned := True\<rparr>) s)\<lparr>sv_peersByDocId := ?m\<rparr>"
  have views: "sv_conns (cleanup k s) = sv_conns ?s" "sv_peersByDocId (cleanup k s) = ?m"
    "\<exists>es. sv_log (cleanup k s) = sv_log s @ es \<and> (\<forall>j. count (mset es) (DocReleased j) = (if j = k \<and> has_doc (cn_phase ?c) then 1 else 0))"
    using assms(4) by (simp_all add: cleanup_def Let_def updConn_def)
  have none: "k \<notin> set (peersOf (sv_peersByDocId s) d)" if "\<not> has_peer (cn_phase ?c)" for d
    using assms(1) that by (auto simp: registry_ok_def serving_def)
  have "registry_ok ?s"
    using assms(1) none by (intro registry_upd [OF assms(1,3)]) (auto simp: peersOf_remove registry_ok_def registry_no_empty intro!: filter_True [symmetric])
  then show "registry_ok (cleanup k s)" using registry_cong [of _ ?s] views(1,2) by simp
  from views(3) obtain es where es: "sv_log (cleanup k s) = sv_log s @ es"
    "\<And>j. count (mset es) (DocReleased j) = (if j = k \<and> has_doc (cn_phase ?c) then 1 else 0)" by blast
  have conns: "sv_conns (cleanup k s) ! j = (if j = k then ?c\<lparr>cn_cleaned := True\<rparr> else sv_conns s ! j)" "length (sv_conns (cleanup k s)) = length (sv_conns s)" for j
    using assms(3) by (simp_all add: views(1) updConn_def nth_list_update)
  have "cn_phase ?c \<noteq> ConnDropped" using assms(2-4) by (auto simp: releases_ok_def)
  then show "releases_ok (cleanup k s)" using assms(2-4) unfolding releases_ok_def es(1) conns
    by (auto simp: es(2) owed_def)
qed

lemma docOpened_ok:
  assumes "registry_ok s" "releases_ok s" "k < length (sv_conns s)" "cn_phase (sv_conns s ! k) = ConnOpening"
  shows "registry_ok (docOpened k outcome op s)" "releases_ok (docOpened k outcome op s)"
proof -
  let ?c = "sv_conns s ! k" and ?s' = "docOpened k outcome op s"
  define p where "p = (if outcome = OpenFails then ConnFailed else if cn_cleaned ?c then ConnDropped
      else if outcome = PeerFails then ConnNoPeer else ConnServing (outcome = PeerServes))"
  define m where "m = (if has_peer p then addDocPeer (cn_docId ?c) k (sv_peersByDocId s) else sv_peersByDocId s)"
  let ?s = "(updConn k (\<lambda>c. c\<lparr>cn_phase := p\<rparr>) s)\<lparr>sv_peersByDocId := m\<rparr>"
  have views: "sv_conns ?s' = sv_conns ?s" "sv_peersByDocId ?s' = m"
    "\<exists>es. sv_log ?s' = sv_log s @ es \<and> (\<forall>j. count (mset es) (DocReleased j) = (if j = k \<and> p = ConnDropped then 1 else 0))"
    using assms(4) by (cases outcome; auto simp: docOpened_def Let_def updConn_def p_def m_def)+
  have open_live: "\<not> cn_cleaned ?c" if "has_peer p" using that by (auto simp: p_def split: if_splits)
  have none: "k \<notin> set (peersOf (sv_peersByDocId s) d)" for d
    using assms(1,4) by (auto simp: registry_ok_def serving_def)
  have m: "peersOf m d = (if d = cn_docId ?c \<and> has_peer p then peersOf (sv_peersByDocId s) d @ [k] else peersOf (sv_peersByDocId s) d)" for d
    by (simp add: m_def peersOf_add none)
  have filt: "filter (\<lambda>q. q \<noteq> k) (peersOf (sv_peersByDocId s) d) = peersOf (sv_peersByDocId s) d" for d
    using none [of d] by (metis (mono_tags, lifting) filter_True)
  have "js_get (sv_peersByDocId s) d \<noteq> Some []" for d using assms(1) by (simp add: registry_ok_def)
  then have full: "js_get m d \<noteq> Some []" for d by (simp add: m_def registry_no_empty)
  have "registry_ok ?s"
  proof (rule registry_upd [where f = "\<lambda>c. c\<lparr>cn_phase := p\<rparr>" and m = m, OF assms(1,3) _ _ full])
    show "cn_docId (?c\<lparr>cn_phase := p\<rparr>) = cn_docId ?c" by simp
    show "peersOf m d = (if d = cn_docId ?c then
      if has_peer (cn_phase (?c\<lparr>cn_phase := p\<rparr>)) \<and> \<not> cn_cleaned (?c\<lparr>cn_phase := p\<rparr>)
      then if k \<in> set (peersOf (sv_peersByDocId s) d) then peersOf (sv_peersByDocId s) d else peersOf (sv_peersByDocId s) d @ [k]
      else filter (\<lambda>q. q \<noteq> k) (peersOf (sv_peersByDocId s) d) else peersOf (sv_peersByDocId s) d)" for d
      using open_live by (simp add: m filt none)
  qed
  then show "registry_ok ?s'" using registry_cong [of _ ?s] views(1,2) by simp
  from views(3) obtain es where es: "sv_log ?s' = sv_log s @ es"
    "\<And>j. count (mset es) (DocReleased j) = (if j = k \<and> p = ConnDropped then 1 else 0)" by blast
  have conns: "sv_conns ?s' ! j = (if j = k then ?c\<lparr>cn_phase := p\<rparr> else sv_conns s ! j)" "length (sv_conns ?s') = length (sv_conns s)" for j
    using assms(3) by (simp_all add: views(1) updConn_def nth_list_update)
  have p: "p = ConnDropped \<longrightarrow> cn_cleaned ?c" "has_doc p \<longrightarrow> \<not> cn_cleaned ?c" by (auto simp: p_def)
  then have owed: "owed (?c\<lparr>cn_phase := p\<rparr>) = (if p = ConnDropped then 1 else 0)" "owed ?c = 0"
    using assms(4) by (auto simp: owed_def)
  have old: "count (mset (sv_log s)) (DocReleased j) = (if j < length (sv_conns s) then owed (sv_conns s ! j) else 0)"
    "j < length (sv_conns s) \<Longrightarrow> cn_phase (sv_conns s ! j) = ConnDropped \<Longrightarrow> cn_cleaned (sv_conns s ! j)" for j
    using assms(2) by (simp_all add: releases_ok_def)
  have "count (mset (sv_log ?s')) (DocReleased j) = (if j < length (sv_conns ?s') then owed (sv_conns ?s' ! j) else 0)" for j
    using assms(3) by (cases "j = k") (simp_all add: es old(1) conns owed)
  moreover have "cn_cleaned (sv_conns ?s' ! j)" if "j < length (sv_conns ?s')" "cn_phase (sv_conns ?s' ! j) = ConnDropped" for j
    using that p(1) old(2) [of j] by (cases "j = k") (simp_all add: conns)
  ultimately show "releases_ok ?s'" by (simp add: releases_ok_def)
qed

lemma serverStep_ok:
  assumes "registry_ok s" "releases_ok s"
  shows "registry_ok (serverStep e s) \<and> releases_ok (serverStep e s)"
proof (cases e)
  case (Connected d)
  have "serving (connected d s) e k = serving s e k" for e k
    by (auto simp: serving_def connected_def Let_def nth_append less_Suc_eq)
  with assms Connected show ?thesis
    by (auto simp: registry_ok_def releases_ok_def connected_def Let_def owed_def nth_append less_Suc_eq)
next
  case (SocketGone k)
  then have step: "serverStep e s = (if k < length (sv_conns s) then cleanup k s else s)" by simp
  show ?thesis
  proof (cases "k < length (sv_conns s) \<and> \<not> cn_cleaned (sv_conns s ! k)")
    case True
    with cleanup_ok [OF assms] show ?thesis by (simp add: step)
  next
    case False
    then have "serverStep e s = s" by (auto simp: step cleanup_def)
    with assms show ?thesis by simp
  qed
next
  case (DocOpenSettled k outcome op)
  with assms docOpened_ok [OF assms] show ?thesis by (cases "cn_phase (sv_conns s ! k) = ConnOpening") (auto simp: docOpened_def)
qed (use assms in \<open>auto simp: handlerFailed_def peerApplied_def notifyOtherDocPeers_def Let_def releases_ok_def\<close>)

lemma runs_server_ok: "registry_ok (runServer evs) \<and> releases_ok (runServer evs)"
proof -
  have "registry_ok s \<and> releases_ok s \<Longrightarrow> registry_ok (fold serverStep evs s) \<and> releases_ok (fold serverStep evs s)" for s :: "'a ServerState"
    by (induction evs arbitrary: s) (simp_all add: serverStep_ok)
  moreover have "registry_ok (initServer :: 'a ServerState) \<and> releases_ok (initServer :: 'a ServerState)"
    by (simp add: initServer_def registry_ok_def releases_ok_def serving_def peersOf_def)
  ultimately show ?thesis unfolding runServer_def by blast
qed

section \<open>Properties\<close>

text \<open>
  C27: over every sequence of events a connection releases the handle of its document once: never
  before it is over, and exactly once when it is over and its document has opened, whichever came
  first.  The peers registered for a document are exactly those of its connections that serve and
  are not over, and when a peer has applied ops, each of the others is notified of them once.
\<close>
theorem server_releases_once:
  assumes "s = runServer evs" and "k < length (sv_conns s)"
  shows "count (mset (sv_log s)) (DocReleased k)
      = (if cn_cleaned (sv_conns s ! k) \<and> (has_doc (cn_phase (sv_conns s ! k)) \<or> cn_phase (sv_conns s ! k) = ConnDropped) then 1 else 0)
    \<and> (\<forall>d. js_get (sv_peersByDocId s) d = (if {j. serving s d j} = {} then None else Some (peersOf (sv_peersByDocId s) d))
      \<and> set (peersOf (sv_peersByDocId s) d) = {j. serving s d j})
    \<and> (has_peer (cn_phase (sv_conns s ! k)) \<and> ops \<noteq> [] \<longrightarrow> (\<exists>targets. distinct targets
      \<and> set targets = {j. serving s (cn_docId (sv_conns s ! k)) j} - {k}
      \<and> sv_log (serverStep (PeerApplied k ops) s) = sv_log s @ (if targets = [] then [] else [PeersNotified k targets ops])))"
proof -
  have reg: "registry_ok s" and rel: "releases_ok s" using runs_server_ok [of evs] by (simp_all add: assms(1))
  have ps: "distinct (peersOf (sv_peersByDocId s) d)" "set (peersOf (sv_peersByDocId s) d) = {j. serving s d j}" "js_get (sv_peersByDocId s) d \<noteq> Some []" for d
    using reg by (auto simp: registry_ok_def)
  have "js_get (sv_peersByDocId s) d = (if {j. serving s d j} = {} then None else Some (peersOf (sv_peersByDocId s) d))" for d
    unfolding ps(2) [symmetric] using ps(3) [of d] by (auto simp: peersOf_def split: option.splits)
  moreover have "\<exists>targets. distinct targets \<and> set targets = {j. serving s (cn_docId (sv_conns s ! k)) j} - {k}
      \<and> sv_log (serverStep (PeerApplied k ops) s) = sv_log s @ (if targets = [] then [] else [PeersNotified k targets ops])"
    if "has_peer (cn_phase (sv_conns s ! k)) \<and> ops \<noteq> []"
  proof -
    let ?d = "cn_docId (sv_conns s ! k)"
    have "otherDocPeers ?d k (sv_peersByDocId s) = filter (\<lambda>p. p \<noteq> k) (peersOf (sv_peersByDocId s) ?d)"
      by (simp add: otherDocPeers_def peersOf_def split: option.splits)
    with ps(1,2) [of ?d] that assms(2) show ?thesis
      by (intro exI [of _ "otherDocPeers ?d k (sv_peersByDocId s)"]) (auto simp: peerApplied_def notifyOtherDocPeers_def Let_def)
  qed
  ultimately show ?thesis using rel assms(2) ps(2) by (auto simp: releases_ok_def owed_def)
qed

definition demo_server_events :: "nat ServerEvent list" where
  "demo_server_events = [Connected ''a'', Connected ''a'', Connected ''b'', SocketGone 2, DocOpenSettled 0 PeerServes True,
     DocOpenSettled 2 PeerServes False, DocOpenSettled 1 AttachFails True, SocketGone 2]"

theorem server_releases_once_witness:
  "count (mset (sv_log (runServer demo_server_events))) (DocReleased 2) = 1
   \<and> count (mset (sv_log (runServer demo_server_events))) (DocReleased 0) = 0
   \<and> (\<exists>targets. set targets = {j. serving (runServer demo_server_events) ''a'' j} - {1}
     \<and> sv_log (serverStep (PeerApplied 1 [5]) (runServer demo_server_events))
       = sv_log (runServer demo_server_events) @ (if targets = [] then [] else [PeersNotified 1 targets [5]]))"
proof -
  let ?s = "runServer demo_server_events"
  have s: "length (sv_conns ?s) = 3" "cn_cleaned (sv_conns ?s ! 2)" "cn_phase (sv_conns ?s ! 2) = ConnDropped" "\<not> cn_cleaned (sv_conns ?s ! 0)"
    "has_peer (cn_phase (sv_conns ?s ! 1))" "cn_docId (sv_conns ?s ! 1) = ''a''" by code_simp+
  from server_releases_once [of ?s demo_server_events 2] s have 2: "count (mset (sv_log ?s)) (DocReleased 2) = 1" by simp
  from server_releases_once [of ?s demo_server_events 0] s have 0: "count (mset (sv_log ?s)) (DocReleased 0) = 0" by simp
  from server_releases_once [of ?s demo_server_events 1 "[5]"] s obtain targets where
    "set targets = {j. serving ?s ''a'' j} - {1}"
    "sv_log (serverStep (PeerApplied 1 [5]) ?s) = sv_log ?s @ (if targets = [] then [] else [PeersNotified 1 targets [5]])"
    by auto
  with 2 0 show ?thesis by blast
qed

end
