(* ===== verification/Sqlite_Rows.thy ===== *)
theory Sqlite_Rows
  imports Op_Encoding "HOL-Library.Log_Nat"
begin

text \<open>
  The decoders of \<^verbatim>\<open>packages/treecrdt-ts/src/sqlite.ts\<close>: rows that the SQLite extension or another
  engine hands back as parsed JSON or as native objects, read into operations, op refs, node ids
  and tree rows.  A value of unknown shape is a \<open>js_val\<close>; an absent field is \<open>JUndefined\<close>.
\<close>

section \<open>Conversions of the language\<close>

text \<open>
  \<^verbatim>\<open>Number\<close> of an integer: the nearest double, ties to even.  It is exact up to \<open>2 ^ 53\<close>.
\<close>

definition nearestDouble :: "int \<Rightarrow> int" where
  "nearestDouble n = (let m = nat \<bar>n\<bar> in
     if m \<le> 2 ^ 53 then n
     else let e = floorlog 2 m - 53; q = m div 2 ^ e; r = m mod 2 ^ e; half = 2 ^ (e - 1);
              q' = (if half < r \<or> (half = r \<and> odd q) then q + 1 else q) in
       sgn n * int (q' * 2 ^ e))"

fun asNumber :: "js_int \<Rightarrow> int" where
  "asNumber (JsNumber n) = n"
| "asNumber (JsBigint n) = nearestDouble n"

text \<open>\<^verbatim>\<open>Uint8Array.from\<close>: a string is iterated, each character read as a number (\<^verbatim>\<open>NaN\<close> gives 0).\<close>

definition charNumber :: "char \<Rightarrow> byte" where
  "charNumber c = (if is_dec_char c then of_nat (hex_val c) else 0)"

fun uint8From :: "js_val \<Rightarrow> bytes res" where
  "uint8From (JUint8Array bs) = Inr bs"
| "uint8From (JArray xs) = Inr (uint8array_from xs)"
| "uint8From (JString s) = Inr (map charNumber s)"
| "uint8From (JBigInt _) = Inr []"
| "uint8From (JNumber _) = Inr []"
| "uint8From JNull = Inl ''TypeError: not iterable''"
| "uint8From JUndefined = Inl ''TypeError: not iterable''"

fun absent :: "js_val \<Rightarrow> bool" where
  "absent JNull = True" | "absent JUndefined = True" | "absent _ = False"

fun jsTruthy :: "js_val \<Rightarrow> bool" where
  "jsTruthy JNull = False"
| "jsTruthy JUndefined = False"
| "jsTruthy (JBigInt n) = (n \<noteq> 0)"
| "jsTruthy (JNumber n) = (n \<noteq> 0)"
| "jsTruthy (JString s) = (s \<noteq> [])"
| "jsTruthy _ = True"

section \<open>Rows of operations\<close>

record SqliteOpRow =
  sr_lamport :: js_int
  sr_replica :: js_val
  sr_counter :: js_int
  sr_kind :: string
  sr_parent :: js_val
  sr_node :: js_val
  sr_new_parent :: js_val
  sr_order_key :: js_val
  sr_payload :: js_val
  sr_known_state :: js_val

definition requiredOrderKey :: "string \<Rightarrow> js_val \<Rightarrow> bytes res" where
  "requiredOrderKey kind v = (if absent v then Inl (''missing order_key for '' @ kind @ '' op from sqlite'') else uint8From v)"

definition optionalBytes :: "js_val \<Rightarrow> bytes option res" where
  "optionalBytes v = (if absent v then Inr None else bindR (uint8From v) (\<lambda>bs. Inr (Some bs)))"

definition decodeSqliteKind :: "SqliteOpRow \<Rightarrow> OperationKind res" where
  "decodeSqliteKind row =
    (if sr_kind row = ''insert'' then
       bindR (optionalBytes (sr_payload row)) (\<lambda>payload.
       bindR (requiredOrderKey ''insert'' (sr_order_key row)) (\<lambda>orderKey.
         Inr (OpInsert (decodeNodeId (sr_parent row)) (decodeNodeId (sr_node row)) orderKey payload)))
     else if sr_kind row = ''move'' then
       bindR (requiredOrderKey ''move'' (sr_order_key row)) (\<lambda>orderKey.
         Inr (OpMove (decodeNodeId (sr_node row)) (decodeNodeId (sr_new_parent row)) orderKey))
     else if sr_kind row = ''delete'' then Inr (OpDelete (decodeNodeId (sr_node row)))
     else if sr_kind row = ''tombstone'' then Inr (OpTombstone (decodeNodeId (sr_node row)))
     else if sr_kind row = ''payload'' then
       bindR (optionalBytes (sr_payload row)) (\<lambda>payload. Inr (OpPayload (decodeNodeId (sr_node row)) payload))
     else Inl (''unknown op kind from sqlite: '' @ sr_kind row))"

definition decodeSqliteOp :: "SqliteOpRow \<Rightarrow> Operation res" where
  "decodeSqliteOp row =
     bindR (decodeReplicaId (sr_replica row)) (\<lambda>replica.
     bindR (if jsTruthy (sr_known_state row) then bindR (uint8From (sr_known_state row)) (\<lambda>bs. Inr (Some bs)) else Inr None) (\<lambda>knownState.
     bindR (decodeSqliteKind row) (\<lambda>kind.
       Inr \<lparr>op_meta = \<lparr>om_id = \<lparr>oid_replica = replica, oid_counter = asNumber (sr_counter row)\<rparr>,
         om_lamport = asNumber (sr_lamport row), om_knownState = knownState\<rparr>, op_kind = kind\<rparr>)))"

text \<open>What a query returned: an array, or anything else (\<open>None\<close>).\<close>

definition decodeSqliteOps :: "SqliteOpRow list option \<Rightarrow> Operation list res" where
  "decodeSqliteOps raw = (case raw of None \<Rightarrow> Inr [] | Some rows \<Rightarrow> mapR decodeSqliteOp rows)"

definition decodeSqliteOpRefs :: "js_val list option \<Rightarrow> bytes list res" where
  "decodeSqliteOpRefs raw = (case raw of None \<Rightarrow> Inr [] | Some vals \<Rightarrow> mapR uint8From vals)"

definition decodeSqliteNodeIds :: "js_val list option \<Rightarrow> string list" where
  "decodeSqliteNodeIds raw = (case raw of None \<Rightarrow> [] | Some vals \<Rightarrow> map decodeNodeId vals)"

section \<open>Rows of the tree\<close>

record SqliteTreeChildRow =
  cr_node :: string
  cr_orderKey :: "bytes option"

record RawTreeRow =
  rt_node :: js_val
  rt_parent :: js_val
  rt_order_key :: js_val
  rt_tombstone :: js_val

record SqliteTreeRow =
  tr_node :: string
  tr_parent :: "string option"
  tr_orderKey :: "bytes option"
  tr_tombstone :: bool

definition decodeOrderKey :: "js_val \<Rightarrow> bytes option res" where
  "decodeOrderKey v = (if absent v then Inr None
     else case v of JString s \<Rightarrow> bindR (hexToBytes s) (\<lambda>bs. Inr (Some bs)) | _ \<Rightarrow> bindR (uint8From v) (\<lambda>bs. Inr (Some bs)))"

definition decodeTreeChildRow :: "RawTreeRow \<Rightarrow> SqliteTreeChildRow res" where
  "decodeTreeChildRow row = bindR (decodeOrderKey (rt_order_key row)) (\<lambda>orderKey.
     Inr \<lparr>cr_node = decodeNodeId (rt_node row), cr_orderKey = orderKey\<rparr>)"

definition decodeSqliteTreeChildRows :: "RawTreeRow list option \<Rightarrow> SqliteTreeChildRow list res" where
  "decodeSqliteTreeChildRows raw = (case raw of None \<Rightarrow> Inr [] | Some rows \<Rightarrow> mapR decodeTreeChildRow rows)"

definition decodeTreeRow :: "RawTreeRow \<Rightarrow> SqliteTreeRow res" where
  "decodeTreeRow row = bindR (decodeOrderKey (rt_order_key row)) (\<lambda>orderKey.
     Inr \<lparr>tr_node = decodeNodeId (rt_node row),
       tr_parent = (if jsTruthy (rt_parent row) then Some (decodeNodeId (rt_parent row)) else None),
       tr_orderKey = orderKey, tr_tombstone = jsTruthy (rt_tombstone row)\<rparr>)"

definition decodeSqliteTreeRows :: "RawTreeRow list option \<Rightarrow> SqliteTreeRow list res" where
  "decodeSqliteTreeRows raw = (case raw of None \<Rightarrow> Inr [] | Some rows \<Rightarrow> mapR decodeTreeRow rows)"

section \<open>Lemmas\<close>

lemma nearestDouble_safe:
  assumes "isSafeInteger n" shows "nearestDouble n = n"
proof -
  have "nat \<bar>n\<bar> \<le> 2 ^ 53" using assms by (simp add: isSafeInteger_def MAX_SAFE_INTEGER_def)
  then show ?thesis by (simp add: nearestDouble_def)
qed

lemma decodeNodeId_bytes16: "nodeIdToBytes16 s = Inr bs \<Longrightarrow> normalizeNodeId s = Inr (decodeNodeId (JUint8Array bs))"
  using normalizeNodeId_canonical by (auto simp: nodeIdToBytes16_normalize bindR_eq_Inr canonical_node_id_def bytesToHex_hex_pairs)

lemma optionalBytes_simps [simp]:
  "optionalBytes JNull = Inr None" "optionalBytes JUndefined = Inr None"
  "optionalBytes (JUint8Array bs) = Inr (Some bs)" "optionalBytes (JArray xs) = Inr (Some (uint8array_from xs))"
  by (simp_all add: optionalBytes_def)

lemma requiredOrderKey_simps [simp]:
  "requiredOrderKey k (JUint8Array bs) = Inr bs" "requiredOrderKey k (JArray xs) = Inr (uint8array_from xs)"
  by (simp_all add: requiredOrderKey_def)

end
