(* ===== verification/Native_Codec.thy ===== *)
theory Native_Codec
  imports Sqlite_Rows
begin

text \<open>
  \<^verbatim>\<open>packages/treecrdt-postgres-napi/src/codec.ts\<close>: operations as the native (N-API) Postgres engine
  takes and returns them, and as rows of the SQLite shape.
\<close>

section \<open>Native operations\<close>

record NativeOp =
  no_lamport :: js_int
  no_replica :: bytes
  no_counter :: js_int
  no_kind :: string
  no_parent :: "bytes option"
  no_node :: bytes
  no_newParent :: "bytes option"
  no_orderKey :: "bytes option"
  no_payload :: "bytes option"
  no_knownState :: "bytes option"

definition assertSafeNonNegativeInteger :: "string \<Rightarrow> int \<Rightarrow> unit res" where
  "assertSafeNonNegativeInteger name v =
     guardR (isSafeInteger v \<and> \<not> v < 0) (name @ '' must be a safe non-negative integer'')"

text \<open>A \<open>NativeOp\<close> holds \<^verbatim>\<open>bigint | number\<close>, so the branches for texts and other values are not reached.\<close>

fun parseSafeInteger :: "string \<Rightarrow> js_int \<Rightarrow> int res" where
  "parseSafeInteger name (JsNumber v) = bindR (assertSafeNonNegativeInteger name v) (\<lambda>_. Inr v)"
| "parseSafeInteger name (JsBigint v) = (if v < 0 \<or> MAX_SAFE_INTEGER < v then Inl (name @ '' out of JS safe range'') else Inr v)"

definition requiredField :: "'a option \<Rightarrow> error \<Rightarrow> 'a res" where
  "requiredField v e = (case v of None \<Rightarrow> Inl e | Some x \<Rightarrow> Inr x)"

definition nativeToKind :: "NativeOp \<Rightarrow> string \<Rightarrow> OperationKind res" where
  "nativeToKind row node =
    (if no_kind row = ''insert'' then
       bindR (requiredField (no_parent row) ''native insert op missing parent'') (\<lambda>rowParent.
       bindR (requiredField (no_orderKey row) ''native insert op missing orderKey'') (\<lambda>orderKey.
       bindR (nodeIdFromBytes16 rowParent) (\<lambda>parent. Inr (OpInsert parent node orderKey (no_payload row)))))
     else if no_kind row = ''move'' then
       bindR (requiredField (no_newParent row) ''native move op missing newParent'') (\<lambda>rowParent.
       bindR (requiredField (no_orderKey row) ''native move op missing orderKey'') (\<lambda>orderKey.
       bindR (nodeIdFromBytes16 rowParent) (\<lambda>newParent. Inr (OpMove node newParent orderKey))))
     else if no_kind row = ''delete'' then Inr (OpDelete node)
     else if no_kind row = ''tombstone'' then Inr (OpTombstone node)
     else if no_kind row = ''payload'' then Inr (OpPayload node (no_payload row))
     else Inl (''unknown operation kind in native: '' @ no_kind row))"

definition nativeToOperation :: "NativeOp \<Rightarrow> Operation res" where
  "nativeToOperation row =
     bindR (parseSafeInteger ''lamport'' (no_lamport row)) (\<lambda>lamport.
     bindR (parseSafeInteger ''counter'' (no_counter row)) (\<lambda>counter.
     bindR (decodeReplicaId (JUint8Array (no_replica row))) (\<lambda>replica.
     bindR (nodeIdFromBytes16 (no_node row)) (\<lambda>node.
     bindR (nativeToKind row node) (\<lambda>kind.
       Inr \<lparr>op_meta = \<lparr>om_id = \<lparr>oid_replica = replica, oid_counter = counter\<rparr>, om_lamport = lamport,
         om_knownState = no_knownState row\<rparr>, op_kind = kind\<rparr>)))))"

text \<open>The part of a native operation that all kinds share.\<close>

definition nativeMeta :: "Operation \<Rightarrow> bytes \<Rightarrow> string \<Rightarrow> bytes \<Rightarrow> NativeOp" where
  "nativeMeta oper replicaBytes kind node = \<lparr>no_lamport = JsBigint (om_lamport (op_meta oper)), no_replica = replicaBytes,
     no_counter = JsBigint (oid_counter (om_id (op_meta oper))), no_kind = kind, no_parent = None, no_node = node,
     no_newParent = None, no_orderKey = None, no_payload = None, no_knownState = om_knownState (op_meta oper)\<rparr>"

fun kindToNative :: "(string \<Rightarrow> bytes res) \<Rightarrow> (string \<Rightarrow> bytes \<Rightarrow> NativeOp) \<Rightarrow> OperationKind \<Rightarrow> NativeOp res" where
  "kindToNative ser meta (OpInsert parent node orderKey payload) =
     bindR (ser parent) (\<lambda>p. bindR (ser node) (\<lambda>n.
       Inr ((meta ''insert'' n)\<lparr>no_parent := Some p, no_orderKey := Some orderKey, no_payload := payload\<rparr>)))"
| "kindToNative ser meta (OpMove node newParent orderKey) =
     bindR (ser node) (\<lambda>n. bindR (ser newParent) (\<lambda>p.
       Inr ((meta ''move'' n)\<lparr>no_newParent := Some p, no_orderKey := Some orderKey\<rparr>)))"
| "kindToNative ser meta (OpDelete node) = bindR (ser node) (\<lambda>n. Inr (meta ''delete'' n))"
| "kindToNative ser meta (OpTombstone node) = bindR (ser node) (\<lambda>n. Inr (meta ''tombstone'' n))"
| "kindToNative ser meta (OpPayload node payload) =
     bindR (ser node) (\<lambda>n. Inr ((meta ''payload'' n)\<lparr>no_payload := payload\<rparr>))"

definition operationToNativeWithSerializers :: "(string \<Rightarrow> bytes res) \<Rightarrow> (bytes \<Rightarrow> bytes res) \<Rightarrow> Operation \<Rightarrow> NativeOp res" where
  "operationToNativeWithSerializers serializeNodeId serializeReplica oper =
     bindR (assertSafeNonNegativeInteger ''lamport'' (om_lamport (op_meta oper))) (\<lambda>_.
     bindR (assertSafeNonNegativeInteger ''counter'' (oid_counter (om_id (op_meta oper)))) (\<lambda>_.
     bindR (serializeReplica (oid_replica (om_id (op_meta oper)))) (\<lambda>replicaBytes.
       kindToNative serializeNodeId (nativeMeta oper replicaBytes) (op_kind oper))))"

definition operationToNative :: "Operation \<Rightarrow> NativeOp res" where
  "operationToNative = operationToNativeWithSerializers nodeIdToBytes16 replicaIdToBytes"

fun orNull :: "bytes option \<Rightarrow> js_val" where
  "orNull None = JNull" | "orNull (Some bs) = JUint8Array bs"

definition nativeOpToSqliteRow :: "NativeOp \<Rightarrow> SqliteOpRow" where
  "nativeOpToSqliteRow row = \<lparr>sr_lamport = no_lamport row, sr_replica = JUint8Array (no_replica row), sr_counter = no_counter row,
     sr_kind = no_kind row, sr_parent = orNull (no_parent row), sr_node = JUint8Array (no_node row),
     sr_new_parent = orNull (no_newParent row), sr_order_key = orNull (no_orderKey row), sr_payload = orNull (no_payload row),
     sr_known_state = orNull (no_knownState row)\<rparr>"

section \<open>Lemmas\<close>

text \<open>An operation an engine can store, and the form it comes back in.\<close>

definition storable :: "Operation \<Rightarrow> bool" where
  "storable oper \<longleftrightarrow> 0 \<le> om_lamport (op_meta oper) \<and> om_lamport (op_meta oper) \<le> MAX_SAFE_INTEGER
     \<and> 0 \<le> oid_counter (om_id (op_meta oper)) \<and> oid_counter (om_id (op_meta oper)) \<le> MAX_SAFE_INTEGER
     \<and> length (oid_replica (om_id (op_meta oper))) = 32 \<and> is_ok (normalizeKind (op_kind oper))"

definition storedForm :: "Operation \<Rightarrow> Operation" where
  "storedForm oper = oper\<lparr>op_kind := (case normalizeKind (op_kind oper) of Inr k \<Rightarrow> k | Inl _ \<Rightarrow> op_kind oper)\<rparr>"

lemma nodeIdToBytes16_hex: "nodeIdToBytes16 s = Inr bs \<Longrightarrow> normalizeNodeId s = Inr (bytesToHex bs) \<and> length bs = 16"
  using decodeNodeId_bytes16 [of s bs] nodeIdToBytes16_length [of s bs] by simp

lemma nodeIdToBytes16_ok: "is_ok (nodeIdToBytes16 s) \<longleftrightarrow> is_ok (normalizeNodeId s)"
  by (cases "normalizeNodeId s") (simp_all add: nodeIdToBytes16_normalize)

lemma kindToNative_ok: "is_ok (kindToNative nodeIdToBytes16 meta k) \<longleftrightarrow> is_ok (normalizeKind k)"
  by (cases k) (auto simp: is_ok_iff bindR_eq_Inr nodeIdToBytes16_normalize)

lemma operationToNative_ok: "is_ok (operationToNative oper) \<longleftrightarrow> storable oper"
  using kindToNative_ok [of "nativeMeta oper (oid_replica (om_id (op_meta oper)))" "op_kind oper"]
  by (auto simp: operationToNative_def operationToNativeWithSerializers_def storable_def is_ok_iff bindR_eq_Inr
      assertSafeNonNegativeInteger_def isSafeInteger_def MAX_SAFE_INTEGER_def)

lemma operationToNative_cases:
  assumes "operationToNative oper = Inr row"
  shows "storable oper" "kindToNative nodeIdToBytes16 (nativeMeta oper (oid_replica (om_id (op_meta oper)))) (op_kind oper) = Inr row"
  using assms operationToNative_ok [of oper]
  by (auto simp: operationToNative_def operationToNativeWithSerializers_def bindR_eq_Inr is_ok_iff)

text \<open>What the two readers make of the native form of a kind.\<close>

lemma nativeToKind_simps:
  "no_kind row = ''insert'' \<Longrightarrow> no_parent row = Some p \<Longrightarrow> no_orderKey row = Some ok \<Longrightarrow> length p = 16
    \<Longrightarrow> nativeToKind row n = Inr (OpInsert (bytesToHex p) n ok (no_payload row))"
  "no_kind row = ''move'' \<Longrightarrow> no_newParent row = Some p \<Longrightarrow> no_orderKey row = Some ok \<Longrightarrow> length p = 16
    \<Longrightarrow> nativeToKind row n = Inr (OpMove n (bytesToHex p) ok)"
  "no_kind row = ''delete'' \<Longrightarrow> nativeToKind row n = Inr (OpDelete n)"
  "no_kind row = ''tombstone'' \<Longrightarrow> nativeToKind row n = Inr (OpTombstone n)"
  "no_kind row = ''payload'' \<Longrightarrow> nativeToKind row n = Inr (OpPayload n (no_payload row))"
  by (simp_all add: nativeToKind_def requiredField_def nodeIdFromBytes16_def)

lemma optionalBytes_orNull [simp]: "optionalBytes (orNull v) = Inr v"
  by (cases v) simp_all

lemma sqliteKind_simps:
  "no_kind row = ''insert'' \<Longrightarrow> no_parent row = Some p \<Longrightarrow> no_orderKey row = Some ok
    \<Longrightarrow> decodeSqliteKind (nativeOpToSqliteRow row) = Inr (OpInsert (bytesToHex p) (bytesToHex (no_node row)) ok (no_payload row))"
  "no_kind row = ''move'' \<Longrightarrow> no_newParent row = Some p \<Longrightarrow> no_orderKey row = Some ok
    \<Longrightarrow> decodeSqliteKind (nativeOpToSqliteRow row) = Inr (OpMove (bytesToHex (no_node row)) (bytesToHex p) ok)"
  "no_kind row = ''delete'' \<Longrightarrow> decodeSqliteKind (nativeOpToSqliteRow row) = Inr (OpDelete (bytesToHex (no_node row)))"
  "no_kind row = ''tombstone'' \<Longrightarrow> decodeSqliteKind (nativeOpToSqliteRow row) = Inr (OpTombstone (bytesToHex (no_node row)))"
  "no_kind row = ''payload'' \<Longrightarrow> decodeSqliteKind (nativeOpToSqliteRow row) = Inr (OpPayload (bytesToHex (no_node row)) (no_payload row))"
  by (simp_all add: decodeSqliteKind_def nativeOpToSqliteRow_def)

lemma kindToNative_back:
  assumes "kindToNative nodeIdToBytes16 (nativeMeta oper r) k = Inr row"
  shows "\<exists>k'. normalizeKind k = Inr k' \<and> length (no_node row) = 16 \<and> nativeToKind row (bytesToHex (no_node row)) = Inr k'
    \<and> decodeSqliteKind (nativeOpToSqliteRow row) = Inr k'"
proof (cases k)
  case (OpInsert p n ok pl)
  with assms obtain pb nb where b: "nodeIdToBytes16 p = Inr pb" "nodeIdToBytes16 n = Inr nb"
    "row = (nativeMeta oper r ''insert'' nb)\<lparr>no_parent := Some pb, no_orderKey := Some ok, no_payload := pl\<rparr>"
    by (auto simp: bindR_eq_Inr)
  with nodeIdToBytes16_hex [OF b(1)] nodeIdToBytes16_hex [OF b(2)] OpInsert show ?thesis
    by (simp add: nativeMeta_def nativeToKind_simps(1) sqliteKind_simps(1))
next
  case (OpMove n p ok)
  with assms obtain pb nb where b: "nodeIdToBytes16 n = Inr nb" "nodeIdToBytes16 p = Inr pb"
    "row = (nativeMeta oper r ''move'' nb)\<lparr>no_newParent := Some pb, no_orderKey := Some ok\<rparr>"
    by (auto simp: bindR_eq_Inr)
  with nodeIdToBytes16_hex [OF b(1)] nodeIdToBytes16_hex [OF b(2)] OpMove show ?thesis
    by (simp add: nativeMeta_def nativeToKind_simps(2) sqliteKind_simps(2))
next
  case (OpDelete n)
  with assms obtain nb where b: "nodeIdToBytes16 n = Inr nb" "row = nativeMeta oper r ''delete'' nb" by (auto simp: bindR_eq_Inr)
  with nodeIdToBytes16_hex [OF b(1)] OpDelete show ?thesis by (simp add: nativeMeta_def nativeToKind_simps(3) sqliteKind_simps(3))
next
  case (OpTombstone n)
  with assms obtain nb where b: "nodeIdToBytes16 n = Inr nb" "row = nativeMeta oper r ''tombstone'' nb" by (auto simp: bindR_eq_Inr)
  with nodeIdToBytes16_hex [OF b(1)] OpTombstone show ?thesis by (simp add: nativeMeta_def nativeToKind_simps(4) sqliteKind_simps(4))
next
  case (OpPayload n pl)
  with assms obtain nb where b: "nodeIdToBytes16 n = Inr nb" "row = (nativeMeta oper r ''payload'' nb)\<lparr>no_payload := pl\<rparr>"
    by (auto simp: bindR_eq_Inr)
  with nodeIdToBytes16_hex [OF b(1)] OpPayload show ?thesis by (simp add: nativeMeta_def nativeToKind_simps(5) sqliteKind_simps(5))
qed

lemma kindToNative_meta:
  "kindToNative ser (nativeMeta oper r) k = Inr row \<Longrightarrow> no_lamport row = JsBigint (om_lamport (op_meta oper)) \<and> no_replica row = r
    \<and> no_counter row = JsBigint (oid_counter (om_id (op_meta oper))) \<and> no_knownState row = om_knownState (op_meta oper)"
  by (cases k) (auto simp: bindR_eq_Inr nativeMeta_def)

text \<open>Reading a native form back, whatever known state it came to carry.\<close>

definition withKnownState :: "bytes option \<Rightarrow> Operation \<Rightarrow> Operation" where
  "withKnownState ks oper = oper\<lparr>op_meta := (op_meta oper)\<lparr>om_knownState := ks\<rparr>\<rparr>"

lemma nativeToKind_knownState [simp]: "nativeToKind (row\<lparr>no_knownState := ks\<rparr>) n = nativeToKind row n"
  by (simp add: nativeToKind_def)

lemma native_read:
  assumes "operationToNative oper = Inr row"
  shows "nativeToOperation (row\<lparr>no_knownState := ks\<rparr>) = Inr (withKnownState ks (storedForm oper))"
proof -
  from operationToNative_cases [OF assms] have s: "storable oper"
    and k: "kindToNative nodeIdToBytes16 (nativeMeta oper (oid_replica (om_id (op_meta oper)))) (op_kind oper) = Inr row" by blast+
  from kindToNative_back [OF k] obtain k' where "normalizeKind (op_kind oper) = Inr k'" "length (no_node row) = 16"
    "nativeToKind row (bytesToHex (no_node row)) = Inr k'" by blast
  with s kindToNative_meta [OF k] show ?thesis
    by (simp add: nativeToOperation_def storable_def storedForm_def nodeIdFromBytes16_def withKnownState_def
        assertReplicaIdBytes_def ED25519_PUBLIC_KEY_LEN_def)
qed

lemma withKnownState_own [simp]: "withKnownState (om_knownState (op_meta oper)) (storedForm oper) = storedForm oper"
  by (simp add: withKnownState_def storedForm_def)

section \<open>Properties\<close>

text \<open>
  The native form of an operation.  An operation has one exactly when its lamport and counter
  are safe non-negative integers, its replica id has 32 bytes and its node ids are valid, and
  reading it back, directly or through a row of the SQLite shape, gives the operation with its node
  ids in canonical form and nothing else changed.
\<close>
theorem native_codec_roundtrip:
  "(case operationToNative oper of
      Inr row \<Rightarrow> storable oper \<and> nativeToOperation row = Inr (storedForm oper)
        \<and> decodeSqliteOps (Some [nativeOpToSqliteRow row]) = Inr [storedForm oper]
    | Inl _ \<Rightarrow> \<not> storable oper)"
proof (cases "operationToNative oper")
  case (Inl e)
  with operationToNative_ok [of oper] show ?thesis by simp
next
  case (Inr row)
  let ?r = "oid_replica (om_id (op_meta oper))" and ?m = "op_meta oper"
  from operationToNative_cases [OF Inr] have s: "storable oper"
    and k: "kindToNative nodeIdToBytes16 (nativeMeta oper ?r) (op_kind oper) = Inr row" by blast+
  from kindToNative_back [OF k] obtain k' where k': "normalizeKind (op_kind oper) = Inr k'" "length (no_node row) = 16"
    "nativeToKind row (bytesToHex (no_node row)) = Inr k'" "decodeSqliteKind (nativeOpToSqliteRow row) = Inr k'" by blast
  have r: "decodeReplicaId (JUint8Array ?r) = Inr ?r"
    using s by (simp add: storable_def assertReplicaIdBytes_def ED25519_PUBLIC_KEY_LEN_def)
  have n: "asNumber (JsBigint (om_lamport ?m)) = om_lamport ?m" "asNumber (JsBigint (oid_counter (om_id ?m))) = oid_counter (om_id ?m)"
    using s nearestDouble_safe by (simp_all add: storable_def isSafeInteger_def)
  have "row\<lparr>no_knownState := om_knownState ?m\<rparr> = row" using kindToNative_meta [OF k] by (cases row) simp
  with native_read [OF Inr, of "om_knownState ?m"] have "nativeToOperation row = Inr (storedForm oper)" by simp
  moreover have "decodeSqliteOp (nativeOpToSqliteRow row) = Inr (storedForm oper)"
    using k'(1,4) kindToNative_meta [OF k] r n
    by (cases "om_knownState ?m") (simp_all add: decodeSqliteOp_def storedForm_def nativeOpToSqliteRow_def del: asNumber.simps)
  ultimately show ?thesis using Inr s by (simp add: decodeSqliteOps_def)
qed

end
