(* ===== verification/Native_Engine.thy ===== *)
theory Native_Engine
  imports Native_Codec Peer_State "HOL-Library.Multiset"
begin

text \<open>
  The engine interface of \<^verbatim>\<open>packages/treecrdt-ts/src/engine.ts\<close> and \<^verbatim>\<open>adapter.ts\<close>, and its Postgres
  side: \<^verbatim>\<open>client.ts\<close>, \<^verbatim>\<open>adapter.ts\<close> and \<^verbatim>\<open>index.ts\<close> of \<^verbatim>\<open>packages/treecrdt-postgres-napi/src\<close>.  The native
  module is the parameter \<open>NativeFactory\<close>; \<open>lawful_native\<close> says what its log of operations does: an
  operation whose id is new is appended, one whose id is known is ignored, a failing call changes
  nothing, and a row is returned as it was stored up to the encoding of its known state.
\<close>

section \<open>Interfaces\<close>

datatype TreecrdtSqlitePlacement = PlaceFirst | PlaceLast | PlaceAfter string

record 'w TreecrdtEngine =
  en_mode :: string
  en_storage :: string
  en_docId :: string
  en_append :: "Operation \<Rightarrow> ('w, unit) pm"
  en_appendMany :: "Operation list \<Rightarrow> ('w, string list) pm"
  en_all :: "('w, Operation list) pm"
  en_since :: "int \<Rightarrow> string option \<Rightarrow> ('w, Operation list) pm"
  en_opsChildren :: "string \<Rightarrow> ('w, Operation list) pm"
  en_get :: "OpRef list \<Rightarrow> ('w, Operation list) pm"
  en_opRefsAll :: "('w, OpRef list) pm"
  en_opRefsChildren :: "string \<Rightarrow> ('w, OpRef list) pm"
  en_children :: "string \<Rightarrow> ('w, string list) pm"
  en_childrenPage :: "string \<Rightarrow> (bytes \<times> bytes) option \<Rightarrow> int \<Rightarrow> ('w, SqliteTreeChildRow list) pm"
  en_dump :: "('w, SqliteTreeRow list) pm"
  en_nodeCount :: "('w, int) pm"
  en_parent :: "string \<Rightarrow> ('w, string option) pm"
  en_exists :: "string \<Rightarrow> ('w, bool) pm"
  en_getPayload :: "string \<Rightarrow> ('w, bytes option) pm"
  en_headLamport :: "('w, int) pm"
  en_replicaMaxCounter :: "ReplicaId \<Rightarrow> ('w, int) pm"
  en_localInsert :: "ReplicaId \<Rightarrow> string \<Rightarrow> string \<Rightarrow> TreecrdtSqlitePlacement \<Rightarrow> bytes option \<Rightarrow> ('w, Operation) pm"
  en_localMove :: "ReplicaId \<Rightarrow> string \<Rightarrow> string \<Rightarrow> TreecrdtSqlitePlacement \<Rightarrow> ('w, Operation) pm"
  en_localDelete :: "ReplicaId \<Rightarrow> string \<Rightarrow> ('w, Operation) pm"
  en_localPayload :: "ReplicaId \<Rightarrow> string \<Rightarrow> bytes option \<Rightarrow> ('w, Operation) pm"

text \<open>An adapter returns raw rows; \<open>None\<close> is a result that is not an array.\<close>

record 'w TreecrdtAdapter =
  ad_setDocId :: "string \<Rightarrow> ('w, unit) pm"
  ad_docId :: "('w, string option) pm"
  ad_opRefsAll :: "('w, js_val list option) pm"
  ad_opRefsChildren :: "bytes \<Rightarrow> ('w, js_val list option) pm"
  ad_opsByOpRefs :: "OpRef list \<Rightarrow> ('w, SqliteOpRow list option) pm"
  ad_treeChildren :: "bytes \<Rightarrow> ('w, js_val list option) pm"
  ad_treeChildrenPage :: "(bytes \<Rightarrow> (bytes \<times> bytes) option \<Rightarrow> int \<Rightarrow> ('w, RawTreeRow list option) pm) option"
  ad_treeDump :: "('w, RawTreeRow list option) pm"
  ad_treeNodeCount :: "('w, int) pm"
  ad_treeParent :: "bytes \<Rightarrow> ('w, bytes option) pm"
  ad_treeExists :: "bytes \<Rightarrow> ('w, bool) pm"
  ad_treePayload :: "bytes \<Rightarrow> ('w, bytes option) pm"
  ad_headLamport :: "('w, int) pm"
  ad_replicaMaxCounter :: "bytes \<Rightarrow> ('w, int) pm"
  ad_appendOp :: "Operation \<Rightarrow> (string \<Rightarrow> bytes res) \<Rightarrow> (bytes \<Rightarrow> bytes res) \<Rightarrow> ('w, unit) pm"
  ad_appendOps :: "(Operation list \<Rightarrow> (string \<Rightarrow> bytes res) \<Rightarrow> (bytes \<Rightarrow> bytes res) \<Rightarrow> ('w, bytes list) pm) option"
  ad_opsSince :: "int \<Rightarrow> string option \<Rightarrow> ('w, SqliteOpRow list option) pm"

record 'w NativeBackend =
  nb_maxLamport :: "('w, int) pm"
  nb_listOpRefsAll :: "('w, bytes list) pm"
  nb_listOpRefsChildren :: "bytes \<Rightarrow> ('w, bytes list) pm"
  nb_listOpRefsChildrenWithParentPayload :: "bytes \<Rightarrow> ('w, bytes list) pm"
  nb_opsSince :: "int \<Rightarrow> bytes option \<Rightarrow> ('w, NativeOp list) pm"
  nb_getOpsByOpRefs :: "bytes list \<Rightarrow> ('w, NativeOp list) pm"
  nb_treeChildren :: "bytes \<Rightarrow> ('w, bytes list) pm"
  nb_treeChildrenPage :: "bytes \<Rightarrow> bytes option \<Rightarrow> bytes option \<Rightarrow> int \<Rightarrow> ('w, (bytes \<times> bytes option) list) pm"
  nb_treeDump :: "('w, (bytes \<times> bytes option \<times> bytes option \<times> bool) list) pm"
  nb_treeNodeCount :: "('w, int) pm"
  nb_treeParent :: "bytes \<Rightarrow> ('w, bytes option) pm"
  nb_treeExists :: "bytes \<Rightarrow> ('w, bool) pm"
  nb_treePayload :: "bytes \<Rightarrow> ('w, bytes option) pm"
  nb_replicaMaxCounter :: "bytes \<Rightarrow> ('w, int) pm"
  nb_applyOps :: "NativeOp list \<Rightarrow> ('w, bytes list) pm"
  nb_localInsert :: "bytes \<Rightarrow> bytes \<Rightarrow> bytes \<Rightarrow> string \<Rightarrow> bytes option \<Rightarrow> bytes option \<Rightarrow> ('w, NativeOp) pm"
  nb_localMove :: "bytes \<Rightarrow> bytes \<Rightarrow> bytes \<Rightarrow> string \<Rightarrow> bytes option \<Rightarrow> ('w, NativeOp) pm"
  nb_localDelete :: "bytes \<Rightarrow> bytes \<Rightarrow> ('w, NativeOp) pm"
  nb_localPayload :: "bytes \<Rightarrow> bytes \<Rightarrow> bytes option \<Rightarrow> ('w, NativeOp) pm"

record 'w NativeFactory =
  nf_ensureSchema :: "('w, unit) pm"
  nf_resetForTests :: "('w, unit) pm"
  nf_resetDocForTests :: "string \<Rightarrow> ('w, unit) pm"
  nf_open :: "string \<Rightarrow> ('w, 'w NativeBackend) pm"

section \<open>The client\<close>

definition ensureNonEmptyString :: "string \<Rightarrow> string \<Rightarrow> unit res" where
  "ensureNonEmptyString name v = guardR (v \<noteq> []) (name @ '' must be a non-empty string'')"

definition bigintToSafeNumber :: "string \<Rightarrow> int \<Rightarrow> int res" where
  "bigintToSafeNumber name v = (if v < 0 \<or> MAX_SAFE_INTEGER < v then Inl (name @ '' out of JS safe range'') else Inr v)"

fun placementToArgs :: "TreecrdtSqlitePlacement \<Rightarrow> (string \<times> bytes option) res" where
  "placementToArgs PlaceFirst = Inr (''first'', None)"
| "placementToArgs PlaceLast = Inr (''last'', None)"
| "placementToArgs (PlaceAfter after) = bindR (nodeIdToBytes16 after) (\<lambda>bs. Inr (''after'', Some bs))"

definition mapRes :: "('a \<Rightarrow> 'b res) \<Rightarrow> ('w, 'a list) pm \<Rightarrow> ('w, 'b list) pm" where
  "mapRes f m = bnd m (\<lambda>xs. liftR (mapR f xs))"

definition withNode :: "string \<Rightarrow> (bytes \<Rightarrow> ('w, 'a) pm) \<Rightarrow> ('w, 'a) pm" where
  "withNode node f = bnd (liftR (nodeIdToBytes16 node)) f"

definition optNode :: "bytes option \<Rightarrow> string option res" where
  "optNode v = (case v of None \<Rightarrow> Inr None | Some bs \<Rightarrow> bindR (nodeIdFromBytes16 bs) (\<lambda>n. Inr (Some n)))"

definition nativeOpsSince :: "'w NativeBackend \<Rightarrow> int \<Rightarrow> string option \<Rightarrow> ('w, Operation list) pm" where
  "nativeOpsSince nb lamport rootId = bnd (case rootId of None \<Rightarrow> ret None | Some r \<Rightarrow> bnd (liftR (nodeIdToBytes16 r)) (\<lambda>bs. ret (Some bs)))
     (\<lambda>rootBytes. mapRes nativeToOperation (nb_opsSince nb lamport rootBytes))"

definition nativeOpsByOpRefs :: "'w NativeBackend \<Rightarrow> OpRef list \<Rightarrow> ('w, Operation list) pm" where
  "nativeOpsByOpRefs nb opRefs = (if opRefs = [] then ret [] else mapRes nativeToOperation (nb_getOpsByOpRefs nb opRefs))"

definition nativeOpRefsChildren :: "'w NativeBackend \<Rightarrow> string \<Rightarrow> ('w, OpRef list) pm" where
  "nativeOpRefsChildren nb parent = withNode parent (nb_listOpRefsChildren nb)"

definition nativeChildRow :: "bytes \<times> bytes option \<Rightarrow> SqliteTreeChildRow res" where
  "nativeChildRow r = bindR (nodeIdFromBytes16 (fst r)) (\<lambda>node. Inr \<lparr>cr_node = node, cr_orderKey = snd r\<rparr>)"

definition nativeTreeRow :: "bytes \<times> bytes option \<times> bytes option \<times> bool \<Rightarrow> SqliteTreeRow res" where
  "nativeTreeRow r = (case r of (node, parent, orderKey, tombstone) \<Rightarrow>
     bindR (nodeIdFromBytes16 node) (\<lambda>n. bindR (optNode parent) (\<lambda>p.
       Inr \<lparr>tr_node = n, tr_parent = p, tr_orderKey = orderKey, tr_tombstone = tombstone\<rparr>)))"

definition nativeAppendMany :: "'w NativeBackend \<Rightarrow> Operation list \<Rightarrow> ('w, string list) pm" where
  "nativeAppendMany nb ops = (if ops = [] then ret []
     else bnd (liftR (mapR (operationToNativeWithSerializers nodeIdToBytes16 replicaIdToBytes) ops))
       (\<lambda>rows. mapRes nodeIdFromBytes16 (nb_applyOps nb rows)))"

definition nativeLocalInsert :: "'w NativeBackend \<Rightarrow> ReplicaId \<Rightarrow> string \<Rightarrow> string \<Rightarrow> TreecrdtSqlitePlacement \<Rightarrow> bytes option \<Rightarrow> ('w, Operation) pm" where
  "nativeLocalInsert nb replica parent node placement payload =
     bnd (liftR (placementToArgs placement)) (\<lambda>(type, after).
     bnd (liftR (replicaIdToBytes replica)) (\<lambda>r.
     withNode parent (\<lambda>p. withNode node (\<lambda>n.
     bnd (nb_localInsert nb r p n type after payload) (\<lambda>row. liftR (nativeToOperation row))))))"

definition nativeLocalMove :: "'w NativeBackend \<Rightarrow> ReplicaId \<Rightarrow> string \<Rightarrow> string \<Rightarrow> TreecrdtSqlitePlacement \<Rightarrow> ('w, Operation) pm" where
  "nativeLocalMove nb replica node newParent placement =
     bnd (liftR (placementToArgs placement)) (\<lambda>(type, after).
     bnd (liftR (replicaIdToBytes replica)) (\<lambda>r.
     withNode node (\<lambda>n. withNode newParent (\<lambda>p.
     bnd (nb_localMove nb r n p type after) (\<lambda>row. liftR (nativeToOperation row))))))"

definition nativeLocalDelete :: "'w NativeBackend \<Rightarrow> ReplicaId \<Rightarrow> string \<Rightarrow> ('w, Operation) pm" where
  "nativeLocalDelete nb replica node = bnd (liftR (replicaIdToBytes replica)) (\<lambda>r. withNode node (\<lambda>n.
     bnd (nb_localDelete nb r n) (\<lambda>row. liftR (nativeToOperation row))))"

definition nativeLocalPayload :: "'w NativeBackend \<Rightarrow> ReplicaId \<Rightarrow> string \<Rightarrow> bytes option \<Rightarrow> ('w, Operation) pm" where
  "nativeLocalPayload nb replica node payload = bnd (liftR (replicaIdToBytes replica)) (\<lambda>r. withNode node (\<lambda>n.
     bnd (nb_localPayload nb r n payload) (\<lambda>row. liftR (nativeToOperation row))))"

text \<open>The engine the client returns for an open backend.\<close>

definition nativeEngine :: "string \<Rightarrow> 'w NativeBackend \<Rightarrow> 'w TreecrdtEngine" where
  "nativeEngine docId nb = \<lparr>en_mode = ''node'', en_storage = ''postgres'', en_docId = docId,
     en_append = (\<lambda>oper. bnd (liftR (operationToNativeWithSerializers nodeIdToBytes16 replicaIdToBytes oper))
       (\<lambda>row. bnd (nb_applyOps nb [row]) (\<lambda>_. ret ()))),
     en_appendMany = nativeAppendMany nb,
     en_all = nativeOpsSince nb 0 None,
     en_since = nativeOpsSince nb,
     en_opsChildren = (\<lambda>parent. bnd (nativeOpRefsChildren nb parent) (nativeOpsByOpRefs nb)),
     en_get = nativeOpsByOpRefs nb,
     en_opRefsAll = nb_listOpRefsAll nb,
     en_opRefsChildren = nativeOpRefsChildren nb,
     en_children = (\<lambda>parent. withNode parent (\<lambda>p. mapRes nodeIdFromBytes16 (nb_treeChildren nb p))),
     en_childrenPage = (\<lambda>parent cursor limit. withNode parent (\<lambda>p.
       mapRes nativeChildRow (nb_treeChildrenPage nb p (map_option fst cursor) (map_option snd cursor) limit))),
     en_dump = mapRes nativeTreeRow (nb_treeDump nb),
     en_nodeCount = bnd (nb_treeNodeCount nb) (\<lambda>v. liftR (bigintToSafeNumber ''treeNodeCount'' v)),
     en_parent = (\<lambda>node. withNode node (\<lambda>n. bnd (nb_treeParent nb n) (\<lambda>v. liftR (optNode v)))),
     en_exists = (\<lambda>node. withNode node (nb_treeExists nb)),
     en_getPayload = (\<lambda>node. withNode node (nb_treePayload nb)),
     en_headLamport = bnd (nb_maxLamport nb) (\<lambda>v. liftR (bigintToSafeNumber ''headLamport'' v)),
     en_replicaMaxCounter = (\<lambda>replica. bnd (liftR (replicaIdToBytes replica)) (\<lambda>r.
       bnd (nb_replicaMaxCounter nb r) (\<lambda>v. liftR (bigintToSafeNumber ''replicaMaxCounter'' v)))),
     en_localInsert = nativeLocalInsert nb,
     en_localMove = nativeLocalMove nb,
     en_localDelete = nativeLocalDelete nb,
     en_localPayload = nativeLocalPayload nb\<rparr>"

definition createTreecrdtPostgresClient :: "(string \<Rightarrow> ('w, 'w NativeFactory) pm) \<Rightarrow> string \<Rightarrow> string option \<Rightarrow> ('w, 'w TreecrdtEngine) pm" where
  "createTreecrdtPostgresClient newPgFactory url docIdOpt =
     bnd (liftR (ensureNonEmptyString ''url'' url)) (\<lambda>_.
     bnd (newPgFactory url) (\<lambda>factory.
     sq (nf_ensureSchema factory)
     (let docId = (case docIdOpt of None \<Rightarrow> ''treecrdt'' | Some d \<Rightarrow> d) in
      bnd (liftR (ensureNonEmptyString ''docId'' docId)) (\<lambda>_.
      bnd (nf_open factory docId) (\<lambda>backend. ret (nativeEngine docId backend))))))"

section \<open>The sync backend\<close>

definition nativeSyncBackend :: "string \<Rightarrow> 'w NativeBackend \<Rightarrow> (Operation, 'w) SyncBackend" where
  "nativeSyncBackend docId nb = \<lparr>sb_docId = docId,
     sb_maxLamport = bnd (nb_maxLamport nb) (\<lambda>v. ret (nat v)),
     sb_listOpRefs = (\<lambda>f. case f of FilterAll \<Rightarrow> nb_listOpRefsAll nb
       | FilterChildren parent \<Rightarrow> nb_listOpRefsChildrenWithParentPayload nb parent),
     sb_getOpsByOpRefs = (\<lambda>opRefs. if opRefs = [] then ret [] else mapRes nativeToOperation (nb_getOpsByOpRefs nb opRefs)),
     sb_applyOps = (\<lambda>ops. if ops = [] then ret ()
       else bnd (liftR (mapR operationToNative ops)) (\<lambda>rows. bnd (nb_applyOps nb rows) (\<lambda>_. ret ()))),
     sb_storePendingOps = None, sb_listPendingOps = None, sb_deletePendingOps = None\<rparr>"

record 'w PostgresNapiSyncBackendFactory =
  pf_ensureSchema :: "('w, unit) pm"
  pf_resetForTests :: "('w, unit) pm"
  pf_resetDocForTests :: "string \<Rightarrow> ('w, unit) pm"
  pf_open :: "string \<Rightarrow> ('w, (Operation, 'w) SyncBackend) pm"

definition createPostgresNapiSyncBackendFactory :: "(string \<Rightarrow> ('w, 'w NativeFactory) pm) \<Rightarrow> string \<Rightarrow> ('w, 'w PostgresNapiSyncBackendFactory) pm" where
  "createPostgresNapiSyncBackendFactory newPgFactory url =
     bnd (liftR (ensureNonEmptyString ''url'' url)) (\<lambda>_.
     bnd (newPgFactory url) (\<lambda>factory. ret \<lparr>pf_ensureSchema = nf_ensureSchema factory, pf_resetForTests = nf_resetForTests factory,
       pf_resetDocForTests = (\<lambda>docId. bnd (liftR (ensureNonEmptyString ''docId'' docId)) (\<lambda>_. nf_resetDocForTests factory docId)),
       pf_open = (\<lambda>docId. bnd (liftR (ensureNonEmptyString ''docId'' docId)) (\<lambda>_.
         bnd (nf_open factory docId) (\<lambda>backend. ret (nativeSyncBackend docId backend))))\<rparr>))"

section \<open>The adapter\<close>

text \<open>The closure variables \<^verbatim>\<open>docId\<close> and \<^verbatim>\<open>backend\<close>, which \<^verbatim>\<open>setDocId\<close> replaces.\<close>

record 'w AdapterState =
  as_world :: 'w
  as_docId :: string
  as_backend :: "'w NativeBackend"

definition onBackend :: "('w NativeBackend \<Rightarrow> ('w, 'a) pm) \<Rightarrow> ('w AdapterState, 'a) pm" where
  "onBackend f = (\<lambda>s. case f (as_backend s) (as_world s) of (r, w') \<Rightarrow> (r, s\<lparr>as_world := w'\<rparr>))"

definition adapterSetDocId :: "'w NativeFactory \<Rightarrow> string \<Rightarrow> ('w AdapterState, unit) pm" where
  "adapterSetDocId factory next = bnd (liftR (ensureNonEmptyString ''docId'' next)) (\<lambda>_.
     sq (modify (\<lambda>s. s\<lparr>as_docId := next\<rparr>))
     (bnd (onBackend (\<lambda>_. nf_open factory next)) (\<lambda>backend. modify (\<lambda>s. s\<lparr>as_backend := backend\<rparr>))))"

definition rawBytes :: "bytes list \<Rightarrow> js_val list option" where
  "rawBytes bss = Some (map JUint8Array bss)"

definition rawPageRow :: "bytes \<times> bytes option \<Rightarrow> RawTreeRow" where
  "rawPageRow r = \<lparr>rt_node = JUint8Array (fst r), rt_parent = JUndefined, rt_order_key = orNull (snd r), rt_tombstone = JUndefined\<rparr>"

text \<open>A boolean field is read by its truth value only.\<close>

definition rawTreeRow :: "bytes \<times> bytes option \<times> bytes option \<times> bool \<Rightarrow> RawTreeRow" where
  "rawTreeRow r = (case r of (node, parent, orderKey, tombstone) \<Rightarrow>
     \<lparr>rt_node = JUint8Array node, rt_parent = orNull parent, rt_order_key = orNull orderKey, rt_tombstone = JNumber (of_bool tombstone)\<rparr>)"

definition nativeAdapter :: "'w NativeFactory \<Rightarrow> 'w AdapterState TreecrdtAdapter" where
  "nativeAdapter factory = \<lparr>ad_setDocId = adapterSetDocId factory,
     ad_docId = gets (\<lambda>s. Some (as_docId s)),
     ad_opRefsAll = onBackend (\<lambda>nb. bnd (nb_listOpRefsAll nb) (\<lambda>v. ret (rawBytes v))),
     ad_opRefsChildren = (\<lambda>parent. onBackend (\<lambda>nb. bnd (nb_listOpRefsChildren nb parent) (\<lambda>v. ret (rawBytes v)))),
     ad_opsByOpRefs = (\<lambda>opRefs. onBackend (\<lambda>nb. bnd (nb_getOpsByOpRefs nb opRefs) (\<lambda>rows. ret (Some (map nativeOpToSqliteRow rows))))),
     ad_treeChildren = (\<lambda>parent. onBackend (\<lambda>nb. bnd (nb_treeChildren nb parent) (\<lambda>v. ret (rawBytes v)))),
     ad_treeChildrenPage = Some (\<lambda>parent cursor limit. onBackend (\<lambda>nb.
       bnd (nb_treeChildrenPage nb parent (map_option fst cursor) (map_option snd cursor) limit) (\<lambda>rows. ret (Some (map rawPageRow rows))))),
     ad_treeDump = onBackend (\<lambda>nb. bnd (nb_treeDump nb) (\<lambda>rows. ret (Some (map rawTreeRow rows)))),
     ad_treeNodeCount = onBackend (\<lambda>nb. bnd (nb_treeNodeCount nb) (\<lambda>v. liftR (bigintToSafeNumber ''treeNodeCount'' v))),
     ad_treeParent = (\<lambda>node. onBackend (\<lambda>nb. nb_treeParent nb node)),
     ad_treeExists = (\<lambda>node. onBackend (\<lambda>nb. nb_treeExists nb node)),
     ad_treePayload = (\<lambda>node. onBackend (\<lambda>nb. nb_treePayload nb node)),
     ad_headLamport = onBackend (\<lambda>nb. bnd (nb_maxLamport nb) (\<lambda>v. liftR (bigintToSafeNumber ''headLamport'' v))),
     ad_replicaMaxCounter = (\<lambda>replica. onBackend (\<lambda>nb.
       bnd (nb_replicaMaxCounter nb replica) (\<lambda>v. liftR (bigintToSafeNumber ''replicaMaxCounter'' v)))),
     ad_appendOp = (\<lambda>oper serializeNodeId serializeReplica. onBackend (\<lambda>nb.
       bnd (liftR (operationToNativeWithSerializers serializeNodeId serializeReplica oper)) (\<lambda>row. bnd (nb_applyOps nb [row]) (\<lambda>_. ret ())))),
     ad_appendOps = Some (\<lambda>ops serializeNodeId serializeReplica. if ops = [] then ret [] else onBackend (\<lambda>nb.
       bnd (liftR (mapR (operationToNativeWithSerializers serializeNodeId serializeReplica) ops)) (nb_applyOps nb))),
     ad_opsSince = (\<lambda>lamport rootId. bnd (case rootId of None \<Rightarrow> ret None | Some r \<Rightarrow> bnd (liftR (nodeIdToBytes16 r)) (\<lambda>bs. ret (Some bs)))
       (\<lambda>rootBytes. onBackend (\<lambda>nb. bnd (nb_opsSince nb lamport rootBytes) (\<lambda>rows. ret (Some (map nativeOpToSqliteRow rows))))))\<rparr>"

record 'w PostgresNapiAdapterFactory =
  af_ensureSchema :: "('w, unit) pm"
  af_resetForTests :: "('w, unit) pm"
  af_resetDocForTests :: "string \<Rightarrow> ('w, unit) pm"
  af_open :: "string \<Rightarrow> ('w, 'w AdapterState TreecrdtAdapter \<times> 'w NativeBackend) pm"

text \<open>Opening returns the adapter with the backend its state starts with.\<close>

definition createPostgresNapiAdapterFactory :: "(string \<Rightarrow> ('w, 'w NativeFactory) pm) \<Rightarrow> string \<Rightarrow> ('w, 'w PostgresNapiAdapterFactory) pm" where
  "createPostgresNapiAdapterFactory newPgFactory url =
     bnd (liftR (ensureNonEmptyString ''url'' url)) (\<lambda>_.
     bnd (newPgFactory url) (\<lambda>factory. ret \<lparr>af_ensureSchema = nf_ensureSchema factory, af_resetForTests = nf_resetForTests factory,
       af_resetDocForTests = (\<lambda>docId. bnd (liftR (ensureNonEmptyString ''docId'' docId)) (\<lambda>_. nf_resetDocForTests factory docId)),
       af_open = (\<lambda>docId. bnd (liftR (ensureNonEmptyString ''docId'' docId)) (\<lambda>_.
         bnd (nf_open factory docId) (\<lambda>backend. ret (nativeAdapter factory, backend))))\<rparr>))"

section \<open>The log of operations\<close>

definition nativeId :: "NativeOp \<Rightarrow> bytes \<times> int" where
  "nativeId row = (no_replica row, js_int_val (no_counter row))"

definition addRow :: "NativeOp \<Rightarrow> NativeOp list \<Rightarrow> NativeOp list" where
  "addRow row rows = (if nativeId row \<in> nativeId ` set rows then rows else rows @ [row])"

definition touches :: "bytes option \<Rightarrow> NativeOp \<Rightarrow> bool" where
  "touches rootBytes row = (case rootBytes of None \<Rightarrow> True
     | Some b \<Rightarrow> no_parent row = Some b \<or> no_node row = b \<or> no_newParent row = Some b)"

definition rowLamport :: "NativeOp \<Rightarrow> int" where
  "rowLamport row = js_int_val (no_lamport row)"

text \<open>A stored row as it is returned: its known state may be encoded anew.\<close>

definition returnedAs :: "NativeOp \<Rightarrow> NativeOp \<Rightarrow> bool" where
  "returnedAs row row' \<longleftrightarrow> (\<exists>ks. row' = row\<lparr>no_knownState := ks\<rparr>)"

definition lawful_native :: "'w NativeBackend \<Rightarrow> ('w \<Rightarrow> NativeOp list) \<Rightarrow> bool" where
  "lawful_native nb logOf \<longleftrightarrow>
     (\<forall>rows w r w'. nb_applyOps nb rows w = (r, w') \<longrightarrow> (case r of Inl _ \<Rightarrow> logOf w' = logOf w
        | Inr nodes \<Rightarrow> logOf w' = fold addRow rows (logOf w) \<and> list_all (\<lambda>n. length n = 16) nodes))
   \<and> (\<forall>l b w r w'. nb_opsSince nb l b w = (r, w') \<longrightarrow> logOf w' = logOf w \<and> (\<forall>rows. r = Inr rows \<longrightarrow>
        (\<exists>sel. mset sel = mset (filter (\<lambda>row. l < rowLamport row \<and> touches b row) (logOf w))
          \<and> sorted (map rowLamport sel) \<and> list_all2 returnedAs sel rows)))"

lemma lawful_sinceD:
  assumes "lawful_native nb logOf" "nb_opsSince nb l None w = (Inr rows, w')"
  obtains sel where "mset sel = mset (filter (\<lambda>row. l < rowLamport row) (logOf w))" "sorted (map rowLamport sel)" "list_all2 returnedAs sel rows"
proof -
  from assms have "\<exists>sel. mset sel = mset (filter (\<lambda>row. l < rowLamport row \<and> touches None row) (logOf w))
      \<and> sorted (map rowLamport sel) \<and> list_all2 returnedAs sel rows" unfolding lawful_native_def by blast
  then obtain sel where "mset sel = mset (filter (\<lambda>row. l < rowLamport row \<and> touches None row) (logOf w))"
    "sorted (map rowLamport sel)" "list_all2 returnedAs sel rows" by (elim exE conjE)
  with that show thesis by (simp add: touches_def)
qed

text \<open>The same log as operations.\<close>

definition opId :: "Operation \<Rightarrow> bytes \<times> int" where
  "opId oper = (oid_replica (om_id (op_meta oper)), oid_counter (om_id (op_meta oper)))"

definition addOp :: "Operation \<Rightarrow> Operation list \<Rightarrow> Operation list" where
  "addOp oper held = (if opId oper \<in> opId ` set held then held else held @ [oper])"

definition opLamport :: "Operation \<Rightarrow> int" where
  "opLamport oper = om_lamport (op_meta oper)"

definition holds :: "Operation list \<Rightarrow> NativeOp list \<Rightarrow> bool" where
  "holds held rows \<longleftrightarrow> list_all2 (\<lambda>oper row. operationToNative oper = Inr row) held rows"

lemma native_row:
  assumes "operationToNative oper = Inr row"
  shows "nativeId row = opId oper" "rowLamport row = opLamport oper" "storable oper"
  using kindToNative_meta [OF operationToNative_cases(2) [OF assms]] operationToNative_cases(1) [OF assms]
  by (simp_all add: nativeId_def opId_def rowLamport_def opLamport_def)

lemma holds_ids: "holds held rows \<Longrightarrow> nativeId ` set rows = opId ` set held"
  unfolding holds_def by (induction rule: list_all2_induct) (simp_all add: native_row(1))

lemma holds_addRow: "holds held rows \<Longrightarrow> operationToNative oper = Inr row \<Longrightarrow> holds (addOp oper held) (addRow row rows)"
  using holds_ids [of held rows] native_row(1) [of oper row]
  by (simp add: addOp_def addRow_def) (simp add: holds_def list_all2_appendI)

lemma holds_add: "holds held rows \<Longrightarrow> mapR operationToNative ops = Inr new \<Longrightarrow> holds (fold addOp ops held) (fold addRow new rows)"
proof (induction ops arbitrary: held rows new)
  case (Cons oper ops)
  then obtain row new' where r: "operationToNative oper = Inr row" "mapR operationToNative ops = Inr new'" "new = row # new'"
    by (auto simp: bindR_eq_Inr)
  show ?case using Cons.IH [OF holds_addRow [OF Cons.prems(1) r(1)] r(2)] by (simp add: r(3))
qed simp

lemma mapR_native_ok: "is_ok (mapR operationToNative ops) \<longleftrightarrow> list_all storable ops"
  using operationToNative_ok by (induction ops) (auto simp: is_ok_iff bindR_eq_Inr)

lemma read_back:
  assumes "list_all2 returnedAs sel rows" "holds ops sel"
  shows "mapR nativeToOperation rows = Inr xs \<Longrightarrow> list_all2 (\<lambda>oper x. \<exists>ks. x = withKnownState ks (storedForm oper)) ops xs"
  using assms unfolding holds_def
proof (induction arbitrary: ops xs rule: list_all2_induct)
  case (Cons row sel row' rows)
  then obtain oper ops' where o: "ops = oper # ops'" "operationToNative oper = Inr row" by (auto simp: list_all2_Cons2)
  from Cons.hyps(1) obtain ks where ks: "row' = row\<lparr>no_knownState := ks\<rparr>" by (auto simp: returnedAs_def)
  from Cons.prems(1) native_read [OF o(2), of ks] obtain ys where
    "xs = withKnownState ks (storedForm oper) # ys" "mapR nativeToOperation rows = Inr ys" by (auto simp: ks bindR_eq_Inr)
  with Cons o(1) show ?case by auto
qed (simp add: list_all2_Nil2)

section \<open>Properties\<close>

text \<open>
  C28: the Postgres client is a log of operations.  A batch with an operation that has no native
  form changes nothing; a batch that succeeds appends, once each, the operations whose ids are
  new; one that fails appends none; and \<^verbatim>\<open>ops.all\<close> returns the operations held that have a positive
  lamport, by lamport, with their node ids in canonical form and nothing changed but the encoding
  of the known state.  The sync backend over the same log has the same effect.
\<close>
theorem native_engine_is_log:
  assumes "lawful_native nb logOf" and "holds held (logOf w)" and "en_appendMany (nativeEngine docId nb) ops w = (r, w')"
  shows "(\<not> list_all storable ops \<longrightarrow> \<not> is_ok r \<and> w' = w)
    \<and> (is_ok r \<longrightarrow> holds (fold addOp ops held) (logOf w'))
    \<and> (\<not> is_ok r \<longrightarrow> holds held (logOf w'))
    \<and> snd (sb_applyOps (nativeSyncBackend docId nb) ops w) = w'
    \<and> (\<forall>xs w''. en_all (nativeEngine docId nb) w = (Inr xs, w'') \<longrightarrow> (\<exists>sel. mset sel = mset (filter (\<lambda>oper. 0 < opLamport oper) held)
        \<and> sorted (map opLamport sel) \<and> list_all2 (\<lambda>oper x. \<exists>ks. x = withKnownState ks (storedForm oper)) sel xs))"
proof (intro conjI)
  have run: "en_appendMany (nativeEngine docId nb) ops = nativeAppendMany nb ops" by (simp add: nativeEngine_def)
  have ok: "is_ok (mapR operationToNative ops) \<longleftrightarrow> list_all storable ops" by (rule mapR_native_ok)
  note native = operationToNative_def [symmetric]
  show "\<not> list_all storable ops \<longrightarrow> \<not> is_ok r \<and> w' = w"
    using assms(3) ok unfolding run by (cases "mapR operationToNative ops") (auto simp: nativeAppendMany_def native pm_simps split: if_splits)
  have applied: "(is_ok r \<longrightarrow> holds (fold addOp ops held) (logOf w')) \<and> (\<not> is_ok r \<longrightarrow> holds held (logOf w'))
      \<and> snd (sb_applyOps (nativeSyncBackend docId nb) ops w) = w'"
  proof (cases "mapR operationToNative ops")
    case (Inl e)
    then have "ops \<noteq> []" by auto
    with Inl assms(2,3) show ?thesis unfolding run by (auto simp: nativeAppendMany_def nativeSyncBackend_def native pm_simps)
  next
    case (Inr rows)
    show ?thesis
    proof (cases "ops = []")
      case True
      with assms(2,3) show ?thesis unfolding run by (auto simp: nativeAppendMany_def nativeSyncBackend_def)
    next
      case False
      obtain q v where q: "nb_applyOps nb rows w = (q, v)" by (cases "nb_applyOps nb rows w")
      with assms(1) have "case q of Inl _ \<Rightarrow> logOf v = logOf w | Inr nodes \<Rightarrow> logOf v = fold addRow rows (logOf w) \<and> list_all (\<lambda>n. length n = 16) nodes"
        unfolding lawful_native_def by blast
      moreover have "is_ok (mapR nodeIdFromBytes16 nodes)" if "list_all (\<lambda>n. length n = 16) nodes" for nodes
        using that by (induction nodes) (auto simp: nodeIdFromBytes16_def is_ok_iff)
      ultimately show ?thesis using assms(2,3) q Inr False holds_add [OF assms(2) Inr] unfolding run
        by (auto simp: nativeAppendMany_def nativeSyncBackend_def native pm_simps mapRes_def split: sum.splits)
    qed
  qed
  then show "is_ok r \<longrightarrow> holds (fold addOp ops held) (logOf w')" "\<not> is_ok r \<longrightarrow> holds held (logOf w')"
    "snd (sb_applyOps (nativeSyncBackend docId nb) ops w) = w'" by blast+
  show "\<forall>xs w''. en_all (nativeEngine docId nb) w = (Inr xs, w'') \<longrightarrow> (\<exists>sel. mset sel = mset (filter (\<lambda>oper. 0 < opLamport oper) held)
      \<and> sorted (map opLamport sel) \<and> list_all2 (\<lambda>oper x. \<exists>ks. x = withKnownState ks (storedForm oper)) sel xs)"
  proof (intro allI impI)
    fix xs w'' assume "en_all (nativeEngine docId nb) w = (Inr xs, w'')"
    then obtain rows where rows: "nb_opsSince nb 0 None w = (Inr rows, w'')" "mapR nativeToOperation rows = Inr xs"
      by (auto simp: nativeEngine_def nativeOpsSince_def mapRes_def pm_simps split: prod.splits sum.splits)
    from lawful_sinceD [OF assms(1) rows(1)] obtain sel where sel: "mset sel = mset (filter (\<lambda>row. 0 < rowLamport row) (logOf w))"
      "sorted (map rowLamport sel)" "list_all2 returnedAs sel rows" .
    have "holds (filter (\<lambda>oper. 0 < opLamport oper) held) (filter (\<lambda>row. 0 < rowLamport row) (logOf w))"
      using assms(2) unfolding holds_def by (induction rule: list_all2_induct) (simp_all add: native_row(2))
    then have "list_all2 (\<lambda>row oper. operationToNative oper = Inr row) (filter (\<lambda>row. 0 < rowLamport row) (logOf w)) (filter (\<lambda>oper. 0 < opLamport oper) held)"
      by (simp add: holds_def list_all2_conv_all_nth)
    from list_all2_reorder_left_invariance [OF this sel(1)] obtain ops' where
      ops': "holds ops' sel" "mset ops' = mset (filter (\<lambda>oper. 0 < opLamport oper) held)" by (auto simp: holds_def list_all2_conv_all_nth)
    moreover have "map opLamport ops' = map rowLamport sel"
      using ops'(1) unfolding holds_def by (induction rule: list_all2_induct) (simp_all add: native_row(2))
    ultimately show "\<exists>sel. mset sel = mset (filter (\<lambda>oper. 0 < opLamport oper) held)
        \<and> sorted (map opLamport sel) \<and> list_all2 (\<lambda>oper x. \<exists>ks. x = withKnownState ks (storedForm oper)) sel xs"
      using sel(2) read_back [OF sel(3) ops'(1) rows(2)] by auto
  qed
qed

text \<open>A backend whose world is its log.\<close>

definition demo_native :: "NativeOp list NativeBackend" where
  "demo_native = \<lparr>nb_maxLamport = ret 0, nb_listOpRefsAll = ret [], nb_listOpRefsChildren = (\<lambda>_. ret []),
     nb_listOpRefsChildrenWithParentPayload = (\<lambda>_. ret []),
     nb_opsSince = (\<lambda>l b rows. (Inr (sort_key rowLamport (filter (\<lambda>row. l < rowLamport row \<and> touches b row) rows)), rows)),
     nb_getOpsByOpRefs = (\<lambda>_. ret []), nb_treeChildren = (\<lambda>_. ret []), nb_treeChildrenPage = (\<lambda>_ _ _ _. ret []),
     nb_treeDump = ret [], nb_treeNodeCount = ret 0, nb_treeParent = (\<lambda>_. ret None), nb_treeExists = (\<lambda>_. ret False),
     nb_treePayload = (\<lambda>_. ret None), nb_replicaMaxCounter = (\<lambda>_. ret 0),
     nb_applyOps = (\<lambda>new rows. (Inr (filter (\<lambda>n. length n = 16) (map no_node new)), fold addRow new rows)),
     nb_localInsert = (\<lambda>_ _ _ _ _ _. throw ''unsupported''), nb_localMove = (\<lambda>_ _ _ _ _. throw ''unsupported''),
     nb_localDelete = (\<lambda>_ _. throw ''unsupported''), nb_localPayload = (\<lambda>_ _ _. throw ''unsupported'')\<rparr>"

lemma demo_native_lawful: "lawful_native demo_native (\<lambda>rows. rows)"
proof -
  have "list_all2 returnedAs rows rows" for rows
    by (rule list_all2_refl) (metis NativeOp.surjective NativeOp.update_convs(10) returnedAs_def)
  then show ?thesis by (auto simp: lawful_native_def demo_native_def list_all_iff intro!: exI [of _ "sort_key rowLamport xs" for xs])
qed

definition demo_native_op :: "nat \<Rightarrow> int \<Rightarrow> Operation" where
  "demo_native_op n lamport = \<lparr>op_meta = \<lparr>om_id = \<lparr>oid_replica = replicate 32 1, oid_counter = int n\<rparr>, om_lamport = lamport,
     om_knownState = Some []\<rparr>, op_kind = OpDelete ROOT_NODE_ID_HEX\<rparr>"

theorem native_engine_is_log_witness:
  "\<exists>nodes log. en_appendMany (nativeEngine ''doc'' demo_native) [demo_native_op 1 5, demo_native_op 2 0, demo_native_op 1 9] [] = (Inr nodes, log)
     \<and> holds [demo_native_op 1 5, demo_native_op 2 0] log"
proof -
  let ?ops = "[demo_native_op 1 5, demo_native_op 2 0, demo_native_op 1 9]"
  obtain r w' where r: "en_appendMany (nativeEngine ''doc'' demo_native) ?ops [] = (r, w')" by (cases "en_appendMany (nativeEngine ''doc'' demo_native) ?ops []")
  have "canonical_node_id ROOT_NODE_ID_HEX" by (simp add: canonical_node_id_def ROOT_NODE_ID_HEX_def lower_hex_iff hex_codes_def)
  then have "list_all storable ?ops"
    by (simp add: storable_def demo_native_op_def normalizeNodeId_fixpoint MAX_SAFE_INTEGER_def)
  then obtain rows where rows: "mapR operationToNative ?ops = Inr rows" using mapR_native_ok [of ?ops] by (auto simp: is_ok_iff)
  have "is_ok (mapR nodeIdFromBytes16 (filter (\<lambda>n. length n = 16) ns))" for ns
    by (induction ns) (auto simp: nodeIdFromBytes16_def is_ok_iff)
  with r rows have ok: "is_ok r"
    by (auto simp: nativeEngine_def nativeAppendMany_def operationToNative_def [symmetric] pm_simps mapRes_def demo_native_def simp del: mapR.simps)
  with native_engine_is_log [OF demo_native_lawful _ r, of "[]"] have "holds (fold addOp ?ops []) w'" by (simp add: holds_def)
  moreover have "fold addOp ?ops [] = [demo_native_op 1 5, demo_native_op 2 0]" by (simp add: addOp_def opId_def demo_native_op_def)
  ultimately show ?thesis using r ok by (auto simp: is_ok_iff)
qed

end
