(* ===== verification/Sqlite_Adapter.thy ===== *)
theory Sqlite_Adapter
  imports Native_Engine
begin

text \<open>
  \<^verbatim>\<open>packages/treecrdt-ts/src/sqlite.ts\<close>: the adapter over the SQLite extension and the writer of local
  operations, and the client of \<^verbatim>\<open>packages/treecrdt-sqlite-node/src/index.ts\<close> over them.  The statements
  the source sends are the data type \<open>SqlCall\<close>; the connection that runs them is a parameter.
\<close>

section \<open>Statements\<close>

text \<open>The nine arguments of \<^verbatim>\<open>treecrdt_append_op\<close>; \<open>None\<close> is \<^verbatim>\<open>NULL\<close>.\<close>

record AppendArgs =
  aa_replica :: bytes
  aa_counter :: int
  aa_lamport :: int
  aa_kind :: string
  aa_parent :: "bytes option"
  aa_node :: "bytes option"
  aa_new_parent :: "bytes option"
  aa_order_key :: "bytes option"
  aa_known_state_or_payload :: "bytes option"

text \<open>An element of the JSON array \<^verbatim>\<open>treecrdt_append_ops\<close> takes; \<open>None\<close> is \<^verbatim>\<open>null\<close> or an absent field.\<close>

record AppendRow =
  ap_replica :: bytes
  ap_counter :: int
  ap_lamport :: int
  ap_kind :: string
  ap_parent :: "bytes option"
  ap_node :: bytes
  ap_new_parent :: "bytes option"
  ap_order_key :: "bytes option"
  ap_known_state :: "bytes option"
  ap_payload :: "bytes option"

datatype SqlCall =
    CallAppendOp AppendArgs
  | CallAppendOps "AppendRow list"
  | CallOpsSince int "bytes option"
  | CallSetDocId string
  | CallDocId
  | CallEnsureMaterialized
  | CallOpRefsAll
  | CallOpRefsChildren bytes
  | CallOpsByOpRefs "OpRef list"
  | CallTreeChildren bytes
  | CallTreeChildrenPage bytes "bytes option" "bytes option" int
  | CallTreeDump
  | CallTreeNodeCount bytes
  | CallTreeParent bytes
  | CallTreeExists bytes
  | CallTreePayload bytes
  | CallHeadLamport
  | CallReplicaMaxCounter bytes
  | CallLocalInsert bytes bytes bytes string "bytes option" "bytes option"
  | CallLocalMove bytes bytes bytes string "bytes option"
  | CallLocalDelete bytes bytes
  | CallLocalPayload bytes bytes "bytes option"

datatype TxCmd = TxBegin | TxCommit | TxRollback

text \<open>
  The text of the one value a statement returns, as it is read: JSON arrays of values, operation
  rows and tree rows (\<open>None\<close> inside: JSON that is not an array), an integer, or any other text.
\<close>

datatype SqlReply = ReplyVals "js_val list option" | ReplyOps "SqliteOpRow list option" | ReplyTree "RawTreeRow list option"
  | ReplyInt int | ReplyText string

record 'w ExtRunner =
  xr_exec :: "TxCmd \<Rightarrow> ('w, unit) pm"
  xr_getText :: "SqlCall \<Rightarrow> ('w, SqlReply option) pm"

text \<open>An absent or empty text counts as an empty array, and as the number 0.\<close>

definition emptyReply :: "SqlReply option \<Rightarrow> bool" where
  "emptyReply t \<longleftrightarrow> t = None \<or> t = Some (ReplyText [])"

definition getVals :: "'w ExtRunner \<Rightarrow> SqlCall \<Rightarrow> ('w, js_val list option) pm" where
  "getVals rn call = bnd (xr_getText rn call) (\<lambda>t. if emptyReply t then ret (Some [])
     else case t of Some (ReplyVals v) \<Rightarrow> ret v | _ \<Rightarrow> throw ''SyntaxError: invalid JSON'')"

definition getOps :: "'w ExtRunner \<Rightarrow> SqlCall \<Rightarrow> ('w, SqliteOpRow list option) pm" where
  "getOps rn call = bnd (xr_getText rn call) (\<lambda>t. if emptyReply t then ret (Some [])
     else case t of Some (ReplyOps v) \<Rightarrow> ret v | _ \<Rightarrow> throw ''SyntaxError: invalid JSON'')"

definition getTree :: "'w ExtRunner \<Rightarrow> SqlCall \<Rightarrow> ('w, RawTreeRow list option) pm" where
  "getTree rn call = bnd (xr_getText rn call) (\<lambda>t. if emptyReply t then ret (Some [])
     else case t of Some (ReplyTree v) \<Rightarrow> ret v | _ \<Rightarrow> throw ''SyntaxError: invalid JSON'')"

definition sqliteGetNumber :: "'w ExtRunner \<Rightarrow> SqlCall \<Rightarrow> ('w, int) pm" where
  "sqliteGetNumber rn call = bnd (xr_getText rn call) (\<lambda>t. if emptyReply t then ret 0
     else case t of Some (ReplyInt n) \<Rightarrow> ret n | _ \<Rightarrow> throw ''expected numeric result for query'')"

section \<open>Appending\<close>

definition appendArgs :: "Operation \<Rightarrow> bytes \<Rightarrow> string \<Rightarrow> bytes option \<Rightarrow> bytes \<Rightarrow> bytes option \<Rightarrow> bytes option \<Rightarrow> bytes option \<Rightarrow> AppendArgs" where
  "appendArgs oper replica kind parent node newParent orderKey lastArg = \<lparr>aa_replica = replica,
     aa_counter = oid_counter (om_id (op_meta oper)), aa_lamport = om_lamport (op_meta oper), aa_kind = kind, aa_parent = parent,
     aa_node = Some node, aa_new_parent = newParent, aa_order_key = orderKey, aa_known_state_or_payload = lastArg\<rparr>"

definition missingKnownState :: "Operation \<Rightarrow> bool" where
  "missingKnownState oper \<longleftrightarrow> (case om_knownState (op_meta oper) of None \<Rightarrow> True | Some ks \<Rightarrow> ks = [])"

fun isDeleteKind :: "OperationKind \<Rightarrow> bool" where
  "isDeleteKind (OpDelete _) = True" | "isDeleteKind _ = False"

definition deleteError :: error where
  "deleteError = ''treecrdt: delete operations require meta.knownState''"

definition buildAppendOp :: "(string \<Rightarrow> bytes res) \<Rightarrow> bytes \<Rightarrow> Operation \<Rightarrow> AppendArgs res" where
  "buildAppendOp ser replica oper = (case op_kind oper of
       OpInsert parent node orderKey payload \<Rightarrow> bindR (ser parent) (\<lambda>p. bindR (ser node) (\<lambda>n.
         Inr (appendArgs oper replica ''insert'' (Some p) n None (Some orderKey) payload)))
     | OpMove node newParent orderKey \<Rightarrow> bindR (ser node) (\<lambda>n. bindR (ser newParent) (\<lambda>p.
         Inr (appendArgs oper replica ''move'' None n (Some p) (Some orderKey) None)))
     | OpDelete node \<Rightarrow> if missingKnownState oper then Inl deleteError else bindR (ser node) (\<lambda>n.
         Inr (appendArgs oper replica ''delete'' None n None None (om_knownState (op_meta oper))))
     | OpTombstone node \<Rightarrow> bindR (ser node) (\<lambda>n.
         Inr (appendArgs oper replica ''tombstone'' None n None None (om_knownState (op_meta oper))))
     | OpPayload node payload \<Rightarrow> bindR (ser node) (\<lambda>n. Inr (appendArgs oper replica ''payload'' None n None None payload)))"

definition treecrdtAppendOp :: "'w ExtRunner \<Rightarrow> Operation \<Rightarrow> (string \<Rightarrow> bytes res) \<Rightarrow> (bytes \<Rightarrow> bytes res) \<Rightarrow> ('w, unit) pm" where
  "treecrdtAppendOp rn oper ser serReplica = (if isDeleteKind (op_kind oper) \<and> missingKnownState oper then throw deleteError
     else bnd (liftR (serReplica (oid_replica (om_id (op_meta oper))))) (\<lambda>replica.
       bnd (liftR (buildAppendOp ser replica oper)) (\<lambda>args. bnd (xr_getText rn (CallAppendOp args)) (\<lambda>_. ret ()))))"

definition baseRow :: "Operation \<Rightarrow> bytes \<Rightarrow> string \<Rightarrow> bytes option \<Rightarrow> bytes \<Rightarrow> bytes option \<Rightarrow> bytes option \<Rightarrow> bytes option \<Rightarrow> AppendRow" where
  "baseRow oper replica kind parent node newParent orderKey payload = \<lparr>ap_replica = replica,
     ap_counter = oid_counter (om_id (op_meta oper)), ap_lamport = om_lamport (op_meta oper), ap_kind = kind, ap_parent = parent,
     ap_node = node, ap_new_parent = newParent, ap_order_key = orderKey,
     ap_known_state = (if missingKnownState oper then None else om_knownState (op_meta oper)), ap_payload = payload\<rparr>"

definition appendRow :: "(string \<Rightarrow> bytes res) \<Rightarrow> (bytes \<Rightarrow> bytes res) \<Rightarrow> Operation \<Rightarrow> AppendRow res" where
  "appendRow ser serReplica oper = bindR (serReplica (oid_replica (om_id (op_meta oper)))) (\<lambda>replica. case op_kind oper of
       OpInsert parent node orderKey payload \<Rightarrow> bindR (ser parent) (\<lambda>p. bindR (ser node) (\<lambda>n.
         Inr (baseRow oper replica ''insert'' (Some p) n None (Some orderKey) payload)))
     | OpMove node newParent orderKey \<Rightarrow> bindR (ser node) (\<lambda>n. bindR (ser newParent) (\<lambda>p.
         Inr (baseRow oper replica ''move'' None n (Some p) (Some orderKey) None)))
     | OpDelete node \<Rightarrow> bindR (ser node) (\<lambda>n. Inr (baseRow oper replica ''delete'' None n None None None))
     | OpTombstone node \<Rightarrow> bindR (ser node) (\<lambda>n. Inr (baseRow oper replica ''tombstone'' None n None None None))
     | OpPayload node payload \<Rightarrow> bindR (ser node) (\<lambda>n. Inr (baseRow oper replica ''payload'' None n None None payload)))"

definition buildAppendOpsPayload :: "Operation list \<Rightarrow> (string \<Rightarrow> bytes res) \<Rightarrow> (bytes \<Rightarrow> bytes res) \<Rightarrow> AppendRow list res" where
  "buildAppendOpsPayload ops ser serReplica = mapR (appendRow ser serReplica) ops"

definition mergeAffected :: "bytes list \<Rightarrow> (string, bytes) jsmap \<Rightarrow> (string, bytes) jsmap" where
  "mergeAffected nodes into = fold (\<lambda>node m. if js_has m (bytesToHex node) then m else js_set (bytesToHex node) node m) nodes into"

definition bulkAppend :: "'w ExtRunner \<Rightarrow> AppendRow list \<Rightarrow> ('w, bytes list) pm" where
  "bulkAppend rn rows = bnd (getVals rn (CallAppendOps rows)) (\<lambda>raw. liftR (decodeSqliteOpRefs raw))"

text \<open>
  The loop over the chunks: the affected nodes so far, and the operations from the first chunk on
  that the bulk entry point rejected.  Building the payload is outside the \<^verbatim>\<open>try\<close>.
\<close>

fun bulkLoop :: "'w ExtRunner \<Rightarrow> (string \<Rightarrow> bytes res) \<Rightarrow> (bytes \<Rightarrow> bytes res) \<Rightarrow> Operation list list \<Rightarrow> (string, bytes) jsmap
    \<Rightarrow> ('w, (string, bytes) jsmap \<times> Operation list option) pm" where
  "bulkLoop rn ser serReplica [] affected = ret (affected, None)"
| "bulkLoop rn ser serReplica (chunk # later) affected =
     bnd (liftR (buildAppendOpsPayload chunk ser serReplica)) (\<lambda>rows.
     bnd (tryM (bulkAppend rn rows)) (\<lambda>res. case res of
       Inl _ \<Rightarrow> ret (affected, Some (chunk @ concat later))
     | Inr nodes \<Rightarrow> bulkLoop rn ser serReplica later (mergeAffected nodes affected)))"

definition appendEach :: "'w ExtRunner \<Rightarrow> (string \<Rightarrow> bytes res) \<Rightarrow> (bytes \<Rightarrow> bytes res) \<Rightarrow> Operation list \<Rightarrow> (string, bytes) jsmap
    \<Rightarrow> ('w, (string, bytes) jsmap) pm" where
  "appendEach rn ser serReplica = fold_m (\<lambda>oper affected.
     bnd (liftR (buildAppendOpsPayload [oper] ser serReplica)) (\<lambda>rows.
     bnd (bulkAppend rn rows) (\<lambda>nodes. ret (mergeAffected nodes affected))))"

definition appendFallback :: "'w ExtRunner \<Rightarrow> (string \<Rightarrow> bytes res) \<Rightarrow> (bytes \<Rightarrow> bytes res) \<Rightarrow> Operation list \<Rightarrow> (string, bytes) jsmap
    \<Rightarrow> ('w, (string, bytes) jsmap) pm" where
  "appendFallback rn ser serReplica remaining affected =
     sq (xr_exec rn TxBegin)
     (catch (bnd (appendEach rn ser serReplica remaining affected) (\<lambda>m. sq (xr_exec rn TxCommit) (ret m)))
       (\<lambda>err. sq (xr_exec rn TxRollback) (throw err)))"

definition treecrdtAppendOps :: "'w ExtRunner \<Rightarrow> nat option \<Rightarrow> Operation list \<Rightarrow> (string \<Rightarrow> bytes res) \<Rightarrow> (bytes \<Rightarrow> bytes res) \<Rightarrow> ('w, bytes list) pm" where
  "treecrdtAppendOps rn maxBulk ops ser serReplica = (if ops = [] then ret []
     else let maxBulkOps = (case maxBulk of None \<Rightarrow> 5000 | Some n \<Rightarrow> n) in
       if \<exists>oper \<in> set ops. isDeleteKind (op_kind oper) \<and> missingKnownState oper then throw deleteError
       else bnd (bulkLoop rn ser serReplica (chunks maxBulkOps ops) []) (\<lambda>(affected, rejected). case rejected of
           None \<Rightarrow> ret (map snd affected)
         | Some remaining \<Rightarrow> bnd (appendFallback rn ser serReplica remaining affected) (\<lambda>m. ret (map snd m))))"

section \<open>The adapter\<close>

definition buildOpsSince :: "int \<Rightarrow> string option \<Rightarrow> (string \<Rightarrow> bytes res) \<Rightarrow> SqlCall res" where
  "buildOpsSince lamport rootId ser = (case rootId of None \<Rightarrow> Inr (CallOpsSince lamport None)
     | Some r \<Rightarrow> bindR (ser r) (\<lambda>bs. Inr (CallOpsSince lamport (Some bs))))"

definition treecrdtOpsSince :: "'w ExtRunner \<Rightarrow> int \<Rightarrow> string option \<Rightarrow> ('w, SqliteOpRow list option) pm" where
  "treecrdtOpsSince rn lamport rootId = bnd (liftR (buildOpsSince lamport rootId nodeIdToBytes16)) (getOps rn)"

definition ensureMaterialized :: "'w ExtRunner \<Rightarrow> ('w, 'a) pm \<Rightarrow> ('w, 'a) pm" where
  "ensureMaterialized rn m = bnd (xr_getText rn CallEnsureMaterialized) (\<lambda>_. m)"

definition treecrdtDocId :: "'w ExtRunner \<Rightarrow> ('w, string option) pm" where
  "treecrdtDocId rn = bnd (xr_getText rn CallDocId) (\<lambda>t. case t of None \<Rightarrow> ret None | Some (ReplyText s) \<Rightarrow> ret (Some s)
     | _ \<Rightarrow> throw ''not a text'')"

definition treecrdtTreeChildrenPage :: "'w ExtRunner \<Rightarrow> bytes \<Rightarrow> (bytes \<times> bytes) option \<Rightarrow> int \<Rightarrow> ('w, RawTreeRow list option) pm" where
  "treecrdtTreeChildrenPage rn parent cursor limit = ensureMaterialized rn
     (getTree rn (CallTreeChildrenPage parent (map_option fst cursor) (map_option snd cursor) limit))"

definition ROOT_NODE_BYTES :: bytes where
  "ROOT_NODE_BYTES = hex_pairs ROOT_NODE_ID_HEX"

definition hexReply :: "SqlReply option \<Rightarrow> bytes option res" where
  "hexReply t = (if emptyReply t then Inr None
     else case t of Some (ReplyText hex) \<Rightarrow> bindR (hexToBytes hex) (\<lambda>bs. Inr (Some bs)) | _ \<Rightarrow> Inl ''invalid hex'')"

definition treecrdtTreeParent :: "'w ExtRunner \<Rightarrow> bytes \<Rightarrow> ('w, bytes option) pm" where
  "treecrdtTreeParent rn node = ensureMaterialized rn (bnd (xr_getText rn (CallTreeParent node)) (\<lambda>t. liftR (hexReply t)))"

definition treecrdtTreeExists :: "'w ExtRunner \<Rightarrow> bytes \<Rightarrow> ('w, bool) pm" where
  "treecrdtTreeExists rn node = ensureMaterialized rn (bnd (xr_getText rn (CallTreeExists node)) (\<lambda>t. ret (t \<noteq> None)))"

definition treecrdtTreePayload :: "'w ExtRunner \<Rightarrow> bytes \<Rightarrow> ('w, bytes option) pm" where
  "treecrdtTreePayload rn node = ensureMaterialized rn (bnd (xr_getText rn (CallTreePayload node)) (\<lambda>t. liftR (hexReply t)))"

definition createTreecrdtSqliteAdapter :: "'w ExtRunner \<Rightarrow> nat option \<Rightarrow> 'w TreecrdtAdapter" where
  "createTreecrdtSqliteAdapter rn maxBulk = \<lparr>ad_setDocId = (\<lambda>docId. bnd (xr_getText rn (CallSetDocId docId)) (\<lambda>_. ret ())),
     ad_docId = treecrdtDocId rn,
     ad_opRefsAll = ensureMaterialized rn (getVals rn CallOpRefsAll),
     ad_opRefsChildren = (\<lambda>parent. ensureMaterialized rn (getVals rn (CallOpRefsChildren parent))),
     ad_opsByOpRefs = (\<lambda>opRefs. getOps rn (CallOpsByOpRefs opRefs)),
     ad_treeChildren = (\<lambda>parent. ensureMaterialized rn (getVals rn (CallTreeChildren parent))),
     ad_treeChildrenPage = Some (treecrdtTreeChildrenPage rn),
     ad_treeDump = ensureMaterialized rn (getTree rn CallTreeDump),
     ad_treeNodeCount = ensureMaterialized rn (sqliteGetNumber rn (CallTreeNodeCount ROOT_NODE_BYTES)),
     ad_treeParent = treecrdtTreeParent rn,
     ad_treeExists = treecrdtTreeExists rn,
     ad_treePayload = treecrdtTreePayload rn,
     ad_headLamport = sqliteGetNumber rn CallHeadLamport,
     ad_replicaMaxCounter = (\<lambda>replica. sqliteGetNumber rn (CallReplicaMaxCounter replica)),
     ad_appendOp = treecrdtAppendOp rn,
     ad_appendOps = Some (treecrdtAppendOps rn maxBulk),
     ad_opsSince = treecrdtOpsSince rn\<rparr>"

section \<open>The writer\<close>

definition getLocalOp :: "'w ExtRunner \<Rightarrow> SqlCall \<Rightarrow> ('w, Operation) pm" where
  "getLocalOp rn call = bnd (xr_getText rn call) (\<lambda>t. if emptyReply t then throw ''expected JSON result for query''
     else case t of Some (ReplyOps raw) \<Rightarrow> bnd (liftR (decodeSqliteOps raw)) (\<lambda>ops. case ops of
         [oper] \<Rightarrow> ret oper | _ \<Rightarrow> throw ''expected exactly 1 op from query'')
       | _ \<Rightarrow> throw ''SyntaxError: invalid JSON'')"

record 'w TreecrdtSqliteWriter =
  wr_insert :: "string \<Rightarrow> string \<Rightarrow> TreecrdtSqlitePlacement \<Rightarrow> bytes option \<Rightarrow> ('w, Operation) pm"
  wr_move :: "string \<Rightarrow> string \<Rightarrow> TreecrdtSqlitePlacement \<Rightarrow> ('w, Operation) pm"
  wr_delete :: "string \<Rightarrow> ('w, Operation) pm"
  wr_payload :: "string \<Rightarrow> bytes option \<Rightarrow> ('w, Operation) pm"

definition createTreecrdtSqliteWriter :: "'w ExtRunner \<Rightarrow> ReplicaId \<Rightarrow> 'w TreecrdtSqliteWriter res" where
  "createTreecrdtSqliteWriter rn replica = bindR (replicaIdToBytes replica) (\<lambda>r. Inr
     \<lparr>wr_insert = (\<lambda>parent node placement payload. bnd (liftR (placementToArgs placement)) (\<lambda>(type, afterNode).
        withNode parent (\<lambda>p. withNode node (\<lambda>n. getLocalOp rn (CallLocalInsert r p n type afterNode payload))))),
      wr_move = (\<lambda>node newParent placement. bnd (liftR (placementToArgs placement)) (\<lambda>(type, afterNode).
        withNode node (\<lambda>n. withNode newParent (\<lambda>p. getLocalOp rn (CallLocalMove r n p type afterNode))))),
      wr_delete = (\<lambda>node. withNode node (\<lambda>n. getLocalOp rn (CallLocalDelete r n))),
      wr_payload = (\<lambda>node next. withNode node (\<lambda>n. getLocalOp rn (CallLocalPayload r n next)))\<rparr>)"

section \<open>The client\<close>

text \<open>The closure variable \<^verbatim>\<open>localWriters\<close>: a writer is determined by its replica.\<close>

record 'w ClientState =
  cs_world :: 'w
  cs_localWriters :: "(string, ReplicaId) jsmap"

definition inClient :: "('w, 'a) pm \<Rightarrow> ('w ClientState, 'a) pm" where
  "inClient m = (\<lambda>s. case m (cs_world s) of (r, w') \<Rightarrow> (r, s\<lparr>cs_world := w'\<rparr>))"

definition localWriterFor :: "'w ExtRunner \<Rightarrow> ReplicaId \<Rightarrow> ('w ClientState, 'w TreecrdtSqliteWriter) pm" where
  "localWriterFor rn replica = bnd (gets (\<lambda>s. js_get (cs_localWriters s) (bytesToHex replica))) (\<lambda>existing. case existing of
       Some owner \<Rightarrow> liftR (createTreecrdtSqliteWriter rn owner)
     | None \<Rightarrow> bnd (liftR (createTreecrdtSqliteWriter rn replica)) (\<lambda>writer.
         sq (modify (\<lambda>s. s\<lparr>cs_localWriters := js_set (bytesToHex replica) replica (cs_localWriters s)\<rparr>)) (ret writer)))"

definition sqliteOpsSince :: "'w TreecrdtAdapter \<Rightarrow> int \<Rightarrow> string option \<Rightarrow> ('w, Operation list) pm" where
  "sqliteOpsSince ad lamport rootId = bnd (ad_opsSince ad lamport rootId) (\<lambda>raw. liftR (decodeSqliteOps raw))"

definition sqliteOpsByOpRefs :: "'w TreecrdtAdapter \<Rightarrow> OpRef list \<Rightarrow> ('w, Operation list) pm" where
  "sqliteOpsByOpRefs ad opRefs = bnd (ad_opsByOpRefs ad opRefs) (\<lambda>raw. liftR (decodeSqliteOps raw))"

definition sqliteOpRefsChildren :: "'w TreecrdtAdapter \<Rightarrow> string \<Rightarrow> ('w, OpRef list) pm" where
  "sqliteOpRefsChildren ad parent = withNode parent (\<lambda>p. bnd (ad_opRefsChildren ad p) (\<lambda>raw. liftR (decodeSqliteOpRefs raw)))"

text \<open>\<^verbatim>\<open>createTreecrdtSqliteAdapter\<close> provides the two optional operations, which the client calls with \<^verbatim>\<open>!\<close>.\<close>

definition sqliteAppendMany :: "'w TreecrdtAdapter \<Rightarrow> Operation list \<Rightarrow> ('w, string list) pm" where
  "sqliteAppendMany ad ops = (case ad_appendOps ad of None \<Rightarrow> throw ''TypeError: not a function''
     | Some appendOps \<Rightarrow> mapRes nodeIdFromBytes16 (appendOps ops nodeIdToBytes16 replicaIdToBytes))"

definition sqliteChildrenPage :: "'w TreecrdtAdapter \<Rightarrow> string \<Rightarrow> (bytes \<times> bytes) option \<Rightarrow> int \<Rightarrow> ('w, SqliteTreeChildRow list) pm" where
  "sqliteChildrenPage ad parent cursor limit = withNode parent (\<lambda>p. case ad_treeChildrenPage ad of None \<Rightarrow> throw ''TypeError: not a function''
     | Some page \<Rightarrow> bnd (page p cursor limit) (\<lambda>raw. liftR (decodeSqliteTreeChildRows raw)))"

definition sqliteEngine :: "'w ExtRunner \<Rightarrow> 'w TreecrdtAdapter \<Rightarrow> string \<Rightarrow> 'w ClientState TreecrdtEngine" where
  "sqliteEngine rn ad docId = \<lparr>en_mode = ''node'', en_storage = ''sqlite'', en_docId = docId,
     en_append = (\<lambda>oper. inClient (ad_appendOp ad oper nodeIdToBytes16 replicaIdToBytes)),
     en_appendMany = (\<lambda>ops. inClient (sqliteAppendMany ad ops)),
     en_all = inClient (sqliteOpsSince ad 0 None),
     en_since = (\<lambda>lamport rootId. inClient (sqliteOpsSince ad lamport rootId)),
     en_opsChildren = (\<lambda>parent. inClient (bnd (sqliteOpRefsChildren ad parent) (sqliteOpsByOpRefs ad))),
     en_get = (\<lambda>opRefs. inClient (sqliteOpsByOpRefs ad opRefs)),
     en_opRefsAll = inClient (bnd (ad_opRefsAll ad) (\<lambda>raw. liftR (decodeSqliteOpRefs raw))),
     en_opRefsChildren = (\<lambda>parent. inClient (sqliteOpRefsChildren ad parent)),
     en_children = (\<lambda>parent. inClient (withNode parent (\<lambda>p. bnd (ad_treeChildren ad p) (\<lambda>raw. ret (decodeSqliteNodeIds raw))))),
     en_childrenPage = (\<lambda>parent cursor limit. inClient (sqliteChildrenPage ad parent cursor limit)),
     en_dump = inClient (bnd (ad_treeDump ad) (\<lambda>raw. liftR (decodeSqliteTreeRows raw))),
     en_nodeCount = inClient (ad_treeNodeCount ad),
     en_parent = (\<lambda>node. inClient (withNode node (\<lambda>n. bnd (ad_treeParent ad n) (\<lambda>v. liftR (optNode v))))),
     en_exists = (\<lambda>node. inClient (withNode node (ad_treeExists ad))),
     en_getPayload = (\<lambda>node. inClient (withNode node (ad_treePayload ad))),
     en_headLamport = inClient (ad_headLamport ad),
     en_replicaMaxCounter = (\<lambda>replica. inClient (bnd (liftR (replicaIdToBytes replica)) (ad_replicaMaxCounter ad))),
     en_localInsert = (\<lambda>replica parent node placement payload. bnd (localWriterFor rn replica) (\<lambda>wr. inClient (wr_insert wr parent node placement payload))),
     en_localMove = (\<lambda>replica node newParent placement. bnd (localWriterFor rn replica) (\<lambda>wr. inClient (wr_move wr node newParent placement))),
     en_localDelete = (\<lambda>replica node. bnd (localWriterFor rn replica) (\<lambda>wr. inClient (wr_delete wr node))),
     en_localPayload = (\<lambda>replica node payload. bnd (localWriterFor rn replica) (\<lambda>wr. inClient (wr_payload wr node payload)))\<rparr>"

definition createTreecrdtClient :: "'w ExtRunner \<Rightarrow> string option \<Rightarrow> nat option \<Rightarrow> ('w, 'w ClientState TreecrdtEngine) pm" where
  "createTreecrdtClient rn docIdOpt maxBulk =
     (let ad = createTreecrdtSqliteAdapter rn maxBulk; docId = (case docIdOpt of None \<Rightarrow> ''treecrdt'' | Some d \<Rightarrow> d) in
      sq (ad_setDocId ad docId) (ret (sqliteEngine rn ad docId)))"

end
