(* ===== verification/Sqlite_Append.thy ===== *)
theory Sqlite_Append
  imports Sqlite_Adapter
begin

text \<open>
  What the extension makes of the adapter's statements, and what follows for appending.
  \<open>readAppendArgs\<close> is \<^verbatim>\<open>treecrdt_append_op\<close> and \<open>rowJson\<close> is \<^verbatim>\<open>read_row\<close> of
  \<^verbatim>\<open>packages/treecrdt-sqlite-ext/src/extension/functions\<close> (a zero-length blob comes as a null pointer).
  \<open>lawful_ext\<close> says how a connection runs statements: each of them may fail, and a failure leaves
  the log of operations as it was or rolls the open transaction back.
\<close>

section \<open>The extension\<close>

fun readBlob :: "bytes option \<Rightarrow> bytes option" where
  "readBlob (Some bs) = (if bs = [] then None else Some bs)"
| "readBlob None = None"

definition readAppendArgs :: "AppendArgs \<Rightarrow> AppendRow res" where
  "readAppendArgs a = (let kind = aa_kind a; lastArg = readBlob (aa_known_state_or_payload a);
       carriesPayload = (kind = ''payload'' \<or> kind = ''insert'') in
     if aa_replica a = [] then Inl ''treecrdt_append_op: NULL replica''
     else if aa_counter a < 0 then Inl ''treecrdt_append_op: counter must be >= 0''
     else case readBlob (aa_node a) of None \<Rightarrow> Inl ''treecrdt_append_op: NULL node''
     | Some node \<Rightarrow>
         if kind = ''delete'' \<and> lastArg = None then Inl ''treecrdt_append_op: delete op missing known_state''
         else if kind = ''delete'' \<and> length node \<noteq> 16 then Inl ''treecrdt_append_op: delete node must be 16-byte BLOB''
         else if (kind = ''insert'' \<or> kind = ''move'') \<and> readBlob (aa_order_key a) = None
         then Inl ''treecrdt_append_op: insert/move op missing order_key''
         else Inr \<lparr>ap_replica = aa_replica a, ap_counter = aa_counter a, ap_lamport = max 0 (aa_lamport a), ap_kind = kind,
           ap_parent = readBlob (aa_parent a), ap_node = node, ap_new_parent = readBlob (aa_new_parent a),
           ap_order_key = readBlob (aa_order_key a), ap_known_state = (if carriesPayload then None else lastArg),
           ap_payload = (if carriesPayload then lastArg else None)\<rparr>)"

definition jsonBytes :: "bytes \<Rightarrow> js_val" where
  "jsonBytes bs = JArray (map uint bs)"

definition jsonBlob :: "bytes option \<Rightarrow> js_val" where
  "jsonBlob v = (case readBlob v of None \<Rightarrow> JNull | Some bs \<Rightarrow> jsonBytes bs)"

definition rowJson :: "AppendRow \<Rightarrow> SqliteOpRow" where
  "rowJson row = \<lparr>sr_lamport = JsNumber (ap_lamport row), sr_replica = jsonBytes (ap_replica row), sr_counter = JsNumber (ap_counter row),
     sr_kind = ap_kind row, sr_parent = jsonBlob (ap_parent row), sr_node = jsonBytes (ap_node row),
     sr_new_parent = jsonBlob (ap_new_parent row), sr_order_key = jsonBlob (ap_order_key row), sr_payload = jsonBlob (ap_payload row),
     sr_known_state = jsonBlob (ap_known_state row)\<rparr>"

lemma uint8_json [simp]: "uint8array_from (map uint bs) = bs"
  by (simp add: uint8array_from_def comp_def)

lemma jsonBlob_simps [simp]:
  "jsonBlob None = JNull" "bs \<noteq> [] \<Longrightarrow> jsonBlob (Some bs) = jsonBytes bs" "jsonBlob (Some []) = JNull"
  by (simp_all add: jsonBlob_def)

section \<open>One operation, two ways\<close>

definition appendOpArgs :: "Operation \<Rightarrow> AppendArgs res" where
  "appendOpArgs oper = bindR (replicaIdToBytes (oid_replica (om_id (op_meta oper)))) (\<lambda>replica. buildAppendOp nodeIdToBytes16 replica oper)"

text \<open>
  The operations both ways store alike: no empty order key or payload, and no known state on a
  kind whose last argument does not carry it.
\<close>

definition same_both_ways :: "Operation \<Rightarrow> bool" where
  "same_both_ways oper \<longleftrightarrow> (case op_kind oper of
       OpInsert _ _ orderKey payload \<Rightarrow> orderKey \<noteq> [] \<and> payload \<noteq> Some [] \<and> missingKnownState oper
     | OpMove _ _ orderKey \<Rightarrow> orderKey \<noteq> [] \<and> missingKnownState oper
     | OpPayload _ payload \<Rightarrow> payload \<noteq> Some [] \<and> missingKnownState oper
     | _ \<Rightarrow> True)"

lemma bytes16_nonempty: "nodeIdToBytes16 s = Inr bs \<Longrightarrow> bs \<noteq> [] \<and> length bs = 16"
  using nodeIdToBytes16_length [of s bs] by auto

lemma readBlob_node: "nodeIdToBytes16 s = Inr bs \<Longrightarrow> readBlob (Some bs) = Some bs"
  using bytes16_nonempty [of s bs] by simp

lemma readBlob_knownState: "readBlob (om_knownState (op_meta oper)) = (if missingKnownState oper then None else om_knownState (op_meta oper))"
  by (cases "om_knownState (op_meta oper)") (simp_all add: missingKnownState_def)

lemma readBlob_eq: "readBlob v = v \<longleftrightarrow> v \<noteq> Some []" "readBlob v = None \<longleftrightarrow> v = None \<or> v = Some []"
  by (cases v; simp)+

lemma both_ways_kind:
  assumes "0 \<le> oid_counter (om_id (op_meta oper))" "0 \<le> om_lamport (op_meta oper)" "length (oid_replica (om_id (op_meta oper))) = 32"
    and "\<not> (isDeleteKind (op_kind oper) \<and> missingKnownState oper)"
  shows "case appendOpArgs oper of
      Inl e \<Rightarrow> appendRow nodeIdToBytes16 replicaIdToBytes oper = Inl e
    | Inr args \<Rightarrow> \<exists>row. appendRow nodeIdToBytes16 replicaIdToBytes oper = Inr row \<and> (readAppendArgs args = Inr row \<longleftrightarrow> same_both_ways oper)"
proof -
  let ?r = "oid_replica (om_id (op_meta oper))"
  have r: "replicaIdToBytes ?r = Inr ?r" "?r \<noteq> []" using assms(3) by auto
  have ks: "None = om_knownState (op_meta oper) \<Longrightarrow> missingKnownState oper" by (simp add: missingKnownState_def)
  note defs = appendOpArgs_def buildAppendOp_def appendRow_def r appendArgs_def baseRow_def readAppendArgs_def Let_def
    same_both_ways_def readBlob_eq readBlob_knownState
  show ?thesis
  proof (cases "op_kind oper")
    case (OpInsert p n ok pl)
    show ?thesis
    proof (cases "nodeIdToBytes16 p"; cases "nodeIdToBytes16 n")
      fix pb nb assume b: "nodeIdToBytes16 p = Inr pb" "nodeIdToBytes16 n = Inr nb"
      then show ?thesis using OpInsert assms(1,2) readBlob_node [OF b(1)] readBlob_node [OF b(2)]
        by (auto simp: defs dest: ks)
    qed (use OpInsert in \<open>simp_all add: defs\<close>)
  next
    case (OpMove n p ok)
    show ?thesis
    proof (cases "nodeIdToBytes16 p"; cases "nodeIdToBytes16 n")
      fix pb nb assume b: "nodeIdToBytes16 p = Inr pb" "nodeIdToBytes16 n = Inr nb"
      then show ?thesis using OpMove assms(1,2) readBlob_node [OF b(1)] readBlob_node [OF b(2)]
        by (auto simp: defs dest: ks)
    qed (use OpMove in \<open>simp_all add: defs\<close>)
  next
    case (OpDelete n)
    show ?thesis
    proof (cases "nodeIdToBytes16 n")
      case (Inr nb)
      with OpDelete assms(1,2,4) readBlob_node [OF Inr] bytes16_nonempty [OF Inr] show ?thesis
        by (cases "om_knownState (op_meta oper)") (auto simp: defs, simp_all add: missingKnownState_def)
    qed (use OpDelete assms(4) in \<open>simp add: defs\<close>)
  next
    case (OpTombstone n)
    show ?thesis
    proof (cases "nodeIdToBytes16 n")
      case (Inr nb)
      with OpTombstone assms(1,2) readBlob_node [OF Inr] show ?thesis by (auto simp: defs)
    qed (use OpTombstone in \<open>simp add: defs\<close>)
  next
    case (OpPayload n pl)
    show ?thesis
    proof (cases "nodeIdToBytes16 n")
      case (Inr nb)
      with OpPayload assms(1,2) readBlob_node [OF Inr] show ?thesis by (auto simp: defs dest: ks)
    qed (use OpPayload in \<open>simp add: defs\<close>)
  qed
qed

section \<open>What is read back\<close>

text \<open>An operation as it comes back from the log: empty known states and payloads are gone.\<close>

definition sqliteForm :: "Operation \<Rightarrow> Operation" where
  "sqliteForm oper = withKnownState (if missingKnownState oper then None else om_knownState (op_meta oper))
     (oper\<lparr>op_kind := (case normalizeKind (op_kind oper) of
        Inr (OpInsert p n orderKey payload) \<Rightarrow> OpInsert p n orderKey (readBlob payload)
      | Inr (OpPayload n payload) \<Rightarrow> OpPayload n (readBlob payload)
      | Inr k \<Rightarrow> k | Inl _ \<Rightarrow> op_kind oper)\<rparr>)"

fun emptyOrderKey :: "OperationKind \<Rightarrow> bool" where
  "emptyOrderKey (OpInsert _ _ orderKey _) = (orderKey = [])"
| "emptyOrderKey (OpMove _ _ orderKey) = (orderKey = [])"
| "emptyOrderKey _ = False"

lemma uint8_jsonBytes [simp]: "uint8From (jsonBytes bs) = Inr bs"
  by (simp add: jsonBytes_def)

lemma decode_blob [simp]:
  "optionalBytes (jsonBlob v) = Inr (readBlob v)"
  "jsTruthy (jsonBlob v) \<longleftrightarrow> readBlob v \<noteq> None"
  "absent (jsonBlob v) \<longleftrightarrow> readBlob v = None"
  by (cases v; cases "readBlob v"; simp add: jsonBlob_def jsonBytes_def optionalBytes_def)+

lemma decode_blob_value: "readBlob v = Some bs \<Longrightarrow> uint8From (jsonBlob v) = Inr bs"
  by (simp add: jsonBlob_def jsonBytes_def)

lemma decode_node: "length bs = 16 \<Longrightarrow> decodeNodeId (jsonBlob (Some bs)) = bytesToHex bs" "decodeNodeId (jsonBytes bs) = bytesToHex bs"
  by (auto simp: jsonBlob_def jsonBytes_def)

lemma stored_row_reads:
  assumes "appendRow nodeIdToBytes16 replicaIdToBytes oper = Inr row"
  shows "is_ok (decodeSqliteOp (rowJson row)) \<longleftrightarrow> \<not> emptyOrderKey (op_kind oper)"
    and "\<not> emptyOrderKey (op_kind oper) \<Longrightarrow> decodeSqliteOp (rowJson row) = Inr (sqliteForm oper)"
proof -
  have hex: "normalizeNodeId s = Inr (bytesToHex bs)" "length bs = 16" if "nodeIdToBytes16 s = Inr bs" for s bs
    using nodeIdToBytes16_hex [OF that] by blast+
  let ?ks = "if missingKnownState oper then None else om_knownState (op_meta oper)"
  have ks: "(if jsTruthy (jsonBlob ?ks) then bindR (uint8From (jsonBlob ?ks)) (\<lambda>bs. Inr (Some bs)) else Inr None) = Inr ?ks"
    by (cases "om_knownState (op_meta oper)") (auto simp: missingKnownState_def jsonBytes_def)
  from assms have rep: "length (oid_replica (om_id (op_meta oper))) = 32" by (auto simp: appendRow_def bindR_eq_Inr)
  have core: "case normalizeKind (op_kind oper) of Inl _ \<Rightarrow> False | Inr k \<Rightarrow>
      decodeSqliteKind (rowJson row) = (case k of
        OpInsert p n orderKey payload \<Rightarrow> if orderKey = [] then Inl ''missing order_key for insert op from sqlite''
          else Inr (OpInsert p n orderKey (readBlob payload))
      | OpMove n p orderKey \<Rightarrow> if orderKey = [] then Inl ''missing order_key for move op from sqlite'' else Inr k
      | OpPayload n payload \<Rightarrow> Inr (OpPayload n (readBlob payload)) | _ \<Rightarrow> Inr k)"
    using assms rep by (cases "op_kind oper")
      (auto simp: appendRow_def bindR_eq_Inr hex decodeSqliteKind_def rowJson_def baseRow_def requiredOrderKey_def decode_node
        decode_blob_value)
  have meta: "sr_replica (rowJson row) = jsonBytes (oid_replica (om_id (op_meta oper)))"
    "sr_lamport (rowJson row) = JsNumber (om_lamport (op_meta oper))" "sr_counter (rowJson row) = JsNumber (oid_counter (om_id (op_meta oper)))"
    "sr_known_state (rowJson row) = jsonBlob ?ks"
    using assms rep by (cases "op_kind oper"; auto simp: appendRow_def bindR_eq_Inr rowJson_def baseRow_def)+
  have dec: "decodeSqliteOp (rowJson row) = bindR (decodeSqliteKind (rowJson row)) (\<lambda>kind.
      Inr \<lparr>op_meta = \<lparr>om_id = \<lparr>oid_replica = oid_replica (om_id (op_meta oper)), oid_counter = oid_counter (om_id (op_meta oper))\<rparr>,
        om_lamport = om_lamport (op_meta oper), om_knownState = ?ks\<rparr>, op_kind = kind\<rparr>)"
    unfolding decodeSqliteOp_def meta ks using rep
    by (simp add: jsonBytes_def assertReplicaIdBytes_def ED25519_PUBLIC_KEY_LEN_def)
  have shape: "emptyOrderKey (op_kind oper) = (case normalizeKind (op_kind oper) of Inr k \<Rightarrow> emptyOrderKey k | Inl _ \<Rightarrow> False)"
    if "normalizeKind (op_kind oper) = Inr k" for k using that by (cases "op_kind oper") (auto simp: bindR_eq_Inr)
  show "is_ok (decodeSqliteOp (rowJson row)) \<longleftrightarrow> \<not> emptyOrderKey (op_kind oper)"
    using core shape unfolding dec by (auto split: sum.splits OperationKind.splits)
  show "decodeSqliteOp (rowJson row) = Inr (sqliteForm oper)" if "\<not> emptyOrderKey (op_kind oper)"
    using core shape that unfolding dec sqliteForm_def withKnownState_def
    by (auto split: sum.splits OperationKind.splits)
qed

section \<open>The log of a connection\<close>

definition appendKey :: "AppendRow \<Rightarrow> bytes \<times> int" where
  "appendKey row = (ap_replica row, ap_counter row)"

text \<open>\<^verbatim>\<open>INSERT OR IGNORE\<close> keyed by the id of the operation.\<close>

definition insertOrIgnore :: "AppendRow \<Rightarrow> AppendRow list \<Rightarrow> AppendRow list" where
  "insertOrIgnore row rows = (if appendKey row \<in> appendKey ` set rows then rows else rows @ [row])"

text \<open>
  \<open>lg\<close> observes the log a connection sees and \<open>saved\<close> what it was when the open transaction began.
\<close>

definition failedCall :: "('w \<Rightarrow> AppendRow list) \<Rightarrow> ('w \<Rightarrow> AppendRow list option) \<Rightarrow> 'w \<Rightarrow> 'w \<Rightarrow> bool" where
  "failedCall lg saved w w' \<longleftrightarrow> (lg w' = lg w \<and> saved w' = saved w) \<or> (saved w = Some (lg w') \<and> saved w' = None)"

fun txRuns :: "('w \<Rightarrow> AppendRow list) \<Rightarrow> ('w \<Rightarrow> AppendRow list option) \<Rightarrow> TxCmd \<Rightarrow> 'w \<Rightarrow> 'w \<Rightarrow> bool" where
  "txRuns lg saved TxBegin w w' \<longleftrightarrow> saved w = None \<and> saved w' = Some (lg w) \<and> lg w' = lg w"
| "txRuns lg saved TxCommit w w' \<longleftrightarrow> saved w \<noteq> None \<and> saved w' = None \<and> lg w' = lg w"
| "txRuns lg saved TxRollback w w' \<longleftrightarrow> saved w = Some (lg w') \<and> saved w' = None"

definition lawful_ext :: "'w ExtRunner \<Rightarrow> ('w \<Rightarrow> AppendRow list) \<Rightarrow> ('w \<Rightarrow> AppendRow list option) \<Rightarrow> bool" where
  "lawful_ext rn lg saved \<longleftrightarrow>
     (\<forall>cmd w r w'. xr_exec rn cmd w = (r, w') \<longrightarrow> (case r of Inl _ \<Rightarrow> failedCall lg saved w w' | Inr _ \<Rightarrow> txRuns lg saved cmd w w'))
   \<and> (\<forall>rows w r w'. xr_getText rn (CallAppendOps rows) w = (r, w') \<longrightarrow> (case r of Inl _ \<Rightarrow> failedCall lg saved w w'
        | Inr t \<Rightarrow> saved w' = saved w \<and> lg w' = fold insertOrIgnore rows (lg w)
            \<and> (\<exists>nodes. t = Some (ReplyVals (Some (map jsonBytes nodes))) \<and> (\<forall>n \<in> set nodes. length n = 16))))"

definition durable :: "('w \<Rightarrow> AppendRow list) \<Rightarrow> ('w \<Rightarrow> AppendRow list option) \<Rightarrow> 'w \<Rightarrow> AppendRow list" where
  "durable lg saved w = (case saved w of None \<Rightarrow> lg w | Some before \<Rightarrow> before)"

lemma failedCall_durable: "failedCall lg saved w w' \<Longrightarrow> durable lg saved w' = durable lg saved w"
  by (auto simp: failedCall_def durable_def split: option.splits)

lemma failedCall_idle: "failedCall lg saved w w' \<Longrightarrow> saved w = None \<Longrightarrow> lg w' = lg w \<and> saved w' = None"
  by (auto simp: failedCall_def)

lemma lawful_extD:
  "lawful_ext rn lg saved \<Longrightarrow> xr_exec rn cmd w = (Inl e, w') \<Longrightarrow> failedCall lg saved w w'"
  "lawful_ext rn lg saved \<Longrightarrow> xr_exec rn cmd w = (Inr u, w') \<Longrightarrow> txRuns lg saved cmd w w'"
  unfolding lawful_ext_def by fastforce+

lemma bulkAppend_law:
  assumes "lawful_ext rn lg saved" "bulkAppend rn rows w = (r, w')"
  shows "case r of Inl _ \<Rightarrow> failedCall lg saved w w'
    | Inr nodes \<Rightarrow> saved w' = saved w \<and> lg w' = fold insertOrIgnore rows (lg w) \<and> (\<forall>n \<in> set nodes. length n = 16)"
proof -
  obtain q v where q: "xr_getText rn (CallAppendOps rows) w = (q, v)" by fastforce
  with assms(1) have law: "case q of Inl _ \<Rightarrow> failedCall lg saved w v
      | Inr t \<Rightarrow> saved v = saved w \<and> lg v = fold insertOrIgnore rows (lg w)
          \<and> (\<exists>nodes. t = Some (ReplyVals (Some (map jsonBytes nodes))) \<and> (\<forall>n \<in> set nodes. length n = 16))"
    unfolding lawful_ext_def by blast
  have decode: "decodeSqliteOpRefs (Some (map jsonBytes nodes)) = Inr nodes" for nodes
    by (induction nodes) (simp_all add: decodeSqliteOpRefs_def)
  show ?thesis
  proof (cases q)
    case (Inl e)
    with law q assms(2) show ?thesis by (auto simp: bulkAppend_def getVals_def pm_simps)
  next
    case (Inr t)
    with law obtain nodes where t: "t = Some (ReplyVals (Some (map jsonBytes nodes)))" "\<forall>n \<in> set nodes. length n = 16"
      "saved v = saved w" "lg v = fold insertOrIgnore rows (lg w)" by auto
    with q Inr assms(2) decode show ?thesis by (auto simp: bulkAppend_def getVals_def pm_simps emptyReply_def)
  qed
qed

section \<open>The two loops\<close>

abbreviation "payloadOf ser serReplica ops \<equiv> buildAppendOpsPayload ops ser serReplica"

lemma payload_append:
  "payloadOf ser sr xs = Inr a \<Longrightarrow> payloadOf ser sr ys = Inr b \<Longrightarrow> payloadOf ser sr (xs @ ys) = Inr (a @ b)"
  unfolding buildAppendOpsPayload_def mapR_Inr_iff by (rule list_all2_appendI)

lemma bulkLoop_chunks:
  assumes "lawful_ext rn lg saved" "saved w = None" "bulkLoop rn ser sr cs affected w = (r, w')"
  shows "saved w' = None \<and> (\<exists>before after rows. cs = before @ after \<and> payloadOf ser sr (concat before) = Inr rows
    \<and> lg w' = fold insertOrIgnore rows (lg w)
    \<and> (\<forall>m rest. r = Inr (m, rest) \<longrightarrow> (case rest of None \<Rightarrow> after = [] | Some ops \<Rightarrow> ops = concat after)))"
  using assms(2,3)
proof (induction cs arbitrary: affected w)
  case Nil
  then show ?case by (auto simp: buildAppendOpsPayload_def intro!: exI [of _ "[]"])
next
  case (Cons c cs)
  have stops: "\<exists>before after rows. c # cs = before @ after \<and> payloadOf ser sr (concat before) = Inr rows
    \<and> lg v = fold insertOrIgnore rows (lg w)
    \<and> (\<forall>m rest. r = Inr (m, rest) \<longrightarrow> (case rest of None \<Rightarrow> after = [] | Some ops \<Rightarrow> ops = concat after))"
    if "lg v = lg w" "\<forall>m rest. r = Inr (m, rest) \<longrightarrow> rest = Some (c @ concat cs)" for v
    by (rule exI [of _ "[]"], rule exI [of _ "c # cs"], rule exI [of _ "[]"]) (use that in \<open>auto simp: buildAppendOpsPayload_def\<close>)
  show ?case
  proof (cases "payloadOf ser sr c")
    case (Inl e)
    with Cons.prems have "r = Inl e" "w' = w" by (auto simp: pm_simps)
    with stops [of w] Cons.prems(1) show ?thesis by simp
  next
    case (Inr rows)
    obtain q v where q: "bulkAppend rn rows w = (q, v)" by fastforce
    note law = bulkAppend_law [OF assms(1) q]
    show ?thesis
    proof (cases q)
      case (Inl e)
      with law failedCall_idle [of lg saved w v] Cons.prems(1) have "lg v = lg w \<and> saved v = None" by auto
      moreover from Inl Inr q Cons.prems(2) have "r = Inr (affected, Some (c @ concat cs))" "w' = v" by (auto simp: pm_simps)
      ultimately show ?thesis using stops [of v] by simp
    next
      case (Inr nodes)
      with law Cons.prems(1) have v: "saved v = None" "lg v = fold insertOrIgnore rows (lg w)" by simp_all
      from Inr \<open>payloadOf ser sr c = Inr rows\<close> q Cons.prems(2)
      have "bulkLoop rn ser sr cs (mergeAffected nodes affected) v = (r, w')" by (simp add: pm_simps)
      from Cons.IH [OF v(1) this] obtain before after rows' where IH: "saved w' = None" "cs = before @ after"
        "payloadOf ser sr (concat before) = Inr rows'" "lg w' = fold insertOrIgnore rows' (lg v)"
        "\<forall>m rest. r = Inr (m, rest) \<longrightarrow> (case rest of None \<Rightarrow> after = [] | Some ops \<Rightarrow> ops = concat after)" by blast
      have "\<exists>before after rows. c # cs = before @ after \<and> payloadOf ser sr (concat before) = Inr rows
          \<and> lg w' = fold insertOrIgnore rows (lg w)
          \<and> (\<forall>m rest. r = Inr (m, rest) \<longrightarrow> (case rest of None \<Rightarrow> after = [] | Some ops \<Rightarrow> ops = concat after))"
        by (rule exI [of _ "c # before"], rule exI [of _ after], rule exI [of _ "rows @ rows'"])
          (use IH payload_append [OF \<open>payloadOf ser sr c = Inr rows\<close> IH(3)] v(2) in simp)
      with IH(1) show ?thesis by blast
    qed
  qed
qed

lemma appendEach_tx:
  assumes "lawful_ext rn lg saved" "saved w = Some s" "appendEach rn ser sr ops affected w = (r, w')"
  shows "case r of Inl _ \<Rightarrow> durable lg saved w' = s
    | Inr _ \<Rightarrow> saved w' = Some s \<and> (\<exists>rows. payloadOf ser sr ops = Inr rows \<and> lg w' = fold insertOrIgnore rows (lg w))"
  using assms(2,3)
proof (induction ops arbitrary: affected w)
  case Nil
  then show ?case by (auto simp: appendEach_def buildAppendOpsPayload_def)
next
  case (Cons oper ops)
  show ?case
  proof (cases "payloadOf ser sr [oper]")
    case (Inl e)
    with Cons.prems show ?thesis by (auto simp: appendEach_def pm_simps durable_def)
  next
    case (Inr rows)
    obtain q v where q: "bulkAppend rn rows w = (q, v)" by fastforce
    note law = bulkAppend_law [OF assms(1) q]
    show ?thesis
    proof (cases q)
      case (Inl e)
      with law failedCall_durable [of lg saved w v] Cons.prems(1) have "durable lg saved v = s" by (simp add: durable_def)
      with Inl Inr q Cons.prems(2) show ?thesis by (auto simp: appendEach_def pm_simps)
    next
      case (Inr nodes)
      with law Cons.prems(1) have v: "saved v = Some s" "lg v = fold insertOrIgnore rows (lg w)" by simp_all
      from Inr \<open>payloadOf ser sr [oper] = Inr rows\<close> q Cons.prems(2)
      have "appendEach rn ser sr ops (mergeAffected nodes affected) v = (r, w')" by (simp add: appendEach_def pm_simps)
      from Cons.IH [OF v(1) this] show ?thesis
      proof (cases r)
        case (Inr m)
        with Cons.IH [OF v(1) \<open>appendEach rn ser sr ops (mergeAffected nodes affected) v = (r, w')\<close>] obtain rows' where
          "saved w' = Some s" "payloadOf ser sr ops = Inr rows'" "lg w' = fold insertOrIgnore rows' (lg v)" by auto
        with payload_append [OF \<open>payloadOf ser sr [oper] = Inr rows\<close>, of ops rows'] v(2) Inr show ?thesis by simp
      qed simp
    qed
  qed
qed

lemma appendFallback_tx:
  assumes "lawful_ext rn lg saved" "saved w = None" "appendFallback rn ser sr ops affected w = (r, w')"
  shows "case r of Inl _ \<Rightarrow> durable lg saved w' = lg w
    | Inr _ \<Rightarrow> saved w' = None \<and> (\<exists>rows. payloadOf ser sr ops = Inr rows \<and> lg w' = fold insertOrIgnore rows (lg w))"
  using assms(3) unfolding appendFallback_def
proof (cases rule: sq_E)
  case (err e)
  with failedCall_durable [OF lawful_extD(1) [OF assms(1) err(1)]] assms(2) show ?thesis by (simp add: durable_def)
next
  case (ok v)
  from lawful_extD(2) [OF assms(1) ok(1)] have v: "saved v = Some (lg w)" "lg v = lg w" by simp_all
  let ?body = "bnd (appendEach rn ser sr ops affected) (\<lambda>m. sq (xr_exec rn TxCommit) (ret m))"
  obtain q x where q: "?body v = (q, x)" by fastforce
  have qx: "case q of Inl _ \<Rightarrow> durable lg saved x = lg w
      | Inr _ \<Rightarrow> saved x = None \<and> (\<exists>rows. payloadOf ser sr ops = Inr rows \<and> lg x = fold insertOrIgnore rows (lg w))"
    using q
  proof (cases rule: bnd_E)
    case (err e)
    with appendEach_tx [OF assms(1) v(1) err(1)] show ?thesis by simp
  next
    case (ok m y)
    from appendEach_tx [OF assms(1) v(1) ok(1)] v(2) obtain rows where
      y: "saved y = Some (lg w)" "payloadOf ser sr ops = Inr rows" "lg y = fold insertOrIgnore rows (lg w)" by auto
    from ok(2) show ?thesis
    proof (cases rule: sq_E)
      case (err e)
      with failedCall_durable [OF lawful_extD(1) [OF assms(1) err(1)]] y(1) show ?thesis by (simp add: durable_def)
    next
      case (ok z)
      with lawful_extD(2) [OF assms(1) ok(1)] y show ?thesis by auto
    qed
  qed
  show ?thesis
  proof (cases q)
    case (Inr m)
    with ok(2) q qx show ?thesis by (auto simp: catch_eval)
  next
    case (Inl e)
    with ok(2) q have run: "sq (xr_exec rn TxRollback) (throw e) x = (r, w')" by (simp add: catch_eval)
    then have "\<exists>e'. r = Inl e'" by (auto elim!: sq_E)
    moreover from run have "durable lg saved w' = durable lg saved x"
    proof (cases rule: sq_E)
      case (err e')
      then show ?thesis by (simp add: failedCall_durable [OF lawful_extD(1) [OF assms(1)]])
    next
      case (ok y)
      from lawful_extD(2) [OF assms(1) ok(1)] ok(2) show ?thesis by (auto simp: durable_def)
    qed
    ultimately show ?thesis using qx Inl by auto
  qed
qed

lemma concat_before:
  "0 < n \<Longrightarrow> chunks n xs = before @ after \<Longrightarrow> concat before = take (length before * n) xs \<and> concat after = drop (length before * n) xs"
proof (induction before arbitrary: xs)
  case Nil
  then show ?case using concat_chunks [of n xs] by simp
next
  case (Cons c before)
  then have "xs \<noteq> []" by auto
  with Cons.prems have "c = take n xs" "chunks n (drop n xs) = before @ after" by (simp_all add: chunks_step)
  with Cons.IH [OF Cons.prems(1), of "drop n xs"] show ?case by (simp add: take_add ac_simps)
qed

definition affected_ok :: "(string, bytes) jsmap \<Rightarrow> bool" where
  "affected_ok m \<longleftrightarrow> js_wf m \<and> (\<forall>(k, v) \<in> set m. k = bytesToHex v)"

lemma merge_ok: "affected_ok m \<Longrightarrow> affected_ok (mergeAffected nodes m)"
proof (induction nodes arbitrary: m)
  case (Cons node nodes)
  have "affected_ok (if js_has m (bytesToHex node) then m else js_set (bytesToHex node) node m)"
    using Cons.prems by (auto simp: affected_ok_def js_set_fresh) (metis js_set_fresh js_wf_set)
  from Cons.IH [OF this] show ?case by (simp add: mergeAffected_def)
qed (simp add: mergeAffected_def)

lemma affected_distinct: "affected_ok m \<Longrightarrow> distinct (map snd m)"
proof -
  assume m: "affected_ok m"
  then have "map fst m = map bytesToHex (map snd m)" by (auto simp: affected_ok_def)
  moreover have "distinct (map fst m)" using m by (simp add: affected_ok_def js_wf_def)
  ultimately show ?thesis by (metis distinct_map)
qed

lemma bulkLoop_affected:
  "affected_ok affected \<Longrightarrow> bulkLoop rn ser sr cs affected w = (Inr (m, rest), w') \<Longrightarrow> affected_ok m"
proof (induction cs arbitrary: affected w)
  case (Cons c cs)
  from Cons.prems show ?case
    by (auto simp: pm_simps split: prod.splits sum.splits dest: Cons.IH [OF merge_ok [OF Cons.prems(1)]])
qed simp

lemma appendEach_affected:
  "affected_ok affected \<Longrightarrow> appendEach rn ser sr ops affected w = (Inr m, w') \<Longrightarrow> affected_ok m"
proof (induction ops arbitrary: affected w)
  case (Cons oper ops)
  from Cons.prems(2) [unfolded appendEach_def] Cons.IH [unfolded appendEach_def] merge_ok [OF Cons.prems(1)] show ?case
    by (fastforce simp: pm_simps split: prod.splits sum.splits)
qed (simp add: appendEach_def)

lemma appendFallback_affected:
  assumes "affected_ok affected" "appendFallback rn ser sr ops affected w = (Inr m, w')"
  shows "affected_ok m"
  using assms(2) appendEach_affected [OF assms(1)] unfolding appendFallback_def
  by (auto simp: pm_simps split: prod.splits sum.splits)

section \<open>Properties\<close>

text \<open>
  C29: appending a batch over SQLite.  A batch that succeeds inserts its operations, each unless
  one with its id is there, and returns every affected node once.  One that fails, in the bulk
  statement, in the transaction that then takes the operations one by one, or in its commit or
  rollback, has durably inserted a number of whole chunks from the front and nothing else.
\<close>
theorem sqlite_append_whole_chunks:
  assumes "lawful_ext rn lg saved" and "saved w = None" and "0 < n"
    and "treecrdtAppendOps rn (Some n) ops ser serReplica w = (r, w')"
  shows "case r of
      Inr nodes \<Rightarrow> distinct nodes \<and> saved w' = None
        \<and> (\<exists>rows. buildAppendOpsPayload ops ser serReplica = Inr rows \<and> lg w' = fold insertOrIgnore rows (lg w))
    | Inl _ \<Rightarrow> \<exists>k rows. buildAppendOpsPayload (take (k * n) ops) ser serReplica = Inr rows
        \<and> durable lg saved w' = fold insertOrIgnore rows (lg w)"
proof (cases "ops = [] \<or> (\<exists>oper \<in> set ops. isDeleteKind (op_kind oper) \<and> missingKnownState oper)")
  case True
  with assms(2,4) show ?thesis
    by (auto simp: treecrdtAppendOps_def buildAppendOpsPayload_def durable_def split: if_splits intro!: exI [of _ 0])
next
  case False
  obtain q v where q: "bulkLoop rn ser serReplica (chunks n ops) [] w = (q, v)" by fastforce
  have aff: "affected_ok []" by (simp add: affected_ok_def)
  from bulkLoop_chunks [OF assms(1,2) q] obtain before after rows where l: "saved v = None" "chunks n ops = before @ after"
    "payloadOf ser serReplica (concat before) = Inr rows" "lg v = fold insertOrIgnore rows (lg w)"
    "\<forall>m rest. q = Inr (m, rest) \<longrightarrow> (case rest of None \<Rightarrow> after = [] | Some ops \<Rightarrow> ops = concat after)" by blast
  note split = concat_before [OF assms(3) l(2)]
  have run: "bnd (bulkLoop rn ser serReplica (chunks n ops) []) (\<lambda>(affected, rejected). case rejected of
        None \<Rightarrow> ret (map snd affected)
      | Some remaining \<Rightarrow> bnd (appendFallback rn ser serReplica remaining affected) (\<lambda>m. ret (map snd m))) w = (r, w')"
    using assms(4) False by (auto simp: treecrdtAppendOps_def split: if_splits)
  have front: "payloadOf ser serReplica (take (length before * n) ops) = Inr rows" using l(3) split by simp
  consider (err) e where "q = Inl e" | (all) m where "q = Inr (m, None)" | (some) m rest where "q = Inr (m, Some rest)"
    by (cases q) (auto split: prod.splits, metis option.exhaust)
  then show ?thesis
  proof cases
    case err
    with q run have "r = Inl e" "w' = v" by (auto simp: pm_simps)
    with front l(1,4) show ?thesis by (auto simp: durable_def)
  next
    case all
    with q run have "r = Inr (map snd m)" "w' = v" by (auto simp: pm_simps)
    moreover from all l(2,5) have "concat before = ops" using concat_chunks [OF assms(3), of ops] by auto
    ultimately show ?thesis using l(1,3,4) affected_distinct [OF bulkLoop_affected [OF aff q [unfolded all]]] by auto
  next
    case some
    obtain f x where f: "appendFallback rn ser serReplica rest m v = (f, x)" by fastforce
    note tx = appendFallback_tx [OF assms(1) l(1) f]
    from some l(5) split have rest: "ops = concat before @ rest" by auto
    show ?thesis
    proof (cases f)
      case (Inl e)
      with some q f run have "r = Inl e" "w' = x" by (auto simp: pm_simps)
      with tx Inl front l(4) show ?thesis by auto
    next
      case (Inr m')
      with some q f run have "r = Inr (map snd m')" "w' = x" by (auto simp: pm_simps)
      moreover from tx Inr obtain rows' where "saved x = None" "payloadOf ser serReplica rest = Inr rows'"
        "lg x = fold insertOrIgnore rows' (lg v)" by auto
      moreover have "distinct (map snd m')"
        by (rule affected_distinct [OF appendFallback_affected [OF bulkLoop_affected [OF aff q [unfolded some]] f [unfolded Inr]]])
      ultimately show ?thesis using payload_append [OF l(3)] l(4) rest by auto
    qed
  qed
qed



text \<open>A connection in memory that rejects operations with a counter above 100.\<close>

record DemoExt =
  de_log :: "AppendRow list"
  de_saved :: "AppendRow list option"

fun demoExec :: "TxCmd \<Rightarrow> (DemoExt, unit) pm" where
  "demoExec TxBegin s = (if de_saved s = None then (Inr (), s\<lparr>de_saved := Some (de_log s)\<rparr>) else (Inl ''nested'', s))"
| "demoExec TxCommit s = (if de_saved s = None then (Inl ''no transaction'', s) else (Inr (), s\<lparr>de_saved := None\<rparr>))"
| "demoExec TxRollback s = (case de_saved s of None \<Rightarrow> (Inl ''no transaction'', s)
     | Some before \<Rightarrow> (Inr (), \<lparr>de_log = before, de_saved = None\<rparr>))"

fun demoText :: "SqlCall \<Rightarrow> (DemoExt, SqlReply option) pm" where
  "demoText (CallAppendOps rows) s = (if list_all (\<lambda>row. ap_counter row \<le> 100) rows
     then (Inr (Some (ReplyVals (Some (map jsonBytes (filter (\<lambda>n. length n = 16) (map ap_node rows)))))),
       s\<lparr>de_log := fold insertOrIgnore rows (de_log s)\<rparr>)
     else (Inl ''constraint'', s))"
| "demoText _ s = (Inr None, s)"

definition demo_ext :: "DemoExt ExtRunner" where
  "demo_ext = \<lparr>xr_exec = demoExec, xr_getText = demoText\<rparr>"

lemma demo_ext_lawful: "lawful_ext demo_ext de_log de_saved"
proof -
  have "case r of Inl _ \<Rightarrow> failedCall de_log de_saved w w' | Inr _ \<Rightarrow> txRuns de_log de_saved cmd w w'"
    if "demoExec cmd w = (r, w')" for cmd w r w'
    using that by (cases cmd) (auto simp: failedCall_def split: if_splits option.splits)
  then show ?thesis
    by (auto simp: lawful_ext_def demo_ext_def failedCall_def split: sum.splits if_splits
        intro!: exI [of _ "filter (\<lambda>n. length n = 16) (map ap_node rows)" for rows])
qed

definition demo_tombstone :: "int \<Rightarrow> Operation" where
  "demo_tombstone n = \<lparr>op_meta = \<lparr>om_id = \<lparr>oid_replica = replicate 32 1, oid_counter = n\<rparr>, om_lamport = n,
     om_knownState = Some [7]\<rparr>, op_kind = OpTombstone ROOT_NODE_ID_HEX\<rparr>"

lemma root_canonical: "canonical_node_id ROOT_NODE_ID_HEX"
  by (simp add: canonical_node_id_def ROOT_NODE_ID_HEX_def lower_hex_iff hex_codes_def)

definition demo_append_row :: "int \<Rightarrow> AppendRow" where
  "demo_append_row n = baseRow (demo_tombstone n) (replicate 32 1) ''tombstone'' None (hex_pairs ROOT_NODE_ID_HEX) None None None"

lemma demo_row: "appendRow nodeIdToBytes16 replicaIdToBytes (demo_tombstone n) = Inr (demo_append_row n)"
  by (simp add: appendRow_def demo_tombstone_def nodeIdToBytes16_canonical root_canonical demo_append_row_def
      replicaIdToBytes_def assertReplicaIdBytes_def ED25519_PUBLIC_KEY_LEN_def)

lemma demo_row_fields: "ap_counter (demo_append_row n) = n" "ap_node (demo_append_row n) = hex_pairs ROOT_NODE_ID_HEX"
  by (simp_all add: demo_append_row_def baseRow_def demo_tombstone_def)

lemma demo_bulk:
  "bulkAppend demo_ext rows s = (if list_all (\<lambda>row. ap_counter row \<le> 100) rows
     then (Inr (filter (\<lambda>n. length n = 16) (map ap_node rows)), s\<lparr>de_log := fold insertOrIgnore rows (de_log s)\<rparr>)
     else (Inl ''constraint'', s))"
proof -
  have "mapR uint8From (map jsonBytes ns) = Inr ns" for ns by (induction ns) simp_all
  then show ?thesis by (simp add: bulkAppend_def getVals_def demo_ext_def pm_simps emptyReply_def decodeSqliteOpRefs_def)
qed

text \<open>Of two chunks the second fails: the first stays, nothing of the second does.\<close>

theorem sqlite_append_whole_chunks_witness:
  "\<exists>e w'. treecrdtAppendOps demo_ext (Some 2) (map demo_tombstone [1, 2, 3, 101]) nodeIdToBytes16 replicaIdToBytes
       \<lparr>de_log = [], de_saved = None\<rparr> = (Inl e, w')
     \<and> (\<exists>k rows. buildAppendOpsPayload (take (k * 2) (map demo_tombstone [1, 2, 3, 101])) nodeIdToBytes16 replicaIdToBytes = Inr rows
       \<and> durable de_log de_saved w' = fold insertOrIgnore rows [])
     \<and> map ap_counter (de_log w') = [1, 2]"
proof -
  let ?ops = "map demo_tombstone [1, 2, 3, 101]" and ?w = "\<lparr>de_log = [], de_saved = None\<rparr>"
  obtain r w' where r: "treecrdtAppendOps demo_ext (Some 2) ?ops nodeIdToBytes16 replicaIdToBytes ?w = (r, w')" by fastforce
  have chunks: "chunks 2 ?ops = [[demo_tombstone 1, demo_tombstone 2], [demo_tombstone 3, demo_tombstone 101]]" by (simp add: chunks_step)
  have "\<not> isDeleteKind (op_kind (demo_tombstone n))" for n by (simp add: demo_tombstone_def)
  then have "r = Inl ''constraint'' \<and> map ap_counter (de_log w') = [1, 2]" using r
    by (auto simp: treecrdtAppendOps_def chunks [simplified] pm_simps buildAppendOpsPayload_def demo_row demo_bulk demo_row_fields
        appendFallback_def appendEach_def demo_ext_def [THEN arg_cong [of _ _ xr_exec]] insertOrIgnore_def appendKey_def)
  with sqlite_append_whole_chunks [OF demo_ext_lawful _ _ r] r show ?thesis by auto
qed



end
