(* ===== verification/Wasm_Adapter.thy ===== *)
theory Wasm_Adapter
  imports Native_Engine "HOL-Library.Char_ord" "HOL-Library.List_Lexorder" "HOL-Library.Product_Lexorder"
begin

text \<open>
  \<^verbatim>\<open>packages/treecrdt-wasm-js/src/index.ts\<close>: the adapter over the engine compiled to WebAssembly.
  The engine (\<^verbatim>\<open>WasmTree\<close>), SHA-256 and UTF-8 are parameters.
\<close>

section \<open>The engine's operations\<close>

record JsOp =
  jo_replica :: string
  jo_counter :: int
  jo_lamport :: int
  jo_kind :: string
  jo_parent :: "string option"
  jo_node :: string
  jo_new_parent :: "string option"
  jo_order_key :: "string option"
  jo_known_state :: "bytes option"
  jo_payload :: "string option"

record 'w WasmTree =
  wt_opsSince :: "int \<Rightarrow> ('w, JsOp list option) pm"
  wt_treeChildren :: "string \<Rightarrow> ('w, string list option) pm"
  wt_treeDump :: "('w, RawTreeRow list option) pm"
  wt_treeNodeCount :: "('w, int) pm"
  wt_treeParent :: "string \<Rightarrow> ('w, string option) pm"
  wt_treeExists :: "string \<Rightarrow> ('w, bool) pm"
  wt_treePayload :: "string \<Rightarrow> ('w, bytes option) pm"
  wt_appendOp :: "JsOp \<Rightarrow> ('w, unit) pm"
  wt_appendOpWithDelta :: "JsOp \<Rightarrow> ('w, string list) pm"

record WasmHash =
  wh_sha256 :: "bytes \<Rightarrow> bytes"
  wh_utf8 :: "string \<Rightarrow> bytes"

text \<open>The closure variable \<^verbatim>\<open>docId\<close> beside the engine's world.\<close>

record 'w WasmState =
  ws_world :: 'w
  ws_docId :: string

definition inWasm :: "('w, 'a) pm \<Rightarrow> ('w WasmState, 'a) pm" where
  "inWasm m = (\<lambda>s. case m (ws_world s) of (r, w') \<Rightarrow> (r, s\<lparr>ws_world := w'\<rparr>))"

section \<open>Reading operations\<close>

definition allOps :: "'w WasmTree \<Rightarrow> ('w, JsOp list) pm" where
  "allOps tree = bnd (wt_opsSince tree 0) (\<lambda>ops. ret (case ops of None \<Rightarrow> [] | Some xs \<Rightarrow> xs))"

definition normalizeReplicaHex :: "string \<Rightarrow> string" where
  "normalizeReplicaHex hex = toLowerCase (stripHexPrefix hex)"

definition opRefFor :: "WasmHash \<Rightarrow> string \<Rightarrow> JsOp \<Rightarrow> bytes res" where
  "opRefFor h docId oper = bindR (hexToBytes (normalizeReplicaHex (jo_replica oper))) (\<lambda>replica.
     Inr (take 16 (wh_sha256 h (wh_utf8 h ''treecrdt/opref/wasm-adapter/v0'' @ wh_utf8 h docId @ replica
       @ be_bytes 8 (nat (jo_counter oper mod 2 ^ 64))))))"

definition opOrder :: "JsOp \<Rightarrow> int \<times> string \<times> int" where
  "opOrder oper = (jo_lamport oper, normalizeReplicaHex (jo_replica oper), jo_counter oper)"

definition sortedOps :: "'w WasmTree \<Rightarrow> ('w, JsOp list) pm" where
  "sortedOps tree = bnd (allOps tree) (\<lambda>ops. ret (sort_key opOrder ops))"

definition opAbout :: "string \<Rightarrow> JsOp \<Rightarrow> bool" where
  "opAbout parentHex oper = (if jo_kind oper = ''insert'' then jo_parent oper = Some parentHex
     else if jo_kind oper = ''move'' then jo_new_parent oper = Some parentHex else False)"

definition refArrays :: "WasmHash \<Rightarrow> string \<Rightarrow> JsOp list \<Rightarrow> js_val list option res" where
  "refArrays h docId ops = bindR (mapR (opRefFor h docId) ops) (\<lambda>refs. Inr (Some (map (\<lambda>ref. JArray (map uint ref)) refs)))"

definition wantedOps :: "WasmHash \<Rightarrow> string \<Rightarrow> OpRef list \<Rightarrow> JsOp list \<Rightarrow> JsOp list res" where
  "wantedOps h docId opRefs ops = bindR (mapR (opRefFor h docId) ops) (\<lambda>refs.
     Inr (map fst (filter (\<lambda>(_, ref). bytesToHex ref \<in> set (map bytesToHex opRefs)) (zip ops refs))))"

definition maxCounterOf :: "string \<Rightarrow> JsOp list \<Rightarrow> int res" where
  "maxCounterOf target ops = bindR (mapR (\<lambda>oper. hexToBytes (normalizeReplicaHex (jo_replica oper))) ops) (\<lambda>replicas.
     Inr (fold (\<lambda>(oper, r) best. if bytesToHex r = target \<and> best < jo_counter oper then jo_counter oper else best) (zip ops replicas) 0))"

text \<open>An operation as the row of unknown shape a caller gets; absent fields are \<^verbatim>\<open>undefined\<close>.\<close>

definition optText :: "string option \<Rightarrow> js_val" where
  "optText v = (case v of None \<Rightarrow> JUndefined | Some s \<Rightarrow> JString s)"

definition jsOpRow :: "JsOp \<Rightarrow> SqliteOpRow" where
  "jsOpRow oper = \<lparr>sr_lamport = JsNumber (jo_lamport oper), sr_replica = JString (jo_replica oper), sr_counter = JsNumber (jo_counter oper),
     sr_kind = jo_kind oper, sr_parent = optText (jo_parent oper), sr_node = JString (jo_node oper),
     sr_new_parent = optText (jo_new_parent oper), sr_order_key = optText (jo_order_key oper), sr_payload = optText (jo_payload oper),
     sr_known_state = (case jo_known_state oper of None \<Rightarrow> JUndefined | Some bs \<Rightarrow> JArray (map uint bs))\<rparr>"

section \<open>Appending\<close>

definition jsBase :: "Operation \<Rightarrow> string \<Rightarrow> string \<Rightarrow> string \<Rightarrow> JsOp" where
  "jsBase oper replica kind node = \<lparr>jo_replica = replica, jo_counter = oid_counter (om_id (op_meta oper)),
     jo_lamport = om_lamport (op_meta oper), jo_kind = kind, jo_parent = None, jo_node = node, jo_new_parent = None,
     jo_order_key = None, jo_known_state = None, jo_payload = None\<rparr>"

definition toJsOp :: "Operation \<Rightarrow> (bytes \<Rightarrow> bytes res) \<Rightarrow> JsOp res" where
  "toJsOp oper serializeReplica = bindR (serializeReplica (oid_replica (om_id (op_meta oper)))) (\<lambda>bs.
     let base = jsBase oper (bytesToHex bs) in case op_kind oper of
       OpInsert parent node orderKey payload \<Rightarrow> bindR (normalizeNodeId parent) (\<lambda>p. bindR (normalizeNodeId node) (\<lambda>n.
         Inr ((base ''insert'' n)\<lparr>jo_parent := Some p, jo_order_key := Some (bytesToHex orderKey)\<rparr>)))
     | OpMove node newParent orderKey \<Rightarrow> bindR (normalizeNodeId node) (\<lambda>n. bindR (normalizeNodeId newParent) (\<lambda>p.
         Inr ((base ''move'' n)\<lparr>jo_new_parent := Some p, jo_order_key := Some (bytesToHex orderKey)\<rparr>)))
     | OpDelete node \<Rightarrow> bindR (normalizeNodeId node) (\<lambda>n. Inr (base ''delete'' n))
     | OpTombstone node \<Rightarrow> bindR (normalizeNodeId node) (\<lambda>n. Inr (base ''tombstone'' n))
     | OpPayload node payload \<Rightarrow> bindR (normalizeNodeId node) (\<lambda>n.
         Inr ((base ''payload'' n)\<lparr>jo_payload := map_option bytesToHex payload\<rparr>)))"

text \<open>The operation with the known state a delete must have.\<close>

definition toAppend :: "Operation \<Rightarrow> (bytes \<Rightarrow> bytes res) \<Rightarrow> JsOp res" where
  "toAppend oper serializeReplica = bindR (toJsOp oper serializeReplica) (\<lambda>jsOp. case op_kind oper of
       OpDelete _ \<Rightarrow> (case om_knownState (op_meta oper) of
           Some ks \<Rightarrow> if ks = [] then Inl ''treecrdt: delete operations require meta.knownState'' else Inr (jsOp\<lparr>jo_known_state := Some ks\<rparr>)
         | None \<Rightarrow> Inl ''treecrdt: delete operations require meta.knownState'')
     | _ \<Rightarrow> Inr jsOp)"

definition wasmAppendOp :: "'w WasmTree \<Rightarrow> Operation \<Rightarrow> (bytes \<Rightarrow> bytes res) \<Rightarrow> ('w, unit) pm" where
  "wasmAppendOp tree oper serializeReplica = bnd (liftR (toAppend oper serializeReplica)) (wt_appendOp tree)"

definition wasmAppendOps :: "'w WasmTree \<Rightarrow> Operation list \<Rightarrow> (bytes \<Rightarrow> bytes res) \<Rightarrow> ('w, bytes list) pm" where
  "wasmAppendOps tree ops serializeReplica = fold_m (\<lambda>oper affected.
     bnd (liftR (toAppend oper serializeReplica)) (\<lambda>jsOp.
     bnd (wt_appendOpWithDelta tree jsOp) (\<lambda>nodes.
     bnd (liftR (mapR hexToBytes nodes)) (\<lambda>bss. ret (affected @ bss))))) ops []"

section \<open>The adapter\<close>

definition createWasmAdapter :: "WasmHash \<Rightarrow> 'w WasmTree \<Rightarrow> 'w WasmState TreecrdtAdapter" where
  "createWasmAdapter h tree = \<lparr>ad_setDocId = (\<lambda>next. modify (\<lambda>s. s\<lparr>ws_docId := next\<rparr>)),
     ad_docId = gets (\<lambda>s. Some (ws_docId s)),
     ad_opRefsAll = bnd (gets ws_docId) (\<lambda>docId. bnd (inWasm (sortedOps tree)) (\<lambda>ops. liftR (refArrays h docId ops))),
     ad_opRefsChildren = (\<lambda>parent. bnd (gets ws_docId) (\<lambda>docId. bnd (inWasm (sortedOps tree)) (\<lambda>ops.
       liftR (refArrays h docId (filter (opAbout (bytesToHex parent)) ops))))),
     ad_opsByOpRefs = (\<lambda>opRefs. bnd (gets ws_docId) (\<lambda>docId. bnd (inWasm (sortedOps tree)) (\<lambda>ops.
       bnd (liftR (wantedOps h docId opRefs ops)) (\<lambda>found. ret (Some (map jsOpRow found)))))),
     ad_treeChildren = (\<lambda>parent. bnd (inWasm (wt_treeChildren tree (bytesToHex parent))) (\<lambda>out. case out of
         None \<Rightarrow> ret (Some [])
       | Some hexes \<Rightarrow> bnd (liftR (mapR hexToBytes hexes)) (\<lambda>bss. ret (Some (map (\<lambda>bs. JArray (map uint bs)) bss))))),
     ad_treeChildrenPage = None,
     ad_treeDump = inWasm (wt_treeDump tree),
     ad_treeNodeCount = inWasm (wt_treeNodeCount tree),
     ad_treeParent = (\<lambda>node. bnd (inWasm (wt_treeParent tree (bytesToHex node))) (\<lambda>parent. case parent of
         None \<Rightarrow> ret None | Some hex \<Rightarrow> bnd (liftR (hexToBytes hex)) (\<lambda>bs. ret (Some bs)))),
     ad_treeExists = (\<lambda>node. inWasm (wt_treeExists tree (bytesToHex node))),
     ad_treePayload = (\<lambda>node. inWasm (wt_treePayload tree (bytesToHex node))),
     ad_headLamport = bnd (inWasm (allOps tree)) (\<lambda>ops. ret (fold (\<lambda>oper. max (jo_lamport oper)) ops 0)),
     ad_replicaMaxCounter = (\<lambda>replica. bnd (inWasm (allOps tree)) (\<lambda>ops. liftR (maxCounterOf (bytesToHex replica) ops))),
     ad_appendOp = (\<lambda>oper _ serializeReplica. inWasm (wasmAppendOp tree oper serializeReplica)),
     ad_appendOps = Some (\<lambda>ops _ serializeReplica. inWasm (wasmAppendOps tree ops serializeReplica)),
     ad_opsSince = (\<lambda>lamport _. bnd (inWasm (wt_opsSince tree lamport)) (\<lambda>ops. ret (map_option (map jsOpRow) ops)))\<rparr>"

definition initWasm :: "'w \<Rightarrow> 'w WasmState" where
  "initWasm w = \<lparr>ws_world = w, ws_docId = ''treecrdt''\<rparr>"

section \<open>What reaches the engine\<close>

text \<open>The part of an operation the engine is told.\<close>

fun carriedKind :: "OperationKind \<Rightarrow> OperationKind" where
  "carriedKind (OpInsert p n orderKey _) = OpInsert p n orderKey None" | "carriedKind k = k"

fun carriedState :: "Operation \<Rightarrow> bytes option" where
  "carriedState oper = (case op_kind oper of OpDelete _ \<Rightarrow> om_knownState (op_meta oper) | _ \<Rightarrow> None)"

lemma toAppend_carried:
  assumes "op_kind b = carriedKind (op_kind a)" "om_id (op_meta b) = om_id (op_meta a)" "om_lamport (op_meta b) = om_lamport (op_meta a)"
    and "carriedState b = carriedState a"
  shows "toAppend b ser = toAppend a ser"
  using assms by (cases "op_kind a") (auto simp: toAppend_def toJsOp_def jsBase_def Let_def)

lemma payload_hex_eq: "map_option bytesToHex u = map_option bytesToHex v \<longleftrightarrow> u = v"
  by (cases u; cases v) (simp_all add: bytesToHex_inj)

lemma toAppend_inj:
  assumes "toAppend a replicaIdToBytes = Inr x" "toAppend b replicaIdToBytes = Inr x"
  shows "opId a = opId b \<and> opLamport a = opLamport b \<and> carriedState a = carriedState b
    \<and> (\<exists>k. normalizeKind (carriedKind (op_kind a)) = Inr k \<and> normalizeKind (carriedKind (op_kind b)) = Inr k)"
  using assms
  by (cases "op_kind a"; cases "op_kind b")
    (auto simp: toAppend_def toJsOp_def jsBase_def Let_def bindR_eq_Inr opId_def opLamport_def bytesToHex_inj payload_hex_eq
      split: option.splits if_splits)

section \<open>Properties\<close>


definition demo_insert :: "bytes option \<Rightarrow> Operation" where
  "demo_insert payload = \<lparr>op_meta = \<lparr>om_id = \<lparr>oid_replica = replicate 32 2, oid_counter = 1\<rparr>, om_lamport = 4, om_knownState = None\<rparr>,
     op_kind = OpInsert ROOT_NODE_ID_HEX ROOT_NODE_ID_HEX [9] payload\<rparr>"


end
