(* ===== verification/Transports.thy ===== *)
theory Transports
  imports Peer_Monad Node_Ids "HOL-Library.Sublist"
begin

text \<open>
  The transports of \<^verbatim>\<open>packages/sync/protocol/src\<close>: \<^verbatim>\<open>transport/index.ts\<close> (broadcast channels, the codec
  wrapper, the in-memory pair), the queued backend of \<^verbatim>\<open>in-memory.ts\<close>, and the browser WebSocket of
  \<^verbatim>\<open>transport/browser-websocket.ts\<close>.  What runs later than it was asked for (a microtask, a timer, an
  awaited answer) is an event of its own; a handler is the number it was registered under.
\<close>

section \<open>Try and finally\<close>

text \<open>A \<^verbatim>\<open>finally\<close> block that may itself throw: its exception wins.\<close>

definition tryFinally :: "('s, 'a) pm \<Rightarrow> ('s, unit) pm \<Rightarrow> ('s, 'a) pm" where
  "tryFinally m f = (\<lambda>s. case m s of (r, s') \<Rightarrow> (case f s' of (Inl e, s'') \<Rightarrow> (Inl e, s'') | (Inr _, s'') \<Rightarrow> (r, s'')))"

lemma tryFinally_eval [pm_simps]:
  "tryFinally m f s = (case m s of (r, s') \<Rightarrow> (case f s' of (Inl e, s'') \<Rightarrow> (Inl e, s'') | (Inr _, s'') \<Rightarrow> (r, s'')))"
  by (simp add: tryFinally_def)

section \<open>Sets of handlers\<close>

definition addHandler :: "'h \<Rightarrow> 'h list \<Rightarrow> 'h list" where
  "addHandler h hs = (if h \<in> set hs then hs else hs @ [h])"

section \<open>Broadcast channels\<close>

text \<open>What a channel carries: bytes, an object (by the fields that are read of it), any other value.\<close>

record PresenceFields =
  pf_t :: js_val
  pf_peer_id :: js_val
  pf_to_peer_id :: js_val
  pf_ts :: js_val

datatype ChannelData = DataBytes bytes | DataObject PresenceFields | DataValue js_val

record ('w, 'c) ChannelApi =
  ch_name :: "'c \<Rightarrow> string"
  ch_create :: "string \<Rightarrow> ('w, 'c) pm"
  ch_post :: "'c \<Rightarrow> ChannelData \<Rightarrow> ('w, unit) pm"
  ch_listen :: "'c \<Rightarrow> ('w, unit) pm"
  ch_unlisten :: "'c \<Rightarrow> ('w, unit) pm"
  ch_close :: "'c \<Rightarrow> ('w, unit) pm"

record 'm WireCodec =
  wc_encode :: "'m \<Rightarrow> bytes res"
  wc_decode :: "bytes \<Rightarrow> 'm res"

fun coerceMessageDataToBytes :: "ChannelData \<Rightarrow> bytes option" where
  "coerceMessageDataToBytes (DataBytes bs) = Some bs"
| "coerceMessageDataToBytes _ = None"

record 'c BroadcastDuplex =
  bd_incoming :: 'c
  bd_outgoing :: 'c

text \<open>The closure variables \<^verbatim>\<open>handlers\<close> and \<^verbatim>\<open>listening\<close>.\<close>

record 'w DuplexState =
  ds_world :: 'w
  ds_handlers :: "nat list"
  ds_listening :: bool

definition channelName :: "string \<Rightarrow> string \<Rightarrow> string \<Rightarrow> string" where
  "channelName name source target = name @ '':sync:'' @ source @ ''->'' @ target"

definition createBroadcastDuplex :: "('w, 'c) ChannelApi \<Rightarrow> 'c \<Rightarrow> string \<Rightarrow> string \<Rightarrow> ('w, 'c BroadcastDuplex) pm" where
  "createBroadcastDuplex api channel selfId peerId =
     bnd (ch_create api (channelName (ch_name api channel) peerId selfId)) (\<lambda>incoming.
     bnd (ch_create api (channelName (ch_name api channel) selfId peerId)) (\<lambda>outgoing.
     ret \<lparr>bd_incoming = incoming, bd_outgoing = outgoing\<rparr>))"

definition duplexSend :: "('w, 'c) ChannelApi \<Rightarrow> 'm WireCodec \<Rightarrow> 'c BroadcastDuplex \<Rightarrow> 'm \<Rightarrow> ('w, unit) pm" where
  "duplexSend api codec d msg = bnd (liftR (wc_encode codec msg)) (\<lambda>bs. ch_post api (bd_outgoing d) (DataBytes bs))"

definition inDuplex :: "('w, 'a) pm \<Rightarrow> ('w DuplexState, 'a) pm" where
  "inDuplex m = (\<lambda>s. case m (ds_world s) of (r, w') \<Rightarrow> (r, s\<lparr>ds_world := w'\<rparr>))"

definition duplexOnMessage :: "('w, 'c) ChannelApi \<Rightarrow> 'c BroadcastDuplex \<Rightarrow> nat \<Rightarrow> ('w DuplexState, unit) pm" where
  "duplexOnMessage api d handler =
     sq (modify (\<lambda>s. s\<lparr>ds_handlers := addHandler handler (ds_handlers s)\<rparr>))
     (bnd (gets ds_listening) (\<lambda>listening. whenM (\<not> listening)
       (sq (inDuplex (ch_listen api (bd_incoming d))) (modify (\<lambda>s. s\<lparr>ds_listening := True\<rparr>)))))"

definition duplexUnsubscribe :: "('w, 'c) ChannelApi \<Rightarrow> 'c BroadcastDuplex \<Rightarrow> nat \<Rightarrow> ('w DuplexState, unit) pm" where
  "duplexUnsubscribe api d handler =
     sq (modify (\<lambda>s. s\<lparr>ds_handlers := removeAll handler (ds_handlers s)\<rparr>))
     (bnd (gets id) (\<lambda>s. whenM (ds_handlers s = [] \<and> ds_listening s)
       (sq (inDuplex (ch_unlisten api (bd_incoming d))) (modify (\<lambda>s. s\<lparr>ds_listening := False\<rparr>)))))"

text \<open>Data that is not bytes or cannot be decoded is dropped.\<close>

definition duplexDeliver :: "'m WireCodec \<Rightarrow> (nat \<Rightarrow> 'm \<Rightarrow> ('w DuplexState, unit) pm) \<Rightarrow> ChannelData \<Rightarrow> ('w DuplexState, unit) pm" where
  "duplexDeliver codec call dat = (case coerceMessageDataToBytes dat of None \<Rightarrow> ret ()
     | Some bs \<Rightarrow> (case wc_decode codec bs of Inl _ \<Rightarrow> ret ()
       | Inr msg \<Rightarrow> bnd (gets ds_handlers) (for_each (\<lambda>h. call h msg))))"

definition duplexClose :: "('w, 'c) ChannelApi \<Rightarrow> 'c BroadcastDuplex \<Rightarrow> ('w, unit) pm" where
  "duplexClose api d = sq (ch_close api (bd_incoming d)) (ch_close api (bd_outgoing d))"

section \<open>The in-memory pair\<close>

datatype Side = SideA | SideB

fun otherSide :: "Side \<Rightarrow> Side" where
  "otherSide SideA = SideB" | "otherSide SideB = SideA"

text \<open>The handlers of both ends, the microtasks, and the calls of handlers that have been made.\<close>

record 'm MemDuplex =
  md_handlers :: "Side \<Rightarrow> nat list"
  md_tasks :: "(Side \<times> 'm) list"
  md_calls :: "(Side \<times> nat \<times> 'm) list"

definition createInMemoryDuplex :: "'m MemDuplex" where
  "createInMemoryDuplex = \<lparr>md_handlers = (\<lambda>_. []), md_tasks = [], md_calls = []\<rparr>"

datatype 'm MemEvent = MemSend Side 'm | MemOnMessage Side nat | MemOff Side nat | MemTask

fun memStep :: "'m MemEvent \<Rightarrow> 'm MemDuplex \<Rightarrow> 'm MemDuplex" where
  "memStep (MemSend side msg) s = s\<lparr>md_tasks := md_tasks s @ [(otherSide side, msg)]\<rparr>"
| "memStep (MemOnMessage side h) s = s\<lparr>md_handlers := (md_handlers s)(side := addHandler h (md_handlers s side))\<rparr>"
| "memStep (MemOff side h) s = s\<lparr>md_handlers := (md_handlers s)(side := removeAll h (md_handlers s side))\<rparr>"
| "memStep MemTask s = (case md_tasks s of [] \<Rightarrow> s
     | (side, msg) # later \<Rightarrow> s\<lparr>md_tasks := later, md_calls := md_calls s @ map (\<lambda>h. (side, h, msg)) (md_handlers s side)\<rparr>)"

section \<open>The codec wrapper\<close>

definition wrapSend :: "('m \<Rightarrow> 'wire res) \<Rightarrow> ('wire \<Rightarrow> ('s, unit) pm) \<Rightarrow> 'm \<Rightarrow> ('s, unit) pm" where
  "wrapSend encode send msg = bnd (liftR (encode msg)) send"

definition wrapHandler :: "('wire \<Rightarrow> 'm res) \<Rightarrow> ('m \<Rightarrow> ('s, unit) pm) \<Rightarrow> 'wire \<Rightarrow> ('s, unit) pm" where
  "wrapHandler decode handler wire = bnd (liftR (decode wire)) handler"

section \<open>The queued backend\<close>

text \<open>
  \<^verbatim>\<open>lastApply\<close> is a chain of promises: the apply that runs, those behind it, and once one has been
  rejected the error every later link is rejected with.  The outcomes are in the order of the calls.
\<close>

record 'op QueuedBackend =
  qb_maxLamport :: int
  qb_running :: "'op list option"
  qb_waiting :: "'op list list"
  qb_broken :: "error option"
  qb_started :: "'op list list"
  qb_outcomes :: "unit res list"

datatype 'op QueueEvent = QueueApply "'op list" | QueueSettled "unit res"

definition makeQueuedSyncBackend :: "int \<Rightarrow> 'op QueuedBackend" where
  "makeQueuedSyncBackend initialMaxLamport = \<lparr>qb_maxLamport = initialMaxLamport, qb_running = None, qb_waiting = [],
     qb_broken = None, qb_started = [], qb_outcomes = []\<rparr>"

definition startApply :: "'op list \<Rightarrow> 'op QueuedBackend \<Rightarrow> 'op QueuedBackend" where
  "startApply ops s = s\<lparr>qb_running := Some ops, qb_started := qb_started s @ [ops]\<rparr>"

definition queueApply :: "('op list \<Rightarrow> int) \<Rightarrow> 'op list \<Rightarrow> 'op QueuedBackend \<Rightarrow> 'op QueuedBackend" where
  "queueApply maxLamportFromOps ops s = (if ops = [] then s else
     let s1 = (if qb_maxLamport s < maxLamportFromOps ops then s\<lparr>qb_maxLamport := maxLamportFromOps ops\<rparr> else s) in
     case qb_broken s1 of Some e \<Rightarrow> s1\<lparr>qb_outcomes := qb_outcomes s1 @ [Inl e]\<rparr>
     | None \<Rightarrow> (case qb_running s1 of None \<Rightarrow> startApply ops s1 | Some _ \<Rightarrow> s1\<lparr>qb_waiting := qb_waiting s1 @ [ops]\<rparr>))"

definition queueSettled :: "unit res \<Rightarrow> 'op QueuedBackend \<Rightarrow> 'op QueuedBackend" where
  "queueSettled r s = (case qb_running s of None \<Rightarrow> s | Some _ \<Rightarrow> (case r of
       Inr _ \<Rightarrow> let s1 = s\<lparr>qb_running := None, qb_outcomes := qb_outcomes s @ [Inr ()]\<rparr> in
         (case qb_waiting s1 of [] \<Rightarrow> s1 | ops # later \<Rightarrow> startApply ops (s1\<lparr>qb_waiting := later\<rparr>))
     | Inl e \<Rightarrow> s\<lparr>qb_running := None, qb_broken := Some e, qb_waiting := [],
         qb_outcomes := qb_outcomes s @ Inl e # map (\<lambda>_. Inl e) (qb_waiting s)\<rparr>))"

fun queueStep :: "('op list \<Rightarrow> int) \<Rightarrow> 'op QueueEvent \<Rightarrow> 'op QueuedBackend \<Rightarrow> 'op QueuedBackend" where
  "queueStep f (QueueApply ops) s = queueApply f ops s"
| "queueStep f (QueueSettled r) s = queueSettled r s"

text \<open>\<^verbatim>\<open>flush\<close> is \<^verbatim>\<open>lastApply\<close>: pending, resolved or rejected.\<close>

definition queueFlush :: "'op QueuedBackend \<Rightarrow> unit res option" where
  "queueFlush s = (case qb_broken s of Some e \<Rightarrow> Some (Inl e) | None \<Rightarrow> (case qb_running s of None \<Rightarrow> Some (Inr ()) | Some _ \<Rightarrow> None))"

section \<open>The browser WebSocket\<close>

record WsOptions =
  wo_highWaterMark :: int
  wo_lowWaterMark :: int
  wo_drainTimeoutMs :: int

record WsGiven =
  wg_highWaterMark :: "int option"
  wg_lowWaterMark :: "int option"
  wg_drainTimeoutMs :: "int option"

definition orDefault :: "int option \<Rightarrow> int \<Rightarrow> int" where
  "orDefault v d = (case v of None \<Rightarrow> d | Some x \<Rightarrow> x)"

definition resolveWsOptions :: "WsGiven \<Rightarrow> WsOptions" where
  "resolveWsOptions g = \<lparr>wo_highWaterMark = orDefault (wg_highWaterMark g) (256 * 1024),
     wo_lowWaterMark = orDefault (wg_lowWaterMark g) (64 * 1024), wo_drainTimeoutMs = orDefault (wg_drainTimeoutMs g) 5000\<rparr>"

text \<open>What the socket and the clock show at one moment.\<close>

record WsView =
  wv_open :: bool
  wv_buffered :: int
  wv_now :: int

datatype Drain = DrainDone | DrainFailed error | DrainWait int

definition waitForWebSocketDrain :: "WsOptions \<Rightarrow> WsView \<Rightarrow> int \<Rightarrow> Drain" where
  "waitForWebSocketDrain opts v maxBuffered = (if \<not> wv_open v then DrainFailed ''websocket is not open''
     else if wv_buffered v \<le> maxBuffered then DrainDone else DrainWait (wv_now v + wo_drainTimeoutMs opts))"

definition drainPoll :: "WsView \<Rightarrow> int \<Rightarrow> int \<Rightarrow> Drain" where
  "drainPoll v maxBuffered deadline =
     (if \<not> wv_open v then DrainFailed ''websocket closed while waiting for buffered data to drain''
      else if wv_buffered v \<le> maxBuffered \<or> deadline \<le> wv_now v then DrainDone else DrainWait deadline)"

text \<open>Where the run at the head of the send queue is suspended.\<close>

datatype WsPhase = WsIdle | WsBeforeSend bytes int | WsAfterSend int

record WsTransport =
  wsq_queue :: "bytes list"
  wsq_phase :: WsPhase
  wsq_sent :: "bytes list"
  wsq_outcomes :: "unit res list"

definition createBrowserWebSocketTransport :: WsTransport where
  "createBrowserWebSocketTransport = \<lparr>wsq_queue = [], wsq_phase = WsIdle, wsq_sent = [], wsq_outcomes = []\<rparr>"

definition wsSettle :: "unit res \<Rightarrow> WsTransport \<Rightarrow> WsTransport" where
  "wsSettle r s = s\<lparr>wsq_phase := WsIdle, wsq_outcomes := wsq_outcomes s @ [r]\<rparr>"

text \<open>\<^verbatim>\<open>ws.send\<close>, which may throw, and the wait that follows it.\<close>

definition wsDoSend :: "WsOptions \<Rightarrow> bytes \<Rightarrow> error option \<Rightarrow> WsView \<Rightarrow> WsTransport \<Rightarrow> WsTransport" where
  "wsDoSend opts bs sendErr after s = (case sendErr of Some e \<Rightarrow> wsSettle (Inl e) s
     | None \<Rightarrow> let s1 = s\<lparr>wsq_sent := wsq_sent s @ [bs]\<rparr> in
       (case waitForWebSocketDrain opts after (wo_lowWaterMark opts) of
         DrainDone \<Rightarrow> wsSettle (Inr ()) s1 | DrainFailed e \<Rightarrow> wsSettle (Inl e) s1
       | DrainWait deadline \<Rightarrow> s1\<lparr>wsq_phase := WsAfterSend deadline\<rparr>))"

definition wsRun :: "WsOptions \<Rightarrow> WsView \<Rightarrow> error option \<Rightarrow> WsView \<Rightarrow> WsTransport \<Rightarrow> WsTransport" where
  "wsRun opts v sendErr after s = (case (wsq_phase s, wsq_queue s) of
       (WsIdle, bs # later) \<Rightarrow> let s1 = s\<lparr>wsq_queue := later\<rparr> in
         if \<not> wv_open v then wsSettle (Inl ''websocket is not open'') s1
         else if wo_highWaterMark opts < wv_buffered v then
           (case waitForWebSocketDrain opts v (wo_lowWaterMark opts) of
             DrainDone \<Rightarrow> wsDoSend opts bs sendErr after s1 | DrainFailed e \<Rightarrow> wsSettle (Inl e) s1
           | DrainWait deadline \<Rightarrow> s1\<lparr>wsq_phase := WsBeforeSend bs deadline\<rparr>)
         else wsDoSend opts bs sendErr after s1
     | _ \<Rightarrow> s)"

definition wsPoll :: "WsOptions \<Rightarrow> WsView \<Rightarrow> error option \<Rightarrow> WsView \<Rightarrow> WsTransport \<Rightarrow> WsTransport" where
  "wsPoll opts v sendErr after s = (case wsq_phase s of WsIdle \<Rightarrow> s
     | WsBeforeSend bs deadline \<Rightarrow> (case drainPoll v (wo_lowWaterMark opts) deadline of
         DrainDone \<Rightarrow> wsDoSend opts bs sendErr after s | DrainFailed e \<Rightarrow> wsSettle (Inl e) s | DrainWait _ \<Rightarrow> s)
     | WsAfterSend deadline \<Rightarrow> (case drainPoll v (wo_lowWaterMark opts) deadline of
         DrainDone \<Rightarrow> wsSettle (Inr ()) s | DrainFailed e \<Rightarrow> wsSettle (Inl e) s | DrainWait _ \<Rightarrow> s))"

datatype WsEvent = WsSend bytes | WsRunNext WsView "error option" WsView | WsTimer WsView "error option" WsView

fun wsStep :: "WsOptions \<Rightarrow> WsEvent \<Rightarrow> WsTransport \<Rightarrow> WsTransport" where
  "wsStep opts (WsSend bs) s = s\<lparr>wsq_queue := wsq_queue s @ [bs]\<rparr>"
| "wsStep opts (WsRunNext v e after) s = wsRun opts v e after s"
| "wsStep opts (WsTimer v e after) s = wsPoll opts v e after s"

section \<open>The in-memory pair is two queues\<close>

fun sentTo :: "Side \<Rightarrow> 'm MemEvent list \<Rightarrow> 'm list" where
  "sentTo side [] = []"
| "sentTo side (MemSend s m # evs) = (if otherSide s = side then m # sentTo side evs else sentTo side evs)"
| "sentTo side (_ # evs) = sentTo side evs"

definition pendingTo :: "Side \<Rightarrow> 'm MemDuplex \<Rightarrow> 'm list" where
  "pendingTo side s = map snd (filter (\<lambda>(t, _). t = side) (md_tasks s))"

definition handledBy :: "Side \<Rightarrow> nat \<Rightarrow> 'm MemDuplex \<Rightarrow> 'm list" where
  "handledBy side h s = map (\<lambda>c. snd (snd c)) (filter (\<lambda>c. fst c = side \<and> fst (snd c) = h) (md_calls s))"

definition mem_ok :: "Side \<Rightarrow> nat \<Rightarrow> 'm MemDuplex \<Rightarrow> bool" where
  "mem_ok side h s \<longleftrightarrow> h \<in> set (md_handlers s side) \<and> (\<forall>t. distinct (md_handlers s t))"

lemma handled_of_task:
  "distinct hs \<Longrightarrow> h \<in> set hs \<Longrightarrow>
    map (\<lambda>c. snd (snd c)) (filter (\<lambda>c. fst c = side \<and> fst (snd c) = h) (map (\<lambda>h. (side, h, msg)) hs)) = [msg]"
  by (induction hs) (auto simp: filter_empty_conv)

lemma memStep_fifo:
  assumes "mem_ok side h s" "ev \<noteq> MemOff side h"
  shows "mem_ok side h (memStep ev s)
    \<and> handledBy side h (memStep ev s) @ pendingTo side (memStep ev s) = handledBy side h s @ pendingTo side s @ sentTo side [ev]"
proof (cases ev)
  case MemTask
  show ?thesis
  proof (cases "md_tasks s")
    case (Cons task later)
    obtain t msg where task: "task = (t, msg)" by fastforce
    show ?thesis
    proof (cases "t = side")
      case True
      with assms(1) MemTask Cons task show ?thesis
        by (simp add: handledBy_def pendingTo_def mem_ok_def handled_of_task)
    next
      case False
      then have "filter (\<lambda>c. fst c = side \<and> fst (snd c) = h) (map (\<lambda>h. (t, h, msg)) hs) = []" for hs
        by (simp add: filter_empty_conv)
      with False assms(1) MemTask Cons task show ?thesis by (simp add: handledBy_def pendingTo_def mem_ok_def)
    qed
  qed (use assms MemTask in simp)
qed (use assms in \<open>auto simp: mem_ok_def handledBy_def pendingTo_def addHandler_def distinct_removeAll split: if_splits\<close>)

section \<open>The chain of applies\<close>

fun appliesOf :: "'op QueueEvent list \<Rightarrow> 'op list list" where
  "appliesOf [] = []"
| "appliesOf (QueueApply ops # evs) = (if ops = [] then appliesOf evs else ops # appliesOf evs)"
| "appliesOf (_ # evs) = appliesOf evs"

lemma appliesOf_snoc: "appliesOf (evs @ [ev]) = appliesOf evs @ appliesOf [ev]"
  by (induction evs rule: appliesOf.induct) (cases ev; simp)+

text \<open>The state of the chain after the calls \<open>calls\<close>.\<close>

definition chain_state :: "'op list list \<Rightarrow> 'op QueuedBackend \<Rightarrow> bool" where
  "chain_state calls s \<longleftrightarrow> (case qb_broken s of
       None \<Rightarrow> (\<exists>k. qb_outcomes s = replicate k (Inr ()) \<and> (case qb_running s of
           None \<Rightarrow> k = length calls \<and> qb_waiting s = [] \<and> qb_started s = calls
         | Some ops \<Rightarrow> k < length calls \<and> ops = calls ! k \<and> qb_waiting s = drop (Suc k) calls \<and> qb_started s = take (Suc k) calls))
     | Some e \<Rightarrow> qb_running s = None \<and> qb_waiting s = [] \<and> (\<exists>k < length calls. qb_started s = take (Suc k) calls
         \<and> qb_outcomes s = replicate k (Inr ()) @ replicate (length calls - k) (Inl e)))"

lemma take_Suc_snoc: "k < length xs \<Longrightarrow> take (Suc k) (xs @ ys) = take (Suc k) xs" "k < length xs \<Longrightarrow> drop (Suc k) (xs @ ys) = drop (Suc k) xs @ ys"
  by simp_all

lemma chain_apply:
  assumes "chain_state calls s" "ops \<noteq> []"
  shows "chain_state (calls @ [ops]) (queueApply f ops s)"
proof (cases "qb_broken s")
  case None
  show ?thesis
  proof (cases "qb_running s")
    case (Some run)
    with None assms show ?thesis by (auto simp: chain_state_def queueApply_def Let_def nth_append)
  qed (use None assms in \<open>auto simp: chain_state_def queueApply_def startApply_def Let_def\<close>)
next
  case (Some e)
  with assms(1) obtain k where k: "qb_running s = None" "qb_waiting s = []" "k < length calls" "qb_started s = take (Suc k) calls"
    "qb_outcomes s = replicate k (Inr ()) @ replicate (length calls - k) (Inl e)" by (auto simp: chain_state_def)
  have "replicate (length calls - k) (Inl e) @ [Inl e] = replicate (Suc (length calls) - k) (Inl e :: unit res)"
    using k(3) by (simp add: Suc_diff_le replicate_append_same)
  with Some k assms(2) show ?thesis
    by (auto simp: chain_state_def queueApply_def Let_def intro!: exI [of _ k])
qed

lemma chain_settled:
  assumes "chain_state calls s"
  shows "chain_state calls (queueSettled r s)"
proof (cases "qb_running s")
  case (Some run)
  with assms obtain k where k: "qb_broken s = None" "qb_outcomes s = replicate k (Inr ())" "k < length calls" "run = calls ! k"
    "qb_waiting s = drop (Suc k) calls" "qb_started s = take (Suc k) calls"
    by (auto simp: chain_state_def split: option.splits)
  show ?thesis
  proof (cases r)
    case (Inl e)
    have "Inl e # map (\<lambda>_. Inl e) (drop (Suc k) calls) = replicate (length calls - k) (Inl e :: unit res)"
      using k(3) by (simp add: map_replicate_const Suc_diff_Suc [symmetric])
    with Inl Some k show ?thesis by (auto simp: chain_state_def queueSettled_def intro!: exI [of _ k])
  next
    case (Inr u)
    have rep: "replicate k (Inr ()) @ [Inr ()] = replicate (Suc k) (Inr () :: unit res)" by (simp add: replicate_append_same)
    show ?thesis
    proof (cases "Suc k < length calls")
      case True
      then have "drop (Suc k) calls = calls ! Suc k # drop (Suc (Suc k)) calls" by (simp add: Cons_nth_drop_Suc)
      moreover from True have "take (Suc k) calls @ [calls ! Suc k] = take (Suc (Suc k)) calls" by (simp add: take_Suc_conv_app_nth)
      ultimately show ?thesis using True Inr Some k rep
        by (auto simp: chain_state_def queueSettled_def startApply_def intro!: exI [of _ "Suc k"])
    next
      case False
      with k(3) have "length calls = Suc k" by simp
      with Inr Some k rep show ?thesis by (auto simp: chain_state_def queueSettled_def intro!: exI [of _ "Suc k"])
    qed
  qed
qed (use assms in \<open>simp add: queueSettled_def\<close>)

lemma chain_runs: "chain_state (appliesOf evs) (fold (queueStep f) evs (makeQueuedSyncBackend m))"
proof (induction evs rule: rev_induct)
  case Nil
  then show ?case by (simp add: chain_state_def makeQueuedSyncBackend_def)
next
  case (snoc ev evs)
  have idle: "queueApply f [] s = s" for s :: "'a QueuedBackend" by (simp add: queueApply_def)
  show ?case
  proof (cases ev)
    case (QueueApply ops)
    with snoc show ?thesis by (cases "ops = []") (simp_all add: appliesOf_snoc idle chain_apply)
  qed (use snoc in \<open>simp add: appliesOf_snoc chain_settled\<close>)
qed

lemma queue_maxLamport:
  "qb_maxLamport (fold (queueStep f) evs s) = fold (\<lambda>ops. max (f ops)) (appliesOf evs) (qb_maxLamport s)"
proof (induction evs arbitrary: s)
  case (Cons ev evs)
  have "qb_maxLamport (queueStep f ev s) = fold (\<lambda>ops. max (f ops)) (appliesOf [ev]) (qb_maxLamport s)"
    by (cases ev) (auto simp: queueApply_def queueSettled_def startApply_def Let_def split: option.splits sum.splits list.splits)
  moreover have "appliesOf (ev # evs) = appliesOf [ev] @ appliesOf evs" by (cases ev) simp_all
  ultimately show ?case using Cons by simp
qed simp

section \<open>The send queue\<close>

fun callsOf :: "WsEvent list \<Rightarrow> bytes list" where
  "callsOf [] = []"
| "callsOf (WsSend bs # evs) = bs # callsOf evs"
| "callsOf (_ # evs) = callsOf evs"

lemma callsOf_snoc: "callsOf (evs @ [ev]) = callsOf evs @ callsOf [ev]"
  by (induction evs rule: callsOf.induct) (cases ev; simp)+

text \<open>
  \<open>handed\<close> tells of the calls, in order, whether their bytes were handed to the socket; it stops
  before a call that has begun and waits for the socket to drain first.
\<close>

definition ws_core :: "bytes list \<Rightarrow> bool list \<Rightarrow> WsTransport \<Rightarrow> bool" where
  "ws_core calls handed s \<longleftrightarrow> wsq_sent s = map fst (filter snd (zip calls handed)) \<and> length handed \<le> length calls
     \<and> (\<forall>i < length (wsq_outcomes s). wsq_outcomes s ! i = Inr () \<longrightarrow> handed ! i)"

definition ws_begun :: "bytes list \<Rightarrow> bool list \<Rightarrow> bytes \<Rightarrow> WsTransport \<Rightarrow> bool" where
  "ws_begun calls handed bs s \<longleftrightarrow> ws_core calls handed s \<and> length handed = length (wsq_outcomes s) \<and> length handed < length calls
     \<and> bs = calls ! length handed \<and> wsq_queue s = drop (Suc (length handed)) calls"

definition ws_state :: "bytes list \<Rightarrow> bool list \<Rightarrow> WsTransport \<Rightarrow> bool" where
  "ws_state calls handed s \<longleftrightarrow> (case wsq_phase s of
       WsIdle \<Rightarrow> ws_core calls handed s \<and> length handed = length (wsq_outcomes s) \<and> wsq_queue s = drop (length handed) calls
     | WsBeforeSend bs _ \<Rightarrow> ws_begun calls handed bs s
     | WsAfterSend _ \<Rightarrow> ws_core calls handed s \<and> length handed = Suc (length (wsq_outcomes s)) \<and> last handed
         \<and> wsq_queue s = drop (length handed) calls)"

lemma zip_snoc:
  "length hs < length calls \<Longrightarrow> zip calls (hs @ [b]) = zip calls hs @ [(calls ! length hs, b)]"
  by (induction hs arbitrary: calls) (auto simp: neq_Nil_conv Suc_less_eq2 split: list.splits elim: list.exhaust,
      (case_tac calls; simp)+)

lemma begun_fail:
  assumes "ws_begun calls handed bs s"
  shows "ws_state calls (handed @ [False]) (wsSettle (Inl e) s)"
  using assms by (auto simp: ws_state_def ws_begun_def ws_core_def wsSettle_def zip_snoc nth_append less_Suc_eq)

lemma begun_send:
  assumes "ws_begun calls handed bs s"
  shows "\<exists>h. ws_state calls h (wsDoSend opts bs sendErr after s)"
proof (cases sendErr)
  case (Some e)
  with begun_fail [OF assms] show ?thesis by (auto simp: wsDoSend_def)
next
  case None
  have "ws_state calls (handed @ [True]) (wsDoSend opts bs None after s)"
    using assms by (cases "waitForWebSocketDrain opts after (wo_lowWaterMark opts)")
      (auto simp: wsDoSend_def Let_def ws_state_def ws_begun_def ws_core_def wsSettle_def zip_snoc nth_append less_Suc_eq)
  with None show ?thesis by blast
qed

lemma ws_run:
  assumes "ws_state calls handed s"
  shows "\<exists>h. ws_state calls h (wsRun opts v sendErr after s)"
proof (cases "wsq_phase s")
  case WsIdle
  show ?thesis
  proof (cases "wsq_queue s")
    case Nil
    with WsIdle assms show ?thesis by (auto simp: wsRun_def)
  next
    case (Cons bs later)
    with WsIdle assms have "ws_core calls handed s" "length handed = length (wsq_outcomes s)" "drop (length handed) calls = bs # later"
      by (simp_all add: ws_state_def)
    moreover have begun: "n < length xs \<and> x = xs ! n \<and> ys = drop (Suc n) xs" if "drop n xs = x # ys" for n and x :: bytes and xs ys
      using that by (cases "n < length xs") (simp_all add: Cons_nth_drop_Suc [symmetric])
    ultimately have b: "ws_begun calls handed bs (s\<lparr>wsq_queue := later\<rparr>)"
      by (auto simp: ws_begun_def ws_core_def dest!: begun)
    then have wait: "ws_state calls handed (s\<lparr>wsq_queue := later, wsq_phase := WsBeforeSend bs d\<rparr>)" for d
      by (simp add: ws_state_def ws_begun_def ws_core_def)
    show ?thesis using WsIdle Cons begun_fail [OF b] begun_send [OF b] wait
      by (auto simp: wsRun_def Let_def split: Drain.splits) blast+
  qed
qed (use assms in \<open>auto simp: wsRun_def\<close>)

lemma ws_poll:
  assumes "ws_state calls handed s"
  shows "\<exists>h. ws_state calls h (wsPoll opts v sendErr after s)"
proof (cases "wsq_phase s")
  case (WsBeforeSend bs d)
  with assms have b: "ws_begun calls handed bs s" by (simp add: ws_state_def)
  with WsBeforeSend assms begun_fail [OF b] begun_send [OF b] show ?thesis
    by (auto simp: wsPoll_def split: Drain.splits)
next
  case (WsAfterSend d)
  have "handed ! k" if "length handed = Suc k" "last handed" for k using that by (cases handed rule: rev_cases) (simp_all add: nth_append)
  with WsAfterSend assms have "ws_state calls handed (wsSettle r s)" for r
    by (auto simp: ws_state_def ws_core_def wsSettle_def nth_append less_Suc_eq)
  with WsAfterSend assms show ?thesis by (auto simp: wsPoll_def split: Drain.splits)
qed (use assms in \<open>auto simp: wsPoll_def\<close>)

lemma ws_runs: "\<exists>h. ws_state (callsOf evs) h (fold (wsStep opts) evs createBrowserWebSocketTransport)"
proof (induction evs rule: rev_induct)
  case Nil
  show ?case by (rule exI [of _ "[]"]) (simp add: ws_state_def ws_core_def createBrowserWebSocketTransport_def)
next
  case (snoc ev evs)
  then obtain h where h: "ws_state (callsOf evs) h (fold (wsStep opts) evs createBrowserWebSocketTransport)" by blast
  show ?case
  proof (cases ev)
    case (WsSend bs)
    from h have "ws_state (callsOf evs @ [bs]) h (wsStep opts (WsSend bs) (fold (wsStep opts) evs createBrowserWebSocketTransport))"
      by (auto simp: ws_state_def ws_core_def ws_begun_def zip_append1 nth_append split: WsPhase.splits)
    with WsSend show ?thesis by (auto simp: callsOf_snoc)
  qed (use ws_run [OF h] ws_poll [OF h] in \<open>simp_all add: callsOf_snoc\<close>)
qed

section \<open>Properties\<close>

text \<open>
  C36: the in-memory pair delivers in order.  Over every sequence of sends, microtasks and
  subscriptions, a handler that stays subscribed on a side is called once with each message sent
  to that side, in the order they were sent, up to those whose microtask has not run.
\<close>
theorem memory_duplex_fifo:
  assumes "mem_ok side h s" and "md_tasks s = []" and "MemOff side h \<notin> set evs"
  shows "handledBy side h (fold memStep evs s) @ pendingTo side (fold memStep evs s) = handledBy side h s @ sentTo side evs"
proof -
  have "handledBy side h (fold memStep evs s) @ pendingTo side (fold memStep evs s) = handledBy side h s @ pendingTo side s @ sentTo side evs"
    using assms(1,3)
  proof (induction evs arbitrary: s)
    case (Cons ev evs)
    then have "ev \<noteq> MemOff side h" "MemOff side h \<notin> set evs" by auto
    note step = memStep_fifo [OF Cons.prems(1) this(1)]
    have "sentTo side (ev # evs) = sentTo side [ev] @ sentTo side evs" by (cases ev) simp_all
    with Cons.IH [OF conjunct1 [OF step] \<open>MemOff side h \<notin> set evs\<close>] conjunct2 [OF step] show ?case
      by (simp flip: append_assoc)
  qed simp
  with assms(2) show ?thesis by (simp add: pendingTo_def)
qed

theorem memory_duplex_fifo_witness:
  "handledBy SideB 7 (fold memStep [MemSend SideA ''x'', MemSend SideB ''z'', MemTask, MemSend SideA ''y'', MemTask, MemTask]
     (memStep (MemOnMessage SideB 7) createInMemoryDuplex)) = [''x'', ''y'']"
  using memory_duplex_fifo [of SideB 7 "memStep (MemOnMessage SideB 7) createInMemoryDuplex"
      "[MemSend SideA ''x'', MemSend SideB ''z'', MemTask, MemSend SideA ''y'', MemTask, MemTask]"]
  by (simp add: createInMemoryDuplex_def mem_ok_def addHandler_def pendingTo_def handledBy_def)

text \<open>
  C37: the queued backend applies in call order, one batch after the other, until the first
  failure, and never again after it.  Every call with ops has its outcome in turn; once the
  apply of one batch has failed no later batch is started, and the failed call, all waiting ones
  and all later ones are rejected with that one error.  The head lamport covers all of them.
\<close>
theorem queued_backend_breaks:
  "let s = fold (queueStep f) evs (makeQueuedSyncBackend m); calls = appliesOf evs in
     qb_maxLamport s = fold (\<lambda>ops. max (f ops)) calls m
   \<and> (case qb_broken s of
        None \<Rightarrow> \<exists>k. qb_outcomes s = replicate k (Inr ()) \<and> qb_started s = take (if qb_running s = None then k else Suc k) calls
          \<and> (qb_running s = None \<longrightarrow> k = length calls)
      | Some e \<Rightarrow> queueFlush s = Some (Inl e) \<and> qb_running s = None \<and> (\<exists>k < length calls. qb_started s = take (Suc k) calls
          \<and> qb_outcomes s = replicate k (Inr ()) @ replicate (length calls - k) (Inl e)))"
proof -
  let ?s = "fold (queueStep f) evs (makeQueuedSyncBackend m)"
  have "qb_maxLamport ?s = fold (\<lambda>ops. max (f ops)) (appliesOf evs) m" by (simp add: queue_maxLamport makeQueuedSyncBackend_def)
  with chain_runs [of evs f m] show ?thesis
    by (auto simp: Let_def chain_state_def queueFlush_def split: option.splits)
qed

definition demo_queue :: "int QueuedBackend" where
  "demo_queue = fold (queueStep sum_list) [QueueApply [1], QueueApply [5, 5], QueueSettled (Inr ()), QueueSettled (Inl ''disk''), QueueApply [3]]
     (makeQueuedSyncBackend 2)"

lemma demo_queue_runs: "qb_broken demo_queue = Some ''disk''" "qb_outcomes demo_queue = [Inr (), Inl ''disk'', Inl ''disk'']"
  by (simp_all add: demo_queue_def makeQueuedSyncBackend_def queueApply_def queueSettled_def startApply_def)

text \<open>The second of three batches fails: the third is rejected without being applied.\<close>

theorem queued_backend_breaks_witness: "qb_started demo_queue = [[1], [5, 5]] \<and> qb_maxLamport demo_queue = 10"
proof -
  note q = queued_backend_breaks [of sum_list
      "[QueueApply [1], QueueApply [5, 5], QueueSettled (Inr ()), QueueSettled (Inl ''disk''), QueueApply [3]]" 2,
      folded demo_queue_def, unfolded Let_def demo_queue_runs option.case]
  from conjunct2 [OF q] have "\<exists>k < Suc (Suc (Suc 0)). qb_started demo_queue = [1] # take k [[5, 5], [3]]
      \<and> [Inr (), Inl ''disk'', Inl ''disk''] = replicate k (Inr ()) @ replicate (Suc (Suc (Suc 0)) - k) (Inl ''disk'' :: unit res)" by simp
  then have "qb_started demo_queue = [[1], [5, 5]]" by (auto simp: less_Suc_eq)
  with conjunct1 [OF q] show ?thesis by simp
qed

text \<open>
  Sends over a browser WebSocket are queued.  Over every sequence of calls, runs and timers,
  the promises are settled in call order and the socket gets the bytes of calls in call order,
  each at most once; a call that resolved had its bytes handed over; a call that fails does not
  stop later ones; and a wait that is polled at or after its deadline is over.
\<close>
theorem websocket_sends_in_order:
  assumes "s = fold (wsStep opts) evs createBrowserWebSocketTransport"
  shows "(\<exists>handed. wsq_sent s = map fst (filter snd (zip (callsOf evs) handed))
      \<and> length (wsq_outcomes s) \<le> length handed \<and> length handed \<le> length (callsOf evs)
      \<and> (\<forall>i < length (wsq_outcomes s). wsq_outcomes s ! i = Inr () \<longrightarrow> handed ! i))
    \<and> (wsq_phase s = WsIdle \<and> wsq_queue s = [] \<longrightarrow> length (wsq_outcomes s) = length (callsOf evs))
    \<and> (wsq_phase s = WsAfterSend d \<and> d \<le> wv_now v \<longrightarrow>
        wsq_phase (wsPoll opts v err after s) = WsIdle \<and> length (wsq_outcomes (wsPoll opts v err after s)) = Suc (length (wsq_outcomes s)))"
proof -
  obtain h where h: "ws_state (callsOf evs) h s" using ws_runs assms by blast
  then have "wsq_sent s = map fst (filter snd (zip (callsOf evs) h)) \<and> length (wsq_outcomes s) \<le> length h \<and> length h \<le> length (callsOf evs)
      \<and> (\<forall>i < length (wsq_outcomes s). wsq_outcomes s ! i = Inr () \<longrightarrow> h ! i)"
    by (auto simp: ws_state_def ws_core_def ws_begun_def split: WsPhase.splits)
  moreover from h have "wsq_phase s = WsIdle \<and> wsq_queue s = [] \<longrightarrow> length (wsq_outcomes s) = length (callsOf evs)"
    by (auto simp: ws_state_def ws_core_def)
  moreover have "wsq_phase s = WsAfterSend d \<and> d \<le> wv_now v \<longrightarrow>
      wsq_phase (wsPoll opts v err after s) = WsIdle \<and> length (wsq_outcomes (wsPoll opts v err after s)) = Suc (length (wsq_outcomes s))"
    by (auto simp: wsPoll_def drainPoll_def wsSettle_def)
  ultimately show ?thesis by blast
qed

definition ws_view :: "bool \<Rightarrow> int \<Rightarrow> int \<Rightarrow> WsView" where
  "ws_view opened buffered now = \<lparr>wv_open = opened, wv_buffered = buffered, wv_now = now\<rparr>"

definition demo_ws :: WsTransport where
  "demo_ws = fold (wsStep (resolveWsOptions \<lparr>wg_highWaterMark = Some 10, wg_lowWaterMark = Some 4, wg_drainTimeoutMs = Some 50\<rparr>))
     [WsSend [1], WsSend [2], WsRunNext (ws_view True 20 0) None (ws_view True 0 0), WsTimer (ws_view True 20 8) None (ws_view True 20 8),
      WsTimer (ws_view True 2 16) None (ws_view True 0 16), WsRunNext (ws_view False 0 17) None (ws_view False 0 17)]
     createBrowserWebSocketTransport"

lemma demo_ws_runs: "wsq_sent demo_ws = [[1]]" "wsq_outcomes demo_ws = [Inr (), Inl ''websocket is not open'']"
  "wsq_phase demo_ws = WsIdle" "wsq_queue demo_ws = []"
  by (simp_all add: demo_ws_def ws_view_def resolveWsOptions_def orDefault_def createBrowserWebSocketTransport_def wsRun_def wsPoll_def
      wsDoSend_def wsSettle_def waitForWebSocketDrain_def drainPoll_def Let_def)

text \<open>A send that waits for the socket to drain, and one behind it that fails.\<close>

theorem websocket_sends_in_order_witness:
  "\<exists>handed. [[1]] = map fst (filter snd (zip [[1], [2 :: byte]] handed)) \<and> 2 \<le> length handed \<and> handed ! 0"
proof -
  let ?out = "[Inr (), Inl ''websocket is not open''] :: unit res list"
  have calls: "callsOf [WsSend [1], WsSend [2], WsRunNext (ws_view True 20 0) None (ws_view True 0 0),
      WsTimer (ws_view True 20 8) None (ws_view True 20 8), WsTimer (ws_view True 2 16) None (ws_view True 0 16),
      WsRunNext (ws_view False 0 17) None (ws_view False 0 17)] = [[1], [2]]" by simp
  obtain handed where h: "[[1]] = map fst (filter snd (zip [[1], [2 :: byte]] handed)) \<and> length ?out \<le> length handed
      \<and> length handed \<le> length [[1], [2 :: byte]] \<and> (\<forall>i < length ?out. ?out ! i = Inr () \<longrightarrow> handed ! i)"
    using conjunct1 [OF websocket_sends_in_order [OF demo_ws_def], unfolded demo_ws_runs calls] by (rule exE)
  then have "\<forall>i < length ?out. ?out ! i = Inr () \<longrightarrow> handed ! i" by blast
  from spec [OF this, of 0] have "handed ! 0" by simp
  with h show ?thesis by (intro exI [of _ handed]) simp
qed

end
