(* ===== verification/Presence_Mesh.thy ===== *)
theory Presence_Mesh
  imports Transports "HOL-Library.Multiset" "HOL-Library.Char_ord" "HOL-Library.List_Lexorder"
begin

text \<open>
  The presence mesh of \<^verbatim>\<open>packages/sync/protocol/src/presence.ts\<close>: peers that announce themselves on a
  broadcast channel, the connection opened to each, and their expiry.  The channel, the callbacks
  and the clock are functions on an outside world that may throw; the messages of the channel, the
  two timers and the calls from outside are events.  Times are integers.
\<close>

section \<open>State\<close>

record BroadcastPresencePeer =
  pp_id :: string
  pp_lastSeen :: int
  pp_ready :: bool

record ('w, 'c) MeshOptions =
  mo_channel :: 'c
  mo_selfId :: string
  mo_api :: "('w, 'c) ChannelApi"
  mo_isOnline :: "('w, bool) pm option"
  mo_nowMs :: "('w, int) pm"
  mo_peerTimeoutMs :: "int option"
  mo_onBroadcastMessage :: "(ChannelData \<Rightarrow> ('w, unit) pm) option"
  mo_onPeersChanged :: "(BroadcastPresencePeer list \<Rightarrow> ('w, unit) pm) option"
  mo_onPeerReady :: "(string \<Rightarrow> ('w, unit) pm) option"
  mo_onPeerTransport :: "(string \<Rightarrow> 'c BroadcastDuplex \<Rightarrow> ('w, ('w, unit) pm option) pm) option"
  mo_onPeerDisconnected :: "(string \<Rightarrow> ('w, unit) pm) option"

text \<open>A connection; \<open>cn_detach\<close> is what \<^verbatim>\<open>onPeerTransport\<close> returned, or nothing to do.\<close>

record ('w, 'c) Connection =
  cn_transport :: "'c BroadcastDuplex"
  cn_detach :: "('w, unit) pm"

text \<open>
  \<open>mh_listening\<close> and \<open>mh_timers\<close>: the channel's listener and the two timers are installed.
  \<open>mh_handedOut\<close>: the peers a transport was made for, whose wrapped handlers may still be called.
\<close>

record ('w, 'c) Mesh =
  mh_world :: 'w
  mh_connections :: "(string, ('w, 'c) Connection) jsmap"
  mh_lastSeen :: "(string, int) jsmap"
  mh_peerReady :: "string list"
  mh_listening :: bool
  mh_timers :: bool
  mh_handedOut :: "string list"

definition outM :: "('w, 'a) pm \<Rightarrow> (('w, 'c) Mesh, 'a) pm" where
  "outM m = (\<lambda>s. case m (mh_world s) of (r, w') \<Rightarrow> (r, s\<lparr>mh_world := w'\<rparr>))"

definition callOpt :: "('a \<Rightarrow> ('w, unit) pm) option \<Rightarrow> 'a \<Rightarrow> (('w, 'c) Mesh, unit) pm" where
  "callOpt f x = (case f of None \<Rightarrow> ret () | Some g \<Rightarrow> outM (g x))"

definition initMesh :: "'w \<Rightarrow> ('w, 'c) Mesh" where
  "initMesh w = \<lparr>mh_world = w, mh_connections = [], mh_lastSeen = [], mh_peerReady = [], mh_listening = False, mh_timers = False, mh_handedOut = []\<rparr>"

definition safePeerId :: "js_val \<Rightarrow> string option" where
  "safePeerId v = (case v of JString s \<Rightarrow> (let clean = trim_js s in if clean = [] then None else Some clean) | _ \<Rightarrow> None)"

definition numberOf :: "js_val \<Rightarrow> int option" where
  "numberOf v = (case v of JNumber n \<Rightarrow> Some n | _ \<Rightarrow> None)"

section \<open>Operations\<close>

definition getPeers :: "('w, 'c) Mesh \<Rightarrow> BroadcastPresencePeer list" where
  "getPeers s = map (\<lambda>(id, ts). \<lparr>pp_id = id, pp_lastSeen = ts, pp_ready = id \<in> set (mh_peerReady s)\<rparr>) (sort_key fst (mh_lastSeen s))"

definition updatePeers :: "('w, 'c) MeshOptions \<Rightarrow> (('w, 'c) Mesh, unit) pm" where
  "updatePeers opts = bnd (gets getPeers) (callOpt (mo_onPeersChanged opts))"

definition isOnline :: "('w, 'c) MeshOptions \<Rightarrow> ('w, bool) pm" where
  "isOnline opts = (case mo_isOnline opts of None \<Rightarrow> ret True | Some f \<Rightarrow> f)"

definition presenceMessage :: "string \<Rightarrow> string \<Rightarrow> js_val \<Rightarrow> int \<Rightarrow> ChannelData" where
  "presenceMessage t peerId toPeerId ts = DataObject \<lparr>pf_t = JString t, pf_peer_id = JString peerId, pf_to_peer_id = toPeerId, pf_ts = JNumber ts\<rparr>"

definition sendPresenceAck :: "('w, 'c) MeshOptions \<Rightarrow> string \<Rightarrow> (('w, 'c) Mesh, unit) pm" where
  "sendPresenceAck opts toPeerId = outM (bnd (mo_nowMs opts) (\<lambda>now.
     ch_post (mo_api opts) (mo_channel opts) (presenceMessage ''presence_ack'' (mo_selfId opts) (JString toPeerId) now)))"

definition sendPresence :: "('w, 'c) MeshOptions \<Rightarrow> (('w, 'c) Mesh, unit) pm" where
  "sendPresence opts = outM (bnd (isOnline opts) (\<lambda>online. whenM online (bnd (mo_nowMs opts) (\<lambda>now.
     ch_post (mo_api opts) (mo_channel opts) (presenceMessage ''presence'' (mo_selfId opts) JUndefined now)))))"

definition ensureConnection :: "('w, 'c) MeshOptions \<Rightarrow> string \<Rightarrow> (('w, 'c) Mesh, unit) pm" where
  "ensureConnection opts peerId = (if peerId = [] \<or> peerId = mo_selfId opts then ret ()
     else bnd (gets mh_connections) (\<lambda>conns. if js_has conns peerId then ret ()
     else bnd (outM (createBroadcastDuplex (mo_api opts) (mo_channel opts) (mo_selfId opts) peerId)) (\<lambda>transport.
       sq (modify (\<lambda>s. s\<lparr>mh_handedOut := addHandler peerId (mh_handedOut s)\<rparr>))
       (bnd (case mo_onPeerTransport opts of None \<Rightarrow> ret None | Some f \<Rightarrow> outM (f peerId transport)) (\<lambda>detach.
       modify (\<lambda>s. s\<lparr>mh_connections := js_set peerId \<lparr>cn_transport = transport,
           cn_detach = (case detach of None \<Rightarrow> ret () | Some d \<Rightarrow> d)\<rparr> (mh_connections s)\<rparr>))))))"

text \<open>The wrapped transport a peer is handed.\<close>

definition meshSend :: "('w, 'c) MeshOptions \<Rightarrow> 'm WireCodec \<Rightarrow> 'c BroadcastDuplex \<Rightarrow> 'm \<Rightarrow> (('w, 'c) Mesh, unit) pm" where
  "meshSend opts codec transport msg = outM (bnd (isOnline opts) (\<lambda>online. whenM online (duplexSend (mo_api opts) codec transport msg)))"

definition meshReceive :: "('w, 'c) MeshOptions \<Rightarrow> string \<Rightarrow> ('w, unit) pm \<Rightarrow> (('w, 'c) Mesh, unit) pm" where
  "meshReceive opts peerId handler = bnd (outM (isOnline opts)) (\<lambda>online. whenM online
     (bnd (outM (mo_nowMs opts)) (\<lambda>now. sq (modify (\<lambda>s. s\<lparr>mh_lastSeen := js_set peerId now (mh_lastSeen s)\<rparr>)) (outM handler))))"

definition closeTransport :: "('w, 'c) MeshOptions \<Rightarrow> ('w, 'c) Connection \<Rightarrow> (('w, 'c) Mesh, unit) pm" where
  "closeTransport opts conn = outM (duplexClose (mo_api opts) (cn_transport conn))"

definition dropConnection :: "string \<Rightarrow> (('w, 'c) Mesh, unit) pm" where
  "dropConnection peerId = modify (\<lambda>s. s\<lparr>mh_connections := js_delete peerId (mh_connections s)\<rparr>)"

definition forgetPeer :: "string \<Rightarrow> (('w, 'c) Mesh, unit) pm" where
  "forgetPeer peerId = modify (\<lambda>s. s\<lparr>mh_lastSeen := js_delete peerId (mh_lastSeen s), mh_peerReady := removeAll peerId (mh_peerReady s)\<rparr>)"

text \<open>\<^verbatim>\<open>disconnectPeer\<close> and the prune timer share the block around \<^verbatim>\<open>detach\<close>.\<close>

definition releaseConnection :: "('w, 'c) MeshOptions \<Rightarrow> string \<Rightarrow> (('w, 'c) Mesh, unit) pm" where
  "releaseConnection opts peerId = bnd (gets mh_connections) (\<lambda>conns. case js_get conns peerId of None \<Rightarrow> ret ()
     | Some conn \<Rightarrow> tryFinally (outM (cn_detach conn)) (sq (closeTransport opts conn) (dropConnection peerId)))"

definition disconnectPeer :: "('w, 'c) MeshOptions \<Rightarrow> string \<Rightarrow> (('w, 'c) Mesh, unit) pm" where
  "disconnectPeer opts peerId = sq (releaseConnection opts peerId) (sq (forgetPeer peerId)
     (sq (callOpt (mo_onPeerDisconnected opts) peerId) (updatePeers opts)))"

definition onPresence :: "('w, 'c) MeshOptions \<Rightarrow> PresenceFields \<Rightarrow> (('w, 'c) Mesh, unit) pm" where
  "onPresence opts f = (case (safePeerId (pf_peer_id f), numberOf (pf_ts f)) of
       (Some peerId, Some ts) \<Rightarrow> if peerId = mo_selfId opts then ret ()
         else sq (modify (\<lambda>s. s\<lparr>mh_lastSeen := js_set peerId ts (mh_lastSeen s)\<rparr>))
           (sq (ensureConnection opts peerId) (sq (sendPresenceAck opts peerId) (updatePeers opts)))
     | _ \<Rightarrow> ret ())"

definition onPresenceAck :: "('w, 'c) MeshOptions \<Rightarrow> PresenceFields \<Rightarrow> (('w, 'c) Mesh, unit) pm" where
  "onPresenceAck opts f = (case (safePeerId (pf_peer_id f), safePeerId (pf_to_peer_id f), numberOf (pf_ts f)) of
       (Some peerId, Some toPeerId, Some ts) \<Rightarrow> if peerId = mo_selfId opts \<or> toPeerId \<noteq> mo_selfId opts then ret ()
         else sq (modify (\<lambda>s. s\<lparr>mh_lastSeen := js_set peerId ts (mh_lastSeen s)\<rparr>))
           (sq (ensureConnection opts peerId)
           (bnd (gets (\<lambda>s. peerId \<in> set (mh_peerReady s))) (\<lambda>wasReady.
            sq (modify (\<lambda>s. s\<lparr>mh_peerReady := addHandler peerId (mh_peerReady s)\<rparr>))
            (sq (whenM (\<not> wasReady) (callOpt (mo_onPeerReady opts) peerId)) (updatePeers opts)))))
     | _ \<Rightarrow> ret ())"

definition onBroadcast :: "('w, 'c) MeshOptions \<Rightarrow> ChannelData \<Rightarrow> (('w, 'c) Mesh, unit) pm" where
  "onBroadcast opts dat = (case dat of
       DataObject f \<Rightarrow> if pf_t f = JString ''presence'' then onPresence opts f
         else if pf_t f = JString ''presence_ack'' then onPresenceAck opts f
         else callOpt (mo_onBroadcastMessage opts) dat
     | _ \<Rightarrow> callOpt (mo_onBroadcastMessage opts) dat)"

definition peerTimeoutMs :: "('w, 'c) MeshOptions \<Rightarrow> int" where
  "peerTimeoutMs opts = (case mo_peerTimeoutMs opts of None \<Rightarrow> 5000 | Some t \<Rightarrow> t)"

definition prunePeer :: "('w, 'c) MeshOptions \<Rightarrow> int \<Rightarrow> string \<times> int \<Rightarrow> (('w, 'c) Mesh, unit) pm" where
  "prunePeer opts now p = (case p of (peerId, ts) \<Rightarrow> if now - ts \<le> peerTimeoutMs opts then ret ()
     else sq (forgetPeer peerId) (sq (releaseConnection opts peerId) (callOpt (mo_onPeerDisconnected opts) peerId)))"

definition pruneTick :: "('w, 'c) MeshOptions \<Rightarrow> (('w, 'c) Mesh, unit) pm" where
  "pruneTick opts = bnd (outM (mo_nowMs opts)) (\<lambda>now. bnd (gets mh_lastSeen) (\<lambda>entries.
     sq (for_each (prunePeer opts now) entries)
     (whenM (\<exists>p \<in> set entries. \<not> now - snd p \<le> peerTimeoutMs opts) (updatePeers opts))))"

definition postBroadcastMessage :: "('w, 'c) MeshOptions \<Rightarrow> ChannelData \<Rightarrow> (('w, 'c) Mesh, bool) pm" where
  "postBroadcastMessage opts msg = outM (bnd (isOnline opts) (\<lambda>online.
     if online then sq (ch_post (mo_api opts) (mo_channel opts) msg) (ret True) else ret False))"

definition stopOne :: "('w, 'c) MeshOptions \<Rightarrow> string \<times> ('w, 'c) Connection \<Rightarrow> (('w, 'c) Mesh, unit) pm" where
  "stopOne opts p = (case p of (peerId, conn) \<Rightarrow>
     sq (tryFinally (outM (cn_detach conn)) (closeTransport opts conn)) (dropConnection peerId))"

definition stopMesh :: "('w, 'c) MeshOptions \<Rightarrow> (('w, 'c) Mesh, unit) pm" where
  "stopMesh opts = sq (modify (\<lambda>s. s\<lparr>mh_timers := False, mh_listening := False\<rparr>)) (sq (outM (ch_unlisten (mo_api opts) (mo_channel opts)))
     (bnd (gets mh_connections) (\<lambda>conns. sq (for_each (stopOne opts) conns)
     (sq (modify (\<lambda>s. s\<lparr>mh_lastSeen := [], mh_peerReady := []\<rparr>)) (updatePeers opts)))))"

definition createBroadcastPresenceMesh :: "('w, 'c) MeshOptions \<Rightarrow> (('w, 'c) Mesh, unit) pm" where
  "createBroadcastPresenceMesh opts = sq (outM (ch_listen (mo_api opts) (mo_channel opts)))
     (sq (modify (\<lambda>s. s\<lparr>mh_listening := True\<rparr>)) (sq (sendPresence opts) (modify (\<lambda>s. s\<lparr>mh_timers := True\<rparr>))))"

section \<open>Events\<close>

datatype 'w MeshEvent = MeshBroadcast ChannelData | MeshPresenceTimer | MeshPruneTimer | MeshDisconnect string
  | MeshMessage string "('w, unit) pm" | MeshPost ChannelData | MeshStop

text \<open>
  The channel's listener and the timers run until \<^verbatim>\<open>stop\<close>; a message of a peer reaches a handler of a
  transport that was handed out.
\<close>

definition runMesh :: "(('w, 'c) Mesh, 'a) pm \<Rightarrow> ('w, 'c) Mesh \<Rightarrow> ('w, 'c) Mesh" where
  "runMesh m s = snd (m s)"

fun meshStep :: "('w, 'c) MeshOptions \<Rightarrow> 'w MeshEvent \<Rightarrow> ('w, 'c) Mesh \<Rightarrow> ('w, 'c) Mesh" where
  "meshStep opts (MeshBroadcast dat) s = (if mh_listening s then runMesh (onBroadcast opts dat) s else s)"
| "meshStep opts MeshPresenceTimer s = (if mh_timers s then runMesh (sendPresence opts) s else s)"
| "meshStep opts MeshPruneTimer s = (if mh_timers s then runMesh (pruneTick opts) s else s)"
| "meshStep opts (MeshDisconnect peerId) s = runMesh (disconnectPeer opts peerId) s"
| "meshStep opts (MeshMessage peerId handler) s =
     (if peerId \<in> set (mh_handedOut s) then runMesh (meshReceive opts peerId handler) s else s)"
| "meshStep opts (MeshPost msg) s = runMesh (postBroadcastMessage opts msg) s"
| "meshStep opts MeshStop s = runMesh (stopMesh opts) s"

section \<open>Channels that are open\<close>

text \<open>\<open>opn\<close> observes the channels created and not yet closed.\<close>

definition keepsOpen :: "('w \<Rightarrow> 'c multiset) \<Rightarrow> ('w, 'a) pm \<Rightarrow> bool" where
  "keepsOpen opn m \<longleftrightarrow> steps (\<lambda>w w'. opn w' = opn w) m"

interpretation ko: step_closed "\<lambda>w w'. opn w' = opn w" for opn :: "'w \<Rightarrow> 'c multiset"
  by unfold_locales auto

definition connChannels :: "(string, ('w, 'c) Connection) jsmap \<Rightarrow> 'c multiset" where
  "connChannels conns = (\<Sum>p\<in>#mset conns. {#bd_incoming (cn_transport (snd p)), bd_outgoing (cn_transport (snd p))#})"

definition neverThrows :: "('w, 'a) pm \<Rightarrow> bool" where
  "neverThrows m \<longleftrightarrow> (\<forall>w. is_ok (fst (m w)))"

text \<open>
  Creating a channel opens one more, closing it (which never throws) one less, and nothing else
  touches them.
\<close>

definition lawful_mesh :: "('w, 'c) MeshOptions \<Rightarrow> ('w \<Rightarrow> 'c multiset) \<Rightarrow> bool" where
  "lawful_mesh opts opn \<longleftrightarrow>
     (\<forall>name w r w'. ch_create (mo_api opts) name w = (r, w') \<longrightarrow> opn w' = (case r of Inl _ \<Rightarrow> opn w | Inr c \<Rightarrow> add_mset c (opn w)))
   \<and> (\<forall>c w r w'. ch_close (mo_api opts) c w = (r, w') \<longrightarrow> r = Inr () \<and> opn w' = opn w - {#c#})
   \<and> (\<forall>c. keepsOpen opn (ch_listen (mo_api opts) c) \<and> keepsOpen opn (ch_unlisten (mo_api opts) c) \<and> neverThrows (ch_unlisten (mo_api opts) c))
   \<and> (\<forall>c d. keepsOpen opn (ch_post (mo_api opts) c d))
   \<and> keepsOpen opn (mo_nowMs opts) \<and> keepsOpen opn (isOnline opts)
   \<and> (\<forall>f x. mo_onBroadcastMessage opts = Some f \<longrightarrow> keepsOpen opn (f x))
   \<and> (\<forall>f x. mo_onPeersChanged opts = Some f \<longrightarrow> keepsOpen opn (f x))
   \<and> (\<forall>f x. mo_onPeerReady opts = Some f \<longrightarrow> keepsOpen opn (f x))
   \<and> (\<forall>f x. mo_onPeerDisconnected opts = Some f \<longrightarrow> keepsOpen opn (f x))
   \<and> (\<forall>f p d. mo_onPeerTransport opts = Some f \<longrightarrow> keepsOpen opn (f p d)
        \<and> (\<forall>w g w'. f p d w = (Inr (Some g), w') \<longrightarrow> keepsOpen opn g))"

definition opening_succeeds :: "('w, 'c) MeshOptions \<Rightarrow> bool" where
  "opening_succeeds opts \<longleftrightarrow> (\<forall>name. neverThrows (ch_create (mo_api opts) name))
     \<and> (\<forall>f p d. mo_onPeerTransport opts = Some f \<longrightarrow> neverThrows (f p d))"

text \<open>The invariant; connected peers in \<open>X\<close> need not be listed, those in \<open>P\<close> are listed.\<close>

definition mesh_inv :: "('w, 'c) MeshOptions \<Rightarrow> ('w \<Rightarrow> 'c multiset) \<Rightarrow> string set \<Rightarrow> string set \<Rightarrow> ('w, 'c) Mesh \<Rightarrow> bool" where
  "mesh_inv opts opn X P s \<longleftrightarrow> P \<subseteq> fst ` set (mh_lastSeen s) \<and> js_wf (mh_connections s) \<and> js_wf (mh_lastSeen s)
     \<and> (\<forall>p conn. (p, conn) \<in> set (mh_connections s) \<longrightarrow>
          keepsOpen opn (cn_detach conn) \<and> p \<in> set (mh_handedOut s) \<and> (p \<in> X \<or> p \<in> fst ` set (mh_lastSeen s)))
     \<and> set (mh_peerReady s) \<subseteq> fst ` set (mh_lastSeen s)
     \<and> mo_selfId opts \<notin> fst ` set (mh_lastSeen s) \<and> mo_selfId opts \<notin> set (mh_handedOut s)
     \<and> (\<exists>leak. opn (mh_world s) = connChannels (mh_connections s) + leak \<and> (opening_succeeds opts \<longrightarrow> leak = {#}))"

abbreviation "keeps_mesh opts opn P m \<equiv> steps (preserves (mesh_inv opts opn {} P)) m"

lemma js_set_new: "\<not> js_has m k \<Longrightarrow> js_set k v m = m @ [(k, v)]"
  by (induction m) (auto simp: js_has_def js_get_def split: if_splits)

lemma connChannels_simps [simp]:
  "connChannels [] = {#}"
  "connChannels (p # m) = {#bd_incoming (cn_transport (snd p)), bd_outgoing (cn_transport (snd p))#} + connChannels m"
  "connChannels (m @ n) = connChannels m + connChannels n"
  by (simp_all add: connChannels_def)

lemma connChannels_delete:
  assumes "js_wf m" "js_get m k = Some conn"
  shows "connChannels m = {#bd_incoming (cn_transport conn), bd_outgoing (cn_transport conn)#} + connChannels (js_delete k m)"
  using assms
proof (induction m)
  case (Cons p m)
  obtain k' c where p: "p = (k', c)" by fastforce
  show ?case
  proof (cases "k' = k")
    case True
    with Cons.prems p have "js_get m k = None" "conn = c" by (auto simp: js_wf_def js_get_def map_of_eq_None_iff)
    then have "js_delete k m = m" by (simp add: js_delete_absent)
    with True p \<open>conn = c\<close> show ?thesis by (simp add: js_delete_def)
  next
    case False
    with Cons p show ?thesis by (simp add: js_delete_def js_wf_def js_get_def)
  qed
qed (simp add: js_get_def)

lemma js_delete_set: "set (js_delete k m) = {p \<in> set m. fst p \<noteq> k}" "fst ` set (js_delete k m) = fst ` set m - {k}"
  by (force simp: js_delete_def)+

lemma js_delete_mem: "p \<in> set (js_delete k m) \<Longrightarrow> p \<in> set m"
  by (simp add: js_delete_set)

lemma not_key: "k \<notin> fst ` set m \<Longrightarrow> (k, v) \<notin> set m"
  by force

lemma js_set_set: "p \<in> set (js_set k v m) \<Longrightarrow> p = (k, v) \<or> p \<in> set m"
  by (induction k v m rule: js_set.induct) (auto split: if_splits)

lemma outM_keeps: "keepsOpen opn m \<Longrightarrow> steps (preserves (mesh_inv opts opn X P)) (outM m)"
  by (auto simp: steps_def preserves_def outM_def mesh_inv_def keepsOpen_def split: prod.splits)

lemma callOpt_keeps: "(\<And>g. f = Some g \<Longrightarrow> keepsOpen opn (g x)) \<Longrightarrow> steps (preserves (mesh_inv opts opn X P)) (callOpt f x)"
  by (cases f) (auto simp: callOpt_def intro: outM_keeps pr.steps_ret)

section \<open>Operations keep the invariant\<close>

lemma lawful_calls:
  assumes "lawful_mesh opts opn"
  shows "keepsOpen opn (ch_post (mo_api opts) c d)" "keepsOpen opn (mo_nowMs opts)" "keepsOpen opn (isOnline opts)"
    "keepsOpen opn (ch_listen (mo_api opts) c)" "keepsOpen opn (ch_unlisten (mo_api opts) c)"
    "mo_onBroadcastMessage opts = Some f \<Longrightarrow> keepsOpen opn (f x)" "mo_onPeersChanged opts = Some g \<Longrightarrow> keepsOpen opn (g y)"
    "mo_onPeerReady opts = Some h \<Longrightarrow> keepsOpen opn (h z)" "mo_onPeerDisconnected opts = Some h \<Longrightarrow> keepsOpen opn (h z)"
  using assms by (simp_all add: lawful_mesh_def)

lemma lawful_close:
  assumes "lawful_mesh opts opn" "ch_close (mo_api opts) c w = (r, w')"
  shows "r = Inr () \<and> opn w' = opn w - {#c#}"
proof -
  from assms(1) have "\<forall>c w r w'. ch_close (mo_api opts) c w = (r, w') \<longrightarrow> r = Inr () \<and> opn w' = opn w - {#c#}"
    unfolding lawful_mesh_def by (elim conjE)
  with assms(2) show ?thesis by blast
qed

lemma lawful_transport:
  assumes "lawful_mesh opts opn" "(case mo_onPeerTransport opts of None \<Rightarrow> ret None | Some f \<Rightarrow> f p d) v = (q, u)"
  shows "opn u = opn v" "opening_succeeds opts \<Longrightarrow> is_ok q" "q = Inr (Some g) \<Longrightarrow> keepsOpen opn g"
proof -
  have law: "keepsOpen opn (f p d)" "f p d w = (Inr (Some g), w') \<Longrightarrow> keepsOpen opn g" if "mo_onPeerTransport opts = Some f" for f w g w'
    using assms(1) that by (simp_all add: lawful_mesh_def) blast
  show "opn u = opn v" "q = Inr (Some g) \<Longrightarrow> keepsOpen opn g"
    using assms(2) law by (auto simp: keepsOpen_def dest: stepsD split: option.splits)
  show "is_ok q" if "opening_succeeds opts"
  proof (cases "mo_onPeerTransport opts")
    case (Some f)
    with that have "is_ok (fst (f p d v))" by (simp add: opening_succeeds_def neverThrows_def)
    with Some assms(2) show ?thesis by simp
  qed (use assms(2) in auto)
qed

lemma keeps_updatePeers: "lawful_mesh opts opn \<Longrightarrow> steps (preserves (mesh_inv opts opn X P)) (updatePeers opts)"
  unfolding updatePeers_def by (intro pr.steps_rules callOpt_keeps lawful_calls)

lemma keeps_sendPresenceAck: "lawful_mesh opts opn \<Longrightarrow> steps (preserves (mesh_inv opts opn X P)) (sendPresenceAck opts p)"
  unfolding sendPresenceAck_def keepsOpen_def
  by (intro outM_keeps) (auto simp: keepsOpen_def intro!: ko.steps_rules dest: lawful_calls [unfolded keepsOpen_def])

lemma keeps_sendPresence: "lawful_mesh opts opn \<Longrightarrow> steps (preserves (mesh_inv opts opn X P)) (sendPresence opts)"
  unfolding sendPresence_def
  by (intro outM_keeps) (auto simp: keepsOpen_def intro!: ko.steps_rules dest: lawful_calls [unfolded keepsOpen_def])

lemma keeps_post: "lawful_mesh opts opn \<Longrightarrow> steps (preserves (mesh_inv opts opn X P)) (postBroadcastMessage opts d)"
  unfolding postBroadcastMessage_def
  by (intro outM_keeps) (auto simp: keepsOpen_def intro!: ko.steps_rules dest: lawful_calls [unfolded keepsOpen_def])

lemma duplex_opens:
  assumes "lawful_mesh opts opn" "createBroadcastDuplex (mo_api opts) c self p w = (r, w')"
  shows "(case r of Inr d \<Rightarrow> opn w' = {#bd_incoming d, bd_outgoing d#} + opn w
    | Inl _ \<Rightarrow> \<not> opening_succeeds opts \<and> (\<exists>leak. opn w' = opn w + leak))"
proof -
  let ?create = "ch_create (mo_api opts)"
  have create: "opn v' = (case q of Inl _ \<Rightarrow> opn v | Inr x \<Rightarrow> add_mset x (opn v))" "opening_succeeds opts \<Longrightarrow> is_ok q"
    if "?create name v = (q, v')" for name v q v'
    using assms(1) that by (auto simp: lawful_mesh_def opening_succeeds_def neverThrows_def dest: spec [of _ v])
      (metis fst_conv)
  from assms(2) [unfolded createBroadcastDuplex_def] show ?thesis
  proof (cases rule: bnd_E)
    case (err e)
    from create [OF err(1)] err(2) show ?thesis by auto
  next
    case (ok incoming v)
    note first = create [OF ok(1)]
    from ok(2) show ?thesis
    proof (cases rule: bnd_E)
      case (err e)
      from create [OF err(1)] err(2) first show ?thesis by (auto intro: exI [of _ "{#incoming#}"])
    next
      case (ok outgoing u)
      from create [OF ok(1)] ok(2) first show ?thesis by auto
    qed
  qed
qed

lemma keeps_ensureConnection:
  assumes "lawful_mesh opts opn" "p \<in> P"
  shows "keeps_mesh opts opn P (ensureConnection opts p)"
proof (rule stepsI, rule preservesI)
  fix s r s'
  assume run: "ensureConnection opts p s = (r, s')" and inv: "mesh_inv opts opn {} P s"
  show "mesh_inv opts opn {} P s'"
  proof (cases "p = [] \<or> p = mo_selfId opts \<or> js_has (mh_connections s) p")
    case True
    with run inv show ?thesis by (auto simp: ensureConnection_def pm_simps split: if_splits)
  next
    case False
    obtain q v where open': "createBroadcastDuplex (mo_api opts) (mo_channel opts) (mo_selfId opts) p (mh_world s) = (q, v)" by fastforce
    note opened = duplex_opens [OF assms(1) open']
    from inv obtain leak where leak: "opn (mh_world s) = connChannels (mh_connections s) + leak" "opening_succeeds opts \<longrightarrow> leak = {#}"
      unfolding mesh_inv_def by blast
    show ?thesis
    proof (cases q)
      case (Inl e)
      with False run open' have s': "s' = s\<lparr>mh_world := v\<rparr>" by (auto simp: ensureConnection_def pm_simps outM_def)
      from Inl opened leak have "\<exists>l. opn v = connChannels (mh_connections s) + l \<and> (opening_succeeds opts \<longrightarrow> l = {#})"
        by (auto simp: ac_simps)
      with inv show ?thesis unfolding s' mesh_inv_def by simp
    next
      case (Inr d)
      let ?s1 = "s\<lparr>mh_world := v, mh_handedOut := addHandler p (mh_handedOut s)\<rparr>"
      obtain q' u where cb: "(case mo_onPeerTransport opts of None \<Rightarrow> ret None | Some f \<Rightarrow> f p d) v = (q', u)" by fastforce
      note cb_law = lawful_transport [OF assms(1) cb]
      from Inr False run open' cb have s': "s' = (case q' of Inl _ \<Rightarrow> ?s1\<lparr>mh_world := u\<rparr>
          | Inr detach \<Rightarrow> ?s1\<lparr>mh_world := u, mh_connections := js_set p \<lparr>cn_transport = d,
              cn_detach = (case detach of None \<Rightarrow> ret () | Some g \<Rightarrow> g)\<rparr> (mh_connections s)\<rparr>)"
        by (auto simp: ensureConnection_def pm_simps outM_def split: option.splits sum.splits prod.splits)
      have fresh: "p \<noteq> mo_selfId opts" "p \<in> fst ` set (mh_lastSeen s)" using False assms(2) inv by (auto simp: mesh_inv_def)
      show ?thesis
      proof (cases q')
        case (Inl e)
        from cb_law(2) Inl have "\<not> opening_succeeds opts" by auto
        moreover have "opn u = connChannels (mh_connections s) + ({#bd_incoming d, bd_outgoing d#} + leak)"
          using cb_law(1) opened \<open>q = Inr d\<close> leak(1) by (simp add: ac_simps)
        ultimately have "\<exists>l. opn u = connChannels (mh_connections s) + l \<and> (opening_succeeds opts \<longrightarrow> l = {#})" by blast
        with inv Inl fresh show ?thesis unfolding s' mesh_inv_def by (auto simp: addHandler_def)
      next
        case (Inr detach)
        have kd: "keepsOpen opn (case detach of None \<Rightarrow> ret () | Some g \<Rightarrow> g)"
          using cb_law(3) Inr by (cases detach) (auto simp: keepsOpen_def intro: ko.steps_ret)
        have "opn u = connChannels (mh_connections s @ [(p, \<lparr>cn_transport = d, cn_detach = f\<rparr>)]) + leak" for f
          using cb_law(1) opened \<open>q = Inr d\<close> leak(1) by (simp add: ac_simps)
        with inv Inr fresh kd leak(2) False show ?thesis unfolding s' mesh_inv_def
          by (auto simp: addHandler_def js_set_new js_wf_def js_has_def js_get_def map_of_eq_None_iff)
      qed
    qed
  qed
qed

lemma inv_absent: "mesh_inv opts opn X P s \<Longrightarrow> js_get (mh_connections s) p = None \<Longrightarrow> mesh_inv opts opn (X - {p}) P s"
proof -
  assume inv: "mesh_inv opts opn X P s" and none: "js_get (mh_connections s) p = None"
  then have "(p, conn) \<notin> set (mh_connections s)" for conn by (simp add: js_get_def map_of_eq_None_iff not_key)
  then have "\<forall>q conn. (q, conn) \<in> set (mh_connections s) \<longrightarrow>
      keepsOpen opn (cn_detach conn) \<and> q \<in> set (mh_handedOut s) \<and> (q \<in> X - {p} \<or> q \<in> fst ` set (mh_lastSeen s))"
    using inv unfolding mesh_inv_def by blast
  with inv show ?thesis unfolding mesh_inv_def by simp
qed

lemma release_eval:
  assumes "lawful_mesh opts opn" "mesh_inv opts opn X P s" "releaseConnection opts p s = (r, s')"
  shows "mesh_inv opts opn (X - {p}) P s' \<and> js_get (mh_connections s') p = None \<and> mh_lastSeen s' = mh_lastSeen s
    \<and> mh_connections s' = js_delete p (mh_connections s)"
proof (cases "js_get (mh_connections s) p")
  case None
  with assms(3) have "s' = s" by (simp add: releaseConnection_def pm_simps)
  then show ?thesis using None inv_absent [OF assms(2) None] by (simp add: js_delete_absent)
next
  case (Some conn)
  let ?d = "cn_transport conn"
  obtain q v where det: "cn_detach conn (mh_world s) = (q, v)" by fastforce
  obtain r1 v1 where c1: "ch_close (mo_api opts) (bd_incoming ?d) v = (r1, v1)" by fastforce
  obtain r2 v2 where c2: "ch_close (mo_api opts) (bd_outgoing ?d) v1 = (r2, v2)" by fastforce
  note closes = lawful_close [OF assms(1)]
  note closed = closes [OF c1] closes [OF c2]
  have s': "s' = s\<lparr>mh_world := v2, mh_connections := js_delete p (mh_connections s)\<rparr>"
    using assms(3) Some det c1 c2 closed
    by (auto simp: releaseConnection_def pm_simps outM_def closeTransport_def duplexClose_def dropConnection_def)
  have wf: "js_wf (mh_connections s)" and mem: "(p, conn) \<in> set (mh_connections s)"
    using assms(2) js_get_in [OF Some] by (simp_all add: mesh_inv_def)
  with assms(2) have "keepsOpen opn (cn_detach conn)" by (auto simp: mesh_inv_def)
  with det have "opn v = opn (mh_world s)" by (auto simp: keepsOpen_def dest: stepsD)
  moreover from assms(2) obtain leak where "opn (mh_world s) = connChannels (mh_connections s) + leak" "opening_succeeds opts \<longrightarrow> leak = {#}"
    unfolding mesh_inv_def by blast
  ultimately have "opn v2 = connChannels (js_delete p (mh_connections s)) + leak" "opening_succeeds opts \<longrightarrow> leak = {#}"
    using closed connChannels_delete [OF wf Some] by simp_all
  then have "\<exists>leak. opn v2 = connChannels (js_delete p (mh_connections s)) + leak \<and> (opening_succeeds opts \<longrightarrow> leak = {#})" by blast
  with assms(2) show ?thesis unfolding s' mesh_inv_def by (auto simp: js_delete_set)
qed

lemma forget_inv:
  assumes "mesh_inv opts opn X P s" "forgetPeer p s = (r, s')"
  shows "mesh_inv opts opn (insert p X) (P - {p}) s' \<and> mh_connections s' = mh_connections s"
proof -
  from assms(2) have s': "s' = s\<lparr>mh_lastSeen := js_delete p (mh_lastSeen s), mh_peerReady := removeAll p (mh_peerReady s)\<rparr>"
    by (simp add: forgetPeer_def)
  have keys: "fst ` set (js_delete p (mh_lastSeen s)) = fst ` set (mh_lastSeen s) - {p}" by (rule js_delete_set(2))
  from assms(1) show ?thesis unfolding s' mesh_inv_def by (simp add: keys) blast
qed

lemma inv_weaken: "mesh_inv opts opn X P s \<Longrightarrow> P' \<subseteq> P \<Longrightarrow> mesh_inv opts opn X P' s"
  by (auto simp: mesh_inv_def)

lemma keeps_disconnect:
  assumes "lawful_mesh opts opn"
  shows "keeps_mesh opts opn {} (disconnectPeer opts p)"
proof (rule stepsI, rule preservesI)
  fix s r s'
  assume run: "disconnectPeer opts p s = (r, s')" and inv: "mesh_inv opts opn {} {} s"
  from run [unfolded disconnectPeer_def] show "mesh_inv opts opn {} {} s'"
  proof (cases rule: sq_E)
    case (err e)
    with release_eval [OF assms inv err(1)] show ?thesis by simp
  next
    case (ok t)
    note rel = release_eval [OF assms inv ok(1)]
    obtain u where u: "forgetPeer p t = (Inr (), u)" by (simp add: forgetPeer_def)
    have "mesh_inv opts opn {} {} u"
      using forget_inv [OF _ u, of opts opn "{}" "{}"] rel inv_absent [of opts opn "{p}" "{}" u p] by simp
    moreover have "keeps_mesh opts opn {} (sq (callOpt (mo_onPeerDisconnected opts) p) (updatePeers opts))"
      by (intro pr.steps_sq callOpt_keeps lawful_calls [OF assms] keeps_updatePeers [OF assms])
    ultimately show ?thesis using ok(2) u by (auto simp: sq_ok dest!: stepsD simp: preserves_def)
  qed
qed

lemma keeps_prunePeer:
  assumes "lawful_mesh opts opn"
  shows "keeps_mesh opts opn {} (prunePeer opts now p)"
proof (rule stepsI, rule preservesI)
  fix s r s'
  assume run: "prunePeer opts now p s = (r, s')" and inv: "mesh_inv opts opn {} {} s"
  obtain peerId ts where p: "p = (peerId, ts)" by fastforce
  show "mesh_inv opts opn {} {} s'"
  proof (cases "now - ts \<le> peerTimeoutMs opts")
    case False
    obtain t where t: "forgetPeer peerId s = (Inr (), t)" by (simp add: forgetPeer_def)
    with forget_inv [OF inv t] have ti: "mesh_inv opts opn {peerId} {} t" by simp
    from run False t p have "sq (releaseConnection opts peerId) (callOpt (mo_onPeerDisconnected opts) peerId) t = (r, s')"
      by (simp add: prunePeer_def sq_ok)
    then show ?thesis
    proof (cases rule: sq_E)
      case (err e)
      with release_eval [OF assms ti err(1)] show ?thesis by simp
    next
      case (ok u)
      have "keeps_mesh opts opn {} (callOpt (mo_onPeerDisconnected opts) peerId)" by (intro callOpt_keeps lawful_calls [OF assms])
      with ok release_eval [OF assms ti ok(1)] show ?thesis by (auto dest!: stepsD simp: preserves_def)
    qed
  qed (use run inv p in \<open>simp add: prunePeer_def\<close>)
qed

lemma keeps_prune: "lawful_mesh opts opn \<Longrightarrow> keeps_mesh opts opn {} (pruneTick opts)"
  unfolding pruneTick_def
  by (intro pr.steps_rules outM_keeps lawful_calls keeps_prunePeer keeps_updatePeers)

lemma safePeerId_not_empty: "safePeerId v = Some p \<Longrightarrow> p \<noteq> []"
  by (auto simp: safePeerId_def Let_def split: js_val.splits if_splits)

text \<open>Noting when a peer was last seen lists it.\<close>

lemma seen_inv:
  assumes "mesh_inv opts opn X P s" "p \<noteq> mo_selfId opts"
  shows "mesh_inv opts opn X (insert p P) (s\<lparr>mh_lastSeen := js_set p ts (mh_lastSeen s)\<rparr>)"
  using assms by (auto simp: mesh_inv_def)

lemma seen_then:
  assumes "\<And>P. p \<in> P \<Longrightarrow> keeps_mesh opts opn P m" "p \<noteq> mo_selfId opts"
  shows "keeps_mesh opts opn {} (sq (modify (\<lambda>s. s\<lparr>mh_lastSeen := js_set p ts (mh_lastSeen s)\<rparr>)) m)"
proof (rule stepsI, rule preservesI)
  fix s r s'
  assume "sq (modify (\<lambda>s. s\<lparr>mh_lastSeen := js_set p ts (mh_lastSeen s)\<rparr>)) m s = (r, s')" and inv: "mesh_inv opts opn {} {} s"
  then have "m (s\<lparr>mh_lastSeen := js_set p ts (mh_lastSeen s)\<rparr>) = (r, s')" by (simp add: sq_eval)
  with assms(1) [of "{p}"] seen_inv [OF inv assms(2), of ts] have "mesh_inv opts opn {} {p} s'"
    by (auto dest!: stepsD simp: preserves_def)
  then show "mesh_inv opts opn {} {} s'" by (rule inv_weaken) simp
qed

lemma keeps_onPresence:
  assumes "lawful_mesh opts opn"
  shows "keeps_mesh opts opn {} (onPresence opts f)"
proof -
  have "keeps_mesh opts opn P (sq (ensureConnection opts p) (sq (sendPresenceAck opts p) (updatePeers opts)))" if "p \<in> P" for p P
    by (intro pr.steps_sq keeps_ensureConnection [OF assms that] keeps_sendPresenceAck [OF assms] keeps_updatePeers [OF assms])
  from seen_then [OF this] show ?thesis
    by (auto simp: onPresence_def intro: pr.steps_ret split: option.splits)
qed

lemma keeps_ready: "p \<in> P \<Longrightarrow> steps (preserves (mesh_inv opts opn X P)) (modify (\<lambda>s. s\<lparr>mh_peerReady := addHandler p (mh_peerReady s)\<rparr>))"
  by (rule pr.steps_modify) (auto simp: preserves_def mesh_inv_def addHandler_def)

lemma keeps_onPresenceAck:
  assumes "lawful_mesh opts opn"
  shows "keeps_mesh opts opn {} (onPresenceAck opts f)"
proof -
  have "keeps_mesh opts opn P (sq (ensureConnection opts p)
      (bnd (gets (\<lambda>s. p \<in> set (mh_peerReady s))) (\<lambda>wasReady.
       sq (modify (\<lambda>s. s\<lparr>mh_peerReady := addHandler p (mh_peerReady s)\<rparr>))
       (sq (whenM (\<not> wasReady) (callOpt (mo_onPeerReady opts) p)) (updatePeers opts)))))" if "p \<in> P" for p P
    by (intro pr.steps_sq pr.steps_bnd pr.steps_gets pr.steps_whenM keeps_ensureConnection [OF assms that] keeps_ready [OF that]
        callOpt_keeps lawful_calls [OF assms] keeps_updatePeers [OF assms])
  from seen_then [OF this] show ?thesis
    by (auto simp: onPresenceAck_def intro: pr.steps_ret split: option.splits)
qed

lemma keeps_onBroadcast: "lawful_mesh opts opn \<Longrightarrow> keeps_mesh opts opn {} (onBroadcast opts d)"
  by (cases d) (auto simp: onBroadcast_def intro!: keeps_onPresence keeps_onPresenceAck callOpt_keeps dest: lawful_calls)

text \<open>\<^verbatim>\<open>stop\<close>: the connections closed are those in front, the last of them perhaps with a failing \<^verbatim>\<open>detach\<close>.\<close>

lemma stopOne_eval:
  assumes "lawful_mesh opts opn" "mh_connections s = (p, conn) # conns" "js_wf ((p, conn) # conns)" "keepsOpen opn (cn_detach conn)"
    and "stopOne opts (p, conn) s = (r, s')"
  shows "\<exists>w. s' = s\<lparr>mh_world := w, mh_connections := (if is_ok r then conns else (p, conn) # conns)\<rparr>
    \<and> opn w = opn (mh_world s) - connChannels [(p, conn)] \<and> (is_ok r \<longleftrightarrow> is_ok (fst (cn_detach conn (mh_world s))))"
proof -
  let ?d = "cn_transport conn"
  obtain q v where det: "cn_detach conn (mh_world s) = (q, v)" by fastforce
  obtain r1 v1 where c1: "ch_close (mo_api opts) (bd_incoming ?d) v = (r1, v1)" by fastforce
  obtain r2 v2 where c2: "ch_close (mo_api opts) (bd_outgoing ?d) v1 = (r2, v2)" by fastforce
  note closes = lawful_close [OF assms(1)]
  have "js_delete p ((p, conn) # conns) = conns"
    using assms(3) by (auto simp: js_delete_def js_wf_def filter_id_conv dest: not_key)
  then have "s' = s\<lparr>mh_world := v2, mh_connections := (if is_ok q then conns else (p, conn) # conns)\<rparr>" "is_ok r = is_ok q"
    using assms(2,5) det c1 c2 closes [OF c1] closes [OF c2]
    by (auto simp: stopOne_def pm_simps outM_def closeTransport_def duplexClose_def dropConnection_def split: sum.splits)
  moreover have "opn v = opn (mh_world s)" using assms(4) det by (auto simp: keepsOpen_def dest: stepsD)
  ultimately show ?thesis using closes [OF c1] closes [OF c2] det by (intro exI [of _ v2]) (simp add: add_mset_commute)
qed

lemma stop_loop:
  assumes "lawful_mesh opts opn" "js_wf conns" "mh_connections s = conns" "\<forall>p conn. (p, conn) \<in> set conns \<longrightarrow> keepsOpen opn (cn_detach conn)"
    and "for_each (stopOne opts) conns s = (r, s')"
  shows "\<exists>k w. k \<le> length conns \<and> s' = s\<lparr>mh_world := w, mh_connections := drop k conns\<rparr>
    \<and> (if is_ok r then k = length conns \<and> opn w = opn (mh_world s) - connChannels conns
       else k < length conns \<and> opn w = opn (mh_world s) - connChannels (take (Suc k) conns)
          \<and> \<not> neverThrows (cn_detach (snd (conns ! k))))"
  using assms(2-)
proof (induction conns arbitrary: s)
  case Nil
  then show ?case by (intro exI [of _ 0] exI [of _ "mh_world s"]) auto
next
  case (Cons pc conns)
  obtain p conn where pc: "pc = (p, conn)" by fastforce
  with Cons.prems have at: "mh_connections s = (p, conn) # conns" "js_wf ((p, conn) # conns)" "keepsOpen opn (cn_detach conn)" by auto
  from Cons.prems(4) have "sq (stopOne opts (p, conn)) (for_each (stopOne opts) conns) s = (r, s')" by (simp add: pc)
  then show ?case
  proof (cases rule: sq_E)
    case (err e)
    from stopOne_eval [OF assms(1) at err(1)] obtain w where w: "s' = s\<lparr>mh_world := w, mh_connections := (p, conn) # conns\<rparr>"
      "opn w = opn (mh_world s) - connChannels [(p, conn)]" "\<not> is_ok (fst (cn_detach conn (mh_world s)))" by auto
    have "\<not> neverThrows (cn_detach conn)" using w(3) by (auto simp: neverThrows_def)
    with w err(2) show ?thesis by (intro exI [of _ 0] exI [of _ w]) (simp add: pc)
  next
    case (ok t)
    from stopOne_eval [OF assms(1) at ok(1)] obtain v where v: "t = s\<lparr>mh_world := v, mh_connections := conns\<rparr>"
      "opn v = opn (mh_world s) - connChannels [(p, conn)]" by auto
    have "js_wf conns" using at(2) by (simp add: js_wf_def)
    from Cons.IH [OF this _ _ ok(2)] Cons.prems(3) v(1) obtain k w where kw: "k \<le> length conns"
      "s' = t\<lparr>mh_world := w, mh_connections := drop k conns\<rparr>"
      "if is_ok r then k = length conns \<and> opn w = opn v - connChannels conns
       else k < length conns \<and> opn w = opn v - connChannels (take (Suc k) conns) \<and> \<not> neverThrows (cn_detach (snd (conns ! k)))"
      by (auto simp: pc)
    then show ?thesis using v by (intro exI [of _ "Suc k"] exI [of _ w]) (simp add: pc)
  qed
qed

definition detach_ok :: "('w, 'c) Mesh \<Rightarrow> bool" where
  "detach_ok s \<longleftrightarrow> (\<forall>p conn. (p, conn) \<in> set (mh_connections s) \<longrightarrow> neverThrows (cn_detach conn))"

lemma stop_eval:
  assumes "lawful_mesh opts opn" "mesh_inv opts opn X P s" "stopMesh opts s = (r, s')"
  shows "(mh_connections s' = [] \<and> mh_lastSeen s' = [] \<and> mh_peerReady s' = [] \<and> opn (mh_world s') = opn (mh_world s) - connChannels (mh_connections s))
    \<or> (\<not> is_ok r \<and> (\<exists>k < length (mh_connections s). mh_connections s' = drop k (mh_connections s) \<and> mh_lastSeen s' = mh_lastSeen s
        \<and> mh_peerReady s' = mh_peerReady s \<and> \<not> neverThrows (cn_detach (snd (mh_connections s ! k)))
        \<and> opn (mh_world s') = opn (mh_world s) - connChannels (take (Suc k) (mh_connections s))))"
proof -
  let ?c = "mh_connections s"
  obtain q v where un: "ch_unlisten (mo_api opts) (mo_channel opts) (mh_world s) = (q, v)" by fastforce
  from assms(1) have nt: "neverThrows (ch_unlisten (mo_api opts) c)" for c by (simp add: lawful_mesh_def)
  from nt [of "mo_channel opts"] un have q: "is_ok q" unfolding neverThrows_def by (metis fst_conv)
  have v: "opn v = opn (mh_world s)" using lawful_calls(5) [OF assms(1)] un by (auto simp: keepsOpen_def dest: stepsD)
  let ?t = "s\<lparr>mh_timers := False, mh_listening := False, mh_world := v\<rparr>"
  obtain r1 u where loop: "for_each (stopOne opts) ?c ?t = (r1, u)" by fastforce
  have "js_wf ?c" "\<forall>p conn. (p, conn) \<in> set ?c \<longrightarrow> keepsOpen opn (cn_detach conn)" using assms(2) unfolding mesh_inv_def by blast+
  from stop_loop [OF assms(1) this(1) _ this(2) loop] obtain k w where k: "u = ?t\<lparr>mh_world := w, mh_connections := drop k ?c\<rparr>"
    "if is_ok r1 then k = length ?c \<and> opn w = opn v - connChannels ?c
       else k < length ?c \<and> opn w = opn v - connChannels (take (Suc k) ?c) \<and> \<not> neverThrows (cn_detach (snd (?c ! k)))" by auto
  from assms(3) un q loop have run: "(r, s') = (case r1 of Inl e \<Rightarrow> (Inl e, u)
      | Inr _ \<Rightarrow> updatePeers opts (u\<lparr>mh_lastSeen := [], mh_peerReady := []\<rparr>))"
    by (auto simp: stopMesh_def pm_simps outM_def is_ok_iff split: sum.splits)
  show ?thesis
  proof (cases r1)
    case (Inl e)
    with run k v show ?thesis by auto
  next
    case (Inr x)
    let ?u = "u\<lparr>mh_lastSeen := [], mh_peerReady := []\<rparr>"
    obtain w' where s': "s' = ?u\<lparr>mh_world := w'\<rparr>" "opn w' = opn w"
    proof (cases "mo_onPeersChanged opts")
      case None
      with Inr run k(1) that [of w] show ?thesis by (simp add: updatePeers_def callOpt_def pm_simps)
    next
      case (Some g)
      from lawful_calls(7) [OF assms(1) Some] have "keepsOpen opn (g y)" for y .
      with Some Inr run k(1) that show ?thesis
        by (fastforce simp: updatePeers_def callOpt_def pm_simps outM_def keepsOpen_def dest: stepsD split: prod.splits)
    qed
    with k Inr v show ?thesis by simp
  qed
qed

lemma runMesh_keeps: "steps (preserves Q) m \<Longrightarrow> Q s \<Longrightarrow> Q (runMesh m s)"
  unfolding runMesh_def by (cases "m s") (auto dest: stepsD simp: preserves_def)

section \<open>What a prune removes\<close>

definition expired :: "('w, 'c) MeshOptions \<Rightarrow> int \<Rightarrow> string \<times> int \<Rightarrow> bool" where
  "expired opts now p \<longleftrightarrow> \<not> now - snd p \<le> peerTimeoutMs opts"

definition without :: "string set \<Rightarrow> (string, 'v) jsmap \<Rightarrow> (string, 'v) jsmap" where
  "without ks m = filter (\<lambda>p. fst p \<notin> ks) m"

lemma without_simps: "without {} m = m" "without ks (js_delete k m) = without (insert k ks) m"
  by (auto simp: without_def js_delete_def case_prod_beta' intro: filter_cong)

lemma callOpt_world: "callOpt f x s = (r, s') \<Longrightarrow> \<exists>w. s' = s\<lparr>mh_world := w\<rparr>"
  by (cases f) (auto simp: callOpt_def outM_def split: prod.splits intro: exI [of _ "mh_world s"])

lemma prune_loop:
  assumes "lawful_mesh opts opn" "mesh_inv opts opn {} {} s" "for_each (prunePeer opts now) es s = (Inr (), s')"
  shows "mh_lastSeen s' = without (fst ` {p \<in> set es. expired opts now p}) (mh_lastSeen s)
    \<and> mh_connections s' = without (fst ` {p \<in> set es. expired opts now p}) (mh_connections s)"
  using assms(2,3)
proof (induction es arbitrary: s)
  case (Cons e es)
  obtain p ts where e: "e = (p, ts)" by fastforce
  from Cons.prems(2) obtain t where t: "prunePeer opts now e s = (Inr (), t)" "for_each (prunePeer opts now) es t = (Inr (), s')"
    by (auto elim: sq_okE)
  have "mesh_inv opts opn {} {} t"
    using stepsD [OF keeps_prunePeer [OF assms(1)] t(1)] Cons.prems(1) by (simp add: preserves_def)
  note IH = Cons.IH [OF this t(2)]
  show ?case
  proof (cases "expired opts now e")
    case False
    with t(1) e have "t = s" by (simp add: prunePeer_def expired_def)
    moreover have "{x \<in> set (e # es). expired opts now x} = {x \<in> set es. expired opts now x}" using False by auto
    ultimately show ?thesis using IH by simp
  next
    case True
    obtain u where u: "forgetPeer p s = (Inr (), u)" by (simp add: forgetPeer_def)
    then have us: "mh_lastSeen u = js_delete p (mh_lastSeen s)" "mh_connections u = mh_connections s" by (auto simp: forgetPeer_def)
    from forget_inv [OF Cons.prems(1) u] have ui: "mesh_inv opts opn {p} {} u" by simp
    from t(1) True e u obtain v where v: "releaseConnection opts p u = (Inr (), v)" "callOpt (mo_onPeerDisconnected opts) p v = (Inr (), t)"
      by (auto simp: prunePeer_def expired_def sq_ok elim: sq_okE)
    with release_eval [OF assms(1) ui v(1)] callOpt_world [OF v(2)] us have "mh_lastSeen t = js_delete p (mh_lastSeen s)"
      "mh_connections t = js_delete p (mh_connections s)" by auto
    moreover have "fst ` {x \<in> set (e # es). expired opts now x} = insert p (fst ` {x \<in> set es. expired opts now x})" using True e by force
    ultimately show ?thesis using IH by (simp add: without_simps)
  qed
qed (simp add: without_simps)

section \<open>Properties\<close>

definition meshRun :: "('w, 'c) MeshOptions \<Rightarrow> 'w MeshEvent list \<Rightarrow> 'w \<Rightarrow> ('w, 'c) Mesh" where
  "meshRun opts evs w = fold (meshStep opts) evs (runMesh (createBroadcastPresenceMesh opts) (initMesh w))"

lemma meshRun_inv:
  assumes "lawful_mesh opts opn" "opn w = {#}" "MeshStop \<notin> set evs" "\<And>p h. MeshMessage p h \<in> set evs \<Longrightarrow> keepsOpen opn h"
  shows "mesh_inv opts opn {} {} (meshRun opts evs w)"
proof -
  have flags: "steps (preserves (mesh_inv opts opn {} {})) (modify (\<lambda>s. s\<lparr>mh_listening := True\<rparr>))"
    "steps (preserves (mesh_inv opts opn {} {})) (modify (\<lambda>s. s\<lparr>mh_timers := True\<rparr>))"
    by (rule pr.steps_modify, simp add: preserves_def mesh_inv_def)+
  have "keeps_mesh opts opn {} (createBroadcastPresenceMesh opts)"
    unfolding createBroadcastPresenceMesh_def
    by (intro pr.steps_sq outM_keeps lawful_calls [OF assms(1)] keeps_sendPresence [OF assms(1)] flags)
  moreover have "mesh_inv opts opn {} {} (initMesh w)" using assms(2) by (simp add: mesh_inv_def initMesh_def)
  ultimately have start: "mesh_inv opts opn {} {} (runMesh (createBroadcastPresenceMesh opts) (initMesh w))" by (rule runMesh_keeps)
  have receive: "keeps_mesh opts opn {} (meshReceive opts p h)" if "keepsOpen opn h" "p \<noteq> mo_selfId opts" for p h
    unfolding meshReceive_def
    by (intro pr.steps_bnd pr.steps_whenM outM_keeps lawful_calls [OF assms(1)] seen_then that)
  have step: "mesh_inv opts opn {} {} (meshStep opts ev s)" if "mesh_inv opts opn {} {} s" "ev \<in> set evs" for ev s
  proof -
  note run = runMesh_keeps [where Q = "mesh_inv opts opn {} {}", OF _ that(1)]
  show ?thesis
  proof (cases ev)
    case (MeshMessage p h)
    show ?thesis
    proof (cases "p \<in> set (mh_handedOut s)")
      case True
      with that(1) have "p \<noteq> mo_selfId opts" by (auto simp: mesh_inv_def)
      with MeshMessage that assms(4) [of p h] have "keeps_mesh opts opn {} (meshReceive opts p h)" by (intro receive) simp_all
      from run [OF this] MeshMessage True show ?thesis by simp
    qed (use MeshMessage that in simp)
  next
    case MeshStop
    with that(2) assms(3) show ?thesis by simp
  next
    case (MeshBroadcast d)
    from run [OF keeps_onBroadcast [OF assms(1), of d]] that(1) show ?thesis unfolding MeshBroadcast by (simp only: meshStep.simps simp_thms split: if_split)
  next
    case MeshPresenceTimer
    from run [OF keeps_sendPresence [OF assms(1)]] that(1) show ?thesis unfolding MeshPresenceTimer by (simp only: meshStep.simps simp_thms split: if_split)
  next
    case MeshPruneTimer
    from run [OF keeps_prune [OF assms(1)]] that(1) show ?thesis unfolding MeshPruneTimer by (simp only: meshStep.simps simp_thms split: if_split)
  next
    case (MeshDisconnect p)
    from run [OF keeps_disconnect [OF assms(1), of p]] show ?thesis unfolding MeshDisconnect by (simp only: meshStep.simps)
  next
    case (MeshPost d)
    from run [OF keeps_post [OF assms(1), of "{}" "{}" d]] show ?thesis unfolding MeshPost by (simp only: meshStep.simps)
  qed
  qed
  have "mesh_inv opts opn {} {} (fold (meshStep opts) es s)" if "mesh_inv opts opn {} {} s" "set es \<subseteq> set evs" for es s
    using that step by (induction es arbitrary: s) auto
  with start show ?thesis unfolding meshRun_def by blast
qed

lemma getPeers_ids:
  assumes "js_wf (mh_lastSeen s)" shows "map pp_id (getPeers s) = sorted_list_of_set (fst ` set (mh_lastSeen s))"
proof -
  have "map pp_id (getPeers s) = map fst (sort_key fst (mh_lastSeen s))" by (auto simp: getPeers_def)
  moreover have "distinct (map fst (sort_key fst (mh_lastSeen s)))"
    using assms mset_eq_imp_distinct_iff [of "map fst (sort_key fst (mh_lastSeen s))" "map fst (mh_lastSeen s)"] by (simp add: js_wf_def)
  ultimately show ?thesis by (intro sorted_distinct_set_unique) simp_all
qed

text \<open>
  C38: the mesh over every run of messages, timers, disconnections and posts.  A peer is never
  connected to itself or listed; whoever is connected or ready is listed, once, in order of ids;
  and both channels of every connection in the table are open.  As long as opening a connection
  does not throw, no other channel is: none leaks, whatever callbacks and \<^verbatim>\<open>detach\<close> functions throw.
\<close>
theorem mesh_invariant:
  assumes "lawful_mesh opts opn" and "opn w = {#}" and "MeshStop \<notin> set evs"
    and "\<And>p h. MeshMessage p h \<in> set evs \<Longrightarrow> keepsOpen opn h" and "s = meshRun opts evs w"
  shows "mo_selfId opts \<notin> fst ` set (mh_lastSeen s) \<and> map pp_id (getPeers s) = sorted_list_of_set (fst ` set (mh_lastSeen s))
    \<and> distinct (map fst (mh_connections s)) \<and> fst ` set (mh_connections s) \<subseteq> fst ` set (mh_lastSeen s)
    \<and> set (mh_peerReady s) \<subseteq> fst ` set (mh_lastSeen s)
    \<and> connChannels (mh_connections s) \<subseteq># opn (mh_world s)
    \<and> (opening_succeeds opts \<longrightarrow> opn (mh_world s) = connChannels (mh_connections s))"
proof -
  have inv: "mesh_inv opts opn {} {} s" unfolding assms(5) by (rule meshRun_inv [OF assms(1-4)])
  then have "\<forall>p conn. (p, conn) \<in> set (mh_connections s) \<longrightarrow> p \<in> fst ` set (mh_lastSeen s)" unfolding mesh_inv_def by blast
  then have "\<forall>x \<in> set (mh_connections s). fst x \<in> fst ` set (mh_lastSeen s)" by (metis prod.collapse)
  then have "fst ` set (mh_connections s) \<subseteq> fst ` set (mh_lastSeen s)" by (intro image_subsetI) blast
  with inv getPeers_ids [of s] show ?thesis unfolding mesh_inv_def by (auto simp: js_wf_def)
qed

text \<open>
  C39: stopping after such a run.  Either every connection is released, the peers are forgotten
  and each of their channels is closed once; or \<^verbatim>\<open>stop\<close> throws because some \<^verbatim>\<open>detach\<close> did, and then
  the connections from that one on stay in the table, those behind it with open channels, and all
  peers stay listed.
\<close>
theorem mesh_stop_releases:
  assumes "lawful_mesh opts opn" and "opn w = {#}" and "MeshStop \<notin> set evs"
    and "\<And>p h. MeshMessage p h \<in> set evs \<Longrightarrow> keepsOpen opn h" and "s = meshRun opts evs w" and "opening_succeeds opts"
    and "stopMesh opts s = (r, s')"
  shows "(mh_connections s' = [] \<and> mh_lastSeen s' = [] \<and> mh_peerReady s' = [] \<and> opn (mh_world s') = {#})
    \<or> (\<not> is_ok r \<and> \<not> detach_ok s \<and> (\<exists>k < length (mh_connections s). mh_connections s' = drop k (mh_connections s)
        \<and> mh_lastSeen s' = mh_lastSeen s \<and> opn (mh_world s') = connChannels (drop (Suc k) (mh_connections s))))"
proof -
  have inv: "mesh_inv opts opn {} {} s" unfolding assms(5) by (rule meshRun_inv [OF assms(1-4)])
  with assms(6) have open': "opn (mh_world s) = connChannels (mh_connections s)" unfolding mesh_inv_def by auto
  have split: "connChannels m - connChannels (take k m) = connChannels (drop k m)" for k and m :: "(string, ('a, 'b) Connection) jsmap"
    by (metis append_take_drop_id connChannels_simps(3) diff_union_cancelL)
  have bad: "\<not> detach_ok s" if "k < length (mh_connections s)" "\<not> neverThrows (cn_detach (snd (mh_connections s ! k)))" for k
    using that(2) nth_mem [OF that(1)] by (cases "mh_connections s ! k") (auto simp: detach_ok_def)
  from stop_eval [OF assms(1) inv assms(7)] show ?thesis unfolding open' split using bad by auto
qed

text \<open>
  A prune that returns removes exactly the peers not seen within the timeout (5000 ms unless
  given), their connections with them, and leaves everyone else as they were.
\<close>
theorem mesh_prune_exact:
  assumes "lawful_mesh opts opn" and "mesh_inv opts opn {} {} s" and "mo_nowMs opts (mh_world s) = (Inr now, v)"
    and "pruneTick opts s = (Inr (), s')"
  shows "mh_lastSeen s' = filter (\<lambda>(_, ts). now - ts \<le> peerTimeoutMs opts) (mh_lastSeen s)
    \<and> mh_connections s' = filter (\<lambda>(p, _). \<forall>ts. js_get (mh_lastSeen s) p = Some ts \<longrightarrow> now - ts \<le> peerTimeoutMs opts) (mh_connections s)"
proof -
  let ?t = "s\<lparr>mh_world := v\<rparr>" and ?es = "mh_lastSeen s"
  from assms(3,4) obtain u where u: "for_each (prunePeer opts now) ?es ?t = (Inr (), u)"
    "whenM (\<exists>p \<in> set ?es. \<not> now - snd p \<le> peerTimeoutMs opts) (updatePeers opts) u = (Inr (), s')"
    by (auto simp: pruneTick_def pm_simps outM_def split: prod.splits sum.splits)
  have "mesh_inv opts opn {} {} ?t"
    using stepsD [OF lawful_calls(2) [OF assms(1), unfolded keepsOpen_def] assms(3)] assms(2) by (simp add: mesh_inv_def)
  note loop = prune_loop [OF assms(1) this u(1)]
  have same: "mh_lastSeen s' = mh_lastSeen u \<and> mh_connections s' = mh_connections u"
  proof (cases "\<exists>p \<in> set ?es. \<not> now - snd p \<le> peerTimeoutMs opts")
    case True
    with u(2) have "callOpt (mo_onPeersChanged opts) (getPeers u) u = (Inr (), s')" by (simp add: updatePeers_def pm_simps)
    from callOpt_world [OF this] show ?thesis by auto
  qed (use u(2) in simp)
  have wf: "js_wf ?es" using assms(2) by (simp add: mesh_inv_def)
  have key: "p \<in> fst ` {x \<in> set ?es. expired opts now x} \<longleftrightarrow> (\<exists>ts. js_get ?es p = Some ts \<and> \<not> now - ts \<le> peerTimeoutMs opts)" for p
    using wf by (force simp: expired_def js_get_def js_wf_def)
  have "without (fst ` {x \<in> set ?es. expired opts now x}) ?es = filter (\<lambda>(_, ts). now - ts \<le> peerTimeoutMs opts) ?es"
    unfolding without_def using wf by (intro filter_cong) (auto simp: key js_get_def js_wf_def dest: eq_key_imp_eq_value)
  moreover have "without (fst ` {x \<in> set ?es. expired opts now x}) (mh_connections s)
      = filter (\<lambda>(p, _). \<forall>ts. js_get ?es p = Some ts \<longrightarrow> now - ts \<le> peerTimeoutMs opts) (mh_connections s)"
    unfolding without_def by (intro filter_cong) (auto simp: key)
  ultimately show ?thesis using loop same by simp
qed

section \<open>A mesh in memory\<close>

text \<open>Channels are numbers; the clock shows 7; the \<^verbatim>\<open>detach\<close> of the peers in \<open>bad\<close> throws.\<close>

type_synonym DemoNet = "nat \<times> nat multiset"

definition demo_api :: "(DemoNet, nat) ChannelApi" where
  "demo_api = \<lparr>ch_name = (\<lambda>_. ''tree''), ch_create = (\<lambda>_ (n, opn). (Inr n, (Suc n, add_mset n opn))), ch_post = (\<lambda>_ _. ret ()),
     ch_listen = (\<lambda>_. ret ()), ch_unlisten = (\<lambda>_. ret ()), ch_close = (\<lambda>c (n, opn). (Inr (), (n, opn - {#c#})))\<rparr>"

definition demo_mesh :: "string list \<Rightarrow> (DemoNet, nat) MeshOptions" where
  "demo_mesh bad = \<lparr>mo_channel = 0, mo_selfId = ''a'', mo_api = demo_api, mo_isOnline = None, mo_nowMs = ret 7, mo_peerTimeoutMs = None,
     mo_onBroadcastMessage = None, mo_onPeersChanged = None, mo_onPeerReady = None,
     mo_onPeerTransport = Some (\<lambda>p _. ret (Some (if p \<in> set bad then throw ''detach'' else ret ()))), mo_onPeerDisconnected = None\<rparr>"

lemma demo_mesh_lawful: "lawful_mesh (demo_mesh bad) snd" "opening_succeeds (demo_mesh bad)"
  by (auto simp: lawful_mesh_def opening_succeeds_def neverThrows_def demo_mesh_def demo_api_def keepsOpen_def steps_def isOnline_def
      split: prod.splits if_splits)

definition demo_hello :: "string \<Rightarrow> int \<Rightarrow> DemoNet MeshEvent" where
  "demo_hello p ts = MeshBroadcast (presenceMessage ''presence'' p JUndefined ts)"

definition demo_run :: "string list \<Rightarrow> (DemoNet, nat) Mesh" where
  "demo_run bad = meshRun (demo_mesh bad) [demo_hello ''z'' 6, demo_hello ''b'' 1, demo_hello ''a'' 3] (0, {#})"

lemmas demo_eval = meshRun_def createBroadcastPresenceMesh_def initMesh_def runMesh_def pm_simps outM_def demo_mesh_def
  demo_api_def sendPresence_def isOnline_def demo_hello_def onBroadcast_def presenceMessage_def onPresence_def safePeerId_def numberOf_def
  trim_js_def is_ws_def Let_def ensureConnection_def createBroadcastDuplex_def sendPresenceAck_def updatePeers_def callOpt_def addHandler_def
  js_has_def js_get_def

lemma demo_run_state:
  "mh_lastSeen (demo_run bad) = [(''z'', 6), (''b'', 1)]" "map fst (mh_connections (demo_run bad)) = [''z'', ''b'']"
  "mh_world (demo_run bad) = (4, {#0, 1, 2, 3#})"
  "map (bd_incoming \<circ> cn_transport \<circ> snd) (mh_connections (demo_run bad)) = [0, 2]"
  by (simp_all add: demo_run_def demo_eval numeral_2_eq_2 numeral_3_eq_3 add_mset_commute)

theorem mesh_invariant_witness:
  "map pp_id (getPeers (demo_run [])) = [''b'', ''z''] \<and> connChannels (mh_connections (demo_run [])) = {#0, 1, 2, 3#}"
proof -
  note m = mesh_invariant [OF demo_mesh_lawful(1) [of "[]"] _ _ _ demo_run_def [of "[]"]]
  have "map pp_id (getPeers (demo_run [])) = sorted_list_of_set {''b'', ''z''}" "connChannels (mh_connections (demo_run [])) = {#0, 1, 2, 3#}"
    using m demo_mesh_lawful(2) [of "[]"] by (simp_all add: demo_run_state demo_hello_def insert_commute)
  moreover have "sorted_list_of_set {''b'', ''z''} = [''b'', ''z'']" by (simp add: insort_key_def less_char_def)
  ultimately show ?thesis by simp
qed

text \<open>A failing \<^verbatim>\<open>detach\<close> of the first connection leaves the channels of the second open.\<close>

theorem mesh_stop_releases_witness:
  "map fst (mh_connections (snd (stopMesh (demo_mesh [''z'']) (demo_run [''z''])))) = [''z'', ''b'']
   \<and> (\<exists>cs. snd (mh_world (snd (stopMesh (demo_mesh [''z'']) (demo_run [''z''])))) = cs \<and> cs \<noteq> {#})"
proof -
  let ?s = "demo_run [''z'']"
  obtain r s' where stop: "stopMesh (demo_mesh [''z'']) ?s = (r, s')" by fastforce
  have fails: "map fst (mh_connections s') = [''z'', ''b'']"
    using arg_cong [OF stop, of "\<lambda>x. map fst (mh_connections (snd x))"] by (simp add: demo_run_def demo_eval stopMesh_def stopOne_def
        closeTransport_def duplexClose_def dropConnection_def)
  have two: "length (mh_connections ?s) = 2" "length (mh_connections s') = 2"
    using arg_cong [OF demo_run_state(2) [of "[''z'']"], of length] arg_cong [OF fails, of length] by simp_all
  have "(mh_connections s' = [] \<and> mh_lastSeen s' = [] \<and> mh_peerReady s' = [] \<and> snd (mh_world s') = {#})
    \<or> (\<not> is_ok r \<and> \<not> detach_ok ?s \<and> (\<exists>k < length (mh_connections ?s). mh_connections s' = drop k (mh_connections ?s)
        \<and> mh_lastSeen s' = mh_lastSeen ?s \<and> snd (mh_world s') = connChannels (drop (Suc k) (mh_connections ?s))))"
    by (rule mesh_stop_releases [OF demo_mesh_lawful(1) _ _ _ demo_run_def demo_mesh_lawful(2) stop]) (simp_all add: demo_hello_def)
  with two obtain k where k: "mh_connections s' = drop k (mh_connections ?s)" "snd (mh_world s') = connChannels (drop (Suc k) (mh_connections ?s))"
    by auto
  with two have "k = 0" by (metis diff_is_0_eq' diff_self_eq_0 le_add_diff_inverse2 length_drop nat_le_linear numeral_eq_iff zero_neq_numeral add_diff_cancel_left' add.commute)
  moreover obtain x where "drop (Suc 0) (mh_connections ?s) = [x]" using two(1) by (cases "mh_connections ?s"; cases "tl (mh_connections ?s)") auto
  ultimately have "snd (mh_world s') \<noteq> {#}" using k(2) by simp
  with fails stop show ?thesis by simp
qed

text \<open>Seen 6 ms ago, a peer is pruned; seen 1 ms ago, it stays.\<close>

theorem mesh_prune_exact_witness:
  "mh_lastSeen (runMesh (pruneTick ((demo_mesh [])\<lparr>mo_peerTimeoutMs := Some 5\<rparr>)) (demo_run [])) = [(''z'', 6)]"
proof -
  let ?opts = "(demo_mesh [])\<lparr>mo_peerTimeoutMs := Some 5\<rparr>"
  have "lawful_mesh ?opts snd" using demo_mesh_lawful(1) [of "[]"] by (simp add: lawful_mesh_def isOnline_def)
  moreover have "mesh_inv ?opts snd {} {} (demo_run [])"
    using meshRun_inv [OF demo_mesh_lawful(1) [of "[]"], of "(0, {#})" "[demo_hello ''z'' 6, demo_hello ''b'' 1, demo_hello ''a'' 3]"]
    by (simp add: demo_run_def demo_hello_def mesh_inv_def opening_succeeds_def)
  moreover obtain r s' where run: "pruneTick ?opts (demo_run []) = (r, s')" by fastforce
  moreover have "is_ok r" using arg_cong [OF run, of "\<lambda>x. is_ok (fst x)"]
    by (simp add: pruneTick_def demo_run_def demo_eval prunePeer_def peerTimeoutMs_def forgetPeer_def releaseConnection_def tryFinally_eval
        closeTransport_def duplexClose_def dropConnection_def js_delete_def)
  moreover have "mo_nowMs ?opts (mh_world (demo_run [])) = (Inr 7, mh_world (demo_run []))" by (simp add: demo_mesh_def)
  ultimately show ?thesis using mesh_prune_exact [of ?opts snd "demo_run []" 7 "mh_world (demo_run [])" s']
    by (auto simp: is_ok_iff runMesh_def demo_run_state peerTimeoutMs_def)
qed

end
