(* ===== verification/Wa_Sqlite.thy ===== *)
theory Wa_Sqlite
  imports Sqlite_Adapter
begin

text \<open>
  The browser engine of \<^verbatim>\<open>packages/treecrdt-wa-sqlite/src\<close>: the requests of \<^verbatim>\<open>rpc.ts\<close>, the worker that
  answers them (\<^verbatim>\<open>worker.ts\<close>), the direct and the worker client and the engine made from either
  (\<^verbatim>\<open>client.ts\<close>), and opening a database (\<^verbatim>\<open>open.ts\<close>).  SQLite, the file system of the browser and the
  delivery of messages are parameters; a statement is a \<open>SqlCall\<close> of the SQLite adapter.
\<close>

section \<open>Requests\<close>

datatype StorageMode = StorageMemory | StorageOpfs

type_synonym numbers = "int list"

datatype RpcRequest =
    RqInit string "string option" StorageMode string
  | RqSqlExec TxCmd
  | RqSqlGetText SqlCall
  | RqAppend Operation
  | RqAppendMany "Operation list"
  | RqOpsSince int "string option"
  | RqOpRefsAll
  | RqOpRefsChildren string
  | RqOpsByOpRefs "numbers list"
  | RqTreeChildren string
  | RqTreeChildrenPage string "(numbers \<times> numbers) option" int
  | RqTreeDump
  | RqTreeNodeCount
  | RqTreeParent string
  | RqTreeExists string
  | RqTreePayload string
  | RqHeadLamport
  | RqReplicaMaxCounter numbers
  | RqLocalInsert numbers string string TreecrdtSqlitePlacement "bytes option"
  | RqLocalMove numbers string string TreecrdtSqlitePlacement
  | RqLocalDelete numbers string
  | RqLocalPayload numbers string "bytes option"
  | RqClose
  | RqDrop

datatype RpcResult = RsVoid | RsInit StorageMode "error option" | RsText "SqlReply option" | RsArrays "numbers list"
  | RsVals "js_val list option" | RsOps "SqliteOpRow list option" | RsTree "RawTreeRow list option"
  | RsNumber int | RsBool bool | RsBytes "numbers option" | RsOperation Operation

fun rqMethod :: "RpcRequest \<Rightarrow> string" where
  "rqMethod (RqInit _ _ _ _) = ''init''" | "rqMethod (RqSqlExec _) = ''sqlExec''" | "rqMethod (RqSqlGetText _) = ''sqlGetText''"
| "rqMethod (RqAppend _) = ''append''" | "rqMethod (RqAppendMany _) = ''appendMany''" | "rqMethod (RqOpsSince _ _) = ''opsSince''"
| "rqMethod RqOpRefsAll = ''opRefsAll''" | "rqMethod (RqOpRefsChildren _) = ''opRefsChildren''"
| "rqMethod (RqOpsByOpRefs _) = ''opsByOpRefs''" | "rqMethod (RqTreeChildren _) = ''treeChildren''"
| "rqMethod (RqTreeChildrenPage _ _ _) = ''treeChildrenPage''" | "rqMethod RqTreeDump = ''treeDump''"
| "rqMethod RqTreeNodeCount = ''treeNodeCount''" | "rqMethod (RqTreeParent _) = ''treeParent''"
| "rqMethod (RqTreeExists _) = ''treeExists''" | "rqMethod (RqTreePayload _) = ''treePayload''"
| "rqMethod RqHeadLamport = ''headLamport''" | "rqMethod (RqReplicaMaxCounter _) = ''replicaMaxCounter''"
| "rqMethod (RqLocalInsert _ _ _ _ _) = ''localInsert''" | "rqMethod (RqLocalMove _ _ _ _) = ''localMove''"
| "rqMethod (RqLocalDelete _ _) = ''localDelete''" | "rqMethod (RqLocalPayload _ _ _) = ''localPayload''"
| "rqMethod RqClose = ''close''" | "rqMethod RqDrop = ''drop''"

definition arrayFrom :: "bytes \<Rightarrow> numbers" where
  "arrayFrom bs = map uint bs"

section \<open>The platform\<close>

text \<open>
  What the browser provides: the file system layer \<^verbatim>\<open>createOpfsVfs\<close> builds on, database handles, the OPFS
  directory tree.  \<open>wh_openDir\<close> is \<^verbatim>\<open>getDirectory\<close> followed by one \<^verbatim>\<open>getDirectoryHandle\<close> for each segment;
  the two operations on an entry return \<open>False\<close> for a \<^verbatim>\<open>NotFoundError\<close> and throw any other error.
\<close>

record 'w WaHost =
  wh_createOpfsVfs :: "('w, unit) pm"
  wh_open :: "string \<Rightarrow> ('w, unit) pm"
  wh_close :: "('w, unit) pm"
  wh_runner :: "'w ExtRunner"
  wh_hasGetDirectory :: bool
  wh_openDir :: "string list \<Rightarrow> ('w, unit) pm"
  wh_removeEntry :: "string list \<Rightarrow> string \<Rightarrow> ('w, bool) pm"
  wh_getFileHandle :: "string list \<Rightarrow> string \<Rightarrow> ('w, bool) pm"

record OpfsSupport =
  os_available :: bool
  os_reason :: "string option"

definition detectOpfsSupport :: "bool \<Rightarrow> bool \<Rightarrow> bool \<Rightarrow> OpfsSupport" where
  "detectOpfsSupport hasWindow hasOpfs isolated =
     (if \<not> hasWindow then \<lparr>os_available = False, os_reason = Some ''No window''\<rparr>
      else if hasOpfs \<and> isolated then \<lparr>os_available = True, os_reason = None\<rparr>
      else \<lparr>os_available = False, os_reason = Some (if \<not> hasOpfs then ''navigator.storage.getDirectory unavailable''
          else ''cross-origin isolation required'')\<rparr>)"

definition DB_RELATED_FILE_SUFFIXES :: "string list" where
  "DB_RELATED_FILE_SUFFIXES = [[], ''-journal'', ''-wal'']"

fun splitSlash :: "string \<Rightarrow> string list" where
  "splitSlash [] = [[]]"
| "splitSlash (c # cs) = (if c = CHR ''/'' then [] # splitSlash cs else (case splitSlash cs of [] \<Rightarrow> [[c]] | p # ps \<Rightarrow> (c # p) # ps))"

text \<open>The directory of a path and the name of the file in it.\<close>

definition opfsPath :: "string \<Rightarrow> string list \<times> string" where
  "opfsPath filename = (let parts = filter (\<lambda>p. p \<noteq> []) (splitSlash (if take 1 filename = ''/'' then drop 1 filename else filename))
     in if parts = [] then ([], ''treecrdt.db'') else (butlast parts, last parts))"

definition clearOpfsStorage :: "'w WaHost \<Rightarrow> string \<Rightarrow> ('w, unit) pm" where
  "clearOpfsStorage host filename = (if \<not> wh_hasGetDirectory host then ret ()
     else case opfsPath filename of (dir, base) \<Rightarrow>
       bnd (tryM (wh_openDir host dir)) (\<lambda>opened. case opened of Inl _ \<Rightarrow> ret ()
       | Inr _ \<Rightarrow> for_each (\<lambda>suffix. bnd (wh_removeEntry host dir (base @ suffix)) (\<lambda>_. ret ())) DB_RELATED_FILE_SUFFIXES))"

fun anyFile :: "'w WaHost \<Rightarrow> string list \<Rightarrow> string list \<Rightarrow> ('w, bool) pm" where
  "anyFile host dir [] = ret False"
| "anyFile host dir (name # names) = bnd (wh_getFileHandle host dir name) (\<lambda>found. if found then ret True else anyFile host dir names)"

definition opfsStorageExists :: "'w WaHost \<Rightarrow> string \<Rightarrow> ('w, bool) pm" where
  "opfsStorageExists host filename = (if \<not> wh_hasGetDirectory host then ret False
     else case opfsPath filename of (dir, base) \<Rightarrow>
       bnd (tryM (wh_openDir host dir)) (\<lambda>opened. case opened of Inl _ \<Rightarrow> ret False
       | Inr _ \<Rightarrow> anyFile host dir (map (\<lambda>suffix. base @ suffix) DB_RELATED_FILE_SUFFIXES)))"

section \<open>Opening a database\<close>

record OpenTreecrdtDbResult =
  od_storage :: StorageMode
  od_filename :: string
  od_opfsError :: "error option"

definition openTreecrdtDb :: "'w WaHost \<Rightarrow> string option \<Rightarrow> StorageMode \<Rightarrow> string \<Rightarrow> bool \<Rightarrow> ('w, OpenTreecrdtDbResult) pm" where
  "openTreecrdtDb host filenameOpt storageOpt docId requireOpfs =
     bnd (if storageOpt = StorageOpfs then
         bnd (tryM (wh_createOpfsVfs host)) (\<lambda>res. case res of Inr _ \<Rightarrow> ret (StorageOpfs, None)
           | Inl e \<Rightarrow> if requireOpfs then throw (''OPFS requested but could not be initialized: '' @ e) else ret (StorageMemory, Some e))
       else ret (StorageMemory, None)) (\<lambda>(storage, opfsError).
     let filename = (if storage = StorageOpfs then (case filenameOpt of None \<Rightarrow> ''/treecrdt.db'' | Some f \<Rightarrow> f) else '':memory:'') in
     sq (wh_open host filename)
     (sq (ad_setDocId (createTreecrdtSqliteAdapter (wh_runner host) None) docId)
     (ret \<lparr>od_storage = storage, od_filename = filename, od_opfsError = opfsError\<rparr>)))"

section \<open>The worker\<close>

text \<open>The module variables; \<^verbatim>\<open>db\<close>, \<^verbatim>\<open>api\<close> and \<^verbatim>\<open>runner\<close> are set and cleared together.\<close>

record 'w WorkerState =
  wk_world :: 'w
  wk_db :: bool
  wk_storedFilename :: "string option"
  wk_storedStorage :: StorageMode
  wk_localWriters :: "(string, ReplicaId) jsmap"

definition initWorker :: "'w \<Rightarrow> 'w WorkerState" where
  "initWorker w = \<lparr>wk_world = w, wk_db = False, wk_storedFilename = None, wk_storedStorage = StorageMemory, wk_localWriters = []\<rparr>"

definition inWorker :: "('w, 'a) pm \<Rightarrow> ('w WorkerState, 'a) pm" where
  "inWorker m = (\<lambda>s. case m (wk_world s) of (r, w') \<Rightarrow> (r, s\<lparr>wk_world := w'\<rparr>))"

text \<open>\<^verbatim>\<open>ensureApi\<close>, \<^verbatim>\<open>ensureDb\<close> and \<^verbatim>\<open>ensureRunner\<close>.\<close>

definition ensureOpen :: "('w WorkerState, unit) pm" where
  "ensureOpen = bnd (gets wk_db) (\<lambda>db. if db then ret () else throw ''db not initialized'')"

definition withApi :: "('w, 'a) pm \<Rightarrow> ('w WorkerState, 'a) pm" where
  "withApi m = sq ensureOpen (inWorker m)"

definition workerInit :: "'w WaHost \<Rightarrow> string option \<Rightarrow> StorageMode \<Rightarrow> string \<Rightarrow> ('w WorkerState, RpcResult) pm" where
  "workerInit host filename storage docId =
     sq (bnd (gets wk_db) (\<lambda>db. whenM db (sq (inWorker (wh_close host)) (modify (\<lambda>s. s\<lparr>wk_db := False\<rparr>)))))
     (bnd (inWorker (openTreecrdtDb host filename storage docId False)) (\<lambda>opened.
      sq (modify (\<lambda>s. s\<lparr>wk_db := True, wk_storedFilename := Some (od_filename opened), wk_storedStorage := od_storage opened,
        wk_localWriters := []\<rparr>))
      (ret (RsInit (od_storage opened) (case od_opfsError opened of None \<Rightarrow> None | Some e \<Rightarrow> if e = [] then None else Some e)))))"

definition closeDbAndReset :: "'w WaHost \<Rightarrow> ('w WorkerState, unit) pm" where
  "closeDbAndReset host = sq (bnd (gets wk_db) (\<lambda>db. whenM db (inWorker (wh_close host))))
     (modify (\<lambda>s. s\<lparr>wk_db := False, wk_storedFilename := None, wk_storedStorage := StorageMemory, wk_localWriters := []\<rparr>))"

definition workerDrop :: "'w WaHost \<Rightarrow> ('w WorkerState, RpcResult) pm" where
  "workerDrop host = bnd (gets wk_storedFilename) (\<lambda>filename. bnd (gets wk_storedStorage) (\<lambda>storage.
     sq (closeDbAndReset host)
     (sq (case filename of None \<Rightarrow> ret () | Some f \<Rightarrow> whenM (storage = StorageOpfs \<and> f \<noteq> []) (inWorker (clearOpfsStorage host f)))
     (ret RsVoid))))"

definition ensureLocalWriter :: "'w WaHost \<Rightarrow> ReplicaId \<Rightarrow> ('w WorkerState, 'w TreecrdtSqliteWriter) pm" where
  "ensureLocalWriter host replica = bnd (gets (\<lambda>s. js_get (wk_localWriters s) (bytesToHex replica))) (\<lambda>existing. case existing of
       Some owner \<Rightarrow> liftR (createTreecrdtSqliteWriter (wh_runner host) owner)
     | None \<Rightarrow> sq ensureOpen (bnd (liftR (createTreecrdtSqliteWriter (wh_runner host) replica)) (\<lambda>writer.
         sq (modify (\<lambda>s. s\<lparr>wk_localWriters := js_set (bytesToHex replica) replica (wk_localWriters s)\<rparr>)) (ret writer))))"

definition resultOf :: "('a \<Rightarrow> RpcResult) \<Rightarrow> ('s, 'a) pm \<Rightarrow> ('s, RpcResult) pm" where
  "resultOf f m = bnd m (\<lambda>x. ret (f x))"

definition requireAppendOps :: "'w TreecrdtAdapter \<Rightarrow> Operation list \<Rightarrow> ('w, bytes list) pm" where
  "requireAppendOps ad ops = (case ad_appendOps ad of None \<Rightarrow> throw ''TypeError: not a function''
     | Some appendOps \<Rightarrow> appendOps ops nodeIdToBytes16 replicaIdToBytes)"

definition requirePage :: "'w TreecrdtAdapter \<Rightarrow> string \<Rightarrow> (numbers \<times> numbers) option \<Rightarrow> int \<Rightarrow> ('w, RawTreeRow list option) pm" where
  "requirePage ad parent cursor limit = withNode parent (\<lambda>p. case ad_treeChildrenPage ad of None \<Rightarrow> throw ''TypeError: not a function''
     | Some page \<Rightarrow> page p (map_option (map_prod uint8array_from uint8array_from) cursor) limit)"

fun workerMethod :: "'w WaHost \<Rightarrow> 'w TreecrdtAdapter \<Rightarrow> RpcRequest \<Rightarrow> ('w WorkerState, RpcResult) pm" where
  "workerMethod host api (RqInit baseUrl filename storage docId) = workerInit host filename storage docId"
| "workerMethod host api (RqSqlExec cmd) = resultOf (\<lambda>_. RsVoid) (withApi (xr_exec (wh_runner host) cmd))"
| "workerMethod host api (RqSqlGetText sql) = resultOf RsText (withApi (xr_getText (wh_runner host) sql))"
| "workerMethod host api (RqAppend oper) = resultOf (\<lambda>_. RsVoid) (withApi (ad_appendOp api oper nodeIdToBytes16 replicaIdToBytes))"
| "workerMethod host api (RqAppendMany ops) = resultOf (\<lambda>nodes. RsArrays (map arrayFrom nodes)) (withApi (requireAppendOps api ops))"
| "workerMethod host api (RqOpsSince lamport rootId) = resultOf RsOps (withApi (ad_opsSince api lamport rootId))"
| "workerMethod host api RqOpRefsAll = resultOf RsVals (withApi (ad_opRefsAll api))"
| "workerMethod host api (RqOpRefsChildren parent) = resultOf RsVals (withApi (withNode parent (ad_opRefsChildren api)))"
| "workerMethod host api (RqOpsByOpRefs opRefs) = resultOf RsOps (withApi (ad_opsByOpRefs api (map uint8array_from opRefs)))"
| "workerMethod host api (RqTreeChildren parent) = resultOf RsVals (withApi (withNode parent (ad_treeChildren api)))"
| "workerMethod host api (RqTreeChildrenPage parent cursor limit) = resultOf RsTree (withApi (requirePage api parent cursor limit))"
| "workerMethod host api RqTreeDump = resultOf RsTree (withApi (ad_treeDump api))"
| "workerMethod host api RqTreeNodeCount = resultOf RsNumber (withApi (ad_treeNodeCount api))"
| "workerMethod host api (RqTreeParent node) = resultOf (\<lambda>v. RsBytes (map_option arrayFrom v)) (withApi (withNode node (ad_treeParent api)))"
| "workerMethod host api (RqTreeExists node) = resultOf RsBool (withApi (withNode node (ad_treeExists api)))"
| "workerMethod host api (RqTreePayload node) = resultOf (\<lambda>v. RsBytes (map_option arrayFrom v)) (withApi (withNode node (ad_treePayload api)))"
| "workerMethod host api RqHeadLamport = resultOf RsNumber (withApi (ad_headLamport api))"
| "workerMethod host api (RqReplicaMaxCounter replica) = resultOf RsNumber (withApi (ad_replicaMaxCounter api (uint8array_from replica)))"
| "workerMethod host api (RqLocalInsert replica parent node placement payload) = resultOf RsOperation
     (bnd (ensureLocalWriter host (uint8array_from replica)) (\<lambda>wr. inWorker (wr_insert wr parent node placement payload)))"
| "workerMethod host api (RqLocalMove replica node newParent placement) = resultOf RsOperation
     (bnd (ensureLocalWriter host (uint8array_from replica)) (\<lambda>wr. inWorker (wr_move wr node newParent placement)))"
| "workerMethod host api (RqLocalDelete replica node) = resultOf RsOperation
     (bnd (ensureLocalWriter host (uint8array_from replica)) (\<lambda>wr. inWorker (wr_delete wr node)))"
| "workerMethod host api (RqLocalPayload replica node payload) = resultOf RsOperation
     (bnd (ensureLocalWriter host (uint8array_from replica)) (\<lambda>wr. inWorker (wr_payload wr node payload)))"
| "workerMethod host api RqClose = sq (closeDbAndReset host) (ret RsVoid)"
| "workerMethod host api RqDrop = workerDrop host"

text \<open>The message handler: the response to a request.\<close>

definition onWorkerRequest :: "'w WaHost \<Rightarrow> nat \<Rightarrow> RpcRequest \<Rightarrow> ('w WorkerState, nat \<times> RpcResult res) pm" where
  "onWorkerRequest host ident rq = bnd (tryM (workerMethod host (createTreecrdtSqliteAdapter (wh_runner host) None) rq)) (\<lambda>res. ret (ident, res))"

section \<open>The direct client\<close>

record 'w DirectState =
  dc_world :: 'w
  dc_localWriters :: "(string, ReplicaId) jsmap"
  dc_closed :: bool
  dc_closePromise :: bool

definition CLIENT_CLOSED_ERROR :: error where
  "CLIENT_CLOSED_ERROR = ''TreecrdtClient was closed''"

definition inDirect :: "('w, 'a) pm \<Rightarrow> ('w DirectState, 'a) pm" where
  "inDirect m = (\<lambda>s. case m (dc_world s) of (r, w') \<Rightarrow> (r, s\<lparr>dc_world := w'\<rparr>))"

text \<open>\<^verbatim>\<open>JSON.stringify\<close> of a string, and of an object of strings.\<close>

definition jsonChar :: "char \<Rightarrow> string" where
  "jsonChar c = (let n = of_char c :: nat in
     if n = 8 then [CHR 0x5C, CHR ''b''] else if n = 9 then [CHR 0x5C, CHR ''t''] else if n = 10 then [CHR 0x5C, CHR ''n'']
     else if n = 12 then [CHR 0x5C, CHR ''f''] else if n = 13 then [CHR 0x5C, CHR ''r'']
     else if n = 0x22 then [CHR 0x5C, CHR 0x22] else if n = 0x5C then [CHR 0x5C, CHR 0x5C]
     else if n < 0x20 then CHR 0x5C # ''u00'' @ bytesToHex [of_nat n] else [c])"

definition jsonString :: "string \<Rightarrow> string" where
  "jsonString s = CHR 0x22 # concat (map jsonChar s) @ [CHR 0x22]"

definition jsonFields :: "(string \<times> string) list \<Rightarrow> string" where
  "jsonFields entries = CHR 0x7B # concat (case map (\<lambda>(k, v). jsonString k @ '':'' @ jsonString v) entries of [] \<Rightarrow> []
     | p # ps \<Rightarrow> p # map (\<lambda>q. CHR '','' # q) ps) @ [CHR 0x7D]"

fun storageName :: "StorageMode \<Rightarrow> string" where
  "storageName StorageMemory = ''memory''" | "storageName StorageOpfs = ''opfs''"

definition wrapError :: "string \<Rightarrow> OpenTreecrdtDbResult \<Rightarrow> string \<Rightarrow> error \<Rightarrow> error" where
  "wrapError baseUrl opened stage err = jsonFields [(''stage'', stage), (''storage'', storageName (od_storage opened)),
     (''filename'', od_filename opened), (''baseUrl'', baseUrl), (''message'', err)]"

definition directWriterFor :: "'w ExtRunner \<Rightarrow> ReplicaId \<Rightarrow> ('w DirectState, 'w TreecrdtSqliteWriter) pm" where
  "directWriterFor rn replica = bnd (gets (\<lambda>s. js_get (dc_localWriters s) (bytesToHex replica))) (\<lambda>existing. case existing of
       Some owner \<Rightarrow> liftR (createTreecrdtSqliteWriter rn owner)
     | None \<Rightarrow> bnd (liftR (createTreecrdtSqliteWriter rn replica)) (\<lambda>writer.
         sq (modify (\<lambda>s. s\<lparr>dc_localWriters := js_set (bytesToHex replica) replica (dc_localWriters s)\<rparr>)) (ret writer)))"

fun directMethod :: "'w WaHost \<Rightarrow> 'w TreecrdtAdapter \<Rightarrow> OpenTreecrdtDbResult \<Rightarrow> RpcRequest \<Rightarrow> ('w DirectState, RpcResult) pm" where
  "directMethod host ad opened (RqSqlExec cmd) = resultOf (\<lambda>_. RsVoid) (inDirect (xr_exec (wh_runner host) cmd))"
| "directMethod host ad opened (RqSqlGetText sql) = resultOf RsText (inDirect (xr_getText (wh_runner host) sql))"
| "directMethod host ad opened (RqAppend oper) = resultOf (\<lambda>_. RsVoid) (inDirect (ad_appendOp ad oper nodeIdToBytes16 replicaIdToBytes))"
| "directMethod host ad opened (RqAppendMany ops) = resultOf (\<lambda>nodes. RsArrays (map arrayFrom nodes)) (inDirect (requireAppendOps ad ops))"
| "directMethod host ad opened (RqOpsSince lamport rootId) = resultOf RsOps (inDirect (ad_opsSince ad lamport rootId))"
| "directMethod host ad opened RqOpRefsAll = resultOf RsVals (inDirect (ad_opRefsAll ad))"
| "directMethod host ad opened (RqOpRefsChildren parent) = resultOf RsVals (inDirect (withNode parent (ad_opRefsChildren ad)))"
| "directMethod host ad opened (RqOpsByOpRefs opRefs) = resultOf RsOps (inDirect (ad_opsByOpRefs ad (map uint8array_from opRefs)))"
| "directMethod host ad opened (RqTreeChildren parent) = resultOf RsVals (inDirect (withNode parent (ad_treeChildren ad)))"
| "directMethod host ad opened (RqTreeChildrenPage parent cursor limit) = resultOf RsTree (inDirect (requirePage ad parent cursor limit))"
| "directMethod host ad opened RqTreeDump = resultOf RsTree (inDirect (ad_treeDump ad))"
| "directMethod host ad opened (RqTreePayload node) =
     resultOf (\<lambda>v. RsBytes (map_option arrayFrom v)) (inDirect (withNode node (ad_treePayload ad)))"
| "directMethod host ad opened RqTreeNodeCount = resultOf RsNumber (inDirect (ad_treeNodeCount ad))"
| "directMethod host ad opened (RqTreeParent node) =
     resultOf (\<lambda>v. RsBytes (map_option arrayFrom v)) (inDirect (withNode node (ad_treeParent ad)))"
| "directMethod host ad opened (RqTreeExists node) = resultOf RsBool (inDirect (withNode node (ad_treeExists ad)))"
| "directMethod host ad opened RqHeadLamport = resultOf RsNumber (inDirect (ad_headLamport ad))"
| "directMethod host ad opened (RqReplicaMaxCounter replica) = resultOf RsNumber (inDirect (ad_replicaMaxCounter ad (uint8array_from replica)))"
| "directMethod host ad opened (RqLocalInsert replica parent node placement payload) = resultOf RsOperation
     (bnd (directWriterFor (wh_runner host) (uint8array_from replica)) (\<lambda>wr. inDirect (wr_insert wr parent node placement payload)))"
| "directMethod host ad opened (RqLocalMove replica node newParent placement) = resultOf RsOperation
     (bnd (directWriterFor (wh_runner host) (uint8array_from replica)) (\<lambda>wr. inDirect (wr_move wr node newParent placement)))"
| "directMethod host ad opened (RqLocalDelete replica node) = resultOf RsOperation
     (bnd (directWriterFor (wh_runner host) (uint8array_from replica)) (\<lambda>wr. inDirect (wr_delete wr node)))"
| "directMethod host ad opened (RqLocalPayload replica node payload) = resultOf RsOperation
     (bnd (directWriterFor (wh_runner host) (uint8array_from replica)) (\<lambda>wr. inDirect (wr_payload wr node payload)))"
| "directMethod host ad opened RqClose = sq (inDirect (wh_close host)) (ret RsVoid)"
| "directMethod host ad opened RqDrop = sq (inDirect (wh_close host))
     (sq (whenM (od_storage opened = StorageOpfs) (inDirect (clearOpfsStorage host (od_filename opened)))) (ret RsVoid))"
| "directMethod host ad opened (RqInit baseUrl f st docId) = throw ''unsupported direct method: init''"

text \<open>\<^verbatim>\<open>sqlGetText\<close> returns its promise without awaiting it: a rejection passes the \<^verbatim>\<open>catch\<close> by.\<close>

fun awaitedCall :: "RpcRequest \<Rightarrow> bool" where
  "awaitedCall (RqSqlGetText _) = False" | "awaitedCall _ = True"

definition directCall :: "'w WaHost \<Rightarrow> string \<Rightarrow> 'w TreecrdtAdapter \<Rightarrow> OpenTreecrdtDbResult \<Rightarrow> RpcRequest \<Rightarrow> ('w DirectState, RpcResult) pm" where
  "directCall host baseUrl ad opened rq = bnd (gets dc_closed) (\<lambda>closed. if closed then throw CLIENT_CLOSED_ERROR
     else catch (directMethod host ad opened rq) (\<lambda>e. throw (if awaitedCall rq then wrapError baseUrl opened (rqMethod rq) e else e)))"

definition directClose :: "'w WaHost \<Rightarrow> ('w DirectState, unit) pm" where
  "directClose host = bnd (gets dc_closed) (\<lambda>closed. whenM (\<not> closed) (sq (inDirect (wh_close host)) (modify (\<lambda>s. s\<lparr>dc_closed := True\<rparr>))))"

definition directDrop :: "'w WaHost \<Rightarrow> OpenTreecrdtDbResult \<Rightarrow> ('w DirectState, unit) pm" where
  "directDrop host opened = bnd (gets dc_closed) (\<lambda>closed. whenM (\<not> closed) (sq (inDirect (wh_close host))
     (sq (whenM (od_storage opened = StorageOpfs) (inDirect (clearOpfsStorage host (od_filename opened)))) (modify (\<lambda>s. s\<lparr>dc_closed := True\<rparr>)))))"

text \<open>The memoised \<^verbatim>\<open>close\<close> of the client: it runs once and never rejects.\<close>

definition directEngineClose :: "'w WaHost \<Rightarrow> ('w DirectState, unit) pm" where
  "directEngineClose host = bnd (gets dc_closePromise) (\<lambda>running. if running then ret ()
     else sq (modify (\<lambda>s. s\<lparr>dc_closePromise := True\<rparr>)) (catch (directClose host) (\<lambda>_. ret ())))"

text \<open>A round trip of the worker client: the request is posted, answered, and its response settles the promise.\<close>

definition fromResponse :: "'a res \<Rightarrow> 'a res" where
  "fromResponse r = (case r of Inl e \<Rightarrow> Inl (if e = [] then ''worker error'' else e) | Inr v \<Rightarrow> Inr v)"

definition workerCall :: "'w WaHost \<Rightarrow> RpcRequest \<Rightarrow> ('w WorkerState, RpcResult) pm" where
  "workerCall host rq = bnd (onWorkerRequest host 1 rq) (\<lambda>(ident, res). liftR (fromResponse res))"

section \<open>Choosing a client\<close>

text \<open>
  \<^verbatim>\<open>createTreecrdtClient\<close> up to the call of the chosen constructor: the storage asked for (\<open>None\<close>:
  \<^verbatim>\<open>auto\<close> or absent), whether a worker is preferred, and what the environment supports.
\<close>

record ClientOptions =
  co_storage :: "StorageMode option"
  co_baseUrl :: "string option"
  co_filename :: "string option"
  co_preferWorker :: "bool option"
  co_docId :: "string option"

record ClientArgs =
  ca_baseUrl :: string
  ca_filename :: "string option"
  ca_storage :: StorageMode
  ca_requireOpfs :: bool
  ca_docId :: string

datatype ClientChoice = WorkerClient ClientArgs | DirectClient ClientArgs

definition withSlash :: "string \<Rightarrow> string" where
  "withSlash base = (if base \<noteq> [] \<and> last base = CHR ''/'' then base else base @ ''/'')"

definition chooseClient :: "OpfsSupport \<Rightarrow> string option \<Rightarrow> ClientOptions \<Rightarrow> ClientChoice res" where
  "chooseClient support envBaseUrl opts =
     (let requireOpfs = (co_storage opts = Some StorageOpfs);
          rawBase = (case co_baseUrl opts of Some b \<Rightarrow> b
            | None \<Rightarrow> (case envBaseUrl of Some b \<Rightarrow> if b = [] then ''/'' else b | None \<Rightarrow> ''/''));
          shouldUseOpfs = (requireOpfs \<or> co_storage opts = None \<and> os_available support);
          preferWorker = (case co_preferWorker opts of None \<Rightarrow> shouldUseOpfs | Some p \<Rightarrow> p);
          args = (\<lambda>storage. \<lparr>ca_baseUrl = withSlash rawBase, ca_filename = co_filename opts, ca_storage = storage,
            ca_requireOpfs = requireOpfs, ca_docId = (case co_docId opts of None \<Rightarrow> ''treecrdt'' | Some d \<Rightarrow> d)\<rparr>)
      in if shouldUseOpfs \<and> preferWorker then Inr (WorkerClient (args StorageOpfs))
         else if shouldUseOpfs \<and> \<not> os_available support
           then Inl (''OPFS unavailable in this environment: '' @ (case os_reason support of None \<Rightarrow> ''unknown reason'' | Some r \<Rightarrow> r))
         else Inr (DirectClient (args (if shouldUseOpfs then StorageOpfs else StorageMemory))))"

end
