(* ===== verification/Wa_Client.thy ===== *)
theory Wa_Client
  imports Wa_Sqlite
begin

text \<open>
  \<^verbatim>\<open>makeTreecrdtClientFromCall\<close> of \<^verbatim>\<open>packages/treecrdt-wa-sqlite/src/client.ts\<close>: the engine of the browser
  over a call, which the direct client answers itself and the worker client sends to its worker.  Both
  are compared with the engine of the Node client, which runs the same statements without requests.
\<close>

section \<open>The engine over a call\<close>

text \<open>The result type of a request is fixed by \<^verbatim>\<open>RpcSchema\<close>; a result of another type is not an array, or an error.\<close>

definition asOps :: "RpcResult \<Rightarrow> SqliteOpRow list option" where
  "asOps r = (case r of RsOps v \<Rightarrow> v | _ \<Rightarrow> None)"

definition asVals :: "RpcResult \<Rightarrow> js_val list option" where
  "asVals r = (case r of RsVals v \<Rightarrow> v | _ \<Rightarrow> None)"

definition asTree :: "RpcResult \<Rightarrow> RawTreeRow list option" where
  "asTree r = (case r of RsTree v \<Rightarrow> v | _ \<Rightarrow> None)"

definition asInt :: "RpcResult \<Rightarrow> int res" where
  "asInt r = (case r of RsNumber n \<Rightarrow> Inr n | _ \<Rightarrow> Inl ''unexpected result'')"

definition asBool :: "RpcResult \<Rightarrow> bool res" where
  "asBool r = (case r of RsBool b \<Rightarrow> Inr b | _ \<Rightarrow> Inl ''unexpected result'')"

definition asBytes :: "RpcResult \<Rightarrow> bytes option res" where
  "asBytes r = (case r of RsBytes v \<Rightarrow> Inr (map_option uint8array_from v) | _ \<Rightarrow> Inl ''unexpected result'')"

definition asOperation :: "RpcResult \<Rightarrow> Operation res" where
  "asOperation r = (case r of RsOperation oper \<Rightarrow> Inr oper | _ \<Rightarrow> Inl ''unexpected result'')"

definition asText :: "RpcResult \<Rightarrow> SqlReply option res" where
  "asText r = (case r of RsText t \<Rightarrow> Inr t | _ \<Rightarrow> Inl ''unexpected result'')"

definition affectedNodes :: "RpcResult \<Rightarrow> string list res" where
  "affectedNodes r = (case r of RsArrays xs \<Rightarrow> mapR (\<lambda>x. nodeIdFromBytes16 (uint8array_from x)) xs | _ \<Rightarrow> Inr [])"

text \<open>\<open>decode f m\<close>: the result of a call, read by \<open>f\<close>.\<close>

definition decode :: "(RpcResult \<Rightarrow> 'a res) \<Rightarrow> ('c, RpcResult) pm \<Rightarrow> ('c, 'a) pm" where
  "decode f m = bnd m (\<lambda>r. liftR (f r))"

type_synonym 'c RpcCall = "RpcRequest \<Rightarrow> ('c, RpcResult) pm"

definition opsByOpRefsImpl :: "'c RpcCall \<Rightarrow> OpRef list \<Rightarrow> ('c, Operation list) pm" where
  "opsByOpRefsImpl call opRefs = decode (\<lambda>r. decodeSqliteOps (asOps r)) (call (RqOpsByOpRefs (map arrayFrom opRefs)))"

definition opRefsChildrenImpl :: "'c RpcCall \<Rightarrow> string \<Rightarrow> ('c, OpRef list) pm" where
  "opRefsChildrenImpl call parent = decode (\<lambda>r. decodeSqliteOpRefs (asVals r)) (call (RqOpRefsChildren parent))"

definition opsSinceImpl :: "'c RpcCall \<Rightarrow> int \<Rightarrow> string option \<Rightarrow> ('c, Operation list) pm" where
  "opsSinceImpl call lamport rootId = decode (\<lambda>r. decodeSqliteOps (asOps r)) (call (RqOpsSince lamport rootId))"

definition callRunner :: "'c RpcCall \<Rightarrow> 'c ExtRunner" where
  "callRunner call = \<lparr>xr_exec = (\<lambda>cmd. decode (\<lambda>_. Inr ()) (call (RqSqlExec cmd))),
     xr_getText = (\<lambda>sql. decode asText (call (RqSqlGetText sql)))\<rparr>"

definition makeTreecrdtClientFromCall :: "string \<Rightarrow> StorageMode \<Rightarrow> string \<Rightarrow> 'c RpcCall \<Rightarrow> 'c TreecrdtEngine" where
  "makeTreecrdtClientFromCall mode storage docId call = \<lparr>en_mode = mode, en_storage = storageName storage, en_docId = docId,
     en_append = (\<lambda>oper. decode (\<lambda>_. Inr ()) (call (RqAppend oper))),
     en_appendMany = (\<lambda>ops. decode affectedNodes (call (RqAppendMany ops))),
     en_all = opsSinceImpl call 0 None,
     en_since = opsSinceImpl call,
     en_opsChildren = (\<lambda>parent. bnd (opRefsChildrenImpl call parent) (opsByOpRefsImpl call)),
     en_get = opsByOpRefsImpl call,
     en_opRefsAll = decode (\<lambda>r. decodeSqliteOpRefs (asVals r)) (call RqOpRefsAll),
     en_opRefsChildren = opRefsChildrenImpl call,
     en_children = (\<lambda>parent. decode (\<lambda>r. Inr (decodeSqliteNodeIds (asVals r))) (call (RqTreeChildren parent))),
     en_childrenPage = (\<lambda>parent cursor limit. decode (\<lambda>r. decodeSqliteTreeChildRows (asTree r))
       (call (RqTreeChildrenPage parent (map_option (map_prod arrayFrom arrayFrom) cursor) limit))),
     en_dump = decode (\<lambda>r. decodeSqliteTreeRows (asTree r)) (call RqTreeDump),
     en_nodeCount = decode asInt (call RqTreeNodeCount),
     en_parent = (\<lambda>node. decode (\<lambda>r. bindR (asBytes r) optNode) (call (RqTreeParent node))),
     en_exists = (\<lambda>node. decode asBool (call (RqTreeExists node))),
     en_getPayload = (\<lambda>node. decode asBytes (call (RqTreePayload node))),
     en_headLamport = decode asInt (call RqHeadLamport),
     en_replicaMaxCounter = (\<lambda>replica. bnd (liftR (replicaIdToBytes replica)) (\<lambda>r. decode asInt (call (RqReplicaMaxCounter (arrayFrom r))))),
     en_localInsert = (\<lambda>replica parent node placement payload.
       decode asOperation (call (RqLocalInsert (arrayFrom replica) parent node placement payload))),
     en_localMove = (\<lambda>replica node newParent placement.
       decode asOperation (call (RqLocalMove (arrayFrom replica) node newParent placement))),
     en_localDelete = (\<lambda>replica node. decode asOperation (call (RqLocalDelete (arrayFrom replica) node))),
     en_localPayload = (\<lambda>replica node payload. decode asOperation (call (RqLocalPayload (arrayFrom replica) node payload)))\<rparr>"

definition directAdapter :: "'w WaHost \<Rightarrow> 'w TreecrdtAdapter" where
  "directAdapter host = createTreecrdtSqliteAdapter (wh_runner host) None"

definition directEngine :: "'w WaHost \<Rightarrow> string \<Rightarrow> string \<Rightarrow> OpenTreecrdtDbResult \<Rightarrow> 'w DirectState TreecrdtEngine" where
  "directEngine host baseUrl docId opened =
     makeTreecrdtClientFromCall ''direct'' (od_storage opened) docId (directCall host baseUrl (directAdapter host) opened)"

definition createDirectClient :: "'w WaHost \<Rightarrow> ClientArgs \<Rightarrow> ('w, OpenTreecrdtDbResult \<times> 'w DirectState TreecrdtEngine) pm" where
  "createDirectClient host args =
     bnd (openTreecrdtDb host (ca_filename args) (ca_storage args) (ca_docId args) (ca_requireOpfs args)) (\<lambda>opened.
     ret (opened, directEngine host (ca_baseUrl args) (ca_docId args) opened))"

section \<open>Computations that agree\<close>

text \<open>
  \<open>agrees S E m n\<close>: from states related by \<open>S\<close> the two computations end in related states with the same
  value, or both fail, with the same error or with errors related by \<open>E\<close>.
\<close>

definition sameRes :: "(error \<Rightarrow> error \<Rightarrow> bool) \<Rightarrow> 'a res \<Rightarrow> 'a res \<Rightarrow> bool" where
  "sameRes E r q = (case (r, q) of (Inr x, Inr y) \<Rightarrow> x = y | (Inl e, Inl d) \<Rightarrow> e = d \<or> E e d | _ \<Rightarrow> False)"

definition agrees :: "('s \<Rightarrow> 't \<Rightarrow> bool) \<Rightarrow> (error \<Rightarrow> error \<Rightarrow> bool) \<Rightarrow> ('s, 'a) pm \<Rightarrow> ('t, 'a) pm \<Rightarrow> bool" where
  "agrees S E m n \<longleftrightarrow> (\<forall>s t. S s t \<longrightarrow> sameRes E (fst (m s)) (fst (n t)) \<and> S (snd (m s)) (snd (n t)))"

lemma sameRes_simps [simp]: "sameRes E (Inr x) (Inr y) \<longleftrightarrow> x = y" "sameRes E (Inl e) (Inl d) \<longleftrightarrow> e = d \<or> E e d"
  "\<not> sameRes E (Inr x) (Inl e)" "\<not> sameRes E (Inl e) (Inr x)" "sameRes E r r"
  by (simp_all add: sameRes_def split: sum.splits)

lemma agrees_lift [simp]: "agrees S E (liftR r) (liftR r)" "agrees S E (ret x) (ret x)" "agrees S E (throw e) (throw e)"
  by (simp_all add: agrees_def)

lemma agrees_bnd: "agrees S E m n \<Longrightarrow> (\<And>x. agrees S E (f x) (g x)) \<Longrightarrow> agrees S E (bnd m f) (bnd n g)"
proof (unfold agrees_def, intro allI impI)
  fix s t assume mn: "\<forall>s t. S s t \<longrightarrow> sameRes E (fst (m s)) (fst (n t)) \<and> S (snd (m s)) (snd (n t))"
    and fg: "\<And>x. \<forall>s t. S s t \<longrightarrow> sameRes E (fst (f x s)) (fst (g x t)) \<and> S (snd (f x s)) (snd (g x t))" and st: "S s t"
  obtain r s' q t' where mt: "m s = (r, s')" "n t = (q, t')" by (metis surj_pair)
  with mn st have "sameRes E r q" "S s' t'" by fastforce+
  with fg show "sameRes E (fst (bnd m f s)) (fst (bnd n g t)) \<and> S (snd (bnd m f s)) (snd (bnd n g t))"
    by (cases r; cases q) (simp_all add: bnd_def mt)
qed

lemma agrees_decode: "agrees S E m n \<Longrightarrow> agrees S E (decode f m) (decode f n)"
  unfolding decode_def by (rule agrees_bnd) simp_all

lemma agrees_result: "agrees S E m n \<Longrightarrow> agrees S E (resultOf f m) (resultOf f n)"
  unfolding resultOf_def by (rule agrees_bnd) simp_all

lemma agreesI: "(\<And>s t. S s t \<Longrightarrow> sameRes E (fst (m s)) (fst (n t)) \<and> S (snd (m s)) (snd (n t))) \<Longrightarrow> agrees S E m n"
  by (simp add: agrees_def)

lemma agreesD: "agrees S E m n \<Longrightarrow> S s t \<Longrightarrow> sameRes E (fst (m s)) (fst (n t)) \<and> S (snd (m s)) (snd (n t))"
  by (simp add: agrees_def)

text \<open>A client that rewrites the errors of its calls.\<close>

lemma agrees_catch:
  assumes "agrees S (\<lambda>_ _. False) m n" and "\<And>e. w e = e \<or> E (w e) e"
  shows "agrees S E (catch m (\<lambda>e. throw (w e))) n"
proof (rule agreesI)
  fix s t assume "S s t"
  obtain r s' q t' where mt: "m s = (r, s')" "n t = (q, t')" by (metis surj_pair)
  with agreesD [OF assms(1) \<open>S s t\<close>] have "sameRes (\<lambda>_ _. False) r q" "S s' t'" by simp_all
  with assms(2) show "sameRes E (fst (catch m (\<lambda>e. throw (w e)) s)) (fst (n t)) \<and> S (snd (catch m (\<lambda>e. throw (w e)) s)) (snd (n t))"
    by (cases r; cases q) (simp_all add: catch_def mt)
qed

text \<open>Two engines whose operations agree; the three descriptive fields are not compared.\<close>

definition sameEngine :: "('s \<Rightarrow> 't \<Rightarrow> bool) \<Rightarrow> (error \<Rightarrow> error \<Rightarrow> bool) \<Rightarrow> 's TreecrdtEngine \<Rightarrow> 't TreecrdtEngine \<Rightarrow> bool" where
  "sameEngine S E a b \<longleftrightarrow>
     (\<forall>oper. agrees S E (en_append a oper) (en_append b oper)) \<and> (\<forall>ops. agrees S E (en_appendMany a ops) (en_appendMany b ops))
     \<and> agrees S E (en_all a) (en_all b) \<and> (\<forall>l r. agrees S E (en_since a l r) (en_since b l r))
     \<and> (\<forall>p. agrees S E (en_opsChildren a p) (en_opsChildren b p)) \<and> (\<forall>rs. agrees S E (en_get a rs) (en_get b rs))
     \<and> agrees S E (en_opRefsAll a) (en_opRefsAll b) \<and> (\<forall>p. agrees S E (en_opRefsChildren a p) (en_opRefsChildren b p))
     \<and> (\<forall>p. agrees S E (en_children a p) (en_children b p)) \<and> (\<forall>p c l. agrees S E (en_childrenPage a p c l) (en_childrenPage b p c l))
     \<and> agrees S E (en_dump a) (en_dump b) \<and> agrees S E (en_nodeCount a) (en_nodeCount b)
     \<and> (\<forall>n. agrees S E (en_parent a n) (en_parent b n)) \<and> (\<forall>n. agrees S E (en_exists a n) (en_exists b n))
     \<and> (\<forall>n. agrees S E (en_getPayload a n) (en_getPayload b n)) \<and> agrees S E (en_headLamport a) (en_headLamport b)
     \<and> (\<forall>r. agrees S E (en_replicaMaxCounter a r) (en_replicaMaxCounter b r))
     \<and> (\<forall>r p n l v. agrees S E (en_localInsert a r p n l v) (en_localInsert b r p n l v))
     \<and> (\<forall>r n p l. agrees S E (en_localMove a r n p l) (en_localMove b r n p l))
     \<and> (\<forall>r n. agrees S E (en_localDelete a r n) (en_localDelete b r n))
     \<and> (\<forall>r n v. agrees S E (en_localPayload a r n v) (en_localPayload b r n v))"

section \<open>Requests answered by the Node client\<close>

text \<open>The answer of the adapter and the writers of the Node client to a request.\<close>

fun nodeCall :: "'w ExtRunner \<Rightarrow> 'w TreecrdtAdapter \<Rightarrow> 'w ClientState RpcCall" where
  "nodeCall rn ad (RqSqlExec cmd) = resultOf (\<lambda>_. RsVoid) (inClient (xr_exec rn cmd))"
| "nodeCall rn ad (RqSqlGetText sql) = resultOf RsText (inClient (xr_getText rn sql))"
| "nodeCall rn ad (RqAppend oper) = resultOf (\<lambda>_. RsVoid) (inClient (ad_appendOp ad oper nodeIdToBytes16 replicaIdToBytes))"
| "nodeCall rn ad (RqAppendMany ops) = resultOf (\<lambda>nodes. RsArrays (map arrayFrom nodes)) (inClient (requireAppendOps ad ops))"
| "nodeCall rn ad (RqOpsSince lamport rootId) = resultOf RsOps (inClient (ad_opsSince ad lamport rootId))"
| "nodeCall rn ad RqOpRefsAll = resultOf RsVals (inClient (ad_opRefsAll ad))"
| "nodeCall rn ad (RqOpRefsChildren parent) = resultOf RsVals (inClient (withNode parent (ad_opRefsChildren ad)))"
| "nodeCall rn ad (RqOpsByOpRefs opRefs) = resultOf RsOps (inClient (ad_opsByOpRefs ad (map uint8array_from opRefs)))"
| "nodeCall rn ad (RqTreeChildren parent) = resultOf RsVals (inClient (withNode parent (ad_treeChildren ad)))"
| "nodeCall rn ad (RqTreeChildrenPage parent cursor limit) = resultOf RsTree (inClient (requirePage ad parent cursor limit))"
| "nodeCall rn ad RqTreeDump = resultOf RsTree (inClient (ad_treeDump ad))"
| "nodeCall rn ad (RqTreePayload node) = resultOf (\<lambda>v. RsBytes (map_option arrayFrom v)) (inClient (withNode node (ad_treePayload ad)))"
| "nodeCall rn ad RqTreeNodeCount = resultOf RsNumber (inClient (ad_treeNodeCount ad))"
| "nodeCall rn ad (RqTreeParent node) = resultOf (\<lambda>v. RsBytes (map_option arrayFrom v)) (inClient (withNode node (ad_treeParent ad)))"
| "nodeCall rn ad (RqTreeExists node) = resultOf RsBool (inClient (withNode node (ad_treeExists ad)))"
| "nodeCall rn ad RqHeadLamport = resultOf RsNumber (inClient (ad_headLamport ad))"
| "nodeCall rn ad (RqReplicaMaxCounter replica) = resultOf RsNumber (inClient (ad_replicaMaxCounter ad (uint8array_from replica)))"
| "nodeCall rn ad (RqLocalInsert replica parent node placement payload) = resultOf RsOperation
     (bnd (localWriterFor rn (uint8array_from replica)) (\<lambda>wr. inClient (wr_insert wr parent node placement payload)))"
| "nodeCall rn ad (RqLocalMove replica node newParent placement) = resultOf RsOperation
     (bnd (localWriterFor rn (uint8array_from replica)) (\<lambda>wr. inClient (wr_move wr node newParent placement)))"
| "nodeCall rn ad (RqLocalDelete replica node) = resultOf RsOperation
     (bnd (localWriterFor rn (uint8array_from replica)) (\<lambda>wr. inClient (wr_delete wr node)))"
| "nodeCall rn ad (RqLocalPayload replica node payload) = resultOf RsOperation
     (bnd (localWriterFor rn (uint8array_from replica)) (\<lambda>wr. inClient (wr_payload wr node payload)))"
| "nodeCall rn ad (RqInit baseUrl filename storage docId) = throw ''unsupported''"
| "nodeCall rn ad RqClose = throw ''unsupported''"
| "nodeCall rn ad RqDrop = throw ''unsupported''"

fun isData :: "RpcRequest \<Rightarrow> bool" where
  "isData (RqInit _ _ _ _) = False" | "isData RqClose = False" | "isData RqDrop = False" | "isData _ = True"

lemma byte_array [simp]: "uint8array_from (arrayFrom bs) = bs"
  by (simp add: uint8array_from_def arrayFrom_def o_def)

lemma byte_arrays [simp]: "uint8array_from \<circ> arrayFrom = (\<lambda>bs. bs)" "map_prod uint8array_from uint8array_from \<circ> map_prod arrayFrom arrayFrom = (\<lambda>p. p)"
  by (auto simp: fun_eq_iff)

lemma map_arrays [simp]: "map uint8array_from (map arrayFrom xs) = xs" "map_option uint8array_from (map_option arrayFrom v) = v"
  "map_option (map_prod uint8array_from uint8array_from) (map_option (map_prod arrayFrom arrayFrom) c) = c"
  by (simp_all add: option.map_comp option.map_ident)

section \<open>The direct client answers like the Node client\<close>

definition sameDirect :: "'w DirectState \<Rightarrow> 'w ClientState \<Rightarrow> bool" where
  "sameDirect s t \<longleftrightarrow> dc_world s = cs_world t \<and> dc_localWriters s = cs_localWriters t \<and> \<not> dc_closed s"

lemma direct_world: "agrees sameDirect E (inDirect m) (inClient m)"
  by (rule agreesI) (simp add: sameDirect_def inDirect_def inClient_def split: prod.splits)

lemma direct_writer: "agrees sameDirect E (directWriterFor rn replica) (localWriterFor rn replica)"
  by (rule agreesI)
    (simp add: sameDirect_def directWriterFor_def localWriterFor_def bnd_def sq_def split: option.splits sum.splits)

lemma direct_local: "agrees sameDirect E (bnd (directWriterFor rn replica) (\<lambda>wr. inDirect (f wr))) (bnd (localWriterFor rn replica) (\<lambda>wr. inClient (f wr)))"
  by (intro agrees_bnd direct_writer direct_world)

lemma direct_method: "isData rq \<Longrightarrow> agrees sameDirect E (directMethod host ad opened rq) (nodeCall (wh_runner host) ad rq)"
  by (cases rq) (simp_all add: agrees_result direct_world direct_local)

lemma direct_call:
  assumes "isData rq"
  shows "agrees sameDirect (\<lambda>e d. \<exists>stage. e = wrapError baseUrl opened stage d) (directCall host baseUrl ad opened rq) (nodeCall (wh_runner host) ad rq)"
    (is "agrees _ ?E _ _")
proof -
  let ?w = "\<lambda>e. if awaitedCall rq then wrapError baseUrl opened (rqMethod rq) e else e"
  have "agrees sameDirect ?E (catch (directMethod host ad opened rq) (\<lambda>e. throw (?w e))) (nodeCall (wh_runner host) ad rq)"
    by (rule agrees_catch [where w = ?w, OF direct_method [OF assms]]) auto
  then show ?thesis by (simp add: agrees_def sameDirect_def directCall_def bnd_eval)
qed

section \<open>The worker answers like the Node client\<close>

definition sameWorker :: "'w WorkerState \<Rightarrow> 'w ClientState \<Rightarrow> bool" where
  "sameWorker s t \<longleftrightarrow> wk_world s = cs_world t \<and> wk_localWriters s = cs_localWriters t \<and> wk_db s"

lemma worker_world: "agrees sameWorker E (inWorker m) (inClient m)"
  by (rule agreesI) (simp add: sameWorker_def inWorker_def inClient_def split: prod.splits)

lemma worker_api: "agrees sameWorker E (withApi m) (inClient m)"
  using worker_world [of E m] by (simp add: agrees_def withApi_def ensureOpen_def sq_eval bnd_eval sameWorker_def)

lemma worker_writer: "agrees sameWorker E (ensureLocalWriter host replica) (localWriterFor (wh_runner host) replica)"
  by (rule agreesI)
    (simp add: sameWorker_def ensureLocalWriter_def ensureOpen_def localWriterFor_def bnd_def sq_def split: option.splits sum.splits)

lemma worker_local: "agrees sameWorker E (bnd (ensureLocalWriter host replica) (\<lambda>wr. inWorker (f wr)))
    (bnd (localWriterFor (wh_runner host) replica) (\<lambda>wr. inClient (f wr)))"
  by (intro agrees_bnd worker_writer worker_world)

lemma worker_method: "isData rq \<Longrightarrow> agrees sameWorker E (workerMethod host ad rq) (nodeCall (wh_runner host) ad rq)"
  by (cases rq) (simp_all add: agrees_result worker_api worker_local)

lemma worker_call_catch: "workerCall host rq = catch (workerMethod host (directAdapter host) rq) (\<lambda>e. throw (if e = [] then ''worker error'' else e))"
  by (simp add: fun_eq_iff workerCall_def onWorkerRequest_def directAdapter_def bnd_def tryM_def catch_def fromResponse_def split: prod.splits sum.splits)

lemma worker_call:
  assumes "isData rq"
  shows "agrees sameWorker (\<lambda>e d. e = ''worker error'' \<and> d = []) (workerCall host rq) (nodeCall (wh_runner host) (directAdapter host) rq)"
  unfolding worker_call_catch
  by (rule agrees_catch [where w = "\<lambda>e. if e = [] then ''worker error'' else e", OF worker_method [OF assms]]) auto

section \<open>The engine over calls that agree with the Node client\<close>

lemma decode_result: "decode f (resultOf g m) = bnd m (\<lambda>x. liftR (f (g x)))"
  by (simp add: fun_eq_iff decode_def resultOf_def bnd_def split: prod.splits sum.splits)

lemma inClient_bnd: "inClient (bnd m f) = bnd (inClient m) (\<lambda>x. inClient (f x))"
  by (simp add: fun_eq_iff inClient_def bnd_def split: prod.splits sum.splits)

lemma inClient_lift: "inClient (liftR r) = liftR r" "inClient (ret x) = ret x" "inClient (throw e) = throw e"
  by (simp_all add: fun_eq_iff inClient_def)

lemma bnd_right_id: "bnd m ret = m" "bnd m (\<lambda>x. liftR (Inr x)) = m"
  by (simp_all add: fun_eq_iff bnd_def split: prod.splits sum.splits)

lemma bnd_unit: "bnd m (\<lambda>_. liftR (Inr ())) = m"
  by (simp add: fun_eq_iff bnd_def split: prod.splits sum.splits)

lemma bnd_assoc: "bnd (bnd m f) g = bnd m (\<lambda>x. bnd (f x) g)"
  by (simp add: fun_eq_iff bnd_def split: prod.splits sum.splits)

lemma bnd_lift: "bnd (liftR (bindR r f)) g = bnd (liftR r) (\<lambda>x. bnd (liftR (f x)) g)" "bnd (liftR (Inr x)) g = g x"
  by (cases r) (simp_all add: fun_eq_iff bnd_def)

lemma lift_bind: "liftR (bindR r f) = bnd (liftR r) (\<lambda>x. liftR (f x))"
  by (cases r) (simp_all add: fun_eq_iff bnd_def)

lemma ret_lift: "ret x = liftR (Inr x)"
  by (simp add: fun_eq_iff)

lemma throw_bnd: "bnd (throw e) f = throw e"
  by (simp add: fun_eq_iff bnd_def)

lemmas client_simps = decode_result inClient_bnd inClient_lift bnd_right_id bnd_unit bnd_assoc bnd_lift

lemma mapR_map: "mapR f (map g xs) = mapR (\<lambda>x. f (g x)) xs"
  by (induction xs) simp_all

lemma node_append_many: "decode affectedNodes (nodeCall rn ad (RqAppendMany ops)) = inClient (sqliteAppendMany ad ops)"
  by (cases "ad_appendOps ad")
    (simp_all add: client_simps affectedNodes_def sqliteAppendMany_def requireAppendOps_def mapRes_def mapR_map throw_bnd)

lemma node_ops_since: "opsSinceImpl (nodeCall rn ad) lamport rootId = inClient (sqliteOpsSince ad lamport rootId)"
  by (simp add: client_simps opsSinceImpl_def sqliteOpsSince_def asOps_def)

lemma node_get: "opsByOpRefsImpl (nodeCall rn ad) opRefs = inClient (sqliteOpsByOpRefs ad opRefs)"
  by (simp add: client_simps opsByOpRefsImpl_def sqliteOpsByOpRefs_def asOps_def del: map_map)

lemma node_children_refs: "opRefsChildrenImpl (nodeCall rn ad) parent = inClient (sqliteOpRefsChildren ad parent)"
  by (simp add: client_simps opRefsChildrenImpl_def sqliteOpRefsChildren_def asVals_def withNode_def)

lemma node_page: "decode (\<lambda>r. decodeSqliteTreeChildRows (asTree r))
    (nodeCall rn ad (RqTreeChildrenPage parent (map_option (map_prod arrayFrom arrayFrom) cursor) limit)) = inClient (sqliteChildrenPage ad parent cursor limit)"
  by (cases "ad_treeChildrenPage ad")
    (simp_all add: client_simps asTree_def sqliteChildrenPage_def requirePage_def withNode_def throw_bnd)

text \<open>The engine of the Node client is the engine over \<open>nodeCall\<close>.\<close>

lemma node_engine: "sameEngine S E a (makeTreecrdtClientFromCall mode st docId (nodeCall rn ad)) \<longleftrightarrow> sameEngine S E a (sqliteEngine rn ad docId)"
  unfolding sameEngine_def makeTreecrdtClientFromCall_def sqliteEngine_def TreecrdtEngine.simps
    node_append_many node_ops_since node_get node_children_refs node_page
  by (simp add: client_simps ret_lift asTree_def asVals_def asInt_def asBool_def asBytes_def asOperation_def withNode_def)

lemma make_agrees:
  assumes "\<And>rq. isData rq \<Longrightarrow> agrees S E (call rq) (node rq)"
  shows "sameEngine S E (makeTreecrdtClientFromCall mode st docId call) (makeTreecrdtClientFromCall mode' st' docId' node)"
proof -
  have get: "agrees S E (opsByOpRefsImpl call rs) (opsByOpRefsImpl node rs)" for rs
    unfolding opsByOpRefsImpl_def by (rule agrees_decode) (simp add: assms)
  have refs: "agrees S E (opRefsChildrenImpl call p) (opRefsChildrenImpl node p)" for p
    unfolding opRefsChildrenImpl_def by (rule agrees_decode) (simp add: assms)
  have since: "agrees S E (opsSinceImpl call l r) (opsSinceImpl node l r)" for l r
    unfolding opsSinceImpl_def by (rule agrees_decode) (simp add: assms)
  show ?thesis
    unfolding sameEngine_def makeTreecrdtClientFromCall_def TreecrdtEngine.simps
    by (intro conjI allI) (simp_all add: get refs since agrees_decode agrees_bnd assms)
qed

text \<open>
  C33: The browser clients behave like the Node client.  Over the same database and the same local
  writers every operation of the engine of the direct client, and of the worker client through its
  requests and responses, gives what the engine of the Node client gives, and leaves the same database
  and the same writers: byte arrays survive the trip as arrays of numbers.  Only errors may differ: the
  direct client may wrap an error into the JSON text of the stage it happened in, and the worker client
  replaces an empty message.
\<close>

theorem browser_clients_are_node_client:
  "sameEngine sameDirect (\<lambda>e d. \<exists>stage. e = wrapError baseUrl opened stage d)
      (directEngine host baseUrl docId opened) (sqliteEngine (wh_runner host) (directAdapter host) docId)
   \<and> sameEngine sameWorker (\<lambda>e d. e = ''worker error'' \<and> d = [])
      (makeTreecrdtClientFromCall ''worker'' storage docId (workerCall host)) (sqliteEngine (wh_runner host) (directAdapter host) docId)"
  unfolding directEngine_def node_engine [symmetric, where mode = "''node''" and st = StorageMemory]
  by (intro conjI make_agrees direct_call worker_call)

end
