(* ===== verification/Worker_Client.thy ===== *)
theory Worker_Client
  imports Wa_Sqlite "HOL-Library.Multiset"
begin

text \<open>
  The worker client of \<^verbatim>\<open>packages/treecrdt-wa-sqlite/src/client.ts\<close>: requests posted to the worker with a
  number, the table of the promises that wait for a response, and the end of the client by \<^verbatim>\<open>close\<close>,
  \<^verbatim>\<open>drop\<close> or an error of the worker.  The events are the calls of the application and the messages of
  the worker, in any order; the continuations of the promises a handler settles run before the next event.
\<close>

section \<open>State\<close>

text \<open>
  What waits for a response: a promise of the application (numbered in the order of the calls), the
  client being created, or the client being closed.  \<open>InitCloseReply\<close> carries the error creation ends with.
\<close>

datatype Waiter = Caller nat | InitReply | InitCloseReply error | CloseReply | DropReply

datatype ClientPhase = Starting | Ready StorageMode | Failed error

text \<open>
  The closure variables, what the worker and the application have seen (\<open>wc_posted\<close>, with the waiter of
  each request; \<open>wc_settled\<close>; \<open>wc_ended\<close>, the outcomes of \<^verbatim>\<open>close\<close> and \<^verbatim>\<open>drop\<close>), and the number of calls.
\<close>

record WorkerClient =
  wc_nextId :: nat
  wc_pending :: "(nat, Waiter) jsmap"
  wc_terminalError :: "error option"
  wc_closed :: bool
  wc_closePromise :: bool
  wc_phase :: ClientPhase
  wc_listening :: bool
  wc_terminated :: bool
  wc_posted :: "(nat \<times> Waiter \<times> RpcRequest) list"
  wc_calls :: nat
  wc_settled :: "(nat \<times> RpcResult res) list"
  wc_ended :: "(string \<times> unit res) list"

section \<open>Calls and continuations\<close>

text \<open>\<^verbatim>\<open>call\<close>: the error it rejects with at once, or the request posted.\<close>

definition rpcCall :: "Waiter \<Rightarrow> RpcRequest \<Rightarrow> WorkerClient \<Rightarrow> error option \<times> WorkerClient" where
  "rpcCall w rq s = (if wc_closed s then (Some CLIENT_CLOSED_ERROR, s)
     else let ident = wc_nextId s; s' = s\<lparr>wc_nextId := ident + 1\<rparr> in
       case wc_terminalError s of Some e \<Rightarrow> (Some e, s')
       | None \<Rightarrow> (None, s'\<lparr>wc_pending := js_set ident w (wc_pending s), wc_posted := wc_posted s @ [(ident, w, rq)]\<rparr>))"

definition settleCaller :: "nat \<Rightarrow> RpcResult res \<Rightarrow> WorkerClient \<Rightarrow> WorkerClient" where
  "settleCaller p r s = s\<lparr>wc_settled := wc_settled s @ [(p, r)]\<rparr>"

definition endWith :: "string \<Rightarrow> unit res \<Rightarrow> WorkerClient \<Rightarrow> WorkerClient" where
  "endWith how r s = s\<lparr>wc_ended := wc_ended s @ [(how, r)]\<rparr>"

text \<open>The \<^verbatim>\<open>close\<close> of the client swallows its error.\<close>

fun rejected :: "error \<Rightarrow> Waiter \<Rightarrow> WorkerClient \<Rightarrow> WorkerClient" where
  "rejected e (Caller p) s = settleCaller p (Inl e) s"
| "rejected e InitReply s = s\<lparr>wc_phase := Failed e\<rparr>"
| "rejected e (InitCloseReply err) s = s\<lparr>wc_phase := Failed err\<rparr>"
| "rejected e CloseReply s = endWith ''close'' (Inr ()) s"
| "rejected e DropReply s = endWith ''drop'' (Inl e) s"

definition rejectAll :: "error \<Rightarrow> Waiter list \<Rightarrow> WorkerClient \<Rightarrow> WorkerClient" where
  "rejectAll e ws s = fold (rejected e) ws s"

definition workerCleanup :: "WorkerClient \<Rightarrow> WorkerClient" where
  "workerCleanup s = rejectAll CLIENT_CLOSED_ERROR (map snd (wc_pending s))
     (s\<lparr>wc_closed := True, wc_pending := [], wc_listening := False, wc_terminated := True\<rparr>)"

definition failCreation :: "error \<Rightarrow> WorkerClient \<Rightarrow> WorkerClient" where
  "failCreation err s = (workerCleanup s)\<lparr>wc_phase := Failed err\<rparr>"

definition opfsFailure :: "error option \<Rightarrow> error" where
  "opfsFailure opfsError = ''OPFS requested but could not be initialized'' @
     (case opfsError of None \<Rightarrow> [] | Some e \<Rightarrow> if e = [] then [] else '': '' @ e)"

definition initialised :: "bool \<Rightarrow> RpcResult \<Rightarrow> WorkerClient \<Rightarrow> WorkerClient" where
  "initialised requireOpfs v s =
     (let (storage, opfsError) = (case v of RsInit st e \<Rightarrow> (st, e) | _ \<Rightarrow> (StorageMemory, None)) in
      if requireOpfs \<and> storage \<noteq> StorageOpfs then
        (if wc_terminalError s \<noteq> None then failCreation (opfsFailure opfsError) s
         else case rpcCall (InitCloseReply (opfsFailure opfsError)) RqClose s of
             (Some _, s') \<Rightarrow> failCreation (opfsFailure opfsError) s' | (None, s') \<Rightarrow> s')
      else s\<lparr>wc_phase := Ready storage\<rparr>)"

fun settle :: "bool \<Rightarrow> Waiter \<Rightarrow> RpcResult res \<Rightarrow> WorkerClient \<Rightarrow> WorkerClient" where
  "settle requireOpfs (InitCloseReply err) r s = failCreation err s"
| "settle requireOpfs w (Inl e) s = rejected e w s"
| "settle requireOpfs (Caller p) (Inr v) s = settleCaller p (Inr v) s"
| "settle requireOpfs InitReply (Inr v) s = initialised requireOpfs v s"
| "settle requireOpfs CloseReply (Inr v) s = endWith ''close'' (Inr ()) (workerCleanup s)"
| "settle requireOpfs DropReply (Inr v) s = endWith ''drop'' (Inr ()) (workerCleanup s)"

section \<open>Events\<close>

datatype ClientEvent = CeCall RpcRequest | CeMessage nat "RpcResult res" | CeError string | CeClose | CeDrop

definition clientCall :: "RpcRequest \<Rightarrow> WorkerClient \<Rightarrow> WorkerClient" where
  "clientCall rq s = (let p = wc_calls s in
     case rpcCall (Caller p) rq (s\<lparr>wc_calls := p + 1\<rparr>) of (Some e, s') \<Rightarrow> settleCaller p (Inl e) s' | (None, s') \<Rightarrow> s')"

definition onMessage :: "bool \<Rightarrow> nat \<Rightarrow> RpcResult res \<Rightarrow> WorkerClient \<Rightarrow> WorkerClient" where
  "onMessage requireOpfs ident r s = (case js_get (wc_pending s) ident of None \<Rightarrow> s
     | Some w \<Rightarrow> settle requireOpfs w (fromResponse r) (s\<lparr>wc_pending := js_delete ident (wc_pending s)\<rparr>))"

definition onWorkerError :: "bool \<Rightarrow> string \<Rightarrow> WorkerClient \<Rightarrow> WorkerClient" where
  "onWorkerError requireOpfs message s = (let err = (if message = [] then ''worker error'' else message) in
     fold (\<lambda>w. settle requireOpfs w (Inl err)) (map snd (wc_pending s)) (s\<lparr>wc_terminalError := Some err, wc_pending := []\<rparr>))"

definition teardown :: "string \<Rightarrow> Waiter \<Rightarrow> RpcRequest \<Rightarrow> WorkerClient \<Rightarrow> WorkerClient" where
  "teardown how w rq s = (if wc_closed s then endWith how (Inr ()) s
     else if wc_terminalError s \<noteq> None then endWith how (Inr ()) (workerCleanup s)
     else snd (rpcCall w rq s))"

definition engineClose :: "WorkerClient \<Rightarrow> WorkerClient" where
  "engineClose s = (if wc_closePromise s then s else teardown ''close'' CloseReply RqClose (s\<lparr>wc_closePromise := True\<rparr>))"

definition isReady :: "WorkerClient \<Rightarrow> bool" where
  "isReady s = (case wc_phase s of Ready _ \<Rightarrow> True | _ \<Rightarrow> False)"

text \<open>The application has a client to call once its creation has succeeded.\<close>

fun clientStep :: "bool \<Rightarrow> ClientEvent \<Rightarrow> WorkerClient \<Rightarrow> WorkerClient" where
  "clientStep requireOpfs (CeCall rq) s = (if isReady s then clientCall rq s else s)"
| "clientStep requireOpfs (CeMessage ident r) s = (if wc_listening s then onMessage requireOpfs ident r s else s)"
| "clientStep requireOpfs (CeError message) s = (if wc_listening s then onWorkerError requireOpfs message s else s)"
| "clientStep requireOpfs CeClose s = (if isReady s then engineClose s else s)"
| "clientStep requireOpfs CeDrop s = (if isReady s then teardown ''drop'' DropReply RqDrop s else s)"

definition runClient :: "bool \<Rightarrow> ClientEvent list \<Rightarrow> WorkerClient \<Rightarrow> WorkerClient" where
  "runClient requireOpfs evs s = fold (clientStep requireOpfs) evs s"

text \<open>A new client has posted \<^verbatim>\<open>init\<close>.\<close>

definition createWorkerClient :: "ClientArgs \<Rightarrow> WorkerClient" where
  "createWorkerClient args = snd (rpcCall InitReply (RqInit (ca_baseUrl args) (ca_filename args) (ca_storage args) (ca_docId args))
     \<lparr>wc_nextId = 1, wc_pending = [], wc_terminalError = None, wc_closed = False, wc_closePromise = False, wc_phase = Starting,
      wc_listening = True, wc_terminated = False, wc_posted = [], wc_calls = 0, wc_settled = [], wc_ended = []\<rparr>)"

section \<open>Every call is settled once\<close>

text \<open>
  The calls that wait, and the invariant of the table and of the promises handed out; \<open>hand\<close> holds the
  waiters a handler has taken out of the table and not settled yet.
\<close>

fun callerOf :: "Waiter \<Rightarrow> nat multiset" where
  "callerOf (Caller p) = {#p#}" | "callerOf _ = {#}"

definition callers :: "Waiter list \<Rightarrow> nat multiset" where
  "callers ws = sum_list (map callerOf ws)"

definition waiting :: "WorkerClient \<Rightarrow> nat multiset" where
  "waiting s = callers (map snd (wc_pending s))"

definition calls_ok :: "Waiter list \<Rightarrow> WorkerClient \<Rightarrow> bool" where
  "calls_ok hand s \<longleftrightarrow> waiting s + callers hand + mset (map fst (wc_settled s)) = mset [0..<wc_calls s]"

definition table_ok :: "WorkerClient \<Rightarrow> bool" where
  "table_ok s \<longleftrightarrow> js_wf (wc_pending s) \<and> (\<forall>i \<in> fst ` set (wc_pending s). i < wc_nextId s)
     \<and> (wc_closed s \<or> wc_terminalError s \<noteq> None \<longrightarrow> wc_pending s = [])
     \<and> wc_listening s = (\<not> wc_closed s) \<and> wc_terminated s = wc_closed s"

definition client_ok :: "Waiter list \<Rightarrow> WorkerClient \<Rightarrow> bool" where
  "client_ok hand s \<longleftrightarrow> calls_ok hand s \<and> table_ok s"

lemma callers_simps [simp]: "callers [] = {#}" "callers (w # ws) = callerOf w + callers ws" "callers (us @ ws) = callers us + callers ws"
  by (simp_all add: callers_def)

lemma callers_delete: "js_wf m \<Longrightarrow> js_get m k = Some w \<Longrightarrow> callers (map snd m) = callerOf w + callers (map snd (js_delete k m))"
proof (induction m)
  case (Cons e m)
  obtain k' w' where e: "e = (k', w')" by (cases e)
  show ?case
  proof (cases "k' = k")
    case True
    with Cons.prems e have "js_get m k = None" by (auto simp: js_wf_def js_get_def map_of_eq_None_iff)
    then have "js_delete k m = m" by (rule js_delete_absent)
    with True Cons.prems e show ?thesis by (simp add: js_get_def js_delete_def)
  next
    case False
    with Cons.prems e have "js_wf m" "js_get m k = Some w" by (simp_all add: js_wf_def js_get_def)
    from Cons.IH [OF this] False e show ?thesis by (simp add: js_delete_def)
  qed
qed simp

lemma rejected_ok: "client_ok (w # hand) s \<Longrightarrow> client_ok hand (rejected e w s)"
  by (cases w) (simp_all add: client_ok_def calls_ok_def table_ok_def waiting_def settleCaller_def endWith_def ac_simps)

lemma rejectAll_ok: "client_ok (ws @ hand) s \<Longrightarrow> client_ok hand (rejectAll e ws s)"
  unfolding rejectAll_def by (induction ws arbitrary: s) (simp_all add: rejected_ok)

lemma worker_cleanup_ok: "client_ok hand s \<Longrightarrow> client_ok hand (workerCleanup s)"
  unfolding workerCleanup_def
  by (rule rejectAll_ok) (simp add: client_ok_def calls_ok_def table_ok_def waiting_def ac_simps)

lemma fail_ok: "client_ok hand s \<Longrightarrow> client_ok hand (failCreation err s)"
  using worker_cleanup_ok [of hand s] by (simp add: failCreation_def client_ok_def calls_ok_def table_ok_def waiting_def)

lemma call_ok:
  assumes "client_ok (w # hand) s" "rpcCall w rq s = (r, s')"
  shows "client_ok (if r = None then hand else w # hand) s'"
proof (cases "wc_closed s \<or> wc_terminalError s \<noteq> None")
  case True
  with assms show ?thesis
    by (auto simp: rpcCall_def client_ok_def calls_ok_def table_ok_def waiting_def split: if_splits)
next
  case False
  from assms(1) have tab: "table_ok s" and calls: "calls_ok (w # hand) s" by (simp_all add: client_ok_def)
  from tab have "\<not> js_has (wc_pending s) (wc_nextId s)" by (auto simp: table_ok_def js_has_keys)
  note new = js_set_fresh [OF this, of w]
  from False assms(2) have s': "r = None" "s' = s\<lparr>wc_nextId := wc_nextId s + 1, wc_pending := js_set (wc_nextId s) w (wc_pending s),
      wc_posted := wc_posted s @ [(wc_nextId s, w, rq)]\<rparr>"
    by (auto simp: rpcCall_def Let_def)
  have "calls_ok hand s'" using calls by (simp add: s'(2) calls_ok_def waiting_def new ac_simps)
  moreover have "table_ok s'" using tab False by (auto simp: s'(2) table_ok_def)
  ultimately show ?thesis by (simp add: client_ok_def s'(1))
qed

lemma init_ok: "client_ok hand s \<Longrightarrow> client_ok hand (initialised requireOpfs v s)"
proof -
  assume ok: "client_ok hand s"
  have ready: "client_ok hand (s\<lparr>wc_phase := Ready st\<rparr>)" for st
    using ok by (simp add: client_ok_def calls_ok_def table_ok_def waiting_def)
  have closing: "client_ok hand (case rpcCall (InitCloseReply err) RqClose s of (Some _, s') \<Rightarrow> failCreation err s' | (None, s') \<Rightarrow> s')" for err
  proof (cases "rpcCall (InitCloseReply err) RqClose s")
    case (Pair r s')
    have "client_ok (InitCloseReply err # hand) s" using ok by (simp add: client_ok_def calls_ok_def)
    from call_ok [OF this Pair] have "client_ok hand s'" by (auto simp: client_ok_def calls_ok_def split: if_splits)
    then show ?thesis by (simp add: Pair fail_ok split: option.splits)
  qed
  show ?thesis using ok by (auto simp: initialised_def Let_def ready closing fail_ok split: prod.splits)
qed

lemma settle_ok:
  assumes "client_ok (w # hand) s" shows "client_ok hand (settle requireOpfs w r s)"
proof -
  have tear: "client_ok hand (endWith how q (workerCleanup s))" if "callerOf w = {#}" for how q
  proof -
    have "client_ok hand s" using assms that by (simp add: client_ok_def calls_ok_def)
    from worker_cleanup_ok [OF this] show ?thesis by (simp add: client_ok_def calls_ok_def table_ok_def waiting_def endWith_def)
  qed
  have free: "client_ok hand s" if "callerOf w = {#}" using assms that by (simp add: client_ok_def calls_ok_def)
  show ?thesis
  proof (cases r)
    case (Inl e)
    with assms show ?thesis using rejected_ok [OF assms, of e] free by (cases w) (simp_all add: fail_ok)
  next
    case (Inr v)
    then show ?thesis
      using assms free tear
      by (cases w) (simp_all add: fail_ok init_ok, simp add: client_ok_def calls_ok_def table_ok_def waiting_def settleCaller_def ac_simps)
  qed
qed

lemma settles_ok: "client_ok (ws @ hand) s \<Longrightarrow> client_ok hand (fold (\<lambda>w. settle requireOpfs w r) ws s)"
  by (induction ws arbitrary: s) (simp_all add: settle_ok)

lemma message_ok: "client_ok [] s \<Longrightarrow> client_ok [] (onMessage requireOpfs ident r s)"
proof (cases "js_get (wc_pending s) ident")
  case (Some w)
  assume ok: "client_ok [] s"
  then have wf: "js_wf (wc_pending s)" by (simp add: client_ok_def table_ok_def)
  from callers_delete [OF wf Some] js_wf_delete [OF wf, of ident] ok
  have "client_ok [w] (s\<lparr>wc_pending := js_delete ident (wc_pending s)\<rparr>)"
    by (auto simp: client_ok_def calls_ok_def table_ok_def waiting_def ac_simps js_delete_def)
  then show ?thesis by (simp add: onMessage_def Some settle_ok)
qed (simp add: onMessage_def)

lemma error_ok: "client_ok [] s \<Longrightarrow> client_ok [] (onWorkerError requireOpfs message s)"
  unfolding onWorkerError_def Let_def
  by (rule settles_ok) (simp add: client_ok_def calls_ok_def table_ok_def waiting_def)

lemma end_ok: "client_ok hand s \<Longrightarrow> client_ok hand (endWith how r s)"
  by (simp add: client_ok_def calls_ok_def table_ok_def waiting_def endWith_def)

lemma teardown_ok:
  assumes "client_ok [] s" "callerOf w = {#}" shows "client_ok [] (teardown how w rq s)"
proof -
  have "client_ok [w] s" using assms by (simp add: client_ok_def calls_ok_def)
  from call_ok [OF this prod.collapse [symmetric], of rq] have "client_ok [] (snd (rpcCall w rq s))"
    using assms(2) by (cases "fst (rpcCall w rq s) = None") (simp_all add: client_ok_def calls_ok_def)
  with assms show ?thesis by (simp add: teardown_def end_ok worker_cleanup_ok)
qed

lemma clientCall_ok: "client_ok [] s \<Longrightarrow> client_ok [] (clientCall rq s)"
proof -
  assume ok: "client_ok [] s"
  let ?s = "s\<lparr>wc_calls := wc_calls s + 1\<rparr>"
  have "client_ok [Caller (wc_calls s)] ?s" using ok by (simp add: client_ok_def calls_ok_def table_ok_def waiting_def)
  from call_ok [OF this] show ?thesis
    by (cases "rpcCall (Caller (wc_calls s)) rq ?s")
      (fastforce simp: clientCall_def Let_def client_ok_def calls_ok_def table_ok_def waiting_def settleCaller_def split: option.splits)
qed

lemma step_ok: "client_ok [] s \<Longrightarrow> client_ok [] (clientStep requireOpfs ev s)"
proof (cases ev)
  case CeClose
  assume ok: "client_ok [] s"
  then have "client_ok [] (s\<lparr>wc_closePromise := True\<rparr>)" by (simp add: client_ok_def calls_ok_def table_ok_def waiting_def)
  with CeClose ok show ?thesis by (simp add: engineClose_def teardown_ok)
qed (simp_all add: clientCall_ok message_ok error_ok teardown_ok)

lemma create_ok: "client_ok [] (createWorkerClient args)"
  by (simp add: createWorkerClient_def rpcCall_def client_ok_def calls_ok_def table_ok_def waiting_def js_wf_def)

lemma run_ok: "client_ok [] s \<Longrightarrow> client_ok [] (runClient requireOpfs evs s)"
  unfolding runClient_def by (induction evs arbitrary: s) (simp_all add: step_ok)

text \<open>
  C34: Every call of the application to the worker client is settled exactly once or still waits for its
  response: after any sequence of calls, responses, errors of the worker and attempts to close, the
  calls that wait together with those settled are all the calls made, each of them once.  Once the client
  is closed or the worker has failed nothing waits any more, so no call hangs, and the worker is
  terminated and its listeners removed exactly when the client is closed.
\<close>

theorem worker_client_settles_once:
  "let s = runClient requireOpfs evs (createWorkerClient args) in
     waiting s + mset (map fst (wc_settled s)) = mset [0..<wc_calls s]
     \<and> (wc_closed s \<or> wc_terminalError s \<noteq> None \<longrightarrow> waiting s = {#})
     \<and> wc_terminated s = wc_closed s \<and> wc_listening s = (\<not> wc_closed s)"
  using run_ok [OF create_ok, of requireOpfs evs args]
  by (auto simp: Let_def client_ok_def calls_ok_def table_ok_def waiting_def)

definition demo_args :: ClientArgs where
  "demo_args = \<lparr>ca_baseUrl = ''/'', ca_filename = None, ca_storage = StorageOpfs, ca_requireOpfs = False, ca_docId = ''doc''\<rparr>"

text \<open>The second of two calls waits when the worker fails: both are settled.\<close>

theorem worker_client_settles_once_witness:
  "mset (map fst (wc_settled (runClient False [CeMessage 1 (Inr (RsInit StorageOpfs None)), CeCall RqHeadLamport, CeCall RqTreeNodeCount,
     CeMessage 3 (Inr (RsNumber 7)), CeError ''out of memory''] (createWorkerClient demo_args)))) = mset [0..<2]"
proof -
  let ?s = "runClient False [CeMessage 1 (Inr (RsInit StorageOpfs None)), CeCall RqHeadLamport, CeCall RqTreeNodeCount,
     CeMessage 3 (Inr (RsNumber 7)), CeError ''out of memory''] (createWorkerClient demo_args)"
  have s: "wc_terminalError ?s = Some ''out of memory''" "wc_calls ?s = 2"
    by (simp_all add: runClient_def createWorkerClient_def rpcCall_def onMessage_def onWorkerError_def initialised_def isReady_def clientCall_def
      settleCaller_def fromResponse_def js_get_def js_delete_def demo_args_def Let_def)
  from worker_client_settles_once [of False "[CeMessage 1 (Inr (RsInit StorageOpfs None)), CeCall RqHeadLamport, CeCall RqTreeNodeCount,
      CeMessage 3 (Inr (RsNumber 7)), CeError ''out of memory'']" demo_args]
  have "waiting ?s + mset (map fst (wc_settled ?s)) = mset [0..<wc_calls ?s]" "waiting ?s = {#}" unfolding Let_def s(1) by blast+
  then show ?thesis unfolding s(2) by simp
qed

section \<open>A call resolves with the response to its own request\<close>

text \<open>\<open>answered evs s\<close>: the requests in the table were posted, and every value a call got came with the number of its request.\<close>

definition answered :: "ClientEvent list \<Rightarrow> WorkerClient \<Rightarrow> bool" where
  "answered evs s \<longleftrightarrow> (\<forall>ident w. (ident, w) \<in> set (wc_pending s) \<longrightarrow> (\<exists>rq. (ident, w, rq) \<in> set (wc_posted s)))
     \<and> (\<forall>p v. (p, Inr v) \<in> set (wc_settled s) \<longrightarrow> (\<exists>ident rq. (ident, Caller p, rq) \<in> set (wc_posted s) \<and> CeMessage ident (Inr v) \<in> set evs))
     \<and> distinct (map fst (wc_posted s)) \<and> (\<forall>e \<in> set (wc_posted s). fst e < wc_nextId s)"

lemma answeredD:
  assumes "answered evs s"
  shows "(ident, w) \<in> set (wc_pending s) \<Longrightarrow> \<exists>rq. (ident, w, rq) \<in> set (wc_posted s)"
    and "(p, Inr v) \<in> set (wc_settled s) \<Longrightarrow> \<exists>ident rq. (ident, Caller p, rq) \<in> set (wc_posted s) \<and> CeMessage ident (Inr v) \<in> set evs"
    and "distinct (map fst (wc_posted s))" and "e \<in> set (wc_posted s) \<Longrightarrow> fst e < wc_nextId s"
  using assms unfolding answered_def by blast+

lemma answeredI:
  assumes "\<And>ident w. (ident, w) \<in> set (wc_pending s) \<Longrightarrow> \<exists>rq. (ident, w, rq) \<in> set (wc_posted s)"
    and "\<And>p v. (p, Inr v) \<in> set (wc_settled s) \<Longrightarrow> \<exists>ident rq. (ident, Caller p, rq) \<in> set (wc_posted s) \<and> CeMessage ident (Inr v) \<in> set evs"
    and "distinct (map fst (wc_posted s))" and "\<And>e. e \<in> set (wc_posted s) \<Longrightarrow> fst e < wc_nextId s"
  shows "answered evs s"
  using assms unfolding answered_def by blast

text \<open>Steps that post nothing, keep the table or empty it, and settle calls only with errors.\<close>

definition onlyErrors :: "WorkerClient \<Rightarrow> WorkerClient \<Rightarrow> bool" where
  "onlyErrors s s' \<longleftrightarrow> wc_posted s' = wc_posted s \<and> wc_nextId s' = wc_nextId s \<and> set (wc_pending s') \<subseteq> set (wc_pending s)
     \<and> (\<forall>p v. (p, Inr v) \<in> set (wc_settled s') \<longrightarrow> (p, Inr v) \<in> set (wc_settled s))"

lemma onlyErrors_refl [simp]: "onlyErrors s s"
  by (simp add: onlyErrors_def)

lemma onlyErrors_trans: "onlyErrors s t \<Longrightarrow> onlyErrors t u \<Longrightarrow> onlyErrors s u"
  by (auto simp: onlyErrors_def)

lemma onlyErrors_answered: "answered evs s \<Longrightarrow> onlyErrors s s' \<Longrightarrow> answered evs s'"
  unfolding answered_def onlyErrors_def by (intro conjI) (elim conjE, blast | simp)+

lemma errors_rejected: "onlyErrors s (rejected e w s)"
  by (cases w) (simp_all add: onlyErrors_def settleCaller_def endWith_def)

lemma errors_rejectAll: "onlyErrors s (rejectAll e ws s)"
  unfolding rejectAll_def by (induction ws arbitrary: s) (auto intro: onlyErrors_trans errors_rejected)

lemma errors_workerCleanup: "onlyErrors s (workerCleanup s)"
  unfolding workerCleanup_def by (rule onlyErrors_trans [OF _ errors_rejectAll]) (simp add: onlyErrors_def)

lemma errors_fail: "onlyErrors s (failCreation err s)"
  using errors_workerCleanup [of s] by (simp add: failCreation_def onlyErrors_def)

lemma errors_end: "onlyErrors s (endWith how r s)"
  by (simp add: onlyErrors_def endWith_def)

lemma errors_settle: "onlyErrors s (settle requireOpfs w (Inl e) s)"
proof (cases "\<exists>err. w = InitCloseReply err")
  case False
  then have "settle requireOpfs w (Inl e) s = rejected e w s" by (cases w) simp_all
  then show ?thesis by (simp add: errors_rejected)
qed (auto simp: errors_fail)

lemma answered_call: "answered evs s \<Longrightarrow> answered evs (snd (rpcCall w rq s))"
proof (cases "wc_closed s \<or> wc_terminalError s \<noteq> None")
  case True
  assume ok: "answered evs s"
  then have "answered evs (s\<lparr>wc_nextId := wc_nextId s + 1\<rparr>)"
    using answeredD [OF ok] by (intro answeredI) (auto intro: less_SucI)
  with True ok show ?thesis by (auto simp: rpcCall_def Let_def split: option.splits)
next
  case False
  assume ok: "answered evs s"
  have sub: "set (js_set k v m) \<subseteq> insert (k, v) (set m)" for k v and m :: "(nat, Waiter) jsmap"
    by (induction k v m rule: js_set.induct) auto
  from False have s': "snd (rpcCall w rq s) = s\<lparr>wc_nextId := wc_nextId s + 1, wc_pending := js_set (wc_nextId s) w (wc_pending s),
      wc_posted := wc_posted s @ [(wc_nextId s, w, rq)]\<rparr>"
    by (auto simp: rpcCall_def Let_def)
  from ok have fresh: "wc_nextId s \<notin> fst ` set (wc_posted s)" by (auto simp: answered_def)
  show ?thesis
  proof (rule answeredI)
    fix ident u assume "(ident, u) \<in> set (wc_pending (snd (rpcCall w rq s)))"
    with sub have "ident = wc_nextId s \<and> u = w \<or> (ident, u) \<in> set (wc_pending s)" by (fastforce simp: s')
    then show "\<exists>rqa. (ident, u, rqa) \<in> set (wc_posted (snd (rpcCall w rq s)))"
      using answeredD(1) [OF ok, of ident u] by (auto simp: s')
  next
    fix p v assume "(p, Inr v) \<in> set (wc_settled (snd (rpcCall w rq s)))"
    then have "(p, Inr v) \<in> set (wc_settled s)" by (simp add: s')
    from answeredD(2) [OF ok this] show "\<exists>ident rqa. (ident, Caller p, rqa) \<in> set (wc_posted (snd (rpcCall w rq s))) \<and> CeMessage ident (Inr v) \<in> set evs"
      unfolding s' by auto
  next
    show "distinct (map fst (wc_posted (snd (rpcCall w rq s))))" using answeredD(3) [OF ok] fresh by (simp add: s')
  next
    fix e assume "e \<in> set (wc_posted (snd (rpcCall w rq s)))"
    then show "fst e < wc_nextId (snd (rpcCall w rq s))" using answeredD(4) [OF ok, of e] by (auto simp: s')
  qed
qed

lemma answered_more: "answered evs s \<Longrightarrow> answered (evs @ rest) s"
  unfolding answered_def set_append by blast

lemma answered_init: "answered evs s \<Longrightarrow> answered evs (initialised requireOpfs v s)"
proof -
  assume ok: "answered evs s"
  have call: "answered evs (case rpcCall w rq s of (Some _, s') \<Rightarrow> failCreation err s' | (None, s') \<Rightarrow> s')" for w rq err
    using answered_call [OF ok, of w rq] onlyErrors_answered [OF _ errors_fail]
    by (auto split: prod.splits option.splits)
  show ?thesis
    using ok call onlyErrors_answered [OF ok errors_fail] by (auto simp: initialised_def answered_def Let_def split: prod.splits)
qed

lemma answered_settle:
  assumes ok: "answered evs s" and sent: "(ident, w, rq) \<in> set (wc_posted s)" "CeMessage ident (Inr v) \<in> set evs"
  shows "answered evs (settle requireOpfs w (Inr v) s)"
proof -
  have ended: "answered evs (endWith how r (workerCleanup s))" for how r
    by (rule onlyErrors_answered [OF ok onlyErrors_trans [OF errors_workerCleanup errors_end]])
  show ?thesis
  proof (cases w)
    case (Caller p)
    show ?thesis
      using Caller sent answeredD [OF ok] by (intro answeredI) (auto simp: settleCaller_def)
  qed (simp_all add: ended answered_init ok onlyErrors_answered [OF ok errors_fail])
qed

lemma answered_message: "answered evs s \<Longrightarrow> answered (evs @ [CeMessage ident r]) (onMessage requireOpfs ident r s)"
proof (cases "js_get (wc_pending s) ident")
  case None
  assume "answered evs s"
  with None show ?thesis by (simp add: onMessage_def answered_more)
next
  case (Some w)
  assume ok: "answered evs s"
  let ?s = "s\<lparr>wc_pending := js_delete ident (wc_pending s)\<rparr>"
  have "onlyErrors s ?s" by (auto simp: onlyErrors_def js_delete_def)
  then have next_ok: "answered (evs @ [CeMessage ident r]) ?s" using answered_more [OF ok] onlyErrors_answered by blast
  from js_get_in [OF Some] obtain rq where "(ident, w, rq) \<in> set (wc_posted ?s)" using answeredD(1) [OF ok] by fastforce
  with next_ok show ?thesis
    by (cases r) (auto simp: onMessage_def Some fromResponse_def intro: answered_settle onlyErrors_answered [OF _ errors_settle])
qed

lemma errors_onError: "onlyErrors s (onWorkerError requireOpfs message s)"
proof -
  have "onlyErrors s (fold (\<lambda>w. settle requireOpfs w (Inl e)) ws s)" for e ws s
    by (induction ws arbitrary: s) (auto intro: onlyErrors_trans errors_settle)
  note all = this
  show ?thesis unfolding onWorkerError_def Let_def by (rule onlyErrors_trans [OF _ all]) (simp add: onlyErrors_def)
qed

lemma answered_teardown: "answered evs s \<Longrightarrow> answered evs (teardown how w rq s)"
  using onlyErrors_answered [OF _ errors_end] onlyErrors_answered [OF _ onlyErrors_trans [OF errors_workerCleanup errors_end]]
  by (auto simp: teardown_def answered_call)

lemma answered_clientCall: "answered evs s \<Longrightarrow> answered evs (clientCall rq s)"
proof -
  assume "answered evs s"
  then have "answered evs (s\<lparr>wc_calls := wc_calls s + 1\<rparr>)" by (simp add: answered_def)
  note sent = answered_call [OF this, of "Caller (wc_calls s)" rq]
  have "onlyErrors t (settleCaller p (Inl e) t)" for t p e by (simp add: onlyErrors_def settleCaller_def)
  with sent show ?thesis
    by (auto simp: clientCall_def Let_def split: prod.splits option.splits intro: onlyErrors_answered)
qed

lemma answered_step: "answered evs s \<Longrightarrow> answered (evs @ [ev]) (clientStep requireOpfs ev s)"
proof (cases ev)
  case (CeError m)
  assume "answered evs s"
  with CeError show ?thesis
    using onlyErrors_answered [OF answered_more errors_onError] by (simp add: answered_more)
next
  case CeClose
  assume "answered evs s"
  then have "answered (evs @ [ev]) (s\<lparr>wc_closePromise := True\<rparr>)" by (intro answered_more) (simp add: answered_def)
  with CeClose \<open>answered evs s\<close> show ?thesis by (simp add: engineClose_def answered_more answered_teardown)
qed (simp_all add: answered_more answered_message answered_clientCall answered_teardown)

lemma answered_run: "answered evs (runClient requireOpfs evs (createWorkerClient args))"
proof (induction evs rule: rev_induct)
  case Nil
  show ?case by (simp add: runClient_def createWorkerClient_def rpcCall_def answered_def)
next
  case (snoc ev evs)
  from answered_step [OF this] show ?case by (simp add: runClient_def)
qed

text \<open>
  A call to the worker client resolves only with the response to its own request: the requests
  posted carry distinct numbers, and when a call has resolved with a value, one of them was posted for
  this call and the worker sent that value in a message with that number, however the responses of
  concurrent calls are ordered.
\<close>

theorem worker_client_answers_match:
  assumes "(p, Inr v) \<in> set (wc_settled (runClient requireOpfs evs (createWorkerClient args)))"
  shows "distinct (map fst (wc_posted (runClient requireOpfs evs (createWorkerClient args))))
    \<and> (\<exists>ident rq. (ident, Caller p, rq) \<in> set (wc_posted (runClient requireOpfs evs (createWorkerClient args)))
         \<and> CeMessage ident (Inr v) \<in> set evs)"
  using answered_run [of evs requireOpfs args] assms by (auto simp: answered_def)

definition demo_rpc_events :: "ClientEvent list" where
  "demo_rpc_events = [CeMessage 1 (Inr (RsInit StorageOpfs None)), CeCall RqHeadLamport, CeCall RqTreeNodeCount,
     CeMessage 3 (Inr (RsNumber 7)), CeMessage 2 (Inr (RsNumber 5))]"

lemma demo_client_eval: "wc_settled (runClient False demo_rpc_events (createWorkerClient demo_args)) = [(1, Inr (RsNumber 7)), (0, Inr (RsNumber 5))]"
  by (simp add: demo_rpc_events_def runClient_def createWorkerClient_def rpcCall_def onMessage_def initialised_def isReady_def clientCall_def
      settleCaller_def fromResponse_def js_get_def js_delete_def demo_args_def)

theorem worker_client_answers_match_witness:
  "\<exists>ident rq. (ident, Caller 1, rq) \<in> set (wc_posted (runClient False demo_rpc_events (createWorkerClient demo_args)))
    \<and> CeMessage ident (Inr (RsNumber 7)) \<in> set demo_rpc_events"
  by (rule worker_client_answers_match [THEN conjunct2]) (simp add: demo_client_eval)

section \<open>A close the worker refuses\<close>

fun isCaller :: "Waiter \<Rightarrow> bool" where
  "isCaller (Caller _) = True" | "isCaller _ = False"

definition abandoned :: "WorkerClient \<Rightarrow> bool" where
  "abandoned s \<longleftrightarrow> isReady s \<and> wc_closePromise s \<and> \<not> wc_closed s \<and> wc_listening s \<and> \<not> wc_terminated s
     \<and> (\<forall>w \<in> snd ` set (wc_pending s). \<exists>p. w = Caller p)"

lemma abandoned_settle [simp]: "abandoned s \<Longrightarrow> abandoned (settleCaller p r s)"
  by (simp add: abandoned_def settleCaller_def isReady_def)

lemma abandoned_errors: "\<forall>w \<in> set ws. \<exists>p. w = Caller p \<Longrightarrow> abandoned s \<Longrightarrow> abandoned (fold (\<lambda>w. settle requireOpfs w (Inl e)) ws s)"
  by (induction ws arbitrary: s) auto

lemma abandoned_call: "abandoned s \<Longrightarrow> abandoned (clientCall rq s)"
proof -
  assume ab: "abandoned s"
  have sub: "snd ` set (js_set k v m) \<subseteq> insert v (snd ` set m)" for k v and m :: "(nat, Waiter) jsmap"
    by (induction k v m rule: js_set.induct) auto
  show ?thesis
  proof (cases "wc_terminalError s")
    case None
    let ?m = "js_set (wc_nextId s) (Caller (wc_calls s)) (wc_pending s)"
    from None ab have s': "clientCall rq s = s\<lparr>wc_calls := wc_calls s + 1, wc_nextId := wc_nextId s + 1, wc_pending := ?m,
        wc_posted := wc_posted s @ [(wc_nextId s, Caller (wc_calls s), rq)]\<rparr>"
      by (simp add: clientCall_def rpcCall_def abandoned_def Let_def)
    have "\<forall>w \<in> snd ` set ?m. \<exists>p. w = Caller p"
      using ab sub [of "wc_nextId s" "Caller (wc_calls s)" "wc_pending s"] unfolding abandoned_def by blast
    with ab show ?thesis by (simp add: s' abandoned_def isReady_def)
  next
    case (Some e)
    with ab show ?thesis by (simp add: clientCall_def rpcCall_def abandoned_def isReady_def settleCaller_def Let_def)
  qed
qed

lemma abandoned_message: "abandoned s \<Longrightarrow> abandoned (onMessage requireOpfs ident r s)"
proof (cases "js_get (wc_pending s) ident")
  case (Some w)
  assume ab: "abandoned s"
  with js_get_in [OF Some] obtain p where "w = Caller p" by (force simp: abandoned_def)
  with ab show ?thesis
    by (cases "fromResponse r")
      (auto simp: onMessage_def Some abandoned_def isReady_def settleCaller_def js_delete_def)
qed (simp add: onMessage_def)

lemma abandoned_step: "CeDrop \<noteq> ev \<Longrightarrow> abandoned s \<Longrightarrow> abandoned (clientStep requireOpfs ev s)"
proof (cases ev)
  case (CeError m)
  assume ab: "abandoned s"
  then have "abandoned (s\<lparr>wc_terminalError := Some err, wc_pending := []\<rparr>)" for err by (simp add: abandoned_def isReady_def)
  with CeError ab show ?thesis
    by (auto simp: onWorkerError_def Let_def abandoned_def [of s] intro!: abandoned_errors)
next
  case CeClose
  assume "abandoned s"
  with CeClose show ?thesis by (simp add: engineClose_def abandoned_def)
qed (simp_all add: abandoned_call abandoned_message)

lemma abandoned_run: "CeDrop \<notin> set evs \<Longrightarrow> abandoned s \<Longrightarrow> abandoned (runClient requireOpfs evs s)"
  unfolding runClient_def by (induction evs arbitrary: s) (simp_all add: abandoned_step)



end
