(* ===== verification/Discovery.thy ===== *)
theory Discovery
  imports Node_Ids Peer_Monad
begin

text \<open>
  Finding the sync server of a document: the client of \<^verbatim>\<open>packages/discovery/src/client.ts\<close> (endpoints,
  the cache of resolved documents, the choice of an attachment) and the request handler of
  \<^verbatim>\<open>packages/discovery-server-node/src/server.ts\<close>.  The URL parser, JSON, \<^verbatim>\<open>fetch\<close> and the clock are
  parameters.
\<close>

section \<open>Endpoints\<close>

text \<open>The parts of a URL the sources read or set; \<open>ur_search\<close> holds the decoded search parameters.\<close>

record Url =
  ur_protocol :: string
  ur_host :: string
  ur_pathname :: string
  ur_search :: "(string \<times> string) list"

text \<open>\<^verbatim>\<open>new URL\<close>, the setter of \<^verbatim>\<open>pathname\<close>, which normalises what it is given, and \<^verbatim>\<open>toString\<close>.\<close>

record UrlApi =
  ua_parse :: "string \<Rightarrow> Url res"
  ua_setPath :: "string \<Rightarrow> Url \<Rightarrow> Url"
  ua_toString :: "Url \<Rightarrow> string"

definition isLetter :: "char \<Rightarrow> bool" where
  "isLetter c = (let n = of_char c :: nat in 65 \<le> n \<and> n \<le> 90 \<or> 97 \<le> n \<and> n \<le> 122)"

definition schemeChar :: "char \<Rightarrow> bool" where
  "schemeChar c = (isLetter c \<or> c \<in> set ''0123456789+.-'')"

fun hasScheme :: "string \<Rightarrow> bool" where
  "hasScheme [] = False"
| "hasScheme (c # cs) = (isLetter c \<and> (case dropWhile schemeChar cs of [] \<Rightarrow> False | d # _ \<Rightarrow> d = CHR '':''))"

definition endsWith :: "string \<Rightarrow> string \<Rightarrow> bool" where
  "endsWith suffix s = (length suffix \<le> length s \<and> drop (length s - length suffix) s = suffix)"

fun setParam :: "string \<Rightarrow> string \<Rightarrow> (string \<times> string) list \<Rightarrow> (string \<times> string) list" where
  "setParam k v [] = [(k, v)]"
| "setParam k v ((k', v') # ps) = (if k' = k then (k, v) # filter (\<lambda>p. fst p \<noteq> k) ps else (k', v') # setParam k v ps)"

definition normalizeBaseUrl :: "UrlApi \<Rightarrow> string \<Rightarrow> string \<Rightarrow> Url res" where
  "normalizeBaseUrl ua raw defaultProtocol = (let input = trim_js raw in
     if input = [] then Inl ''Discovery endpoint is empty''
     else ua_parse ua (if hasScheme input then input else defaultProtocol @ ''://'' @ input))"

definition normalizeDiscoveryBaseUrl :: "UrlApi \<Rightarrow> string \<Rightarrow> Url res" where
  "normalizeDiscoveryBaseUrl ua raw = bindR (normalizeBaseUrl ua raw ''https'') (\<lambda>u0.
     let u = (if ur_protocol u0 = ''ws:'' then u0\<lparr>ur_protocol := ''http:''\<rparr>
              else if ur_protocol u0 = ''wss:'' then u0\<lparr>ur_protocol := ''https:''\<rparr> else u0) in
     if ur_protocol u \<noteq> ''http:'' \<and> ur_protocol u \<noteq> ''https:''
       then Inl ''Discovery endpoint must use http://, https://, ws://, or wss://''
     else if endsWith ''/sync'' (ur_pathname u)
       then (let path = take (length (ur_pathname u) - 5) (ur_pathname u) in
         Inr ((ua_setPath ua (if path = [] then ''/'' else path) u)\<lparr>ur_search := []\<rparr>))
     else Inr u)"

definition normalizeDirectSyncWebSocketUrl :: "UrlApi \<Rightarrow> string \<Rightarrow> string \<Rightarrow> Url res" where
  "normalizeDirectSyncWebSocketUrl ua raw docId = bindR (normalizeBaseUrl ua raw ''ws'') (\<lambda>u0.
     let u = (if ur_protocol u0 = ''http:'' then u0\<lparr>ur_protocol := ''ws:''\<rparr>
              else if ur_protocol u0 = ''https:'' then u0\<lparr>ur_protocol := ''wss:''\<rparr> else u0) in
     if ur_protocol u \<noteq> ''ws:'' \<and> ur_protocol u \<noteq> ''wss:''
       then Inl ''Sync server URL must use ws://, wss://, http://, or https://''
     else let u' = (if ur_pathname u = ''/'' \<or> ur_pathname u = [] then u\<lparr>ur_pathname := ''/sync''\<rparr> else u) in
       Inr (u'\<lparr>ur_search := setParam ''docId'' docId (ur_search u')\<rparr>))"

definition isDiscoveryBootstrapUrl :: "UrlApi \<Rightarrow> string \<Rightarrow> bool res" where
  "isDiscoveryBootstrapUrl ua raw = bindR (normalizeBaseUrl ua raw ''ws'') (\<lambda>u.
     Inr ((ur_protocol u = ''http:'' \<or> ur_protocol u = ''https:'') \<and> ur_pathname u \<noteq> ''/sync''))"

definition startsSlash :: "string \<Rightarrow> bool" where
  "startsSlash s = (take 1 s = ''/'')"

definition buildResolveDocUrl :: "UrlApi \<Rightarrow> string \<Rightarrow> string \<Rightarrow> string \<Rightarrow> Url res" where
  "buildResolveDocUrl ua baseUrl docId resolveDocPath = bindR (normalizeDiscoveryBaseUrl ua baseUrl) (\<lambda>u.
     Inr ((ua_setPath ua (if startsSlash resolveDocPath then resolveDocPath else ''/'' @ resolveDocPath) u)
       \<lparr>ur_search := [(''docId'', docId)]\<rparr>))"

section \<open>Attachment plans\<close>

datatype AttachmentProtocol = WebsocketAttachment | HttpsAttachment

datatype AttachmentRole = PreferredRole | BootstrapRole

record DiscoveryAttachment =
  at_protocol :: AttachmentProtocol
  at_url :: string
  at_role :: "AttachmentRole option"

record DocAttachmentPlan =
  pl_attachments :: "DiscoveryAttachment list"
  pl_cacheTtlMs :: "int option"

record ResolveDocResponse =
  rd_docId :: string
  rd_plan :: DocAttachmentPlan

record CachedResolvedDoc =
  cr_resolvedAtMs :: int
  cr_response :: ResolveDocResponse

definition pickAttachment :: "DocAttachmentPlan \<Rightarrow> AttachmentProtocol \<Rightarrow> AttachmentRole option \<Rightarrow> DiscoveryAttachment option" where
  "pickAttachment plan protocol role =
     (case find (\<lambda>a. at_protocol a = protocol \<and> (role = None \<or> at_role a = role)) (pl_attachments plan) of
       Some a \<Rightarrow> Some a | None \<Rightarrow> find (\<lambda>a. at_protocol a = protocol) (pl_attachments plan))"

definition pickWebSocketAttachment :: "DocAttachmentPlan \<Rightarrow> DiscoveryAttachment option" where
  "pickWebSocketAttachment plan = (case pickAttachment plan WebsocketAttachment (Some PreferredRole) of
       Some a \<Rightarrow> Some a | None \<Rightarrow> pickAttachment plan WebsocketAttachment None)"

definition createDiscoveryCacheKey :: "UrlApi \<Rightarrow> string \<Rightarrow> string \<Rightarrow> string res" where
  "createDiscoveryCacheKey ua baseUrl docId = bindR (normalizeDiscoveryBaseUrl ua baseUrl) (\<lambda>u.
     Inr (ur_protocol u @ ''//'' @ ur_host u @ ur_pathname u @ ''|'' @ docId))"

definition isCachedResolvedDocFresh :: "CachedResolvedDoc \<Rightarrow> int \<Rightarrow> bool" where
  "isCachedResolvedDocFresh entry nowMs = (case pl_cacheTtlMs (rd_plan (cr_response entry)) of None \<Rightarrow> True
     | Some ttlMs \<Rightarrow> cr_resolvedAtMs entry + ttlMs > nowMs)"

section \<open>The cache\<close>

record 'w DiscoveryRouteCache =
  rc_get :: "string \<Rightarrow> ('w, CachedResolvedDoc option) pm"
  rc_set :: "string \<Rightarrow> CachedResolvedDoc \<Rightarrow> ('w, unit) pm"
  rc_delete :: "string \<Rightarrow> ('w, unit) pm"

text \<open>A string store such as \<^verbatim>\<open>localStorage\<close>; \<^verbatim>\<open>removeItem\<close> is optional.  \<open>JsonText\<close> is \<^verbatim>\<open>JSON\<close> on cache entries.\<close>

record 'w StringStore =
  ss_getItem :: "string \<Rightarrow> ('w, string option) pm"
  ss_setItem :: "string \<Rightarrow> string \<Rightarrow> ('w, unit) pm"
  ss_removeItem :: "(string \<Rightarrow> ('w, unit) pm) option"

record JsonText =
  jt_stringify :: "CachedResolvedDoc \<Rightarrow> string"
  jt_parse :: "string \<Rightarrow> CachedResolvedDoc res"

definition removeItem :: "'w StringStore \<Rightarrow> string \<Rightarrow> ('w, unit) pm" where
  "removeItem store key = (case ss_removeItem store of None \<Rightarrow> ret () | Some rm \<Rightarrow> rm key)"

definition createStringStoreRouteCache :: "JsonText \<Rightarrow> 'w StringStore \<Rightarrow> string \<Rightarrow> 'w DiscoveryRouteCache" where
  "createStringStoreRouteCache json store prefix = \<lparr>
     rc_get = (\<lambda>key. bnd (ss_getItem store (prefix @ key)) (\<lambda>raw. case raw of None \<Rightarrow> ret None
       | Some t \<Rightarrow> if t = [] then ret None else (case jt_parse json t of Inr entry \<Rightarrow> ret (Some entry)
           | Inl _ \<Rightarrow> sq (removeItem store (prefix @ key)) (ret None)))),
     rc_set = (\<lambda>key entry. ss_setItem store (prefix @ key) (jt_stringify json entry)),
     rc_delete = (\<lambda>key. removeItem store (prefix @ key))\<rparr>"

section \<open>Resolving a document\<close>

record HttpReply =
  ht_ok :: bool
  ht_json :: "ResolveDocResponse res"

record 'w DiscoveryEnv =
  de_url :: UrlApi
  de_now :: "('w, int) pm"
  de_fetch :: "Url \<Rightarrow> ('w, HttpReply) pm"

definition httpResolveDoc :: "'w DiscoveryEnv \<Rightarrow> string \<Rightarrow> string \<Rightarrow> string \<Rightarrow> ('w, ResolveDocResponse) pm" where
  "httpResolveDoc env baseUrl resolveDocPath docId =
     bnd (liftR (buildResolveDocUrl (de_url env) baseUrl docId resolveDocPath)) (\<lambda>url.
     bnd (de_fetch env url) (\<lambda>res. if \<not> ht_ok res then throw ''Discovery request failed'' else liftR (ht_json res)))"

datatype ResolveSource = SourceDirect | SourceCache | SourceNetwork

definition cachedDoc :: "'w DiscoveryEnv \<Rightarrow> 'w DiscoveryRouteCache option \<Rightarrow> bool \<Rightarrow> string \<Rightarrow> ('w, ResolveDocResponse option) pm" where
  "cachedDoc env cache forceRefresh cacheKey = (case cache of None \<Rightarrow> ret None
     | Some c \<Rightarrow> if forceRefresh then ret None else bnd (rc_get c cacheKey) (\<lambda>cached. case cached of None \<Rightarrow> ret None
         | Some entry \<Rightarrow> bnd (de_now env) (\<lambda>now. ret (if isCachedResolvedDocFresh entry now then Some (cr_response entry) else None))))"

definition resolveDocWithCache :: "'w DiscoveryEnv \<Rightarrow> string \<Rightarrow> string \<Rightarrow> (string \<Rightarrow> ('w, ResolveDocResponse) pm) option
    \<Rightarrow> 'w DiscoveryRouteCache option \<Rightarrow> bool \<Rightarrow> string option \<Rightarrow> ('w, ResolveDocResponse \<times> ResolveSource \<times> string) pm" where
  "resolveDocWithCache env baseUrl docId client cache forceRefresh resolveDocPath =
     bnd (liftR (createDiscoveryCacheKey (de_url env) baseUrl docId)) (\<lambda>cacheKey.
     bnd (cachedDoc env cache forceRefresh cacheKey) (\<lambda>cached. case cached of
       Some response \<Rightarrow> ret (response, SourceCache, cacheKey)
     | None \<Rightarrow> bnd ((case client of Some c \<Rightarrow> c
           | None \<Rightarrow> httpResolveDoc env baseUrl (case resolveDocPath of None \<Rightarrow> ''/resolve-doc'' | Some p \<Rightarrow> p)) docId) (\<lambda>response.
         sq (case cache of None \<Rightarrow> ret () | Some c \<Rightarrow> bnd (de_now env) (\<lambda>now.
             rc_set c cacheKey \<lparr>cr_resolvedAtMs = now, cr_response = response\<rparr>))
         (ret (response, SourceNetwork, cacheKey)))))"

record ResolveWebSocketAttachmentResult =
  rw_url :: Url
  rw_source :: ResolveSource
  rw_response :: "ResolveDocResponse option"
  rw_cacheKey :: "string option"

definition resolveWebSocketAttachment :: "'w DiscoveryEnv \<Rightarrow> string \<Rightarrow> string \<Rightarrow> 'w DiscoveryRouteCache option \<Rightarrow> string option \<Rightarrow> bool
    \<Rightarrow> ('w, ResolveWebSocketAttachmentResult) pm" where
  "resolveWebSocketAttachment env endpoint docId cache resolveDocPath forceRefresh =
     bnd (liftR (isDiscoveryBootstrapUrl (de_url env) endpoint)) (\<lambda>bootstrap.
     if \<not> bootstrap then bnd (liftR (normalizeDirectSyncWebSocketUrl (de_url env) endpoint docId)) (\<lambda>url.
       ret \<lparr>rw_url = url, rw_source = SourceDirect, rw_response = None, rw_cacheKey = None\<rparr>)
     else bnd (resolveDocWithCache env endpoint docId None cache forceRefresh resolveDocPath) (\<lambda>(response, source, cacheKey).
       case pickWebSocketAttachment (rd_plan response) of
         None \<Rightarrow> throw (''Resolved doc '' @ docId @ '' does not include a websocket attachment'')
       | Some attachment \<Rightarrow> bnd (liftR (normalizeDirectSyncWebSocketUrl (de_url env) (at_url attachment) docId)) (\<lambda>url.
           ret \<lparr>rw_url = url, rw_source = source, rw_response = Some response, rw_cacheKey = Some cacheKey\<rparr>)))"

section \<open>The server\<close>

datatype HeaderValue = HeaderOne string | HeaderMany "string list"

text \<open>What the handler reads of a request: method, path, the decoded parameter \<^verbatim>\<open>docId\<close>, three headers.\<close>

record DiscoveryRequest =
  dq_method :: "string option"
  dq_path :: string
  dq_docId :: "string option"
  dq_host :: "string option"
  dq_forwardedHost :: "HeaderValue option"
  dq_forwardedProto :: "HeaderValue option"

definition firstForwardedHeader :: "HeaderValue option \<Rightarrow> string option" where
  "firstForwardedHeader value = (case (case value of None \<Rightarrow> None | Some (HeaderOne v) \<Rightarrow> Some v
       | Some (HeaderMany vs) \<Rightarrow> (case vs of [] \<Rightarrow> None | v # _ \<Rightarrow> Some v)) of
     None \<Rightarrow> None | Some v \<Rightarrow> (let first = trim_js (takeWhile (\<lambda>c. c \<noteq> CHR '','') v) in if first = [] then None else Some first))"

definition stripSlash :: "string \<Rightarrow> string" where
  "stripSlash s = (if s \<noteq> [] \<and> last s = CHR ''/'' then butlast s else s)"

definition derivePublicBaseUrl :: "DiscoveryRequest \<Rightarrow> bool \<Rightarrow> string" where
  "derivePublicBaseUrl req ws =
     (let host = (case firstForwardedHeader (dq_forwardedHost req) of Some h \<Rightarrow> h
        | None \<Rightarrow> (case dq_host req of Some h \<Rightarrow> h | None \<Rightarrow> ''localhost''));
        protocol = (case firstForwardedHeader (dq_forwardedProto req) of
          Some p \<Rightarrow> if ws then (if p = ''https'' then ''wss'' else ''ws'') else p
        | None \<Rightarrow> if ws then ''ws'' else ''http'')
      in stripSlash (protocol @ ''://'' @ host))"

definition buildDefaultResolveDocHandler :: "string option \<Rightarrow> string option \<Rightarrow> int \<Rightarrow> string \<Rightarrow> DiscoveryRequest \<Rightarrow> ResolveDocResponse" where
  "buildDefaultResolveDocHandler publicHttp publicWs cacheTtlMs docId req =
     (let http = (case publicHttp of Some u \<Rightarrow> u | None \<Rightarrow> derivePublicBaseUrl req False);
          ws = (case publicWs of Some u \<Rightarrow> u | None \<Rightarrow> derivePublicBaseUrl req True)
      in \<lparr>rd_docId = docId, rd_plan = \<lparr>pl_attachments = [
          \<lparr>at_protocol = WebsocketAttachment, at_url = ws @ ''/sync'', at_role = Some PreferredRole\<rparr>,
          \<lparr>at_protocol = HttpsAttachment, at_url = http, at_role = Some BootstrapRole\<rparr>],
        pl_cacheTtlMs = Some cacheTtlMs\<rparr>\<rparr>)"

record DiscoveryHealth =
  dh_ok :: bool
  dh_statusCode :: "int option"
  dh_body :: "string option"
  dh_contentType :: "string option"

record DiscoveryStatus =
  st_service :: string
  st_version :: "string option"
  st_gitSha :: "string option"
  st_gitDirty :: bool
  st_buildRef :: "string option"
  st_startedAt :: string
  st_uptimeMs :: "int option"
  st_resolveDocPath :: string
  st_publicHttpBaseUrl :: "string option"
  st_publicWebSocketBaseUrl :: "string option"
  st_cacheTtlMs :: int
  st_info :: "(string \<times> string) list"

datatype DiscoveryBody = TextBody string | NoBody | ErrorBody string | DocBody ResolveDocResponse | StatusBody DiscoveryStatus

record DiscoveryReply =
  dr_status :: int
  dr_contentType :: "string option"
  dr_cors :: bool
  dr_body :: DiscoveryBody

text \<open>The options; hooks may throw and change the world.\<close>

record 'w DiscoveryServerOptions =
  so_port :: "int option"
  so_healthPath :: "string option"
  so_statusPath :: "string option"
  so_resolveDocPath :: "string option"
  so_publicHttpBaseUrl :: "string option"
  so_publicWebSocketBaseUrl :: "string option"
  so_cacheTtlMs :: "int option"
  so_resolveDoc :: "(string \<Rightarrow> DiscoveryRequest \<Rightarrow> ('w, ResolveDocResponse) pm) option"
  so_healthCheck :: "('w, DiscoveryHealth) pm option"
  so_statusInfo :: "('w, (string \<times> string) list) pm option"
  so_packageName :: "string option"
  so_packageVersion :: "string option"
  so_gitSha :: "string option"
  so_gitDirty :: bool
  so_startedAt :: "string option"

text \<open>The variables of \<^verbatim>\<open>startDiscoveryServer\<close>; \<open>dv_startedAtMs\<close> is \<open>None\<close> when the date does not parse.\<close>

record 'w DiscoveryServer =
  dv_healthPath :: string
  dv_statusPath :: string
  dv_resolveDocPath :: string
  dv_publicHttpBaseUrl :: "string option"
  dv_publicWebSocketBaseUrl :: "string option"
  dv_cacheTtlMs :: int
  dv_resolveDoc :: "string \<Rightarrow> DiscoveryRequest \<Rightarrow> ('w, ResolveDocResponse) pm"
  dv_healthCheck :: "('w, DiscoveryHealth) pm option"
  dv_statusInfo :: "('w, (string \<times> string) list) pm option"
  dv_packageName :: string
  dv_packageVersion :: "string option"
  dv_gitSha :: "string option"
  dv_gitDirty :: bool
  dv_startedAt :: string
  dv_startedAtMs :: "int option"

definition nonBlank :: "string option \<Rightarrow> string option" where
  "nonBlank v = (case v of None \<Rightarrow> None | Some s \<Rightarrow> if trim_js s = [] then None else Some (trim_js s))"

definition normalizeOptionalAbsoluteUrl :: "UrlApi \<Rightarrow> string \<Rightarrow> string option \<Rightarrow> string list \<Rightarrow> string option res" where
  "normalizeOptionalAbsoluteUrl ua name value allowed = (case nonBlank value of None \<Rightarrow> Inr None
     | Some t \<Rightarrow> (case ua_parse ua t of Inl _ \<Rightarrow> Inl (name @ '' must be a valid absolute URL'')
       | Inr u \<Rightarrow> if ur_protocol u \<notin> set allowed then Inl (name @ '' uses a protocol that is not allowed'')
           else Inr (Some (stripSlash (ua_toString ua u)))))"

definition normalizePath :: "string \<Rightarrow> string option \<Rightarrow> string \<Rightarrow> string res" where
  "normalizePath name value fallback = (let trimmed = (case nonBlank value of None \<Rightarrow> fallback | Some t \<Rightarrow> t) in
     if startsSlash trimmed then Inr trimmed else Inl (name @ '' must start with a slash''))"

text \<open>\<^verbatim>\<open>startDiscoveryServer\<close> up to listening; the date it starts at and how dates parse are arguments.\<close>

definition startDiscoveryServer :: "UrlApi \<Rightarrow> string \<Rightarrow> (string \<Rightarrow> int option) \<Rightarrow> 'w DiscoveryServerOptions \<Rightarrow> 'w DiscoveryServer res" where
  "startDiscoveryServer ua nowIso parseDate opts =
     bindR (normalizePath ''healthPath'' (so_healthPath opts) ''/health'') (\<lambda>healthPath.
     bindR (normalizePath ''statusPath'' (so_statusPath opts) ''/status'') (\<lambda>statusPath.
     bindR (normalizePath ''resolveDocPath'' (so_resolveDocPath opts) ''/resolve-doc'') (\<lambda>resolveDocPath.
     bindR (normalizeOptionalAbsoluteUrl ua ''publicHttpBaseUrl'' (so_publicHttpBaseUrl opts) [''http:'', ''https:'']) (\<lambda>publicHttp.
     bindR (normalizeOptionalAbsoluteUrl ua ''publicWebSocketBaseUrl'' (so_publicWebSocketBaseUrl opts)
       [''ws:'', ''wss:'', ''http:'', ''https:'']) (\<lambda>publicWs.
     let cacheTtlMs = (case so_cacheTtlMs opts of None \<Rightarrow> 60 * 60 * 1000 | Some n \<Rightarrow> n);
         port = (case so_port opts of None \<Rightarrow> 8788 | Some n \<Rightarrow> n);
         startedAt = (case nonBlank (so_startedAt opts) of None \<Rightarrow> nowIso | Some t \<Rightarrow> t) in
     if port < 0 then Inl ''invalid port'' else if cacheTtlMs < 0 then Inl ''invalid cacheTtlMs''
     else Inr \<lparr>dv_healthPath = healthPath, dv_statusPath = statusPath, dv_resolveDocPath = resolveDocPath,
       dv_publicHttpBaseUrl = publicHttp, dv_publicWebSocketBaseUrl = publicWs, dv_cacheTtlMs = cacheTtlMs,
       dv_resolveDoc = (case so_resolveDoc opts of Some h \<Rightarrow> h
         | None \<Rightarrow> (\<lambda>docId req. ret (buildDefaultResolveDocHandler publicHttp publicWs cacheTtlMs docId req))),
       dv_healthCheck = so_healthCheck opts, dv_statusInfo = so_statusInfo opts,
       dv_packageName = (case nonBlank (so_packageName opts) of None \<Rightarrow> ''@treecrdt/discovery-server-node'' | Some n \<Rightarrow> n),
       dv_packageVersion = nonBlank (so_packageVersion opts), dv_gitSha = nonBlank (so_gitSha opts), dv_gitDirty = so_gitDirty opts,
       dv_startedAt = startedAt, dv_startedAtMs = parseDate startedAt\<rparr>)))))"

definition textReply :: "int \<Rightarrow> string option \<Rightarrow> string \<Rightarrow> DiscoveryReply" where
  "textReply status contentType body = \<lparr>dr_status = status, dr_contentType = Some (case contentType of None \<Rightarrow> ''text/plain'' | Some c \<Rightarrow> c),
     dr_cors = False, dr_body = TextBody body\<rparr>"

definition jsonReply :: "int \<Rightarrow> bool \<Rightarrow> DiscoveryBody \<Rightarrow> DiscoveryReply" where
  "jsonReply status cors body = \<lparr>dr_status = status, dr_contentType = Some ''application/json; charset=utf-8'', dr_cors = cors, dr_body = body\<rparr>"

definition healthReply :: "DiscoveryHealth \<Rightarrow> DiscoveryReply" where
  "healthReply result = (if dh_ok result then textReply 200 (dh_contentType result) (case dh_body result of None \<Rightarrow> ''ok'' | Some b \<Rightarrow> b)
     else textReply (case dh_statusCode result of None \<Rightarrow> 503 | Some n \<Rightarrow> if 400 \<le> n \<and> n \<le> 599 then n else 503)
       (dh_contentType result) (case dh_body result of None \<Rightarrow> ''not ready'' | Some b \<Rightarrow> b))"

definition healthHandler :: "'w DiscoveryServer \<Rightarrow> ('w, DiscoveryReply) pm" where
  "healthHandler srv = catch (bnd (case dv_healthCheck srv of
         None \<Rightarrow> ret \<lparr>dh_ok = True, dh_statusCode = None, dh_body = None, dh_contentType = None\<rparr> | Some h \<Rightarrow> h)
       (\<lambda>result. ret (healthReply result)))
     (\<lambda>_. ret (textReply 503 None ''not ready''))"

definition statusOf :: "'w DiscoveryServer \<Rightarrow> int \<Rightarrow> (string \<times> string) list \<Rightarrow> DiscoveryStatus" where
  "statusOf srv now info = \<lparr>st_service = dv_packageName srv, st_version = dv_packageVersion srv, st_gitSha = dv_gitSha srv,
     st_gitDirty = dv_gitDirty srv,
     st_buildRef = map_option (\<lambda>sha. sha @ (if dv_gitDirty srv then ''-dirty'' else [])) (dv_gitSha srv),
     st_startedAt = dv_startedAt srv, st_uptimeMs = map_option (\<lambda>t. max 0 (now - t)) (dv_startedAtMs srv),
     st_resolveDocPath = dv_resolveDocPath srv, st_publicHttpBaseUrl = dv_publicHttpBaseUrl srv,
     st_publicWebSocketBaseUrl = dv_publicWebSocketBaseUrl srv, st_cacheTtlMs = dv_cacheTtlMs srv, st_info = info\<rparr>"

definition statusHandler :: "'w DiscoveryServer \<Rightarrow> int \<Rightarrow> ('w, DiscoveryReply) pm" where
  "statusHandler srv now = catch (bnd (case dv_statusInfo srv of None \<Rightarrow> ret [] | Some h \<Rightarrow> h)
       (\<lambda>info. ret (jsonReply 200 False (StatusBody (statusOf srv now info)))))
     (\<lambda>_. ret (jsonReply 500 False (ErrorBody ''status unavailable'')))"

definition resolveHandler :: "'w DiscoveryServer \<Rightarrow> DiscoveryRequest \<Rightarrow> ('w, DiscoveryReply) pm" where
  "resolveHandler srv req =
     (if dq_method req = Some ''OPTIONS'' then ret \<lparr>dr_status = 204, dr_contentType = None, dr_cors = True, dr_body = NoBody\<rparr>
      else if dq_method req \<noteq> None \<and> dq_method req \<noteq> Some [] \<and> dq_method req \<noteq> Some ''GET''
        then ret (jsonReply 405 True (ErrorBody ''method not allowed''))
      else case nonBlank (dq_docId req) of None \<Rightarrow> ret (jsonReply 400 True (ErrorBody ''missing docId''))
        | Some docId \<Rightarrow> catch (bnd (dv_resolveDoc srv docId req) (\<lambda>response. ret (jsonReply 200 True (DocBody response))))
            (\<lambda>_. ret (jsonReply 500 True (ErrorBody ''resolve failed''))))"

definition discoveryRequest :: "'w DiscoveryServer \<Rightarrow> int \<Rightarrow> DiscoveryRequest \<Rightarrow> ('w, DiscoveryReply) pm" where
  "discoveryRequest srv now req =
     (if dq_path req = dv_healthPath srv then healthHandler srv
      else if dq_path req = dv_statusPath srv then statusHandler srv now
      else if dq_path req = dv_resolveDocPath srv then resolveHandler srv req
      else ret (textReply 404 None ''not found''))"

section \<open>Client and server together\<close>

text \<open>\<^verbatim>\<open>fetch\<close> as a connection to the server: the request of a URL, and the reply read as JSON.\<close>

definition requestOf :: "Url \<Rightarrow> DiscoveryRequest" where
  "requestOf u = \<lparr>dq_method = Some ''GET'', dq_path = ur_pathname u, dq_docId = map_of (ur_search u) ''docId'', dq_host = Some (ur_host u),
     dq_forwardedHost = None, dq_forwardedProto = None\<rparr>"

definition replyJson :: "DiscoveryReply \<Rightarrow> HttpReply" where
  "replyJson r = \<lparr>ht_ok = (200 \<le> dr_status r \<and> dr_status r < 300),
     ht_json = (case dr_body r of DocBody d \<Rightarrow> Inr d | _ \<Rightarrow> Inl ''unexpected JSON'')\<rparr>"

definition connectedTo :: "'w DiscoveryServer \<Rightarrow> 'w DiscoveryEnv \<Rightarrow> bool" where
  "connectedTo srv env \<longleftrightarrow> (\<forall>u w. \<exists>now. de_fetch env u w = bnd (discoveryRequest srv now (requestOf u)) (\<lambda>r. ret (replyJson r)) w)"

text \<open>A string store keeps the map \<open>items\<close>, and the clock reads \<open>clk\<close>.\<close>

definition lawful_store :: "'w StringStore \<Rightarrow> ('w \<Rightarrow> string \<rightharpoonup> string) \<Rightarrow> bool" where
  "lawful_store store items \<longleftrightarrow> (\<forall>k w. ss_getItem store k w = (Inr (items w k), w))
     \<and> (\<forall>k v w. \<exists>w'. ss_setItem store k v w = (Inr (), w') \<and> items w' = (items w)(k \<mapsto> v))"

definition lawful_clock :: "'w DiscoveryEnv \<Rightarrow> ('w \<Rightarrow> int) \<Rightarrow> bool" where
  "lawful_clock env clk \<longleftrightarrow> (\<forall>w. de_now env w = (Inr (clk w), w))"

lemma setParam_get: "map_of (setParam k v ps) k = Some v"
  by (induction k v ps rule: setParam.induct) auto

lemma trimmed: "trim_js docId = docId \<Longrightarrow> docId \<noteq> [] \<Longrightarrow> nonBlank (Some docId) = Some docId"
  by (simp add: nonBlank_def)

text \<open>The plan of the default handler, and the attachment a client picks from it.\<close>

lemma default_plan: "pickWebSocketAttachment (rd_plan (buildDefaultResolveDocHandler http ws ttl docId req)) =
    Some \<lparr>at_protocol = WebsocketAttachment, at_url = (case ws of Some u \<Rightarrow> u | None \<Rightarrow> derivePublicBaseUrl req True) @ ''/sync'', at_role = Some PreferredRole\<rparr>"
  by (simp add: pickWebSocketAttachment_def pickAttachment_def buildDefaultResolveDocHandler_def Let_def)

lemma started_default:
  assumes "startDiscoveryServer ua nowIso parseDate opts = Inr srv" "so_resolveDoc opts = None"
  shows "dv_resolveDoc srv = (\<lambda>docId req. ret (buildDefaultResolveDocHandler (dv_publicHttpBaseUrl srv) (dv_publicWebSocketBaseUrl srv) (dv_cacheTtlMs srv) docId req))"
    "startsSlash (dv_resolveDocPath srv)"
  using assms by (auto simp: startDiscoveryServer_def bindR_eq_Inr normalizePath_def Let_def split: if_splits)

text \<open>One request to a server with the default handler.\<close>

lemma served:
  assumes "connectedTo srv env" "startDiscoveryServer ua nowIso parseDate opts = Inr srv" "so_resolveDoc opts = None"
    and "dv_resolveDocPath srv \<noteq> dv_healthPath srv" "dv_resolveDocPath srv \<noteq> dv_statusPath srv"
    and "ur_pathname u = dv_resolveDocPath srv" "map_of (ur_search u) ''docId'' = Some docId" "trim_js docId = docId" "docId \<noteq> []"
  shows "de_fetch env u w = (Inr \<lparr>ht_ok = True, ht_json = Inr (buildDefaultResolveDocHandler (dv_publicHttpBaseUrl srv)
      (dv_publicWebSocketBaseUrl srv) (dv_cacheTtlMs srv) docId (requestOf u))\<rparr>, w)"
proof -
  obtain now where "de_fetch env u w = bnd (discoveryRequest srv now (requestOf u)) (\<lambda>r. ret (replyJson r)) w"
    using assms(1) unfolding connectedTo_def by blast
  moreover have "nonBlank (dq_docId (requestOf u)) = Some docId" "dq_path (requestOf u) = dv_resolveDocPath srv" "dq_method (requestOf u) = Some ''GET''"
    using assms(6-9) by (simp_all add: requestOf_def trimmed)
  ultimately show ?thesis using assms(4,5) started_default(1) [OF assms(2,3)]
    by (simp add: discoveryRequest_def resolveHandler_def bnd_eval catch_eval jsonReply_def replyJson_def)
qed

text \<open>The entry a resolution at the time \<open>t\<close> puts into the cache.\<close>

definition cacheEntry :: "'w DiscoveryServer \<Rightarrow> Url \<Rightarrow> string \<Rightarrow> int \<Rightarrow> CachedResolvedDoc" where
  "cacheEntry srv u docId t = \<lparr>cr_resolvedAtMs = t, cr_response = buildDefaultResolveDocHandler (dv_publicHttpBaseUrl srv)
     (dv_publicWebSocketBaseUrl srv) (dv_cacheTtlMs srv) docId (requestOf u)\<rparr>"

definition resolveUrl :: "'w DiscoveryEnv \<Rightarrow> 'w DiscoveryServer \<Rightarrow> Url \<Rightarrow> string \<Rightarrow> Url" where
  "resolveUrl env srv b docId = (ua_setPath (de_url env) (dv_resolveDocPath srv) b)\<lparr>ur_search := [(''docId'', docId)]\<rparr>"

lemma fresh_entry: "isCachedResolvedDocFresh (cacheEntry srv u docId t) now \<longleftrightarrow> now < t + dv_cacheTtlMs srv"
  by (simp add: isCachedResolvedDocFresh_def cacheEntry_def buildDefaultResolveDocHandler_def Let_def)

lemma entry_response: "cr_response (cacheEntry srv u docId t) = cr_response (cacheEntry srv u docId 0)" "cr_resolvedAtMs (cacheEntry srv u docId t) = t"
  by (simp_all add: cacheEntry_def)

text \<open>The cache over a lawful store: a miss, a hit, and storing an entry.\<close>

lemma cache_miss:
  "lawful_store store items \<Longrightarrow> items v (prefix @ key) = None \<Longrightarrow>
   cachedDoc env (Some (createStringStoreRouteCache json store prefix)) False key v = (Inr None, v)"
  by (simp add: cachedDoc_def createStringStoreRouteCache_def bnd_eval lawful_store_def)

lemma cache_hit:
  assumes "lawful_store store items" "lawful_clock env clk" "items v (prefix @ key) = Some t" "t \<noteq> []" "jt_parse json t = Inr entry"
  shows "cachedDoc env (Some (createStringStoreRouteCache json store prefix)) False key v
     = (Inr (if isCachedResolvedDocFresh entry (clk v) then Some (cr_response entry) else None), v)"
  using assms by (simp add: cachedDoc_def createStringStoreRouteCache_def bnd_eval lawful_store_def lawful_clock_def)

lemma cache_put:
  assumes "lawful_store store items"
  obtains v' where "rc_set (createStringStoreRouteCache json store prefix) key entry v = (Inr (), v')"
    "items v' = (items v)(prefix @ key \<mapsto> jt_stringify json entry)"
proof -
  from assms have "\<exists>v'. ss_setItem store (prefix @ key) (jt_stringify json entry) v = (Inr (), v')
      \<and> items v' = (items v)(prefix @ key \<mapsto> jt_stringify json entry)" unfolding lawful_store_def by blast
  with that show thesis by (auto simp: createStringStoreRouteCache_def)
qed

text \<open>
  C40: A client that knows only a bootstrap endpoint reaches the sync endpoint the discovery server
  publishes: the first resolution asks the server and ends at the published WebSocket address with the
  document as parameter; the answer is kept, and until its time to live is over every later resolution
  gives the same address from the cache without asking, in any later state of the world that still has the
  entry; once the time is over the server is asked again.
\<close>

theorem discovery_routes_to_sync:
  assumes "connectedTo srv env" and "startDiscoveryServer ua nowIso parseDate opts = Inr srv" and "so_resolveDoc opts = None"
    and "dv_resolveDocPath srv \<noteq> dv_healthPath srv" and "dv_resolveDocPath srv \<noteq> dv_statusPath srv"
    and "dv_publicWebSocketBaseUrl srv = Some base"
    and "isDiscoveryBootstrapUrl (de_url env) endpoint = Inr True" and "normalizeDiscoveryBaseUrl (de_url env) endpoint = Inr b"
    and "ur_pathname (ua_setPath (de_url env) (dv_resolveDocPath srv) b) = dv_resolveDocPath srv"
    and "trim_js docId = docId" and "docId \<noteq> []"
    and "normalizeDirectSyncWebSocketUrl (de_url env) (base @ ''/sync'') docId = Inr target"
    and "lawful_store store items" and "lawful_clock env clk"
    and "jt_stringify json (cacheEntry srv (resolveUrl env srv b docId) docId (clk w)) \<noteq> []"
    and "jt_parse json (jt_stringify json (cacheEntry srv (resolveUrl env srv b docId) docId (clk w)))
           = Inr (cacheEntry srv (resolveUrl env srv b docId) docId (clk w))"
    and "createDiscoveryCacheKey (de_url env) endpoint docId = Inr key" and "items w (prefix @ key) = None"
    and "resolve = resolveWebSocketAttachment env endpoint docId (Some (createStringStoreRouteCache json store prefix)) (Some (dv_resolveDocPath srv)) False"
  shows "\<exists>res w'. resolve w = (Inr res, w') \<and> rw_url res = target \<and> rw_source res = SourceNetwork
    \<and> (\<forall>v. items v (prefix @ key) = items w' (prefix @ key) \<longrightarrow>
         (if clk v < clk w + dv_cacheTtlMs srv then resolve v = (Inr (res\<lparr>rw_source := SourceCache\<rparr>), v)
          else \<exists>res' v'. resolve v = (Inr res', v') \<and> rw_url res' = target \<and> rw_source res' = SourceNetwork))"
proof -
  let ?u = "resolveUrl env srv b docId" and ?cache = "createStringStoreRouteCache json store prefix"
  let ?e = "cacheEntry srv ?u docId"
  let ?res = "\<lambda>source. \<lparr>rw_url = target, rw_source = source, rw_response = Some (cr_response (?e 0)), rw_cacheKey = Some key\<rparr>"
  have build: "buildResolveDocUrl (de_url env) endpoint docId (dv_resolveDocPath srv) = Inr ?u"
    using assms(8) started_default(2) [OF assms(2,3)] by (simp add: buildResolveDocUrl_def resolveUrl_def)
  have "ur_pathname ?u = dv_resolveDocPath srv" "map_of (ur_search ?u) ''docId'' = Some docId" using assms(9) by (simp_all add: resolveUrl_def)
  from served [OF assms(1-5) this assms(10,11)] have fetch: "httpResolveDoc env endpoint (dv_resolveDocPath srv) docId v = (Inr (cr_response (?e 0)), v)" for v
    by (simp add: httpResolveDoc_def build bnd_eval cacheEntry_def)
  have pick: "pickWebSocketAttachment (rd_plan (cr_response (?e 0))) = Some \<lparr>at_protocol = WebsocketAttachment, at_url = base @ ''/sync'', at_role = Some PreferredRole\<rparr>"
    by (simp add: cacheEntry_def default_plan assms(6))
  have now: "de_now env v = (Inr (clk v), v)" for v using assms(14) by (simp add: lawful_clock_def)
  have finish: "resolve v = (Inr (?res source), v')"
    if "resolveDocWithCache env endpoint docId None (Some ?cache) False (Some (dv_resolveDocPath srv)) v = (Inr (cr_response (?e 0), source, key), v')" for source v v'
    using that assms(7,12) by (simp add: assms(19) resolveWebSocketAttachment_def bnd_eval pick)
  have network: "\<exists>v'. resolve v = (Inr (?res SourceNetwork), v') \<and> items v' = (items v)(prefix @ key \<mapsto> jt_stringify json (?e (clk v)))"
    if "cachedDoc env (Some ?cache) False key v = (Inr None, v)" for v
  proof -
    obtain v' where v': "rc_set ?cache key (?e (clk v)) v = (Inr (), v')" "items v' = (items v)(prefix @ key \<mapsto> jt_stringify json (?e (clk v)))"
      by (rule cache_put [OF assms(13)])
    then have "rc_set ?cache key \<lparr>cr_resolvedAtMs = clk v, cr_response = cr_response (?e 0)\<rparr> v = (Inr (), v')" by (simp add: cacheEntry_def)
    then have "resolveDocWithCache env endpoint docId None (Some ?cache) False (Some (dv_resolveDocPath srv)) v
        = (Inr (cr_response (?e 0), SourceNetwork, key), v')"
      using that fetch [of v] now [of v] by (simp add: resolveDocWithCache_def assms(17) bnd_eval sq_eval)
    with finish v'(2) show ?thesis by blast
  qed
  from network [OF cache_miss [OF assms(13,18)]] obtain w' where w': "resolve w = (Inr (?res SourceNetwork), w')"
    "items w' (prefix @ key) = Some (jt_stringify json (?e (clk w)))" by auto
  have later: "if clk v < clk w + dv_cacheTtlMs srv then resolve v = (Inr (?res SourceNetwork\<lparr>rw_source := SourceCache\<rparr>), v)
      else \<exists>res' v'. resolve v = (Inr res', v') \<and> rw_url res' = target \<and> rw_source res' = SourceNetwork"
    if "items v (prefix @ key) = items w' (prefix @ key)" for v
  proof -
    note hit = cache_hit [OF assms(13,14) that [unfolded w'(2)] assms(15,16), unfolded fresh_entry entry_response(1) [of _ _ _ "clk w"]]
    show ?thesis
    proof (cases "clk v < clk w + dv_cacheTtlMs srv")
      case True
      with hit have "resolve v = (Inr (?res SourceCache), v)" by (intro finish) (simp add: resolveDocWithCache_def assms(17) bnd_eval)
      with True show ?thesis by simp
    next
      case False
      with hit network [of v] show ?thesis by auto
    qed
  qed
  show ?thesis
  proof (intro exI conjI allI impI)
    show "resolve w = (Inr (?res SourceNetwork), w')" by (rule w'(1))
    show "rw_url (?res SourceNetwork) = target" "rw_source (?res SourceNetwork) = SourceNetwork" by simp_all
    fix v assume "items v (prefix @ key) = items w' (prefix @ key)"
    then show "if clk v < clk w + dv_cacheTtlMs srv then resolve v = (Inr (?res SourceNetwork\<lparr>rw_source := SourceCache\<rparr>), v)
        else \<exists>res' v'. resolve v = (Inr res', v') \<and> rw_url res' = target \<and> rw_source res' = SourceNetwork" by (rule later)
  qed
qed

text \<open>A server that publishes \<^verbatim>\<open>wss://sync\<close>, reached through \<^verbatim>\<open>https://boot\<close>; the world is a string store and a clock.\<close>

definition demo_url :: UrlApi where
  "demo_url = \<lparr>ua_parse = (\<lambda>s. if s = ''https://boot'' then Inr \<lparr>ur_protocol = ''https:'', ur_host = ''boot'', ur_pathname = ''/'', ur_search = []\<rparr>
       else if s = ''wss://sync'' then Inr \<lparr>ur_protocol = ''wss:'', ur_host = ''sync'', ur_pathname = ''/'', ur_search = []\<rparr>
       else if s = ''wss://sync/sync'' then Inr \<lparr>ur_protocol = ''wss:'', ur_host = ''sync'', ur_pathname = ''/sync'', ur_search = []\<rparr>
       else Inl ''Invalid URL''),
     ua_setPath = (\<lambda>p u. u\<lparr>ur_pathname := p\<rparr>), ua_toString = (\<lambda>u. ur_protocol u @ ''//'' @ ur_host u @ ur_pathname u)\<rparr>"

type_synonym demo_web = "(string \<rightharpoonup> string) \<times> int"

definition demo_discovery_opts :: "demo_web DiscoveryServerOptions" where
  "demo_discovery_opts = \<lparr>so_port = None, so_healthPath = None, so_statusPath = None, so_resolveDocPath = None, so_publicHttpBaseUrl = None,
     so_publicWebSocketBaseUrl = Some '' wss://sync '', so_cacheTtlMs = Some 1000, so_resolveDoc = None, so_healthCheck = None,
     so_statusInfo = None, so_packageName = None, so_packageVersion = None, so_gitSha = None, so_gitDirty = False, so_startedAt = None\<rparr>"

definition demo_discovery :: "demo_web DiscoveryServer" where
  "demo_discovery = \<lparr>dv_healthPath = ''/health'', dv_statusPath = ''/status'', dv_resolveDocPath = ''/resolve-doc'', dv_publicHttpBaseUrl = None,
     dv_publicWebSocketBaseUrl = Some ''wss://sync'', dv_cacheTtlMs = 1000,
     dv_resolveDoc = (\<lambda>docId req. ret (buildDefaultResolveDocHandler None (Some ''wss://sync'') 1000 docId req)),
     dv_healthCheck = None, dv_statusInfo = None, dv_packageName = ''@treecrdt/discovery-server-node'', dv_packageVersion = None,
     dv_gitSha = None, dv_gitDirty = False, dv_startedAt = ''now'', dv_startedAtMs = None\<rparr>"

definition demo_boot :: Url where
  "demo_boot = \<lparr>ur_protocol = ''https:'', ur_host = ''boot'', ur_pathname = ''/'', ur_search = []\<rparr>"

definition demo_web_env :: "demo_web DiscoveryEnv" where
  "demo_web_env = \<lparr>de_url = demo_url, de_now = (\<lambda>w. (Inr (snd w), w)),
     de_fetch = (\<lambda>u. bnd (discoveryRequest demo_discovery 0 (requestOf u)) (\<lambda>r. ret (replyJson r)))\<rparr>"

definition demo_web_store :: "demo_web StringStore" where
  "demo_web_store = \<lparr>ss_getItem = (\<lambda>k w. (Inr (fst w k), w)), ss_setItem = (\<lambda>k v w. (Inr (), ((fst w)(k \<mapsto> v), snd w))), ss_removeItem = None\<rparr>"

definition demo_json :: JsonText where
  "demo_json = \<lparr>jt_stringify = (\<lambda>_. ''{}''), jt_parse = (\<lambda>_. Inr (cacheEntry demo_discovery (resolveUrl demo_web_env demo_discovery demo_boot ''doc'') ''doc'' 0))\<rparr>"

lemma demo_started: "startDiscoveryServer demo_url ''now'' (\<lambda>_. None) demo_discovery_opts = Inr demo_discovery"
  by (simp add: startDiscoveryServer_def demo_discovery_opts_def demo_discovery_def demo_url_def normalizePath_def nonBlank_def
      normalizeOptionalAbsoluteUrl_def trim_js_def is_ws_def startsSlash_def stripSlash_def)

lemma demo_boot_url: "normalizeBaseUrl demo_url ''https://boot'' p = Inr demo_boot"
  "normalizeBaseUrl demo_url ''wss://sync/sync'' p = Inr \<lparr>ur_protocol = ''wss:'', ur_host = ''sync'', ur_pathname = ''/sync'', ur_search = []\<rparr>"
  by (simp_all add: normalizeBaseUrl_def demo_url_def demo_boot_def trim_js_def is_ws_def schemeChar_def isLetter_def)

theorem discovery_routes_to_sync_witness:
  "\<exists>res w'. resolveWebSocketAttachment demo_web_env ''https://boot'' ''doc''
      (Some (createStringStoreRouteCache demo_json demo_web_store ''treecrdt.discovery.'')) (Some ''/resolve-doc'') False (Map.empty, 0) = (Inr res, w')
    \<and> rw_url res = \<lparr>ur_protocol = ''wss:'', ur_host = ''sync'', ur_pathname = ''/sync'', ur_search = [(''docId'', ''doc'')]\<rparr>"
proof -
  let ?target = "\<lparr>ur_protocol = ''wss:'', ur_host = ''sync'', ur_pathname = ''/sync'', ur_search = [(''docId'', ''doc'')]\<rparr>"
  have fields: "de_url demo_web_env = demo_url" "dv_resolveDocPath demo_discovery = ''/resolve-doc''" "dv_healthPath demo_discovery = ''/health''"
    "dv_statusPath demo_discovery = ''/status''" "dv_publicWebSocketBaseUrl demo_discovery = Some ''wss://sync''" "so_resolveDoc demo_discovery_opts = None"
    by (simp_all add: demo_web_env_def demo_discovery_def demo_discovery_opts_def)
  have conn: "connectedTo demo_discovery demo_web_env" by (auto simp: connectedTo_def demo_web_env_def)
  have store: "lawful_store demo_web_store fst" "lawful_clock demo_web_env snd"
    by (simp_all add: lawful_store_def lawful_clock_def demo_web_store_def demo_web_env_def)
  have norm: "normalizeDiscoveryBaseUrl demo_url ''https://boot'' = Inr demo_boot" "isDiscoveryBootstrapUrl demo_url ''https://boot'' = Inr True"
    "normalizeDirectSyncWebSocketUrl demo_url (''wss://sync'' @ ''/sync'') ''doc'' = Inr ?target"
    "createDiscoveryCacheKey demo_url ''https://boot'' ''doc'' = Inr ''https://boot/|doc''"
    by (simp_all add: normalizeDiscoveryBaseUrl_def isDiscoveryBootstrapUrl_def normalizeDirectSyncWebSocketUrl_def createDiscoveryCacheKey_def
        demo_boot_url) (simp_all add: demo_boot_def endsWith_def Let_def)
  have rest: "ur_pathname (ua_setPath demo_url ''/resolve-doc'' demo_boot) = ''/resolve-doc''" "trim_js ''doc'' = ''doc''"
    by (simp_all add: demo_url_def trim_js_def is_ws_def)
  show ?thesis
    using discovery_routes_to_sync [of demo_discovery demo_web_env demo_url "''now''" "\<lambda>_. None" demo_discovery_opts "''wss://sync''" "''https://boot''"
        demo_boot "''doc''" ?target demo_web_store fst snd demo_json "(Map.empty, 0)" "''https://boot/|doc''" "''treecrdt.discovery.''",
        OF conn demo_started fields(6)]
    by (simp add: fields norm [simplified] norm rest store demo_json_def) blast
qed

end
