(* ===== verification/Spec2Isabelle.thy ===== *)
theory Spec2Isabelle
  imports Peer_SyncOnce Protobuf Cose_Auth_Safety Key_Store Material_Postgres Sync_Backend
    Upgrade_Hooks Doc_Store_Safety Sync_Server Sqlite_Append Wasm_Adapter
    Presence_Mesh Wa_Client Worker_Client Discovery
begin

text \<open>
  A verification development for TreeCRDT (TypeScript): the sync protocol, its wire codec and the
  authorisation layer, as shallow embeddings of the sources under \<^verbatim>\<open>packages/\<close>.

  \<^bold>\<open>The program.\<close>  Peers hold operations of a replicated tree.  A \<^verbatim>\<open>SyncPeer\<close> reconciles them with
  another peer (set reconciliation by rateless codewords, or a direct send for small scopes),
  pushes later ones to subscribers, and applies what arrives to a backend.  Messages cross the
  wire in a protobuf form.  Optional auth hooks sign and verify operations, check capability
  tokens and their delegation chains, and decide what a remote peer may read or write.

  \<^bold>\<open>Theories and sources.\<close>
  \<^item> \<open>Sync_Prelude\<close>: results (\<open>error + 'a\<close>), JavaScript maps in insertion order with their locale of
    laws, slicing loops.  \<open>Peer_Monad\<close>: methods as functions from a state to a result and a state,
    and the locale \<open>step_closed\<close> of relations every composition keeps.
  \<^item> \<open>Node_Ids\<close> (\<^verbatim>\<open>treecrdt-ts/src/ids.ts\<close>), \<open>Op_Encoding\<close> (\<^verbatim>\<open>treecrdt-ts/src/index.ts\<close>,
    \<^verbatim>\<open>sync/protocol/src/opref.ts\<close>, \<^verbatim>\<open>treecrdt-auth/src/internal/op-sig.ts\<close>, \<^verbatim>\<open>bytes.ts\<close>): identifiers,
    operations, the bytes that are hashed and signed.
  \<^item> \<open>Sync_Types\<close> (\<^verbatim>\<open>types.ts\<close>, \<^verbatim>\<open>auth.ts\<close>, \<^verbatim>\<open>auth-capabilities.ts\<close>, \<^verbatim>\<open>capabilities.ts\<close> of
    \<^verbatim>\<open>sync/protocol/src\<close>): messages and capability negotiation.
  \<^item> \<open>Peer_State\<close>, \<open>Peer_Push\<close>, \<open>Peer_Handlers\<close>, \<open>Peer_SyncOnce\<close> (\<^verbatim>\<open>sync/protocol/src/sync.ts\<close>): the state
    of a peer and its constructor; sending batches and the push loop; all message handlers;
    \<^verbatim>\<open>syncOnce\<close> and \<^verbatim>\<open>subscribe\<close> as coroutines.  \<open>Peer_Safety\<close> and \<open>Peer_Protocol\<close> hold what runs of
    events keep (locale \<open>peer_closed\<close>) and what single exchanges do.
  \<^item> \<open>Protobuf\<close> (\<^verbatim>\<open>sync/protocol/src/protobuf.ts\<close>): conversions to and from the wire messages.
  \<^item> \<open>Cbor_Cose\<close> (\<^verbatim>\<open>internal/claims.ts\<close>, \<^verbatim>\<open>cose.ts\<close>, \<^verbatim>\<open>op-sig.ts\<close> of \<^verbatim>\<open>treecrdt-auth/src\<close>), \<open>Base64url\<close>
    (\<^verbatim>\<open>base64url.ts\<close>), \<open>Scope\<close> (\<^verbatim>\<open>internal/scope.ts\<close>, \<^verbatim>\<open>sqlite.ts\<close>), \<open>Capability_Token\<close>
    (\<^verbatim>\<open>internal/capability.ts\<close>), \<open>Revocation\<close> (\<^verbatim>\<open>revocation.ts\<close> and the revocation table of
    \<^verbatim>\<open>internal/cose-cwt-auth.ts\<close>), \<open>Identity\<close> (\<^verbatim>\<open>identity.ts\<close>), \<open>Cose_Auth\<close>
    (\<^verbatim>\<open>internal/cose-cwt-auth.ts\<close>): signed envelopes, tokens, scopes, the hooks.  \<open>Cose_Auth_Safety\<close>
    holds the invariant of the hooks' state and what their answers imply.
  \<^item> \<open>Key_Store\<close> (\<^verbatim>\<open>treecrdt-crypto/src/e2ee.ts\<close>, \<^verbatim>\<open>keystore.ts\<close>): payload encryption and sealed key
    material.
  \<^item> \<open>Material_Store\<close> and \<open>Material_Refinement\<close>
    (\<^verbatim>\<open>sync/material/sqlite/src/proof-material/sqlite.ts\<close>), \<open>Keyed_Maps\<close> and \<open>Material_Postgres\<close>
    (\<^verbatim>\<open>sync/material/postgres/src/proof-material/postgres.ts\<close>): what a peer keeps of pending ops, op
    auth and capabilities, in SQLite and in Postgres, and the maps both refine.  \<open>Replay_Auth\<close>
    (\<^verbatim>\<open>sync/protocol/src/proof-material/replay-only.ts\<close>): the relay's hooks, over the locale
    \<open>op_auth_store\<close>.  \<open>Sync_Backend\<close> (\<^verbatim>\<open>sync/material/sqlite/src/backend.ts\<close>): the peer's backend
    over a SQLite client.
  \<^item> \<open>Upgrade_Gate\<close> and \<open>Sync_Server\<close> (\<^verbatim>\<open>sync/server/core/src/server.ts\<close>): the upgrade and request
    handlers with their hooks, and the connections with the registry of peers by document.
    \<open>Rate_Limit\<close>, \<open>Upgrade_Hooks\<close>, \<open>Doc_Store\<close> (\<^verbatim>\<open>sync/server/postgres-node/src/server.ts\<close>): the
    built-in hooks and the store of open documents.  \<open>Doc_Store_Safety\<close> holds its invariants.
  \<^item> \<open>Sqlite_Rows\<close>, \<open>Sqlite_Adapter\<close> and \<open>Sqlite_Append\<close> (\<^verbatim>\<open>treecrdt-ts/src/sqlite.ts\<close>,
    \<^verbatim>\<open>treecrdt-sqlite-node/src/index.ts\<close>): the decoders of engine rows, the adapter, writer and
    client over the SQLite extension, and what appending over it does; two functions of the
    extension itself (\<^verbatim>\<open>append.rs\<close>, \<^verbatim>\<open>ops.rs\<close>).  \<open>Native_Codec\<close> and \<open>Native_Engine\<close>
    (\<^verbatim>\<open>treecrdt-postgres-napi/src\<close>; the interfaces of \<^verbatim>\<open>treecrdt-ts/src/engine.ts\<close> and \<^verbatim>\<open>adapter.ts\<close>):
    the Postgres engine.  \<open>Wasm_Adapter\<close> (\<^verbatim>\<open>treecrdt-wasm-js/src/index.ts\<close>): the WebAssembly adapter.
  \<^item> \<open>Wa_Sqlite\<close>, \<open>Wa_Client\<close> and \<open>Worker_Client\<close> (\<^verbatim>\<open>rpc.ts\<close>, \<^verbatim>\<open>open.ts\<close>, \<^verbatim>\<open>opfs.ts\<close>, \<^verbatim>\<open>worker.ts\<close>, \<^verbatim>\<open>client.ts\<close> of
    \<^verbatim>\<open>treecrdt-wa-sqlite/src\<close>): the browser engine.  The first has the requests, the worker that answers
    them (\<open>workerMethod\<close>) and the direct client (\<open>directMethod\<close>); the second the engine over a call, compared
    with the Node client; the third the worker client as a machine over calls and messages (\<open>clientStep\<close>).
  \<^item> \<open>Transports\<close> (\<^verbatim>\<open>transport/index.ts\<close>, \<^verbatim>\<open>transport/browser-websocket.ts\<close>, \<^verbatim>\<open>in-memory.ts\<close> of
    \<^verbatim>\<open>sync/protocol/src\<close>): duplex transports, the queued backend, the send queue of a WebSocket.
    \<open>Presence_Mesh\<close> (\<^verbatim>\<open>presence.ts\<close>): peers that find each other over a broadcast channel.
  \<^item> \<open>Discovery\<close> (\<^verbatim>\<open>discovery/src/client.ts\<close>, \<^verbatim>\<open>discovery-server-node/src/server.ts\<close>): how a client finds the
    sync server of a document (\<open>resolveWebSocketAttachment\<close>) and what the discovery server answers.
  \<^item> This theory composes the sync peer with the hooks.

  \<^bold>\<open>State and effects.\<close>  The fields of a class or the variables closures share are a record
  (\<open>Peer\<close>, \<open>AuthState\<close>).  A method that throws keeps the changes it made before.  Collaborators
  (backend, transport, hooks, stores, callbacks, random ids, the RIBLT coder) are records of
  functions over a state of the outside world; every call may throw and change that state.  A
  promise with its resolvers is a \<open>Deferred\<close>.  A method runs to completion between two awaits
  that wait for another message; such awaits are cut points (\<open>SyncRun\<close>, \<open>SubRun\<close>).  The servers, whose
  connections and openings overlap, are folds over events (\<open>docStep\<close>, \<open>serverStep\<close>): one event for
  every call from outside and every awaited answer, in any order.  Numbers are
  integers with the range checks of the source written out, bytes are 8-bit words, strings are
  lists of characters.  Error texts are kept where code inspects them; elsewhere a text that only
  names a field may be shortened.

  \<^bold>\<open>Parameters.\<close>  CBOR, BLAKE3, UTF-8 and Ed25519 come from packages outside the repository: they
  are fields of \<open>Crypto\<close>, with their documented laws in \<open>lawful_crypto\<close> (decoding undoes encoding,
  digest and key lengths, a signature verifies under its key).  \<open>demo_crypto\<close> satisfies them.
  AES-GCM of the platform is \<open>Cipher\<close> with the law \<open>lawful_cipher\<close>.  The
  generated protobuf schema is a pair of functions in \<open>Protobuf\<close>.  A SQLite connection
  (\<open>SqliteRunner\<close>) and a Postgres pool (\<open>PgPool\<close>) are functions on a world whose tables they read
  and write; \<open>lawful_sqlite\<close> and \<open>lawful_pool\<close> give each statement of the sources its meaning, and
  let any statement fail without effect.  The client below the backend is \<open>BackendClient\<close>.
  The servers' document pattern, query of known documents, hooks of the deployment and clock are
  functions in \<open>SyncServerOptions\<close>; what backends, factories and sockets answer is in the events.
  The native Postgres module is a \<open>NativeFactory\<close> whose log obeys \<open>lawful_native\<close>; the connection
  with the SQLite extension is an \<open>ExtRunner\<close> whose statements, any of which may fail, obey
  \<open>lawful_ext\<close>; the WebAssembly engine is a \<open>WasmTree\<close> with no law.  The browser's databases and
  directories are a \<open>WaHost\<close> with no law; its broadcast channels are a \<open>ChannelApi\<close>, and \<open>lawful_mesh\<close> says
  which channels are open after each of its calls and that callbacks neither open nor close any.
  For discovery the URL parser, JSON, \<^verbatim>\<open>fetch\<close>, the string store and the clock are parameters
  (\<open>UrlApi\<close>, \<open>JsonText\<close>, \<open>DiscoveryEnv\<close>, \<open>StringStore\<close>); \<open>connectedTo\<close> joins client and server.

  \<^bold>\<open>What is shown.\<close>
  \<^item> Safety of runs: only ops the verifier allowed are applied, for arbitrary messages and
    collaborators; with the hooks, only ops signed by their replica's key under a grant traced to
    a trusted issuer.  The session tables and the grant table keep their invariants.  Peers
    without auth get nothing; a peer with tokens gets what they let it read.
  \<^item> Authorisation: the scope decision refines the abstract permission on the tree and is stable
    under more rows; delegation only narrows; chains are bounded by eight and start at an issuer;
    revocation records converge; signing, issuing and certifying round trip with verification.
  \<^item> Protocol behaviour: batches carry exactly the visible ops in order with one end marker, a
    hello is answered by a partition of its filters, pushes record all or drop the subscription,
    errors settle every promise they concern, a failed synchronisation ends and unregisters.
  \<^item> Stores: a failing operation commits nothing, both stores refine maps from op refs and answer
    alike, a relay forwards the auth it recorded, and pending ops are advertised once.
  \<^item> Servers: the gate fails closed and admits only the configured credentials, the rate limit has
    its bounds, the document store keeps one open context for a document, counts its connections
    and closes every backend it opened, a connection releases its document once.
  \<^item> Engines: the Postgres engine refines a log keyed by operation ids, a failed SQLite batch leaves
    whole chunks from the front, and where the ways to append and to read back differ.  The browser's
    clients behave like the Node client; a call to the worker is settled once, by its own response, and
    never waits after a close or an error of the worker.
  \<^item> Transports: messages are delivered in the order they were sent, a mesh has open exactly the
    channels of its connections, and what a failed apply, detach or close leaves behind.
  \<^item> Discovery: a client with a bootstrap endpoint ends at the sync endpoint the server publishes, from
    its cache while the answer is fresh.
  \<^item> Encryption: payloads and sealed keys open to what was sealed.
  \<^item> Encodings: signing bytes and op ref preimages are injective, the wire keeps operations and
    their signing bytes, identifiers and base64url round trip.

  \<^bold>\<open>Bounds.\<close>  The push loop needs two rounds because a round leaves nothing scheduled
  (\<open>runPushLoop_drains\<close>); pending ops are reprocessed for at most 100 rounds, the walk up the tree
  takes at most 100000 hops and the delegation recursion at most eight steps, all constants of
  the source.

  \<^bold>\<open>Not modelled.\<close>  The Rust crates (the tree CRDT itself, the SQLite extension, the Postgres
  engine, the RIBLT coder) are another language and appear as the engine, backend and coder
  interfaces.  Of the browser engine the compilation of the WebAssembly module and the OPFS file system
  layer are left out, of the transports the receiving half of the WebSocket; callbacks of the mesh that
  call it back are not covered, and the requests of the worker client are answered one after the other.
  Generated protobuf code, trace recording, the start-up of the servers and their Postgres
  notifications, the discovery server's command line, benchmarks, the conformance suite and the example application are left out;
  they call what is modelled here.
\<close>

section \<open>A peer with the auth hooks\<close>

text \<open>
  A peer whose collaborators live in a world \<open>'w\<close> and whose \<^verbatim>\<open>auth\<close> option is what
  \<^verbatim>\<open>createTreecrdtCoseCwtAuth\<close> returns: its world is the state of the hooks around \<open>'w\<close>.
\<close>

definition liftBackend :: "('op, 'w) SyncBackend \<Rightarrow> ('op, 'w AuthState) SyncBackend" where
  "liftBackend b = \<lparr>sb_docId = sb_docId b, sb_maxLamport = liftO (sb_maxLamport b),
     sb_listOpRefs = (\<lambda>f. liftO (sb_listOpRefs b f)), sb_getOpsByOpRefs = (\<lambda>rs. liftO (sb_getOpsByOpRefs b rs)),
     sb_applyOps = (\<lambda>ops. liftO (sb_applyOps b ops)),
     sb_storePendingOps = map_option (\<lambda>h ps. liftO (h ps)) (sb_storePendingOps b),
     sb_listPendingOps = map_option liftO (sb_listPendingOps b),
     sb_deletePendingOps = map_option (\<lambda>h ops. liftO (h ops)) (sb_deletePendingOps b)\<rparr>"

definition withCoseAuth :: "'w CoseOptions \<Rightarrow> (Operation, 'w, 'd, 'e) PeerConfig \<Rightarrow> (Operation, 'w AuthState, 'd, 'e) PeerConfig" where
  "withCoseAuth opts cfg = \<lparr>cfg_backend = liftBackend (cfg_backend cfg), cfg_send = (\<lambda>t m. liftO (cfg_send cfg t m)),
     cfg_randomId = (\<lambda>x. liftO (cfg_randomId cfg x)), cfg_decoder = cfg_decoder cfg, cfg_encoder = cfg_encoder cfg,
     maxCodewords = maxCodewords cfg, maxOpsPerBatch = maxOpsPerBatch cfg, maxHelloFilters = maxHelloFilters cfg,
     directSendThreshold = directSendThreshold cfg, requireAuthForFilters = requireAuthForFilters cfg,
     cfg_auth = Some (createTreecrdtCoseCwtAuth opts), deriveOpRef = deriveOpRef cfg\<rparr>"

text \<open>
  An op that may be applied: in some state of the hooks a recorded grant, which a token traced to
  a trusted issuer gave, authorises it under a signature of its replica's key.
\<close>

definition rightful :: "'w CoseOptions \<Rightarrow> string \<Rightarrow> Operation \<Rightarrow> bool" where
  "rightful opts docId oper \<longleftrightarrow> (\<exists>s sig g. authorises opts docId s oper sig g Allow \<and> trusted_grant opts g)"

lemma keepsW_steps: "keepsW I m \<longleftrightarrow> steps (preserves I) m"
  by (auto simp: keepsW_def steps_def preserves_def)

lemma cose_verifier_sound:
  assumes "\<not> co_allowUnsigned opts" "outside_keeps P opts"
  shows "verifier_sound (auth_inv opts P) (rightful opts (docId_of cfg)) (withCoseAuth opts cfg)"
proof -
  have ok: "rightful opts (docId_of cfg) (ops ! i)"
    if v: "auth_inv opts P s" "verifyOps opts ops auth ctx s = (Inr res, s')" "oc_docId ctx = docId_of cfg"
      "i < length ops" "allowedAt res i" for s ops auth ctx res s' i
  proof -
    obtain sig t g where t: "ensureCapabilityStoreRecorded opts (oc_docId ctx) s = (Inr (), t)"
      and "authorises opts (docId_of cfg) t (ops ! i) sig g Allow"
      using verifyOps_allowed [OF assms(1) v(2,4,5)] unfolding v(3) by blast
    moreover from t v(1) have "grants_ok opts t"
      using stepsD [OF inv_storeRecorded [OF assms(2)]] by (fastforce simp: preserves_def auth_inv_def)
    ultimately show ?thesis unfolding rightful_def by (fastforce simp: authorises_def grants_ok_def)
  qed
  have len: "length ds = length ops" if "verifyOps opts ops auth ctx s = (Inr (Some ds), s')" for ops auth ctx s ds s'
    using that verifyOps_authorised [OF assms(1) that] by (cases "ops = []") (auto simp: verifyOps_def)
  have "docId_of (withCoseAuth opts cfg) = docId_of cfg" by (simp add: docId_of_def withCoseAuth_def liftBackend_def)
  moreover have "authHook sa_verifyOps (withCoseAuth opts cfg) = Some (verifyOps opts)"
    by (simp add: authHook_def withCoseAuth_def createTreecrdtCoseCwtAuth_def)
  ultimately show ?thesis unfolding verifier_sound_def
    using ok len by (auto simp: list_all2_conv_all_nth in_set_conv_nth allowedAt_def)
qed

lemma cose_calls_keep:
  assumes "outside_keeps P opts" "calls_keep P good cfg" 
  shows "calls_keep (auth_inv opts P) good (withCoseAuth opts cfg)"
proof -
  have onHello: "keeps_inv opts P (sq (recordCapabilities opts caps docId) (helloCaps opts docId))" for caps docId
    by (intro pr.steps_sq inv_hooks assms(1))
  show ?thesis using assms(2) inv_hooks [where opts = opts and P = P] onHello assms(1)
    unfolding calls_keep_def
    by (simp add: withCoseAuth_def liftBackend_def authHook_def createTreecrdtCoseCwtAuth_def opt_all_def keepsW_steps [of "auth_inv opts P"])
      (auto intro: inv_liftO)
qed

section \<open>Properties\<close>

text \<open>
  C2: the sync peer and the auth hooks together apply only rightful ops.  Whatever messages
  arrive, in whatever order, a property of the outside world that only applying an op without a
  valid signature and a grant traced to a trusted issuer could break is never broken, as long as
  unsigned ops are not allowed.
\<close>
theorem synced_ops_rightful:
  assumes "\<not> co_allowUnsigned opts" and "outside_keeps P opts"
    and "calls_keep P (rightful opts (docId_of cfg)) cfg" and "P w"
  shows "P (au_world (world (runEvents (withCoseAuth opts cfg) evs (initPeer (initAuth w)))))"
proof -
  note peer_closed.event_respects [OF worldly_closed [OF cose_calls_keep [OF assms(2,3)]
      disjI2 [OF cose_verifier_sound [OF assms(1,2)]]]]
  then have "auth_inv opts P (world (runEvents (withCoseAuth opts cfg) evs (initPeer (initAuth w))))"
    by (rule runEvents_preserves [where Q = "\<lambda>p. auth_inv opts P (world p)"])
      (simp add: initPeer_def auth_inv_def grants_ok_def initAuth_def assms(4))
  then show ?thesis by (simp add: auth_inv_def)
qed

definition log_peer :: "(Operation, Operation list, demo_decoder_state, OpRef list) PeerConfig" where
  "log_peer = \<lparr>cfg_backend = \<lparr>sb_docId = ''doc'', sb_maxLamport = gets length, sb_listOpRefs = (\<lambda>_. ret []),
       sb_getOpsByOpRefs = (\<lambda>_. ret []), sb_applyOps = (\<lambda>ops. modify (\<lambda>w. w @ ops)), sb_storePendingOps = None,
       sb_listPendingOps = None, sb_deletePendingOps = None\<rparr>,
     cfg_send = (\<lambda>_ _. ret ()), cfg_randomId = (\<lambda>prefix. ret prefix), cfg_decoder = demo_decoder, cfg_encoder = demo_encoder,
     maxCodewords = 50000, maxOpsPerBatch = 500, maxHelloFilters = 8, directSendThreshold = 0,
     requireAuthForFilters = True, cfg_auth = None, deriveOpRef = None\<rparr>"

theorem synced_ops_rightful_witness:
  "outside_keeps (list_all (rightful (demo_cose :: Operation list CoseOptions) ''doc'')) (demo_cose :: Operation list CoseOptions)
   \<and> list_all (rightful (demo_cose :: Operation list CoseOptions) ''doc'')
      (au_world (world (runEvents (withCoseAuth demo_cose log_peer)
        [EvMessage 0 \<lparr>sm_v = 0, sm_docId = ''doc'', sm_payload = MOpsBatch \<lparr>ob_filterId = ''f'', ob_ops = [demo_delete],
           ob_auth = Some [\<lparr>oa_sig = [], oa_proofRef = None\<rparr>], ob_done = True\<rparr>\<rparr>] (initPeer (initAuth [])))))"
proof -
  have 1: "outside_keeps (list_all (rightful (demo_cose :: Operation list CoseOptions) ''doc'')) (demo_cose :: Operation list CoseOptions)"
    by (simp add: outside_keeps_def opt_all_def demo_cose_def)
  have 2: "calls_keep (list_all (rightful (demo_cose :: Operation list CoseOptions) ''doc''))
      (rightful (demo_cose :: Operation list CoseOptions) (docId_of log_peer)) log_peer"
    by (auto simp: calls_keep_def log_peer_def docId_of_def authHook_def keepsW_def opt_all_def list_all_iff)
  show ?thesis by (rule conjI [OF 1]) (rule synced_ops_rightful [OF demo_cose_simps(4) 1 2], simp)
qed

end
